(* ===== verification/Kernel_Prelude.thy ===== *)
theory Kernel_Prelude
  imports Main "HOL-Library.Word" "HOL-Library.Monad_Syntax"
begin

text \<open>
  What every component of the kernel shares.

  \<^item> The error codes of \<open>Kernel/error.hpp\<close>.  An \<open>Error\<close> object is modelled by its code
    alone: the file and line that \<open>MAKE_ERROR\<close> records are diagnostics that no code of
    the kernel branches on.  A \<open>WithError<T>\<close> is a pair.
  \<^item> Fixed-width integers, as words.
  \<^item> Undefined behaviour.  An operation that can read or write outside an array, or
    dereference a null pointer, has a result of type \<open>option\<close>, and \<open>None\<close> is the
    undefined outcome, never an error code.  The lemmas of the components show under which
    invariant \<open>None\<close> is not reached.
  \<^item> Generic facts about lists and words, and the collections the components extend:
    \<open>ub_simps\<close> (when a guarded access is defined) and \<open>frame_simps\<close> (what an
    operation leaves unchanged).
\<close>

unbundle bit_operations_syntax

named_theorems ub_simps
named_theorems frame_simps

section \<open>Integers of the source\<close>

type_synonym u8 = "8 word"
type_synonym u16 = "16 word"
type_synonym u32 = "32 word"
type_synonym u64 = "64 word"

section \<open>Error codes\<close>

datatype error_code =
    KSuccess
  | KFull
  | KEmpty
  | KNoEnoughMemory
  | KIndexOutOfRange
  | KHostControllerNotHalted
  | KInvalidSlotID
  | KPortNotConnected
  | KInvalidEndpointNumber
  | KTransferRingNotSet
  | KAlreadyAllocated
  | KNotImplemented
  | KInvalidDescriptor
  | KBufferTooSmall
  | KUnknownDevice
  | KNoCorrespondingSetupStage
  | KTransferFailed
  | KInvalidPhase
  | KUnknownXHCISpeedID
  | KNoWaiter
  | KNoPCIMSI
  | KUnknownPixelFormat
  | KNoSuchTask
  | KInvalidFormat
  | KFrameTooSmall
  | KLastOfCode

text \<open>The value the enumeration gives each code.\<close>

fun code_index :: "error_code \<Rightarrow> nat" where
  "code_index KSuccess = 0"
| "code_index KFull = 1"
| "code_index KEmpty = 2"
| "code_index KNoEnoughMemory = 3"
| "code_index KIndexOutOfRange = 4"
| "code_index KHostControllerNotHalted = 5"
| "code_index KInvalidSlotID = 6"
| "code_index KPortNotConnected = 7"
| "code_index KInvalidEndpointNumber = 8"
| "code_index KTransferRingNotSet = 9"
| "code_index KAlreadyAllocated = 10"
| "code_index KNotImplemented = 11"
| "code_index KInvalidDescriptor = 12"
| "code_index KBufferTooSmall = 13"
| "code_index KUnknownDevice = 14"
| "code_index KNoCorrespondingSetupStage = 15"
| "code_index KTransferFailed = 16"
| "code_index KInvalidPhase = 17"
| "code_index KUnknownXHCISpeedID = 18"
| "code_index KNoWaiter = 19"
| "code_index KNoPCIMSI = 20"
| "code_index KUnknownPixelFormat = 21"
| "code_index KNoSuchTask = 22"
| "code_index KInvalidFormat = 23"
| "code_index KFrameTooSmall = 24"
| "code_index KLastOfCode = 25"

definition code_names :: "string list" where
  "code_names =
    [''kSuccess'', ''kFull'', ''kEmpty'', ''kNoEnoughMemory'', ''kIndexOutOfRange'',
     ''kHostControllerNotHalted'', ''kInvalidSlotID'', ''kPortNotConnected'',
     ''kInvalidEndpointNumber'', ''kTransferRingNotSet'', ''kAlreadyAllocated'',
     ''kNotImplemented'', ''kInvalidDescriptor'', ''kBufferTooSmall'', ''kUnknownDevice'',
     ''kNoCorrespondingSetupStage'', ''kTransferFailed'', ''kInvalidPhase'',
     ''kUnknownXHCISpeedID'', ''kNoWaiter'', ''kNoPCIMSI'', ''kUnknownPixelFormat'',
     ''kNoSuchTask'', ''kInvalidFormat'', ''kFrameTooSmall'']"

text \<open>\<open>operator bool\<close> of \<open>Error\<close>: true for a failure.\<close>

definition is_error :: "error_code \<Rightarrow> bool" where
  "is_error c \<longleftrightarrow> c \<noteq> KSuccess"

lemma is_error_KSuccess [simp]: "\<not> is_error KSuccess"
  by (simp add: is_error_def)

text \<open>\<open>Error::Name\<close>; \<open>None\<close> is a read past the end of \<open>code_names_\<close>.\<close>

definition error_name :: "error_code \<Rightarrow> string option" where
  "error_name c = (if code_index c < length code_names then Some (code_names ! code_index c) else None)"

type_synonym 'a with_error = "'a \<times> error_code"

text \<open>Codes are compared by their enumeration value.\<close>

lemma code_index_inject [simp]: "code_index a = code_index b \<longleftrightarrow> a = b"
  by (cases a; cases b) simp_all

instantiation error_code :: linorder
begin

definition less_eq_error_code :: "error_code \<Rightarrow> error_code \<Rightarrow> bool" where
  "less_eq_error_code a b \<longleftrightarrow> code_index a \<le> code_index b"

definition less_error_code :: "error_code \<Rightarrow> error_code \<Rightarrow> bool" where
  "less_error_code a b \<longleftrightarrow> code_index a < code_index b"

instance
  by standard (auto simp: less_eq_error_code_def less_error_code_def)

end

section \<open>Guarded array access\<close>

text \<open>\<open>a[i]\<close> and \<open>a[i] = v\<close> on an array: outside the array the behaviour is undefined.\<close>

definition arr_get :: "'a list \<Rightarrow> nat \<Rightarrow> 'a option" where
  "arr_get xs i = (if i < length xs then Some (xs ! i) else None)"

definition arr_set :: "'a list \<Rightarrow> nat \<Rightarrow> 'a \<Rightarrow> 'a list option" where
  "arr_set xs i v = (if i < length xs then Some (xs[i := v]) else None)"

lemma arr_get_Some [ub_simps]: "i < length xs \<Longrightarrow> arr_get xs i = Some (xs ! i)"
  by (simp add: arr_get_def)

lemma arr_set_Some [ub_simps]: "i < length xs \<Longrightarrow> arr_set xs i v = Some (xs[i := v])"
  by (simp add: arr_set_def)

lemma arr_get_eq_Some [simp]: "arr_get xs i = Some v \<longleftrightarrow> i < length xs \<and> v = xs ! i"
  by (auto simp: arr_get_def)

lemma arr_set_eq_Some [simp]: "arr_set xs i v = Some ys \<longleftrightarrow> i < length xs \<and> ys = xs[i := v]"
  by (auto simp: arr_set_def)

section \<open>Lists\<close>

lemma distinct_removeAll_count:
  "distinct xs \<Longrightarrow> x \<in> set xs \<Longrightarrow> Suc (length (removeAll x xs)) = length xs"
  using length_remove1 [of x xs] length_pos_if_in_set [of x xs]
  by (simp add: distinct_remove1_removeAll)

lemma distinct_count_list: "distinct xs \<Longrightarrow> count_list xs x = (if x \<in> set xs then 1 else 0)"
  by (induction xs) auto

lemma find_eq_SomeD: "List.find P xs = Some x \<Longrightarrow> x \<in> set xs \<and> P x"
  by (auto simp: find_Some_iff)

lemma find_None_iff_all: "List.find P xs = None \<longleftrightarrow> (\<forall>x \<in> set xs. \<not> P x)"
  by (auto simp: find_None_iff)

section \<open>Words\<close>

lemma unat_add_no_wrap:
  "unat a + unat b < 2 ^ LENGTH('a) \<Longrightarrow> unat (a + b) = unat a + unat b" for a b :: "'a::len word"
  by (simp add: unat_word_ariths)

lemma unat_sub_no_wrap:
  "unat b \<le> unat a \<Longrightarrow> unat (a - b) = unat a - unat b" for a b :: "'a::len word"
  by (metis unat_sub word_le_nat_alt)

text \<open>Rounding down to, and the remainder by, a power of two.\<close>

lemma and_not_mask_unat: "unat (x AND NOT (mask n)) = unat x div 2 ^ n * 2 ^ n" for x :: "'a::len word"
proof -
  have "x AND NOT (mask n) = push_bit n (drop_bit n x)"
    by (rule bit_word_eqI) (auto simp: bit_simps)
  then have "unat (x AND NOT (mask n)) = take_bit LENGTH('a) (push_bit n (unat (drop_bit n x)))"
    by (simp only: unsigned_push_bit_eq)
  also have "unat (drop_bit n x) = unat x div 2 ^ n" by (simp only: unat_drop_bit_eq drop_bit_eq_div [where 'a=nat])
  finally have "unat (x AND NOT (mask n)) = (unat x div 2 ^ n * 2 ^ n) mod 2 ^ LENGTH('a)"
    by (simp only: push_bit_eq_mult [where 'a=nat] take_bit_eq_mod [where 'a=nat])
  moreover have "unat x div 2 ^ n * 2 ^ n < 2 ^ LENGTH('a)"
    by (rule le_less_trans [OF div_times_less_eq_dividend unsigned_less])
  ultimately show ?thesis by (simp only: mod_less)
qed

lemma and_mask_unat: "unat (x AND mask n) = unat x mod 2 ^ n" for x :: "'a::len word"
  by (simp only: take_bit_eq_mask [symmetric] unsigned_take_bit_eq
       take_bit_eq_mod [where 'a=nat])

lemma shift_left_unat: "unat x * 2 ^ n < 2 ^ LENGTH('a) \<Longrightarrow>
    unat (push_bit n x) = unat x * 2 ^ n" for x :: "'a::len word"
  by (simp only: unsigned_push_bit_eq push_bit_eq_mult [where 'a=nat]
      take_bit_eq_mod [where 'a=nat] mod_less)

section \<open>Blocks of memory\<close>

text \<open>Blocks one after the other, from \<open>lo\<close> upwards and up to \<open>hi\<close>.\<close>

fun blocks_within :: "nat \<Rightarrow> nat \<Rightarrow> (u64 \<times> nat) list \<Rightarrow> bool" where
  "blocks_within lo hi [] = True"
| "blocks_within lo hi ((a, n) # bs) =
    (lo \<le> unat a \<and> unat a + n \<le> hi \<and> blocks_within (unat a + n) hi bs)"

lemma blocks_within_mono: "blocks_within lo hi bs \<Longrightarrow> lo' \<le> lo \<Longrightarrow> blocks_within lo' hi bs"
  by (cases bs) auto

section \<open>Reachable states\<close>

text \<open>The states a machine with initial states \<open>init\<close> and steps \<open>step\<close> can be in.\<close>

inductive reach :: "('s \<Rightarrow> bool) \<Rightarrow> ('s \<Rightarrow> 's \<Rightarrow> bool) \<Rightarrow> 's \<Rightarrow> bool"
  for init :: "'s \<Rightarrow> bool" and step :: "'s \<Rightarrow> 's \<Rightarrow> bool" where
  reach_init: "init s \<Longrightarrow> reach init step s"
| reach_step: "reach init step s \<Longrightarrow> step s s' \<Longrightarrow> reach init step s'"

text \<open>
  The contract of a component that keeps an invariant: it holds at the start and no step breaks it.
\<close>

locale safe_system =
  fixes init :: "'s \<Rightarrow> bool"
    and step :: "'s \<Rightarrow> 's \<Rightarrow> bool"
    and inv :: "'s \<Rightarrow> bool"
  assumes inv_init: "init s \<Longrightarrow> inv s"
    and inv_step: "step s s' \<Longrightarrow> inv s \<Longrightarrow> inv s'"
begin

lemma reach_inv: "reach init step s \<Longrightarrow> inv s"
  by (induction rule: reach.induct) (auto intro: inv_init inv_step)

lemma reach_inv_step: "reach init step s \<Longrightarrow> step s s' \<Longrightarrow> inv s'"
  by (rule inv_step [OF _ reach_inv])

end

end
