(* ===== verification/Array_Queue.thy ===== *)
theory Array_Queue
  imports Kernel_Prelude
begin

text \<open>
  The ring buffer \<open>ArrayQueue<T>\<close> of \<open>Kernel/queue.hpp\<close>: a borrowed array, a read and a
  write position, a count and a fixed capacity.  \<open>aq_items\<close> is its abstraction to the list of
  queued values, oldest first; the locale \<open>fifo_queue\<close> is the contract a client relies on, and
  \<open>aq\<close> interprets it on the ring buffer.
\<close>

record 'a array_queue =
  aq_data :: "'a list"
  aq_read_pos :: nat
  aq_write_pos :: nat
  aq_count :: nat
  aq_capacity :: nat

text \<open>The constructor over a buffer and a size.\<close>

definition aq_new :: "'a list \<Rightarrow> nat \<Rightarrow> 'a array_queue" where
  "aq_new buf n =
    \<lparr>aq_data = buf, aq_read_pos = 0, aq_write_pos = 0, aq_count = 0, aq_capacity = n\<rparr>"

text \<open>The constructor over a \<open>std::array\<close>, which passes the array's own size.\<close>

definition aq_of_array :: "'a list \<Rightarrow> 'a array_queue" where
  "aq_of_array buf = aq_new buf (length buf)"

definition aq_push :: "'a \<Rightarrow> 'a array_queue \<Rightarrow> (error_code \<times> 'a array_queue) option" where
  "aq_push v q =
    (if aq_count q = aq_capacity q then Some (KFull, q)
     else do {
       d \<leftarrow> arr_set (aq_data q) (aq_write_pos q) v;
       Some (KSuccess,
         q\<lparr>aq_data := d, aq_count := aq_count q + 1,
           aq_write_pos := (aq_write_pos q + 1) mod aq_capacity q\<rparr>)
     })"

definition aq_pop :: "'a array_queue \<Rightarrow> error_code \<times> 'a array_queue" where
  "aq_pop q =
    (if aq_count q = 0 then (KEmpty, q)
     else (KSuccess,
       q\<lparr>aq_count := aq_count q - 1, aq_read_pos := (aq_read_pos q + 1) mod aq_capacity q\<rparr>))"

definition aq_front :: "'a array_queue \<Rightarrow> 'a option" where
  "aq_front q = arr_get (aq_data q) (aq_read_pos q)"

section \<open>Abstraction and invariant\<close>

definition aq_items :: "'a array_queue \<Rightarrow> 'a list" where
  "aq_items q =
    map (\<lambda>i. aq_data q ! ((aq_read_pos q + i) mod aq_capacity q)) [0..<aq_count q]"

definition aq_inv :: "'a array_queue \<Rightarrow> bool" where
  "aq_inv q \<longleftrightarrow>
    length (aq_data q) = aq_capacity q \<and> aq_count q \<le> aq_capacity q \<and>
    (0 < aq_capacity q \<longrightarrow> aq_read_pos q < aq_capacity q) \<and>
    aq_write_pos q = (if aq_capacity q = 0 then 0 else (aq_read_pos q + aq_count q) mod aq_capacity q)"

lemma length_aq_items [simp]: "length (aq_items q) = aq_count q"
  by (simp add: aq_items_def)

lemma aq_items_nth:
  "i < aq_count q \<Longrightarrow> aq_items q ! i = aq_data q ! ((aq_read_pos q + i) mod aq_capacity q)"
  by (simp add: aq_items_def)

lemma aq_inv_of_array: "aq_inv (aq_of_array buf)"
  by (simp add: aq_inv_def aq_of_array_def aq_new_def)

lemma aq_inv_count: "aq_inv q \<Longrightarrow> aq_count q \<le> aq_capacity q"
  by (simp add: aq_inv_def)

text \<open>Two offsets below the capacity fall on the same cell only when they are equal.\<close>

lemma ring_index_inject:
  fixes r i j c :: nat
  assumes "(r + i) mod c = (r + j) mod c" and "i < c" and "j < c"
  shows "i = j"
proof -
  have "i mod c = j mod c"
    using assms(1) by (simp add: nat_mod_eq_iff)
  with assms(2,3) show ?thesis by simp
qed

section \<open>The contract of a bounded FIFO queue\<close>

text \<open>Pushing a list of values in order; an error or undefined behaviour stops the run.\<close>

fun push_seq :: "('a \<Rightarrow> 'q \<Rightarrow> (error_code \<times> 'q) option) \<Rightarrow> 'a list \<Rightarrow> 'q \<Rightarrow> 'q option" where
  "push_seq push [] q = Some q"
| "push_seq push (x # xs) q =
    (case push x q of
       Some (KSuccess, q') \<Rightarrow> push_seq push xs q'
     | _ \<Rightarrow> None)"

text \<open>Reading and popping \<open>n\<close> values.\<close>

fun drain_seq ::
  "('q \<Rightarrow> 'a option) \<Rightarrow> ('q \<Rightarrow> error_code \<times> 'q) \<Rightarrow> nat \<Rightarrow> 'q \<Rightarrow> ('a list \<times> 'q) option" where
  "drain_seq front pop 0 q = Some ([], q)"
| "drain_seq front pop (Suc n) q =
    (case (front q, pop q) of
       (Some x, (KSuccess, q')) \<Rightarrow> map_option (apfst (Cons x)) (drain_seq front pop n q')
     | _ \<Rightarrow> None)"

text \<open>
  Any sequence of pushes and pops.  A pop yields the value at the front before it, as the kernel's
  message loop reads it; \<open>ops_ref\<close> is the same sequence on a bounded list.
\<close>

datatype 'a queue_op = OpPush 'a | OpPop

fun ops_run ::
  "('a \<Rightarrow> 'q \<Rightarrow> (error_code \<times> 'q) option) \<Rightarrow> ('q \<Rightarrow> error_code \<times> 'q) \<Rightarrow> ('q \<Rightarrow> 'a option) \<Rightarrow>
    'a queue_op list \<Rightarrow> 'q \<Rightarrow> ((error_code \<times> 'a option) list \<times> 'q) option" where
  "ops_run push pop front [] q = Some ([], q)"
| "ops_run push pop front (OpPush v # ops) q = do {
     (e, q') \<leftarrow> push v q;
     map_option (apfst (Cons (e, None))) (ops_run push pop front ops q')
   }"
| "ops_run push pop front (OpPop # ops) q =
    (case pop q of
       (KSuccess, q') \<Rightarrow> map_option (apfst (Cons (KSuccess, front q))) (ops_run push pop front ops q')
     | (e, q') \<Rightarrow> map_option (apfst (Cons (e, None))) (ops_run push pop front ops q'))"

fun ops_ref :: "nat \<Rightarrow> 'a queue_op list \<Rightarrow> 'a list \<Rightarrow> (error_code \<times> 'a option) list \<times> 'a list" where
  "ops_ref n [] xs = ([], xs)"
| "ops_ref n (OpPush v # ops) xs =
    (if length xs < n then apfst (Cons (KSuccess, None)) (ops_ref n ops (xs @ [v]))
     else apfst (Cons (KFull, None)) (ops_ref n ops xs))"
| "ops_ref n (OpPop # ops) xs =
    (case xs of
       [] \<Rightarrow> apfst (Cons (KEmpty, None)) (ops_ref n ops [])
     | x # rest \<Rightarrow> apfst (Cons (KSuccess, Some x)) (ops_ref n ops rest))"

locale fifo_queue =
  fixes push :: "'a \<Rightarrow> 'q \<Rightarrow> (error_code \<times> 'q) option"
    and pop :: "'q \<Rightarrow> error_code \<times> 'q"
    and front :: "'q \<Rightarrow> 'a option"
    and items :: "'q \<Rightarrow> 'a list"
    and bound :: "'q \<Rightarrow> nat"
    and valid :: "'q \<Rightarrow> bool"
  assumes push_room: "valid q \<Longrightarrow> length (items q) < bound q \<Longrightarrow>
      \<exists>q'. push x q = Some (KSuccess, q') \<and> valid q' \<and> items q' = items q @ [x] \<and> bound q' = bound q"
    and push_full: "valid q \<Longrightarrow> length (items q) = bound q \<Longrightarrow> push x q = Some (KFull, q)"
    and items_bound: "valid q \<Longrightarrow> length (items q) \<le> bound q"
    and pop_items: "valid q \<Longrightarrow> items q = x # xs \<Longrightarrow>
      \<exists>q'. pop q = (KSuccess, q') \<and> valid q' \<and> items q' = xs \<and> bound q' = bound q"
    and pop_empty: "valid q \<Longrightarrow> items q = [] \<Longrightarrow> pop q = (KEmpty, q)"
    and front_items: "valid q \<Longrightarrow> items q = x # xs \<Longrightarrow> front q = Some x"
begin

lemma push_seq_items:
  "valid q \<Longrightarrow> length (items q) + length xs \<le> bound q \<Longrightarrow>
    \<exists>q'. push_seq push xs q = Some q' \<and> valid q' \<and> items q' = items q @ xs \<and> bound q' = bound q"
proof (induction xs arbitrary: q)
  case Nil
  then show ?case by simp
next
  case (Cons x xs)
  from Cons.prems obtain q1 where q1: "push x q = Some (KSuccess, q1)" "valid q1"
      "items q1 = items q @ [x]" "bound q1 = bound q"
    using push_room [of q x] by auto
  with Cons.prems Cons.IH [of q1] show ?case by auto
qed

lemma drain_seq_items:
  "valid q \<Longrightarrow> items q = xs @ ys \<Longrightarrow>
    \<exists>q'. drain_seq front pop (length xs) q = Some (xs, q') \<and> valid q' \<and> items q' = ys \<and> bound q' = bound q"
proof (induction xs arbitrary: q)
  case Nil
  then show ?case by simp
next
  case (Cons x xs)
  from Cons.prems obtain q1 where q1: "pop q = (KSuccess, q1)" "valid q1" "items q1 = xs @ ys"
      "bound q1 = bound q"
    using pop_items [of q x "xs @ ys"] by auto
  from Cons.prems have "front q = Some x" by (simp add: front_items)
  with q1 Cons.IH [OF q1(2,3)] show ?case by auto
qed

lemma fifo_order:
  assumes "valid q" and "items q = []" and "length xs \<le> bound q"
  shows "\<exists>q1 q2. push_seq push xs q = Some q1 \<and> drain_seq front pop (length xs) q1 = Some (xs, q2)
           \<and> valid q2 \<and> items q2 = []"
proof -
  from push_seq_items [of q xs] assms obtain q1
    where q1: "push_seq push xs q = Some q1" "valid q1" "items q1 = xs @ []" by auto
  from drain_seq_items [OF q1(2,3)] q1(1) show ?thesis by blast
qed

lemma ops_run_ref:
  "valid q \<Longrightarrow> ops_ref (bound q) ops (items q) = (outs, xs) \<Longrightarrow>
    \<exists>q'. ops_run push pop front ops q = Some (outs, q') \<and> valid q' \<and> items q' = xs \<and> bound q' = bound q"
proof (induction ops arbitrary: q outs)
  case Nil
  then show ?case by simp
next
  case (Cons oper ops)
  show ?case
  proof (cases oper)
    case (OpPush v)
    show ?thesis
    proof (cases "length (items q) < bound q")
      case True
      with push_room [OF Cons.prems(1)] obtain q1 where q1: "push v q = Some (KSuccess, q1)" "valid q1"
        "items q1 = items q @ [v]" "bound q1 = bound q" by blast
      with True OpPush Cons.prems(2) Cons.IH [OF q1(2)] show ?thesis
        by (cases "ops_ref (bound q) ops (items q1)") fastforce
    next
      case False
      then have "push v q = Some (KFull, q)"
        using push_full items_bound Cons.prems(1) by (simp add: le_antisym)
      with False OpPush Cons.prems Cons.IH [OF Cons.prems(1)] show ?thesis
        by (cases "ops_ref (bound q) ops (items q)") fastforce
    qed
  next
    case OpPop
    show ?thesis
    proof (cases "items q")
      case Nil
      with OpPop Cons.prems pop_empty Cons.IH [OF Cons.prems(1)] show ?thesis
        by (cases "ops_ref (bound q) ops (items q)") fastforce
    next
      case (Cons x rest)
      with pop_items Cons.prems(1) obtain q1 where q1: "pop q = (KSuccess, q1)" "valid q1"
        "items q1 = rest" "bound q1 = bound q" by blast
      have "front q = Some x" using Cons Cons.prems(1) by (simp add: front_items)
      with q1 OpPop Cons Cons.prems(2) Cons.IH [OF q1(2)] show ?thesis
        by (cases "ops_ref (bound q) ops (items q1)") fastforce
    qed
  qed
qed

end

section \<open>The ring buffer meets the contract\<close>

lemma aq_push_room:
  assumes inv: "aq_inv q" and room: "aq_count q < aq_capacity q"
  shows "\<exists>q'. aq_push v q = Some (KSuccess, q') \<and> aq_inv q' \<and> aq_items q' = aq_items q @ [v]
           \<and> aq_capacity q' = aq_capacity q"
proof -
  let ?c = "aq_capacity q" and ?r = "aq_read_pos q" and ?n = "aq_count q"
  let ?w = "(?r + ?n) mod ?c"
  have c: "0 < ?c" and w: "aq_write_pos q = ?w" "?w < length (aq_data q)"
    using inv room by (auto simp: aq_inv_def)
  let ?q = "q\<lparr>aq_data := (aq_data q)[?w := v], aq_count := ?n + 1, aq_write_pos := (?w + 1) mod ?c\<rparr>"
  have push: "aq_push v q = Some (KSuccess, ?q)"
    using room w by (simp add: aq_push_def arr_set_Some)
  have inv': "aq_inv ?q"
    using inv room c by (simp add: aq_inv_def mod_Suc_eq)
  have other: "?w \<noteq> (?r + i) mod ?c" if "i < ?n" for i
    using ring_index_inject [of ?r i ?c ?n] that room by auto
  have "aq_items ?q = aq_items q @ [v]"
    using w(2) other by (auto simp: aq_items_def)
  with push inv' show ?thesis by simp
qed

lemma aq_pop_items:
  assumes inv: "aq_inv q" and items: "aq_items q = x # xs"
  shows "\<exists>q'. aq_pop q = (KSuccess, q') \<and> aq_inv q' \<and> aq_items q' = xs \<and> aq_capacity q' = aq_capacity q"
proof -
  let ?c = "aq_capacity q" and ?r = "aq_read_pos q" and ?n = "aq_count q"
  have n: "0 < ?n" using items length_aq_items [of q] by (simp del: length_aq_items)
  then have c: "0 < ?c" using inv by (auto simp: aq_inv_def)
  let ?q = "q\<lparr>aq_count := ?n - 1, aq_read_pos := (?r + 1) mod ?c\<rparr>"
  obtain m where m: "?n = Suc m" using n by (cases ?n) auto
  have "((?r + 1) mod ?c + (?n - 1)) mod ?c = (?r + ?n) mod ?c"
    by (simp add: m mod_add_left_eq)
  then have inv': "aq_inv ?q" using inv c by (auto simp: aq_inv_def)
  have "aq_items ?q = tl (aq_items q)"
    using n by (auto simp: aq_items_def mod_add_left_eq nth_tl intro!: nth_equalityI)
  with items n inv' show ?thesis by (simp add: aq_pop_def)
qed

lemma aq_front_items: "aq_inv q \<Longrightarrow> aq_items q = x # xs \<Longrightarrow> aq_front q = Some x"
proof -
  assume inv: "aq_inv q" and items: "aq_items q = x # xs"
  have n: "0 < aq_count q" using items length_aq_items [of q] by (simp del: length_aq_items)
  then have r: "aq_read_pos q < aq_capacity q" "aq_capacity q = length (aq_data q)"
    using inv by (auto simp: aq_inv_def)
  have "x = aq_items q ! 0" using items by simp
  with n r show ?thesis by (simp add: aq_front_def aq_items_nth)
qed

interpretation aq: fifo_queue aq_push aq_pop aq_front aq_items aq_capacity aq_inv
proof unfold_locales
  fix q :: "'a array_queue" and x
  assume "aq_inv q" and "length (aq_items q) < aq_capacity q"
  then show "\<exists>q'. aq_push x q = Some (KSuccess, q') \<and> aq_inv q' \<and> aq_items q' = aq_items q @ [x]
      \<and> aq_capacity q' = aq_capacity q"
    by (simp add: aq_push_room)
next
  fix q :: "'a array_queue" and x
  assume "aq_items q = []"
  then have "aq_count q = 0" using length_aq_items [of q] by (simp del: length_aq_items)
  then show "aq_pop q = (KEmpty, q)" by (simp add: aq_pop_def)
qed (auto simp: aq_push_def intro: aq_pop_items aq_front_items aq_inv_count)

section \<open>What a client sees\<close>

text \<open>
  C13: a ring buffer over an array behaves as a bounded FIFO list for every sequence of pushes and
  pops: it never touches memory outside the array, refuses a push with \<open>kFull\<close> exactly when as many
  values are queued as the array has cells, refuses a pop with \<open>kEmpty\<close> exactly when none is, and
  every successful pop yields the oldest queued value.
\<close>

theorem array_queue_refines_list:
  "\<exists>q'. ops_run aq_push aq_pop aq_front ops (aq_of_array buf) =
      Some (fst (ops_ref (length buf) ops []), q')
    \<and> aq_items q' = snd (ops_ref (length buf) ops []) \<and> aq_inv q'"
proof -
  have "aq_items (aq_of_array buf) = []" "aq_capacity (aq_of_array buf) = length buf"
    by (simp_all add: aq_items_def aq_of_array_def aq_new_def)
  then show ?thesis
    using aq.ops_run_ref [OF aq_inv_of_array [of buf], of ops] by (cases "ops_ref (length buf) ops []") auto
qed

end
