(* ===== verification/Kernel_Message.thy ===== *)
theory Kernel_Message
  imports Kernel_Prelude
begin

text \<open>
  The messages of \<open>Kernel/message.hpp\<close>.  \<open>Message\<close> is a tagged union: its tag and the member
  of the union that belongs to it are one datatype here, and \<open>src_task\<close> stays beside it.
\<close>

datatype layer_operation = LMove | LMoveRelative | LDraw | LDrawArea

datatype message_body =
    InterruptXHCI
  | TimerTimeout (msg_timeout: u64) (msg_value: int)
  | KeyPush (msg_keycode: u8) (msg_modifier: u8) (msg_ascii: u8)
  | LayerMsg (msg_op: layer_operation) (msg_layer_id: u32)
      (msg_x: int) (msg_y: int) (msg_w: int) (msg_h: int)
  | LayerFinish

record message =
  msg_body :: message_body
  msg_src_task :: u64

text \<open>A message built with its tag alone: \<open>Message{Message::kTimerTimeout}\<close> leaves \<open>src_task\<close> zero.\<close>

definition mk_message :: "message_body \<Rightarrow> message" where
  "mk_message b = \<lparr>msg_body = b, msg_src_task = 0\<rparr>"

end
