(* ===== verification/Task_Sched.thy ===== *)
theory Task_Sched
  imports Kernel_Message
begin

text \<open>
  Tasks and the scheduler: \<open>Kernel/task.hpp\<close>, \<open>Kernel/task.cpp\<close> and the two context switches of
  \<open>Kernel/asmfunc.asm\<close>.

  A \<open>Task*\<close> is the task's position in \<open>tasks_\<close>, a vector that only grows.  \<open>running_\<close> is the
  list of the four run queues, \<open>cpu\<close> the register state of the processor.  Every operation that
  indexes an array or takes the front of a queue has \<open>None\<close> for the undefined outcome.
\<close>

section \<open>Data\<close>

record task_context =
  cx_cr3 :: u64
  cx_rip :: u64
  cx_rflags :: u64
  cx_reserved1 :: u64
  cx_cs :: u64
  cx_ss :: u64
  cx_fs :: u64
  cx_gs :: u64
  cx_rax :: u64
  cx_rbx :: u64
  cx_rcx :: u64
  cx_rdx :: u64
  cx_rdi :: u64
  cx_rsi :: u64
  cx_rsp :: u64
  cx_rbp :: u64
  cx_r8 :: u64
  cx_r9 :: u64
  cx_r10 :: u64
  cx_r11 :: u64
  cx_r12 :: u64
  cx_r13 :: u64
  cx_r14 :: u64
  cx_r15 :: u64
  cx_fxsave :: "u8 list"

text \<open>\<open>memset(&context_, 0, sizeof(context_))\<close>.\<close>

definition zero_context :: task_context where
  "zero_context =
    \<lparr>cx_cr3 = 0, cx_rip = 0, cx_rflags = 0, cx_reserved1 = 0, cx_cs = 0, cx_ss = 0, cx_fs = 0,
     cx_gs = 0, cx_rax = 0, cx_rbx = 0, cx_rcx = 0, cx_rdx = 0, cx_rdi = 0, cx_rsi = 0,
     cx_rsp = 0, cx_rbp = 0, cx_r8 = 0, cx_r9 = 0, cx_r10 = 0, cx_r11 = 0, cx_r12 = 0,
     cx_r13 = 0, cx_r14 = 0, cx_r15 = 0, cx_fxsave = replicate 512 0\<rparr>"

record task =
  tk_id :: u64
  tk_stack :: "u64 list"
  tk_os_stack_ptr :: u64
  tk_context :: task_context
  tk_messages :: "message list"
  tk_level :: nat
  tk_running :: bool

definition kDefaultLevel :: nat where
  "kDefaultLevel = 1"

definition kDefaultStackBytes :: nat where
  "kDefaultStackBytes = 4096"

definition kMaxLevel :: nat where
  "kMaxLevel = 3"

text \<open>
  \<open>Task::Task\<close>.  \<open>os_stack_ptr_\<close> and \<open>context_\<close> have no initialiser: \<open>osp\<close> and \<open>ctx\<close> are what
  the memory of the new object holds.
\<close>

definition task_new :: "u64 \<Rightarrow> task_context \<Rightarrow> u64 \<Rightarrow> task" where
  "task_new osp ctx i =
    \<lparr>tk_id = i, tk_stack = [], tk_os_stack_ptr = osp, tk_context = ctx, tk_messages = [],
     tk_level = kDefaultLevel, tk_running = False\<rparr>"

text \<open>
  \<open>Task::InitContext\<close>: \<open>f\<close> is the address of the task's function, \<open>data\<close> its argument, \<open>cr3\<close>
  what \<open>GetCR3\<close> returns and \<open>base\<close> the address at which the resized \<open>stack_\<close> lies.  Elements
  added by \<open>resize\<close> are zero.
\<close>

definition task_init_context :: "u64 \<Rightarrow> u64 \<Rightarrow> u64 \<Rightarrow> u64 \<Rightarrow> task \<Rightarrow> task" where
  "task_init_context f data cr3 base k =
    (let stack_size = kDefaultStackBytes div 8;
         stack_end = base + 8 * of_nat stack_size;
         ctx = zero_context\<lparr>
           cx_cr3 := cr3, cx_rflags := 0x202, cx_cs := 8, cx_ss := 16,
           cx_rsp := (stack_end AND NOT 0xF) - 8,
           cx_rip := f, cx_rdi := tk_id k, cx_rsi := data,
           cx_fxsave := (replicate 512 0)[24 := 0x80, 25 := 0x1F, 26 := 0, 27 := 0]\<rparr>
     in k\<lparr>tk_stack := take stack_size (tk_stack k @ replicate stack_size 0), tk_context := ctx\<rparr>)"

record task_manager =
  tasks :: "task list"
  latest_id :: u64
  run_queues :: "nat list list"
  current_level :: nat
  level_changed :: bool
  cpu :: task_context

definition tm_task :: "task_manager \<Rightarrow> nat \<Rightarrow> task option" where
  "tm_task tm t = arr_get (tasks tm) t"

definition tm_update :: "nat \<Rightarrow> (task \<Rightarrow> task) \<Rightarrow> task_manager \<Rightarrow> task_manager option" where
  "tm_update t f tm =
    (if t < length (tasks tm) then Some (tm\<lparr>tasks := (tasks tm)[t := f (tasks tm ! t)]\<rparr>) else None)"

section \<open>Run queues\<close>

text \<open>\<open>TaskManager::NewTask\<close>: the new task's position and the new state.\<close>

definition new_task :: "u64 \<Rightarrow> task_context \<Rightarrow> task_manager \<Rightarrow> nat \<times> task_manager" where
  "new_task osp ctx tm =
    (let i = latest_id tm + 1
     in (length (tasks tm), tm\<lparr>latest_id := i, tasks := tasks tm @ [task_new osp ctx i]\<rparr>))"

definition current_task :: "task_manager \<Rightarrow> nat option" where
  "current_task tm = do {
     q \<leftarrow> arr_get (run_queues tm) (current_level tm);
     (case q of [] \<Rightarrow> None | t # _ \<Rightarrow> Some t)
   }"

text \<open>The search for the highest level with a task, from \<open>lv\<close> downwards.\<close>

fun find_level :: "nat list list \<Rightarrow> nat \<Rightarrow> nat option" where
  "find_level qs 0 = (if qs ! 0 \<noteq> [] then Some 0 else None)"
| "find_level qs (Suc lv) = (if qs ! Suc lv \<noteq> [] then Some (Suc lv) else find_level qs lv)"

definition rotate_run_queue :: "bool \<Rightarrow> task_manager \<Rightarrow> (nat \<times> task_manager) option" where
  "rotate_run_queue current_sleep tm = do {
     q \<leftarrow> arr_get (run_queues tm) (current_level tm);
     (case q of
        [] \<Rightarrow> None
      | cur # rest \<Rightarrow>
          (let q' = (if current_sleep then rest else rest @ [cur]);
               qs = (run_queues tm)[current_level tm := q'];
               tm1 = tm\<lparr>run_queues := qs\<rparr>
           in if level_changed tm \<or> q' = []
              then Some (cur, tm1\<lparr>level_changed := False,
                current_level := (case find_level qs kMaxLevel of
                  Some lv \<Rightarrow> lv | None \<Rightarrow> current_level tm)\<rparr>)
              else Some (cur, tm1)))
   }"

text \<open>\<open>RestoreContext\<close> loads the processor from a task's saved context.\<close>

definition restore_context :: "nat \<Rightarrow> task_manager \<Rightarrow> task_manager option" where
  "restore_context t tm = do {
     k \<leftarrow> tm_task tm t;
     Some (tm\<lparr>cpu := tk_context k\<rparr>)
   }"

text \<open>
  \<open>SwitchContext\<close> saves the processor into the current task and falls into \<open>RestoreContext\<close>.  \<open>cpu\<close>
  is the register state the caller sees on return: the saved instruction pointer is the return
  address, the saved stack pointer the one above it.  \<open>reserved1\<close> is no register: the assembly
  neither saves nor loads it, here it travels with the others.
\<close>

definition switch_context :: "nat \<Rightarrow> nat \<Rightarrow> task_manager \<Rightarrow> task_manager option" where
  "switch_context nxt cur tm = do {
     tm1 \<leftarrow> tm_update cur (tk_context_update (\<lambda>_. cpu tm)) tm;
     restore_context nxt tm1
   }"

definition switch_task :: "task_context \<Rightarrow> task_manager \<Rightarrow> task_manager option" where
  "switch_task ctx tm = do {
     c \<leftarrow> current_task tm;
     tm1 \<leftarrow> tm_update c (tk_context_update (\<lambda>_. ctx)) tm;
     (cur, tm2) \<leftarrow> rotate_run_queue False tm1;
     nxt \<leftarrow> current_task tm2;
     (if nxt \<noteq> cur then restore_context nxt tm2 else Some tm2)
   }"

section \<open>Sleeping and waking\<close>

definition sleep_task :: "nat \<Rightarrow> task_manager \<Rightarrow> task_manager option" where
  "sleep_task t tm = do {
     k \<leftarrow> tm_task tm t;
     (if \<not> tk_running k then Some tm
      else do {
        tm1 \<leftarrow> tm_update t (tk_running_update (\<lambda>_. False)) tm;
        front \<leftarrow> current_task tm1;
        (if t = front then do {
           (cur, tm2) \<leftarrow> rotate_run_queue True tm1;
           nxt \<leftarrow> current_task tm2;
           switch_context nxt cur tm2
         } else do {
           q \<leftarrow> arr_get (run_queues tm1) (tk_level k);
           Some (tm1\<lparr>run_queues := (run_queues tm1)[tk_level k := removeAll t q]\<rparr>)
         })
      })
   }"

text \<open>
  \<open>TaskManager::ChangeLevelRunning\<close>.  The first branch removes the task from the queue of
  \<open>current_level_\<close>, as the code does.
\<close>

definition change_level_running :: "nat \<Rightarrow> int \<Rightarrow> task_manager \<Rightarrow> task_manager option" where
  "change_level_running t level tm = do {
     k \<leftarrow> tm_task tm t;
     (if level < 0 \<or> level = int (tk_level k) then Some tm
      else do {
        front \<leftarrow> current_task tm;
        (let lv = nat level; cl = current_level tm in
         if t \<noteq> front then do {
           q \<leftarrow> arr_get (run_queues tm) cl;
           q1 \<leftarrow> arr_get ((run_queues tm)[cl := removeAll t q]) lv;
           tm1 \<leftarrow> tm_update t (tk_level_update (\<lambda>_. lv)) tm;
           Some (tm1\<lparr>run_queues := (run_queues tm)[cl := removeAll t q, lv := q1 @ [t]],
                     level_changed := (level_changed tm \<or> cl < lv)\<rparr>)
         } else do {
           q \<leftarrow> arr_get (run_queues tm) cl;
           q1 \<leftarrow> arr_get ((run_queues tm)[cl := tl q]) lv;
           tm1 \<leftarrow> tm_update t (tk_level_update (\<lambda>_. lv)) tm;
           Some (tm1\<lparr>run_queues := (run_queues tm)[cl := tl q, lv := t # q1],
                     current_level := lv,
                     level_changed := (level_changed tm \<or> \<not> cl \<le> lv)\<rparr>)
         })
      })
   }"

definition wakeup_task :: "nat \<Rightarrow> int \<Rightarrow> task_manager \<Rightarrow> task_manager option" where
  "wakeup_task t level tm = do {
     k \<leftarrow> tm_task tm t;
     (if tk_running k then change_level_running t level tm
      else (let lv = (if level < 0 then tk_level k else nat level) in do {
        q \<leftarrow> arr_get (run_queues tm) lv;
        tm1 \<leftarrow> tm_update t (\<lambda>k. k\<lparr>tk_level := lv, tk_running := True\<rparr>) tm;
        Some (tm1\<lparr>run_queues := (run_queues tm)[lv := q @ [t]],
                  level_changed := (level_changed tm \<or> current_level tm < lv)\<rparr>)
      }))
   }"

section \<open>Messages and operations by task id\<close>

text \<open>\<open>std::find_if\<close> over \<open>tasks_\<close> by id: the position of the first match.\<close>

definition find_task :: "u64 \<Rightarrow> task_manager \<Rightarrow> nat option" where
  "find_task i tm = List.find (\<lambda>t. tk_id (tasks tm ! t) = i) [0..<length (tasks tm)]"

definition task_send_message :: "nat \<Rightarrow> message \<Rightarrow> task_manager \<Rightarrow> task_manager option" where
  "task_send_message t m tm = do {
     tm1 \<leftarrow> tm_update t (\<lambda>k. k\<lparr>tk_messages := tk_messages k @ [m]\<rparr>) tm;
     wakeup_task t (- 1) tm1
   }"

definition task_receive_message :: "nat \<Rightarrow> task_manager \<Rightarrow> (message option \<times> task_manager) option" where
  "task_receive_message t tm = do {
     k \<leftarrow> tm_task tm t;
     (case tk_messages k of
        [] \<Rightarrow> Some (None, tm)
      | m # ms \<Rightarrow> do {
          tm1 \<leftarrow> tm_update t (tk_messages_update (\<lambda>_. ms)) tm;
          Some (Some m, tm1)
        })
   }"

definition send_message :: "u64 \<Rightarrow> message \<Rightarrow> task_manager \<Rightarrow> (error_code \<times> task_manager) option" where
  "send_message i m tm =
    (case find_task i tm of
       None \<Rightarrow> Some (KNoSuchTask, tm)
     | Some t \<Rightarrow> map_option (Pair KSuccess) (task_send_message t m tm))"

definition sleep_id :: "u64 \<Rightarrow> task_manager \<Rightarrow> (error_code \<times> task_manager) option" where
  "sleep_id i tm =
    (case find_task i tm of
       None \<Rightarrow> Some (KNoSuchTask, tm)
     | Some t \<Rightarrow> map_option (Pair KSuccess) (sleep_task t tm))"

definition wakeup_id :: "u64 \<Rightarrow> int \<Rightarrow> task_manager \<Rightarrow> (error_code \<times> task_manager) option" where
  "wakeup_id i level tm =
    (case find_task i tm of
       None \<Rightarrow> Some (KNoSuchTask, tm)
     | Some t \<Rightarrow> map_option (Pair KSuccess) (wakeup_task t level tm))"

text \<open>
  \<open>TaskManager::TaskManager\<close>: the main task at the highest level and the idle task at level 0.
  \<open>osp1\<close>, \<open>ctx1\<close>, \<open>osp2\<close>, \<open>ctx2\<close> are the memory of the two new tasks, \<open>idle_f\<close> the address of
  \<open>TaskIdle\<close>, \<open>base\<close> that of its stack, \<open>regs\<close> the processor.
\<close>

definition task_manager_new ::
  "u64 \<Rightarrow> task_context \<Rightarrow> u64 \<Rightarrow> task_context \<Rightarrow> u64 \<Rightarrow> u64 \<Rightarrow> task_context \<Rightarrow> task_manager" where
  "task_manager_new osp1 ctx1 osp2 ctx2 idle_f base regs =
    (let tm0 = \<lparr>tasks = [], latest_id = 0, run_queues = replicate (kMaxLevel + 1) [],
                current_level = kMaxLevel, level_changed = False, cpu = regs\<rparr>;
         (t, tm1) = new_task osp1 ctx1 tm0;
         tm2 = tm1\<lparr>tasks := (tasks tm1)[t := (tasks tm1 ! t)
                   \<lparr>tk_level := current_level tm1, tk_running := True\<rparr>],
                   run_queues := (run_queues tm1)[current_level tm1 :=
                     run_queues tm1 ! current_level tm1 @ [t]]\<rparr>;
         (i, tm3) = new_task osp2 ctx2 tm2
     in tm3\<lparr>tasks := (tasks tm3)[i := (task_init_context idle_f 0 (cx_cr3 regs) base (tasks tm3 ! i))
              \<lparr>tk_level := 0, tk_running := True\<rparr>],
            run_queues := (run_queues tm3)[0 := run_queues tm3 ! 0 @ [i]]\<rparr>)"

end
