(* ===== verification/Task_Invariant.thy ===== *)
theory Task_Invariant
  imports Task_Sched
begin

text \<open>
  What the scheduler keeps true.  \<open>queues_ok\<close> ties the run queues to the tasks' own level and
  running flag; \<open>sched_inv\<close> adds the current level; \<open>idle_ok\<close> says that the idle task is
  runnable.  The lemmas \<open>queues_ok_*\<close> treat the four ways a queue changes (a field of a task that
  is not scheduling data, a task leaving, a task entering, a task changing level), and every
  operation's preservation lemma is one of them.
\<close>

definition queues_ok :: "task list \<Rightarrow> nat list list \<Rightarrow> bool" where
  "queues_ok ks qs \<longleftrightarrow>
    length qs = kMaxLevel + 1 \<and>
    (\<forall>lv \<le> kMaxLevel. distinct (qs ! lv)) \<and>
    (\<forall>lv \<le> kMaxLevel. \<forall>t. t \<in> set (qs ! lv) \<longleftrightarrow>
       t < length ks \<and> tk_running (ks ! t) \<and> tk_level (ks ! t) = lv) \<and>
    (\<forall>t < length ks. tk_level (ks ! t) \<le> kMaxLevel)"

definition top_level :: "nat list list \<Rightarrow> nat \<Rightarrow> bool" where
  "top_level qs cl \<longleftrightarrow> (\<forall>lv. cl < lv \<and> lv \<le> kMaxLevel \<longrightarrow> qs ! lv = [])"

definition sched_inv :: "task_manager \<Rightarrow> bool" where
  "sched_inv tm \<longleftrightarrow>
    queues_ok (tasks tm) (run_queues tm) \<and> current_level tm \<le> kMaxLevel \<and>
    run_queues tm ! current_level tm \<noteq> [] \<and>
    (level_changed tm \<or> top_level (run_queues tm) (current_level tm))"

text \<open>The idle task is the second task the constructor makes.\<close>

definition idle_task :: nat where
  "idle_task = 1"

definition idle_ok :: "task_manager \<Rightarrow> bool" where
  "idle_ok tm \<longleftrightarrow>
    idle_task < length (tasks tm) \<and> tk_running (tasks tm ! idle_task) \<and>
    tk_level (tasks tm ! idle_task) = 0"

section \<open>The four changes of a queue\<close>

lemma queues_ok_length [simp]: "queues_ok ks qs \<Longrightarrow> length qs = kMaxLevel + 1"
  by (simp add: queues_ok_def)

lemma queues_ok_level: "queues_ok ks qs \<Longrightarrow> t < length ks \<Longrightarrow> tk_level (ks ! t) \<le> kMaxLevel"
  by (simp add: queues_ok_def)

lemma queues_ok_mem:
  "queues_ok ks qs \<Longrightarrow> lv \<le> kMaxLevel \<Longrightarrow>
    t \<in> set (qs ! lv) \<longleftrightarrow> t < length ks \<and> tk_running (ks ! t) \<and> tk_level (ks ! t) = lv"
  by (simp add: queues_ok_def)

lemma queues_ok_distinct: "queues_ok ks qs \<Longrightarrow> lv \<le> kMaxLevel \<Longrightarrow> distinct (qs ! lv)"
  by (simp add: queues_ok_def)

lemma queues_ok_frame:
  assumes ok: "queues_ok ks qs" and "t < length ks"
    and "tk_running k' = tk_running (ks ! t)" and "tk_level k' = tk_level (ks ! t)"
  shows "queues_ok (ks[t := k']) qs"
  using assms unfolding queues_ok_def by (auto simp: nth_list_update)

lemma queues_ok_reorder:
  assumes ok: "queues_ok ks qs" and lv: "lv \<le> kMaxLevel"
    and "set q = set (qs ! lv)" and "distinct q"
  shows "queues_ok ks (qs[lv := q])"
  using assms unfolding queues_ok_def by (auto simp: nth_list_update)

lemma queues_ok_leave:
  assumes ok: "queues_ok ks qs" and t: "t < length ks" and lv: "tk_level (ks ! t) = lv"
    and k': "\<not> tk_running k'" "tk_level k' = lv"
    and q: "set q = set (qs ! lv) - {t}" "distinct q"
  shows "queues_ok (ks[t := k']) (qs[lv := q])"
proof -
  have "lv \<le> kMaxLevel" using queues_ok_level [OF ok t] lv by simp
  then show ?thesis
    using ok t lv k' q unfolding queues_ok_def by (auto simp: nth_list_update)
qed

lemma queues_ok_enter:
  assumes ok: "queues_ok ks qs" and t: "t < length ks" and nr: "\<not> tk_running (ks ! t)"
    and lv: "lv \<le> kMaxLevel" and k': "tk_running k'" "tk_level k' = lv"
    and q: "set q = insert t (set (qs ! lv))" "distinct q"
  shows "queues_ok (ks[t := k']) (qs[lv := q])"
  using assms unfolding queues_ok_def by (auto simp: nth_list_update)

lemma queues_ok_move:
  assumes ok: "queues_ok ks qs" and t: "t < length ks" and r: "tk_running (ks ! t)"
    and a: "tk_level (ks ! t) = a" and b: "b \<le> kMaxLevel" "a \<noteq> b"
    and k': "tk_running k'" "tk_level k' = b"
    and qa: "set qa = set (qs ! a) - {t}" "distinct qa"
    and qb: "set qb = insert t (set (qs ! b))" "distinct qb"
  shows "queues_ok (ks[t := k']) (qs[a := qa, b := qb])"
proof -
  have "a \<le> kMaxLevel" using queues_ok_level [OF ok t] a by simp
  then show ?thesis
    using ok t r a b k' qa qb unfolding queues_ok_def by (auto simp: nth_list_update)
qed

lemma queues_ok_create:
  assumes ok: "queues_ok ks qs" and k: "\<not> tk_running k" "tk_level k \<le> kMaxLevel"
  shows "queues_ok (ks @ [k]) qs"
  using assms unfolding queues_ok_def by (auto simp: nth_append less_Suc_eq)

section \<open>The level search\<close>

lemma find_level_Some:
  "find_level qs n = Some lv \<Longrightarrow> lv \<le> n \<and> qs ! lv \<noteq> [] \<and> (\<forall>l. lv < l \<and> l \<le> n \<longrightarrow> qs ! l = [])"
  by (induction n) (auto split: if_splits simp: le_Suc_eq)

lemma find_level_None: "find_level qs n = None \<longleftrightarrow> (\<forall>l \<le> n. qs ! l = [])"
  by (induction n) (auto simp: le_Suc_eq)

lemma find_level_finds: "l \<le> n \<Longrightarrow> qs ! l \<noteq> [] \<Longrightarrow> \<exists>lv. find_level qs n = Some lv"
  using find_level_None [of qs n] by auto

lemma idle_in_queue:
  "queues_ok (tasks tm) (run_queues tm) \<Longrightarrow> idle_ok tm \<Longrightarrow> idle_task \<in> set (run_queues tm ! 0)"
  by (simp add: queues_ok_mem idle_ok_def)

section \<open>Rotation\<close>

lemma current_task_Some:
  "sched_inv tm \<Longrightarrow> current_task tm = Some (hd (run_queues tm ! current_level tm))"
  by (cases "run_queues tm ! current_level tm") (auto simp: sched_inv_def current_task_def ub_simps)

lemma current_task_running:
  assumes "sched_inv tm" and "current_task tm = Some t"
  shows "t < length (tasks tm)" and "tk_running (tasks tm ! t)"
    and "tk_level (tasks tm ! t) = current_level tm"
proof -
  from assms(1) have "hd (run_queues tm ! current_level tm) \<in> set (run_queues tm ! current_level tm)"
    by (simp add: sched_inv_def)
  with assms have "t \<in> set (run_queues tm ! current_level tm)" by (simp add: current_task_Some)
  with assms(1) show "t < length (tasks tm)" and "tk_running (tasks tm ! t)"
    and "tk_level (tasks tm ! t) = current_level tm"
    by (auto simp: sched_inv_def queues_ok_mem)
qed

lemma rotate_keep:
  assumes inv: "sched_inv tm"
  shows "\<exists>tm'. rotate_run_queue False tm = Some (hd (run_queues tm ! current_level tm), tm')
    \<and> sched_inv tm' \<and> tasks tm' = tasks tm \<and> cpu tm' = cpu tm
    \<and> top_level (run_queues tm') (current_level tm') \<and> latest_id tm' = latest_id tm
    \<and> \<not> level_changed tm' \<and> (\<not> level_changed tm \<longrightarrow> current_level tm' = current_level tm)
    \<and> run_queues tm' = (run_queues tm)[current_level tm := rotate1 (run_queues tm ! current_level tm)]"
proof -
  let ?cl = "current_level tm" and ?qs = "run_queues tm"
  obtain c rest where q: "?qs ! ?cl = c # rest"
    using inv by (cases "?qs ! ?cl") (auto simp: sched_inv_def)
  let ?qs' = "?qs[?cl := rest @ [c]]"
  have ok: "queues_ok (tasks tm) ?qs" "?cl \<le> kMaxLevel" using inv by (auto simp: sched_inv_def)
  have d: "distinct (c # rest)" using queues_ok_distinct [OF ok] q by simp
  have ok': "queues_ok (tasks tm) ?qs'"
    by (rule queues_ok_reorder [OF ok]) (use d q in auto)
  have ne: "?qs' ! ?cl \<noteq> []" using ok by simp
  obtain lv where lv: "find_level ?qs' kMaxLevel = Some lv"
    using find_level_finds [OF ok(2) ne] by blast
  note top = find_level_Some [OF lv]
  have same: "top_level ?qs ?cl \<Longrightarrow> top_level ?qs' ?cl" by (auto simp: top_level_def)
  show ?thesis
    using inv ok ok' ne lv top q same
    by (auto simp: rotate_run_queue_def ub_simps sched_inv_def top_level_def Let_def)
qed

lemma rotate_leave:
  assumes inv: "sched_inv tm" and c: "current_task tm = Some c" and lv0: "l \<le> kMaxLevel"
    and other: "t \<in> set (run_queues tm ! l)" "t \<noteq> c"
    and tm1: "tm1 = tm\<lparr>tasks := (tasks tm)[c := k']\<rparr>" and k': "\<not> tk_running k'" "tk_level k' = current_level tm"
  shows "\<exists>tm'. rotate_run_queue True tm1 = Some (c, tm') \<and> sched_inv tm' \<and> tasks tm' = tasks tm1
    \<and> cpu tm' = cpu tm \<and> top_level (run_queues tm') (current_level tm')"
proof -
  let ?cl = "current_level tm" and ?qs = "run_queues tm"
  obtain rest where q: "?qs ! ?cl = c # rest"
    using inv c by (cases "?qs ! ?cl") (auto simp: sched_inv_def current_task_Some)
  let ?qs' = "?qs[?cl := rest]"
  have ok: "queues_ok (tasks tm) ?qs" "?cl \<le> kMaxLevel" using inv by (auto simp: sched_inv_def)
  have d: "distinct (c # rest)" using queues_ok_distinct [OF ok] q by simp
  have ok': "queues_ok (tasks tm1) ?qs'"
    unfolding tm1 using current_task_running [OF inv c] k' q d
    by (auto intro!: queues_ok_leave [OF ok(1)])
  have ne: "?qs' ! l \<noteq> []"
    using other q ok lv0 by (cases "l = ?cl") auto
  obtain lv where lv: "find_level ?qs' kMaxLevel = Some lv"
    using find_level_finds [OF lv0 ne] by blast
  note top = find_level_Some [OF lv]
  have same: "top_level ?qs ?cl \<Longrightarrow> top_level ?qs' ?cl" by (auto simp: top_level_def)
  show ?thesis
    using inv ok ok' ne lv top q same
    by (auto simp: rotate_run_queue_def ub_simps sched_inv_def top_level_def Let_def tm1)
qed

section \<open>Every operation keeps the invariant and is defined\<close>

lemma tm_update_Some:
  "t < length (tasks tm) \<Longrightarrow> tm_update t f tm = Some (tm\<lparr>tasks := (tasks tm)[t := f (tasks tm ! t)]\<rparr>)"
  by (simp add: tm_update_def)

lemma tm_task_Some: "t < length (tasks tm) \<Longrightarrow> tm_task tm t = Some (tasks tm ! t)"
  by (simp add: tm_task_def ub_simps)

lemmas tm_defined = tm_update_Some tm_task_Some

lemma sched_inv_frame:
  assumes "sched_inv tm" and "t < length (tasks tm)"
    and "tk_running k' = tk_running (tasks tm ! t)" and "tk_level k' = tk_level (tasks tm ! t)"
  shows "sched_inv (tm\<lparr>tasks := (tasks tm)[t := k']\<rparr>)"
  using assms by (simp add: sched_inv_def queues_ok_frame)

lemma idle_ok_frame:
  assumes "idle_ok tm" and "t < length (tasks tm)"
    and "tk_running k' = tk_running (tasks tm ! t)" and "tk_level k' = tk_level (tasks tm ! t)"
  shows "idle_ok (tm\<lparr>tasks := (tasks tm)[t := k']\<rparr>)"
  using assms by (auto simp: idle_ok_def nth_list_update)

lemma sched_inv_cpu [simp]: "sched_inv (tm\<lparr>cpu := c\<rparr>) = sched_inv tm"
  by (simp add: sched_inv_def)

lemma idle_ok_cpu [simp]: "idle_ok (tm\<lparr>cpu := c\<rparr>) = idle_ok tm"
  by (simp add: idle_ok_def)

lemma switch_context_inv:
  assumes "sched_inv tm" and "idle_ok tm" and "cur < length (tasks tm)" and "nxt < length (tasks tm)"
  shows "\<exists>tm'. switch_context nxt cur tm = Some tm' \<and> sched_inv tm' \<and> idle_ok tm'
    \<and> length (tasks tm') = length (tasks tm)"
  using assms by (simp add: switch_context_def restore_context_def tm_defined sched_inv_frame idle_ok_frame)

lemma switch_task_spec:
  fixes ctx :: task_context
  assumes inv: "sched_inv tm" and c: "current_task tm = Some c"
  defines "ks \<equiv> (tasks tm)[c := (tasks tm ! c)\<lparr>tk_context := ctx\<rparr>]"
  shows "\<exists>tm' nxt. switch_task ctx tm = Some tm' \<and> sched_inv tm' \<and> tasks tm' = ks
    \<and> current_task tm' = Some nxt \<and> cpu tm' = (if nxt = c then cpu tm else tk_context (ks ! nxt))
    \<and> top_level (run_queues tm') (current_level tm') \<and> latest_id tm' = latest_id tm
    \<and> \<not> level_changed tm' \<and> (\<not> level_changed tm \<longrightarrow> current_level tm' = current_level tm)
    \<and> run_queues tm' = (run_queues tm)[current_level tm := rotate1 (run_queues tm ! current_level tm)]"
proof -
  note cr = current_task_running [OF inv c]
  let ?tm1 = "tm\<lparr>tasks := ks\<rparr>"
  have inv1: "sched_inv ?tm1"
    unfolding ks_def using inv cr by (simp add: sched_inv_frame)
  from rotate_keep [OF inv1] obtain tm2 where
    rot: "rotate_run_queue False ?tm1 = Some (hd (run_queues tm ! current_level tm), tm2)"
    and tm2: "sched_inv tm2" "tasks tm2 = ks" "cpu tm2 = cpu tm"
      "top_level (run_queues tm2) (current_level tm2)" "latest_id tm2 = latest_id tm"
      "\<not> level_changed tm2" "\<not> level_changed tm \<longrightarrow> current_level tm2 = current_level tm"
      "run_queues tm2 = (run_queues tm)[current_level tm := rotate1 (run_queues tm ! current_level tm)]"
    by auto
  have hd: "hd (run_queues tm ! current_level tm) = c" using c current_task_Some [OF inv] by simp
  obtain nxt where nxt: "current_task tm2 = Some nxt" using current_task_Some [OF tm2(1)] by simp
  have "nxt < length ks" using current_task_running(1) [OF tm2(1) nxt] tm2(2) by simp
  moreover have "current_task (tm2\<lparr>cpu := x\<rparr>) = Some nxt" for x
    using nxt by (simp add: current_task_def)
  ultimately show ?thesis
    using c cr rot hd nxt tm2
    by (auto simp: switch_task_def tm_defined restore_context_def ks_def)
qed

lemma switch_task_idle: "switch_task ctx tm = Some tm' \<Longrightarrow> sched_inv tm \<Longrightarrow> idle_ok tm \<Longrightarrow> idle_ok tm'"
proof -
  assume st: "switch_task ctx tm = Some tm'" and inv: "sched_inv tm" and idle: "idle_ok tm"
  obtain c where c: "current_task tm = Some c" using current_task_Some [OF inv] by simp
  from switch_task_spec [OF inv c, of ctx] st have "tasks tm' = (tasks tm)[c := (tasks tm ! c)\<lparr>tk_context := ctx\<rparr>]"
    by auto
  with idle current_task_running(1) [OF inv c] show ?thesis by (auto simp: idle_ok_def nth_list_update)
qed

text \<open>A task other than the idle one can always be put to sleep.\<close>

lemma sleep_task_inv:
  assumes inv: "sched_inv tm" and idle: "idle_ok tm" and t: "t < length (tasks tm)" and ni: "t \<noteq> idle_task"
  shows "\<exists>tm'. sleep_task t tm = Some tm' \<and> sched_inv tm' \<and> idle_ok tm'
    \<and> length (tasks tm') = length (tasks tm)"
proof (cases "tk_running (tasks tm ! t)")
  case False
  with assms show ?thesis by (simp add: sleep_task_def tm_defined)
next
  case run: True
  let ?k = "tasks tm ! t"
  let ?tm1 = "tm\<lparr>tasks := (tasks tm)[t := ?k\<lparr>tk_running := False\<rparr>]\<rparr>"
  obtain c where c: "current_task tm = Some c" using current_task_Some [OF inv] by simp
  have c1: "current_task ?tm1 = Some c" using c by (simp add: current_task_def)
  have ok: "queues_ok (tasks tm) (run_queues tm)" using inv by (simp add: sched_inv_def)
  have idle1: "idle_ok (tm'\<lparr>tasks := (tasks tm)[t := k']\<rparr>)" for k' tm'
    using idle ni t by (auto simp: idle_ok_def nth_list_update)
  show ?thesis
  proof (cases "t = c")
    case True
    note cr = current_task_running [OF inv c]
    from rotate_leave [OF inv c _ idle_in_queue [OF ok idle], of ?tm1 "?k\<lparr>tk_running := False\<rparr>"] True cr ni
    obtain tm2 where tm2: "rotate_run_queue True ?tm1 = Some (c, tm2)" "sched_inv tm2" "tasks tm2 = tasks ?tm1"
      by auto
    obtain nxt where nxt: "current_task tm2 = Some nxt" using current_task_Some [OF tm2(2)] by simp
    have "nxt < length (tasks tm2)" by (rule current_task_running(1) [OF tm2(2) nxt])
    moreover have "idle_ok tm2" using idle1 [of "?k\<lparr>tk_running := False\<rparr>" tm] tm2(3) by (simp add: idle_ok_def)
    ultimately show ?thesis
      using switch_context_inv [OF tm2(2), of c nxt] tm2 True t run c1 nxt
      by (auto simp: sleep_task_def tm_defined)
  next
    case False
    let ?lv = "tk_level ?k"
    have lv: "?lv \<le> kMaxLevel" using queues_ok_level [OF ok t] .
    have cq: "c \<in> set (run_queues tm ! current_level tm)"
      using current_task_running [OF inv c] inv by (auto simp: sched_inv_def queues_ok_mem)
    have ok': "queues_ok ((tasks tm)[t := ?k\<lparr>tk_running := False\<rparr>])
        ((run_queues tm)[?lv := removeAll t (run_queues tm ! ?lv)])"
      by (rule queues_ok_leave [OF ok t]) (use queues_ok_distinct [OF ok lv] in \<open>auto simp: distinct_removeAll\<close>)
    have "run_queues (tm\<lparr>run_queues := (run_queues tm)[?lv := removeAll t (run_queues tm ! ?lv)]\<rparr>)
        ! current_level tm \<noteq> []"
      using cq False inv ok lv by (cases "?lv = current_level tm") (auto simp: sched_inv_def removeAll_filter_not_eq filter_empty_conv)
    then show ?thesis
      using ok ok' lv t run c1 False inv idle1 [of "?k\<lparr>tk_running := False\<rparr>" tm]
      by (auto simp: sleep_task_def tm_defined ub_simps sched_inv_def top_level_def nth_list_update idle_ok_def)
  qed
qed

section \<open>Waking, levels and messages\<close>

text \<open>
  A change of level of a running task is well placed when the task is in the queue the code removes
  it from: it is at the current level, or no change is asked for.
\<close>

definition level_move_ok :: "nat \<Rightarrow> int \<Rightarrow> task_manager \<Rightarrow> bool" where
  "level_move_ok t level tm \<longleftrightarrow>
    level \<le> int kMaxLevel \<and>
    (\<not> tk_running (tasks tm ! t) \<or> level < 0 \<or> level = int (tk_level (tasks tm ! t)) \<or>
     tk_level (tasks tm ! t) = current_level tm)"

lemma change_level_running_inv:
  assumes inv: "sched_inv tm" and t: "t < length (tasks tm)" and run: "tk_running (tasks tm ! t)"
    and ok: "level_move_ok t level tm"
  shows "\<exists>tm'. change_level_running t level tm = Some tm' \<and> sched_inv tm'
    \<and> length (tasks tm') = length (tasks tm)
    \<and> (\<forall>u. u \<noteq> t \<longrightarrow> tasks tm' ! u = tasks tm ! u) \<and> tk_running (tasks tm' ! t)
    \<and> tk_level (tasks tm' ! t) = (if level < 0 then tk_level (tasks tm ! t) else nat level)"
proof (cases "level < 0 \<or> level = int (tk_level (tasks tm ! t))")
  case True
  with inv t run show ?thesis by (auto simp: change_level_running_def tm_defined)
next
  case move: False
  let ?cl = "current_level tm" and ?qs = "run_queues tm" and ?lv = "nat level"
  have cl: "tk_level (tasks tm ! t) = ?cl" and lv: "?lv \<le> kMaxLevel" "?cl \<noteq> ?lv"
    using move ok run by (auto simp: level_move_ok_def)
  have qok: "queues_ok (tasks tm) ?qs" "?cl \<le> kMaxLevel" using inv by (auto simp: sched_inv_def)
  have tq: "t \<in> set (?qs ! ?cl)" using queues_ok_mem [OF qok] t run cl by simp
  have ntq: "t \<notin> set (?qs ! ?lv)" using queues_ok_mem [OF qok(1) lv(1)] cl lv(2) by simp
  have d: "distinct (?qs ! ?cl)" "distinct (?qs ! ?lv)"
    using queues_ok_distinct [OF qok] queues_ok_distinct [OF qok(1) lv(1)] by auto
  obtain c rest where q: "?qs ! ?cl = c # rest" using tq by (cases "?qs ! ?cl") auto
  have c: "current_task tm = Some c" using current_task_Some [OF inv] q by simp
  let ?k' = "(tasks tm ! t)\<lparr>tk_level := ?lv\<rparr>"
  show ?thesis
  proof (cases "t = c")
    case True
    have "queues_ok ((tasks tm)[t := ?k']) (?qs[?cl := rest, ?lv := c # ?qs ! ?lv])"
      by (rule queues_ok_move [OF qok(1) t run cl lv(1,2)]) (use True q d ntq run in auto)
    then show ?thesis
      using True c q t lv qok move inv run
      by (auto simp: change_level_running_def tm_defined ub_simps sched_inv_def top_level_def Let_def)
  next
    case False
    have "queues_ok ((tasks tm)[t := ?k']) (?qs[?cl := removeAll t (?qs ! ?cl), ?lv := ?qs ! ?lv @ [t]])"
      by (rule queues_ok_move [OF qok(1) t run cl lv(1,2)])
        (use d ntq run in \<open>auto simp: distinct_removeAll\<close>)
    then show ?thesis
      using False c q t lv qok move inv run
      by (auto simp: change_level_running_def tm_defined ub_simps sched_inv_def top_level_def Let_def)
  qed
qed

lemma wakeup_task_inv:
  assumes inv: "sched_inv tm" and t: "t < length (tasks tm)" and ok: "level_move_ok t level tm"
  shows "\<exists>tm'. wakeup_task t level tm = Some tm' \<and> sched_inv tm'
    \<and> length (tasks tm') = length (tasks tm)
    \<and> (\<forall>u. u \<noteq> t \<longrightarrow> tasks tm' ! u = tasks tm ! u) \<and> tk_running (tasks tm' ! t)
    \<and> tk_level (tasks tm' ! t) = (if level < 0 then tk_level (tasks tm ! t) else nat level)"
proof (cases "tk_running (tasks tm ! t)")
  case True
  with change_level_running_inv [OF inv t True ok] t show ?thesis
    by (auto simp: wakeup_task_def tm_defined)
next
  case False
  let ?lv = "if level < 0 then tk_level (tasks tm ! t) else nat level"
  let ?k' = "(tasks tm ! t)\<lparr>tk_level := ?lv, tk_running := True\<rparr>"
  have qok: "queues_ok (tasks tm) (run_queues tm)" using inv by (simp add: sched_inv_def)
  have lv: "?lv \<le> kMaxLevel" using ok queues_ok_level [OF qok t] by (auto simp: level_move_ok_def)
  have nq: "t \<notin> set (run_queues tm ! ?lv)" using queues_ok_mem [OF qok lv] False by simp
  have "queues_ok ((tasks tm)[t := ?k']) ((run_queues tm)[?lv := run_queues tm ! ?lv @ [t]])"
    by (rule queues_ok_enter [OF qok t False lv]) (use queues_ok_distinct [OF qok lv] nq in auto)
  then show ?thesis
    using False t lv qok inv
    by (auto simp: wakeup_task_def tm_defined ub_simps sched_inv_def top_level_def Let_def nth_list_update)
qed

lemma idle_ok_others:
  assumes "idle_ok tm" and "length (tasks tm') = length (tasks tm)"
    and "\<And>u. u \<noteq> t \<Longrightarrow> tasks tm' ! u = tasks tm ! u" and "t \<noteq> idle_task"
  shows "idle_ok tm'"
  using assms(1,2,4) assms(3) [of idle_task] by (simp add: idle_ok_def)

lemma wakeup_default_idle:
  assumes "wakeup_task t (- 1) tm = Some tm'" and "sched_inv tm" and "t < length (tasks tm)" and "idle_ok tm"
  shows "idle_ok tm'"
proof -
  have "level_move_ok t (- 1) tm" by (simp add: level_move_ok_def)
  from wakeup_task_inv [OF assms(2,3) this] assms(1)
  have "length (tasks tm') = length (tasks tm)" "\<forall>u. u \<noteq> t \<longrightarrow> tasks tm' ! u = tasks tm ! u"
    "tk_running (tasks tm' ! t)" "tk_level (tasks tm' ! t) = tk_level (tasks tm ! t)" by auto
  with assms(4) show ?thesis by (cases "t = idle_task") (auto simp: idle_ok_def)
qed

lemma task_send_message_inv:
  assumes inv: "sched_inv tm" and t: "t < length (tasks tm)"
  shows "\<exists>tm'. task_send_message t m tm = Some tm' \<and> sched_inv tm'
    \<and> length (tasks tm') = length (tasks tm) \<and> (\<forall>u. u \<noteq> t \<longrightarrow> tasks tm' ! u = tasks tm ! u)
    \<and> tk_running (tasks tm' ! t) \<and> tk_level (tasks tm' ! t) = tk_level (tasks tm ! t)"
proof -
  let ?tm1 = "tm\<lparr>tasks := (tasks tm)[t := (tasks tm ! t)\<lparr>tk_messages := tk_messages (tasks tm ! t) @ [m]\<rparr>]\<rparr>"
  have "sched_inv ?tm1" "level_move_ok t (- 1) ?tm1" "t < length (tasks ?tm1)"
    using inv t by (simp_all add: sched_inv_frame level_move_ok_def)
  from wakeup_task_inv [OF this(1,3,2)] t show ?thesis
    by (auto simp: task_send_message_def tm_defined)
qed

lemma task_receive_message_inv:
  assumes inv: "sched_inv tm" and t: "t < length (tasks tm)"
  shows "\<exists>r tm'. task_receive_message t tm = Some (r, tm') \<and> sched_inv tm'
    \<and> length (tasks tm') = length (tasks tm) \<and> (idle_ok tm \<longrightarrow> idle_ok tm')"
  using inv t by (cases "tk_messages (tasks tm ! t)")
    (simp_all add: task_receive_message_def tm_defined sched_inv_frame idle_ok_frame)

lemma task_send_message_mailbox:
  assumes "t < length (tasks tm)" and "task_send_message t m tm = Some tm'"
  shows "tk_messages (tasks tm' ! t) = tk_messages (tasks tm ! t) @ [m]"
  using assms
  by (auto simp: task_send_message_def wakeup_task_def change_level_running_def tm_defined Let_def
      arr_get_def bind_eq_Some_conv split: if_splits)

lemma task_send_message_ids:
  assumes "t < length (tasks tm)" and "task_send_message t m tm = Some tm'"
  shows "map tk_id (tasks tm') = map tk_id (tasks tm)"
  using assms
  by (auto simp: task_send_message_def wakeup_task_def change_level_running_def tm_defined Let_def
      arr_get_def bind_eq_Some_conv map_update list_update_same_conv split: if_splits)

text \<open>Which task an id names depends on the ids alone.\<close>

lemma find_task_ids:
  assumes "map tk_id (tasks tm') = map tk_id (tasks tm)"
  shows "find_task i tm' = find_task i tm"
proof -
  have len: "length (tasks tm') = length (tasks tm)" using assms by (metis length_map)
  moreover have "tk_id (tasks tm' ! u) = tk_id (tasks tm ! u)" if "u < length (tasks tm)" for u
    using assms that len by (metis nth_map)
  ultimately show ?thesis unfolding find_task_def by (intro find_cong) auto
qed

lemma find_task_Some:
  "find_task i tm = Some t \<Longrightarrow> t < length (tasks tm) \<and> tk_id (tasks tm ! t) = i"
  by (auto simp: find_task_def find_Some_iff)

lemma find_task_None:
  "find_task i tm = None \<longleftrightarrow> (\<forall>k \<in> set (tasks tm). tk_id k \<noteq> i)"
  by (auto simp: find_task_def find_None_iff all_set_conv_all_nth)

text \<open>Sending to a task that exists.\<close>

lemma send_message_to:
  assumes inv: "sched_inv tm" and t: "find_task i tm = Some t"
  shows "\<exists>tm'. send_message i m tm = Some (KSuccess, tm') \<and> sched_inv tm' \<and> find_task i tm' = Some t
    \<and> tk_messages (tasks tm' ! t) = tk_messages (tasks tm ! t) @ [m]
    \<and> length (tasks tm') = length (tasks tm) \<and> (\<forall>u. u \<noteq> t \<longrightarrow> tasks tm' ! u = tasks tm ! u)"
proof -
  have l: "t < length (tasks tm)" using find_task_Some [OF t] by simp
  from task_send_message_inv [OF inv l, of m] obtain tm' where s: "task_send_message t m tm = Some tm'"
    "sched_inv tm'" "length (tasks tm') = length (tasks tm)" "\<forall>u. u \<noteq> t \<longrightarrow> tasks tm' ! u = tasks tm ! u" by blast
  note task_send_message_mailbox [OF l s(1)] find_task_ids [OF task_send_message_ids [OF l s(1)], of i]
  with s t show ?thesis by (simp add: send_message_def)
qed

lemma new_task_inv:
  assumes "sched_inv tm" and "new_task osp ctx tm = (t, tm')"
  shows "sched_inv tm'" and "t = length (tasks tm)" and "length (tasks tm') = Suc (length (tasks tm))"
    and "idle_ok tm \<Longrightarrow> idle_ok tm'"
  using assms
  by (auto simp: new_task_def sched_inv_def Let_def task_new_def kDefaultLevel_def kMaxLevel_def
      queues_ok_create idle_ok_def nth_append)

lemma all_levels: "(\<forall>lv \<le> kMaxLevel. P lv) \<longleftrightarrow> P 0 \<and> P 1 \<and> P 2 \<and> P 3"
  by (auto simp: kMaxLevel_def le_Suc_eq numeral_eq_Suc)

lemma all_less_2: "(\<forall>t < Suc (Suc 0). P t) \<longleftrightarrow> P 0 \<and> P (Suc 0)"
  by (auto simp: less_Suc_eq)

lemma less_2_iff: "t < Suc (Suc 0) \<longleftrightarrow> t = 0 \<or> t = Suc 0"
  by auto

text \<open>The state the constructor leaves.\<close>

lemma task_manager_new_eq:
  "task_manager_new osp1 ctx1 osp2 ctx2 idle_f base regs =
    \<lparr>tasks = [(task_new osp1 ctx1 1)\<lparr>tk_level := 3, tk_running := True\<rparr>,
              (task_init_context idle_f 0 (cx_cr3 regs) base (task_new osp2 ctx2 2))
                \<lparr>tk_level := 0, tk_running := True\<rparr>],
     latest_id = 2, run_queues = [[1], [], [], [0]], current_level = 3, level_changed = False,
     cpu = regs\<rparr>"
  by (simp add: task_manager_new_def new_task_def Let_def kMaxLevel_def numeral_eq_Suc)

lemma task_manager_new_inv:
  "sched_inv (task_manager_new osp1 ctx1 osp2 ctx2 idle_f base regs)"
  "idle_ok (task_manager_new osp1 ctx1 osp2 ctx2 idle_f base regs)"
proof -
  let ?tm = "task_manager_new osp1 ctx1 osp2 ctx2 idle_f base regs"
  have "queues_ok (tasks ?tm) (run_queues ?tm)"
    unfolding queues_ok_def all_levels
    by (simp add: task_manager_new_eq kMaxLevel_def all_less_2 less_2_iff) (auto intro!: gr0I)
  then show "sched_inv ?tm"
    by (simp add: sched_inv_def top_level_def task_manager_new_eq kMaxLevel_def)
  show "idle_ok ?tm" by (simp add: idle_ok_def idle_task_def task_manager_new_eq)
qed

end
