(* ===== verification/Task_Properties.thy ===== *)
theory Task_Properties
  imports Task_Invariant
begin

text \<open>
  The scheduler as a machine, and what holds of it.  A step is one call of the kernel: the timer's
  task switch, a sleep, a wake-up, a message sent or taken, a new task, or the running task
  changing its registers.  The idle task is never put to sleep and a wake-up with an explicit level
  is one \<open>level_move_ok\<close> allows; \<open>change_level_wrong_queue\<close> shows what happens otherwise.
\<close>

inductive sched_init :: "task_manager \<Rightarrow> bool" where
  boot: "sched_init (task_manager_new osp1 ctx1 osp2 ctx2 idle_f base regs)"

inductive sched_step :: "task_manager \<Rightarrow> task_manager \<Rightarrow> bool" where
  tick: "switch_task ctx tm = Some tm' \<Longrightarrow> sched_step tm tm'"
| sleep: "t < length (tasks tm) \<Longrightarrow> t \<noteq> idle_task \<Longrightarrow> sleep_task t tm = Some tm' \<Longrightarrow> sched_step tm tm'"
| sleep_by_id: "find_task i tm \<noteq> Some idle_task \<Longrightarrow> sleep_id i tm = Some (e, tm') \<Longrightarrow> sched_step tm tm'"
| wake: "t < length (tasks tm) \<Longrightarrow> t \<noteq> idle_task \<Longrightarrow> level_move_ok t level tm \<Longrightarrow>
    wakeup_task t level tm = Some tm' \<Longrightarrow> sched_step tm tm'"
| wake_by_id: "wakeup_id i (- 1) tm = Some (e, tm') \<Longrightarrow> sched_step tm tm'"
| send: "send_message i m tm = Some (e, tm') \<Longrightarrow> sched_step tm tm'"
| receive: "t < length (tasks tm) \<Longrightarrow> task_receive_message t tm = Some (r, tm') \<Longrightarrow> sched_step tm tm'"
| create: "new_task osp ctx tm = (t, tm1) \<Longrightarrow> tm_update t (task_init_context f data cr3 base) tm1 = Some tm' \<Longrightarrow>
    sched_step tm tm'"
| run: "sched_step tm (tm\<lparr>cpu := c\<rparr>)"

definition sched_safe :: "task_manager \<Rightarrow> bool" where
  "sched_safe tm \<longleftrightarrow> sched_inv tm \<and> idle_ok tm"

lemma level_move_default [simp]: "level_move_ok t (- 1) tm"
  by (simp add: level_move_ok_def)

lemma sched_safe_switch:
  assumes "switch_task ctx tm = Some tm'" and "sched_safe tm"
  shows "sched_safe tm'"
proof -
  have inv: "sched_inv tm" using assms(2) by (simp add: sched_safe_def)
  obtain c where c: "current_task tm = Some c" using current_task_Some [OF inv] by simp
  show ?thesis
    using switch_task_spec [OF inv c, of ctx] switch_task_idle assms by (auto simp: sched_safe_def)
qed

lemma sched_safe_sleep:
  "sleep_task t tm = Some tm' \<Longrightarrow> t < length (tasks tm) \<Longrightarrow> t \<noteq> idle_task \<Longrightarrow> sched_safe tm \<Longrightarrow> sched_safe tm'"
  using sleep_task_inv [of tm t] by (auto simp: sched_safe_def)

lemma sched_safe_wake_default:
  "wakeup_task t (- 1) tm = Some tm' \<Longrightarrow> t < length (tasks tm) \<Longrightarrow> sched_safe tm \<Longrightarrow> sched_safe tm'"
  using wakeup_task_inv [of tm t "- 1"] wakeup_default_idle [of t tm tm'] by (auto simp: sched_safe_def)

lemma sched_safe_wake:
  assumes "wakeup_task t level tm = Some tm'" and "t < length (tasks tm)" and "t \<noteq> idle_task"
    and "level_move_ok t level tm" and "sched_safe tm"
  shows "sched_safe tm'"
  using wakeup_task_inv [of tm t level] idle_ok_others [of tm tm' t] assms by (auto simp: sched_safe_def)

lemma sched_safe_send:
  assumes "task_send_message t m tm = Some tm'" and t: "t < length (tasks tm)" and safe: "sched_safe tm"
  shows "sched_safe tm'"
proof -
  let ?tm1 = "tm\<lparr>tasks := (tasks tm)[t := (tasks tm ! t)\<lparr>tk_messages := tk_messages (tasks tm ! t) @ [m]\<rparr>]\<rparr>"
  have "sched_safe ?tm1" using safe t by (simp add: sched_safe_def sched_inv_frame idle_ok_frame)
  moreover have "wakeup_task t (- 1) ?tm1 = Some tm'"
    using assms(1) t by (simp add: task_send_message_def tm_defined)
  ultimately show ?thesis using t sched_safe_wake_default [of t ?tm1 tm'] by simp
qed

lemma sched_safe_create:
  assumes "new_task osp ctx tm = (t, tm1)" and "tm_update t (task_init_context f data cr3 base) tm1 = Some tm'"
    and "sched_safe tm"
  shows "sched_safe tm'"
proof -
  have "sched_inv tm1" "idle_ok tm1" "t < length (tasks tm1)"
    using new_task_inv [OF _ assms(1)] assms(3) by (auto simp: sched_safe_def)
  then show ?thesis
    using assms(2)
    by (auto simp: sched_safe_def tm_defined task_init_context_def Let_def
        intro!: sched_inv_frame idle_ok_frame)
qed

lemma sched_safe_step: "sched_step tm tm' \<Longrightarrow> sched_safe tm \<Longrightarrow> sched_safe tm'"
proof (induction rule: sched_step.induct)
  case (tick ctx tm tm')
  then show ?case by (rule sched_safe_switch)
next
  case (sleep t tm tm')
  then show ?case by (blast intro: sched_safe_sleep)
next
  case (sleep_by_id i tm e tm')
  then show ?case
    by (auto simp: sleep_id_def dest: find_task_Some intro: sched_safe_sleep split: option.splits)
next
  case (wake t tm level tm')
  then show ?case by (blast intro: sched_safe_wake)
next
  case (wake_by_id i tm e tm')
  then show ?case
    by (auto simp: wakeup_id_def dest: find_task_Some intro: sched_safe_wake_default split: option.splits)
next
  case (send i m tm e tm')
  then show ?case
    by (auto simp: send_message_def dest: find_task_Some intro: sched_safe_send split: option.splits)
next
  case (receive t tm r tm')
  then show ?case using task_receive_message_inv [of tm t] by (auto simp: sched_safe_def)
next
  case (create osp ctx tm t tm1 f data cr3 base tm')
  then show ?case by (rule sched_safe_create)
next
  case (run tm c)
  then show ?case by (simp add: sched_safe_def)
qed

lemma sched_safe_init: "sched_init tm \<Longrightarrow> sched_safe tm"
  by (auto elim!: sched_init.cases simp: sched_safe_def task_manager_new_inv)

interpretation sched: safe_system sched_init sched_step sched_safe
  by unfold_locales (auto intro: sched_safe_init sched_safe_step)

inductive_simps sched_init_simps: "sched_init tm"

section \<open>Runs of task switches\<close>

text \<open>The timer switching tasks again and again; \<open>ctxs\<close> are the contexts the interrupts saved.\<close>

fun switch_many :: "task_context list \<Rightarrow> task_manager \<Rightarrow> task_manager option" where
  "switch_many [] tm = Some tm"
| "switch_many (ctx # ctxs) tm = do {
     tm1 \<leftarrow> switch_task ctx tm;
     switch_many ctxs tm1
   }"

definition current_queue :: "task_manager \<Rightarrow> nat list" where
  "current_queue tm = run_queues tm ! current_level tm"

text \<open>A state in which no change of level is pending.\<close>

definition settled :: "task_manager \<Rightarrow> bool" where
  "settled tm \<longleftrightarrow> sched_inv tm \<and> \<not> level_changed tm"

lemma settled_queue:
  assumes "settled tm"
  shows "current_queue tm \<noteq> []" and "distinct (current_queue tm)"
    and "current_task tm = Some (hd (current_queue tm))"
  using assms queues_ok_distinct [of "tasks tm" "run_queues tm"]
  by (auto simp: settled_def sched_inv_def current_queue_def current_task_Some)

lemma settled_switch:
  assumes st: "settled tm"
  defines "c \<equiv> hd (current_queue tm)"
  shows "\<exists>tm'. switch_task ctx tm = Some tm' \<and> settled tm' \<and> current_queue tm' = rotate1 (current_queue tm)
    \<and> tasks tm' = (tasks tm)[c := (tasks tm ! c)\<lparr>tk_context := ctx\<rparr>]
    \<and> (current_task tm' \<noteq> Some c \<longrightarrow> cpu tm' = tk_context (tasks tm' ! hd (rotate1 (current_queue tm))))"
proof -
  have inv: "sched_inv tm" and c: "current_task tm = Some c"
    using st settled_queue [OF st] by (auto simp: settled_def c_def)
  have len: "current_level tm < length (run_queues tm)" using inv by (auto simp: sched_inv_def)
  from switch_task_spec [OF inv c, of ctx] st obtain tm' nxt
    where tm': "switch_task ctx tm = Some tm'" "sched_inv tm'" "current_task tm' = Some nxt"
      "tasks tm' = (tasks tm)[c := (tasks tm ! c)\<lparr>tk_context := ctx\<rparr>]" "\<not> level_changed tm'"
      "cpu tm' = (if nxt = c then cpu tm else tk_context (tasks tm' ! nxt))"
      and q: "current_queue tm' = rotate1 (current_queue tm)"
    by (auto simp: settled_def current_queue_def len)
  then have "settled tm'" by (simp add: settled_def)
  moreover from settled_queue(3) [OF this] q tm'(3) have "nxt = hd (rotate1 (current_queue tm))" by simp
  ultimately show ?thesis using tm' q by auto
qed

lemma switch_many_settled:
  "settled tm \<Longrightarrow> \<exists>tm'. switch_many ctxs tm = Some tm' \<and> settled tm'
    \<and> current_queue tm' = rotate (length ctxs) (current_queue tm) \<and> length (tasks tm') = length (tasks tm)"
proof (induction ctxs arbitrary: tm)
  case Nil
  then show ?case by simp
next
  case (Cons ctx ctxs)
  from settled_switch [OF Cons.prems, of ctx] obtain tm1 where tm1: "switch_task ctx tm = Some tm1"
    "settled tm1" "current_queue tm1 = rotate1 (current_queue tm)" "length (tasks tm1) = length (tasks tm)"
    by auto
  from Cons.IH [OF tm1(2)] tm1 show ?case by (auto simp: rotate1_rotate_swap)
qed

text \<open>A task whose turn does not come keeps its context.\<close>

lemma switch_many_untouched:
  "settled tm \<Longrightarrow> length ctxs \<le> length (current_queue tm) \<Longrightarrow>
    t \<notin> set (take (length ctxs) (current_queue tm)) \<Longrightarrow> switch_many ctxs tm = Some tm' \<Longrightarrow>
    tasks tm' ! t = tasks tm ! t"
proof (induction ctxs arbitrary: tm)
  case Nil
  then show ?case by simp
next
  case (Cons ctx ctxs)
  obtain c rest where q: "current_queue tm = c # rest"
    using settled_queue(1) [OF Cons.prems(1)] by (cases "current_queue tm") auto
  from settled_switch [OF Cons.prems(1), of ctx] q obtain tm1 where tm1: "switch_task ctx tm = Some tm1"
    "settled tm1" "current_queue tm1 = rest @ [c]" "tasks tm1 = (tasks tm)[c := (tasks tm ! c)\<lparr>tk_context := ctx\<rparr>]"
    by auto
  have "t \<noteq> c" and "t \<notin> set (take (length ctxs) (rest @ [c]))"
    using Cons.prems(2,3) q by auto
  with Cons.IH [OF tm1(2)] Cons.prems(2,4) tm1 q show ?case by simp
qed

text \<open>After the last switch of a queue of two or more tasks, the processor runs the current task's context.\<close>

lemma switch_many_cpu:
  "settled tm \<Longrightarrow> 2 \<le> length (current_queue tm) \<Longrightarrow> ctxs \<noteq> [] \<Longrightarrow> switch_many ctxs tm = Some tm' \<Longrightarrow>
    cpu tm' = tk_context (tasks tm' ! hd (current_queue tm'))"
proof (induction ctxs arbitrary: tm)
  case Nil
  then show ?case by simp
next
  case (Cons ctx ctxs)
  obtain c d rest where q: "current_queue tm = c # d # rest"
    using Cons.prems(2) by (cases "current_queue tm"; cases "tl (current_queue tm)") auto
  have "c \<noteq> d" using settled_queue(2) [OF Cons.prems(1)] q by simp
  with settled_switch [OF Cons.prems(1), of ctx] q obtain tm1 where tm1: "switch_task ctx tm = Some tm1"
    "settled tm1" "current_queue tm1 = d # rest @ [c]" "current_task tm1 \<noteq> Some c \<longrightarrow> cpu tm1 = tk_context (tasks tm1 ! d)"
    by auto
  with settled_queue(3) [OF tm1(2)] \<open>c \<noteq> d\<close> Cons.prems(4) Cons.IH [OF tm1(2)] show ?case
    by (cases "ctxs = []") auto
qed

section \<open>Properties\<close>

text \<open>The input of the witnesses: the state after the constructor, on zeroed memory.\<close>

definition boot_state :: task_manager where
  "boot_state = task_manager_new 0 zero_context 0 zero_context 0 0 zero_context"

lemma boot_reach: "reach sched_init sched_step boot_state"
  unfolding boot_state_def by (rule reach.reach_init [of sched_init]) (rule sched_init.boot)

lemma boot_safe: "sched_safe boot_state"
  by (rule sched.reach_inv [OF boot_reach])

lemma boot_eq:
  "tasks boot_state = [(task_new 0 zero_context 1)\<lparr>tk_level := 3, tk_running := True\<rparr>,
      (task_init_context 0 0 0 0 (task_new 0 zero_context 2))\<lparr>tk_level := 0, tk_running := True\<rparr>]"
  "run_queues boot_state = [[1], [], [], [0]]" "current_level boot_state = 3"
  "\<not> level_changed boot_state" "cpu boot_state = zero_context"
  by (simp_all add: boot_state_def task_manager_new_eq zero_context_def)







text \<open>
  Round robin.  While no change of level is pending, the timer runs the tasks of the current
  queue in turn: after \<open>n\<close> switches the current task is the one at position \<open>n\<close> modulo the
  queue's length.
\<close>

theorem switch_round_robin:
  assumes "settled tm"
  shows "\<exists>tm'. switch_many ctxs tm = Some tm' \<and>
    current_task tm' = Some (current_queue tm ! (length ctxs mod length (current_queue tm)))"
proof -
  from switch_many_settled [OF assms, of ctxs] obtain tm' where tm': "switch_many ctxs tm = Some tm'"
    "settled tm'" "current_queue tm' = rotate (length ctxs) (current_queue tm)" by auto
  have "hd (current_queue tm') = current_queue tm ! (length ctxs mod length (current_queue tm))"
    using tm'(3) settled_queue(1) [OF assms] by (simp add: hd_rotate_conv_nth)
  with tm' settled_queue(3) [OF tm'(2)] show ?thesis by auto
qed

theorem switch_round_robin_witness:
  "\<exists>tm'. switch_many [zero_context, zero_context, zero_context] boot_state = Some tm' \<and> current_task tm' = Some 0"
proof -
  have st: "settled boot_state" using boot_safe by (simp add: settled_def sched_safe_def boot_eq)
  from switch_round_robin [OF st, of "[zero_context, zero_context, zero_context]"] show ?thesis
    by (simp add: current_queue_def boot_eq)
qed

text \<open>
  Preemption is invisible to a task.  When the timer has switched once through a queue of two
  or more tasks, the task that was interrupted first runs again and the processor holds exactly the
  context that was saved for it.
\<close>

theorem switch_context_restored:
  assumes st: "settled tm" and n: "2 \<le> length (current_queue tm)"
    and len: "length (ctx # ctxs) = length (current_queue tm)"
  shows "\<exists>tm'. switch_many (ctx # ctxs) tm = Some tm' \<and> current_task tm' = current_task tm \<and> cpu tm' = ctx"
proof -
  obtain c rest where q: "current_queue tm = c # rest" using n by (cases "current_queue tm") auto
  from settled_switch [OF st, of ctx] q obtain tm1 where tm1: "switch_task ctx tm = Some tm1" "settled tm1"
    "current_queue tm1 = rest @ [c]" "tasks tm1 = (tasks tm)[c := (tasks tm ! c)\<lparr>tk_context := ctx\<rparr>]" by auto
  from switch_many_settled [OF tm1(2), of ctxs] obtain tm' where tm': "switch_many ctxs tm1 = Some tm'"
    "settled tm'" "current_queue tm' = rotate (length ctxs) (rest @ [c])" using tm1(3) by auto
  have all: "switch_many (ctx # ctxs) tm = Some tm'" using tm1(1) tm'(1) by simp
  have "length ctxs = length rest" using len q by simp
  then have q': "current_queue tm' = c # rest" using tm'(3) by (simp add: rotate_append)
  have c: "current_task tm = Some c" using settled_queue(3) [OF st] q by simp
  have "c < length (tasks tm)"
    using current_task_running(1) [of tm c] c st by (simp add: settled_def)
  moreover have "tasks tm' ! c = tasks tm1 ! c"
    using switch_many_untouched [OF tm1(2) _ _ tm'(1), of c] tm1(3) len q settled_queue(2) [OF st] by simp
  ultimately have "tk_context (tasks tm' ! c) = ctx" using tm1(4) by simp
  moreover have "cpu tm' = tk_context (tasks tm' ! c)"
    using switch_many_cpu [OF st n _ all] q' by simp
  ultimately show ?thesis using all c q' settled_queue(3) [OF tm'(2)] by simp
qed

text \<open>Two tasks at the highest level, beside the idle task.\<close>

definition duo_state :: task_manager where
  "duo_state = boot_state\<lparr>
     tasks := tasks boot_state @ [(task_new 0 zero_context 3)\<lparr>tk_level := 3, tk_running := True\<rparr>],
     latest_id := 3, run_queues := [[1], [], [], [0, 2]]\<rparr>"

lemma duo_eq:
  "tasks duo_state = [(task_new 0 zero_context 1)\<lparr>tk_level := 3, tk_running := True\<rparr>,
      (task_init_context 0 0 0 0 (task_new 0 zero_context 2))\<lparr>tk_level := 0, tk_running := True\<rparr>,
      (task_new 0 zero_context 3)\<lparr>tk_level := 3, tk_running := True\<rparr>]"
  "run_queues duo_state = [[1], [], [], [0, 2]]" "current_level duo_state = 3"
  "\<not> level_changed duo_state"
  by (simp_all add: duo_state_def boot_eq)

lemma duo_settled: "settled duo_state"
proof -
  have "queues_ok (tasks duo_state) (run_queues duo_state)"
    unfolding queues_ok_def all_levels
    by (simp add: duo_eq kMaxLevel_def less_Suc_eq all_conj_distrib) (auto simp: nth_Cons split: nat.splits)
  then show ?thesis
    by (simp add: settled_def sched_inv_def top_level_def duo_eq kMaxLevel_def)
qed

theorem switch_context_restored_witness:
  "\<exists>tm'. switch_many [zero_context\<lparr>cx_rax := 7\<rparr>, zero_context] duo_state = Some tm' \<and> cx_rax (cpu tm') = 7"
  using switch_context_restored [OF duo_settled, of "zero_context\<lparr>cx_rax := 7\<rparr>" "[zero_context]"]
  by (auto simp: current_queue_def duo_eq)

text \<open>
  C4: sending a message to a task id fails with \<open>kNoSuchTask\<close>, changing nothing, exactly when no
  task has the id; otherwise the message is appended to the mailbox of the first task with the id,
  that task is runnable afterwards at its level, and no other task is changed.
\<close>

theorem send_message_delivers:
  assumes inv: "sched_inv tm"
  shows "(find_task i tm = None \<longrightarrow> send_message i m tm = Some (KNoSuchTask, tm)) \<and>
    (find_task i tm = Some t \<longrightarrow>
      (\<exists>tm'. send_message i m tm = Some (KSuccess, tm') \<and>
        tk_messages (tasks tm' ! t) = tk_messages (tasks tm ! t) @ [m] \<and>
        tk_running (tasks tm' ! t) \<and> t \<in> set (run_queues tm' ! tk_level (tasks tm ! t)) \<and>
        (\<forall>u. u \<noteq> t \<longrightarrow> tasks tm' ! u = tasks tm ! u)))"
proof (intro conjI impI)
  assume "find_task i tm = None"
  then show "send_message i m tm = Some (KNoSuchTask, tm)" by (simp add: send_message_def)
next
  assume found: "find_task i tm = Some t"
  then have t: "t < length (tasks tm)" by (blast dest: find_task_Some)
  from task_send_message_inv [OF inv t, of m] obtain tm' where tm': "task_send_message t m tm = Some tm'"
    "sched_inv tm'" "length (tasks tm') = length (tasks tm)" "\<forall>u. u \<noteq> t \<longrightarrow> tasks tm' ! u = tasks tm ! u"
    "tk_running (tasks tm' ! t)" "tk_level (tasks tm' ! t) = tk_level (tasks tm ! t)" by blast
  have "tk_messages (tasks tm' ! t) = tk_messages (tasks tm ! t) @ [m]"
    by (rule task_send_message_mailbox [OF t tm'(1)])
  moreover have "t \<in> set (run_queues tm' ! tk_level (tasks tm ! t))"
    using tm' t queues_ok_mem [of "tasks tm'" "run_queues tm'"] queues_ok_level [of "tasks tm'" "run_queues tm'" t]
    by (auto simp: sched_inv_def)
  ultimately show "\<exists>tm'. send_message i m tm = Some (KSuccess, tm') \<and>
        tk_messages (tasks tm' ! t) = tk_messages (tasks tm ! t) @ [m] \<and>
        tk_running (tasks tm' ! t) \<and> t \<in> set (run_queues tm' ! tk_level (tasks tm ! t)) \<and>
        (\<forall>u. u \<noteq> t \<longrightarrow> tasks tm' ! u = tasks tm ! u)"
    using found tm' by (auto simp: send_message_def)
qed

theorem send_message_delivers_witness:
  "\<exists>tm'. send_message 1 (mk_message InterruptXHCI) boot_state = Some (KSuccess, tm')
    \<and> tk_messages (tasks tm' ! 0) = [mk_message InterruptXHCI]"
proof -
  have inv: "sched_inv boot_state" using boot_safe by (simp add: sched_safe_def)
  have "find_task 1 boot_state = Some 0" by (simp add: find_task_def boot_eq task_new_def upt_rec)
  with send_message_delivers [OF inv, of 1 "mk_message InterruptXHCI" 0] show ?thesis
    by (auto simp: boot_eq task_new_def)
qed

text \<open>
  When the running task goes to sleep, its queue no longer holds it, the processor's state is
  saved as its context, and the processor continues with the saved context of the task that becomes
  current, which is runnable and at the highest level that has one.
\<close>

theorem sleep_switches_away:
  assumes inv: "sched_inv tm" and idle: "idle_ok tm" and c: "current_task tm = Some c" and ni: "c \<noteq> idle_task"
  shows "\<exists>tm' nxt. sleep_task c tm = Some tm' \<and> current_task tm' = Some nxt \<and> nxt \<noteq> c
    \<and> tk_context (tasks tm' ! c) = cpu tm \<and> \<not> tk_running (tasks tm' ! c)
    \<and> (\<forall>lv \<le> kMaxLevel. c \<notin> set (run_queues tm' ! lv))
    \<and> cpu tm' = tk_context (tasks tm ! nxt) \<and> top_level (run_queues tm') (current_level tm')"
proof -
  note cr = current_task_running [OF inv c]
  have ok: "queues_ok (tasks tm) (run_queues tm)" using inv by (simp add: sched_inv_def)
  let ?k' = "(tasks tm ! c)\<lparr>tk_running := False\<rparr>"
  let ?tm1 = "tm\<lparr>tasks := (tasks tm)[c := ?k']\<rparr>"
  from rotate_leave [OF inv c _ idle_in_queue [OF ok idle], of ?tm1 ?k'] cr ni obtain tm2 where
    tm2: "rotate_run_queue True ?tm1 = Some (c, tm2)" "sched_inv tm2" "tasks tm2 = tasks ?tm1"
      "cpu tm2 = cpu tm" "top_level (run_queues tm2) (current_level tm2)" by auto
  obtain nxt where nxt: "current_task tm2 = Some nxt" using current_task_Some [OF tm2(2)] by simp
  note nr = current_task_running [OF tm2(2) nxt]
  have nc: "nxt \<noteq> c" using nr cr tm2(3) by auto
  let ?tm3 = "tm2\<lparr>tasks := (tasks tm2)[c := ?k'\<lparr>tk_context := cpu tm\<rparr>], cpu := tk_context (tasks tm ! nxt)\<rparr>"
  have sw: "switch_context nxt c tm2 = Some ?tm3"
    using nr cr nc tm2(3,4) by (simp add: switch_context_def restore_context_def tm_defined)
  have "current_task ?tm1 = Some c" using c by (simp add: current_task_def)
  then have sl: "sleep_task c tm = Some ?tm3"
    using cr tm2(1) nxt sw by (simp add: sleep_task_def tm_defined)
  have "c \<notin> set (run_queues tm2 ! lv)" if "lv \<le> kMaxLevel" for lv
    using queues_ok_mem [of "tasks tm2" "run_queues tm2" lv c] tm2(2,3) cr that by (simp add: sched_inv_def)
  moreover have "current_task ?tm3 = Some nxt" using nxt by (simp add: current_task_def)
  ultimately show ?thesis using sl nc cr tm2(3,5) by auto
qed

theorem sleep_switches_away_witness:
  "\<exists>tm'. sleep_task 0 boot_state = Some tm' \<and> current_task tm' = Some 1"
proof -
  have s: "sched_inv boot_state" "idle_ok boot_state" using boot_safe by (auto simp: sched_safe_def)
  have c: "current_task boot_state = Some 0" by (simp add: current_task_def arr_get_def boot_eq)
  from sleep_switches_away [OF s c] obtain tm' nxt where tm': "sleep_task 0 boot_state = Some tm'"
    "current_task tm' = Some nxt" "nxt \<noteq> 0" by (auto simp: idle_task_def)
  from sleep_task_inv [OF s, of 0] tm'(1) have "sched_inv tm'" "length (tasks tm') = 2"
    by (auto simp: boot_eq idle_task_def)
  with current_task_running(1) [OF _ tm'(2)] tm' show ?thesis by (auto simp: less_2_cases_iff)
qed

text \<open>
  Moving a running task to another level removes it from the queue of the current level, not of
  its own.  From a state the scheduler reaches, a wake-up of a running task of a lower level with an
  explicit level leaves the task in two run queues at once.
\<close>

theorem change_level_wrong_queue:
  "\<exists>tm t level tm'. reach sched_init sched_step tm \<and> wakeup_task t level tm = Some tm' \<and>
    0 \<le> level \<and> level \<le> int kMaxLevel \<and>
    t \<in> set (run_queues tm' ! 0) \<and> t \<in> set (run_queues tm' ! nat level) \<and> level \<noteq> 0"
proof -
  let ?tm' = "boot_state\<lparr>tasks := (tasks boot_state)[1 := (tasks boot_state ! 1)\<lparr>tk_level := 2\<rparr>],
     run_queues := [[1], [], [1], [0]]\<rparr>"
  have "wakeup_task 1 2 boot_state = Some ?tm'"
    by (simp add: wakeup_task_def change_level_running_def tm_defined current_task_def arr_get_def
        boot_eq task_init_context_def task_new_def Let_def boot_state_def task_manager_new_eq)
  with boot_reach show ?thesis
    by (intro exI [of _ boot_state] exI [of _ 1] exI [of _ 2] exI [of _ ?tm']) (simp add: kMaxLevel_def)
qed

lemma aligned_below_top:
  fixes m :: nat
  assumes "4096 \<le> m"
  shows "(m div 16 * 16 - 8) mod 16 = 8 \<and> m - 4096 \<le> m div 16 * 16 - 8 \<and> m div 16 * 16 - 8 + 8 \<le> m"
proof -
  obtain q where q: "m div 16 = Suc q" using assms by (cases "m div 16") auto
  then have "m div 16 * 16 - 8 = 8 + q * 16" by simp
  moreover have "m mod 16 < 16" "m div 16 * 16 + m mod 16 = m" by simp_all
  ultimately show ?thesis using assms q by (simp only: mod_mult_self1 mod_less) simp
qed

lemma init_context_fields:
  "let k' = task_init_context f data pml base k; ctx = tk_context k' in
    length (tk_stack k') = 512 \<and> length (cx_fxsave ctx) = 512
    \<and> cx_rip ctx = f \<and> cx_rdi ctx = tk_id k \<and> cx_rsi ctx = data \<and> cx_cr3 ctx = pml
    \<and> cx_rflags ctx = 0x202"
  by (simp add: task_init_context_def zero_context_def kDefaultStackBytes_def Let_def)

text \<open>
  A task prepared by \<open>InitContext\<close> starts with an empty stack that lies inside its own 4096
  bytes, with the stack pointer at 8 modulo 16, as a function finds it right after a call; it starts
  at \<open>f\<close>, with its id and \<open>data\<close> as arguments, in the given address space and with interrupts on.
\<close>

theorem init_context_stack:
  fixes base :: u64
  assumes "unat base + kDefaultStackBytes < 2 ^ 64"
  shows "let k' = task_init_context f data pml base k; ctx = tk_context k' in
    unat (cx_rsp ctx) mod 16 = 8
    \<and> unat base \<le> unat (cx_rsp ctx) \<and> unat (cx_rsp ctx) + 8 \<le> unat base + 8 * length (tk_stack k')
    \<and> length (tk_stack k') = 512 \<and> length (cx_fxsave ctx) = 512
    \<and> cx_rip ctx = f \<and> cx_rdi ctx = tk_id k \<and> cx_rsi ctx = data \<and> cx_cr3 ctx = pml
    \<and> bit (cx_rflags ctx) 9"
proof -
  have e: "unat (base + 4096) = unat base + 4096"
    using unat_add_no_wrap [of base 4096] assms by (simp add: kDefaultStackBytes_def)
  let ?a = "(unat base + 4096) div 16 * 16"
  have a: "unat ((base + 4096) AND NOT 15) = ?a"
    using and_not_mask_unat [of "base + 4096" 4] e by (simp add: mask_eq_exp_minus_1)
  have r: "unat (((base + 4096) AND NOT 15) - 8) = ?a - 8"
    using unat_sub_no_wrap [of 8 "(base + 4096) AND NOT 15"] a by simp
  have n: "(?a - 8) mod 16 = 8" "unat base \<le> ?a - 8" "?a - 8 + 8 \<le> unat base + 4096"
    using aligned_below_top [of "unat base + 4096"] by auto
  let ?ctx = "tk_context (task_init_context f data pml base k)"
  have "cx_rsp ?ctx = ((base + 8 * of_nat (kDefaultStackBytes div 8)) AND NOT 0xF) - 8"
    unfolding task_init_context_def Let_def by simp
  also have "8 * of_nat (kDefaultStackBytes div 8) = (4096 :: u64)" by (simp add: kDefaultStackBytes_def)
  finally have "unat (cx_rsp ?ctx) = ?a - 8" by (simp only: r)
  moreover have "bit (0x202 :: u64) 9" by (simp add: bit_numeral_rec)
  ultimately show ?thesis
    using n init_context_fields [of f data pml base k] by (simp add: Let_def)
qed

theorem init_context_stack_witness:
  "unat (cx_rsp (tk_context (task_init_context 0x1000 5 0 0x20008 (task_new 0 zero_context 3)))) mod 16 = 8"
  using init_context_stack [where base = "0x20008" and f = "0x1000" and data = 5 and pml = 0
      and k = "task_new 0 zero_context 3"]
  by (simp add: kDefaultStackBytes_def Let_def)

end
