(* ===== verification/Bit_Field.thy ===== *)
theory Bit_Field
  imports Kernel_Prelude
begin

text \<open>
  Bit fields.  The kernel overlays integers with packed bit-field structures (segment and interrupt
  descriptors, page table entries, transfer request blocks, device registers).  Such a union is
  modelled by its integer; \<open>bf_get lo n\<close> reads and \<open>bf_set lo n\<close> writes the field of \<open>n\<close> bits at
  bit \<open>lo\<close>.  A value stored in a field is cut to the field's width, as the language does.
\<close>

definition bf_get :: "nat \<Rightarrow> nat \<Rightarrow> 'a::len word \<Rightarrow> 'a word" where
  "bf_get lo n w = take_bit n (drop_bit lo w)"

definition bf_set :: "nat \<Rightarrow> nat \<Rightarrow> 'a::len word \<Rightarrow> 'a word \<Rightarrow> 'a word" where
  "bf_set lo n v w = (w AND NOT (push_bit lo (mask n))) OR push_bit lo (take_bit n v)"

lemma bit_bf_set:
  "bit (bf_set lo n v w) i \<longleftrightarrow>
    i < LENGTH('a) \<and> (if lo \<le> i \<and> i < lo + n then bit v (i - lo) else bit w i)"
  for v w :: "'a::len word"
  by (auto simp: bf_set_def bit_simps)

lemma bit_bf_get: "bit (bf_get lo n w) i \<longleftrightarrow> i < n \<and> bit w (lo + i)" for w :: "'a::len word"
  by (auto simp: bf_get_def bit_simps)

lemma bf_get_set_same [simp]:
  "lo + n \<le> LENGTH('a) \<Longrightarrow> bf_get lo n (bf_set lo n v w) = take_bit n v" for v w :: "'a::len word"
  by (rule bit_word_eqI) (auto simp: bit_bf_get bit_bf_set bit_simps)

lemma bf_get_set_other [simp]:
  "lo + n \<le> lo' \<or> lo' + n' \<le> lo \<Longrightarrow> bf_get lo' n' (bf_set lo n v w) = bf_get lo' n' w"
  for v w :: "'a::len word"
  by (rule bit_word_eqI) (auto simp: bit_bf_get bit_bf_set bit_imp_le_length)

lemma bf_get_zero [simp]: "bf_get lo n 0 = (0 :: 'a::len word)"
  by (simp add: bf_get_def)

text \<open>A value narrow enough for a field is stored whole.\<close>

lemma take_bit_small: "unat v < 2 ^ n \<Longrightarrow> take_bit n v = v" for v :: "'a::len word"
proof -
  assume "unat v < 2 ^ n"
  then have "unat (take_bit n v) = unat v" by (simp only: unsigned_take_bit_eq take_bit_nat_eq_self)
  then show ?thesis by (rule unsigned_word_eqI)
qed

lemma unat_bf_get: "unat (bf_get lo n w) = unat w div 2 ^ lo mod 2 ^ n" for w :: "'a::len word"
  by (simp only: bf_get_def unsigned_take_bit_eq take_bit_eq_mod [where 'a=nat] unat_drop_bit_eq
      drop_bit_eq_div [where 'a=nat])

lemma unat_bf_get_less: "unat (bf_get lo n w) < 2 ^ n" for w :: "'a::len word"
  by (simp add: unat_bf_get)

end
