(* ===== verification/Memory_Manager.thy ===== *)
theory Memory_Manager
  imports Kernel_Prelude
begin

text \<open>
  Physical memory: \<open>Kernel/memory_map.hpp\<close>, \<open>Kernel/memory_manager.hpp\<close>,
  \<open>Kernel/memory_manager.cpp\<close> and \<open>sbrk\<close> of \<open>Kernel/newlib_support.c\<close>.

  \<open>alloc_map_\<close> is a function from line numbers to 64-bit lines, guarded by the array's size:
  \<open>None\<close> is an access outside the array.  A \<open>FrameID\<close> is its number.  Frame numbers are naturals:
  every frame an operation touches passed the guard, so no sum of the source wraps before the
  outcome is undefined.
\<close>

section \<open>The memory map of the boot loader\<close>

record memory_descriptor =
  md_type :: u32
  md_physical_start :: u64
  md_virtual_start :: u64
  md_number_of_pages :: u64
  md_attribute :: u64

datatype memory_type =
    EfiReservedMemoryType
  | EfiLoaderCode
  | EfiLoaderData
  | EfiBootServicesCode
  | EfiBootServicesData
  | EfiRuntimeServicesCode
  | EfiRuntimeServicesData
  | EfiConventionalMemory
  | EfiUnusableMemory
  | EfiACPIReclaimMemory
  | EfiACPIMemoryNVS
  | EfiMemoryMappedIO
  | EfiMemoryMappedIOPortSpace
  | EfiPalCode
  | EfiPersistentMemory
  | EfiMaxMemoryType

fun memory_type_code :: "memory_type \<Rightarrow> u32" where
  "memory_type_code EfiReservedMemoryType = 0"
| "memory_type_code EfiLoaderCode = 1"
| "memory_type_code EfiLoaderData = 2"
| "memory_type_code EfiBootServicesCode = 3"
| "memory_type_code EfiBootServicesData = 4"
| "memory_type_code EfiRuntimeServicesCode = 5"
| "memory_type_code EfiRuntimeServicesData = 6"
| "memory_type_code EfiConventionalMemory = 7"
| "memory_type_code EfiUnusableMemory = 8"
| "memory_type_code EfiACPIReclaimMemory = 9"
| "memory_type_code EfiACPIMemoryNVS = 10"
| "memory_type_code EfiMemoryMappedIO = 11"
| "memory_type_code EfiMemoryMappedIOPortSpace = 12"
| "memory_type_code EfiPalCode = 13"
| "memory_type_code EfiPersistentMemory = 14"
| "memory_type_code EfiMaxMemoryType = 15"

text \<open>\<open>IsAvailable(static_cast<MemoryType>(t))\<close>; a type number outside the enumeration compares
  unequal to all three.\<close>

definition is_available :: "u32 \<Rightarrow> bool" where
  "is_available t \<longleftrightarrow>
    t = memory_type_code EfiBootServicesCode \<or> t = memory_type_code EfiBootServicesData \<or>
    t = memory_type_code EfiConventionalMemory"

definition kUEFIPageSize :: u64 where
  "kUEFIPageSize = 4096"

section \<open>The bitmap\<close>

definition kBytesPerFrame :: u64 where
  "kBytesPerFrame = 4096"

text \<open>128 GiB of frames.\<close>

definition kFrameCount :: nat where
  "kFrameCount = 128 * 1024 * 1024 * 1024 div 4096"

definition kBitsPerMapLine :: nat where
  "kBitsPerMapLine = 64"

definition kNullFrame :: nat where
  "kNullFrame = 2 ^ 64 - 1"

definition frame_address :: "nat \<Rightarrow> u64" where
  "frame_address i = of_nat i * kBytesPerFrame"

record bitmap_manager =
  alloc_map :: "nat \<Rightarrow> u64"
  range_begin :: nat
  range_end :: nat

definition bitmap_manager_new :: bitmap_manager where
  "bitmap_manager_new = \<lparr>alloc_map = (\<lambda>_. 0), range_begin = 0, range_end = kFrameCount\<rparr>"

definition map_lines :: nat where
  "map_lines = kFrameCount div kBitsPerMapLine"

definition get_bit :: "nat \<Rightarrow> bitmap_manager \<Rightarrow> bool option" where
  "get_bit frame m =
    (let line_index = frame div kBitsPerMapLine; bit_index = frame mod kBitsPerMapLine in
     if line_index < map_lines
     then Some (alloc_map m line_index AND push_bit bit_index 1 \<noteq> 0) else None)"

definition set_bit_at :: "nat \<Rightarrow> bool \<Rightarrow> bitmap_manager \<Rightarrow> bitmap_manager option" where
  "set_bit_at frame allocated m =
    (let line_index = frame div kBitsPerMapLine; bit_index = frame mod kBitsPerMapLine;
         msk = push_bit bit_index 1; line = alloc_map m line_index in
     if line_index < map_lines
     then Some (m\<lparr>alloc_map := (alloc_map m)(line_index :=
            (if allocated then line OR msk else line AND NOT msk))\<rparr>)
     else None)"

text \<open>The loops of \<open>MarkAllocated\<close> and \<open>Free\<close>, over the \<open>n\<close> frames from \<open>start\<close>.\<close>

fun set_frames :: "bool \<Rightarrow> nat \<Rightarrow> nat \<Rightarrow> bitmap_manager \<Rightarrow> bitmap_manager option" where
  "set_frames b start 0 m = Some m"
| "set_frames b start (Suc n) m = do {
     m1 \<leftarrow> set_bit_at start b m;
     set_frames b (Suc start) n m1
   }"

definition mark_allocated :: "nat \<Rightarrow> nat \<Rightarrow> bitmap_manager \<Rightarrow> bitmap_manager option" where
  "mark_allocated start_frame num_frames = set_frames True start_frame num_frames"

definition free_frames :: "nat \<Rightarrow> nat \<Rightarrow> bitmap_manager \<Rightarrow> (error_code \<times> bitmap_manager) option" where
  "free_frames start_frame num_frames m =
    map_option (Pair KSuccess) (set_frames False start_frame num_frames m)"

definition set_memory_range :: "nat \<Rightarrow> nat \<Rightarrow> bitmap_manager \<Rightarrow> bitmap_manager" where
  "set_memory_range b e m = m\<lparr>range_begin := b, range_end := e\<rparr>"

text \<open>
  The inner loop of \<open>Allocate\<close>: from frame \<open>start + i\<close> on, \<open>r\<close> frames are still to be looked at.
\<close>

datatype scan_result = ScanEnd | ScanUsed nat | ScanFree

fun scan_frames :: "bitmap_manager \<Rightarrow> nat \<Rightarrow> nat \<Rightarrow> nat \<Rightarrow> scan_result option" where
  "scan_frames m start i 0 = Some ScanFree"
| "scan_frames m start i (Suc r) =
    (if range_end m \<le> start + i then Some ScanEnd
     else do {
       b \<leftarrow> get_bit (start + i) m;
       (if b then Some (ScanUsed i) else scan_frames m start (Suc i) r)
     })"

text \<open>A scan that meets a used frame stops inside the range, at or after the frame it started at.\<close>

lemma scan_frames_used:
  "scan_frames m start i r = Some (ScanUsed j) \<Longrightarrow> i \<le> j \<and> j < i + r \<and> start + j < range_end m"
  by (induction m start i r rule: scan_frames.induct)
    (fastforce split: if_splits simp: bind_eq_Some_conv)+

text \<open>The outer loop of \<open>Allocate\<close>.\<close>

function allocate_from :: "nat \<Rightarrow> bitmap_manager \<Rightarrow> nat \<Rightarrow> (nat with_error \<times> bitmap_manager) option" where
  "allocate_from num_frames m start_frame =
    (case scan_frames m start_frame 0 num_frames of
       None \<Rightarrow> None
     | Some ScanEnd \<Rightarrow> Some ((kNullFrame, KNoEnoughMemory), m)
     | Some ScanFree \<Rightarrow>
         map_option (Pair (start_frame, KSuccess)) (mark_allocated start_frame num_frames m)
     | Some (ScanUsed i) \<Rightarrow> allocate_from num_frames m (start_frame + (i + 1)))"
  by pat_completeness auto

termination
  by (relation "measure (\<lambda>(n, m, s). range_end m - s)") (auto dest: scan_frames_used)

declare allocate_from.simps [simp del]

definition allocate :: "nat \<Rightarrow> bitmap_manager \<Rightarrow> (nat with_error \<times> bitmap_manager) option" where
  "allocate num_frames m = allocate_from num_frames m (range_begin m)"

section \<open>The set of used frames\<close>

definition frame_used :: "bitmap_manager \<Rightarrow> nat \<Rightarrow> bool" where
  "frame_used m f \<longleftrightarrow> bit (alloc_map m (f div 64)) (f mod 64)"

definition used_frames :: "bitmap_manager \<Rightarrow> nat set" where
  "used_frames m = {f. frame_used m f}"

definition frame_run :: "nat \<Rightarrow> nat \<Rightarrow> nat set" where
  "frame_run s n = {s..<s + n}"

definition run_set :: "nat \<times> nat \<Rightarrow> nat set" where
  "run_set r = frame_run (fst r) (snd r)"

lemma run_set_pair [simp]: "run_set (s, n) = frame_run s n"
  by (simp add: run_set_def)

text \<open>No two of the runs share a frame.\<close>

fun disjoint_runs :: "(nat \<times> nat) list \<Rightarrow> bool" where
  "disjoint_runs [] = True"
| "disjoint_runs (r # rs) = ((\<forall>q \<in> set rs. run_set r \<inter> run_set q = {}) \<and> disjoint_runs rs)"

lemma frame_run_0 [simp]: "frame_run s 0 = {}"
  by (simp add: frame_run_def)

lemma frame_run_Suc: "frame_run s (Suc n) = insert s (frame_run (Suc s) n)"
  by (auto simp: frame_run_def)

lemma map_lines_guard: "f div 64 < map_lines \<longleftrightarrow> f < kFrameCount"
  by (auto simp: map_lines_def kFrameCount_def kBitsPerMapLine_def)

lemma get_bit_eq: "get_bit f m = (if f < kFrameCount then Some (frame_used m f) else None)"
proof -
  have "x AND push_bit n 1 \<noteq> 0 \<longleftrightarrow> bit x n" for x :: u64 and n
    by (simp add: and_exp_eq_0_iff_not_bit push_bit_eq_mult)
  then show ?thesis
    by (simp add: get_bit_def Let_def kBitsPerMapLine_def map_lines_guard frame_used_def)
qed

lemma set_bit_at_None: "kFrameCount \<le> f \<Longrightarrow> set_bit_at f b m = None"
  by (simp add: set_bit_at_def Let_def kBitsPerMapLine_def map_lines_guard)

lemma set_bit_at_Some:
  assumes "f < kFrameCount"
  shows "\<exists>m'. set_bit_at f b m = Some m' \<and> range_begin m' = range_begin m \<and> range_end m' = range_end m
    \<and> used_frames m' = (if b then insert f (used_frames m) else used_frames m - {f})"
proof -
  let ?line = "alloc_map m (f div 64)"
  let ?line' = "if b then ?line OR push_bit (f mod 64) 1 else ?line AND NOT (push_bit (f mod 64) 1)"
  let ?m' = "m\<lparr>alloc_map := (alloc_map m)(f div 64 := ?line')\<rparr>"
  have "set_bit_at f b m = Some ?m'"
    using assms by (simp add: set_bit_at_def Let_def kBitsPerMapLine_def map_lines_guard)
  moreover have "frame_used ?m' g \<longleftrightarrow> (if g = f then b else frame_used m g)" for g
  proof (cases "g div 64 = f div 64")
    case True
    have "g mod 64 = f mod 64 \<longleftrightarrow> g = f" using True by (metis div_mult_mod_eq)
    moreover have "g mod 64 < 64" by simp
    ultimately show ?thesis using True by (auto simp: frame_used_def bit_simps)
  qed (auto simp: frame_used_def)
  ultimately show ?thesis by (intro exI [of _ ?m']) (auto simp: used_frames_def split: if_splits)
qed

lemma set_frames_Some:
  "start + n \<le> kFrameCount \<Longrightarrow>
    \<exists>m'. set_frames b start n m = Some m' \<and> range_begin m' = range_begin m \<and> range_end m' = range_end m
    \<and> used_frames m' = (if b then used_frames m \<union> frame_run start n else used_frames m - frame_run start n)"
proof (induction n arbitrary: start m)
  case 0
  then show ?case by simp
next
  case (Suc n)
  from set_bit_at_Some [of start b m] Suc.prems obtain m1 where m1: "set_bit_at start b m = Some m1"
    "range_begin m1 = range_begin m" "range_end m1 = range_end m"
    "used_frames m1 = (if b then insert start (used_frames m) else used_frames m - {start})" by auto
  from Suc.IH [of "Suc start" m1] Suc.prems obtain m' where "set_frames b (Suc start) n m1 = Some m'"
    "range_begin m' = range_begin m1" "range_end m' = range_end m1"
    "used_frames m' = (if b then used_frames m1 \<union> frame_run (Suc start) n
      else used_frames m1 - frame_run (Suc start) n)" by auto
  with m1 show ?case by (auto simp: frame_run_Suc)
qed

lemma set_frames_None: "kFrameCount < start + n \<Longrightarrow> 0 < n \<Longrightarrow> set_frames b start n m = None"
proof (induction n arbitrary: start m)
  case (Suc n)
  show ?case
  proof (cases "start < kFrameCount")
    case True
    then have "kFrameCount < Suc start + n" "0 < n" using Suc.prems by (cases n; simp)+
    with Suc.IH [of "Suc start"] show ?thesis by (cases "set_bit_at start b m") simp_all
  qed (simp add: set_bit_at_None)
qed simp

section \<open>First fit\<close>

definition manager_ok :: "bitmap_manager \<Rightarrow> bool" where
  "manager_ok m \<longleftrightarrow> range_begin m \<le> range_end m \<and> range_end m \<le> kFrameCount"

definition free_run :: "bitmap_manager \<Rightarrow> nat \<Rightarrow> nat \<Rightarrow> bool" where
  "free_run m s n \<longleftrightarrow> range_begin m \<le> s \<and> s + n \<le> range_end m \<and> frame_run s n \<inter> used_frames m = {}"

lemma scan_frames_spec:
  assumes "manager_ok m"
  shows "scan_frames m s i r = Some ScanFree \<and> frame_run (s + i) r \<subseteq> {..<range_end m} - used_frames m
    \<or> scan_frames m s i r = Some ScanEnd \<and> range_end m < s + i + r
    \<or> (\<exists>j. scan_frames m s i r = Some (ScanUsed j) \<and> i \<le> j \<and> j < i + r \<and> s + j < range_end m
        \<and> s + j \<in> used_frames m)"
proof (induction r arbitrary: i)
  case 0
  then show ?case by auto
next
  case (Suc r)
  consider "range_end m \<le> s + i" | "s + i < range_end m" "s + i \<in> used_frames m"
    | "s + i < range_end m" "s + i \<notin> used_frames m" by linarith
  then show ?case
  proof cases
    case 2
    then show ?thesis using assms by (simp add: get_bit_eq used_frames_def manager_ok_def)
  next
    case 3
    then have "scan_frames m s i (Suc r) = scan_frames m s (Suc i) r"
      using assms by (simp add: get_bit_eq used_frames_def manager_ok_def)
    moreover have "frame_run (s + i) (Suc r) \<subseteq> {..<range_end m} - used_frames m \<longleftrightarrow>
        frame_run (s + Suc i) r \<subseteq> {..<range_end m} - used_frames m"
      using 3 by (simp add: frame_run_Suc)
    moreover note Suc.IH [of "Suc i"]
    ultimately show ?thesis by (simp only:) (auto simp: frame_run_Suc)
  qed simp
qed

text \<open>A run that starts at or after \<open>s\<close> cannot contain a frame known to be used.\<close>

lemma free_run_after_used:
  assumes "free_run m s' n" and "s \<le> s'" and "s + j \<in> used_frames m" and "j < n"
  shows "s + (j + 1) \<le> s'"
proof (rule ccontr)
  assume "\<not> ?thesis"
  with assms(2,4) have "s + j \<in> frame_run s' n" by (auto simp: frame_run_def)
  with assms(1,3) show False by (auto simp: free_run_def)
qed

definition allocated_at :: "nat \<Rightarrow> bitmap_manager \<Rightarrow> nat \<Rightarrow> nat \<Rightarrow> bitmap_manager \<Rightarrow> bool" where
  "allocated_at n m s s0 m' \<longleftrightarrow>
    s \<le> s0 \<and> (0 < n \<longrightarrow> free_run m s0 n) \<and> (\<forall>s'. s \<le> s' \<and> free_run m s' n \<longrightarrow> s0 \<le> s')
    \<and> range_begin m' = range_begin m \<and> range_end m' = range_end m
    \<and> used_frames m' = used_frames m \<union> frame_run s0 n"

lemma mark_free_run:
  assumes ok: "manager_ok m" and s: "range_begin m \<le> s"
    and free: "frame_run s n \<subseteq> {..<range_end m} - used_frames m"
  shows "\<exists>m'. mark_allocated s n m = Some m' \<and> allocated_at n m s s m'"
proof (cases n)
  case 0
  then show ?thesis by (simp add: mark_allocated_def allocated_at_def)
next
  case (Suc k)
  have "s + k \<in> frame_run s n" using Suc by (simp add: frame_run_def)
  with free Suc have e: "s + n \<le> range_end m" by auto
  then have run: "free_run m s n" using s free by (auto simp: free_run_def frame_run_def)
  from e ok have "s + n \<le> kFrameCount" by (simp add: manager_ok_def)
  from set_frames_Some [OF this, of True m] run show ?thesis
    by (auto simp: mark_allocated_def allocated_at_def)
qed

lemma allocate_from_spec:
  assumes ok: "manager_ok m" and s: "range_begin m \<le> s"
  shows "(\<exists>s0 m'. allocate_from n m s = Some ((s0, KSuccess), m') \<and> allocated_at n m s s0 m')
    \<or> allocate_from n m s = Some ((kNullFrame, KNoEnoughMemory), m) \<and> (\<forall>s'. s \<le> s' \<longrightarrow> \<not> free_run m s' n)"
  using s
proof (induction "range_end m - s" arbitrary: s rule: less_induct)
  case less
  from scan_frames_spec [OF ok, of s 0 n] consider
      (free) "scan_frames m s 0 n = Some ScanFree"
        "frame_run s n \<subseteq> {..<range_end m} - used_frames m"
    | (full) "scan_frames m s 0 n = Some ScanEnd" "range_end m < s + n"
    | (hit) j where "scan_frames m s 0 n = Some (ScanUsed j)" "j < n" "s + j < range_end m"
        "s + j \<in> used_frames m" by auto
  then show ?case
  proof cases
    case free
    from mark_free_run [OF ok less.prems free(2)] free(1) show ?thesis
      by (auto simp: allocate_from.simps [of n m s])
  next
    case full
    then have "\<not> free_run m s' n" if "s \<le> s'" for s' using that by (simp add: free_run_def)
    with full show ?thesis by (simp add: allocate_from.simps [of n m s])
  next
    case hit
    let ?t = "s + (j + 1)"
    have step: "allocate_from n m s = allocate_from n m ?t"
      using hit(1) by (simp add: allocate_from.simps [of n m s])
    have later: "?t \<le> s'" if "free_run m s' n" "s \<le> s'" for s'
      using free_run_after_used [OF that hit(4,2)] .
    have "range_end m - ?t < range_end m - s" "range_begin m \<le> ?t" using hit(3) less.prems by auto
    from less.hyps [OF this] later show ?thesis unfolding step
      by (auto simp: allocated_at_def)
  qed
qed

section \<open>The contract of a frame allocator\<close>

text \<open>
  What the clients of the memory manager rely on: an allocation either fails and changes nothing or
  yields a run of frames that were free, which are used from then on; freeing gives back exactly the
  frames named.
\<close>

text \<open>A client that allocates runs of the given sizes one after the other; failed ones yield nothing.\<close>

fun alloc_many ::
  "(nat \<Rightarrow> 'm \<Rightarrow> (nat with_error \<times> 'm) option) \<Rightarrow> nat list \<Rightarrow> 'm \<Rightarrow> ((nat \<times> nat) list \<times> 'm) option" where
  "alloc_many alloc [] m = Some ([], m)"
| "alloc_many alloc (n # ns) m = do {
     ((s, e), m1) \<leftarrow> alloc n m;
     (rs, m2) \<leftarrow> alloc_many alloc ns m1;
     Some (if e = KSuccess then (s, n) # rs else rs, m2)
   }"

locale frame_allocator =
  fixes alloc :: "nat \<Rightarrow> 'm \<Rightarrow> (nat with_error \<times> 'm) option"
    and release :: "nat \<Rightarrow> nat \<Rightarrow> 'm \<Rightarrow> (error_code \<times> 'm) option"
    and used :: "'m \<Rightarrow> nat set"
    and managed :: "'m \<Rightarrow> nat set"
    and valid :: "'m \<Rightarrow> bool"
  assumes alloc_total: "valid m \<Longrightarrow> 0 < n \<Longrightarrow> \<exists>r m'. alloc n m = Some (r, m')"
    and alloc_fresh: "valid m \<Longrightarrow> 0 < n \<Longrightarrow> alloc n m = Some ((s, KSuccess), m') \<Longrightarrow>
      valid m' \<and> managed m' = managed m \<and> frame_run s n \<subseteq> managed m \<and> frame_run s n \<inter> used m = {}
      \<and> used m' = used m \<union> frame_run s n"
    and alloc_fails: "valid m \<Longrightarrow> 0 < n \<Longrightarrow> alloc n m = Some ((s, e), m') \<Longrightarrow> e \<noteq> KSuccess \<Longrightarrow> m' = m"
    and release_run: "valid m \<Longrightarrow> frame_run s n \<subseteq> managed m \<Longrightarrow>
      \<exists>m'. release s n m = Some (KSuccess, m') \<and> valid m' \<and> managed m' = managed m
        \<and> used m' = used m - frame_run s n"
begin

lemma alloc_many_spec:
  "valid m \<Longrightarrow> \<forall>n \<in> set ns. 0 < n \<Longrightarrow>
    \<exists>rs m'. alloc_many alloc ns m = Some (rs, m') \<and> valid m' \<and> managed m' = managed m
      \<and> used m' = used m \<union> \<Union>(run_set ` set rs) \<and> \<Union>(run_set ` set rs) \<subseteq> managed m - used m
      \<and> disjoint_runs rs"
proof (induction ns arbitrary: m)
  case Nil
  then show ?case by simp
next
  case (Cons n ns)
  then obtain s e m1 where a: "alloc n m = Some ((s, e), m1)"
    using alloc_total [of m n] by (metis list.set_intros(1) surj_pair)
  show ?case
  proof (cases "e = KSuccess")
    case False
    with alloc_fails [OF Cons.prems(1) _ a] Cons a show ?thesis by auto
  next
    case True
    with alloc_fresh [of m n s m1] Cons.prems a have m1: "valid m1" "managed m1 = managed m"
      "frame_run s n \<subseteq> managed m" "frame_run s n \<inter> used m = {}" "used m1 = used m \<union> frame_run s n" by auto
    from Cons.IH [OF m1(1)] Cons.prems(2) obtain rs m' where
      rs: "alloc_many alloc ns m1 = Some (rs, m')" "valid m'" "managed m' = managed m1"
        "used m' = used m1 \<union> \<Union>(run_set ` set rs)" "\<Union>(run_set ` set rs) \<subseteq> managed m1 - used m1"
        "disjoint_runs rs" by auto
    have "alloc_many alloc (n # ns) m = Some ((s, n) # rs, m')" using a True rs(1) by simp
    moreover have "run_set (s, n) \<inter> run_set q = {}" if "q \<in> set rs" for q
      using rs(5) that m1(5) by (simp only: run_set_pair) blast
    ultimately show ?thesis using m1 rs(2-6)
      by (intro exI [of _ "(s, n) # rs"] exI [of _ m']) auto
  qed
qed

text \<open>Allocating a run and giving it back leaves the same frames in use.\<close>

lemma alloc_release:
  assumes "valid m" and "0 < n" and "alloc n m = Some ((s, KSuccess), m1)"
  shows "\<exists>m2. release s n m1 = Some (KSuccess, m2) \<and> used m2 = used m \<and> valid m2"
proof -
  note f = alloc_fresh [OF assms]
  from release_run [of m1 s n] f show ?thesis by auto
qed

end

definition managed_frames :: "bitmap_manager \<Rightarrow> nat set" where
  "managed_frames m = {range_begin m..<range_end m}"

lemma allocate_spec:
  "manager_ok m \<Longrightarrow>
    (\<exists>s m'. allocate n m = Some ((s, KSuccess), m') \<and> allocated_at n m (range_begin m) s m')
    \<or> allocate n m = Some ((kNullFrame, KNoEnoughMemory), m) \<and> (\<forall>s'. \<not> free_run m s' n)"
  using allocate_from_spec [of m "range_begin m" n] by (auto simp: allocate_def free_run_def)

lemma allocated_at_frames:
  "0 < n \<Longrightarrow> allocated_at n m s0 s m' \<Longrightarrow> manager_ok m \<Longrightarrow>
    manager_ok m' \<and> managed_frames m' = managed_frames m \<and> frame_run s n \<subseteq> managed_frames m
    \<and> frame_run s n \<inter> used_frames m = {}"
  by (auto simp: allocated_at_def manager_ok_def managed_frames_def free_run_def frame_run_def)

lemma free_frames_spec:
  assumes "manager_ok m" and "frame_run s n \<subseteq> managed_frames m"
  shows "\<exists>m'. free_frames s n m = Some (KSuccess, m') \<and> manager_ok m' \<and> managed_frames m' = managed_frames m
    \<and> used_frames m' = used_frames m - frame_run s n"
proof (cases n)
  case 0
  with assms show ?thesis by (simp add: free_frames_def)
next
  case (Suc k)
  then have "s + k \<in> managed_frames m" using assms(2) by (auto simp: frame_run_def subset_iff)
  with assms(1) Suc have "s + n \<le> kFrameCount" by (simp add: managed_frames_def manager_ok_def)
  from set_frames_Some [OF this, of False m] assms(1) show ?thesis
    by (auto simp: free_frames_def manager_ok_def managed_frames_def)
qed

interpretation fa: frame_allocator allocate free_frames used_frames managed_frames manager_ok
proof unfold_locales
  fix m :: bitmap_manager and n
  assume "manager_ok m"
  from allocate_spec [OF this, of n] show "\<exists>r m'. allocate n m = Some (r, m')" by blast
next
  fix m n s m'
  assume ok: "manager_ok m" and n: "0 < n" and a: "allocate n m = Some ((s, KSuccess), m')"
  from allocate_spec [OF ok, of n] a have "allocated_at n m (range_begin m) s m'" by auto
  with allocated_at_frames [OF n this ok] show "manager_ok m' \<and> managed_frames m' = managed_frames m
      \<and> frame_run s n \<subseteq> managed_frames m \<and> frame_run s n \<inter> used_frames m = {}
      \<and> used_frames m' = used_frames m \<union> frame_run s n"
    by (simp add: allocated_at_def)
next
  fix m n s e m'
  assume ok: "manager_ok m" and a: "allocate n m = Some ((s, e), m')" and e: "e \<noteq> KSuccess"
  from allocate_spec [OF ok, of n] a e show "m' = m" by auto
qed (rule free_frames_spec)

section \<open>Properties of the allocator\<close>

text \<open>
  C14: first fit.  \<open>Allocate\<close> always returns.  It succeeds exactly when the managed range holds a run
  of \<open>n\<close> free frames, and then yields the lowest such run and marks these frames and no others;
  otherwise it reports \<open>kNoEnoughMemory\<close> with the null frame and changes nothing.
\<close>

theorem allocate_first_fit:
  assumes "manager_ok m" and "0 < n"
  shows "if \<exists>s. free_run m s n
    then \<exists>m'. allocate n m = Some ((LEAST s. free_run m s n, KSuccess), m')
      \<and> used_frames m' = used_frames m \<union> frame_run (LEAST s. free_run m s n) n
      \<and> range_begin m' = range_begin m \<and> range_end m' = range_end m
    else allocate n m = Some ((kNullFrame, KNoEnoughMemory), m)"
proof -
  consider s m' where "allocate n m = Some ((s, KSuccess), m')" "allocated_at n m (range_begin m) s m'"
    | "allocate n m = Some ((kNullFrame, KNoEnoughMemory), m)" "\<forall>s'. \<not> free_run m s' n"
    using allocate_spec [OF assms(1), of n] by blast
  then show ?thesis
  proof cases
    case 1
    then have run: "free_run m s n" "\<And>s'. free_run m s' n \<Longrightarrow> s \<le> s'"
      using assms(2) by (auto simp: allocated_at_def free_run_def)
    then have l: "(LEAST s. free_run m s n) = s" by (rule Least_equality)
    with 1 run(1) show ?thesis unfolding l by (auto simp: allocated_at_def)
  qed simp
qed

text \<open>
  Runs handed out one after another never overlap each other, the frames used before or the
  outside of the managed range, whatever sizes are asked for.
\<close>

theorem allocations_disjoint:
  assumes "manager_ok m" and "\<forall>n \<in> set ns. 0 < n"
  shows "\<exists>rs m'. alloc_many allocate ns m = Some (rs, m') \<and> disjoint_runs rs
    \<and> \<Union>(run_set ` set rs) \<subseteq> managed_frames m - used_frames m
    \<and> used_frames m' = used_frames m \<union> \<Union>(run_set ` set rs)"
  using fa.alloc_many_spec [OF assms] by blast

text \<open>C17: freeing the run an allocation returned restores the set of used frames.\<close>

theorem allocate_free_roundtrip:
  assumes "manager_ok m" and "0 < n" and "allocate n m = Some ((s, KSuccess), m1)"
  shows "\<exists>m2. free_frames s n m1 = Some (KSuccess, m2) \<and> used_frames m2 = used_frames m"
  using fa.alloc_release [OF assms] by blast

text \<open>A manager of the ten frames from 1 on, with frames 1 and 3 in use.\<close>

definition small_manager :: bitmap_manager where
  "small_manager = \<lparr>alloc_map = (\<lambda>_. 0)(0 := 0xA), range_begin = 1, range_end = 11\<rparr>"

lemma small_ok: "manager_ok small_manager"
  by (simp add: manager_ok_def small_manager_def kFrameCount_def)

lemma small_used: "used_frames small_manager = {1, 3}"
proof -
  have w: "(0xA :: u64) = push_bit 1 1 OR push_bit 3 1" by simp
  have "frame_used small_manager f \<longleftrightarrow> f = 1 \<or> f = 3" for f
  proof (cases "f div 64 = 0")
    case True
    then have f: "f mod 64 = f" "f < 64" by (simp_all add: div_eq_0_iff)
    have "bit (0xA :: u64) f \<longleftrightarrow> f = 1 \<or> f = 3"
      unfolding w by (simp only: bit_or_iff bit_push_bit_iff bit_1_iff) (use f(2) in auto)
    with True f(1) show ?thesis by (simp add: frame_used_def small_manager_def)
  next
    case False
    then have "f \<noteq> 1" "f \<noteq> 3" by auto
    with False show ?thesis by (simp add: frame_used_def small_manager_def)
  qed
  then show ?thesis by (simp add: used_frames_def set_eq_iff)
qed

lemma small_free: "free_run small_manager 4 2" "\<not> free_run small_manager 1 2" "\<not> free_run small_manager 2 2"
    "\<not> free_run small_manager 3 2"
  by (auto simp: free_run_def small_used frame_run_def) (simp_all add: small_manager_def)

theorem allocate_first_fit_witness:
  "\<exists>m'. allocate 2 small_manager = Some ((4, KSuccess), m')"
proof -
  have "4 \<le> s" if s: "free_run small_manager s 2" for s
  proof (rule ccontr)
    assume "\<not> 4 \<le> s"
    then have "s = 0 \<or> s = 1 \<or> s = 2 \<or> s = 3" by arith
    with s small_free show False by (auto simp: free_run_def small_manager_def)
  qed
  then have "(LEAST s. free_run small_manager s 2) = 4" by (intro Least_equality small_free)
  then show ?thesis using allocate_first_fit [OF small_ok, of 2] small_free(1) by (auto split: if_splits)
qed

theorem allocations_disjoint_witness:
  "\<exists>rs m'. alloc_many allocate [2, 1] small_manager = Some (rs, m') \<and> disjoint_runs rs"
  using allocations_disjoint [OF small_ok, of "[2, 1]"] by auto

theorem allocate_free_roundtrip_witness:
  "\<exists>s m1 m2. allocate 2 small_manager = Some ((s, KSuccess), m1) \<and> free_frames s 2 m1 = Some (KSuccess, m2)
    \<and> used_frames m2 = used_frames small_manager"
proof -
  from allocate_spec [OF small_ok, of 2] small_free(1) obtain s m1
    where a: "allocate 2 small_manager = Some ((s, KSuccess), m1)" by auto
  from allocate_free_roundtrip [OF small_ok _ a] a show ?thesis by auto
qed

end
