(* ===== verification/Memory_Init.thy ===== *)
theory Memory_Init
  imports Memory_Manager
begin

text \<open>
  Setting up physical memory: \<open>InitializeMemoryManager\<close> and \<open>InitializeHeap\<close> of
  \<open>Kernel/memory_manager.cpp\<close>, and \<open>sbrk\<close> of \<open>Kernel/newlib_support.c\<close>, which hands the heap to
  the C library.

  The boot loader's buffer is the list of the descriptors the loop visits, the ones at
  \<open>descriptor_size\<close> intervals below \<open>map_size\<close>.  \<open>exit(1)\<close> after a failed heap allocation is the
  error code in the result.
\<close>

record kernel_heap =
  program_break :: u64
  program_break_end :: u64

definition kHeapFrames :: nat where
  "kHeapFrames = 64 * 512"

definition initialize_heap ::
  "bitmap_manager \<Rightarrow> kernel_heap \<Rightarrow> (error_code \<times> bitmap_manager \<times> kernel_heap) option" where
  "initialize_heap m h = do {
     ((s, e), m1) \<leftarrow> allocate kHeapFrames m;
     (if is_error e then Some (e, m1, h)
      else (let b = of_nat s * kBytesPerFrame in
        Some (KSuccess, m1,
          \<lparr>program_break = b, program_break_end = b + of_nat kHeapFrames * kBytesPerFrame\<rparr>)))
   }"

definition descriptor_step ::
  "memory_descriptor \<Rightarrow> u64 \<Rightarrow> bitmap_manager \<Rightarrow> (u64 \<times> bitmap_manager) option" where
  "descriptor_step d available_end m = do {
     m1 \<leftarrow> (if available_end < md_physical_start d
           then mark_allocated (unat (available_end div kBytesPerFrame))
                  (unat ((md_physical_start d - available_end) div kBytesPerFrame)) m
           else Some m);
     (let physical_end = md_physical_start d + md_number_of_pages d * kUEFIPageSize in
      if is_available (md_type d) then Some (physical_end, m1)
      else do {
        m2 \<leftarrow> mark_allocated (unat (md_physical_start d div kBytesPerFrame))
               (unat (md_number_of_pages d * kUEFIPageSize div kBytesPerFrame)) m1;
        Some (available_end, m2)
      })
   }"

fun descriptor_loop ::
  "memory_descriptor list \<Rightarrow> u64 \<Rightarrow> bitmap_manager \<Rightarrow> (u64 \<times> bitmap_manager) option" where
  "descriptor_loop [] available_end m = Some (available_end, m)"
| "descriptor_loop (d # ds) available_end m = do {
     (available_end', m1) \<leftarrow> descriptor_step d available_end m;
     descriptor_loop ds available_end' m1
   }"

definition initialize_memory_manager ::
  "memory_descriptor list \<Rightarrow> kernel_heap \<Rightarrow> (error_code \<times> bitmap_manager \<times> kernel_heap) option" where
  "initialize_memory_manager descs h = do {
     (available_end, m) \<leftarrow> descriptor_loop descs 0 bitmap_manager_new;
     initialize_heap (set_memory_range 1 (unat (available_end div kBytesPerFrame)) m) h
   }"

text \<open>\<open>sbrk\<close>: the previous break, or \<open>-1\<close> with \<open>errno\<close> set to \<open>ENOMEM\<close>.\<close>

definition sbrk :: "int \<Rightarrow> kernel_heap \<Rightarrow> u64 \<times> kernel_heap" where
  "sbrk incr h =
    (if program_break h = 0 \<or> program_break_end h \<le> program_break h + of_int incr
     then (- 1, h)
     else (program_break h, h\<lparr>program_break := program_break h + of_int incr\<rparr>))"

section \<open>Well-formed memory maps\<close>

definition frame_first :: "memory_descriptor \<Rightarrow> nat" where
  "frame_first d = unat (md_physical_start d) div 4096"

definition frame_last :: "memory_descriptor \<Rightarrow> nat" where
  "frame_last d = frame_first d + unat (md_number_of_pages d)"

text \<open>Page-aligned, in ascending order without overlap, and within the 128 GiB of the bitmap.\<close>

definition map_ok :: "memory_descriptor list \<Rightarrow> bool" where
  "map_ok ds \<longleftrightarrow>
    (\<forall>d \<in> set ds. unat (md_physical_start d) mod 4096 = 0 \<and> frame_last d \<le> kFrameCount) \<and>
    sorted_wrt (\<lambda>d d'. frame_last d \<le> frame_first d') ds"

text \<open>The frames of the descriptors whose memory the kernel may use.\<close>

definition available_frames :: "memory_descriptor list \<Rightarrow> nat set" where
  "available_frames ds =
    (\<Union>d \<in> {d \<in> set ds. is_available (md_type d)}. {frame_first d..<frame_last d})"

definition map_top :: "memory_descriptor list \<Rightarrow> nat" where
  "map_top ds = (if ds = [] then 0 else frame_last (last ds))"

definition map_inv :: "memory_descriptor list \<Rightarrow> nat \<Rightarrow> bitmap_manager \<Rightarrow> bool" where
  "map_inv ds a m \<longleftrightarrow>
    used_frames m = {f. f < map_top ds} - available_frames ds \<and> a \<le> map_top ds
    \<and> available_frames ds \<subseteq> {..<a}"

lemma available_frames_snoc:
  "available_frames (ds @ [d]) =
    available_frames ds \<union> (if is_available (md_type d) then {frame_first d..<frame_last d} else {})"
  by (auto simp: available_frames_def)

lemma map_top_snoc [simp]: "map_top (ds @ [d]) = frame_last d"
  by (simp add: map_top_def)

lemma map_top_le: "map_ok (ds @ [d]) \<Longrightarrow> map_top ds \<le> frame_first d"
  by (auto simp: map_ok_def map_top_def sorted_wrt_append)

lemma map_ok_snocD: "map_ok (ds @ [d]) \<Longrightarrow> map_ok ds"
  by (auto simp: map_ok_def sorted_wrt_append)

text \<open>The word arithmetic of a descriptor, on frame numbers.\<close>

lemma descriptor_words:
  assumes al: "unat (md_physical_start d) mod 4096 = 0" and top: "frame_last d \<le> kFrameCount"
    and a: "unat a = 4096 * k"
  shows "unat (a div kBytesPerFrame) = k"
    and "unat (md_physical_start d div kBytesPerFrame) = frame_first d"
    and "unat (md_number_of_pages d * kUEFIPageSize div kBytesPerFrame) = unat (md_number_of_pages d)"
    and "unat (md_physical_start d + md_number_of_pages d * kUEFIPageSize) = 4096 * frame_last d"
    and "a < md_physical_start d \<longleftrightarrow> k < frame_first d"
    and "k \<le> frame_first d \<Longrightarrow> unat ((md_physical_start d - a) div kBytesPerFrame) = frame_first d - k"
proof -
  have s: "unat (md_physical_start d) = 4096 * frame_first d"
    using al by (auto simp: frame_first_def)
  have n: "unat (md_number_of_pages d * 4096) = unat (md_number_of_pages d) * 4096"
    using top by (simp add: unat_word_ariths frame_last_def kFrameCount_def)
  show "unat (a div kBytesPerFrame) = k" using a by (simp add: unat_div kBytesPerFrame_def)
  show "unat (md_physical_start d div kBytesPerFrame) = frame_first d"
    by (simp add: unat_div kBytesPerFrame_def frame_first_def)
  show "unat (md_number_of_pages d * kUEFIPageSize div kBytesPerFrame) = unat (md_number_of_pages d)"
    by (simp add: unat_div n kBytesPerFrame_def kUEFIPageSize_def)
  show "unat (md_physical_start d + md_number_of_pages d * kUEFIPageSize) = 4096 * frame_last d"
    unfolding kUEFIPageSize_def using top s
    by (subst unat_add_no_wrap) (simp_all add: n frame_last_def kFrameCount_def)
  show "a < md_physical_start d \<longleftrightarrow> k < frame_first d"
    by (simp add: word_less_nat_alt a s)
  show "unat ((md_physical_start d - a) div kBytesPerFrame) = frame_first d - k" if "k \<le> frame_first d"
    using that a s by (simp add: unat_div kBytesPerFrame_def unat_sub_no_wrap flip: diff_mult_distrib2)
qed

lemma mark_frames:
  assumes "s + n \<le> kFrameCount"
  shows "\<exists>m'. mark_allocated s n m = Some m' \<and> used_frames m' = used_frames m \<union> {s..<s + n}"
  using set_frames_Some [OF assms, of True m] by (auto simp: mark_allocated_def frame_run_def)

lemma descriptor_step_inv:
  assumes ok: "map_ok (ds @ [d])" and inv: "map_inv ds k m" and a: "unat a = 4096 * k"
  shows "\<exists>a' m' k'. descriptor_step d a m = Some (a', m') \<and> unat a' = 4096 * k' \<and> map_inv (ds @ [d]) k' m'"
proof -
  have al: "unat (md_physical_start d) mod 4096 = 0" and top: "frame_last d \<le> kFrameCount"
    using ok by (simp_all add: map_ok_def)
  have le: "map_top ds \<le> frame_first d" using ok by (rule map_top_le)
  with inv have k: "k \<le> frame_first d" by (simp add: map_inv_def)
  note w = descriptor_words [OF al top a]
  have fl: "frame_first d \<le> kFrameCount" using top by (simp add: frame_last_def)
  have "\<exists>m1. (if a < md_physical_start d
           then mark_allocated (unat (a div kBytesPerFrame))
                  (unat ((md_physical_start d - a) div kBytesPerFrame)) m
           else Some m) = Some m1 \<and> used_frames m1 = used_frames m \<union> {k..<frame_first d}"
    using mark_frames [of k "frame_first d - k" m] k fl by (auto simp: w)
  then obtain m1 where m1: "(if a < md_physical_start d
           then mark_allocated (unat (a div kBytesPerFrame))
                  (unat ((md_physical_start d - a) div kBytesPerFrame)) m
           else Some m) = Some m1" "used_frames m1 = used_frames m \<union> {k..<frame_first d}" by blast
  have u1: "used_frames m1 = {f. f < frame_first d} - available_frames ds"
    using m1(2) inv le k by (auto simp: map_inv_def)
  show ?thesis
  proof (cases "is_available (md_type d)")
    case True
    have "map_inv (ds @ [d]) (frame_last d) m1"
      using True u1 inv k by (auto simp: map_inv_def available_frames_snoc frame_last_def)
    with True m1(1) w(4) show ?thesis by (auto simp: descriptor_step_def Let_def)
  next
    case False
    from mark_frames [of "frame_first d" "unat (md_number_of_pages d)" m1] top obtain m2 where
      m2: "mark_allocated (frame_first d) (unat (md_number_of_pages d)) m1 = Some m2"
        "used_frames m2 = used_frames m1 \<union> {frame_first d..<frame_last d}"
      by (auto simp: frame_last_def)
    have "map_inv (ds @ [d]) k m2"
      using False u1 m2(2) inv k by (auto simp: map_inv_def available_frames_snoc frame_last_def)
    with False m1(1) m2(1) a show ?thesis by (auto simp: descriptor_step_def Let_def w)
  qed
qed

lemma descriptor_loop_inv:
  "map_ok (ds @ es) \<Longrightarrow> map_inv ds k m \<Longrightarrow> unat a = 4096 * k \<Longrightarrow>
    \<exists>a' m' k'. descriptor_loop es a m = Some (a', m') \<and> unat a' = 4096 * k' \<and> map_inv (ds @ es) k' m'"
proof (induction es arbitrary: ds k m a)
  case Nil
  then show ?case by auto
next
  case (Cons d es)
  have "map_ok (ds @ [d])" using Cons.prems(1) by (auto simp: map_ok_def sorted_wrt_append)
  from descriptor_step_inv [OF this Cons.prems(2,3)] obtain a1 m1 k1 where
    s: "descriptor_step d a m = Some (a1, m1)" "unat a1 = 4096 * k1" "map_inv (ds @ [d]) k1 m1" by auto
  from Cons.IH [of "ds @ [d]" k1 m1 a1] Cons.prems(1) s show ?case by auto
qed

lemma map_top_bound: "map_ok ds \<Longrightarrow> map_top ds \<le> kFrameCount"
  by (auto simp: map_ok_def map_top_def)

text \<open>The manager before the heap is taken: the free managed frames are the available ones but frame 0.\<close>

lemma memory_before_heap:
  assumes ok: "map_ok descs" and some: "available_frames descs \<noteq> {}"
  shows "\<exists>a m. descriptor_loop descs 0 bitmap_manager_new = Some (a, m)
    \<and> manager_ok (set_memory_range 1 (unat (a div kBytesPerFrame)) m)
    \<and> managed_frames (set_memory_range 1 (unat (a div kBytesPerFrame)) m)
        - used_frames (set_memory_range 1 (unat (a div kBytesPerFrame)) m) = available_frames descs - {0}"
proof -
  have "map_inv [] 0 bitmap_manager_new"
    by (simp add: map_inv_def used_frames_def frame_used_def bitmap_manager_new_def available_frames_def
        map_top_def)
  from descriptor_loop_inv [OF _ this, of descs 0] ok obtain a m k where
    l: "descriptor_loop descs 0 bitmap_manager_new = Some (a, m)" "unat a = 4096 * k" "map_inv descs k m"
    by auto
  have k: "unat (a div kBytesPerFrame) = k" using l(2) by (simp add: unat_div kBytesPerFrame_def)
  have used: "used_frames (set_memory_range 1 k m) = {f. f < map_top descs} - available_frames descs"
    using l(3) by (simp add: map_inv_def used_frames_def frame_used_def set_memory_range_def)
  have "0 < k" using l(3) some by (auto simp: map_inv_def)
  with l(3) map_top_bound [OF ok] have "manager_ok (set_memory_range 1 k m)"
    by (simp add: manager_ok_def set_memory_range_def map_inv_def)
  moreover have "managed_frames (set_memory_range 1 k m) - used_frames (set_memory_range 1 k m)
      = available_frames descs - {0}"
    unfolding used using l(3) by (auto simp: managed_frames_def set_memory_range_def map_inv_def)
  ultimately show ?thesis using l(1) k by auto
qed

lemma memory_manager_frames:
  assumes "map_ok descs" and "available_frames descs \<noteq> {}"
  shows "\<exists>e m h'. initialize_memory_manager descs h = Some (e, m, h') \<and> manager_ok m \<and>
    (if e = KSuccess
     then \<exists>s. frame_run s kHeapFrames \<subseteq> available_frames descs - {0}
       \<and> managed_frames m - used_frames m = available_frames descs - {0} - frame_run s kHeapFrames
       \<and> unat (program_break h') = 4096 * s \<and> unat (program_break_end h') = 4096 * (s + kHeapFrames)
     else e = KNoEnoughMemory \<and> h' = h \<and> managed_frames m - used_frames m = available_frames descs - {0})"
proof -
  from memory_before_heap [OF assms] obtain a m where
    l: "descriptor_loop descs 0 bitmap_manager_new = Some (a, m)" and
    ok': "manager_ok (set_memory_range 1 (unat (a div kBytesPerFrame)) m)" and
    free': "managed_frames (set_memory_range 1 (unat (a div kBytesPerFrame)) m)
      - used_frames (set_memory_range 1 (unat (a div kBytesPerFrame)) m) = available_frames descs - {0}" by auto
  let ?m = "set_memory_range 1 (unat (a div kBytesPerFrame)) m"
  have ok: "manager_ok ?m" and free: "managed_frames ?m - used_frames ?m = available_frames descs - {0}"
    using ok' free' by simp_all
  have n: "0 < kHeapFrames" by (simp add: kHeapFrames_def)
  from allocate_spec [OF ok, of kHeapFrames] show ?thesis
  proof (elim disjE exE conjE)
    fix s m' assume al: "allocate kHeapFrames ?m = Some ((s, KSuccess), m')"
    note f = fa.alloc_fresh [OF ok n al]
    have top: "s + kHeapFrames \<le> kFrameCount"
    proof -
      have "s + (kHeapFrames - 1) \<in> frame_run s kHeapFrames" using n by (simp add: frame_run_def)
      with f have "s + (kHeapFrames - 1) \<in> managed_frames ?m" by blast
      with ok n show ?thesis by (auto simp: managed_frames_def manager_ok_def)
    qed
    then have s: "unat (of_nat s * kBytesPerFrame) = 4096 * s"
      by (simp add: kBytesPerFrame_def unat_word_ariths take_bit_nat_eq_self kFrameCount_def unsigned_of_nat)
    have "unat (of_nat s * kBytesPerFrame + of_nat kHeapFrames * kBytesPerFrame) = 4096 * (s + kHeapFrames)"
    proof -
      have k: "unat (of_nat kHeapFrames * kBytesPerFrame) = 4096 * kHeapFrames"
        by (simp add: kHeapFrames_def kBytesPerFrame_def)
      have "4096 * s + 4096 * kHeapFrames < 2 ^ 64" using top by (simp add: kFrameCount_def)
      then show ?thesis
        using unat_add_no_wrap [of "of_nat s * kBytesPerFrame" "of_nat kHeapFrames * kBytesPerFrame"] s k
        by (simp only: s k distrib_left len_bit0 len_num1) simp
    qed
    with s f free l al show ?thesis
      by (auto simp: initialize_memory_manager_def initialize_heap_def Let_def
          intro!: exI [of _ s])
  next
    assume "allocate kHeapFrames ?m = Some ((kNullFrame, KNoEnoughMemory), ?m)"
    with l ok free show ?thesis
      by (simp add: initialize_memory_manager_def initialize_heap_def is_error_def)
  qed
qed

text \<open>
  C15: after \<open>InitializeMemoryManager\<close> over a well-formed memory map, the frames that can still be
  allocated are exactly those the map calls available, without frame 0 and without the heap; the
  heap, when it could be taken, is a run of 32768 available frames and its bounds are that run's
  addresses.  No frame of firmware, of the loaded kernel or of device memory is ever handed out.
\<close>

theorem memory_manager_hands_out_available:
  assumes "map_ok descs" and "available_frames descs \<noteq> {}"
  shows "\<exists>e m h'. initialize_memory_manager descs h = Some (e, m, h') \<and> manager_ok m \<and>
    (if e = KSuccess
     then \<exists>s. frame_run s kHeapFrames \<subseteq> available_frames descs - {0}
       \<and> managed_frames m - used_frames m = available_frames descs - {0} - frame_run s kHeapFrames
       \<and> unat (program_break h') = 4096 * s \<and> unat (program_break_end h') = 4096 * (s + kHeapFrames)
     else e = KNoEnoughMemory \<and> h' = h \<and> managed_frames m - used_frames m = available_frames descs - {0})"
  by (rule memory_manager_frames [OF assms])

text \<open>Conventional memory up to 640 KiB, reserved up to 1 MiB, conventional up to 256 MiB.\<close>

definition sample_map :: "memory_descriptor list" where
  "sample_map =
    [\<lparr>md_type = 7, md_physical_start = 0, md_virtual_start = 0, md_number_of_pages = 160, md_attribute = 0\<rparr>,
     \<lparr>md_type = 0, md_physical_start = 0xA0000, md_virtual_start = 0, md_number_of_pages = 96, md_attribute = 0\<rparr>,
     \<lparr>md_type = 7, md_physical_start = 0x100000, md_virtual_start = 0, md_number_of_pages = 65280, md_attribute = 0\<rparr>]"

theorem memory_manager_hands_out_available_witness:
  "\<exists>e m h'. initialize_memory_manager sample_map \<lparr>program_break = 0, program_break_end = 0\<rparr> = Some (e, m, h')
    \<and> 200 \<notin> managed_frames m - used_frames m"
proof -
  have ok: "map_ok sample_map"
    by (simp add: map_ok_def sample_map_def frame_first_def frame_last_def kFrameCount_def)
  have "{d \<in> set sample_map. is_available (md_type d)} = {sample_map ! 0, sample_map ! 2}"
    by (auto simp: sample_map_def is_available_def)
  then have av: "available_frames sample_map = {0..<160} \<union> {256..<65536}"
    by (simp add: available_frames_def) (simp add: sample_map_def frame_first_def frame_last_def)
  then have "available_frames sample_map \<noteq> {}" by simp
  from memory_manager_hands_out_available [OF ok this, of "\<lparr>program_break = 0, program_break_end = 0\<rparr>"]
  obtain e m h' where
    i: "initialize_memory_manager sample_map \<lparr>program_break = 0, program_break_end = 0\<rparr> = Some (e, m, h')"
    and c: "if e = KSuccess
      then \<exists>s. managed_frames m - used_frames m = available_frames sample_map - {0} - frame_run s kHeapFrames
      else managed_frames m - used_frames m = available_frames sample_map - {0}"
    by (metis (no_types, lifting))
  have f: "managed_frames m - used_frames m \<subseteq> available_frames sample_map"
    using c by (cases "e = KSuccess") auto
  from f av have "200 \<notin> managed_frames m - used_frames m" by auto
  with i show ?thesis by blast
qed

section \<open>The C library's heap\<close>

fun sbrk_many :: "int list \<Rightarrow> kernel_heap \<Rightarrow> (u64 \<times> nat) list \<times> kernel_heap" where
  "sbrk_many [] h = ([], h)"
| "sbrk_many (i # is) h =
    (let (r, h1) = sbrk i h; (bs, h2) = sbrk_many is h1
     in (if r = - 1 then bs else (r, nat i) # bs, h2))"

lemma sbrk_block:
  assumes h: "0 < unat (program_break h)" "unat (program_break h) < unat (program_break_end h)"
    "unat (program_break_end h) + 2 ^ 31 < 2 ^ 64" and i: "0 \<le> i" "i < 2 ^ 31"
  shows "sbrk i h = (if unat (program_break h) + nat i < unat (program_break_end h)
    then (program_break h, h\<lparr>program_break := program_break h + of_int i\<rparr>) else (- 1, h))"
    and "unat (program_break h + of_int i) = unat (program_break h) + nat i"
    and "program_break h \<noteq> - 1"
proof -
  have u: "unat (of_int i :: u64) = nat i"
    using i by (simp add: unat_eq_nat_uint uint_word_of_int)
  show s: "unat (program_break h + of_int i) = unat (program_break h) + nat i"
    using h i by (subst unat_add_no_wrap) (simp_all add: u)
  show "sbrk i h = (if unat (program_break h) + nat i < unat (program_break_end h)
    then (program_break h, h\<lparr>program_break := program_break h + of_int i\<rparr>) else (- 1, h))"
    using h(1) by (auto simp: sbrk_def word_le_nat_alt s)
  show "program_break h \<noteq> - 1"
  proof
    assume "program_break h = - 1"
    then have "unat (program_break h) = 2 ^ 64 - 1" by (simp add: unsigned_minus_1_eq_mask mask_eq_exp_minus_1)
    with h show False by simp
  qed
qed

text \<open>
  The blocks \<open>sbrk\<close> hands to the C library for increments that are not negative lie one after
  the other inside the heap, so no two overlap and none passes the heap's end.
\<close>

theorem sbrk_blocks_in_heap:
  assumes "0 < unat (program_break h)" and "unat (program_break h) < unat (program_break_end h)"
    and "unat (program_break_end h) + 2 ^ 31 < 2 ^ 64" and "\<forall>i \<in> set is. 0 \<le> i \<and> i < 2 ^ 31"
  shows "blocks_within (unat (program_break h)) (unat (program_break_end h)) (fst (sbrk_many is h))"
  using assms
proof (induction "is" arbitrary: h)
  case Nil
  then show ?case by simp
next
  case (Cons i "is")
  note b = sbrk_block [OF Cons.prems(1-3), of i]
  show ?case
  proof (cases "unat (program_break h) + nat i < unat (program_break_end h)")
    case True
    let ?h = "h\<lparr>program_break := program_break h + of_int i\<rparr>"
    have "blocks_within (unat (program_break ?h)) (unat (program_break_end ?h)) (fst (sbrk_many is ?h))"
      using Cons.prems True b by (intro Cons.IH) auto
    with True b Cons.prems show ?thesis by (simp add: case_prod_unfold Let_def)
  next
    case False
    with b Cons show ?thesis by (simp add: case_prod_unfold Let_def)
  qed
qed

theorem sbrk_blocks_in_heap_witness:
  "blocks_within 4096 8192 (fst (sbrk_many [100, 4000, 10] \<lparr>program_break = 4096, program_break_end = 8192\<rparr>))"
  using sbrk_blocks_in_heap [of "\<lparr>program_break = 4096, program_break_end = 8192\<rparr>" "[100, 4000, 10]"] by simp

end
