(* ===== verification/Timer_Mgr.thy ===== *)
theory Timer_Mgr
  imports Task_Properties "HOL-Library.Multiset"
begin

text \<open>
  Timers: \<open>Kernel/timer.hpp\<close>, \<open>Kernel/timer.cpp\<close>, and the interrupt entry points of
  \<open>Kernel/interrupt.cpp\<close> that reach the scheduler.

  \<open>timers_\<close> is a \<open>std::priority_queue\<close> ordered so that the top is a timer of least timeout.  It is
  modelled as a list in ascending order of timeouts; among equal timeouts the language leaves the
  order open, the list has the older timer first, and no theorem depends on it.  The locale
  \<open>timer_queue\<close> is the contract of the priority queue.
\<close>

record timer =
  tmr_timeout :: u64
  tmr_value :: int

record timer_manager =
  tick_count :: u64
  timers :: "timer list"

definition kTimerFreq :: nat where
  "kTimerFreq = 100"

text \<open>\<open>static_cast<int>(kTimerFreq * 0.02)\<close>.\<close>

definition kTaskTimerPeriod :: u64 where
  "kTaskTimerPeriod = 2"

text \<open>\<open>std::numeric_limits<int>::min()\<close>.\<close>

definition kTaskTimerValue :: int where
  "kTaskTimerValue = - (2 ^ 31)"

section \<open>The priority queue\<close>

fun tq_push :: "timer \<Rightarrow> timer list \<Rightarrow> timer list" where
  "tq_push t [] = [t]"
| "tq_push t (u # us) = (if tmr_timeout t < tmr_timeout u then t # u # us else u # tq_push t us)"

fun tq_top :: "timer list \<Rightarrow> timer option" where
  "tq_top [] = None"
| "tq_top (t # ts) = Some t"

fun tq_pop :: "timer list \<Rightarrow> timer list" where
  "tq_pop [] = []"
| "tq_pop (t # ts) = ts"

definition tq_ok :: "timer list \<Rightarrow> bool" where
  "tq_ok ts \<longleftrightarrow> sorted (map tmr_timeout ts)"

locale timer_queue =
  fixes push :: "timer \<Rightarrow> 'q \<Rightarrow> 'q"
    and top :: "'q \<Rightarrow> timer option"
    and pop :: "'q \<Rightarrow> 'q"
    and elems :: "'q \<Rightarrow> timer multiset"
    and valid :: "'q \<Rightarrow> bool"
  assumes push_elems: "valid q \<Longrightarrow> valid (push t q) \<and> elems (push t q) = add_mset t (elems q)"
    and top_None: "valid q \<Longrightarrow> top q = None \<longleftrightarrow> elems q = {#}"
    and top_elem: "valid q \<Longrightarrow> top q = Some t \<Longrightarrow> t \<in># elems q"
    and top_least: "valid q \<Longrightarrow> top q = Some t \<Longrightarrow> u \<in># elems q \<Longrightarrow> tmr_timeout t \<le> tmr_timeout u"
    and pop_elems: "valid q \<Longrightarrow> top q = Some t \<Longrightarrow> valid (pop q) \<and> elems q = add_mset t (elems (pop q))"
begin

text \<open>When the top has not expired, no timer has.\<close>

lemma none_expired:
  "valid q \<Longrightarrow> top q = Some t \<Longrightarrow> now < tmr_timeout t \<Longrightarrow> u \<in># elems q \<Longrightarrow> now < tmr_timeout u"
  using top_least by (blast intro: order_less_le_trans)

lemma elem_split:
  "valid q \<Longrightarrow> top q = Some t \<Longrightarrow> u \<in># elems q \<Longrightarrow> u = t \<or> u \<in># elems (pop q)"
  using pop_elems [of q t] by auto

end

lemma mset_tq_push: "mset (tq_push t ts) = add_mset t (mset ts)"
  by (induction ts) auto

lemma tq_ok_push: "tq_ok ts \<Longrightarrow> tq_ok (tq_push t ts)"
proof (induction ts)
  case (Cons u us)
  have "set (tq_push t us) = insert t (set us)"
    by (metis mset_tq_push set_mset_add_mset_insert set_mset_mset)
  with Cons show ?case by (auto simp: tq_ok_def)
qed (simp add: tq_ok_def)

interpretation tq: timer_queue tq_push tq_top tq_pop mset tq_ok
proof unfold_locales
  fix q t assume "tq_ok q" then show "tq_ok (tq_push t q) \<and> mset (tq_push t q) = add_mset t (mset q)"
    by (simp add: tq_ok_push mset_tq_push)
next
  fix q :: "timer list" show "tq_top q = None \<longleftrightarrow> mset q = {#}" by (cases q) auto
next
  fix q t assume "tq_top q = Some t" then show "t \<in># mset q" by (cases q) auto
next
  fix q t u assume "tq_ok q" "tq_top q = Some t" "u \<in># mset q"
  then show "tmr_timeout t \<le> tmr_timeout u" by (cases q) (auto simp: tq_ok_def)
next
  fix q t assume "tq_ok q" "tq_top q = Some t"
  then show "tq_ok (tq_pop q) \<and> mset q = add_mset t (mset (tq_pop q))" by (cases q) (auto simp: tq_ok_def)
qed

section \<open>The timer manager\<close>

text \<open>The constructor's sentinel never expires before the last tick.\<close>

definition sentinel :: timer where
  "sentinel = \<lparr>tmr_timeout = - 1, tmr_value = - 1\<rparr>"

definition timer_manager_new :: timer_manager where
  "timer_manager_new = \<lparr>tick_count = 0, timers = tq_push sentinel []\<rparr>"

definition add_timer :: "timer \<Rightarrow> timer_manager \<Rightarrow> timer_manager" where
  "add_timer t tmr = tmr\<lparr>timers := tq_push t (timers tmr)\<rparr>"

definition timer_message :: "timer \<Rightarrow> message" where
  "timer_message t = mk_message (TimerTimeout (tmr_timeout t) (tmr_value t))"

text \<open>
  The loop of \<open>Tick\<close>: whether a task timer fired, and the queue and the scheduler after it.
  \<open>task_manager\<close> is \<open>None\<close> while it is null; sending through it, and taking the top of an empty
  queue, are undefined.
\<close>

function tick_loop ::
  "u64 \<Rightarrow> timer list \<Rightarrow> task_manager option \<Rightarrow> (bool \<times> timer list \<times> task_manager option) option" where
  "tick_loop now q tm =
    (case tq_top q of
       None \<Rightarrow> None
     | Some t \<Rightarrow>
         if now < tmr_timeout t then Some (False, q, tm)
         else if tmr_value t = kTaskTimerValue
         then Some (True,
           tq_push \<lparr>tmr_timeout = now + kTaskTimerPeriod, tmr_value = kTaskTimerValue\<rparr> (tq_pop q), tm)
         else (case tm of
             None \<Rightarrow> None
           | Some km \<Rightarrow>
               (case send_message 1 (timer_message t) km of
                  None \<Rightarrow> None
                | Some (e, km') \<Rightarrow> tick_loop now (tq_pop q) (Some km'))))"
  by pat_completeness auto

termination
proof (relation "measure (\<lambda>(now, q, tm). length q)", goal_cases)
  case (2 now q tm t)
  then show ?case by (cases q) auto
qed simp

declare tick_loop.simps [simp del]

definition timer_tick ::
  "timer_manager \<Rightarrow> task_manager option \<Rightarrow> (bool \<times> timer_manager \<times> task_manager option) option" where
  "timer_tick tmr tm = do {
     (fired, q, tm') \<leftarrow> tick_loop (tick_count tmr + 1) (timers tmr) tm;
     Some (fired, tmr\<lparr>tick_count := tick_count tmr + 1, timers := q\<rparr>, tm')
   }"

text \<open>\<open>InitializeTask\<close>: a new scheduler, and the first task timer.\<close>

definition initialize_task :: "task_manager \<Rightarrow> timer_manager \<Rightarrow> timer_manager \<times> task_manager option" where
  "initialize_task new_tm tmr =
    (add_timer \<lparr>tmr_timeout = tick_count tmr + kTaskTimerPeriod, tmr_value = kTaskTimerValue\<rparr> tmr,
     Some new_tm)"

section \<open>Interrupts\<close>

datatype interrupt_vector = VecXHCI | VecLAPICTimer

fun vector_number :: "interrupt_vector \<Rightarrow> u8" where
  "vector_number VecXHCI = 0x40"
| "vector_number VecLAPICTimer = 0x41"

text \<open>What a handler does besides changing the kernel's state: writes to the local APIC.\<close>

datatype apic_event =
    WriteDivideConfig u32
  | WriteLvtTimer u32
  | WriteInitialCount u32
  | WriteEndOfInterrupt u32
  | WaitMilliseconds nat

definition notify_end_of_interrupt :: "apic_event list" where
  "notify_end_of_interrupt = [WriteEndOfInterrupt 0]"

definition kCountMax :: u32 where
  "kCountMax = 0xFFFFFFFF"

definition start_apic_timer :: "apic_event list" where
  "start_apic_timer = [WriteInitialCount kCountMax]"

definition stop_lapic_timer :: "apic_event list" where
  "stop_lapic_timer = [WriteInitialCount 0]"

text \<open>\<open>current_count\<close> is what the register holds when it is read.\<close>

definition lapic_timer_elapsed :: "u32 \<Rightarrow> u32" where
  "lapic_timer_elapsed current_count = kCountMax - current_count"

definition lvt_timer_periodic :: u32 where
  "lvt_timer_periodic = push_bit 16 2 OR ucast (vector_number VecLAPICTimer)"

text \<open>\<open>InitializeAPICTimer\<close>: the new timer manager, \<open>lapic_timer_freq\<close> and the writes in order.\<close>

definition initialize_apic_timer :: "u32 \<Rightarrow> timer_manager \<times> u64 \<times> apic_event list" where
  "initialize_apic_timer current_count =
    (let lapic_timer_freq = ucast (lapic_timer_elapsed current_count) :: u64 in
     (timer_manager_new, lapic_timer_freq,
      [WriteDivideConfig 11, WriteLvtTimer lvt_timer_periodic] @ start_apic_timer @
      [WaitMilliseconds 1000] @ stop_lapic_timer @
      [WriteDivideConfig 11, WriteLvtTimer lvt_timer_periodic,
       WriteInitialCount (ucast (lapic_timer_freq div of_nat kTimerFreq))]))"

definition lapic_timer_on_interrupt ::
  "task_context \<Rightarrow> timer_manager \<Rightarrow> task_manager option \<Rightarrow>
    (timer_manager \<times> task_manager option \<times> apic_event list) option" where
  "lapic_timer_on_interrupt ctx tmr tm = do {
     (fired, tmr', tm') \<leftarrow> timer_tick tmr tm;
     (case tm' of
        Some km \<Rightarrow>
          if fired then do {
            km' \<leftarrow> switch_task ctx km;
            Some (tmr', Some km', notify_end_of_interrupt)
          } else Some (tmr', tm', notify_end_of_interrupt)
      | None \<Rightarrow> Some (tmr', tm', notify_end_of_interrupt))
   }"

definition int_handler_xhci :: "task_manager \<Rightarrow> (task_manager \<times> apic_event list) option" where
  "int_handler_xhci km = do {
     (e, km') \<leftarrow> send_message 1 (mk_message InterruptXHCI) km;
     Some (km', notify_end_of_interrupt)
   }"

section \<open>What a tick does\<close>

definition tick_queue :: "u64 \<Rightarrow> timer list \<Rightarrow> bool \<Rightarrow> timer list \<Rightarrow> timer list \<Rightarrow> bool" where
  "tick_queue now q fired q' sent \<longleftrightarrow>
    (if fired
     then \<exists>x rest. tmr_value x = kTaskTimerValue \<and> tmr_timeout x \<le> now
       \<and> mset q = mset sent + {#x#} + rest \<and> (\<forall>y \<in># rest. tmr_timeout x \<le> tmr_timeout y)
       \<and> mset q' = add_mset \<lparr>tmr_timeout = now + kTaskTimerPeriod, tmr_value = kTaskTimerValue\<rparr> rest
     else mset q = mset sent + mset q' \<and> (\<forall>y \<in># mset q'. now < tmr_timeout y))"

definition tick_spec ::
  "u64 \<Rightarrow> timer list \<Rightarrow> task_manager \<Rightarrow> nat \<Rightarrow> bool \<Rightarrow> timer list \<Rightarrow> task_manager \<Rightarrow> timer list \<Rightarrow> bool" where
  "tick_spec now q km t fired q' km' sent \<longleftrightarrow>
    sched_inv km' \<and> find_task 1 km' = Some t \<and> tq_ok q' \<and>
    tk_messages (tasks km' ! t) = tk_messages (tasks km ! t) @ map timer_message sent \<and>
    (\<forall>u. u \<noteq> t \<longrightarrow> tasks km' ! u = tasks km ! u) \<and>
    sorted (map tmr_timeout sent) \<and>
    (\<forall>x \<in> set sent. tmr_timeout x \<le> now \<and> tmr_value x \<noteq> kTaskTimerValue) \<and>
    tick_queue now q fired q' sent"

lemma tick_queue_Cons: "tick_queue now ts fired q' sent \<Longrightarrow> tick_queue now (x # ts) fired q' (x # sent)"
  by (cases fired) (simp_all add: tick_queue_def)

lemma tick_queue_sent: "tick_queue now q fired q' sent \<Longrightarrow> set sent \<subseteq> set q"
  by (cases fired) (auto simp: tick_queue_def simp flip: set_mset_mset)

text \<open>What is still queued: everything but the delivered timers and the task timer that fired.\<close>

lemma tick_queue_kept:
  assumes "tick_queue now q fired q' sent" and "y \<in># mset q" and "y \<notin> set sent" and "tmr_value y \<noteq> kTaskTimerValue"
  shows "y \<in># mset q'"
proof (cases fired)
  case True
  with assms(1) obtain x rest where "tmr_value x = kTaskTimerValue" "mset q = mset sent + {#x#} + rest"
    "rest \<subseteq># mset q'" by (auto simp: tick_queue_def)
  with assms(2-4) show ?thesis by (auto dest: mset_subset_eqD)
qed (use assms in \<open>auto simp: tick_queue_def\<close>)

lemma tick_spec_Cons:
  assumes "tick_spec now ts km1 t fired q' km' sent" and "tmr_timeout x \<le> now" and "tmr_value x \<noteq> kTaskTimerValue"
    and "\<forall>y \<in> set ts. tmr_timeout x \<le> tmr_timeout y"
    and "tk_messages (tasks km1 ! t) = tk_messages (tasks km ! t) @ [timer_message x]"
    and "\<forall>u. u \<noteq> t \<longrightarrow> tasks km1 ! u = tasks km ! u"
  shows "tick_spec now (x # ts) km t fired q' km' (x # sent)"
proof -
  have q: "tick_queue now ts fired q' sent" using assms(1) by (simp add: tick_spec_def)
  have "\<forall>y \<in> set sent. tmr_timeout x \<le> tmr_timeout y" using tick_queue_sent [OF q] assms(4) by blast
  with assms tick_queue_Cons [OF q, of x] show ?thesis by (simp add: tick_spec_def)
qed

lemma tick_loop_spec:
  assumes "tq_ok q" and "\<exists>s \<in> set q. now < tmr_timeout s" and "sched_inv km" and "find_task 1 km = Some t"
  shows "\<exists>fired q' km' sent. tick_loop now q (Some km) = Some (fired, q', Some km') \<and>
    tick_spec now q km t fired q' km' sent"
  using assms
proof (induction q arbitrary: km)
  case Nil
  then show ?case by simp
next
  case (Cons x ts)
  have ok: "tq_ok ts" and le: "\<forall>y \<in> set ts. tmr_timeout x \<le> tmr_timeout y"
    using Cons.prems(1) by (auto simp: tq_ok_def)
  show ?case
  proof (cases "now < tmr_timeout x")
    case True
    then have "tick_spec now (x # ts) km t False (x # ts) km []"
      using Cons.prems le by (auto simp: tick_spec_def tick_queue_def)
    moreover have "tick_loop now (x # ts) (Some km) = Some (False, x # ts, Some km)"
      using True by (simp add: tick_loop.simps)
    ultimately show ?thesis by blast
  next
    case exp: False
    show ?thesis
    proof (cases "tmr_value x = kTaskTimerValue")
      case True
      let ?q = "tq_push \<lparr>tmr_timeout = now + kTaskTimerPeriod, tmr_value = kTaskTimerValue\<rparr> ts"
      have "tick_spec now (x # ts) km t True ?q km []"
        using True exp Cons.prems le ok by (auto simp: tick_spec_def tick_queue_def mset_tq_push tq_ok_push)
      moreover have "tick_loop now (x # ts) (Some km) = Some (True, ?q, Some km)"
        using True exp by (simp add: tick_loop.simps)
      ultimately show ?thesis by blast
    next
      case False
      from send_message_to [OF Cons.prems(3,4), of "timer_message x"] obtain km1 where
        s: "send_message 1 (timer_message x) km = Some (KSuccess, km1)" "sched_inv km1"
          "find_task 1 km1 = Some t"
          "tk_messages (tasks km1 ! t) = tk_messages (tasks km ! t) @ [timer_message x]"
          "\<forall>u. u \<noteq> t \<longrightarrow> tasks km1 ! u = tasks km ! u" by blast
      have "\<exists>s \<in> set ts. now < tmr_timeout s" using Cons.prems(2) exp by auto
      from Cons.IH [OF ok this s(2,3)] obtain fired q' km' sent where
        i: "tick_loop now ts (Some km1) = Some (fired, q', Some km')" "tick_spec now ts km1 t fired q' km' sent" by blast
      have "tick_spec now (x # ts) km t fired q' km' (x # sent)"
        using tick_spec_Cons [OF i(2) _ False le s(4,5)] exp by simp
      moreover have "tick_loop now (x # ts) (Some km) = Some (fired, q', Some km')"
        using False exp s(1) i(1) by (simp add: tick_loop.simps [of now "x # ts"])
      ultimately show ?thesis by blast
    qed
  qed
qed

text \<open>The state between ticks: the queue is in order and holds the sentinel, task 1 exists.\<close>

definition timers_ok :: "timer_manager \<Rightarrow> task_manager \<Rightarrow> bool" where
  "timers_ok tmr km \<longleftrightarrow> tq_ok (timers tmr) \<and> sentinel \<in># mset (timers tmr) \<and> sched_inv km
    \<and> find_task 1 km \<noteq> None"

lemma before_sentinel: "unat n + 1 < 2 ^ 64 - 1 \<Longrightarrow> n + 1 < tmr_timeout sentinel" for n :: u64
proof -
  assume "unat n + 1 < 2 ^ 64 - 1"
  then have "unat (n + 1) = unat n + 1" using unat_add_no_wrap [of n 1] by simp
  moreover have "unat (- 1 :: u64) = 2 ^ 64 - 1" by (simp add: unsigned_minus_1_eq_mask mask_eq_exp_minus_1)
  ultimately show ?thesis using \<open>unat n + 1 < 2 ^ 64 - 1\<close> by (simp add: sentinel_def word_less_nat_alt)
qed

lemma timer_tick_ok:
  assumes "timers_ok tmr km" and "unat (tick_count tmr) + 1 < 2 ^ 64 - 1" and "find_task 1 km = Some t"
  shows "\<exists>fired tmr' km' sent. timer_tick tmr (Some km) = Some (fired, tmr', Some km') \<and>
    tick_count tmr' = tick_count tmr + 1 \<and> timers_ok tmr' km' \<and>
    tick_spec (tick_count tmr + 1) (timers tmr) km t fired (timers tmr') km' sent"
proof -
  have ex: "\<exists>s \<in> set (timers tmr). tick_count tmr + 1 < tmr_timeout s"
    using assms(1) before_sentinel [OF assms(2)] by (auto simp: timers_ok_def)
  from tick_loop_spec [of "timers tmr" "tick_count tmr + 1" km t] ex assms obtain fired q' km' sent where
    l: "tick_loop (tick_count tmr + 1) (timers tmr) (Some km) = Some (fired, q', Some km')"
      "tick_spec (tick_count tmr + 1) (timers tmr) km t fired q' km' sent" by (auto simp: timers_ok_def)
  have "sentinel \<notin> set sent"
    using l(2) before_sentinel [OF assms(2)] by (auto simp: tick_spec_def)
  moreover have "tmr_value sentinel \<noteq> kTaskTimerValue" by (simp add: sentinel_def kTaskTimerValue_def)
  ultimately have "sentinel \<in># mset q'"
    using tick_queue_kept [of _ "timers tmr"] l(2) assms(1) by (auto simp: tick_spec_def timers_ok_def)
  then have "timers_ok (tmr\<lparr>tick_count := tick_count tmr + 1, timers := q'\<rparr>) km'"
    using l(2) by (simp add: timers_ok_def tick_spec_def)
  with l show ?thesis by (auto simp: timer_tick_def)
qed

text \<open>
  C18: \<open>Tick\<close> returns, and sends to task 1, in order of timeout, a message for expired timers and
  for nothing else.  When no task timer fires, these are all the expired timers, and the others stay
  queued.  When the task timer fires, the timers due before it have been delivered, the task timer is
  armed again for two ticks later, and the other timers stay queued, even ones that are due.
\<close>

theorem tick_delivers_expired:
  assumes "timers_ok tmr km" and "unat (tick_count tmr) + 1 < 2 ^ 64 - 1" and "find_task 1 km = Some t"
  shows "\<exists>fired tmr' km' sent. timer_tick tmr (Some km) = Some (fired, tmr', Some km') \<and>
    tick_count tmr' = tick_count tmr + 1 \<and> timers_ok tmr' km' \<and>
    tick_spec (tick_count tmr + 1) (timers tmr) km t fired (timers tmr') km' sent"
  by (rule timer_tick_ok [OF assms])

section \<open>The period of the task timer\<close>

definition task_timer_at :: "u64 \<Rightarrow> timer" where
  "task_timer_at d = \<lparr>tmr_timeout = d, tmr_value = kTaskTimerValue\<rparr>"

text \<open>The one task timer in the queue expires at \<open>d\<close>.\<close>

definition armed :: "u64 \<Rightarrow> timer list \<Rightarrow> bool" where
  "armed d q \<longleftrightarrow> filter_mset (\<lambda>x. tmr_value x = kTaskTimerValue) (mset q) = {#task_timer_at d#}"

lemma tick_armed:
  assumes "tick_queue now q fired q' sent" and "\<forall>x \<in> set sent. tmr_value x \<noteq> kTaskTimerValue" and "armed d q"
  shows "fired \<longleftrightarrow> d \<le> now" and "armed (if fired then now + kTaskTimerPeriod else d) q'"
proof -
  have s: "filter_mset (\<lambda>x. tmr_value x = kTaskTimerValue) (mset sent) = {#}"
    using assms(2) by (simp add: filter_mset_eq_conv)
  have "(fired \<longleftrightarrow> d \<le> now) \<and> armed (if fired then now + kTaskTimerPeriod else d) q'"
  proof (cases fired)
    case True
    with assms(1) obtain x rest where x: "tmr_value x = kTaskTimerValue" "tmr_timeout x \<le> now"
      "mset q = mset sent + {#x#} + rest" "mset q' = add_mset (task_timer_at (now + kTaskTimerPeriod)) rest"
      by (auto simp: tick_queue_def task_timer_at_def)
    from assms(3) x(1,3) s have "x = task_timer_at d" "filter_mset (\<lambda>x. tmr_value x = kTaskTimerValue) rest = {#}"
      by (auto simp: armed_def add_mset_eq_single)
    with True x show ?thesis by (simp add: armed_def task_timer_at_def)
  next
    case False
    with assms(1,3) s have q': "armed d q'" and l: "\<forall>y \<in># mset q'. now < tmr_timeout y"
      by (auto simp: tick_queue_def armed_def)
    from q' have "task_timer_at d \<in># mset q'" unfolding armed_def by (metis filter_mset_eq_conv multi_member_split
          mset_subset_eq_add_left mset_subset_eqD union_single_eq_member multiset_filter_subset)
    with l have "now < d" by (auto simp: task_timer_at_def)
    with False q' show ?thesis by simp
  qed
  then show "fired \<longleftrightarrow> d \<le> now" and "armed (if fired then now + kTaskTimerPeriod else d) q'" by auto
qed

text \<open>Ticks one after the other: the values \<open>Tick\<close> returns.\<close>

fun tick_many ::
  "nat \<Rightarrow> timer_manager \<Rightarrow> task_manager option \<Rightarrow> (bool list \<times> timer_manager \<times> task_manager option) option" where
  "tick_many 0 tmr tm = Some ([], tmr, tm)"
| "tick_many (Suc n) tmr tm = do {
     (fired, tmr1, tm1) \<leftarrow> timer_tick tmr tm;
     (fs, tmr2, tm2) \<leftarrow> tick_many n tmr1 tm1;
     Some (fired # fs, tmr2, tm2)
   }"

lemma timer_tick_armed:
  assumes ok: "timers_ok tmr km" and b: "unat (tick_count tmr) + 1 < 2 ^ 64 - 1" and d: "armed d (timers tmr)"
  shows "\<exists>tmr' km'. timer_tick tmr (Some km) = Some (d \<le> tick_count tmr + 1, tmr', Some km')
    \<and> timers_ok tmr' km' \<and> tick_count tmr' = tick_count tmr + 1
    \<and> armed (if d \<le> tick_count tmr + 1 then tick_count tmr + 3 else d) (timers tmr')"
proof -
  obtain t where t: "find_task 1 km = Some t" using ok by (auto simp: timers_ok_def)
  from timer_tick_ok [OF ok b t] obtain fired tmr' km' sent where
    l: "timer_tick tmr (Some km) = Some (fired, tmr', Some km')" "tick_count tmr' = tick_count tmr + 1"
      "timers_ok tmr' km'" "tick_spec (tick_count tmr + 1) (timers tmr) km t fired (timers tmr') km' sent"
    by blast
  then have q: "tick_queue (tick_count tmr + 1) (timers tmr) fired (timers tmr') sent"
    "\<forall>x \<in> set sent. tmr_value x \<noteq> kTaskTimerValue" by (auto simp: tick_spec_def)
  from l tick_armed [OF q d] show ?thesis by (auto simp: kTaskTimerPeriod_def add.assoc)
qed

lemma tick_many_period:
  "timers_ok tmr km \<Longrightarrow> armed (tick_count tmr + of_nat k) (timers tmr) \<Longrightarrow> k = 1 \<or> k = 2 \<Longrightarrow>
    unat (tick_count tmr) + n + 2 < 2 ^ 64 - 1 \<Longrightarrow>
    \<exists>tmr' km'. tick_many n tmr (Some km) = Some (map (\<lambda>i. even (i + k + 1)) [0..<n], tmr', Some km')"
proof (induction n arbitrary: tmr km k)
  case 0
  then show ?case by simp
next
  case (Suc n)
  let ?c = "tick_count tmr"
  have c: "unat (?c + 1) = unat ?c + 1" using unat_add_no_wrap [of ?c 1] Suc.prems(4) by simp
  have k: "unat (?c + of_nat k) = unat ?c + k"
    using unat_add_no_wrap [of ?c "of_nat k"] Suc.prems(3,4) by auto
  have fire: "?c + of_nat k \<le> ?c + 1 \<longleftrightarrow> k = 1"
    using Suc.prems(3) by (simp only: word_le_nat_alt c k) auto
  let ?k' = "if k = 1 then 2 else 1 :: nat"
  from timer_tick_armed [OF Suc.prems(1) _ Suc.prems(2)] Suc.prems(4) fire obtain tmr1 km1 where
    t: "timer_tick tmr (Some km) = Some (k = 1, tmr1, Some km1)" "timers_ok tmr1 km1"
      "tick_count tmr1 = ?c + 1" "armed (if k = 1 then ?c + 3 else ?c + of_nat k) (timers tmr1)" by auto
  have "armed (tick_count tmr1 + of_nat ?k') (timers tmr1)"
    using t(3,4) Suc.prems(3) by (auto simp: add.assoc)
  from Suc.IH [OF t(2) this] Suc.prems(3,4) t(3) c obtain tmr' km' where
    m: "tick_many n tmr1 (Some km1) = Some (map (\<lambda>i. even (i + ?k' + 1)) [0..<n], tmr', Some km')" by auto
  have "map (\<lambda>i. even (i + k + 1)) [0..<Suc n] = (k = 1) # map (\<lambda>i. even (i + ?k' + 1)) [0..<n]"
    using Suc.prems(3) by (auto simp: map_upt_Suc simp del: upt_Suc)
  with t(1) m show ?case by simp
qed

text \<open>
  C19: the scheduler's clock.  After \<open>InitializeTask\<close> the task timer fires at every second tick and
  at no other, whatever other timers are queued.
\<close>

theorem task_timer_every_second_tick:
  assumes "timers_ok tmr km" and "\<forall>x \<in> set (timers tmr). tmr_value x \<noteq> kTaskTimerValue"
    and "unat (tick_count tmr) + n + 2 < 2 ^ 64 - 1"
  shows "\<exists>fs tmr' km'. tick_many n (fst (initialize_task km tmr)) (snd (initialize_task km tmr))
      = Some (fs, tmr', Some km') \<and> length fs = n \<and> (\<forall>i < n. fs ! i \<longleftrightarrow> odd i)"
proof -
  let ?tmr = "fst (initialize_task km tmr)"
  have none: "filter_mset (\<lambda>x. tmr_value x = kTaskTimerValue) (mset (timers tmr)) = {#}"
    using assms(2) by (simp add: filter_mset_eq_conv)
  have "timers ?tmr = tq_push (task_timer_at (tick_count tmr + 2)) (timers tmr)"
    "tick_count ?tmr = tick_count tmr"
    by (simp_all add: initialize_task_def add_timer_def task_timer_at_def kTaskTimerPeriod_def)
  then have "armed (tick_count ?tmr + of_nat 2) (timers ?tmr)" "timers_ok ?tmr km"
    using none assms(1)
    by (simp_all add: armed_def mset_tq_push timers_ok_def tq_ok_push task_timer_at_def)
  from tick_many_period [OF this(2,1), of n] assms(3) \<open>tick_count ?tmr = tick_count tmr\<close> show ?thesis
    by (auto simp: initialize_task_def)
qed

section \<open>A concrete run\<close>

lemma boot_timers_ok: "timers_ok timer_manager_new boot_state"
proof -
  have "find_task 1 boot_state = Some 0" by (simp add: find_task_def boot_eq task_new_def upt_rec)
  with boot_safe show ?thesis by (simp add: timers_ok_def timer_manager_new_def tq_ok_def sched_safe_def)
qed

theorem tick_delivers_expired_witness:
  "\<exists>fired tmr' km'. timer_tick (add_timer \<lparr>tmr_timeout = 1, tmr_value = 5\<rparr> timer_manager_new) (Some boot_state)
    = Some (fired, tmr', Some km') \<and> timers_ok tmr' km'"
proof -
  let ?tmr = "add_timer \<lparr>tmr_timeout = 1, tmr_value = 5\<rparr> timer_manager_new"
  have ok: "timers_ok ?tmr boot_state"
    using boot_timers_ok by (simp add: timers_ok_def add_timer_def mset_tq_push tq_ok_push)
  have f: "find_task 1 boot_state = Some 0" by (simp add: find_task_def boot_eq task_new_def upt_rec)
  from tick_delivers_expired [OF ok _ f] show ?thesis
    by (auto simp: add_timer_def timer_manager_new_def)
qed

theorem task_timer_every_second_tick_witness:
  "\<exists>fs tmr' km'. tick_many 3 (fst (initialize_task boot_state timer_manager_new))
      (snd (initialize_task boot_state timer_manager_new)) = Some (fs, tmr', Some km') \<and> fs ! 1 \<and> \<not> fs ! 2"
  using task_timer_every_second_tick [OF boot_timers_ok, of 3]
  by (auto simp: timer_manager_new_def sentinel_def kTaskTimerValue_def)

end
