(* ===== verification/Paging.thy ===== *)
theory Paging
  imports Bit_Field Memory_Manager
begin

text \<open>
  Address translation: \<open>Kernel/paging.hpp\<close> and \<open>Kernel/paging.cpp\<close>.

  Linear addresses and page map entries are the 64-bit integers of their unions.  Page maps lie in
  physical memory, which the kernel reaches at the same addresses: \<open>pt_mem\<close> gives the 8-byte cell at
  an address that is a multiple of 8, \<open>pt_frames\<close> is the frame allocator.  \<open>None\<close> is an access
  outside the allocator's bitmap.
\<close>

section \<open>Linear addresses\<close>

definition la_part :: "nat \<Rightarrow> u64 \<Rightarrow> u64" where
  "la_part page_map_level a =
    (if page_map_level = 0 then bf_get 0 12 a
     else if page_map_level = 1 then bf_get 12 9 a
     else if page_map_level = 2 then bf_get 21 9 a
     else if page_map_level = 3 then bf_get 30 9 a
     else if page_map_level = 4 then bf_get 39 9 a
     else 0)"

definition la_set_part :: "nat \<Rightarrow> u64 \<Rightarrow> u64 \<Rightarrow> u64" where
  "la_set_part page_map_level v a =
    (if page_map_level = 0 then bf_set 0 12 v a
     else if page_map_level = 1 then bf_set 12 9 v a
     else if page_map_level = 2 then bf_set 21 9 v a
     else if page_map_level = 3 then bf_set 30 9 v a
     else if page_map_level = 4 then bf_set 39 9 v a
     else a)"

lemma la_part_set_same:
  "1 \<le> lv \<Longrightarrow> lv \<le> 4 \<Longrightarrow> la_part lv (la_set_part lv v a) = take_bit 9 v"
  by (auto simp: la_part_def la_set_part_def)

lemma la_part_set_other:
  "lv \<noteq> lv' \<Longrightarrow> la_part lv' (la_set_part lv v a) = la_part lv' a"
  by (auto simp: la_part_def la_set_part_def)

lemma la_part_less: "1 \<le> lv \<Longrightarrow> unat (la_part lv a) < 512"
  using unat_bf_get_less [of 12 9 a] unat_bf_get_less [of 21 9 a] unat_bf_get_less [of 30 9 a]
    unat_bf_get_less [of 39 9 a] by (auto simp: la_part_def)

section \<open>Page map entries\<close>

definition pme_present :: "u64 \<Rightarrow> bool" where
  "pme_present e \<longleftrightarrow> bf_get 0 1 e \<noteq> 0"

definition pme_pointer :: "u64 \<Rightarrow> u64" where
  "pme_pointer e = push_bit 12 (bf_get 12 40 e)"

definition pme_set_pointer :: "u64 \<Rightarrow> u64 \<Rightarrow> u64" where
  "pme_set_pointer p e = bf_set 12 40 (drop_bit 12 p) e"

definition pme_set_present :: "u64 \<Rightarrow> u64" where
  "pme_set_present e = bf_set 0 1 1 e"

definition pme_set_writable :: "u64 \<Rightarrow> u64" where
  "pme_set_writable e = bf_set 1 1 1 e"

definition pme_set_user :: "u64 \<Rightarrow> u64" where
  "pme_set_user e = bf_set 2 1 1 e"

record paging_state =
  pt_mem :: "u64 \<Rightarrow> u64"
  pt_frames :: bitmap_manager

definition entry_address :: "u64 \<Rightarrow> u64 \<Rightarrow> u64" where
  "entry_address table i = table + 8 * i"

definition update_entry :: "u64 \<Rightarrow> (u64 \<Rightarrow> u64) \<Rightarrow> paging_state \<Rightarrow> paging_state" where
  "update_entry a f st = st\<lparr>pt_mem := (pt_mem st)(a := f (pt_mem st a))\<rparr>"

section \<open>Building page maps\<close>

definition new_page_map :: "paging_state \<Rightarrow> (u64 with_error \<times> paging_state) option" where
  "new_page_map st = do {
     ((s, e), m) \<leftarrow> allocate 1 (pt_frames st);
     (if is_error e then Some ((0, e), st\<lparr>pt_frames := m\<rparr>)
      else (let t = frame_address s in
        Some ((t, KSuccess),
          st\<lparr>pt_frames := m, pt_mem := (\<lambda>a. if a - t < 4096 then 0 else pt_mem st a)\<rparr>)))
   }"

definition set_new_page_map_if_not_present ::
  "u64 \<Rightarrow> paging_state \<Rightarrow> (u64 with_error \<times> paging_state) option" where
  "set_new_page_map_if_not_present entry st =
    (if pme_present (pt_mem st entry) then Some ((pme_pointer (pt_mem st entry), KSuccess), st)
     else do {
       ((child_map, e), st1) \<leftarrow> new_page_map st;
       (if is_error e then Some ((0, e), st1)
        else Some ((child_map, KSuccess),
          update_entry entry pme_set_present (update_entry entry (pme_set_pointer child_map) st1)))
     })"

text \<open>The address at which the loop goes on: the next entry, with the lower levels at zero.\<close>

fun la_clear_below :: "nat \<Rightarrow> u64 \<Rightarrow> u64" where
  "la_clear_below 0 a = a"
| "la_clear_below (Suc 0) a = a"
| "la_clear_below (Suc lv) a = la_clear_below lv (la_set_part lv 0 a)"

definition la_next :: "nat \<Rightarrow> u64 \<Rightarrow> u64" where
  "la_next lv a = la_clear_below lv (la_set_part lv (la_part lv a + 1) a)"

lemma la_part_clear_below: "lv \<le> lv' \<Longrightarrow> la_part lv' (la_clear_below lv a) = la_part lv' a"
  by (induction lv a rule: la_clear_below.induct) (auto simp: la_part_set_other)

lemma la_part_next:
  assumes "1 \<le> lv" and "lv \<le> 4" and "la_part lv a \<noteq> 511"
  shows "unat (la_part lv (la_next lv a)) = unat (la_part lv a) + 1"
proof -
  have l: "unat (la_part lv a) < 512" using la_part_less [OF assms(1)] .
  moreover have "unat (la_part lv a) \<noteq> 511"
  proof
    assume "unat (la_part lv a) = 511"
    then have "unat (la_part lv a) = unat (511 :: u64)" by simp
    then have "la_part lv a = 511" by (rule unsigned_word_eqI)
    with assms(3) show False by simp
  qed
  ultimately have s: "unat (la_part lv a + 1) = unat (la_part lv a) + 1" "unat (la_part lv a) + 1 < 512"
    using unat_add_no_wrap [of "la_part lv a" 1] by auto
  then have "take_bit 9 (la_part lv a + 1) = la_part lv a + 1" by (intro take_bit_small) simp
  with s assms show ?thesis by (simp add: la_next_def la_part_clear_below la_part_set_same)
qed

text \<open>
  \<open>SetupPageMap\<close>, called for the levels 4 to 1.  The result is the number of pages left, the error
  and the new state.
\<close>

function setup_page_map ::
  "nat \<Rightarrow> u64 \<Rightarrow> u64 \<Rightarrow> nat \<Rightarrow> paging_state \<Rightarrow> (nat with_error \<times> paging_state) option" where
  "setup_page_map lv table a n st =
    (if n = 0 then Some ((0, KSuccess), st)
     else if lv = 0 \<or> 4 < lv then None
     else (let entry_index = la_part lv a; entry = entry_address table entry_index in
       case set_new_page_map_if_not_present entry st of
         None \<Rightarrow> None
       | Some ((child_table, e), st1) \<Rightarrow>
           if is_error e then Some ((n, e), st1)
           else (let st2 = update_entry entry pme_set_user (update_entry entry pme_set_writable st1) in
             case (if lv = 1 then Some ((n - 1, KSuccess), st2)
                   else setup_page_map (lv - 1) child_table a n st2) of
               None \<Rightarrow> None
             | Some ((r, e), st3) \<Rightarrow>
                 if is_error e then Some ((n, e), st3)
                 else if entry_index = 511 then Some ((r, KSuccess), st3)
                 else setup_page_map lv table (la_next lv a) r st3)))"
  by pat_completeness auto

termination
proof (relation "measures [\<lambda>(lv, table, a, n, st). lv, \<lambda>(lv, table, a, n, st). 512 - unat (la_part lv a)]",
    goal_cases)
  case (3 lv table a n st)
  then show ?case using la_part_next [of lv a] la_part_less [of lv a] by auto
qed auto

declare setup_page_map.simps [simp del]

definition setup_page_maps :: "u64 \<Rightarrow> u64 \<Rightarrow> nat \<Rightarrow> paging_state \<Rightarrow> (error_code \<times> paging_state) option" where
  "setup_page_maps cr a num_4kpages st = do {
     ((r, e), st') \<leftarrow> setup_page_map 4 cr a num_4kpages st;
     Some (e, st')
   }"

section \<open>Releasing page maps\<close>

text \<open>\<open>CleanPageMap\<close> from entry \<open>i\<close> on.\<close>

function clean_page_map :: "nat \<Rightarrow> u64 \<Rightarrow> nat \<Rightarrow> paging_state \<Rightarrow> (error_code \<times> paging_state) option" where
  "clean_page_map lv table i st =
    (if 512 \<le> i then Some (KSuccess, st)
     else (let ea = entry_address table (of_nat i); entry = pt_mem st ea in
       if \<not> pme_present entry then clean_page_map lv table (i + 1) st
       else
         case (if 1 < lv then clean_page_map (lv - 1) (pme_pointer entry) 0 st else Some (KSuccess, st)) of
           None \<Rightarrow> None
         | Some (e, st1) \<Rightarrow>
             if is_error e then Some (e, st1)
             else (case free_frames (unat (pme_pointer entry div kBytesPerFrame)) 1 (pt_frames st1) of
                 None \<Rightarrow> None
               | Some (e, m) \<Rightarrow>
                   if is_error e then Some (e, st1\<lparr>pt_frames := m\<rparr>)
                   else clean_page_map lv table (i + 1)
                          (st1\<lparr>pt_frames := m, pt_mem := (pt_mem st1)(ea := 0)\<rparr>))))"
  by pat_completeness auto

termination
  by (relation "measures [\<lambda>(lv, table, i, st). lv, \<lambda>(lv, table, i, st). 512 - i]") auto

declare clean_page_map.simps [simp del]

definition clean_page_maps :: "u64 \<Rightarrow> u64 \<Rightarrow> paging_state \<Rightarrow> (error_code \<times> paging_state) option" where
  "clean_page_maps cr a st =
    (let ea = entry_address cr (la_part 4 a); pdp_table = pme_pointer (pt_mem st ea);
         st1 = st\<lparr>pt_mem := (pt_mem st)(ea := 0)\<rparr>
     in do {
       (e, st2) \<leftarrow> clean_page_map 3 pdp_table 0 st1;
       (if is_error e then Some (e, st2)
        else do {
          (e, m) \<leftarrow> free_frames (unat (pdp_table div kBytesPerFrame)) 1 (pt_frames st2);
          Some (e, st2\<lparr>pt_frames := m\<rparr>)
        })
     })"

section \<open>How many pages are set up\<close>

text \<open>The number of an address's page within the region one table of the level covers.\<close>

fun la_index :: "nat \<Rightarrow> u64 \<Rightarrow> nat" where
  "la_index 0 a = 0"
| "la_index (Suc lv) a = unat (la_part (Suc lv) a) * 512 ^ lv + la_index lv a"

lemma la_index_less: "la_index lv a < 512 ^ lv"
proof (induction lv)
  case (Suc lv)
  have "unat (la_part (Suc lv) a) \<le> 511" using la_part_less [of "Suc lv" a] by simp
  then have "unat (la_part (Suc lv) a) * 512 ^ lv \<le> 511 * 512 ^ lv" by (rule mult_le_mono1)
  with Suc show ?case unfolding la_index.simps power_Suc by linarith
qed simp

lemma la_part_cleared: "1 \<le> lv' \<Longrightarrow> lv' < lv \<Longrightarrow> lv' \<le> 4 \<Longrightarrow> la_part lv' (la_clear_below lv a) = 0"
proof (induction lv a rule: la_clear_below.induct)
  case (3 lv a)
  show ?case
  proof (cases "lv' = Suc lv")
    case True
    with 3 show ?thesis by (simp add: la_part_clear_below la_part_set_same)
  qed (use 3 in simp)
qed auto

lemma la_index_next_low: "k < lv \<Longrightarrow> lv \<le> 4 \<Longrightarrow> la_index k (la_next lv a) = 0"
  by (induction k) (simp_all add: la_next_def la_part_cleared)

lemma la_index_next:
  assumes "Suc k \<le> 4" and "la_part (Suc k) a \<noteq> 511"
  shows "la_index (Suc k) (la_next (Suc k) a) = (unat (la_part (Suc k) a) + 1) * 512 ^ k"
  using assms la_part_next [of "Suc k" a] by (simp add: la_index_next_low)

lemma pages_arith:
  fixes p i K n :: nat
  assumes "p < 512" and "i < K"
  shows "n - (K - i) - (512 * K - (p + 1) * K) = n - (512 * K - (p * K + i))"
proof -
  obtain X where X: "p * K = X" by blast
  have "(p + 1) * K \<le> 512 * K" using assms(1) by (intro mult_le_mono1) simp
  then have "X + K \<le> 512 * K" "(p + 1) * K = X + K" using X by (simp_all add: add_mult_distrib)
  then show ?thesis unfolding X using assms(2) by linarith
qed

lemma unat_numeral_511: "unat (511 :: u64) = 511"
  by simp

text \<open>What a call that succeeds does with its first entry.\<close>

lemma setup_page_map_first:
  assumes run: "setup_page_map lv table a n st = Some ((r, KSuccess), st')" and n: "n \<noteq> 0" and lv: "1 \<le> lv" "lv \<le> 4"
  obtains c st1 r1 st3 where "set_new_page_map_if_not_present (entry_address table (la_part lv a)) st = Some ((c, KSuccess), st1)"
    and "(if lv = 1 then Some ((n - 1, KSuccess), update_entry (entry_address table (la_part lv a)) pme_set_user
          (update_entry (entry_address table (la_part lv a)) pme_set_writable st1))
        else setup_page_map (lv - 1) c a n (update_entry (entry_address table (la_part lv a)) pme_set_user
          (update_entry (entry_address table (la_part lv a)) pme_set_writable st1))) = Some ((r1, KSuccess), st3)"
    and "if la_part lv a = 511 then (r, st') = (r1, st3)
        else setup_page_map lv table (la_next lv a) r1 st3 = Some ((r, KSuccess), st')"
proof -
  have guard: "\<not> (lv = 0 \<or> 4 < lv)" using lv by simp
  obtain c st1 where s: "set_new_page_map_if_not_present (entry_address table (la_part lv a)) st = Some ((c, KSuccess), st1)"
    using run n guard by (subst (asm) setup_page_map.simps)
       (auto simp: Let_def is_error_def split: option.splits prod.splits if_splits)
  show ?thesis
    using run n guard s by (subst (asm) setup_page_map.simps)
       (auto simp: Let_def is_error_def split: option.splits prod.splits if_splits intro: that [OF s])
qed

lemma setup_page_map_remaining:
  "setup_page_map lv table a n st = Some ((r, KSuccess), st') \<Longrightarrow> 1 \<le> lv \<Longrightarrow> lv \<le> 4 \<Longrightarrow>
    r = n - (512 ^ lv - la_index lv a)"
proof (induction lv table a n st arbitrary: r st' rule: setup_page_map.induct)
  case (1 lv table a n st)
  obtain k where k: "lv = Suc k" using 1(4) by (cases lv) auto
  show ?case
  proof (cases "n = 0")
    case True
    with 1(3) show ?thesis by (simp add: setup_page_map.simps)
  next
    case False
    let ?ix = "la_part lv a" let ?en = "entry_address table ?ix"
    obtain c st1 r1 st3 where s: "set_new_page_map_if_not_present ?en st = Some ((c, KSuccess), st1)" and
      i: "(if lv = 1 then Some ((n - 1, KSuccess), update_entry ?en pme_set_user (update_entry ?en pme_set_writable st1))
        else setup_page_map (lv - 1) c a n (update_entry ?en pme_set_user (update_entry ?en pme_set_writable st1)))
        = Some ((r1, KSuccess), st3)" and
      o: "if ?ix = 511 then (r, st') = (r1, st3)
        else setup_page_map lv table (la_next lv a) r1 st3 = Some ((r, KSuccess), st')"
      by (rule setup_page_map_first [OF 1(3) False 1(4,5)])
    have guard: "\<not> (lv = 0 \<or> 4 < lv)" using 1(4,5) by simp
    have r1: "r1 = n - (512 ^ k - la_index k a)"
    proof (cases "lv = 1")
      case True
      with i k show ?thesis by simp
    next
      case l: False
      from 1(1) [OF False guard refl refl s refl refl _ refl l] i l k 1(5) show ?thesis
        by (auto simp: is_error_def)
    qed
    show ?thesis
    proof (cases "?ix = 511")
      case True
      then have "unat ?ix = 511" by simp
      with True o r1 k la_index_less [of k a] show ?thesis by simp
    next
      case ni: False
      have "unat ?ix \<noteq> 511"
        using ni by (metis unat_numeral_511 unsigned_word_eqI)
      moreover have "unat ?ix < 512" using la_part_less [OF 1(4)] .
      moreover have "r = r1 - (512 ^ lv - la_index lv (la_next lv a))"
        using o ni 1(2) [OF False guard refl refl s refl refl _ refl i refl refl _ ni _ 1(4,5)]
        by (auto simp: is_error_def)
      ultimately show ?thesis
        using pages_arith [of "unat ?ix" "la_index k a" "512 ^ k" n] la_index_less [of k a]
          la_index_next [of k a] ni r1 k 1(5) by simp
    qed
  qed
qed

section \<open>Setting up always returns\<close>

text \<open>What the page map functions do to the frame allocator: they only take frames.\<close>

definition takes_frames :: "paging_state \<Rightarrow> error_code \<Rightarrow> paging_state \<Rightarrow> bool" where
  "takes_frames st e st' \<longleftrightarrow>
    manager_ok (pt_frames st') \<and> managed_frames (pt_frames st') = managed_frames (pt_frames st)
    \<and> used_frames (pt_frames st) \<subseteq> used_frames (pt_frames st')
    \<and> used_frames (pt_frames st') \<subseteq> used_frames (pt_frames st) \<union> managed_frames (pt_frames st)
    \<and> (e = KSuccess \<or> e = KNoEnoughMemory)"

lemma takes_frames_refl: "manager_ok (pt_frames st) \<Longrightarrow> takes_frames st KSuccess st"
  by (simp add: takes_frames_def)

lemma takes_frames_trans:
  "takes_frames st e st1 \<Longrightarrow> takes_frames st1 e' st2 \<Longrightarrow> takes_frames st e' st2"
  by (auto simp: takes_frames_def)

lemma update_entry_frames [simp, frame_simps]: "pt_frames (update_entry a f st) = pt_frames st"
  by (simp add: update_entry_def)

lemma takes_frames_update [simp]:
  "takes_frames (update_entry a f st) e st' = takes_frames st e st'"
  "takes_frames st e (update_entry a f st') = takes_frames st e st'"
  by (simp_all add: takes_frames_def)

lemma new_page_map_total:
  assumes "manager_ok (pt_frames st)"
  shows "\<exists>t e st'. new_page_map st = Some ((t, e), st') \<and> takes_frames st e st'"
proof -
  obtain s e m where a: "allocate 1 (pt_frames st) = Some ((s, e), m)"
    using fa.alloc_total [OF assms, of 1] by auto
  show ?thesis
  proof (cases "e = KSuccess")
    case True
    with fa.alloc_fresh [OF assms, of 1 s m] a show ?thesis
      by (auto simp: new_page_map_def takes_frames_def Let_def)
  next
    case False
    with allocate_spec [OF assms, of 1] a assms show ?thesis
      by (auto simp: new_page_map_def takes_frames_def is_error_def)
  qed
qed

lemma set_new_page_map_total:
  assumes "manager_ok (pt_frames st)"
  shows "\<exists>t e st'. set_new_page_map_if_not_present a st = Some ((t, e), st') \<and> takes_frames st e st'"
proof (cases "pme_present (pt_mem st a)")
  case True
  with assms show ?thesis by (simp add: set_new_page_map_if_not_present_def takes_frames_refl)
next
  case False
  from new_page_map_total [OF assms] obtain t e st' where
    "new_page_map st = Some ((t, e), st')" "takes_frames st e st'" by blast
  with False show ?thesis by (cases "is_error e") (auto simp: set_new_page_map_if_not_present_def is_error_def)
qed

lemma setup_page_map_total:
  "manager_ok (pt_frames st) \<Longrightarrow> 1 \<le> lv \<Longrightarrow> lv \<le> 4 \<Longrightarrow>
    \<exists>r e st'. setup_page_map lv table a n st = Some ((r, e), st') \<and> takes_frames st e st'"
proof (induction lv table a n st rule: setup_page_map.induct)
  case (1 lv table a n st)
  show ?case
  proof (cases "n = 0")
    case True
    with 1(3) show ?thesis by (simp add: setup_page_map.simps takes_frames_refl)
  next
    case False
    let ?ix = "la_part lv a" let ?en = "entry_address table ?ix"
    have guard: "\<not> (lv = 0 \<or> 4 < lv)" using 1(4,5) by simp
    obtain c e st1 where s: "set_new_page_map_if_not_present ?en st = Some ((c, e), st1)" "takes_frames st e st1"
      using set_new_page_map_total [OF 1(3)] by blast
    let ?st2 = "update_entry ?en pme_set_user (update_entry ?en pme_set_writable st1)"
    show ?thesis
    proof (cases "is_error e")
      case True
      with s False guard show ?thesis by (subst setup_page_map.simps) (auto simp: Let_def)
    next
      case ne: False
      have ok2: "manager_ok (pt_frames ?st2)" using s(2) by (simp add: takes_frames_def)
      have "\<exists>r1 e1 st3. (if lv = 1 then Some ((n - 1, KSuccess), ?st2)
          else setup_page_map (lv - 1) c a n ?st2) = Some ((r1, e1), st3) \<and> takes_frames ?st2 e1 st3"
      proof (cases "lv = 1")
        case True
        with ok2 show ?thesis by (simp add: takes_frames_refl del: takes_frames_update)
      next
        case l: False
        then have "1 \<le> lv - 1" "lv - 1 \<le> 4" using guard by auto
        with 1(1) [OF False guard refl refl s(1) refl refl ne refl l ok2] l show ?thesis by auto
      qed
      then obtain r1 e1 st3 where i: "(if lv = 1 then Some ((n - 1, KSuccess), ?st2)
          else setup_page_map (lv - 1) c a n ?st2) = Some ((r1, e1), st3)" "takes_frames ?st2 e1 st3" by blast
      have t3: "takes_frames st e1 st3" using takes_frames_trans [OF s(2)] i(2) by simp
      have eq: "setup_page_map lv table a n st =
        (if is_error e1 then Some ((n, e1), st3) else if ?ix = 511 then Some ((r1, KSuccess), st3)
         else setup_page_map lv table (la_next lv a) r1 st3)"
        using False guard s(1) ne i(1) by (subst setup_page_map.simps) (simp add: Let_def)
      show ?thesis
      proof (cases "is_error e1 \<or> ?ix = 511")
        case True
        with eq t3 show ?thesis by (auto simp: takes_frames_def is_error_def)
      next
        case c: False
        have "manager_ok (pt_frames st3)" using t3 by (simp add: takes_frames_def)
        with 1(2) [OF False guard refl refl s(1) refl refl ne refl i(1) refl refl _ _ _ 1(4,5)] c
        obtain r e st' where "setup_page_map lv table (la_next lv a) r1 st3 = Some ((r, e), st')"
          "takes_frames st3 e st'" by blast
        with eq c takes_frames_trans [OF t3] show ?thesis by auto
      qed
    qed
  qed
qed

section \<open>Properties\<close>

text \<open>
  \<open>SetupPageMaps\<close> always returns and never leaves the frame bitmap; it only takes frames of the
  managed range, never gives one back, and the one error it reports is \<open>kNoEnoughMemory\<close>.
\<close>

theorem setup_page_maps_takes_frames:
  assumes "manager_ok (pt_frames st)"
  shows "\<exists>e st'. setup_page_maps cr a n st = Some (e, st') \<and> manager_ok (pt_frames st')
    \<and> used_frames (pt_frames st) \<subseteq> used_frames (pt_frames st')
    \<and> used_frames (pt_frames st') \<subseteq> used_frames (pt_frames st) \<union> managed_frames (pt_frames st)
    \<and> (e = KSuccess \<or> e = KNoEnoughMemory)"
  using setup_page_map_total [OF assms, of 4 cr a n]
  by (auto simp: setup_page_maps_def takes_frames_def)

theorem setup_page_maps_takes_frames_witness:
  "\<exists>e st'. setup_page_maps 0 0xFFFF800000000000 3
    \<lparr>pt_mem = (\<lambda>_. 0), pt_frames = small_manager\<rparr> = Some (e, st')"
  using setup_page_maps_takes_frames [of "\<lparr>pt_mem = (\<lambda>_. 0), pt_frames = small_manager\<rparr>"] small_ok
  by fastforce

text \<open>
  C20: how many pages a successful \<open>SetupPageMap\<close> of the top level leaves undone: none while the
  region fits below the end of the address space, else every page past that end.  \<open>SetupPageMaps\<close> drops
  the count, so it reports success for a region it set up only in part.
\<close>

theorem setup_page_maps_truncates:
  assumes "setup_page_maps cr a n st = Some (KSuccess, st')"
  shows "\<exists>r. setup_page_map 4 cr a n st = Some ((r, KSuccess), st') \<and> r = n - (512 ^ 4 - la_index 4 a)
    \<and> (r = 0 \<longleftrightarrow> la_index 4 a + n \<le> 512 ^ 4)"
proof -
  from assms obtain r where r: "setup_page_map 4 cr a n st = Some ((r, KSuccess), st')"
    by (auto simp: setup_page_maps_def bind_eq_Some_conv)
  define N :: nat where "N = 512 ^ 4"
  have "r = n - (N - la_index 4 a)" by (rule setup_page_map_remaining [OF r, folded N_def]) simp_all
  moreover have "la_index 4 a < N" by (rule la_index_less [of 4 a, folded N_def])
  moreover have "n - (N - i) = 0 \<longleftrightarrow> i + n \<le> N" if "i < N" for i using that by arith
  ultimately show ?thesis using r unfolding N_def by metis
qed

text \<open>
  Two pages from the last page of the address space on, where every table is present: one page is
  left undone, and the call succeeds.
\<close>

theorem setup_page_maps_truncates_witness:
  "\<exists>st'. setup_page_maps 0 0xFFFFFFFFF000 2 \<lparr>pt_mem = (\<lambda>_. 7), pt_frames = small_manager\<rparr>
      = Some (KSuccess, st')
    \<and> setup_page_map 4 0 0xFFFFFFFFF000 2 \<lparr>pt_mem = (\<lambda>_. 7), pt_frames = small_manager\<rparr>
      = Some ((1, KSuccess), st')"
proof -
  let ?st = "\<lparr>pt_mem = (\<lambda>_. 7), pt_frames = small_manager\<rparr> :: paging_state"
  have u: "update_entry a pme_set_user ?st = ?st" "update_entry a pme_set_writable ?st = ?st" for a
    by (simp_all add: update_entry_def pme_set_user_def pme_set_writable_def bf_set_def fun_eq_iff)
  have n: "set_new_page_map_if_not_present a ?st = Some ((0, KSuccess), ?st)" for a
    by (simp add: set_new_page_map_if_not_present_def pme_present_def pme_pointer_def bf_get_def
        take_bit_eq_mod drop_bit_eq_div)
  have p: "la_part lv 0xFFFFFFFFF000 = 511" if "lv \<in> {1, 2, 3, 4}" for lv
    using that by (auto simp: la_part_def bf_get_def take_bit_eq_mod drop_bit_eq_div)
  have 1: "setup_page_map 1 t 0xFFFFFFFFF000 2 ?st = Some ((1, KSuccess), ?st)" for t
    by (subst setup_page_map.simps) (simp add: Let_def n u p)
  have 2: "setup_page_map 2 t 0xFFFFFFFFF000 2 ?st = Some ((1, KSuccess), ?st)" for t
    by (subst setup_page_map.simps) (simp add: Let_def n u p 1 [unfolded One_nat_def])
  have 3: "setup_page_map 3 t 0xFFFFFFFFF000 2 ?st = Some ((1, KSuccess), ?st)" for t
    by (subst setup_page_map.simps) (simp add: Let_def n u p 2)
  have 4: "setup_page_map 4 t 0xFFFFFFFFF000 2 ?st = Some ((1, KSuccess), ?st)" for t
    by (subst setup_page_map.simps) (simp add: Let_def n u p 3)
  from 4 have "setup_page_maps 0 0xFFFFFFFFF000 2 ?st = Some (KSuccess, ?st)" by (simp add: setup_page_maps_def)
  moreover from setup_page_maps_truncates [OF this] obtain r where
    r: "setup_page_map 4 0 0xFFFFFFFFF000 2 ?st = Some ((r, KSuccess), ?st)" by blast
  ultimately show ?thesis using 4 by blast
qed

end
