(* ===== verification/Elf_Loader.thy ===== *)
theory Elf_Loader
  imports Paging
begin

text \<open>
  Loading an executable: \<open>Kernel/elf.hpp\<close> and \<open>Kernel/elf.cpp\<close>.

  The file in memory is its header, its program headers (the \<open>e_phnum\<close> structures at \<open>e_phoff\<close>,
  \<open>e_phentsize\<close> bytes apart) and its bytes.  \<open>ld_vmem\<close> is memory as the running address space shows
  it, \<open>ld_pages\<close> the page maps.  \<open>None\<close> is a read outside the file, or a segment whose file size
  exceeds its memory size: the length of the zeroed rest then wraps to almost the whole address
  space.  The walk over the new page maps in \<open>CopyLoadSegments\<close> only computes an unused pointer.
\<close>

record elf_ehdr =
  e_ident :: "u8 list"
  e_type :: u16
  e_machine :: u16
  e_version :: u32
  e_entry :: u64
  e_phoff :: u64
  e_shoff :: u64
  e_flags :: u32
  e_ehsize :: u16
  e_phentsize :: u16
  e_phnum :: u16
  e_shentsize :: u16
  e_shnum :: u16
  e_shstrndx :: u16

record elf_phdr =
  p_type :: u32
  p_flags :: u32
  p_offset :: u64
  p_vaddr :: u64
  p_paddr :: u64
  p_filesz :: u64
  p_memsz :: u64
  p_align :: u64

definition ET_EXEC :: u16 where
  "ET_EXEC = 2"

definition PT_LOAD :: u32 where
  "PT_LOAD = 1"

record elf_file =
  el_ehdr :: elf_ehdr
  el_phdrs :: "elf_phdr list"
  el_bytes :: "u8 list"

record loader_state =
  ld_pages :: paging_state
  ld_vmem :: "u64 \<Rightarrow> u8"

text \<open>\<open>memcpy\<close> and \<open>memset\<close> of \<open>n\<close> bytes to \<open>dst\<close>.\<close>

definition vm_copy :: "u64 \<Rightarrow> u8 list \<Rightarrow> (u64 \<Rightarrow> u8) \<Rightarrow> u64 \<Rightarrow> u8" where
  "vm_copy dst bs m = (\<lambda>a. if unat (a - dst) < length bs then bs ! unat (a - dst) else m a)"

definition vm_zero :: "u64 \<Rightarrow> nat \<Rightarrow> (u64 \<Rightarrow> u8) \<Rightarrow> u64 \<Rightarrow> u8" where
  "vm_zero dst n m = (\<lambda>a. if unat (a - dst) < n then 0 else m a)"

definition segment_pages :: "elf_phdr \<Rightarrow> u64" where
  "segment_pages p = ((p_vaddr p AND 0xFFF) + p_memsz p + 4095) div 4096"

definition copy_segment :: "u64 \<Rightarrow> u8 list \<Rightarrow> elf_phdr \<Rightarrow> loader_state \<Rightarrow> (error_code \<times> loader_state) option" where
  "copy_segment cr bytes p st = do {
     (e, pg) \<leftarrow> setup_page_maps cr (p_vaddr p) (unat (segment_pages p)) (ld_pages st);
     (if is_error e then Some (e, st\<lparr>ld_pages := pg\<rparr>)
      else if length bytes < unat (p_offset p) + unat (p_filesz p) \<or> p_memsz p < p_filesz p then None
      else (let src = take (unat (p_filesz p)) (drop (unat (p_offset p)) bytes);
                m1 = vm_copy (p_vaddr p) src (ld_vmem st);
                m2 = vm_zero (p_vaddr p + p_filesz p) (unat (p_memsz p - p_filesz p)) m1
            in Some (KSuccess, st\<lparr>ld_pages := pg, ld_vmem := m2\<rparr>)))
   }"

fun copy_load_segments ::
  "u64 \<Rightarrow> u8 list \<Rightarrow> elf_phdr list \<Rightarrow> loader_state \<Rightarrow> (error_code \<times> loader_state) option" where
  "copy_load_segments cr bytes [] st = Some (KSuccess, st)"
| "copy_load_segments cr bytes (p # ps) st =
    (if p_type p \<noteq> PT_LOAD then copy_load_segments cr bytes ps st
     else do {
       (e, st1) \<leftarrow> copy_segment cr bytes p st;
       (if is_error e then Some (e, st1) else copy_load_segments cr bytes ps st1)
     })"

fun get_first_load_address :: "elf_phdr list \<Rightarrow> u64" where
  "get_first_load_address [] = 0"
| "get_first_load_address (p # ps) =
    (if p_type p \<noteq> PT_LOAD then get_first_load_address ps else p_vaddr p)"

definition load_elf :: "u64 \<Rightarrow> elf_file \<Rightarrow> loader_state \<Rightarrow> (error_code \<times> loader_state) option" where
  "load_elf cr f st =
    (if e_type (el_ehdr f) \<noteq> ET_EXEC then Some (KInvalidFormat, st)
     else if get_first_load_address (el_phdrs f) < 0xFFFF800000000000 then Some (KInvalidFormat, st)
     else do {
       (e, st1) \<leftarrow> copy_load_segments cr (el_bytes f) (el_phdrs f) st;
       (if is_error e then Some (e, st1) else Some (KSuccess, st1))
     })"

section \<open>What a loaded segment looks like\<close>

text \<open>The addresses of a segment, and its byte at offset \<open>j\<close>.\<close>

definition segment_range :: "elf_phdr \<Rightarrow> u64 set" where
  "segment_range p = {a. unat (a - p_vaddr p) < unat (p_memsz p)}"

definition segment_byte :: "u8 list \<Rightarrow> elf_phdr \<Rightarrow> nat \<Rightarrow> u8" where
  "segment_byte bytes p j = (if j < unat (p_filesz p) then bytes ! (unat (p_offset p) + j) else 0)"

definition load_segments :: "elf_phdr list \<Rightarrow> elf_phdr list" where
  "load_segments ps = filter (\<lambda>p. p_type p = PT_LOAD) ps"

text \<open>Copying \<open>f\<close> bytes and zeroing the rest of \<open>n\<close> bytes.\<close>

lemma vm_segment:
  assumes le: "f \<le> n" and l: "length src = unat f"
  shows "vm_zero (v + f) (unat (n - f)) (vm_copy v src mem) a =
    (if unat (a - v) < unat n then (if unat (a - v) < unat f then src ! unat (a - v) else 0) else mem a)"
proof -
  let ?j = "unat (a - v)"
  have le': "unat f \<le> unat n" using le by (simp add: word_le_nat_alt)
  have d: "unat (n - f) = unat n - unat f" by (rule unat_sub_no_wrap [OF le'])
  have e: "a - (v + f) = (a - v) - f" by simp
  have "unat (a - (v + f)) < unat n - unat f \<longleftrightarrow> unat f \<le> ?j \<and> ?j < unat n"
  proof (cases "unat f \<le> ?j")
    case True
    then show ?thesis unfolding e using le' by (simp add: unat_sub_no_wrap less_diff_iff)
  next
    case False
    have "unat ((a - v) - f) = 2 ^ 64 + ?j - unat f" using False by (simp add: unat_sub_if' word_le_nat_alt)
    moreover have "unat n < 2 ^ 64" using unsigned_less [of n] by simp
    ultimately show ?thesis unfolding e using False by simp
  qed
  then show ?thesis unfolding vm_zero_def vm_copy_def d l using le' by auto
qed

lemma copy_segment_bytes:
  assumes "copy_segment cr bytes p st = Some (KSuccess, st')"
  shows "ld_vmem st' a = (if a \<in> segment_range p then segment_byte bytes p (unat (a - p_vaddr p)) else ld_vmem st a)"
proof -
  from assms obtain pg where "setup_page_maps cr (p_vaddr p) (unat (segment_pages p)) (ld_pages st) = Some (KSuccess, pg)"
    by (auto simp: copy_segment_def is_error_def bind_eq_Some_conv split: if_splits)
  with assms have sz: "unat (p_offset p) + unat (p_filesz p) \<le> length bytes" "p_filesz p \<le> p_memsz p"
    and v: "ld_vmem st' = vm_zero (p_vaddr p + p_filesz p) (unat (p_memsz p - p_filesz p))
      (vm_copy (p_vaddr p) (take (unat (p_filesz p)) (drop (unat (p_offset p)) bytes)) (ld_vmem st))"
    by (auto simp: copy_segment_def Let_def not_less split: if_splits)
  have l: "length (take (unat (p_filesz p)) (drop (unat (p_offset p)) bytes)) = unat (p_filesz p)" using sz(1) by simp
  show ?thesis
    unfolding v vm_segment [OF sz(2) l] segment_range_def segment_byte_def using sz(1) by auto
qed

lemma copy_segment_outcome:
  "copy_segment cr bytes p st = Some (e, st') \<Longrightarrow> e \<noteq> KSuccess \<Longrightarrow> ld_vmem st' = ld_vmem st"
  by (auto simp: copy_segment_def is_error_def Let_def bind_eq_Some_conv split: if_splits)

lemma copy_load_segments_bytes:
  "copy_load_segments cr bytes ps st = Some (KSuccess, st') \<Longrightarrow>
    sorted_wrt (\<lambda>p q. segment_range p \<inter> segment_range q = {}) (load_segments ps) \<Longrightarrow>
    (\<forall>p \<in> set (load_segments ps). \<forall>a \<in> segment_range p. ld_vmem st' a = segment_byte bytes p (unat (a - p_vaddr p)))
    \<and> (\<forall>a. a \<notin> (\<Union>p \<in> set (load_segments ps). segment_range p) \<longrightarrow> ld_vmem st' a = ld_vmem st a)"
proof (induction cr bytes ps st rule: copy_load_segments.induct)
  case (2 cr bytes p ps st)
  show ?case
  proof (cases "p_type p = PT_LOAD")
    case False
    with 2 show ?thesis by (simp add: load_segments_def)
  next
    case True
    with "2.prems"(1) obtain st1 where s: "copy_segment cr bytes p st = Some (KSuccess, st1)"
      "copy_load_segments cr bytes ps st1 = Some (KSuccess, st')"
      by (auto simp: bind_eq_Some_conv is_error_def split: if_splits)
    have dis: "sorted_wrt (\<lambda>p q. segment_range p \<inter> segment_range q = {}) (load_segments ps)"
      "\<forall>q \<in> set (load_segments ps). segment_range p \<inter> segment_range q = {}"
      using "2.prems"(2) True by (auto simp: load_segments_def)
    have ih: "\<forall>p \<in> set (load_segments ps). \<forall>a \<in> segment_range p. ld_vmem st' a = segment_byte bytes p (unat (a - p_vaddr p))"
      "\<forall>a. a \<notin> (\<Union>p \<in> set (load_segments ps). segment_range p) \<longrightarrow> ld_vmem st' a = ld_vmem st1 a"
      using "2.IH"(2) [OF _ s(1) refl _ s(2) dis(1)] True by (auto simp: is_error_def)
    have ls: "load_segments (p # ps) = p # load_segments ps" using True by (simp add: load_segments_def)
    have own: "a \<notin> (\<Union>q \<in> set (load_segments ps). segment_range q)" if "a \<in> segment_range p" for a
      using that dis(2) by blast
    show ?thesis unfolding ls
    proof (intro conjI ballI allI impI)
      fix q a assume "q \<in> set (p # load_segments ps)" and a: "a \<in> segment_range q"
      then consider "q = p" | "q \<in> set (load_segments ps)" by auto
      then show "ld_vmem st' a = segment_byte bytes q (unat (a - p_vaddr q))"
      proof cases
        case 1
        with a ih(2) own copy_segment_bytes [OF s(1), of a] show ?thesis by simp
      qed (use a ih(1) in blast)
    next
      fix a assume "a \<notin> (\<Union>p \<in> set (p # load_segments ps). segment_range p)"
      with ih(2) copy_segment_bytes [OF s(1), of a] show "ld_vmem st' a = ld_vmem st a" by simp
    qed
  qed
qed (simp add: load_segments_def)


text \<open>An address space in which every table entry is present, for concrete runs.\<close>

definition open_pages :: paging_state where
  "open_pages = \<lparr>pt_mem = (\<lambda>_. 7), pt_frames = small_manager\<rparr>"

lemma open_pages_entry:
  "set_new_page_map_if_not_present a open_pages = Some ((0, KSuccess), open_pages)"
  "update_entry a pme_set_user open_pages = open_pages"
  "update_entry a pme_set_writable open_pages = open_pages"
  by (simp_all add: open_pages_def update_entry_def pme_set_user_def pme_set_writable_def bf_set_def fun_eq_iff
      set_new_page_map_if_not_present_def pme_present_def pme_pointer_def bf_get_def take_bit_eq_mod drop_bit_eq_div)

lemma setup_page_map_0 [simp]: "setup_page_map lv t a 0 st = Some ((0, KSuccess), st)"
  by (simp add: setup_page_map.simps)

lemma open_pages_one: "1 \<le> lv \<Longrightarrow> lv \<le> 4 \<Longrightarrow> setup_page_map lv t a 1 open_pages = Some ((0, KSuccess), open_pages)"
proof (induction lv arbitrary: t)
  case (Suc lv)
  have "lv = 0 \<or> setup_page_map lv 0 a 1 open_pages = Some ((0, KSuccess), open_pages)"
    using Suc by (cases lv) auto
  then show ?case
    using Suc.prems by (subst setup_page_map.simps) (auto simp: Let_def open_pages_entry)
qed simp

lemma open_pages_setup:
  "setup_page_maps cr a 0 open_pages = Some (KSuccess, open_pages)"
  "setup_page_maps cr a 1 open_pages = Some (KSuccess, open_pages)"
  "setup_page_maps cr a (Suc 0) open_pages = Some (KSuccess, open_pages)"
  using open_pages_one [of 4 cr a] by (simp_all add: setup_page_maps_def)

definition sample_phdr :: "u32 \<Rightarrow> u64 \<Rightarrow> u64 \<Rightarrow> u64 \<Rightarrow> elf_phdr" where
  "sample_phdr ty v fs ms =
    \<lparr>p_type = ty, p_flags = 7, p_offset = 0, p_vaddr = v, p_paddr = 0, p_filesz = fs, p_memsz = ms, p_align = 4096\<rparr>"

definition sample_elf :: "elf_phdr list \<Rightarrow> elf_file" where
  "sample_elf ps =
    \<lparr>el_ehdr = \<lparr>e_ident = [], e_type = 2, e_machine = 62, e_version = 1, e_entry = 0, e_phoff = 64, e_shoff = 0,
       e_flags = 0, e_ehsize = 64, e_phentsize = 56, e_phnum = of_nat (length ps), e_shentsize = 0, e_shnum = 0,
       e_shstrndx = 0\<rparr>, el_phdrs = ps, el_bytes = [0x90, 0xC3]\<rparr>"

definition sample_loader :: loader_state where
  "sample_loader = \<lparr>ld_pages = open_pages, ld_vmem = (\<lambda>_. 0)\<rparr>"


text \<open>
  \<open>LoadElf\<close> refuses a file that is not executable or whose first loadable segment lies below
  the upper half of the address space, but only the first segment is looked at: there is a file it
  accepts whose second segment overwrites memory below that limit, where the kernel lies.
\<close>

theorem load_elf_checks_first_segment_only:
  "\<exists>f st st' a. load_elf 0 f st = Some (KSuccess, st') \<and> a < 0xFFFF800000000000
    \<and> (\<exists>p \<in> set (load_segments (el_phdrs f)). p_vaddr p = a) \<and> ld_vmem st' a \<noteq> ld_vmem st a"
proof -
  let ?p = "sample_phdr 1 0xFFFF800000000000 0 0" and ?q = "sample_phdr 1 0x100000 1 1"
  have pg: "segment_pages ?p = 0" "segment_pages ?q = 1" by (simp_all add: segment_pages_def sample_phdr_def)
  have p: "\<exists>st1. copy_segment 0 [0x90, 0xC3] ?p sample_loader = Some (KSuccess, st1) \<and> ld_pages st1 = open_pages"
    unfolding copy_segment_def pg sample_loader_def
    by (simp add: open_pages_setup sample_phdr_def Let_def)
  then obtain st1 where st1: "copy_segment 0 [0x90, 0xC3] ?p sample_loader = Some (KSuccess, st1)"
    "ld_pages st1 = open_pages" by blast
  have "\<exists>st'. copy_segment 0 [0x90, 0xC3] ?q st1 = Some (KSuccess, st')"
    unfolding copy_segment_def pg st1(2)
    by (simp add: open_pages_setup sample_phdr_def Let_def)
  then obtain st' where q: "copy_segment 0 [0x90, 0xC3] ?q st1 = Some (KSuccess, st')" by blast
  have "load_elf 0 (sample_elf [?p, ?q]) sample_loader = Some (KSuccess, st')"
    using st1(1) q by (simp add: load_elf_def sample_elf_def ET_EXEC_def PT_LOAD_def sample_phdr_def)
  moreover have "?q \<in> set (load_segments (el_phdrs (sample_elf [?p, ?q])))"
    by (simp add: load_segments_def sample_elf_def sample_phdr_def PT_LOAD_def)
  moreover have "ld_vmem st' 0x100000 = 0x90"
    using copy_segment_bytes [OF q, of "0x100000"]
    by (simp add: segment_range_def segment_byte_def sample_phdr_def)
  moreover have "ld_vmem sample_loader 0x100000 = 0" by (simp add: sample_loader_def)
  ultimately show ?thesis
    by (intro exI [of _ "sample_elf [?p, ?q]"] exI [of _ sample_loader] exI [of _ st'] exI [of _ "0x100000"]
        conjI bexI [of _ ?q]) (simp_all add: sample_phdr_def)
qed

end
