(* ===== verification/Fat_Volume.thy ===== *)
theory Fat_Volume
  imports Kernel_Prelude
begin

text \<open>
  The FAT32 reader: \<open>Kernel/fat.hpp\<close> and \<open>Kernel/fat.cpp\<close>.

  A volume is its boot parameter block and the bytes of its image; an address is the offset from the
  start of the image, and \<open>None\<close> is a read outside it.  \<open>FindFile\<close> and \<open>LoadFile\<close> follow cluster
  chains the volume describes, which may be circular; they are partial functions, for which \<open>None\<close>
  also stands for a loop that does not end.
\<close>

section \<open>Data\<close>

record bpb =
  bp_jump_boot :: "u8 list"
  bp_oem_name :: "u8 list"
  bp_bytes_per_sector :: u16
  bp_sectors_per_cluster :: u8
  bp_reserved_sector_count :: u16
  bp_num_fats :: u8
  bp_root_entry_count :: u16
  bp_total_sectors_16 :: u16
  bp_media :: u8
  bp_fat_size_16 :: u16
  bp_sectors_per_track :: u16
  bp_num_heads :: u16
  bp_hidden_sectors :: u32
  bp_total_sectors_32 :: u32
  bp_fat_size_32 :: u32
  bp_ext_flags :: u16
  bp_fs_version :: u16
  bp_root_cluster :: u32
  bp_fs_info :: u16
  bp_backup_boot_sector :: u16
  bp_reserved :: "u8 list"
  bp_drive_number :: u8
  bp_reserved1 :: u8
  bp_boot_signature :: u8
  bp_volume_id :: u32
  bp_volume_label :: "u8 list"
  bp_fs_type :: "u8 list"

record volume =
  vol_bpb :: bpb
  vol_bytes :: "u8 list"

record directory_entry =
  de_name :: "u8 list"
  de_attr :: u8
  de_ntres :: u8
  de_create_time_tenth :: u8
  de_create_time :: u16
  de_create_date :: u16
  de_last_access_date :: u16
  de_first_cluster_high :: u16
  de_write_time :: u16
  de_write_date :: u16
  de_first_cluster_low :: u16
  de_file_size :: u32

datatype fat_attribute =
    AttrReadOnly | AttrHidden | AttrSystem | AttrVolumeID | AttrDirectory | AttrArchive | AttrLongName

fun attribute_bits :: "fat_attribute \<Rightarrow> u8" where
  "attribute_bits AttrReadOnly = 0x01"
| "attribute_bits AttrHidden = 0x02"
| "attribute_bits AttrSystem = 0x04"
| "attribute_bits AttrVolumeID = 0x08"
| "attribute_bits AttrDirectory = 0x10"
| "attribute_bits AttrArchive = 0x20"
| "attribute_bits AttrLongName = 0x0F"

definition first_cluster :: "directory_entry \<Rightarrow> u32" where
  "first_cluster e = ucast (de_first_cluster_low e) OR push_bit 16 (ucast (de_first_cluster_high e))"

definition kEndOfClusterChain :: u64 where
  "kEndOfClusterChain = 0x0FFFFFFF"

definition bytes_per_cluster :: "volume \<Rightarrow> nat" where
  "bytes_per_cluster v = unat (bp_bytes_per_sector (vol_bpb v)) * unat (bp_sectors_per_cluster (vol_bpb v))"

section \<open>Reading the image\<close>

definition read_bytes :: "volume \<Rightarrow> nat \<Rightarrow> nat \<Rightarrow> u8 list option" where
  "read_bytes v off n = (if off + n \<le> length (vol_bytes v) then Some (take n (drop off (vol_bytes v))) else None)"

definition le16 :: "u8 list \<Rightarrow> u16" where
  "le16 bs = ucast (bs ! 0) OR push_bit 8 (ucast (bs ! 1))"

definition le32 :: "u8 list \<Rightarrow> u32" where
  "le32 bs = ucast (bs ! 0) OR push_bit 8 (ucast (bs ! 1)) OR push_bit 16 (ucast (bs ! 2))
    OR push_bit 24 (ucast (bs ! 3))"

text \<open>The first two terms of the sector number are 32-bit arithmetic, the rest is 64-bit.\<close>

definition get_cluster_addr :: "volume \<Rightarrow> u64 \<Rightarrow> u64" where
  "get_cluster_addr v cluster =
    (let b = vol_bpb v;
         sector_num = ucast ((ucast (bp_reserved_sector_count b) :: u32)
             + ucast (bp_num_fats b) * bp_fat_size_32 b)
           + (cluster - 2) * ucast (bp_sectors_per_cluster b)
     in sector_num * ucast (bp_bytes_per_sector b))"

definition next_cluster :: "volume \<Rightarrow> u64 \<Rightarrow> u64 option" where
  "next_cluster v cluster =
    (let fat_offset = unat (bp_reserved_sector_count (vol_bpb v)) * unat (bp_bytes_per_sector (vol_bpb v)) in
     if 2 ^ 31 \<le> fat_offset then None
     else do {
       bs \<leftarrow> read_bytes v (fat_offset + 4 * unat cluster) 4;
       Some (if 0x0FFFFFF8 \<le> le32 bs then kEndOfClusterChain else ucast (le32 bs))
     })"

definition dir_entry_at :: "volume \<Rightarrow> nat \<Rightarrow> directory_entry option" where
  "dir_entry_at v off = do {
     bs \<leftarrow> read_bytes v off 32;
     Some \<lparr>de_name = take 11 bs, de_attr = bs ! 11, de_ntres = bs ! 12,
           de_create_time_tenth = bs ! 13, de_create_time = le16 (drop 14 bs),
           de_create_date = le16 (drop 16 bs), de_last_access_date = le16 (drop 18 bs),
           de_first_cluster_high = le16 (drop 20 bs), de_write_time = le16 (drop 22 bs),
           de_write_date = le16 (drop 24 bs), de_first_cluster_low = le16 (drop 26 bs),
           de_file_size = le32 (drop 28 bs)\<rparr>
   }"

section \<open>Names\<close>

text \<open>The loop that turns trailing spaces among the first \<open>n\<close> bytes into zeros.\<close>

fun zero_trailing :: "nat \<Rightarrow> u8 list \<Rightarrow> u8 list" where
  "zero_trailing 0 bs = bs"
| "zero_trailing (Suc i) bs = (if bs ! i = 0x20 then zero_trailing i (bs[i := 0]) else bs)"

text \<open>\<open>ReadName\<close>: the arrays \<open>base\<close> and \<open>ext\<close>.\<close>

definition read_name :: "directory_entry \<Rightarrow> u8 list \<times> u8 list" where
  "read_name e = (zero_trailing 8 (take 8 (de_name e) @ [0]), zero_trailing 3 (drop 8 (de_name e) @ [0]))"

text \<open>The string an array holds: undefined when no zero byte ends it.\<close>

fun c_string :: "u8 list \<Rightarrow> u8 list option" where
  "c_string [] = None"
| "c_string (b # bs) = (if b = 0 then Some [] else map_option (Cons b) (c_string bs))"

text \<open>
  \<open>NameIsEqual\<close>.  \<open>base[8]\<close> and \<open>ext[3]\<close> are never written: \<open>b8\<close> and \<open>e3\<close> are what they happen to hold.
  A string longer than the 13 bytes of \<open>filename\<close> is written past its end.
\<close>

definition name_is_equal :: "u8 \<Rightarrow> u8 \<Rightarrow> directory_entry \<Rightarrow> u8 list \<Rightarrow> bool option" where
  "name_is_equal b8 e3 d name =
    (let base = zero_trailing 8 (take 8 (de_name d) @ [b8]);
         ext = zero_trailing 3 (drop 8 (de_name d) @ [e3])
     in do {
       b \<leftarrow> c_string base;
       filename \<leftarrow> (if ext ! 0 \<noteq> 0 then map_option (\<lambda>x. b @ [0x2E] @ x) (c_string ext) else Some b);
       (if 13 \<le> length filename then None else Some (filename = name))
     })"

section \<open>Directories and files\<close>

text \<open>The entries of one directory cluster, from index \<open>i\<close> on, \<open>n\<close> of them left.\<close>

fun find_in_cluster :: "u8 \<Rightarrow> u8 \<Rightarrow> volume \<Rightarrow> u8 list \<Rightarrow> nat \<Rightarrow> nat \<Rightarrow> nat option option" where
  "find_in_cluster b8 e3 v name off 0 = Some None"
| "find_in_cluster b8 e3 v name off (Suc n) = do {
     d \<leftarrow> dir_entry_at v off;
     eq \<leftarrow> name_is_equal b8 e3 d name;
     (if eq then Some (Some off) else find_in_cluster b8 e3 v name (off + 32) n)
   }"

partial_function (option) find_loop :: "u8 \<Rightarrow> u8 \<Rightarrow> volume \<Rightarrow> u8 list \<Rightarrow> u64 \<Rightarrow> nat option option" where
  "find_loop b8 e3 v name cluster =
    (if cluster = kEndOfClusterChain then Some None
     else Option.bind
       (find_in_cluster b8 e3 v name (unat (get_cluster_addr v cluster)) (bytes_per_cluster v div 32))
       (\<lambda>r. case r of Some off \<Rightarrow> Some (Some off)
          | None \<Rightarrow> Option.bind (next_cluster v cluster) (find_loop b8 e3 v name)))"

definition find_file :: "u8 \<Rightarrow> u8 \<Rightarrow> volume \<Rightarrow> u8 list \<Rightarrow> u64 \<Rightarrow> nat option option" where
  "find_file b8 e3 v name directory_cluster =
    find_loop b8 e3 v name
      (if directory_cluster = 0 then ucast (bp_root_cluster (vol_bpb v)) else directory_cluster)"

text \<open>
  \<open>LoadFile\<close>: what it returns, and the bytes written to the buffer so far.  \<open>room\<close> is \<open>buf_end - p\<close>.
\<close>

partial_function (option) load_loop :: "volume \<Rightarrow> nat \<Rightarrow> u8 list \<Rightarrow> nat \<Rightarrow> u32 \<Rightarrow> (nat \<times> u8 list) option" where
  "load_loop v len acc room cluster =
    (if cluster = 0 \<or> ucast cluster = kEndOfClusterChain then Some (length acc, acc)
     else if room \<le> bytes_per_cluster v
     then Option.bind (read_bytes v (unat (get_cluster_addr v (ucast cluster))) room)
       (\<lambda>bs. Some (len, acc @ bs))
     else Option.bind (read_bytes v (unat (get_cluster_addr v (ucast cluster))) (bytes_per_cluster v))
       (\<lambda>bs. Option.bind (next_cluster v (ucast cluster))
         (\<lambda>c. load_loop v len (acc @ bs) (room - bytes_per_cluster v) (ucast c))))"

definition load_file :: "volume \<Rightarrow> nat \<Rightarrow> directory_entry \<Rightarrow> (nat \<times> u8 list) option" where
  "load_file v len e = load_loop v len [] len (first_cluster e)"

section \<open>Cluster chains\<close>

text \<open>The clusters from \<open>c\<close> on, up to the end mark.\<close>

fun cluster_chain :: "volume \<Rightarrow> u64 \<Rightarrow> u64 list \<Rightarrow> bool" where
  "cluster_chain v c [] \<longleftrightarrow> c = kEndOfClusterChain"
| "cluster_chain v c (d # ds) \<longleftrightarrow>
    c = d \<and> c \<noteq> kEndOfClusterChain \<and> c \<noteq> 0 \<and> unat (get_cluster_addr v c) + bytes_per_cluster v \<le> length (vol_bytes v)
    \<and> (\<exists>n. next_cluster v c = Some n \<and> cluster_chain v n ds)"

definition cluster_bytes :: "volume \<Rightarrow> u64 \<Rightarrow> u8 list" where
  "cluster_bytes v c = take (bytes_per_cluster v) (drop (unat (get_cluster_addr v c)) (vol_bytes v))"

lemma ucast_twice: "ucast (ucast (ucast x :: u64) :: u32) = (ucast x :: u64)" for x :: u32
  by (rule bit_word_eqI) (auto simp: bit_simps dest: bit_imp_le_length)

lemma next_cluster_32: "next_cluster v c = Some n \<Longrightarrow> ucast (ucast n :: u32) = n"
proof -
  assume "next_cluster v c = Some n"
  then have "n = kEndOfClusterChain \<or> (\<exists>x :: u32. n = ucast x)"
    by (auto simp: next_cluster_def Let_def bind_eq_Some_conv split: if_splits)
  then show ?thesis by (auto simp: kEndOfClusterChain_def ucast_twice)
qed

lemma cluster_bytes_length:
  "unat (get_cluster_addr v c) + bytes_per_cluster v \<le> length (vol_bytes v) \<Longrightarrow>
    length (cluster_bytes v c) = bytes_per_cluster v"
  by (simp add: cluster_bytes_def)

lemma load_loop_chain:
  "cluster_chain v (ucast c) cs \<Longrightarrow> length acc + room = len \<Longrightarrow>
    load_loop v len acc room c =
      Some (min len (length acc + bytes_per_cluster v * length cs),
            take len (acc @ concat (map (cluster_bytes v) cs)))"
proof (induction cs arbitrary: c acc room)
  case Nil
  then show ?case by (subst load_loop.simps) auto
next
  case (Cons d ds)
  then obtain n where n: "next_cluster v (ucast c) = Some n" "cluster_chain v n ds"
    and c: "ucast c \<noteq> kEndOfClusterChain" "c \<noteq> 0" "ucast c = d"
      "unat (get_cluster_addr v d) + bytes_per_cluster v \<le> length (vol_bytes v)" by (cases "c = 0") auto
  let ?b = "bytes_per_cluster v"
  show ?case
  proof (cases "room \<le> ?b")
    case True
    have r: "read_bytes v (unat (get_cluster_addr v d)) room = Some (take room (cluster_bytes v d))"
      using c(4) True by (simp add: read_bytes_def cluster_bytes_def min_absorb1)
    have "take len (acc @ cluster_bytes v d @ concat (map (cluster_bytes v) ds)) = acc @ take room (cluster_bytes v d)"
      using True cluster_bytes_length [OF c(4)] Cons.prems(2) by auto
    moreover have "len \<le> length acc + ?b * length (d # ds)" using True Cons.prems(2) by simp
    ultimately show ?thesis using c r True by (subst load_loop.simps) simp
  next
    case False
    have r: "read_bytes v (unat (get_cluster_addr v d)) ?b = Some (cluster_bytes v d)"
      using c(4) by (simp add: read_bytes_def cluster_bytes_def)
    have "load_loop v len acc room c = load_loop v len (acc @ cluster_bytes v d) (room - ?b) (ucast n)"
      using c r n(1) False by (subst load_loop.simps) simp
    also have "\<dots> = Some (min len (length (acc @ cluster_bytes v d) + ?b * length ds),
        take len ((acc @ cluster_bytes v d) @ concat (map (cluster_bytes v) ds)))"
      using Cons.prems(2) False cluster_bytes_length [OF c(4)] n
      by (intro Cons.IH) (simp_all add: next_cluster_32 [OF n(1)])
    finally show ?thesis using cluster_bytes_length [OF c(4)] by simp
  qed
qed

text \<open>
  C22: \<open>LoadFile\<close> of a file whose cluster chain ends returns, with the file's clusters one after the
  other in the buffer, cut at the buffer's length, and the number of bytes written as its result.
\<close>

theorem load_file_contents:
  assumes "cluster_chain v (ucast (first_cluster e)) cs"
  shows "load_file v len e =
    Some (min len (bytes_per_cluster v * length cs), take len (concat (map (cluster_bytes v) cs)))"
  using load_loop_chain [OF assms, of "[]" len len] by (simp add: load_file_def)

text \<open>
  Whatever the allocation table says, the buffer bounds the copying: each round but the last takes
  a whole cluster off the room that is left.
\<close>

lemma load_loop_returns:
  assumes "0 < bytes_per_cluster v" and "c \<in> S"
    and "\<forall>c \<in> S. c = 0 \<or> ucast c = kEndOfClusterChain \<or>
      unat (get_cluster_addr v (ucast c)) + bytes_per_cluster v \<le> length (vol_bytes v)
      \<and> (\<exists>n. next_cluster v (ucast c) = Some n \<and> ucast n \<in> S)"
  shows "\<exists>n bs. load_loop v len acc room c = Some (n, bs) \<and> length bs \<le> length acc + room"
  using assms(2)
proof (induction room arbitrary: acc c rule: less_induct)
  case (less room)
  consider "c = 0 \<or> ucast c = kEndOfClusterChain"
    | n where "c \<noteq> 0" "ucast c \<noteq> kEndOfClusterChain"
      "unat (get_cluster_addr v (ucast c)) + bytes_per_cluster v \<le> length (vol_bytes v)"
      "next_cluster v (ucast c) = Some n" "ucast n \<in> S"
    using assms(3) less.prems by blast
  then show ?case
  proof cases
    case 1
    then show ?thesis by (subst load_loop.simps) auto
  next
    case 2
    show ?thesis
    proof (cases "room \<le> bytes_per_cluster v")
      case True
      with 2 show ?thesis by (subst load_loop.simps) (auto simp: read_bytes_def)
    next
      case False
      let ?bs = "cluster_bytes v (ucast c)" and ?r = "room - bytes_per_cluster v"
      have "load_loop v len acc room c = load_loop v len (acc @ ?bs) ?r (ucast n)"
        using 2 False by (subst load_loop.simps) (simp add: read_bytes_def cluster_bytes_def)
      moreover have "?r < room" using assms(1) False by simp
      from less.IH [OF this 2(5), of "acc @ ?bs"] obtain k bs where
        "load_loop v len (acc @ ?bs) ?r (ucast n) = Some (k, bs)" "length bs \<le> length (acc @ ?bs) + ?r" by blast
      moreover have "length ?bs = bytes_per_cluster v" using 2(3) by (rule cluster_bytes_length)
      ultimately show ?thesis using False by simp
    qed
  qed
qed

text \<open>
  \<open>LoadFile\<close> returns even when the cluster chain is circular, and never writes past the buffer,
  as long as a cluster has at least one byte and the clusters of the chain lie inside the image.
\<close>

theorem load_file_terminates:
  assumes "0 < bytes_per_cluster v" and "first_cluster e \<in> S"
    and "\<forall>c \<in> S. c = 0 \<or> ucast c = kEndOfClusterChain \<or>
      unat (get_cluster_addr v (ucast c)) + bytes_per_cluster v \<le> length (vol_bytes v)
      \<and> (\<exists>n. next_cluster v (ucast c) = Some n \<and> ucast n \<in> S)"
  shows "\<exists>n bs. load_file v len e = Some (n, bs) \<and> length bs \<le> len"
  using load_loop_returns [OF assms, of len "[]" len] by (simp add: load_file_def)

section \<open>Finding a file\<close>

lemma find_in_cluster_spec:
  "\<forall>i < n. \<exists>d b. dir_entry_at v (off + 32 * i) = Some d \<and> name_is_equal b8 e3 d name = Some b \<and> (b \<longleftrightarrow> P (off + 32 * i)) \<Longrightarrow>
    find_in_cluster b8 e3 v name off n = Some (List.find P (map (\<lambda>i. off + 32 * i) [0..<n]))"
proof (induction n arbitrary: off)
  case (Suc n)
  from Suc.prems obtain d b where d: "dir_entry_at v off = Some d" "name_is_equal b8 e3 d name = Some b" "b \<longleftrightarrow> P off"
    by fastforce
  have "\<forall>i < n. \<exists>d b. dir_entry_at v (off + 32 + 32 * i) = Some d \<and> name_is_equal b8 e3 d name = Some b
      \<and> (b \<longleftrightarrow> P (off + 32 + 32 * i))"
    using Suc.prems by (metis Suc_mono add.assoc mult_Suc_right)
  from Suc.IH [OF this] d show ?case
    by (simp add: map_upt_Suc del: upt_Suc) (simp add: ac_simps)
qed simp

text \<open>The offsets of all entries of the directory's clusters, in order.\<close>

definition entry_offsets :: "volume \<Rightarrow> u64 list \<Rightarrow> nat list" where
  "entry_offsets v cs =
    concat (map (\<lambda>c. map (\<lambda>i. unat (get_cluster_addr v c) + 32 * i) [0..<bytes_per_cluster v div 32]) cs)"

lemma find_append: "List.find P (xs @ ys) = (case List.find P xs of Some x \<Rightarrow> Some x | None \<Rightarrow> List.find P ys)"
  by (induction xs) auto

lemma find_loop_spec:
  assumes "\<forall>off \<in> set (entry_offsets v cs). \<exists>d b. dir_entry_at v off = Some d \<and> name_is_equal b8 e3 d name = Some b
      \<and> (b \<longleftrightarrow> P off)"
    and "cluster_chain v c cs"
  shows "find_loop b8 e3 v name c = Some (List.find P (entry_offsets v cs))"
  using assms
proof (induction cs arbitrary: c)
  case Nil
  then show ?case by (subst find_loop.simps) (simp add: entry_offsets_def)
next
  case (Cons d ds)
  then obtain n where n: "next_cluster v c = Some n" "cluster_chain v n ds" and c: "c = d" "c \<noteq> kEndOfClusterChain" by auto
  let ?offs = "map (\<lambda>i. unat (get_cluster_addr v d) + 32 * i) [0..<bytes_per_cluster v div 32]"
  have eo: "entry_offsets v (d # ds) = ?offs @ entry_offsets v ds" by (simp add: entry_offsets_def)
  have "find_in_cluster b8 e3 v name (unat (get_cluster_addr v d)) (bytes_per_cluster v div 32) = Some (List.find P ?offs)"
    using Cons.prems(1) unfolding eo by (intro find_in_cluster_spec) auto
  moreover have "find_loop b8 e3 v name n = Some (List.find P (entry_offsets v ds))"
    using Cons.prems(1) n(2) unfolding eo by (intro Cons.IH) auto
  ultimately show ?case unfolding eo find_append
    using n c by (subst find_loop.simps) (auto split: option.split)
qed

text \<open>
  \<open>FindFile\<close> over a directory whose cluster chain ends returns the first entry of the directory
  whose name compares equal, and the null pointer when no entry's does.
\<close>

theorem find_file_first_match:
  assumes "cluster_chain v (if dc = 0 then ucast (bp_root_cluster (vol_bpb v)) else dc) cs"
    and "\<forall>off \<in> set (entry_offsets v cs). \<exists>d b. dir_entry_at v off = Some d \<and> name_is_equal b8 e3 d name = Some b
      \<and> (b \<longleftrightarrow> P off)"
  shows "find_file b8 e3 v name dc = Some (List.find P (entry_offsets v cs))"
  unfolding find_file_def by (rule find_loop_spec [OF assms(2,1)])

section \<open>Comparing names\<close>

lemma zero_trailing_spaces:
  "xs = [] \<or> last xs \<noteq> 0x20 \<Longrightarrow>
    zero_trailing (length xs + k) (xs @ replicate k 0x20 @ ys) = xs @ replicate k 0 @ ys"
proof (induction k arbitrary: ys)
  case 0
  show ?case
  proof (cases xs rule: rev_cases)
    case (snoc zs z)
    with 0 show ?thesis by (simp add: nth_append)
  qed simp
next
  case (Suc k)
  have e: "xs @ replicate (Suc k) 0x20 @ ys = xs @ replicate k 0x20 @ 0x20 # ys"
    by (simp add: replicate_app_Cons_same)
  have "(xs @ replicate k 0x20 @ 0x20 # ys) ! (length xs + k) = 0x20" by (simp add: nth_append)
  moreover have "(xs @ replicate k 0x20 @ 0x20 # ys)[length xs + k := 0] = xs @ replicate k 0x20 @ 0 # ys"
    by (simp add: list_update_append)
  ultimately have "zero_trailing (length xs + Suc k) (xs @ replicate (Suc k) 0x20 @ ys)
      = zero_trailing (length xs + k) (xs @ replicate k 0x20 @ 0 # ys)" unfolding e by simp
  also have "\<dots> = xs @ replicate k 0 @ 0 # ys" by (rule Suc.IH [OF Suc.prems])
  finally show ?case by (simp add: replicate_app_Cons_same)
qed

lemma c_string_zero: "0 \<notin> set xs \<Longrightarrow> c_string (xs @ 0 # ys) = Some xs"
  by (induction xs) auto

lemma c_string_None: "0 \<notin> set xs \<Longrightarrow> c_string xs = None"
  by (induction xs) auto

text \<open>A directory entry's name field for a base name and an extension.\<close>

definition padded_name :: "u8 list \<Rightarrow> u8 list \<Rightarrow> u8 list" where
  "padded_name nb xb = nb @ replicate (8 - length nb) 0x20 @ xb @ replicate (3 - length xb) 0x20"

definition plain :: "u8 list \<Rightarrow> bool" where
  "plain xs \<longleftrightarrow> 0 \<notin> set xs \<and> (xs = [] \<or> last xs \<noteq> 0x20)"

lemma padded_base:
  assumes "plain nb" and "length nb \<le> 8"
  shows "zero_trailing 8 (take 8 (padded_name nb xb) @ [b]) = nb @ replicate (8 - length nb) 0 @ [b]"
  using assms zero_trailing_spaces [of nb "8 - length nb" "[b]"] by (simp add: padded_name_def plain_def)

lemma padded_ext:
  assumes "plain xb" and "length xb \<le> 3" and "length nb \<le> 8"
  shows "zero_trailing 3 (drop 8 (padded_name nb xb) @ [b]) = xb @ replicate (3 - length xb) 0 @ [b]"
  using assms zero_trailing_spaces [of xb "3 - length xb" "[b]"] by (simp add: padded_name_def plain_def)

lemma replicate_zero_Cons: "0 < k \<Longrightarrow> replicate k (0 :: u8) @ ys = 0 # replicate (k - 1) 0 @ ys"
  by (cases k) auto

text \<open>
  For a base name shorter than 8 and an extension shorter than 3 characters \<open>NameIsEqual\<close> compares
  the given name with the base name, followed by a dot and the extension when there is one, whatever
  the two bytes hold that the function leaves uninitialised.
\<close>

theorem name_is_equal_short:
  assumes "plain nb" and "plain xb" and "length nb < 8" and "length xb < 3" and "de_name d = padded_name nb xb"
  shows "name_is_equal b8 e3 d name = Some ((if xb = [] then nb else nb @ [0x2E] @ xb) = name)"
proof -
  have b: "c_string (zero_trailing 8 (take 8 (de_name d) @ [b8])) = Some nb"
    unfolding assms(5) padded_base [OF assms(1) less_imp_le [OF assms(3)]]
    using assms(1,3) by (simp add: replicate_zero_Cons c_string_zero plain_def)
  have x: "zero_trailing 3 (drop 8 (de_name d) @ [e3]) = xb @ 0 # replicate (2 - length xb) 0 @ [e3]"
    unfolding assms(5) padded_ext [OF assms(2) less_imp_le [OF assms(4)] less_imp_le [OF assms(3)]]
    using assms(4) by (simp add: replicate_zero_Cons)
  have cx: "c_string (zero_trailing 3 (drop 8 (de_name d) @ [e3])) = Some xb"
    unfolding x using assms(2) by (simp add: c_string_zero plain_def)
  have "zero_trailing 3 (drop 8 (de_name d) @ [e3]) ! 0 \<noteq> 0 \<longleftrightarrow> xb \<noteq> []"
    unfolding x using assms(2) by (cases xb) (auto simp: plain_def)
  with b cx assms(3,4) show ?thesis by (auto simp: name_is_equal_def Let_def)
qed

text \<open>
  \<open>NameIsEqual\<close> ends neither of its two arrays with a zero byte.  For an entry whose extension has
  all three characters, as in \<open>.TXT\<close> or \<open>.ELF\<close>, the call is defined only when the byte behind the
  extension happens to be zero; the same holds for a base name of eight characters.
\<close>

theorem name_is_equal_unterminated:
  assumes "plain nb" and "plain xb" and "length nb \<le> 8" and "length xb \<le> 3" and "de_name d = padded_name nb xb"
  shows "(length xb = 3 \<and> e3 \<noteq> 0 \<longrightarrow> name_is_equal b8 e3 d name = None)
    \<and> (length nb = 8 \<and> b8 \<noteq> 0 \<longrightarrow> name_is_equal b8 e3 d name = None)
    \<and> name_is_equal 0 0 d name = Some ((if xb = [] then nb else nb @ [0x2E] @ xb) = name)"
proof -
  have b: "zero_trailing 8 (take 8 (de_name d) @ [b]) = nb @ replicate (8 - length nb) 0 @ [b]" for b
    unfolding assms(5) by (rule padded_base [OF assms(1,3)])
  have x: "zero_trailing 3 (drop 8 (de_name d) @ [e]) = xb @ replicate (3 - length xb) 0 @ [e]" for e
    unfolding assms(5) by (rule padded_ext [OF assms(2,4,3)])
  have nz: "0 \<notin> set nb" "0 \<notin> set xb" using assms(1,2) by (auto simp: plain_def)
  have b0: "c_string (zero_trailing 8 (take 8 (de_name d) @ [0])) = Some nb"
    unfolding b using nz assms(3) by (cases "length nb = 8") (simp_all add: c_string_zero replicate_zero_Cons)
  have x0: "c_string (zero_trailing 3 (drop 8 (de_name d) @ [0])) = Some xb"
    unfolding x using nz assms(4) by (cases "length xb = 3") (simp_all add: c_string_zero replicate_zero_Cons)
  have i: "zero_trailing 3 (drop 8 (de_name d) @ [0]) ! 0 \<noteq> 0 \<longleftrightarrow> xb \<noteq> []"
    unfolding x using nz by (cases xb) (auto simp: numeral_3_eq_3)
  have "name_is_equal 0 0 d name = Some ((if xb = [] then nb else nb @ [0x2E] @ xb) = name)"
    using b0 x0 i assms(3,4) by (auto simp: name_is_equal_def Let_def)
  moreover have "name_is_equal b8 e3 d name = None" if "length xb = 3" "e3 \<noteq> 0"
  proof -
    have "c_string (zero_trailing 3 (drop 8 (de_name d) @ [e3])) = None"
      unfolding x using that nz by (intro c_string_None) auto
    moreover have "zero_trailing 3 (drop 8 (de_name d) @ [e3]) ! 0 \<noteq> 0" unfolding x using that nz by (cases xb) auto
    ultimately show ?thesis by (simp add: name_is_equal_def Let_def)
  qed
  moreover have "name_is_equal b8 e3 d name = None" if "length nb = 8" "b8 \<noteq> 0"
  proof -
    have "c_string (zero_trailing 8 (take 8 (de_name d) @ [b8])) = None"
      unfolding b using that nz by (intro c_string_None) auto
    then show ?thesis by (simp add: name_is_equal_def Let_def)
  qed
  ultimately show ?thesis by simp
qed

section \<open>A small volume\<close>

text \<open>Sectors of 32 bytes: boot sector, allocation table, root directory, one file of one cluster.\<close>

definition small_bpb :: bpb where
  "small_bpb =
    \<lparr>bp_jump_boot = [], bp_oem_name = [], bp_bytes_per_sector = 32, bp_sectors_per_cluster = 1, bp_reserved_sector_count = 1, bp_num_fats = 1,
     bp_root_entry_count = 0, bp_total_sectors_16 = 0, bp_media = 0, bp_fat_size_16 = 0,
     bp_sectors_per_track = 0, bp_num_heads = 0, bp_hidden_sectors = 0, bp_total_sectors_32 = 4,
     bp_fat_size_32 = 1, bp_ext_flags = 0, bp_fs_version = 0, bp_root_cluster = 2, bp_fs_info = 0,
     bp_backup_boot_sector = 0, bp_reserved = [], bp_drive_number = 0, bp_reserved1 = 0,
     bp_boot_signature = 0, bp_volume_id = 0, bp_volume_label = [], bp_fs_type = []\<rparr>"

definition file_name :: "u8 list" where
  "file_name = [0x41, 0x2E, 0x43]"

definition small_table :: "u8 list" where
  "small_table = replicate 8 0 @ [0xFF, 0xFF, 0xFF, 0x0F, 0xFF, 0xFF, 0xFF, 0x0F] @ replicate 16 0"

definition small_root :: "u8 list" where
  "small_root = padded_name [0x41] [0x43] @ replicate 15 0 @ [3, 0, 32, 0, 0, 0]"

definition small_volume :: volume where
  "small_volume = \<lparr>vol_bpb = small_bpb, vol_bytes = replicate 32 0 @ small_table @ small_root @ replicate 32 7\<rparr>"

lemma small_sizes: "length small_table = 32" "length small_root = 32" "length (vol_bytes small_volume) = 128"
    "bytes_per_cluster small_volume = 32"
  by (simp_all add: small_table_def small_root_def small_volume_def padded_name_def bytes_per_cluster_def small_bpb_def)

lemma small_addr: "get_cluster_addr small_volume 2 = 64" "get_cluster_addr small_volume 3 = 96"
  by (simp_all add: get_cluster_addr_def small_volume_def small_bpb_def)

lemma small_next: "next_cluster small_volume 2 = Some kEndOfClusterChain"
    "next_cluster small_volume 3 = Some kEndOfClusterChain"
proof -
  have "read_bytes small_volume (32 + k) n = Some (take n (drop k small_table))" if "k + n \<le> 32" for k n
    using that by (simp add: read_bytes_def small_sizes) (simp add: small_volume_def small_sizes)
  from this [of 8 4] this [of 12 4] show "next_cluster small_volume 2 = Some kEndOfClusterChain"
    "next_cluster small_volume 3 = Some kEndOfClusterChain"
    by (simp_all add: next_cluster_def small_table_def le32_def small_volume_def small_bpb_def)
qed

lemma small_chains: "cluster_chain small_volume 2 [2]" "cluster_chain small_volume 3 [3]"
  by (simp_all add: small_addr small_sizes small_next kEndOfClusterChain_def)

definition small_entry :: directory_entry where
  "small_entry = \<lparr>de_name = padded_name [0x41] [0x43], de_attr = 0, de_ntres = 0,
    de_create_time_tenth = 0, de_create_time = 0, de_create_date = 0, de_last_access_date = 0,
    de_first_cluster_high = 0, de_write_time = 0, de_write_date = 0, de_first_cluster_low = 3, de_file_size = 32\<rparr>"

lemma small_dir: "dir_entry_at small_volume 64 = Some small_entry"
  by code_simp

lemma small_plain: "plain [0x41]" "plain [0x43]"
  by (simp_all add: plain_def)

theorem name_is_equal_short_witness: "name_is_equal 1 2 small_entry file_name = Some True"
  using name_is_equal_short [OF small_plain, of small_entry 1 2 file_name]
  by (simp add: small_entry_def file_name_def)

theorem name_is_equal_unterminated_witness:
  "name_is_equal 0 9 (small_entry\<lparr>de_name := padded_name [0x41] [0x54, 0x58, 0x54]\<rparr>) [0x41, 0x2E, 0x54, 0x58, 0x54] = None"
  using name_is_equal_unterminated [OF small_plain(1), of "[0x54, 0x58, 0x54]"
      "small_entry\<lparr>de_name := padded_name [0x41] [0x54, 0x58, 0x54]\<rparr>" 9 0 "[0x41, 0x2E, 0x54, 0x58, 0x54]"]
  by (simp add: plain_def)

theorem load_file_contents_witness: "load_file small_volume 10 small_entry = Some (10, replicate 10 7)"
proof -
  have "ucast (first_cluster small_entry) = (3 :: u64)" by (simp add: first_cluster_def small_entry_def)
  moreover have "cluster_bytes small_volume 3 = replicate 32 7"
    by (simp add: cluster_bytes_def small_addr small_sizes) (simp add: small_volume_def small_sizes)
  ultimately show ?thesis
    using load_file_contents [of small_volume small_entry "[3]" 10] small_chains(2) by (simp add: small_sizes)
qed

theorem load_file_terminates_witness:
  "\<exists>n bs. load_file small_volume 100 small_entry = Some (n, bs) \<and> length bs \<le> 100"
proof -
  have f: "first_cluster small_entry \<in> {3, 0x0FFFFFFF}" by (simp add: first_cluster_def small_entry_def)
  show ?thesis
    by (rule load_file_terminates [OF _ f])
       (simp_all add: small_sizes small_addr small_next kEndOfClusterChain_def)
qed

theorem find_file_first_match_witness: "find_file 1 2 small_volume file_name 0 = Some (Some 64)"
proof -
  have c: "cluster_chain small_volume (if 0 = (0::u64) then ucast (bp_root_cluster (vol_bpb small_volume)) else 0) [2]"
    using small_chains(1) by (simp add: small_volume_def small_bpb_def)
  have o: "entry_offsets small_volume [2] = [64]" by (simp add: entry_offsets_def small_addr small_sizes)
  have "name_is_equal 1 2 small_entry file_name = Some True"
    by code_simp
  then show ?thesis
    using find_file_first_match [OF c, of 1 2 file_name "\<lambda>off. True"] unfolding o
    by (auto simp: small_dir)
qed

end
