(* ===== verification/Bit_Layout.thy ===== *)
theory Bit_Layout
  imports Bit_Field
begin

text \<open>
  Packed bit-field structures by name.  A layout lists a structure's fields in the order of their
  declaration with their widths, unnamed padding under the empty name; a field's position is the sum
  of the widths before it, as \<open>packed\<close> lays it out from the least significant bit.
\<close>

type_synonym layout = "(string \<times> nat) list"

fun field_pos :: "layout \<Rightarrow> string \<Rightarrow> (nat \<times> nat) option" where
  "field_pos [] f = None"
| "field_pos ((g, n) # fs) f =
    (if f = g then Some (0, n) else map_option (apfst ((+) n)) (field_pos fs f))"

definition layout_width :: "layout \<Rightarrow> nat" where
  "layout_width l = sum_list (map snd l)"

text \<open>Reading and writing a field; a field the structure does not have reads as zero and cannot be written.\<close>

definition field_get :: "layout \<Rightarrow> string \<Rightarrow> 'a::len word \<Rightarrow> 'a word" where
  "field_get l f w = (case field_pos l f of Some (lo, n) \<Rightarrow> bf_get lo n w | None \<Rightarrow> 0)"

definition field_set :: "layout \<Rightarrow> string \<Rightarrow> 'a::len word \<Rightarrow> 'a word \<Rightarrow> 'a word" where
  "field_set l f v w = (case field_pos l f of Some (lo, n) \<Rightarrow> bf_set lo n v w | None \<Rightarrow> w)"

lemma field_pos_bound: "field_pos l f = Some (lo, n) \<Longrightarrow> lo + n \<le> layout_width l"
  by (induction l f arbitrary: lo rule: field_pos.induct) (auto simp: layout_width_def split: if_splits)

text \<open>Two different fields do not share a bit.\<close>

lemma field_pos_disjoint:
  "field_pos l f = Some (lo, n) \<Longrightarrow> field_pos l g = Some (lo', n') \<Longrightarrow> f \<noteq> g \<Longrightarrow> lo + n \<le> lo' \<or> lo' + n' \<le> lo"
proof (induction l f arbitrary: lo lo' rule: field_pos.induct)
  case (2 h m fs f)
  then show ?case by (fastforce split: if_splits)
qed simp

lemma field_get_set_same:
  "field_pos l f = Some (lo, n) \<Longrightarrow> layout_width l \<le> LENGTH('a) \<Longrightarrow> field_get l f (field_set l f v w) = take_bit n v"
  for v w :: "'a::len word"
  using field_pos_bound [of l f lo n] by (simp add: field_get_def field_set_def)

lemma field_get_set_other:
  "f \<noteq> g \<Longrightarrow> field_get l g (field_set l f v w) = field_get l g w" for v w :: "'a::len word"
  using field_pos_disjoint [of l f _ _ g] by (auto simp: field_get_def field_set_def split: option.splits)

text \<open>Assignments to several fields, the first one first.\<close>

definition fields_set :: "layout \<Rightarrow> (string \<times> 'a::len word) list \<Rightarrow> 'a word \<Rightarrow> 'a word" where
  "fields_set l ws w = fold (\<lambda>(f, v). field_set l f v) ws w"

lemma fields_set_other:
  "f \<notin> fst ` set ws \<Longrightarrow> field_get l f (fields_set l ws w) = field_get l f w"
proof (induction ws arbitrary: w)
  case (Cons p ws)
  then show ?case by (cases p) (auto simp: fields_set_def field_get_set_other)
qed (simp add: fields_set_def)

lemma fields_set_get:
  fixes w :: "'a::len word"
  assumes "field_pos l f = Some (lo, n)" and "layout_width l \<le> LENGTH('a)"
  shows "(f, v) \<in> set ws \<Longrightarrow> distinct (map fst ws) \<Longrightarrow> field_get l f (fields_set l ws w) = take_bit n v"
proof (induction ws arbitrary: w)
  case (Cons p ws)
  obtain g u where p: "p = (g, u)" by (cases p)
  have s: "fields_set l (p # ws) w = fields_set l ws (field_set l g u w)" by (simp add: fields_set_def p)
  show ?case
  proof (cases "g = f")
    case True
    then have f: "f \<notin> fst ` set ws" using Cons.prems(2) p by simp
    then have "u = v" using Cons.prems(1) p True by force
    then show ?thesis using fields_set_other [OF f] s True
      by (simp add: field_get_set_same [OF assms])
  next
    case False
    then show ?thesis using Cons p s by simp
  qed
qed simp

end
