(* ===== verification/Usb_Endpoint.thy ===== *)
theory Usb_Endpoint
  imports Kernel_Prelude
begin

text \<open>Endpoint ids and configurations: \<open>Kernel/usb/endpoint.hpp\<close>.  An \<open>EndpointID\<close> is its address.\<close>

datatype endpoint_type = EpControl | EpIsochronous | EpBulk | EpInterrupt

fun endpoint_type_code :: "endpoint_type \<Rightarrow> nat" where
  "endpoint_type_code EpControl = 0"
| "endpoint_type_code EpIsochronous = 1"
| "endpoint_type_code EpBulk = 2"
| "endpoint_type_code EpInterrupt = 3"

definition endpoint_id :: "nat \<Rightarrow> bool \<Rightarrow> nat" where
  "endpoint_id ep_num dir_in = 2 * ep_num + (if dir_in then 1 else 0)"

definition ep_number :: "nat \<Rightarrow> nat" where
  "ep_number addr = addr div 2"

definition ep_is_in :: "nat \<Rightarrow> bool" where
  "ep_is_in addr \<longleftrightarrow> odd addr"

definition kDefaultControlPipeID :: nat where
  "kDefaultControlPipeID = endpoint_id 0 True"

record endpoint_config =
  ec_ep_id :: nat
  ec_ep_type :: endpoint_type
  ec_max_packet_size :: nat
  ec_interval :: nat

lemma endpoint_id_parts [simp]:
  "ep_number (endpoint_id n b) = n" "ep_is_in (endpoint_id n b) = b"
  by (simp_all add: ep_number_def endpoint_id_def ep_is_in_def)

end
