(* ===== verification/Xhci_Trb.thy ===== *)
theory Xhci_Trb
  imports Bit_Layout Usb_Endpoint
begin

text \<open>
  Transfer request blocks: \<open>Kernel/usb/xhci/trb.hpp\<close> and the name tables of \<open>trb.cpp\<close>.

  Every kind is a union over four 32-bit words, modelled as one 128-bit integer whose word \<open>i\<close> is
  bits \<open>32 * i\<close> to \<open>32 * i + 31\<close>.  Pointers are 64-bit addresses.
\<close>

type_synonym trb = "128 word"

section \<open>Layouts\<close>

definition trb_layout :: layout where
  "trb_layout =
   [(''parameter'', 64), (''status'', 32), (''cycle_bit'', 1), (''evaluate_next_trb'', 1),
    ('''', 8), (''trb_type'', 6), (''control'', 16)]"

definition normal_trb_layout :: layout where
  "normal_trb_layout =
   [(''data_buffer_pointer'', 64), (''trb_transfer_length'', 17), (''td_size'', 5),
    (''interrupter_target'', 10), (''cycle_bit'', 1), (''evaluate_next_trb'', 1),
    (''interrupt_on_short_packet'', 1), (''no_snoop'', 1), (''chain_bit'', 1),
    (''interrupt_on_completion'', 1), (''immediate_data'', 1), ('''', 2),
    (''block_event_interrupt'', 1), (''trb_type'', 6), ('''', 16)]"

definition setup_stage_trb_layout :: layout where
  "setup_stage_trb_layout =
   [(''request_type'', 8), (''request'', 8), (''value'', 16), (''index'', 16),
    (''length'', 16), (''trb_transfer_length'', 17), ('''', 5), (''interrupter_target'', 10),
    (''cycle_bit'', 1), ('''', 4), (''interrupt_on_completion'', 1), (''immediate_data'', 1),
    ('''', 3), (''trb_type'', 6), (''transfer_type'', 2), ('''', 14)]"

definition data_stage_trb_layout :: layout where
  "data_stage_trb_layout =
   [(''data_buffer_pointer'', 64), (''trb_transfer_length'', 17), (''td_size'', 5),
    (''interrupter_target'', 10), (''cycle_bit'', 1), (''evaluate_next_trb'', 1),
    (''interrupt_on_short_packet'', 1), (''no_snoop'', 1), (''chain_bit'', 1),
    (''interrupt_on_completion'', 1), (''immediate_data'', 1), ('''', 3), (''trb_type'', 6),
    (''direction'', 1), ('''', 15)]"

definition status_stage_trb_layout :: layout where
  "status_stage_trb_layout =
   [('''', 64), ('''', 22), (''interrupter_target'', 10), (''cycle_bit'', 1),
    (''evaluate_next_trb'', 1), ('''', 2), (''chain_bit'', 1),
    (''interrupt_on_completion'', 1), ('''', 4), (''trb_type'', 6), (''direction'', 1),
    ('''', 15)]"

definition link_trb_layout :: layout where
  "link_trb_layout =
   [('''', 4), (''ring_segment_pointer'', 60), ('''', 22), (''interrupter_target'', 10),
    (''cycle_bit'', 1), (''toggle_cycle'', 1), ('''', 2), (''chain_bit'', 1),
    (''interrupt_on_completion'', 1), ('''', 4), (''trb_type'', 6), ('''', 16)]"

definition no_op_trb_layout :: layout where
  "no_op_trb_layout =
   [('''', 64), ('''', 22), (''interrupter_target'', 10), (''cycle_bit'', 1),
    (''evaluate_next_trb'', 1), ('''', 2), (''chain_bit'', 1),
    (''interrupt_on_completion'', 1), ('''', 4), (''trb_type'', 6), ('''', 16)]"

definition enable_slot_command_trb_layout :: layout where
  "enable_slot_command_trb_layout =
   [('''', 32), ('''', 32), ('''', 32), (''cycle_bit'', 1), ('''', 9), (''trb_type'', 6),
    (''slot_type'', 5), ('''', 11)]"

definition address_device_command_trb_layout :: layout where
  "address_device_command_trb_layout =
   [('''', 4), (''input_context_pointer'', 60), ('''', 32), (''cycle_bit'', 1), ('''', 8),
    (''block_set_address_request'', 1), (''trb_type'', 6), ('''', 8), (''slot_id'', 8)]"

definition configure_endpoint_command_trb_layout :: layout where
  "configure_endpoint_command_trb_layout =
   [('''', 4), (''input_context_pointer'', 60), ('''', 32), (''cycle_bit'', 1), ('''', 8),
    (''deconfigure'', 1), (''trb_type'', 6), ('''', 8), (''slot_id'', 8)]"

definition stop_endpoint_command_trb_layout :: layout where
  "stop_endpoint_command_trb_layout =
   [('''', 32), ('''', 32), ('''', 32), (''cycle_bit'', 1), ('''', 9), (''trb_type'', 6),
    (''endpoint_id'', 5), ('''', 2), (''suspend'', 1), (''slot_id'', 8)]"

definition no_op_command_trb_layout :: layout where
  "no_op_command_trb_layout =
   [('''', 32), ('''', 32), ('''', 32), (''cycle_bit'', 1), ('''', 9), (''trb_type'', 6),
    ('''', 16)]"

definition transfer_event_trb_layout :: layout where
  "transfer_event_trb_layout =
   [(''trb_pointer'', 64), (''trb_transfer_length'', 24), (''completion_code'', 8),
    (''cycle_bit'', 1), ('''', 1), (''event_data'', 1), ('''', 7), (''trb_type'', 6),
    (''endpoint_id'', 5), ('''', 3), (''slot_id'', 8)]"

definition command_completion_event_trb_layout :: layout where
  "command_completion_event_trb_layout =
   [('''', 4), (''command_trb_pointer'', 60), (''command_completion_parameter'', 24),
    (''completion_code'', 8), (''cycle_bit'', 1), ('''', 9), (''trb_type'', 6), (''vf_id'', 8),
    (''slot_id'', 8)]"

definition port_status_change_event_trb_layout :: layout where
  "port_status_change_event_trb_layout =
   [('''', 24), (''port_id'', 8), ('''', 32), ('''', 24), (''completion_code'', 8),
    (''cycle_bit'', 1), ('''', 9), (''trb_type'', 6)]"

section \<open>Kinds\<close>

datatype trb_kind =
    NormalTrb
  | SetupStageTrb
  | DataStageTrb
  | StatusStageTrb
  | LinkTrb
  | NoOpTrb
  | EnableSlotCommandTrb
  | AddressDeviceCommandTrb
  | ConfigureEndpointCommandTrb
  | StopEndpointCommandTrb
  | NoOpCommandTrb
  | TransferEventTrb
  | CommandCompletionEventTrb
  | PortStatusChangeEventTrb

text \<open>The constant \<open>Type\<close> of each kind.\<close>

fun trb_type_code :: "trb_kind \<Rightarrow> trb" where
  "trb_type_code NormalTrb = 1"
| "trb_type_code SetupStageTrb = 2"
| "trb_type_code DataStageTrb = 3"
| "trb_type_code StatusStageTrb = 4"
| "trb_type_code LinkTrb = 6"
| "trb_type_code NoOpTrb = 8"
| "trb_type_code EnableSlotCommandTrb = 9"
| "trb_type_code AddressDeviceCommandTrb = 11"
| "trb_type_code ConfigureEndpointCommandTrb = 12"
| "trb_type_code StopEndpointCommandTrb = 15"
| "trb_type_code NoOpCommandTrb = 23"
| "trb_type_code TransferEventTrb = 32"
| "trb_type_code CommandCompletionEventTrb = 33"
| "trb_type_code PortStatusChangeEventTrb = 34"

fun layout_of :: "trb_kind \<Rightarrow> layout" where
  "layout_of NormalTrb = normal_trb_layout"
| "layout_of SetupStageTrb = setup_stage_trb_layout"
| "layout_of DataStageTrb = data_stage_trb_layout"
| "layout_of StatusStageTrb = status_stage_trb_layout"
| "layout_of LinkTrb = link_trb_layout"
| "layout_of NoOpTrb = no_op_trb_layout"
| "layout_of EnableSlotCommandTrb = enable_slot_command_trb_layout"
| "layout_of AddressDeviceCommandTrb = address_device_command_trb_layout"
| "layout_of ConfigureEndpointCommandTrb = configure_endpoint_command_trb_layout"
| "layout_of StopEndpointCommandTrb = stop_endpoint_command_trb_layout"
| "layout_of NoOpCommandTrb = no_op_command_trb_layout"
| "layout_of TransferEventTrb = transfer_event_trb_layout"
| "layout_of CommandCompletionEventTrb = command_completion_event_trb_layout"
| "layout_of PortStatusChangeEventTrb = port_status_change_event_trb_layout"

text \<open>A block of zeros with the type set: what every constructor starts from.\<close>

definition trb_blank :: "trb_kind \<Rightarrow> trb" where
  "trb_blank k = field_set (layout_of k) ''trb_type'' (trb_type_code k) 0"

text \<open>
  \<open>data[i]\<close>, and the test of \<open>TRBDynamicCast\<close>: the type field of a general block against the kind's
  constant; the cast pointer is the same block.
\<close>

definition trb_word :: "nat \<Rightarrow> trb \<Rightarrow> u32" where
  "trb_word i t = ucast (bf_get (32 * i) 32 t)"

definition trb_dynamic_cast :: "trb_kind \<Rightarrow> trb \<Rightarrow> trb option" where
  "trb_dynamic_cast k t = (if trb_type_code k = field_get trb_layout ''trb_type'' t then Some t else None)"

section \<open>Names for messages\<close>

definition trb_completion_code_names :: "string list" where
  "trb_completion_code_names =
   [''Invalid'', ''Success'', ''Data Buffer Error'', ''Babble Detected Error'',
    ''USB Transaction Error'', ''TRB Error'', ''Stall Error'', ''Resource Error'',
    ''Bandwidth Error'', ''No Slots Available Error'', ''Invalid Stream Type Error'',
    ''Slot Not Enabled Error'', ''Endpoint Not Enabled Error'', ''Short Packet'',
    ''Ring Underrun'', ''Ring Overrun'', ''VF Event Ring Full Error'', ''Parameter Error'',
    ''Bandwidth Overrun Error'', ''Context State Error'', ''No ping Response Error'',
    ''Event Ring Full Error'', ''Incompatible Device Error'', ''Missed Service Error'',
    ''Command Ring Stopped'', ''Command Aborted'', ''Stopped'', ''Stopped - Length Invalid'',
    ''Stopped - Short Packet'', ''Max Exit Latency Too Large Error'', ''Reserved'',
    ''Isoch Buffer Overrun'', ''Event Lost Error'', ''Undefined Error'',
    ''Invalid Stream ID Error'', ''Secondary Bandwidth Error'', ''Split Transaction Error'']"

definition trb_type_names :: "string list" where
  "trb_type_names =
   [''Reserved'', ''Normal'', ''Setup Stage'', ''Data Stage'', ''Status Stage'', ''Isoch'',
    ''Link'', ''EventData'', ''No-Op'', ''Enable Slot Command'', ''Disable Slot Command'',
    ''Address Device Command'', ''Configure Endpoint Command'', ''Evaluate Context Command'',
    ''Reset Endpoint Command'', ''Stop Endpoint Command'', ''Set TR Dequeue Pointer Command'',
    ''Reset Device Command'', ''Force Event Command'', ''Negotiate Bandwidth Command'',
    ''Set Latency Tolerance Value Command'', ''Get Port Bandwidth Command'',
    ''Force Header Command'', ''No Op Command'', ''Reserved'', ''Reserved'', ''Reserved'',
    ''Reserved'', ''Reserved'', ''Reserved'', ''Reserved'', ''Reserved'', ''Transfer Event'',
    ''Command Completion Event'', ''Port Status Change Event'', ''Bandwidth Request Event'',
    ''Doorbell Event'', ''Host Controller Event'', ''Device Notification Event'',
    ''MFINDEX Wrap Event'', ''Reserved'', ''Reserved'', ''Reserved'', ''Reserved'', ''Reserved'',
    ''Reserved'', ''Reserved'', ''Reserved'', ''Vendor Defined'', ''Vendor Defined'',
    ''Vendor Defined'', ''Vendor Defined'', ''Vendor Defined'', ''Vendor Defined'',
    ''Vendor Defined'', ''Vendor Defined'', ''Vendor Defined'', ''Vendor Defined'',
    ''Vendor Defined'', ''Vendor Defined'', ''Vendor Defined'', ''Vendor Defined'',
    ''Vendor Defined'', ''Vendor Defined'']"

section \<open>Constructors and pointers\<close>

definition normal_trb_new :: trb where
  "normal_trb_new = trb_blank NormalTrb"

definition normal_trb_pointer :: "trb \<Rightarrow> u64" where
  "normal_trb_pointer t = ucast (field_get normal_trb_layout ''data_buffer_pointer'' t)"

definition normal_trb_set_pointer :: "u64 \<Rightarrow> trb \<Rightarrow> trb" where
  "normal_trb_set_pointer p t = field_set normal_trb_layout ''data_buffer_pointer'' (ucast p) t"

definition setup_stage_trb_new :: trb where
  "setup_stage_trb_new =
    field_set setup_stage_trb_layout ''trb_transfer_length'' 8
      (field_set setup_stage_trb_layout ''immediate_data'' 1 (trb_blank SetupStageTrb))"

definition kNoDataStage :: trb where
  "kNoDataStage = 0"

definition kOutDataStage :: trb where
  "kOutDataStage = 2"

definition kInDataStage :: trb where
  "kInDataStage = 3"

definition data_stage_trb_new :: trb where
  "data_stage_trb_new = trb_blank DataStageTrb"

definition data_stage_trb_pointer :: "trb \<Rightarrow> u64" where
  "data_stage_trb_pointer t = ucast (field_get data_stage_trb_layout ''data_buffer_pointer'' t)"

definition data_stage_trb_set_pointer :: "u64 \<Rightarrow> trb \<Rightarrow> trb" where
  "data_stage_trb_set_pointer p t = field_set data_stage_trb_layout ''data_buffer_pointer'' (ucast p) t"

definition status_stage_trb_new :: trb where
  "status_stage_trb_new = trb_blank StatusStageTrb"

definition link_trb_pointer :: "trb \<Rightarrow> u64" where
  "link_trb_pointer t = push_bit 4 (ucast (field_get link_trb_layout ''ring_segment_pointer'' t))"

definition link_trb_set_pointer :: "u64 \<Rightarrow> trb \<Rightarrow> trb" where
  "link_trb_set_pointer p t = field_set link_trb_layout ''ring_segment_pointer'' (ucast (drop_bit 4 p)) t"

definition link_trb_new :: "u64 \<Rightarrow> trb" where
  "link_trb_new ring_segment_pointer = link_trb_set_pointer ring_segment_pointer (trb_blank LinkTrb)"

definition no_op_trb_new :: trb where
  "no_op_trb_new = trb_blank NoOpTrb"

definition enable_slot_command_trb_new :: trb where
  "enable_slot_command_trb_new = trb_blank EnableSlotCommandTrb"

definition address_device_command_trb_pointer :: "trb \<Rightarrow> u64" where
  "address_device_command_trb_pointer t =
    push_bit 4 (ucast (field_get address_device_command_trb_layout ''input_context_pointer'' t))"

definition address_device_command_trb_set_pointer :: "u64 \<Rightarrow> trb \<Rightarrow> trb" where
  "address_device_command_trb_set_pointer p t =
    field_set address_device_command_trb_layout ''input_context_pointer'' (ucast (drop_bit 4 p)) t"

definition address_device_command_trb_new :: "u64 \<Rightarrow> u8 \<Rightarrow> trb" where
  "address_device_command_trb_new input_context slot_id =
    address_device_command_trb_set_pointer input_context
      (field_set address_device_command_trb_layout ''slot_id'' (ucast slot_id)
        (trb_blank AddressDeviceCommandTrb))"

definition configure_endpoint_command_trb_pointer :: "trb \<Rightarrow> u64" where
  "configure_endpoint_command_trb_pointer t =
    push_bit 4 (ucast (field_get configure_endpoint_command_trb_layout ''input_context_pointer'' t))"

definition configure_endpoint_command_trb_set_pointer :: "u64 \<Rightarrow> trb \<Rightarrow> trb" where
  "configure_endpoint_command_trb_set_pointer p t =
    field_set configure_endpoint_command_trb_layout ''input_context_pointer'' (ucast (drop_bit 4 p)) t"

definition configure_endpoint_command_trb_new :: "u64 \<Rightarrow> u8 \<Rightarrow> trb" where
  "configure_endpoint_command_trb_new input_context slot_id =
    configure_endpoint_command_trb_set_pointer input_context
      (field_set configure_endpoint_command_trb_layout ''slot_id'' (ucast slot_id)
        (trb_blank ConfigureEndpointCommandTrb))"

definition stop_endpoint_command_trb_new :: "nat \<Rightarrow> u8 \<Rightarrow> trb" where
  "stop_endpoint_command_trb_new ep_id slot_id =
    field_set stop_endpoint_command_trb_layout ''slot_id'' (ucast slot_id)
      (field_set stop_endpoint_command_trb_layout ''endpoint_id'' (of_nat ep_id)
        (trb_blank StopEndpointCommandTrb))"

definition no_op_command_trb_new :: trb where
  "no_op_command_trb_new = trb_blank NoOpCommandTrb"

definition transfer_event_trb_pointer :: "trb \<Rightarrow> u64" where
  "transfer_event_trb_pointer t = ucast (field_get transfer_event_trb_layout ''trb_pointer'' t)"

definition transfer_event_trb_set_pointer :: "u64 \<Rightarrow> trb \<Rightarrow> trb" where
  "transfer_event_trb_set_pointer p t = field_set transfer_event_trb_layout ''trb_pointer'' (ucast p) t"

definition transfer_event_trb_endpoint :: "trb \<Rightarrow> nat" where
  "transfer_event_trb_endpoint t = unat (field_get transfer_event_trb_layout ''endpoint_id'' t)"

definition command_completion_event_trb_pointer :: "trb \<Rightarrow> u64" where
  "command_completion_event_trb_pointer t =
    push_bit 4 (ucast (field_get command_completion_event_trb_layout ''command_trb_pointer'' t))"

definition command_completion_event_trb_set_pointer :: "u64 \<Rightarrow> trb \<Rightarrow> trb" where
  "command_completion_event_trb_set_pointer p t =
    field_set command_completion_event_trb_layout ''command_trb_pointer'' (ucast (drop_bit 4 p)) t"

section \<open>One type field for all kinds\<close>

lemmas layout_defs =
  normal_trb_layout_def setup_stage_trb_layout_def data_stage_trb_layout_def status_stage_trb_layout_def
  link_trb_layout_def no_op_trb_layout_def enable_slot_command_trb_layout_def
  address_device_command_trb_layout_def configure_endpoint_command_trb_layout_def
  stop_endpoint_command_trb_layout_def no_op_command_trb_layout_def transfer_event_trb_layout_def
  command_completion_event_trb_layout_def port_status_change_event_trb_layout_def

lemma trb_type_pos: "field_pos (layout_of k) ''trb_type'' = Some (106, 6)"
  by (cases k) (simp_all add: layout_defs)

lemma cycle_bit_pos: "field_pos (layout_of k) ''cycle_bit'' = Some (96, 1)"
  by (cases k) (simp_all add: layout_defs)

lemma trb_pos: "field_pos trb_layout ''trb_type'' = Some (106, 6)" "field_pos trb_layout ''cycle_bit'' = Some (96, 1)"
  by (simp_all add: trb_layout_def)

lemma layout_width_trb: "layout_width (layout_of k) \<le> 128"
  by (cases k) (simp_all add: layout_defs layout_width_def)

lemma trb_type_code_inject: "trb_type_code k = trb_type_code k' \<longleftrightarrow> k = k'"
  by (cases k; cases k') simp_all

lemma trb_type_code_6: "take_bit 6 (trb_type_code k) = trb_type_code k"
  by (cases k) simp_all

lemma trb_dynamic_cast_alt:
  "trb_dynamic_cast k' t = (if trb_type_code k' = field_get (layout_of k) ''trb_type'' t then Some t else None)"
  by (simp add: trb_dynamic_cast_def field_get_def trb_pos trb_type_pos)

lemma trb_blank_type: "field_get (layout_of k) ''trb_type'' (trb_blank k) = trb_type_code k"
  unfolding trb_blank_def
  by (subst field_get_set_same [OF trb_type_pos]) (simp_all add: layout_width_trb trb_type_code_6)

text \<open>
  \<open>TRBDynamicCast\<close> tells the kinds of blocks apart.  Whatever is written to the other fields of a
  block after its construction, the cast to its own kind yields it and the cast to every other kind
  yields the null pointer.
\<close>

theorem trb_dynamic_cast_exact:
  assumes "''trb_type'' \<notin> fst ` set ws"
  shows "trb_dynamic_cast k' (fields_set (layout_of k) ws (trb_blank k)) =
    (if k' = k then Some (fields_set (layout_of k) ws (trb_blank k)) else None)"
  unfolding trb_dynamic_cast_alt [of k' _ k] fields_set_other [OF assms] trb_blank_type
  by (simp add: trb_type_code_inject)

theorem trb_dynamic_cast_exact_witness:
  "trb_dynamic_cast LinkTrb (fields_set (layout_of NormalTrb) [(''td_size'', 3)] (trb_blank NormalTrb)) = None"
  using trb_dynamic_cast_exact [of "[(''td_size'', 3)]" LinkTrb NormalTrb] by simp

section \<open>Pointers\<close>

lemma pointer_shift:
  "take_bit 4 p = 0 \<Longrightarrow> push_bit 4 (ucast (take_bit 60 (ucast (drop_bit 4 p) :: trb))) = p" for p :: u64
proof -
  assume z: "take_bit 4 p = 0"
  have low: "\<not> bit p i" if "i < 4" for i
  proof -
    have "bit (take_bit 4 p) i \<longleftrightarrow> bit p i" using that by (simp add: bit_take_bit_iff)
    then show ?thesis unfolding z by simp
  qed
  show ?thesis
  proof (rule bit_word_eqI)
    fix n :: nat
    show "bit (push_bit 4 (ucast (take_bit 60 (ucast (drop_bit 4 p) :: trb))) :: u64) n \<longleftrightarrow> bit p n"
      using low [of n] bit_imp_le_length [of p n] by (cases "n < 4") (auto simp: bit_simps)
  qed
qed

lemma pointer_whole: "ucast (take_bit 64 (ucast p :: trb)) = p" for p :: u64
  by (rule bit_word_eqI) (simp add: bit_simps)

lemma pointer_pos:
  "field_pos normal_trb_layout ''data_buffer_pointer'' = Some (0, 64)"
  "field_pos data_stage_trb_layout ''data_buffer_pointer'' = Some (0, 64)"
  "field_pos link_trb_layout ''ring_segment_pointer'' = Some (4, 60)"
  "field_pos address_device_command_trb_layout ''input_context_pointer'' = Some (4, 60)"
  "field_pos configure_endpoint_command_trb_layout ''input_context_pointer'' = Some (4, 60)"
  "field_pos transfer_event_trb_layout ''trb_pointer'' = Some (0, 64)"
  "field_pos command_completion_event_trb_layout ''command_trb_pointer'' = Some (4, 60)"
  by (simp_all add: layout_defs)

text \<open>
  The pointer a block is given is the pointer it yields: any address for data buffers and
  transfer events, and an address that is a multiple of 16 for ring segments, contexts and completed
  commands, whose low bits the block does not keep.
\<close>

theorem trb_pointer_roundtrip:
  "normal_trb_pointer (normal_trb_set_pointer p t) = p
    \<and> data_stage_trb_pointer (data_stage_trb_set_pointer p t) = p
    \<and> transfer_event_trb_pointer (transfer_event_trb_set_pointer p t) = p
    \<and> (take_bit 4 p = 0 \<longrightarrow> link_trb_pointer (link_trb_set_pointer p t) = p
      \<and> address_device_command_trb_pointer (address_device_command_trb_set_pointer p t) = p
      \<and> configure_endpoint_command_trb_pointer (configure_endpoint_command_trb_set_pointer p t) = p
      \<and> command_completion_event_trb_pointer (command_completion_event_trb_set_pointer p t) = p)"
  by (simp add: normal_trb_pointer_def normal_trb_set_pointer_def data_stage_trb_pointer_def
      data_stage_trb_set_pointer_def transfer_event_trb_pointer_def transfer_event_trb_set_pointer_def
      link_trb_pointer_def link_trb_set_pointer_def address_device_command_trb_pointer_def
      address_device_command_trb_set_pointer_def configure_endpoint_command_trb_pointer_def
      configure_endpoint_command_trb_set_pointer_def command_completion_event_trb_pointer_def
      command_completion_event_trb_set_pointer_def field_get_def field_set_def pointer_pos pointer_whole
      pointer_shift)

theorem trb_pointer_roundtrip_witness:
  "link_trb_pointer (link_trb_new 0x12340) = 0x12340"
  using trb_pointer_roundtrip [of "0x12340" "trb_blank LinkTrb"] by (simp add: link_trb_new_def)

end
