(* ===== verification/Xhci_Registers.thy ===== *)
theory Xhci_Registers
  imports Bit_Layout
begin

text \<open>
  Registers of the xHCI host controller: \<open>Kernel/usb/xhci/registers.hpp\<close>, \<open>registers.cpp\<close> and the
  accessors of \<open>Kernel/register.hpp\<close>.  A bitmap is the register's integer under a layout.
\<close>

section \<open>Bitmaps\<close>

definition hcsparams1_layout :: layout where
  "hcsparams1_layout =
   [(''max_device_slots'', 8), (''max_interrupters'', 11), ('''', 5), (''max_ports'', 8)]"

definition hcsparams2_layout :: layout where
  "hcsparams2_layout =
   [(''isochronous_scheduling_threshold'', 4), (''event_ring_segment_table_max'', 4),
    ('''', 13), (''max_scratchpad_buffers_high'', 5), (''scratchpad_restore'', 1),
    (''max_scratchpad_buffers_low'', 5)]"

definition hcsparams3_layout :: layout where
  "hcsparams3_layout =
   [(''u1_device_eixt_latency'', 8), ('''', 8), (''u2_device_eixt_latency'', 16)]"

definition hccparams1_layout :: layout where
  "hccparams1_layout =
   [(''addressing_capability_64'', 1), (''bw_negotiation_capability'', 1),
    (''context_size'', 1), (''port_power_control'', 1), (''port_indicators'', 1),
    (''light_hc_reset_capability'', 1), (''latency_tolerance_messaging_capability'', 1),
    (''no_secondary_sid_support'', 1), (''parse_all_event_data'', 1),
    (''stopped_short_packet_capability'', 1), (''stopped_edtla_capability'', 1),
    (''contiguous_frame_id_capability'', 1), (''maximum_primary_stream_array_size'', 4),
    (''xhci_extended_capabilities_pointer'', 16)]"

definition dboff_layout :: layout where
  "dboff_layout =
   [('''', 2), (''doorbell_array_offset'', 30)]"

definition rtsoff_layout :: layout where
  "rtsoff_layout =
   [('''', 5), (''runtime_register_space_offset'', 27)]"

definition hccparams2_layout :: layout where
  "hccparams2_layout =
   [(''u3_entry_capability'', 1),
    (''configure_endpoint_command_max_exit_latency_too_large_capability'', 1),
    (''force_save_context_capability'', 1), (''compliance_transition_capability'', 1),
    (''large_esit_payload_capability'', 1), (''configuration_information_capability'', 1),
    ('''', 26)]"

definition usbcmd_layout :: layout where
  "usbcmd_layout =
   [(''run_stop'', 1), (''host_controller_reset'', 1), (''interrupter_enable'', 1),
    (''host_system_error_enable'', 1), ('''', 3), (''lignt_host_controller_reset'', 1),
    (''controller_save_state'', 1), (''controller_restore_state'', 1),
    (''enable_wrap_event'', 1), (''enable_u3_mfindex_stop'', 1),
    (''stopped_short_packet_enable'', 1), (''cem_enable'', 1), ('''', 18)]"

definition usbsts_layout :: layout where
  "usbsts_layout =
   [(''host_controller_halted'', 1), ('''', 1), (''host_system_error'', 1),
    (''event_interrupt'', 1), (''port_change_detect'', 1), ('''', 3),
    (''save_state_status'', 1), (''restore_state_status'', 1), (''save_restore_error'', 1),
    (''controller_not_ready'', 1), (''host_controller_error'', 1), ('''', 19)]"

definition crcr_layout :: layout where
  "crcr_layout =
   [(''ring_cycle_state'', 1), (''command_stop'', 1), (''command_abort'', 1),
    (''command_ring_running'', 1), ('''', 2), (''command_ring_pointer'', 58)]"

definition dcbaap_layout :: layout where
  "dcbaap_layout =
   [('''', 6), (''device_context_base_address_array_pointer'', 26)]"

definition config_layout :: layout where
  "config_layout =
   [(''max_device_slots_enabled'', 8), (''u3_entry_enable'', 1),
    (''configuration_information_enable'', 1), ('''', 22)]"

definition portsc_layout :: layout where
  "portsc_layout =
   [(''current_connect_status'', 1), (''port_enabled_disabled'', 1), ('''', 1),
    (''over_current_active'', 1), (''port_reset'', 1), (''port_link_state'', 4),
    (''port_power'', 1), (''port_speed'', 4), (''port_indicator_control'', 2),
    (''port_link_state_write_strobe'', 1), (''connect_status_change'', 1),
    (''port_enabled_disabled_change'', 1), (''warm_port_reset_change'', 1),
    (''over_current_change'', 1), (''port_reset_change'', 1), (''port_link_state_change'', 1),
    (''port_config_error_change'', 1), (''cold_attach_status'', 1),
    (''wake_on_connect_enable'', 1), (''wake_on_disconnect_enable'', 1),
    (''wake_on_over_current_enable'', 1), ('''', 2), (''device_removable'', 1),
    (''warm_port_reset'', 1)]"

definition portpmsc_layout :: layout where
  "portpmsc_layout =
   [(''u1_timeout'', 8), (''u2_timeout'', 8), (''force_link_pm_accept'', 1), ('''', 15)]"

definition portli_layout :: layout where
  "portli_layout =
   [(''link_error_count'', 16), (''rx_lane_count'', 4), (''tx_lane_count'', 4), ('''', 8)]"

definition porthlpmc_layout :: layout where
  "porthlpmc_layout =
   [(''host_initiated_resume_duration_mode'', 2), (''l1_timeout'', 8),
    (''best_effort_service_latency_deep'', 4), ('''', 18)]"

definition iman_layout :: layout where
  "iman_layout =
   [(''interrupt_pending'', 1), (''interrupt_enable'', 1), ('''', 30)]"

definition imod_layout :: layout where
  "imod_layout =
   [(''interrupt_moderation_interval'', 16), (''interrupt_moderation_counter'', 16)]"

definition erstsz_layout :: layout where
  "erstsz_layout =
   [(''event_ring_segment_table_size'', 16), ('''', 16)]"

definition erstba_layout :: layout where
  "erstba_layout =
   [('''', 6), (''event_ring_segment_table_base_address'', 58)]"

definition erdp_layout :: layout where
  "erdp_layout =
   [(''dequeue_erst_segment_index'', 3), (''event_handler_busy'', 1),
    (''event_ring_dequeue_pointer'', 60)]"

definition doorbell_layout :: layout where
  "doorbell_layout =
   [(''db_target'', 8), ('''', 8), (''db_stream_id'', 16)]"

definition extended_register_layout :: layout where
  "extended_register_layout =
   [(''capability_id'', 8), (''next_pointer'', 8), (''value'', 16)]"

definition usblegsup_layout :: layout where
  "usblegsup_layout =
   [(''capability_id'', 8), (''next_pointer'', 8), (''hc_bios_owned_semaphore'', 1), ('''', 7),
    (''hc_os_owned_semaphore'', 1), ('''', 7)]"

section \<open>Offsets and pointers\<close>

definition dboff_offset :: "u32 \<Rightarrow> u32" where
  "dboff_offset w = push_bit 2 (field_get dboff_layout ''doorbell_array_offset'' w)"

definition rtsoff_offset :: "u32 \<Rightarrow> u32" where
  "rtsoff_offset w = push_bit 5 (field_get rtsoff_layout ''runtime_register_space_offset'' w)"

definition crcr_pointer :: "u64 \<Rightarrow> u64" where
  "crcr_pointer w = push_bit 6 (field_get crcr_layout ''command_ring_pointer'' w)"

definition crcr_set_pointer :: "u64 \<Rightarrow> u64 \<Rightarrow> u64" where
  "crcr_set_pointer v w = field_set crcr_layout ''command_ring_pointer'' (drop_bit 6 v) w"

text \<open>A field of 26 bits is promoted to \<open>int\<close> before it is shifted, so bit 31 becomes a sign.\<close>

definition dcbaap_pointer :: "u64 \<Rightarrow> u64" where
  "dcbaap_pointer w =
    scast (push_bit 6 (ucast (field_get dcbaap_layout ''device_context_base_address_array_pointer'' w) :: u32))"

definition dcbaap_set_pointer :: "u64 \<Rightarrow> u64 \<Rightarrow> u64" where
  "dcbaap_set_pointer v w =
    field_set dcbaap_layout ''device_context_base_address_array_pointer'' (drop_bit 6 v) w"

definition erstsz_set_size :: "u16 \<Rightarrow> u32 \<Rightarrow> u32" where
  "erstsz_set_size v w = field_set erstsz_layout ''event_ring_segment_table_size'' (ucast v) w"

definition erstba_pointer :: "u64 \<Rightarrow> u64" where
  "erstba_pointer w = push_bit 6 (field_get erstba_layout ''event_ring_segment_table_base_address'' w)"

definition erstba_set_pointer :: "u64 \<Rightarrow> u64 \<Rightarrow> u64" where
  "erstba_set_pointer v w =
    field_set erstba_layout ''event_ring_segment_table_base_address'' (drop_bit 6 v) w"

definition erdp_pointer :: "u64 \<Rightarrow> u64" where
  "erdp_pointer w = push_bit 4 (field_get erdp_layout ''event_ring_dequeue_pointer'' w)"

definition erdp_set_pointer :: "u64 \<Rightarrow> u64 \<Rightarrow> u64" where
  "erdp_set_pointer v w = field_set erdp_layout ''event_ring_dequeue_pointer'' (drop_bit 4 v) w"

text \<open>\<open>DoorbellRegister::Ring\<close>: the value written to the register.\<close>

definition doorbell_ring :: "u8 \<Rightarrow> u16 \<Rightarrow> u32" where
  "doorbell_ring target stream_id =
    field_set doorbell_layout ''db_stream_id'' (ucast stream_id)
      (field_set doorbell_layout ''db_target'' (ucast target) 0)"

text \<open>
  \<open>MemMapRegister\<close> copies a value word by word; a register of one word is read and written whole.
\<close>

definition reg_read :: "'a list \<Rightarrow> 'a list" where
  "reg_read value = map (\<lambda>i. value ! i) [0..<length value]"

fun reg_write :: "nat \<Rightarrow> 'a list \<Rightarrow> 'a list \<Rightarrow> 'a list" where
  "reg_write 0 v value = value"
| "reg_write (Suc n) v value = (reg_write n v value)[n := v ! n]"

section \<open>Extended capabilities\<close>

text \<open>
  The list of extended registers: a register address and the step to the next, \<open>None\<close> for the null
  pointer at the end.  \<open>mem\<close> reads a 32-bit register; offsets count registers of 4 bytes.
\<close>

definition add_or_null :: "u64 \<Rightarrow> u32 \<Rightarrow> u64 option" where
  "add_or_null p d = (if d = 0 then None else Some (p + 4 * ucast d))"

definition extended_next :: "(u64 \<Rightarrow> u32) \<Rightarrow> u64 option \<Rightarrow> u64 option" where
  "extended_next mem r =
    (case r of None \<Rightarrow> None
     | Some a \<Rightarrow> add_or_null a (field_get extended_register_layout ''next_pointer'' (mem a)))"

definition extended_first :: "u64 \<Rightarrow> u32 \<Rightarrow> u64 option" where
  "extended_first mmio_base hccp =
    add_or_null mmio_base (field_get hccparams1_layout ''xhci_extended_capabilities_pointer'' hccp)"

section \<open>Pointers that survive a register\<close>

lemma register_pointer_pos:
  "field_pos crcr_layout ''command_ring_pointer'' = Some (6, 58)"
  "field_pos dcbaap_layout ''device_context_base_address_array_pointer'' = Some (6, 26)"
  "field_pos erstba_layout ''event_ring_segment_table_base_address'' = Some (6, 58)"
  "field_pos erdp_layout ''event_ring_dequeue_pointer'' = Some (4, 60)"
  by (simp_all add: crcr_layout_def dcbaap_layout_def erstba_layout_def erdp_layout_def)

lemma take_bit_low:
  fixes p :: "'a::len word"
  assumes "take_bit n p = 0" and "i < n"
  shows "\<not> bit p i"
proof -
  have "bit (take_bit n p) i \<longleftrightarrow> bit p i" using assms(2) by (simp add: bit_take_bit_iff)
  then show ?thesis unfolding assms(1) by simp
qed

lemma shift_pointer:
  fixes p :: u64
  assumes "take_bit n p = 0" and "n + m \<le> 64"
  shows "push_bit n (take_bit m (drop_bit n p)) = take_bit (n + m) p"
proof (rule bit_word_eqI)
  fix i :: nat
  show "bit (push_bit n (take_bit m (drop_bit n p))) i \<longleftrightarrow> bit (take_bit (n + m) p) i"
    using take_bit_low [OF assms(1), of i] bit_imp_le_length [of p i] by (cases "i < n") (auto simp: bit_simps)
qed

lemma ucast_push_take_bit:
  fixes p :: u64
  assumes "take_bit 6 p = 0"
  shows "push_bit 6 (ucast (take_bit 26 (drop_bit 6 p)) :: u32) = ucast p"
proof (rule bit_word_eqI)
  fix i :: nat
  assume "i < LENGTH(32)"
  then show "bit (push_bit 6 (ucast (take_bit 26 (drop_bit 6 p)) :: u32)) i \<longleftrightarrow> bit (ucast p :: u32) i"
    using take_bit_low [OF assms(1), of i] by (cases "i < 6") (auto simp: bit_simps)
qed

lemma take_bit_64: "take_bit 64 p = p" for p :: u64
  by (rule bit_word_eqI) (simp add: bit_simps)

text \<open>
  The command ring, the event ring's segment table and the event ring's dequeue pointer are kept
  by their registers at any address with the alignment the registers need.  The register of the
  device context array keeps bits 6 to 31 of its address only: its field is declared with 26 bits in
  place of 58, so an array at or above 4 GiB is programmed at another address, and one at or above
  2 GiB is read back with its sign extended.
\<close>

theorem register_pointer_roundtrip:
  "(take_bit 6 p = 0 \<longrightarrow> crcr_pointer (crcr_set_pointer p w) = p
      \<and> erstba_pointer (erstba_set_pointer p w) = p
      \<and> field_get dcbaap_layout ''device_context_base_address_array_pointer'' (dcbaap_set_pointer p w)
        = take_bit 26 (drop_bit 6 p)
      \<and> dcbaap_pointer (dcbaap_set_pointer p w) = scast (ucast p :: u32))
    \<and> (take_bit 4 p = 0 \<longrightarrow> erdp_pointer (erdp_set_pointer p w) = p)"
  using shift_pointer [of 6 p 58] ucast_push_take_bit [of p] shift_pointer [of 4 p 60]
  by (simp add: crcr_pointer_def crcr_set_pointer_def erstba_pointer_def erstba_set_pointer_def
      dcbaap_pointer_def dcbaap_set_pointer_def erdp_pointer_def erdp_set_pointer_def
      field_get_def field_set_def register_pointer_pos take_bit_64)

theorem register_pointer_roundtrip_witness:
  "dcbaap_pointer (dcbaap_set_pointer 0x100000040 0) = 0x40
    \<and> dcbaap_pointer (dcbaap_set_pointer 0x80000040 0) = 0xffffffff80000040 \<and> erdp_pointer (erdp_set_pointer 0x100000040 8) = 0x100000040"
  using register_pointer_roundtrip [of "0x100000040" 0] register_pointer_roundtrip [of "0x100000040" 8]
    register_pointer_roundtrip [of "0x80000040" 0]
  by (simp add: take_bit_eq_mod)

end
