(* ===== verification/Usb_Memory.thy ===== *)
theory Usb_Memory
  imports Kernel_Prelude
begin

text \<open>
  Memory of the USB driver: the bump allocator of \<open>Kernel/usb/memory.hpp\<close> and \<open>memory.cpp\<close>, and the
  fixed-size map of \<open>Kernel/usb/arraymap.hpp\<close>.

  \<open>pool\<close> is the address of \<open>memory_pool\<close>, the state is \<open>alloc_ptr\<close>; the null pointer is \<open>None\<close>.
\<close>

section \<open>The allocator\<close>

definition kMemoryPoolSize :: u64 where
  "kMemoryPoolSize = 4096 * 32"

definition ceil_to :: "u64 \<Rightarrow> u32 \<Rightarrow> u64" where
  "ceil_to v alignment = (v + ucast alignment - 1) AND NOT (ucast (alignment - 1))"

definition alloc_mem :: "u64 \<Rightarrow> u64 \<Rightarrow> u32 \<Rightarrow> u32 \<Rightarrow> u64 \<Rightarrow> u64 option \<times> u64" where
  "alloc_mem pool sz alignment boundary alloc_ptr =
    (let p1 = (if 0 < alignment then ceil_to alloc_ptr alignment else alloc_ptr);
         p2 = (if 0 < boundary \<and> ceil_to p1 boundary < p1 + sz then ceil_to p1 boundary else p1)
     in if pool + kMemoryPoolSize < p2 + sz then (None, p2) else (Some p2, p2 + sz))"

text \<open>\<open>AllocArray<T>\<close> for objects of \<open>obj\<close> bytes.\<close>

definition alloc_array :: "u64 \<Rightarrow> u64 \<Rightarrow> u64 \<Rightarrow> u32 \<Rightarrow> u32 \<Rightarrow> u64 \<Rightarrow> u64 option \<times> u64" where
  "alloc_array pool obj n alignment boundary = alloc_mem pool (obj * n) alignment boundary"

text \<open>\<open>FreeMem\<close> gives nothing back.\<close>

definition free_mem :: "u64 \<Rightarrow> u64 \<Rightarrow> u64" where
  "free_mem p alloc_ptr = alloc_ptr"

section \<open>Rounding up\<close>

lemma unat_pow2: "n < LENGTH('a) \<Longrightarrow> unat (2 ^ n :: 'a::len word) = 2 ^ n"
proof -
  assume n: "n < LENGTH('a)"
  then have "unat (1 :: 'a word) * 2 ^ n < 2 ^ LENGTH('a)" by simp
  from shift_left_unat [OF this] show ?thesis by (simp add: push_bit_eq_mult)
qed

lemma unat_pow2_minus_1: "n < 32 \<Longrightarrow> (ucast ((2 ^ n :: u32) - 1) :: u64) = mask n"
proof -
  assume "n < 32"
  have "(2 ^ n :: u32) - 1 = mask n" by (simp add: mask_eq_exp_minus_1)
  then show ?thesis using \<open>n < 32\<close> by (simp add: ucast_mask_eq min_def)
qed

lemma ceil_to_pow2:
  assumes n: "n < 32" and v: "unat v + 2 ^ n \<le> 2 ^ 64"
  shows "unat (ceil_to v (2 ^ n)) = (unat v + 2 ^ n - 1) div 2 ^ n * 2 ^ n"
proof -
  have "(ucast (2 ^ n :: u32) :: u64) = 2 ^ n" by (rule bit_word_eqI) (use n in \<open>auto simp: bit_simps\<close>)
  then have u: "(ucast (2 ^ n :: u32) :: u64) - 1 = mask n" by (simp add: mask_eq_exp_minus_1)
  have e1: "v + ucast (2 ^ n :: u32) - 1 = v + mask n" using u by (simp add: add_diff_eq [symmetric])
  have m: "unat (mask n :: u64) = 2 ^ n - 1"
    using unat_sub_no_wrap [of 1 "2 ^ n :: u64"] n by (simp add: unat_pow2 mask_eq_exp_minus_1)
  have "unat (v + mask n) = unat v + (2 ^ n - 1)"
    using v m by (intro trans [OF unat_add_no_wrap]) (simp_all add: Suc_le_eq)
  then have e2: "unat (v + mask n) = unat v + 2 ^ n - 1" by simp
  show ?thesis
    by (simp only: ceil_to_def unat_pow2_minus_1 [OF n] and_not_mask_unat e1 e2)
qed

definition round_up :: "nat \<Rightarrow> nat \<Rightarrow> nat" where
  "round_up n x = (x + 2 ^ n - 1) div 2 ^ n * 2 ^ n"

lemma round_up_dvd: "2 ^ n dvd round_up n x"
  by (simp add: round_up_def)

lemma round_up_ge: "x \<le> round_up n x" and round_up_less: "round_up n x < x + 2 ^ n"
proof -
  let ?B = "2 ^ n :: nat"
  have "(x + ?B - 1) mod ?B < ?B" by simp
  moreover have "round_up n x + (x + ?B - 1) mod ?B = x + ?B - 1"
    unfolding round_up_def by (rule div_mult_mod_eq)
  moreover have "0 < ?B" by simp
  ultimately show "x \<le> round_up n x" "round_up n x < x + 2 ^ n" by linarith+
qed

lemma round_up_le:
  assumes "x \<le> C" and "2 ^ n dvd C"
  shows "round_up n x \<le> C"
proof (rule ccontr)
  assume "\<not> ?thesis"
  then have "C < round_up n x" by simp
  moreover obtain i j where "round_up n x = 2 ^ n * i" "C = 2 ^ n * j" using round_up_dvd assms(2) by (metis dvdE)
  ultimately have "C + 2 ^ n \<le> round_up n x" by (metis Suc_leI add.commute mult_Suc_right mult_le_mono2 nat_mult_less_cancel_disj)
  with round_up_less [of n x] assms(1) show False by simp
qed

text \<open>An alignment or boundary argument: a power of two below \<open>2 ^ 32\<close>, or 0 for none.\<close>

definition pow2_arg :: "u32 \<Rightarrow> nat \<Rightarrow> bool" where
  "pow2_arg al n \<longleftrightarrow> n < 32 \<and> (al = 2 ^ n \<or> al = 0 \<and> n = 0)"

lemma pow2_pos: "n < 32 \<Longrightarrow> (0 :: u32) < 2 ^ n"
proof -
  assume "n < 32"
  then have "unat (2 ^ n :: u32) = 2 ^ n" by (simp add: unat_pow2)
  then show ?thesis by (simp add: word_less_nat_alt)
qed

lemma ceil_arg:
  assumes "pow2_arg al n" and "unat v + 2 ^ 32 \<le> 2 ^ 64"
  shows "unat (if 0 < al then ceil_to v al else v) = round_up n (unat v)"
proof (cases "al = 0")
  case True
  with assms(1) have "n = 0" using pow2_pos [of n] by (auto simp: pow2_arg_def)
  with True show ?thesis by (simp add: round_up_def)
next
  case False
  with assms(1) have n: "n < 32" "al = 2 ^ n" by (auto simp: pow2_arg_def)
  have "(2 :: nat) ^ n \<le> 2 ^ 32" using n(1) by (intro power_increasing) auto
  with assms(2) have "unat v + 2 ^ n \<le> 2 ^ 64" by simp
  from ceil_to_pow2 [OF n(1) this] n pow2_pos [OF n(1)] show ?thesis by (simp add: round_up_def)
qed

text \<open>Where a block of \<open>sz\<close> bytes is placed, on naturals.\<close>

definition place :: "nat \<Rightarrow> nat \<Rightarrow> bool \<Rightarrow> nat \<Rightarrow> nat \<Rightarrow> nat" where
  "place a b bounded sz x =
    (if bounded \<and> round_up b (round_up a x) < round_up a x + sz then round_up b (round_up a x) else round_up a x)"

lemma place_ge: "x \<le> place a b bd sz x"
  using round_up_ge [of x a] round_up_ge [of "round_up a x" b] by (simp add: place_def)

lemma place_aligned: "bd \<longrightarrow> a \<le> b \<Longrightarrow> 2 ^ a dvd place a b bd sz x"
  using round_up_dvd [of a] round_up_dvd [of b "round_up a x"] power_le_dvd [of 2 b _ a]
  by (auto simp: place_def)

lemma place_le: "x \<le> C \<Longrightarrow> 2 ^ 31 dvd C \<Longrightarrow> a < 32 \<Longrightarrow> b < 32 \<Longrightarrow> place a b bd sz x \<le> C"
  using power_le_dvd [of 2 31 C a] power_le_dvd [of 2 31 C b]
  by (auto simp: place_def intro!: round_up_le)

lemma place_one_block:
  assumes "0 < sz" and "sz \<le> 2 ^ b"
  shows "place a b True sz x div 2 ^ b = (place a b True sz x + sz - 1) div 2 ^ b"
proof -
  let ?y = "round_up a x" and ?B = "2 ^ b :: nat"
  obtain k where k: "round_up b ?y = ?B * k" using round_up_dvd by (metis dvdE)
  show ?thesis
  proof (cases "?B * k < ?y + sz")
    case True
    have "(?B * k + sz - 1) div ?B = k" using assms by (intro div_nat_eqI) (auto simp: algebra_simps)
    with True k show ?thesis by (simp add: place_def)
  next
    case False
    have "?B * k < ?y + ?B" using round_up_less [of b ?y] k by simp
    moreover have "?y < ?B * k" using False assms(1) by simp
    moreover obtain j where j: "k = Suc j" using calculation by (cases k) auto
    ultimately have "?B * j < ?y" "?y + sz \<le> ?B * j + ?B" using False by (auto simp: algebra_simps)
    then have "?y div ?B = j" "(?y + sz - 1) div ?B = j"
      using assms(1) by (auto intro!: div_nat_eqI simp: algebra_simps)
    with False k show ?thesis by (simp add: place_def)
  qed
qed

section \<open>What an allocation yields\<close>

text \<open>The allocation pointer stays at or above the pool and below the next multiple of \<open>2 ^ 31\<close>.\<close>

definition pool_ok :: "u64 \<Rightarrow> nat \<Rightarrow> u64 \<Rightarrow> bool" where
  "pool_ok pool C ptr \<longleftrightarrow>
    unat pool + unat kMemoryPoolSize \<le> C \<and> 2 ^ 31 dvd C \<and> C + 2 ^ 33 \<le> 2 ^ 64
    \<and> unat pool \<le> unat ptr \<and> unat ptr \<le> C"

lemma alloc_mem_spec:
  assumes ok: "pool_ok pool C ptr" and al: "pow2_arg al a" and bo: "pow2_arg bo b" and sz: "unat sz < 2 ^ 32"
  shows "let p = place a b (0 < bo) (unat sz) (unat ptr) in
    if p + unat sz \<le> unat pool + unat kMemoryPoolSize
    then \<exists>q. alloc_mem pool sz al bo ptr = (Some q, q + sz) \<and> unat q = p \<and> unat (q + sz) = p + unat sz
    else \<exists>q. alloc_mem pool sz al bo ptr = (None, q) \<and> unat q = p"
proof -
  have b32: "unat ptr + 2 ^ 32 \<le> 2 ^ 64" using ok by (simp add: pool_ok_def)
  have lt: "a < 32" "b < 32" using al bo by (auto simp: pow2_arg_def)
  define p1 where "p1 = (if 0 < al then ceil_to ptr al else ptr)"
  have p1: "unat p1 = round_up a (unat ptr)" unfolding p1_def by (rule ceil_arg [OF al b32])
  have "round_up a (unat ptr) \<le> C"
    using ok lt power_le_dvd [of 2 31 C a] by (intro round_up_le) (auto simp: pool_ok_def)
  then have b1: "unat p1 + 2 ^ 32 \<le> 2 ^ 64" "unat p1 + unat sz < 2 ^ 64"
    using ok sz p1 by (simp_all add: pool_ok_def)
  have s1: "unat (p1 + sz) = unat p1 + unat sz" using b1(2) by (intro unat_add_no_wrap) simp
  define p2 where "p2 = (if 0 < bo \<and> ceil_to p1 bo < p1 + sz then ceil_to p1 bo else p1)"
  have c: "0 < bo \<Longrightarrow> unat (ceil_to p1 bo) = round_up b (unat p1)" using ceil_arg [OF bo b1(1)] by simp
  have p2: "unat p2 = place a b (0 < bo) (unat sz) (unat ptr)"
    unfolding place_def p1 [symmetric] p2_def word_less_nat_alt [of "ceil_to p1 bo"] s1 by (cases "0 < bo") (simp_all add: c)
  have "place a b (0 < bo) (unat sz) (unat ptr) \<le> C"
    using ok lt by (intro place_le) (auto simp: pool_ok_def)
  then have s2: "unat (p2 + sz) = unat p2 + unat sz"
    using ok sz p2 by (intro unat_add_no_wrap) (simp add: pool_ok_def)
  have e: "unat (pool + kMemoryPoolSize) = unat pool + unat kMemoryPoolSize"
    using ok by (intro unat_add_no_wrap) (simp add: pool_ok_def)
  have am: "alloc_mem pool sz al bo ptr = (if pool + kMemoryPoolSize < p2 + sz then (None, p2) else (Some p2, p2 + sz))"
    by (simp only: alloc_mem_def Let_def p1_def p2_def)
  have "pool + kMemoryPoolSize < p2 + sz \<longleftrightarrow> \<not> unat p2 + unat sz \<le> unat pool + unat kMemoryPoolSize"
    by (simp add: word_less_nat_alt e s2 not_le)
  then show ?thesis unfolding Let_def am p2 [symmetric] by (simp add: s2)
qed

lemma alloc_mem_block:
  assumes ok: "pool_ok pool C ptr" and al: "pow2_arg al a" and bo: "pow2_arg bo b" and sz: "unat sz < 2 ^ 32"
    and r: "alloc_mem pool sz al bo ptr = (Some p, ptr')"
  shows "unat p = place a b (0 < bo) (unat sz) (unat ptr)" and "unat p + unat sz \<le> unat pool + unat kMemoryPoolSize"
    and "unat ptr' = unat p + unat sz" and "pool_ok pool C ptr'" and "unat ptr \<le> unat p"
proof -
  let ?p = "place a b (0 < bo) (unat sz) (unat ptr)"
  have c: "?p + unat sz \<le> unat pool + unat kMemoryPoolSize \<and> p + sz = ptr' \<and> unat p = ?p \<and> unat ptr' = ?p + unat sz"
    using alloc_mem_spec [OF ok al bo sz] r by (auto simp: Let_def split: if_splits)
  then show "unat p = ?p" "unat p + unat sz \<le> unat pool + unat kMemoryPoolSize" "unat ptr' = unat p + unat sz" by auto
  show "unat ptr \<le> unat p" using c place_ge by simp
  with c ok show "pool_ok pool C ptr'" by (auto simp: pool_ok_def)
qed

lemma alloc_mem_none:
  assumes ok: "pool_ok pool C ptr" and al: "pow2_arg al a" and bo: "pow2_arg bo b" and sz: "unat sz < 2 ^ 32"
    and r: "alloc_mem pool sz al bo ptr = (None, ptr')"
  shows "unat ptr \<le> unat ptr'" and "pool_ok pool C ptr'"
proof -
  let ?p = "place a b (0 < bo) (unat sz) (unat ptr)"
  have c: "unat ptr' = ?p" using alloc_mem_spec [OF ok al bo sz] r by (auto simp: Let_def split: if_splits)
  moreover have "?p \<le> C" using ok al bo by (intro place_le) (auto simp: pool_ok_def pow2_arg_def)
  ultimately show "unat ptr \<le> unat ptr'" "pool_ok pool C ptr'"
    using ok place_ge [of "unat ptr" a b "0 < bo" "unat sz"] by (auto simp: pool_ok_def)
qed

text \<open>
  A block \<open>AllocMem\<close> hands out lies in the pool, starts at a multiple of the alignment, and, when
  it is not larger than the boundary, does not cross a multiple of the boundary.
\<close>

theorem alloc_mem_placement:
  assumes "pool_ok pool C ptr" and "pow2_arg al a" and "pow2_arg bo b" and "unat sz < 2 ^ 32"
    and "alloc_mem pool sz al bo ptr = (Some p, ptr')" and "0 < bo \<longrightarrow> a \<le> b"
  shows "unat pool \<le> unat p \<and> unat p + unat sz \<le> unat pool + unat kMemoryPoolSize \<and> 2 ^ a dvd unat p
    \<and> (0 < bo \<and> 0 < unat sz \<and> unat sz \<le> 2 ^ b \<longrightarrow> unat p div 2 ^ b = (unat p + unat sz - 1) div 2 ^ b)"
proof -
  note bl = alloc_mem_block [OF assms(1-5)]
  have "unat pool \<le> unat p" using bl(5) assms(1) by (simp add: pool_ok_def)
  moreover have "2 ^ a dvd unat p" using assms(6) unfolding bl(1) by (rule place_aligned)
  moreover have "unat p div 2 ^ b = (unat p + unat sz - 1) div 2 ^ b"
    if "0 < bo" "0 < unat sz" "unat sz \<le> 2 ^ b" using place_one_block [OF that(2,3), of a "unat ptr"] bl(1) that(1) by simp
  ultimately show ?thesis using bl(2) by blast
qed

text \<open>Allocations one after the other, each with its size, alignment and boundary.\<close>

fun alloc_mem_many :: "u64 \<Rightarrow> (u64 \<times> u32 \<times> u32) list \<Rightarrow> u64 \<Rightarrow> (u64 \<times> nat) list \<times> u64" where
  "alloc_mem_many pool [] ptr = ([], ptr)"
| "alloc_mem_many pool ((sz, al, bo) # rs) ptr =
    (case alloc_mem pool sz al bo ptr of
       (None, ptr1) \<Rightarrow> alloc_mem_many pool rs ptr1
     | (Some p, ptr1) \<Rightarrow> apfst (Cons (p, unat sz)) (alloc_mem_many pool rs ptr1))"

text \<open>
  Blocks handed out one after another never overlap, and all lie in the pool; nothing that is
  freed comes back.
\<close>

theorem alloc_mem_disjoint:
  assumes "pool_ok pool C ptr"
    and "\<forall>(sz, al, bo) \<in> set rs. unat sz < 2 ^ 32 \<and> (\<exists>a. pow2_arg al a) \<and> (\<exists>b. pow2_arg bo b)"
  shows "blocks_within (unat ptr) (unat pool + unat kMemoryPoolSize) (fst (alloc_mem_many pool rs ptr))"
  using assms
proof (induction pool rs ptr rule: alloc_mem_many.induct)
  case (2 pool sz al bo rs ptr)
  then obtain a b where ab: "pow2_arg al a" "pow2_arg bo b" "unat sz < 2 ^ 32" by auto
  have rest: "\<forall>(sz, al, bo) \<in> set rs. unat sz < 2 ^ 32 \<and> (\<exists>a. pow2_arg al a) \<and> (\<exists>b. pow2_arg bo b)"
    using "2.prems"(2) by simp
  obtain r ptr1 where r: "alloc_mem pool sz al bo ptr = (r, ptr1)" by fastforce
  show ?case
  proof (cases r)
    case None
    with alloc_mem_none [OF "2.prems"(1) ab] r have "unat ptr \<le> unat ptr1" "pool_ok pool C ptr1" by auto
    with "2.IH"(1) [OF r [symmetric] None _ rest] r None show ?thesis
      by (auto intro: blocks_within_mono)
  next
    case (Some p)
    note bl = alloc_mem_block [OF "2.prems"(1) ab r [unfolded Some]]
    with "2.IH"(2) [OF r [symmetric] Some bl(4) rest] r Some show ?thesis by simp
  qed
qed simp

lemma sample_pool: "pool_ok 0x200040 (2 ^ 31) 0x200040"
  by (simp add: pool_ok_def kMemoryPoolSize_def)

lemma sample_args: "pow2_arg 64 6" "pow2_arg 4096 12" "pow2_arg 0 0"
  by (simp_all add: pow2_arg_def)

theorem alloc_mem_placement_witness:
  "\<exists>p ptr'. alloc_mem 0x200040 4000 64 4096 0x200040 = (Some p, ptr') \<and> 64 dvd unat p
    \<and> unat p div 4096 = (unat p + 3999) div 4096"
proof -
  have "alloc_mem 0x200040 4000 64 4096 0x200040 = (Some 0x200040, 0x200FE0)"
    by (simp add: alloc_mem_def ceil_to_def Let_def kMemoryPoolSize_def)
  from alloc_mem_placement [OF sample_pool sample_args(1,2) _ this] this show ?thesis by auto
qed

theorem alloc_mem_disjoint_witness:
  "blocks_within 0x200040 (0x200040 + 131072)
    (fst (alloc_mem_many 0x200040 [(100, 64, 4096), (5000, 64, 0), (200000, 0, 0)] 0x200040))"
  using alloc_mem_disjoint [OF sample_pool, of "[(100, 64, 4096), (5000, 64, 0), (200000, 0, 0)]"] sample_args
  by (auto simp: kMemoryPoolSize_def)

end
