(* ===== verification/Xhci_Ring.thy ===== *)
theory Xhci_Ring
  imports Xhci_Trb Xhci_Registers Usb_Memory
begin

text \<open>
  Command, transfer and event rings: \<open>Kernel/usb/xhci/ring.hpp\<close> and \<open>ring.cpp\<close>.

  A ring's buffer is the list of its blocks, its address is kept beside it.  The host controller at
  the other end of a ring is a consumer that follows the cycle bits and the link block.
\<close>

record ring =
  rg_base :: u64
  rg_buf :: "trb list"
  rg_size :: nat
  rg_cycle :: bool
  rg_write :: nat

text \<open>\<open>Ring::Initialize\<close>: the error, the ring and the allocation pointer.\<close>

definition ring_initialize :: "u64 \<Rightarrow> nat \<Rightarrow> u64 \<Rightarrow> error_code \<times> ring \<times> u64" where
  "ring_initialize pool buf_size ptr =
    (case alloc_array pool 16 (of_nat buf_size) 64 (64 * 1024) ptr of
       (None, ptr') \<Rightarrow>
         (KNoEnoughMemory,
          \<lparr>rg_base = 0, rg_buf = [], rg_size = buf_size, rg_cycle = True, rg_write = 0\<rparr>, ptr')
     | (Some b, ptr') \<Rightarrow>
         (KSuccess,
          \<lparr>rg_base = b, rg_buf = replicate buf_size 0, rg_size = buf_size, rg_cycle = True, rg_write = 0\<rparr>, ptr'))"

section \<open>Writing a block\<close>

text \<open>A store to \<open>data[i]\<close> of a block.\<close>

definition trb_store :: "nat \<times> u32 \<Rightarrow> trb \<Rightarrow> trb" where
  "trb_store s t = bf_set (32 * fst s) 32 (ucast (snd s)) t"

text \<open>The stores of \<open>CopyToLast\<close>, in order: the word with the cycle bit comes last.\<close>

definition copy_stores :: "bool \<Rightarrow> trb \<Rightarrow> (nat \<times> u32) list" where
  "copy_stores cycle_bit d =
    map (\<lambda>i. (i, trb_word i d)) [0, 1, 2] @
    [(3, (trb_word 3 d AND 0xFFFFFFFE) OR (if cycle_bit then 1 else 0))]"

definition copy_to_last :: "trb \<Rightarrow> ring \<Rightarrow> ring option" where
  "copy_to_last d r = do {
     t \<leftarrow> arr_get (rg_buf r) (rg_write r);
     buf \<leftarrow> arr_set (rg_buf r) (rg_write r) (fold trb_store (copy_stores (rg_cycle r) d) t);
     Some (r\<lparr>rg_buf := buf\<rparr>)
   }"

definition ring_push :: "trb \<Rightarrow> ring \<Rightarrow> (u64 \<times> ring) option" where
  "ring_push d r = do {
     r1 \<leftarrow> copy_to_last d r;
     (let trb_ptr = rg_base r + 16 * of_nat (rg_write r);
          r2 = r1\<lparr>rg_write := rg_write r + 1\<rparr>
      in if rg_write r2 = rg_size r - 1
         then do {
           r3 \<leftarrow> copy_to_last (field_set link_trb_layout ''toggle_cycle'' 1 (link_trb_new (rg_base r))) r2;
           Some (trb_ptr, r3\<lparr>rg_write := 0, rg_cycle := \<not> rg_cycle r\<rparr>)
         }
         else Some (trb_ptr, r2))
   }"

text \<open>The block as stored: the data with the ring's cycle bit.\<close>

definition with_cycle :: "bool \<Rightarrow> trb \<Rightarrow> trb" where
  "with_cycle c d = bf_set 96 1 (if c then 1 else 0) d"

lemma bit_with_cycle: "bit (with_cycle c d) i \<longleftrightarrow> (if i = 96 then c else bit d i)"
  by (auto simp: with_cycle_def bit_bf_set bit_1_iff dest: bit_imp_le_length)

lemma bit_trb_store:
  "bit (trb_store (w, v) t) i \<longleftrightarrow> i < 128 \<and> (if 32 * w \<le> i \<and> i < 32 * w + 32 then bit v (i - 32 * w) else bit t i)"
  by (auto simp: trb_store_def bit_bf_set bit_simps)

lemma bit_trb_word: "bit (trb_word w d) i \<longleftrightarrow> i < 32 \<and> bit d (32 * w + i)"
  by (auto simp: trb_word_def bit_simps bit_bf_get)

lemma bit_last_word:
  "bit ((trb_word 3 d AND 0xFFFFFFFE) OR (if c then 1 else 0)) j \<longleftrightarrow> j < 32 \<and> (if j = 0 then c else bit d (96 + j))"
proof -
  have n: "(0xFFFFFFFE :: u32) = NOT 1" by simp
  show ?thesis
    unfolding n by (simp only: bit_or_iff bit_and_iff bit_not_iff bit_1_iff bit_trb_word) (auto simp: bit_1_iff)
qed

lemma copy_stores_effect: "fold trb_store (copy_stores c d) t = with_cycle c d"
proof (rule bit_word_eqI)
  fix i assume "i < LENGTH(128)"
  then have i: "i < 128" by simp
  consider "i < 32" | "32 \<le> i" "i < 64" | "64 \<le> i" "i < 96" | "i = 96" | "96 < i" "i < 128" using i by linarith
  then show "bit (fold trb_store (copy_stores c d) t) i = bit (with_cycle c d) i"
    by cases (simp_all add: copy_stores_def bit_trb_store bit_trb_word bit_with_cycle bit_last_word
        less_diff_conv2)
qed

text \<open>
  Until the last of the four stores of \<open>CopyToLast\<close> the block's cycle bit is the one it had, so
  the controller never takes a half-written block; the last store makes the block complete.
\<close>

theorem ring_publishes_last:
  assumes "k < length (copy_stores c d)"
  shows "bit (fold trb_store (take k (copy_stores c d)) t) 96 = bit t 96
    \<and> fold trb_store (copy_stores c d) t = with_cycle c d"
proof -
  have "k \<in> {0, 1, 2, 3}" using assms by (auto simp: copy_stores_def)
  then have "bit (fold trb_store (take k (copy_stores c d)) t) 96 = bit t 96"
    by (auto simp: copy_stores_def bit_trb_store numeral_2_eq_2 numeral_3_eq_3)
  then show ?thesis using copy_stores_effect by blast
qed

theorem ring_publishes_last_witness:
  "bit (fold trb_store (take 3 (copy_stores True 5)) (with_cycle False 9)) 96 = False"
  using ring_publishes_last [of 3 True 5 "with_cycle False 9"]
  by (simp add: copy_stores_def bit_with_cycle)

lemma copy_to_last_eq:
  "rg_write r < length (rg_buf r) \<Longrightarrow>
    copy_to_last d r = Some (r\<lparr>rg_buf := (rg_buf r)[rg_write r := with_cycle (rg_cycle r) d]\<rparr>)"
  by (simp add: copy_to_last_def arr_get_def arr_set_def copy_stores_effect)

definition ring_link :: "ring \<Rightarrow> bool \<Rightarrow> trb" where
  "ring_link r c = with_cycle c (field_set link_trb_layout ''toggle_cycle'' 1 (link_trb_new (rg_base r)))"

lemma ring_push_eq:
  assumes "rg_write r + 1 < rg_size r" and "length (rg_buf r) = rg_size r"
  shows "ring_push d r = Some (rg_base r + 16 * of_nat (rg_write r),
    (let buf = (rg_buf r)[rg_write r := with_cycle (rg_cycle r) d] in
     if rg_write r + 1 = rg_size r - 1
     then r\<lparr>rg_buf := buf[rg_size r - 1 := ring_link r (rg_cycle r)], rg_write := 0, rg_cycle := \<not> rg_cycle r\<rparr>
     else r\<lparr>rg_buf := buf, rg_write := rg_write r + 1\<rparr>))"
  using assms by (auto simp: ring_push_def copy_to_last_eq Let_def ring_link_def)

section \<open>The controller's side\<close>

text \<open>
  A consumer's position and its cycle state.  It takes the block at its position when the cycle bits
  agree; a link block sends it back to the start and, when it says so, flips its cycle state.
\<close>

definition is_link :: "trb \<Rightarrow> bool" where
  "is_link t \<longleftrightarrow> field_get trb_layout ''trb_type'' t = trb_type_code LinkTrb"

definition link_toggles :: "trb \<Rightarrow> bool" where
  "link_toggles t \<longleftrightarrow> field_get link_trb_layout ''toggle_cycle'' t \<noteq> 0"

definition consumer_step :: "trb list \<Rightarrow> nat \<times> bool \<Rightarrow> (trb \<times> nat \<times> bool) option" where
  "consumer_step buf pos =
    (let (i, ccs) = pos; t = buf ! i in
     if bit t 96 \<noteq> ccs then None
     else if is_link t
     then (let ccs' = (ccs \<noteq> link_toggles t) in
           if bit (buf ! 0) 96 \<noteq> ccs' then None else Some (buf ! 0, 1, ccs'))
     else Some (t, i + 1, ccs))"

lemma field_get_with_cycle:
  assumes "field_pos l f = Some (lo, n)" and "\<not> (lo \<le> 96 \<and> 96 < lo + n)"
  shows "field_get l f (with_cycle c d) = field_get l f d"
  using assms by (auto simp: field_get_def with_cycle_def)

lemma is_link_with_cycle [simp]: "is_link (with_cycle c d) = is_link d"
  by (simp add: is_link_def field_get_with_cycle [OF trb_pos(1)])

lemma ring_link_facts: "is_link (ring_link r c)" "link_toggles (ring_link r c)" "bit (ring_link r c) 96 = c"
proof -
  let ?l = "field_set link_trb_layout ''toggle_cycle'' 1 (link_trb_new (rg_base r))"
  have tp: "field_pos link_trb_layout ''toggle_cycle'' = Some (97, 1)" by (simp add: link_trb_layout_def)
  have "field_get link_trb_layout ''trb_type'' ?l = trb_type_code LinkTrb"
    using trb_blank_type [of LinkTrb]
    by (simp add: field_get_set_other link_trb_new_def link_trb_set_pointer_def)
  then have "is_link ?l"
    using trb_type_pos [of LinkTrb] by (simp add: is_link_def field_get_def trb_pos)
  then show "is_link (ring_link r c)" by (simp add: ring_link_def)
  have "field_get link_trb_layout ''toggle_cycle'' ?l = 1"
    by (subst field_get_set_same [OF tp]) (simp_all add: link_trb_layout_def layout_width_def)
  then show "link_toggles (ring_link r c)"
    unfolding link_toggles_def ring_link_def by (subst field_get_with_cycle [OF tp]) simp_all
  show "bit (ring_link r c) 96 = c" by (simp add: ring_link_def bit_with_cycle)
qed

section \<open>A ring as a queue\<close>

text \<open>
  \<open>p\<close> blocks were pushed and \<open>c\<close> consumed; \<open>n\<close> is the number of slots before the link block.  The
  \<open>k\<close>-th block lies in slot \<open>k mod n\<close> and carries the cycle bit of lap \<open>k div n\<close>.
\<close>

definition lap :: "nat \<Rightarrow> nat \<Rightarrow> bool" where
  "lap n k \<longleftrightarrow> even (k div n)"

definition ring_inv :: "ring \<Rightarrow> nat \<times> bool \<Rightarrow> nat \<Rightarrow> nat \<Rightarrow> nat \<Rightarrow> trb list \<Rightarrow> bool" where
  "ring_inv r pos n p c items \<longleftrightarrow>
    2 \<le> n \<and> rg_size r = n + 1 \<and> length (rg_buf r) = n + 1 \<and> rg_write r = p mod n \<and> rg_cycle r = lap n p
    \<and> c \<le> p \<and> p < c + n \<and> length items = p - c
    \<and> (\<forall>k. c \<le> k \<and> k < p \<longrightarrow> rg_buf r ! (k mod n) = with_cycle (lap n k) (items ! (k - c)))
    \<and> (\<forall>t \<in> set items. \<not> is_link t)
    \<and> (\<forall>k. p \<le> k \<and> k < c + n \<longrightarrow> bit (rg_buf r ! (k mod n)) 96 \<noteq> lap n k)
    \<and> (n \<le> p \<longrightarrow> rg_buf r ! n = ring_link r (even (p div n - 1)))
    \<and> (pos = (c mod n, lap n c) \<or> n \<le> c \<and> c mod n = 0 \<and> pos = (n, even (c div n - 1)))"

lemma mod_slots_differ: "k \<noteq> k' \<Longrightarrow> k < k' + n \<Longrightarrow> k' < k + n \<Longrightarrow> k mod n \<noteq> k' mod n" for k k' n :: nat
proof
  assume a: "k \<noteq> k'" "k < k' + n" "k' < k + n" "k mod n = k' mod n"
  show False
  proof (cases "k \<le> k'")
    case True
    then have "n dvd k' - k" using a(4) by (metis mod_eq_dvd_iff_nat)
    with a True show False by (auto dest!: dvd_imp_le)
  next
    case False
    then have "n dvd k - k'" using a(4) by (metis mod_eq_dvd_iff_nat nat_le_linear)
    with a False show False by (auto dest!: dvd_imp_le)
  qed
qed

lemma lap_next: "0 < n \<Longrightarrow> lap n (k + n) = (\<not> lap n k)"
  by (simp add: lap_def div_add_self2)

lemma succ_mod:
  fixes k n :: nat
  assumes "2 \<le> n"
  shows "(k + 1) mod n = (if k mod n + 1 = n then 0 else k mod n + 1)"
    and "(k + 1) div n = (if k mod n + 1 = n then k div n + 1 else k div n)"
  using assms by (auto simp: mod_Suc div_Suc)

lemma ring_init_inv:
  "2 \<le> n \<Longrightarrow> ring_inv \<lparr>rg_base = b, rg_buf = replicate (n + 1) 0, rg_size = n + 1, rg_cycle = True, rg_write = 0\<rparr>
    (0, True) n 0 0 []"
  by (auto simp: ring_inv_def lap_def nth_Cons split: nat.splits)

lemma ring_push_inv:
  assumes inv: "ring_inv r pos n p c items" and room: "p + 1 < c + n" and nl: "\<not> is_link d"
  shows "\<exists>a r'. ring_push d r = Some (a, r') \<and> ring_inv r' pos n (p + 1) c (items @ [d])"
proof -
  have n: "2 \<le> n" "0 < n" and sz: "rg_size r = n + 1" "length (rg_buf r) = n + 1" and w: "rg_write r = p mod n"
    and cy: "rg_cycle r = lap n p" and cp: "c \<le> p" "length items = p - c"
    using inv by (auto simp: ring_inv_def)
  have pm: "p mod n < n" using n by simp
  let ?buf = "(rg_buf r)[p mod n := with_cycle (lap n p) d]"
  let ?wrap = "p mod n + 1 = n"
  let ?r = "if ?wrap then r\<lparr>rg_buf := ?buf[n := ring_link r (lap n p)], rg_write := 0, rg_cycle := \<not> lap n p\<rparr>
    else r\<lparr>rg_buf := ?buf, rg_write := p mod n + 1\<rparr>"
  have push: "ring_push d r = Some (rg_base r + 16 * of_nat (p mod n), ?r)"
    using ring_push_eq [of r d] w sz pm cy by (simp add: Let_def)
  have slot: "rg_buf ?r ! (k mod n) = (if k mod n = p mod n then with_cycle (lap n p) d else rg_buf r ! (k mod n))" for k
  proof -
    have "k mod n < n" using n by simp
    then have "k mod n \<noteq> n" "k mod n < n + 1" by auto
    then show ?thesis using sz by (auto simp: nth_list_update)
  qed
  have old: "rg_buf ?r ! (k mod n) = with_cycle (lap n k) ((items @ [d]) ! (k - c))" if k: "c \<le> k" "k < p + 1" for k
  proof (cases "k = p")
    case True
    then show ?thesis using slot cp by (simp add: nth_append)
  next
    case False
    then have "k mod n \<noteq> p mod n" using k room by (intro mod_slots_differ) auto
    moreover have "rg_buf r ! (k mod n) = with_cycle (lap n k) (items ! (k - c))"
      using inv k False by (simp add: ring_inv_def)
    moreover have "k - c < length items" using k False cp by auto
    ultimately show ?thesis using slot by (simp add: nth_append)
  qed
  have stale: "bit (rg_buf ?r ! (k mod n)) 96 \<noteq> lap n k" if k: "p + 1 \<le> k" "k < c + n" for k
  proof -
    have "k mod n \<noteq> p mod n" using k cp by (intro mod_slots_differ) auto
    moreover have "bit (rg_buf r ! (k mod n)) 96 \<noteq> lap n k" using inv k by (simp add: ring_inv_def)
    ultimately show ?thesis using slot by simp
  qed
  have link: "rg_buf ?r ! n = ring_link ?r (even ((p + 1) div n - 1))" if "n \<le> p + 1"
  proof (cases ?wrap)
    case True
    then show ?thesis using sz succ_mod [OF n(1), of p] by (simp add: lap_def ring_link_def)
  next
    case False
    then have "n \<le> p" using that by (cases "p + 1 = n") auto
    moreover have "p mod n \<noteq> n" using pm by simp
    ultimately show ?thesis using False inv sz succ_mod [OF n(1), of p] by (simp add: ring_inv_def ring_link_def)
  qed
  have "ring_inv ?r pos n (p + 1) c (items @ [d])"
    unfolding ring_inv_def
  proof (intro conjI)
    show "rg_write ?r = (p + 1) mod n" "rg_cycle ?r = lap n (p + 1)"
      using succ_mod [OF n(1), of p] cy by (auto simp: lap_def)
    show "pos = (c mod n, lap n c) \<or> n \<le> c \<and> c mod n = 0 \<and> pos = (n, even (c div n - 1))"
      "\<forall>t \<in> set (items @ [d]). \<not> is_link t" using inv nl by (auto simp: ring_inv_def)
  qed (use n sz room cp old stale link in auto)
  with push show ?thesis by blast
qed

text \<open>The controller looks at the slot of the block that is next, through the link block if it stands there.\<close>

lemma consumer_at:
  assumes inv: "ring_inv r pos n p c items"
  shows "consumer_step (rg_buf r) pos =
      (if bit (rg_buf r ! (c mod n)) 96 \<noteq> lap n c \<or> is_link (rg_buf r ! (c mod n)) \<and> pos = (c mod n, lap n c) then
        consumer_step (rg_buf r) pos else Some (rg_buf r ! (c mod n), c mod n + 1, lap n c))" (is ?at)
    and "bit (rg_buf r ! (c mod n)) 96 \<noteq> lap n c \<Longrightarrow> consumer_step (rg_buf r) pos = None" (is "?other \<Longrightarrow> ?none")
proof -
  have n: "2 \<le> n" "0 < n" and cp: "c \<le> p" "p < c + n"
    and pos: "pos = (c mod n, lap n c) \<or> n \<le> c \<and> c mod n = 0 \<and> pos = (n, even (c div n - 1))"
    using inv by (auto simp: ring_inv_def)
  have link: "rg_buf r ! n = ring_link r (even (c div n - 1))" if l: "n \<le> c" "c mod n = 0"
  proof -
    obtain q where q: "c = n * q" using l(2) by auto
    then have "n * q \<le> p" "p < n * q + n" using cp by simp_all
    then have "p div n = q" by (intro div_nat_eqI) (simp_all add: algebra_simps)
    with q n have "p div n = c div n" by simp
    with inv l cp show ?thesis by (simp add: ring_inv_def)
  qed
  have lapc: "lap n c = (\<not> even (c div n - 1))" if "n \<le> c"
    using that n by (cases "c div n") (auto simp: lap_def div_eq_0_iff)
  show ?at using pos link lapc ring_link_facts by (auto simp: consumer_step_def Let_def)
  show ?none if ?other using that pos link lapc ring_link_facts by (auto simp: consumer_step_def Let_def)
qed

lemma ring_consume_inv:
  assumes inv: "ring_inv r pos n p c items"
  shows "case items of
      [] \<Rightarrow> consumer_step (rg_buf r) pos = None
    | t # ts \<Rightarrow> \<exists>pos'. consumer_step (rg_buf r) pos = Some (with_cycle (lap n c) t, pos')
        \<and> ring_inv r pos' n p (c + 1) ts"
proof -
  have n: "2 \<le> n" "0 < n" and cp: "c \<le> p" "p < c + n" "length items = p - c" using inv by (auto simp: ring_inv_def)
  let ?t = "rg_buf r ! (c mod n)"
  note at = consumer_at(1) [OF inv] and none = consumer_at(2) [OF inv]
  show ?thesis
  proof (cases items)
    case Nil
    then have "p = c" using cp by simp
    then have "bit ?t 96 \<noteq> lap n c" using inv n by (simp add: ring_inv_def)
    with none Nil show ?thesis by simp
  next
    case (Cons t ts)
    then have lt: "c < p" using cp by auto
    then have tt: "?t = with_cycle (lap n c) t" using inv Cons by (auto simp: ring_inv_def)
    have "\<not> is_link t" using inv Cons by (simp add: ring_inv_def)
    then have step: "consumer_step (rg_buf r) pos = Some (with_cycle (lap n c) t, c mod n + 1, lap n c)"
      using at tt by (simp add: bit_with_cycle)
    have "bit (rg_buf r ! (k mod n)) 96 \<noteq> lap n k" if k: "p \<le> k" "k < c + 1 + n" for k
    proof (cases "k = c + n")
      case True
      then show ?thesis using tt n by (simp add: lap_next bit_with_cycle)
    next
      case False
      with inv k show ?thesis by (simp add: ring_inv_def)
    qed
    moreover have "rg_buf r ! (k mod n) = with_cycle (lap n k) (ts ! (k - (c + 1)))" if k: "c + 1 \<le> k" "k < p" for k
    proof -
      have "k - c = Suc (k - (c + 1))" using k by simp
      moreover have "rg_buf r ! (k mod n) = with_cycle (lap n k) (items ! (k - c))" using inv k by (simp add: ring_inv_def)
      ultimately show ?thesis using Cons by simp
    qed
    moreover have "(c mod n + 1, lap n c) = ((c + 1) mod n, lap n (c + 1))
        \<or> n \<le> c + 1 \<and> (c + 1) mod n = 0 \<and> (c mod n + 1, lap n c) = (n, even ((c + 1) div n - 1))"
    proof (cases "c mod n + 1 = n")
      case True
      moreover have "c mod n \<le> c" by simp
      ultimately show ?thesis using succ_mod [OF n(1), of c] by (auto simp: lap_def)
    qed (use succ_mod [OF n(1), of c] in \<open>auto simp: lap_def\<close>)
    ultimately have "ring_inv r (c mod n + 1, lap n c) n p (c + 1) ts"
      using inv Cons lt unfolding ring_inv_def by auto
    with step Cons show ?thesis by auto
  qed
qed

text \<open>
  The driver's pushes and the controller's steps in any order, \<open>None\<close> in the second list for a step
  that found nothing.  \<open>ring_ref\<close> is the same on a queue; it has no result when a push would leave
  fewer than one slot free, as the driver does not look at what the controller has taken.
\<close>

datatype ring_op = RingPush trb | RingTake

fun ring_run :: "ring_op list \<Rightarrow> ring \<Rightarrow> nat \<times> bool \<Rightarrow> trb option list option" where
  "ring_run [] r pos = Some []"
| "ring_run (RingPush d # ops) r pos = do {
     (a, r') \<leftarrow> ring_push d r;
     ring_run ops r' pos
   }"
| "ring_run (RingTake # ops) r pos =
    (case consumer_step (rg_buf r) pos of
       None \<Rightarrow> map_option (Cons None) (ring_run ops r pos)
     | Some (t, pos') \<Rightarrow> map_option (Cons (Some (with_cycle False t))) (ring_run ops r pos'))"

fun ring_ref :: "nat \<Rightarrow> ring_op list \<Rightarrow> trb list \<Rightarrow> trb option list option" where
  "ring_ref n [] items = Some []"
| "ring_ref n (RingPush d # ops) items =
    (if length items + 1 < n \<and> \<not> is_link d then ring_ref n ops (items @ [d]) else None)"
| "ring_ref n (RingTake # ops) items =
    (case items of
       [] \<Rightarrow> map_option (Cons None) (ring_ref n ops [])
     | t # ts \<Rightarrow> map_option (Cons (Some (with_cycle False t))) (ring_ref n ops ts))"

lemma with_cycle_twice [simp]: "with_cycle a (with_cycle b d) = with_cycle a d"
  by (rule bit_word_eqI) (simp add: bit_with_cycle)

lemma ring_run_ref:
  "ring_inv r pos n p c items \<Longrightarrow> ring_ref n ops items = Some outs \<Longrightarrow> ring_run ops r pos = Some outs"
proof (induction ops arbitrary: r pos p c items outs)
  case (Cons oper ops)
  show ?case
  proof (cases oper)
    case (RingPush d)
    with Cons.prems have d: "length items + 1 < n" "\<not> is_link d" "ring_ref n ops (items @ [d]) = Some outs"
      by (auto split: if_splits)
    have "p + 1 < c + n" using Cons.prems(1) d(1) by (auto simp: ring_inv_def)
    from ring_push_inv [OF Cons.prems(1) this d(2)] Cons.IH d(3) RingPush show ?thesis by fastforce
  next
    case RingTake
    show ?thesis
    proof (cases items)
      case Nil
      with Cons.prems(2) RingTake obtain z where z: "ring_ref n ops items = Some z" "outs = None # z" by auto
      from Cons.IH [OF Cons.prems(1) z(1)] ring_consume_inv [OF Cons.prems(1)] Nil RingTake z(2)
      show ?thesis by simp
    next
      case (Cons t ts)
      with ring_consume_inv [OF Cons.prems(1)] Cons.prems Cons.IH RingTake show ?thesis by auto
    qed
  qed
qed simp



section \<open>The event ring\<close>

text \<open>
  The segment table entry and the interrupter's registers; \<open>er_buf\<close> is written by the controller.
\<close>

record event_ring =
  er_base :: u64
  er_size :: nat
  er_buf :: "trb list"
  er_cycle :: bool
  er_erst :: u64
  er_seg_base :: u64
  er_seg_size :: u16
  er_erstsz :: u32
  er_erstba :: u64
  er_erdp :: u64

definition er_read_dequeue_pointer :: "event_ring \<Rightarrow> u64" where
  "er_read_dequeue_pointer e = erdp_pointer (er_erdp e)"

definition er_write_dequeue_pointer :: "u64 \<Rightarrow> event_ring \<Rightarrow> event_ring" where
  "er_write_dequeue_pointer p e = e\<lparr>er_erdp := erdp_set_pointer p (er_erdp e)\<rparr>"

text \<open>\<open>EventRing::Initialize\<close>, over the registers \<open>e\<close> holds.\<close>

definition event_ring_initialize :: "u64 \<Rightarrow> nat \<Rightarrow> event_ring \<Rightarrow> u64 \<Rightarrow> error_code \<times> event_ring \<times> u64" where
  "event_ring_initialize pool buf_size e ptr =
    (let e1 = e\<lparr>er_cycle := True, er_size := buf_size\<rparr> in
     case alloc_array pool 16 (of_nat buf_size) 64 (64 * 1024) ptr of
       (None, ptr1) \<Rightarrow> (KNoEnoughMemory, e1\<lparr>er_base := 0\<rparr>, ptr1)
     | (Some b, ptr1) \<Rightarrow>
         (let e2 = e1\<lparr>er_base := b, er_buf := replicate buf_size 0\<rparr> in
          case alloc_array pool 16 1 64 (64 * 1024) ptr1 of
            (None, ptr2) \<Rightarrow> (KNoEnoughMemory, e2\<lparr>er_erst := 0\<rparr>, free_mem b ptr2)
          | (Some t, ptr2) \<Rightarrow>
              (let e3 = e2\<lparr>er_erst := t, er_seg_base := b, er_seg_size := of_nat buf_size,
                           er_erstsz := erstsz_set_size 1 (er_erstsz e2)\<rparr>;
                   e4 = er_write_dequeue_pointer b e3
               in (KSuccess, e4\<lparr>er_erstba := erstba_set_pointer t (er_erstba e4)\<rparr>, ptr2))))"

text \<open>\<open>Front\<close>, as the index of the block in the ring.\<close>

definition er_front_index :: "event_ring \<Rightarrow> nat" where
  "er_front_index e = unat (er_read_dequeue_pointer e - er_base e) div 16"

definition er_front :: "event_ring \<Rightarrow> trb option" where
  "er_front e = arr_get (er_buf e) (er_front_index e)"

definition er_has_front :: "event_ring \<Rightarrow> bool option" where
  "er_has_front e = map_option (\<lambda>t. (field_get trb_layout ''cycle_bit'' t \<noteq> 0) = er_cycle e) (er_front e)"

definition er_pop :: "event_ring \<Rightarrow> event_ring" where
  "er_pop e =
    (let p = er_read_dequeue_pointer e + 16;
         segment_begin = er_seg_base e;
         segment_end = segment_begin + 16 * ucast (er_seg_size e)
     in if p = segment_end
        then er_write_dequeue_pointer segment_begin (e\<lparr>er_cycle := \<not> er_cycle e\<rparr>)
        else er_write_dequeue_pointer p e)"

text \<open>
  The ring after \<open>k\<close> events were popped: the dequeue pointer is at slot \<open>k mod n\<close>, and the cycle state
  is the one the controller uses in that lap.
\<close>

definition er_at :: "nat \<Rightarrow> nat \<Rightarrow> event_ring \<Rightarrow> bool" where
  "er_at n k e \<longleftrightarrow>
    0 < n \<and> n < 2 ^ 16 \<and> er_size e = n \<and> er_seg_base e = er_base e \<and> er_seg_size e = of_nat n
    \<and> take_bit 4 (er_base e) = 0 \<and> unat (er_base e) + 16 * n < 2 ^ 64
    \<and> er_read_dequeue_pointer e = er_base e + 16 * of_nat (k mod n) \<and> er_cycle e = lap n k"

lemma erdp_roundtrip: "take_bit 4 p = 0 \<Longrightarrow> erdp_pointer (erdp_set_pointer p w) = p"
  using shift_pointer [of 4 p 60]
  by (simp add: erdp_pointer_def erdp_set_pointer_def field_get_def field_set_def register_pointer_pos take_bit_64)

lemma slot_aligned: "take_bit 4 b = 0 \<Longrightarrow> take_bit 4 (b + 16 * of_nat k) = 0" for b :: u64
proof -
  assume "take_bit 4 b = 0"
  with bits_ident [of 4 b] have "b = push_bit 4 (drop_bit 4 b)" by simp
  then have "b + 16 * of_nat k = push_bit 4 (drop_bit 4 b + of_nat k)" by (simp add: push_bit_eq_mult algebra_simps)
  then show "take_bit 4 (b + 16 * of_nat k) = 0" by (simp only: take_bit_push_bit) simp
qed

lemma unat_slots: "n < 2 ^ 16 \<Longrightarrow> unat (16 * of_nat n :: u64) = 16 * n"
  by (simp add: unat_word_ariths unsigned_of_nat take_bit_nat_eq_self)

lemma slot_inject:
  assumes "i < 2 ^ 16" and "j < 2 ^ 16" and "b + 16 * of_nat i = b + 16 * (of_nat j :: u64)"
  shows "i = j"
proof -
  have "unat (16 * of_nat i :: u64) = unat (16 * of_nat j :: u64)" using assms(3) by simp
  then show ?thesis using assms(1,2) by (simp only: unat_slots)
qed

text \<open>
  \<open>Pop\<close> moves the event ring's dequeue pointer to the next slot, back to the first after the
  last, and flips the cycle state exactly there; so after any number of pops the driver waits at the
  slot, and for the cycle bit, of the next event.
\<close>

theorem event_ring_pop_position:
  assumes "er_at n k e"
  shows "er_at n (k + 1) (er_pop e) \<and> er_buf (er_pop e) = er_buf e
    \<and> er_front_index (er_pop e) = (k + 1) mod n"
proof -
  have n: "0 < n" "n < 2 ^ 16" and sz: "er_size e = n" "er_seg_base e = er_base e" "er_seg_size e = of_nat n"
    and b: "take_bit 4 (er_base e) = 0" "unat (er_base e) + 16 * n < 2 ^ 64"
    and p: "er_read_dequeue_pointer e = er_base e + 16 * of_nat (k mod n)" and cy: "er_cycle e = lap n k"
    using assms by (auto simp: er_at_def)
  have km: "k mod n < n" using n by simp
  have nx: "er_read_dequeue_pointer e + 16 = er_base e + 16 * of_nat (k mod n + 1)" by (simp add: p algebra_simps)
  have un: "(ucast (of_nat n :: u16) :: u64) = of_nat n"
    using n(2) by (intro word_unat_eq_iff [THEN iffD2]) (simp add: unsigned_ucast_eq unsigned_of_nat take_bit_nat_eq_self)
  have e: "er_read_dequeue_pointer e + 16 = er_base e + 16 * ucast (er_seg_size e) \<longleftrightarrow> k mod n + 1 = n"
  proof
    assume "er_read_dequeue_pointer e + 16 = er_base e + 16 * ucast (er_seg_size e)"
    then have "er_base e + 16 * of_nat (k mod n + 1) = er_base e + 16 * of_nat n" by (simp only: nx sz un)
    moreover have "k mod n + 1 < 2 ^ 16" using km n by linarith
    ultimately show "k mod n + 1 = n" using n(2) by (intro slot_inject)
  next
    assume "k mod n + 1 = n"
    then show "er_read_dequeue_pointer e + 16 = er_base e + 16 * ucast (er_seg_size e)" by (simp only: nx sz un)
  qed
  have w: "er_read_dequeue_pointer (er_write_dequeue_pointer q x) = q" if "take_bit 4 q = 0" for q x
    using that by (simp add: er_read_dequeue_pointer_def er_write_dequeue_pointer_def erdp_roundtrip)
  have f: "er_base (er_write_dequeue_pointer q x) = er_base x" "er_size (er_write_dequeue_pointer q x) = er_size x"
    "er_seg_base (er_write_dequeue_pointer q x) = er_seg_base x" "er_seg_size (er_write_dequeue_pointer q x) = er_seg_size x"
    "er_cycle (er_write_dequeue_pointer q x) = er_cycle x" "er_buf (er_write_dequeue_pointer q x) = er_buf x" for q x
    by (simp_all add: er_write_dequeue_pointer_def)
  have m: "(k + 1) mod n = (if k mod n + 1 = n then 0 else k mod n + 1)"
    "(k + 1) div n = (if k mod n + 1 = n then k div n + 1 else k div n)"
    using n(1) by (auto simp: mod_Suc div_Suc)
  have at: "er_at n (k + 1) (er_pop e) \<and> er_buf (er_pop e) = er_buf e"
  proof (cases "k mod n + 1 = n")
    case True
    then have "er_pop e = er_write_dequeue_pointer (er_base e) (e\<lparr>er_cycle := \<not> er_cycle e\<rparr>)"
      using e unfolding er_pop_def Let_def sz(2) by simp
    with True n sz b cy m show ?thesis by (simp add: er_at_def f w lap_def)
  next
    case False
    then have "er_pop e = er_write_dequeue_pointer (er_base e + 16 * of_nat (k mod n + 1)) e"
      using e unfolding er_pop_def Let_def sz(2) nx by simp
    with False n sz b cy m slot_aligned [OF b(1), of "k mod n + 1"] show ?thesis
      by (simp add: er_at_def f w lap_def del: of_nat_Suc)
  qed
  have "(k + 1) mod n < 2 ^ 16" using n by (meson mod_less_divisor order.strict_trans)
  with at show ?thesis by (simp add: er_front_index_def er_at_def unat_slots)
qed

theorem event_ring_pop_position_witness:
  "\<exists>e. er_at 2 1 e \<and> er_at 2 2 (er_pop e) \<and> er_front_index (er_pop e) = 0"
proof -
  let ?e = "\<lparr>er_base = 0x1000, er_size = 2, er_buf = [0, 0], er_cycle = True, er_erst = 0, er_seg_base = 0x1000,
    er_seg_size = 2, er_erstsz = 1, er_erstba = 0, er_erdp = 0x1010\<rparr>"
  have "er_at 2 1 ?e"
    by (simp add: er_at_def lap_def er_read_dequeue_pointer_def erdp_pointer_def field_get_def
        register_pointer_pos bf_get_def take_bit_eq_mod drop_bit_eq_div push_bit_eq_mult)
  from event_ring_pop_position [OF this] this
  have "er_at 2 1 ?e \<and> er_at 2 2 (er_pop ?e) \<and> er_front_index (er_pop ?e) = 0" by (simp add: numeral_2_eq_2)
  then show ?thesis by blast
qed

end
