(* ===== verification/Array_Map.thy ===== *)
theory Array_Map
  imports Kernel_Prelude "HOL-Library.Multiset"
begin

text \<open>
  The map on a fixed-size array of \<open>Kernel/usb/arraymap.hpp\<close>: every slot has an optional key and a
  value.  The xHCI device driver keeps its pending control transfers in two such maps.
\<close>

type_synonym ('k, 'v) array_map = "('k option \<times> 'v) list"

fun am_get :: "'k \<Rightarrow> ('k, 'v) array_map \<Rightarrow> 'v option" where
  "am_get k [] = None"
| "am_get k ((ko, v) # t) = (if ko = Some k then Some v else am_get k t)"

fun am_put :: "'k \<Rightarrow> 'v \<Rightarrow> ('k, 'v) array_map \<Rightarrow> ('k, 'v) array_map" where
  "am_put k v [] = []"
| "am_put k v ((ko, w) # t) = (if ko = None then (Some k, v) # t else (ko, w) # am_put k v t)"

fun am_delete :: "'k \<Rightarrow> ('k, 'v) array_map \<Rightarrow> ('k, 'v) array_map" where
  "am_delete k [] = []"
| "am_delete k ((ko, w) # t) = (if ko = Some k then (None, w) # t else (ko, w) # am_delete k t)"

definition am_new :: "'v \<Rightarrow> nat \<Rightarrow> ('k, 'v) array_map" where
  "am_new dflt n = replicate n (None, dflt)"

section \<open>The contract of a map with room for a bounded number of keys\<close>

fun am_keys :: "('k, 'v) array_map \<Rightarrow> 'k list" where
  "am_keys [] = []"
| "am_keys ((ko, v) # t) = (case ko of None \<Rightarrow> am_keys t | Some k \<Rightarrow> k # am_keys t)"

definition am_ok :: "('k, 'v) array_map \<Rightarrow> bool" where
  "am_ok t \<longleftrightarrow> distinct (am_keys t)"

definition am_room :: "('k, 'v) array_map \<Rightarrow> bool" where
  "am_room t \<longleftrightarrow> length (am_keys t) < length t"

locale bounded_map =
  fixes get :: "'k \<Rightarrow> 't \<Rightarrow> 'v option"
    and put :: "'k \<Rightarrow> 'v \<Rightarrow> 't \<Rightarrow> 't"
    and del :: "'k \<Rightarrow> 't \<Rightarrow> 't"
    and room :: "'t \<Rightarrow> bool"
    and valid :: "'t \<Rightarrow> bool"
  assumes put_fresh: "valid t \<Longrightarrow> room t \<Longrightarrow> get k t = None \<Longrightarrow>
      valid (put k v t) \<and> get k' (put k v t) = (if k' = k then Some v else get k' t)"
    and put_full: "valid t \<Longrightarrow> \<not> room t \<Longrightarrow> put k v t = t"
    and del_key: "valid t \<Longrightarrow> valid (del k t) \<and> get k' (del k t) = (if k' = k then None else get k' t)"
begin

text \<open>A transfer's entry is put, found when the transfer completes, and deleted.\<close>

lemma put_get_del:
  assumes "valid t" and "room t" and "get k t = None"
  shows "get k (put k v t) = Some v" and "get k' (del k (put k v t)) = get k' t"
  using put_fresh [OF assms] del_key [of "put k v t" k k'] assms(3) by auto

end

lemma am_get_None: "am_get k t = None \<longleftrightarrow> k \<notin> set (am_keys t)"
  by (induction k t rule: am_get.induct) (auto split: option.splits)

lemma am_put_full: "\<not> am_room t \<Longrightarrow> am_put k v t = t"
proof (induction k v t rule: am_put.induct)
  case (2 k v ko w t)
  have "length (am_keys t) \<le> length t" by (induction t rule: am_keys.induct) (auto split: option.splits)
  with 2 show ?case by (cases ko) (auto simp: am_room_def)
qed simp

lemma am_keys_put: "am_room t \<Longrightarrow> mset (am_keys (am_put k v t)) = mset (k # am_keys t)"
  by (induction k v t rule: am_put.induct) (auto simp: am_room_def split: option.splits)

lemma am_get_put: "am_room t \<Longrightarrow> k \<notin> set (am_keys t) \<Longrightarrow> am_get k' (am_put k v t) = (if k' = k then Some v else am_get k' t)"
  by (induction k v t rule: am_put.induct) (auto simp: am_room_def split: option.splits)

lemma am_keys_delete: "am_keys (am_delete k t) = remove1 k (am_keys t)"
  by (induction k t rule: am_delete.induct) (auto split: option.splits)

lemma am_get_delete: "am_ok t \<Longrightarrow> am_get k' (am_delete k t) = (if k' = k then None else am_get k' t)"
  by (induction k t rule: am_delete.induct) (auto simp: am_ok_def am_get_None split: option.splits)

interpretation am: bounded_map am_get am_put am_delete am_room am_ok
proof unfold_locales
  fix t :: "('a, 'b) array_map" and k k' v
  assume ok: "am_ok t" "am_room t" and k: "am_get k t = None"
  then have "k \<notin> set (am_keys t)" by (simp add: am_get_None)
  moreover have "distinct (am_keys (am_put k v t))"
    using am_keys_put [OF ok(2), of k v] ok(1) calculation
    by (metis am_ok_def distinct.simps(2) mset_eq_imp_distinct_iff)
  ultimately show "am_ok (am_put k v t) \<and> am_get k' (am_put k v t) = (if k' = k then Some v else am_get k' t)"
    using am_get_put [OF ok(2)] by (simp add: am_ok_def)
next
  fix t :: "('a, 'b) array_map" and k v
  assume "\<not> am_room t" then show "am_put k v t = t" by (rule am_put_full)
next
  fix t :: "('a, 'b) array_map" and k k'
  assume ok: "am_ok t"
  then have "am_ok (am_delete k t)" by (simp add: am_ok_def am_keys_delete)
  with am_get_delete [OF ok] show "am_ok (am_delete k t) \<and> am_get k' (am_delete k t) = (if k' = k then None else am_get k' t)"
    by simp
qed

text \<open>
  As long as keys are put only when absent, the array is a map of bounded size.  A new key is
  found with its value and disturbs no other, a deleted key is gone, and when every slot is taken
  \<open>Put\<close> drops the entry without a sign.
\<close>

theorem array_map_refines_map:
  assumes "am_ok t" and "am_get k t = None"
  shows "am_ok (am_put k v t)
    \<and> am_get k' (am_put k v t) = (if am_room t \<and> k' = k then Some v else am_get k' t)
    \<and> am_ok (am_delete j t) \<and> am_get k' (am_delete j t) = (if k' = j then None else am_get k' t)"
proof (cases "am_room t")
  case True
  from am.put_fresh [OF assms(1) True assms(2), of v k'] am.del_key [OF assms(1), of j k'] True show ?thesis by simp
next
  case False
  from am.put_full [OF assms(1) False, of k v] am.del_key [OF assms(1), of j k'] False assms(1) show ?thesis by simp
qed

theorem array_map_refines_map_witness:
  "am_get (7::nat) (am_put 7 True (am_put 5 False (am_new False 2))) = Some True"
proof -
  have "am_ok (am_put 5 False (am_new False 2) :: (nat, bool) array_map)"
    "am_get 7 (am_put 5 False (am_new False 2) :: (nat, bool) array_map) = None"
    "am_room (am_put 5 False (am_new False 2) :: (nat, bool) array_map)"
    by (simp_all add: am_ok_def am_room_def am_new_def numeral_2_eq_2)
  with array_map_refines_map [of "am_put 5 False (am_new False 2)" "7::nat" True 7 5] show ?thesis by simp
qed

text \<open>
  Putting a key that is present does not replace its value.  Whether the new value is seen
  depends on where a slot is free, and deleting the key once brings the other value back.
\<close>

theorem array_map_put_present:
  "v \<noteq> w \<longrightarrow>
    am_get k (am_put k w [(Some k, v), (None, u)]) = Some v
    \<and> am_get k (am_put k w [(None, u), (Some k, v)]) = Some w
    \<and> am_get k (am_delete k (am_put k w [(None, u), (Some k, v)])) = Some v"
  by simp

theorem array_map_put_present_witness:
  "am_get (1::nat) (am_put 1 True [(Some 1, False), (None, False)]) = Some False"
  using array_map_put_present [of False True "1::nat" False] by simp

end
