(* ===== verification/Graphics.thy ===== *)
theory Graphics
  imports Kernel_Prelude
begin

text \<open>
  Geometry, colours and drawing through a \<open>PixelWriter\<close>: \<open>Kernel/graphics.hpp\<close>, \<open>graphics.cpp\<close> and
  \<open>font.cpp\<close>.

  Coordinates are mathematical integers: an overflow of the source's \<open>int\<close> is undefined in C++, and no
  position on a screen comes near one.  A drawing function takes the writer's \<open>Write\<close> as a parameter,
  from a position, a colour and the written surface to the surface afterwards, \<open>None\<close> when it writes
  outside; the locale \<open>canvas\<close> states what a writer promises, and what is drawn follows from that.
\<close>

section \<open>Vectors and rectangles\<close>

record vec2 =
  vx :: int
  vy :: int

definition vec :: "int \<Rightarrow> int \<Rightarrow> vec2" where
  "vec x y = \<lparr>vx = x, vy = y\<rparr>"

definition vadd :: "vec2 \<Rightarrow> vec2 \<Rightarrow> vec2" where
  "vadd a b = vec (vx a + vx b) (vy a + vy b)"

definition vsub :: "vec2 \<Rightarrow> vec2 \<Rightarrow> vec2" where
  "vsub a b = vec (vx a - vx b) (vy a - vy b)"

definition element_max :: "vec2 \<Rightarrow> vec2 \<Rightarrow> vec2" where
  "element_max a b = vec (max (vx a) (vx b)) (max (vy a) (vy b))"

definition element_min :: "vec2 \<Rightarrow> vec2 \<Rightarrow> vec2" where
  "element_min a b = vec (min (vx a) (vx b)) (min (vy a) (vy b))"

record rectangle =
  rpos :: vec2
  rsize :: vec2

definition rect :: "vec2 \<Rightarrow> vec2 \<Rightarrow> rectangle" where
  "rect p s = \<lparr>rpos = p, rsize = s\<rparr>"

text \<open>\<open>operator&\<close>: the common part of two rectangles.\<close>

definition rect_and :: "rectangle \<Rightarrow> rectangle \<Rightarrow> rectangle" where
  "rect_and l r =
    (let l_end = vadd (rpos l) (rsize l);
         r_end = vadd (rpos r) (rsize r)
     in if vx l_end < vx (rpos r) \<or> vy l_end < vy (rpos r) \<or> vx r_end < vx (rpos l) \<or> vy r_end < vy (rpos l)
        then rect (vec 0 0) (vec 0 0)
        else (let new_pos = element_max (rpos l) (rpos r)
              in rect new_pos (vsub (element_min l_end r_end) new_pos)))"

lemma vec_simps [simp]:
  "vx (vec x y) = x" "vy (vec x y) = y" "vec (vx v) (vy v) = v"
  "vx (vadd a b) = vx a + vx b" "vy (vadd a b) = vy a + vy b"
  "vx (vsub a b) = vx a - vx b" "vy (vsub a b) = vy a - vy b"
  "vx (element_max a b) = max (vx a) (vx b)" "vy (element_max a b) = max (vy a) (vy b)"
  "vx (element_min a b) = min (vx a) (vx b)" "vy (element_min a b) = min (vy a) (vy b)"
  "rpos (rect p s) = p" "rsize (rect p s) = s"
  by (simp_all add: vec_def vadd_def vsub_def element_max_def element_min_def rect_def)

lemma vec2_eq_iff: "a = b \<longleftrightarrow> vx a = vx b \<and> vy a = vy b" for a b :: vec2
  by (cases a; cases b) simp

lemma vsub_vadd [simp]: "vsub (vadd a b) a = b" "vadd (vsub a b) b = a" "vadd a (vsub b a) = b"
  by (simp_all add: vec2_eq_iff)

lemma vadd_zero [simp]: "vadd p (vec 0 0) = p"
  by (simp add: vec2_eq_iff)

lemma eq_vadd_iff: "p = vadd b (vec x y) \<longleftrightarrow> x = vx p - vx b \<and> y = vy p - vy b"
  by (auto simp: vec2_eq_iff)

definition rect_mem :: "rectangle \<Rightarrow> vec2 \<Rightarrow> bool" where
  "rect_mem r p \<longleftrightarrow> vx (rpos r) \<le> vx p \<and> vx p < vx (rpos r) + vx (rsize r)
    \<and> vy (rpos r) \<le> vy p \<and> vy p < vy (rpos r) + vy (rsize r)"

lemma rect_mem_and: "rect_mem (rect_and a b) p \<longleftrightarrow> rect_mem a p \<and> rect_mem b p"
  by (auto simp: rect_and_def rect_mem_def Let_def)

lemma rect_and_size:
  "0 \<le> vx (rsize a) \<Longrightarrow> 0 \<le> vx (rsize b) \<Longrightarrow> 0 \<le> vx (rsize (rect_and a b))"
  "0 \<le> vy (rsize a) \<Longrightarrow> 0 \<le> vy (rsize b) \<Longrightarrow> 0 \<le> vy (rsize (rect_and a b))"
  by (auto simp: rect_and_def Let_def)

section \<open>Colours\<close>

record pixel_color =
  pc_r :: u8
  pc_g :: u8
  pc_b :: u8

definition rgb :: "u8 \<Rightarrow> u8 \<Rightarrow> u8 \<Rightarrow> pixel_color" where
  "rgb r g b = \<lparr>pc_r = r, pc_g = g, pc_b = b\<rparr>"

definition to_color :: "u32 \<Rightarrow> pixel_color" where
  "to_color c = rgb (ucast (drop_bit 16 c AND 0xFF)) (ucast (drop_bit 8 c AND 0xFF)) (ucast (c AND 0xFF))"

definition kDesktopBGColor :: pixel_color where
  "kDesktopBGColor = rgb 45 118 237"

definition kDesktopFGColor :: pixel_color where
  "kDesktopFGColor = rgb 255 255 255"

section \<open>Loops that may fail\<close>

text \<open>\<open>for\<close> loops over a list; \<open>int_range n\<close> lists the values of \<open>for(int i = 0; i < n; i++)\<close>.\<close>

fun for_each :: "('a \<Rightarrow> 's \<Rightarrow> 's option) \<Rightarrow> 'a list \<Rightarrow> 's \<Rightarrow> 's option" where
  "for_each f [] s = Some s"
| "for_each f (x # xs) s = do { s' \<leftarrow> f x s; for_each f xs s' }"

definition int_range :: "int \<Rightarrow> int list" where
  "int_range n = map int [0..<nat n]"

lemma set_int_range [simp]: "set (int_range n) = {0..<n}"
proof -
  have "set (int_range n) = int ` {0..<nat n}" by (simp add: int_range_def)
  also have "\<dots> = {0..<n}" by (cases "0 \<le> n") (simp_all add: image_int_atLeastLessThan)
  finally show ?thesis .
qed

lemma for_each_append: "for_each f (xs @ ys) s = do { s' \<leftarrow> for_each f xs s; for_each f ys s' }"
  by (induction xs arbitrary: s) (auto split: bind_splits)

lemma for_each_map: "for_each f (map g xs) s = for_each (\<lambda>x. f (g x)) xs s"
  by (induction xs arbitrary: s) (auto split: bind_splits)

lemma for_each_filter:
  "for_each (\<lambda>x s. if P x then f x s else Some s) xs s = for_each f (filter P xs) s"
  by (induction xs arbitrary: s) (auto split: bind_splits)

lemma for_each_concat: "for_each (\<lambda>y. for_each f (g y)) ys s = for_each f (concat (map g ys)) s"
proof (induction ys arbitrary: s)
  case (Cons y ys)
  then have "for_each (\<lambda>y. for_each f (g y)) ys = for_each f (concat (map g ys))" by (intro ext)
  then show ?case by (simp only: for_each.simps list.map concat.simps for_each_append)
qed simp

lemma for_each_cong:
  "(\<And>x s. x \<in> set xs \<Longrightarrow> f x s = g x s) \<Longrightarrow> for_each f xs s = for_each g xs s"
  by (induction xs arbitrary: s) (auto split: bind_splits)

section \<open>Drawing\<close>

type_synonym 's pixel_write = "vec2 \<Rightarrow> pixel_color \<Rightarrow> 's \<Rightarrow> 's option"

definition draw_rectangle :: "'s pixel_write \<Rightarrow> vec2 \<Rightarrow> vec2 \<Rightarrow> pixel_color \<Rightarrow> 's \<Rightarrow> 's option" where
  "draw_rectangle write pos sz c s = do {
     s1 \<leftarrow> for_each (\<lambda>x s. do {
       s' \<leftarrow> write (vadd pos (vec x 0)) c s;
       write (vadd pos (vec x (vy sz - 1))) c s' }) (int_range (vx sz)) s;
     for_each (\<lambda>y s. do {
       s' \<leftarrow> write (vadd pos (vec 0 y)) c s;
       write (vadd pos (vec (vx sz - 1) y)) c s' }) (int_range (vy sz)) s1
   }"

definition fill_rectangle :: "'s pixel_write \<Rightarrow> vec2 \<Rightarrow> vec2 \<Rightarrow> pixel_color \<Rightarrow> 's \<Rightarrow> 's option" where
  "fill_rectangle write pos sz c =
    for_each (\<lambda>y. for_each (\<lambda>x. write (vadd pos (vec x y)) c) (int_range (vx sz))) (int_range (vy sz))"

text \<open>\<open>width / 5\<close> truncates; a width is not negative.\<close>

definition draw_desktop :: "'s pixel_write \<Rightarrow> int \<Rightarrow> int \<Rightarrow> 's \<Rightarrow> 's option" where
  "draw_desktop write width height s = do {
     s1 \<leftarrow> fill_rectangle write (vec 0 0) (vec width (height - 50)) (rgb 255 255 255) s;
     s2 \<leftarrow> fill_rectangle write (vec 0 (height - 50)) (vec width 50) (rgb 1 8 17) s1;
     s3 \<leftarrow> fill_rectangle write (vec 0 (height - 50)) (vec (width div 5) 50) (rgb 80 80 80) s2;
     draw_rectangle write (vec 10 (height - 40)) (vec 30 30) (rgb 160 160 160) s3
   }"

section \<open>Characters\<close>

text \<open>
  \<open>font\<close> is the contents of the binary font the build links in.  \<open>GetFont\<close>: the offset of a
  character's glyph; a \<open>char\<close> is signed, so a code from 128 on is sign extended and has none.
\<close>

definition get_font :: "u8 list \<Rightarrow> char \<Rightarrow> nat option" where
  "get_font font c =
    (let index = 16 * (scast (of_char c :: u8) :: u32)
     in if length font \<le> unat index then None else Some (unat index))"

text \<open>A null glyph is dereferenced: \<open>None\<close>.\<close>

definition write_ascii :: "u8 list \<Rightarrow> 's pixel_write \<Rightarrow> vec2 \<Rightarrow> char \<Rightarrow> pixel_color \<Rightarrow> 's \<Rightarrow> 's option" where
  "write_ascii font write base c color s = do {
     glyph \<leftarrow> get_font font c;
     for_each (\<lambda>dy. for_each (\<lambda>dx s. do {
       b \<leftarrow> arr_get font (glyph + nat dy);
       if push_bit (nat dx) (ucast b :: u32) AND 0x80 \<noteq> 0
       then write (vadd base (vec dx dy)) color s
       else Some s }) (int_range 8)) (int_range 16) s
   }"

definition write_string :: "u8 list \<Rightarrow> 's pixel_write \<Rightarrow> vec2 \<Rightarrow> string \<Rightarrow> pixel_color \<Rightarrow> 's \<Rightarrow> 's option" where
  "write_string font write pos str color =
    for_each (\<lambda>(i, c). write_ascii font write (vec (vx pos + int i * 8) (vy pos)) c color)
      (zip [0..<length str] str)"

section \<open>What a writer promises\<close>

text \<open>
  The pixels a writer accepts are those of a rectangle at the origin; \<open>colour\<close> reads the surface back.
\<close>

definition on_canvas :: "int \<times> int \<Rightarrow> vec2 \<Rightarrow> bool" where
  "on_canvas d p \<longleftrightarrow> 0 \<le> vx p \<and> vx p < fst d \<and> 0 \<le> vy p \<and> vy p < snd d"

text \<open>The colour of a pixel after a list of writes.\<close>

definition painted :: "(vec2 \<times> pixel_color) list \<Rightarrow> vec2 \<Rightarrow> pixel_color \<Rightarrow> pixel_color" where
  "painted ws q old = fold (\<lambda>(p, c) o'. if q = p then c else o') ws old"

lemma painted_by_position: "painted (map (\<lambda>p. (p, g p)) ps) q old = (if q \<in> set ps then g q else old)"
proof (induction ps arbitrary: old)
  case (Cons p ps)
  have "painted (map (\<lambda>p. (p, g p)) (p # ps)) q old =
    painted (map (\<lambda>p. (p, g p)) ps) q (if q = p then g p else old)"
    by (simp add: painted_def)
  then show ?case unfolding Cons.IH by simp
qed (simp add: painted_def)

text \<open>The pixels a drawing function visits, in order.\<close>

definition rect_pixels :: "vec2 \<Rightarrow> vec2 \<Rightarrow> vec2 list" where
  "rect_pixels pos sz =
    concat (map (\<lambda>y. map (\<lambda>x. vadd pos (vec x y)) (int_range (vx sz))) (int_range (vy sz)))"

lemma set_rect_pixels: "p \<in> set (rect_pixels pos sz) \<longleftrightarrow> rect_mem (rect pos sz) p"
proof -
  have "p \<in> set (rect_pixels pos sz) \<longleftrightarrow> (\<exists>y \<in> {0..<vy sz}. \<exists>x \<in> {0..<vx sz}. p = vadd pos (vec x y))"
    by (simp add: rect_pixels_def image_iff)
  also have "\<dots> \<longleftrightarrow> vy p - vy pos \<in> {0..<vy sz} \<and> vx p - vx pos \<in> {0..<vx sz}"
    unfolding eq_vadd_iff by auto
  finally show ?thesis by (auto simp: rect_mem_def)
qed

lemma fill_rectangle_pixels: "fill_rectangle write pos sz c s = for_each (\<lambda>p. write p c) (rect_pixels pos sz) s"
proof -
  have "for_each (\<lambda>x. write (vadd pos (vec x y)) c) (int_range (vx sz)) =
    for_each (\<lambda>p. write p c) (map (\<lambda>x. vadd pos (vec x y)) (int_range (vx sz)))" for y
    by (intro ext) (simp add: for_each_map)
  then show ?thesis by (simp add: fill_rectangle_def rect_pixels_def for_each_concat)
qed

text \<open>A glyph is 16 bytes, a row each, the leftmost pixel in the top bit.\<close>

definition glyph_bit :: "u8 list \<Rightarrow> nat \<Rightarrow> int \<Rightarrow> int \<Rightarrow> bool" where
  "glyph_bit font g dx dy \<longleftrightarrow>
    0 \<le> dx \<and> dx < 8 \<and> 0 \<le> dy \<and> dy < 16 \<and> bit (font ! (g + nat dy)) (7 - nat dx)"

definition glyph_pixels :: "u8 list \<Rightarrow> nat \<Rightarrow> vec2 \<Rightarrow> vec2 list" where
  "glyph_pixels font g base =
    concat (map (\<lambda>dy. map (\<lambda>dx. vadd base (vec dx dy)) (filter (\<lambda>dx. glyph_bit font g dx dy) (int_range 8)))
      (int_range 16))"

lemma set_glyph_pixels:
  "p \<in> set (glyph_pixels font g base) \<longleftrightarrow> glyph_bit font g (vx p - vx base) (vy p - vy base)"
proof -
  have "p \<in> set (glyph_pixels font g base) \<longleftrightarrow>
    (\<exists>y \<in> {0..<16}. \<exists>x \<in> {0..<8}. glyph_bit font g x y \<and> p = vadd base (vec x y))"
    by (simp add: glyph_pixels_def image_iff) (simp add: Bex_def conj_assoc)
  also have "\<dots> \<longleftrightarrow> glyph_bit font g (vx p - vx base) (vy p - vy base)
    \<and> vy p - vy base \<in> {0..<16} \<and> vx p - vx base \<in> {0..<8}"
    unfolding eq_vadd_iff by auto
  finally show ?thesis by (auto simp: glyph_bit_def)
qed

lemma top_bit: "dx < 8 \<Longrightarrow> push_bit dx (ucast b :: u32) AND 0x80 \<noteq> 0 \<longleftrightarrow> bit b (7 - dx)" for b :: u8
proof -
  assume dx: "dx < 8"
  have "push_bit dx (ucast b :: u32) AND 0x80 \<noteq> 0 \<longleftrightarrow> bit (push_bit dx (ucast b :: u32)) 7"
    using and_exp_eq_0_iff_not_bit [of "push_bit dx (ucast b :: u32)" 7] by simp
  also have "\<dots> \<longleftrightarrow> bit b (7 - dx)" using dx by (auto simp: bit_simps)
  finally show ?thesis .
qed

lemma write_ascii_pixels:
  assumes "get_font font ch = Some g" and "g + 16 \<le> length font"
  shows "write_ascii font write base ch c s = for_each (\<lambda>p. write p c) (glyph_pixels font g base) s"
proof -
  have row: "for_each (\<lambda>dx s. do { b \<leftarrow> arr_get font (g + nat dy);
       if push_bit (nat dx) (ucast b :: u32) AND 0x80 \<noteq> 0 then write (vadd base (vec dx dy)) c s else Some s })
       (int_range 8) s' =
    for_each (\<lambda>p. write p c) (map (\<lambda>dx. vadd base (vec dx dy)) (filter (\<lambda>dx. glyph_bit font g dx dy) (int_range 8))) s'"
    if dy: "dy \<in> set (int_range 16)" for dy s'
    unfolding for_each_map for_each_filter [symmetric]
  proof (rule for_each_cong)
    fix x s assume "x \<in> set (int_range 8)"
    then have "nat x < 8" and "0 \<le> x" "x < 8" by auto
    moreover have "g + nat dy < length font" using dy assms(2) by auto
    ultimately show "do { b \<leftarrow> arr_get font (g + nat dy);
       if push_bit (nat x) (ucast b :: u32) AND 0x80 \<noteq> 0 then write (vadd base (vec x dy)) c s else Some s } =
     (if glyph_bit font g x dy then write (vadd base (vec x dy)) c s else Some s)"
      using dy top_bit [of "nat x" "font ! (g + nat dy)"] by (simp add: ub_simps glyph_bit_def)
  qed
  have "write_ascii font write base ch c s =
    for_each (\<lambda>dy. for_each (\<lambda>p. write p c)
      (map (\<lambda>dx. vadd base (vec dx dy)) (filter (\<lambda>dx. glyph_bit font g dx dy) (int_range 8)))) (int_range 16) s"
    unfolding write_ascii_def assms(1) by (simp only: bind.simps, rule for_each_cong) (rule row)
  then show ?thesis by (simp only: glyph_pixels_def for_each_concat)
qed

locale canvas =
  fixes put :: "'s pixel_write"
    and colour :: "'s \<Rightarrow> vec2 \<Rightarrow> pixel_color"
    and dims :: "'s \<Rightarrow> int \<times> int"
    and ok :: "'s \<Rightarrow> bool"
  assumes write_on_canvas: "ok s \<Longrightarrow> on_canvas (dims s) p \<Longrightarrow>
    \<exists>s'. put p c s = Some s' \<and> ok s' \<and> dims s' = dims s
      \<and> (\<forall>q. on_canvas (dims s) q \<longrightarrow> colour s' q = (if q = p then c else colour s q))"
begin

lemma writes:
  assumes "ok s" and "\<forall>(p, c) \<in> set ws. on_canvas (dims s) p"
  shows "\<exists>s'. for_each (\<lambda>(p, c). put p c) ws s = Some s' \<and> ok s' \<and> dims s' = dims s
    \<and> (\<forall>q. on_canvas (dims s) q \<longrightarrow> colour s' q = painted ws q (colour s q))"
  using assms
proof (induction ws arbitrary: s)
  case (Cons w ws)
  obtain p c where w: "w = (p, c)" by (cases w)
  with Cons.prems write_on_canvas [of s p c] obtain s1 where
    s1: "put p c s = Some s1" "ok s1" "dims s1 = dims s"
      "\<forall>q. on_canvas (dims s) q \<longrightarrow> colour s1 q = (if q = p then c else colour s q)" by auto
  with Cons.prems Cons.IH [of s1] obtain s2 where
    s2: "for_each (\<lambda>(p, c). put p c) ws s1 = Some s2" "ok s2" "dims s2 = dims s"
      "\<forall>q. on_canvas (dims s) q \<longrightarrow> colour s2 q = painted ws q (colour s1 q)" by auto
  with s1 w show ?case by (auto simp: painted_def)
qed (simp add: painted_def)

lemma by_position:
  assumes "ok s" and "\<forall>p \<in> set ps. on_canvas (dims s) p"
  shows "\<exists>s'. for_each (\<lambda>p. put p (g p)) ps s = Some s' \<and> ok s' \<and> dims s' = dims s
    \<and> (\<forall>q. on_canvas (dims s) q \<longrightarrow> colour s' q = (if q \<in> set ps then g q else colour s q))"
proof -
  have "for_each (\<lambda>p. put p (g p)) ps s = for_each (\<lambda>(p, c). put p c) (map (\<lambda>p. (p, g p)) ps) s"
    by (simp add: for_each_map)
  with writes [OF assms(1), of "map (\<lambda>p. (p, g p)) ps"] assms(2) show ?thesis
    by (simp add: painted_by_position)
qed

lemma fill:
  assumes "ok s" and "\<forall>p. rect_mem (rect pos sz) p \<longrightarrow> on_canvas (dims s) p"
  shows "\<exists>s'. fill_rectangle put pos sz c s = Some s' \<and> ok s' \<and> dims s' = dims s
    \<and> (\<forall>q. on_canvas (dims s) q \<longrightarrow> colour s' q = (if rect_mem (rect pos sz) q then c else colour s q))"
  using by_position [OF assms(1), of "rect_pixels pos sz" "\<lambda>_. c"] assms(2)
  by (simp add: fill_rectangle_pixels set_rect_pixels)

lemma glyph:
  assumes "ok s" and "get_font font ch = Some g" and "g + 16 \<le> length font"
    and "\<forall>p. glyph_bit font g (vx p - vx base) (vy p - vy base) \<longrightarrow> on_canvas (dims s) p"
  shows "\<exists>s'. write_ascii font put base ch c s = Some s' \<and> ok s' \<and> dims s' = dims s
    \<and> (\<forall>q. on_canvas (dims s) q \<longrightarrow>
          colour s' q = (if glyph_bit font g (vx q - vx base) (vy q - vy base) then c else colour s q))"
  using by_position [OF assms(1), of "glyph_pixels font g base" "\<lambda>_. c"] assms(4)
  by (simp add: write_ascii_pixels [OF assms(2,3)] set_glyph_pixels)

end

end
