(* ===== verification/Frame_Buffer.thy ===== *)
theory Frame_Buffer
  imports Graphics
begin

text \<open>
  Frame buffers: \<open>Kernel/frame_buffer_config.hpp\<close>, \<open>frame_buffer.hpp\<close>, \<open>frame_buffer.cpp\<close> and the two
  pixel writers of \<open>graphics.hpp\<close> and \<open>graphics.cpp\<close>.

  A frame buffer is its configuration with the bytes its \<open>frame_buffer\<close> pointer refers to, its own
  vector or the memory of the screen.  Addresses are offsets from the first byte; an access outside the
  bytes is undefined.  The 32-bit wrap of the offset computations is kept.
\<close>

text \<open>A format the boot loader may pass and the kernel does not know is \<open>PixelOther\<close>.\<close>

datatype pixel_format = PixelRGBResv8 | PixelBGRResv8 | PixelOther nat

record frame_buffer_config =
  fc_pixels_per_scanline :: u32
  fc_horizontal_resolution :: u32
  fc_vertical_resolution :: u32
  fc_pixel_format :: pixel_format

record frame_buffer =
  fb_config :: frame_buffer_config
  fb_mem :: "u8 list"

fun bits_per_pixel :: "pixel_format \<Rightarrow> int" where
  "bits_per_pixel PixelRGBResv8 = 32"
| "bits_per_pixel PixelBGRResv8 = 32"
| "bits_per_pixel (PixelOther n) = -1"

definition bytes_per_pixel :: "pixel_format \<Rightarrow> int" where
  "bytes_per_pixel f = (if bits_per_pixel f < 0 then -1 else (bits_per_pixel f + 7) div 8)"

text \<open>\<open>FrameAddrAt\<close>: the offset of a pixel, computed in 32 bits; \<open>None\<close> is the null pointer.\<close>

definition frame_addr_at :: "vec2 \<Rightarrow> frame_buffer_config \<Rightarrow> int option" where
  "frame_addr_at pos config =
    (let bytes = bytes_per_pixel (fc_pixel_format config)
     in if bytes < 0 then None
        else Some (uint (of_int bytes * (fc_pixels_per_scanline config * of_int (vy pos) + of_int (vx pos)))))"

definition bytes_per_scan_line :: "frame_buffer_config \<Rightarrow> int" where
  "bytes_per_scan_line config =
    (let bytes = bytes_per_pixel (fc_pixel_format config)
     in if bytes < 0 then -1 else sint (of_int bytes * fc_pixels_per_scanline config))"

definition frame_buffer_size :: "frame_buffer_config \<Rightarrow> vec2" where
  "frame_buffer_size config = vec (sint (fc_horizontal_resolution config)) (sint (fc_vertical_resolution config))"

text \<open>
  \<open>FrameBuffer::Initialize\<close>: \<open>given\<close> is the memory of the configuration's pointer, \<open>None\<close> a null
  pointer.
\<close>

definition frame_buffer_initialize :: "u8 list option \<Rightarrow> frame_buffer_config \<Rightarrow> error_code \<times> frame_buffer" where
  "frame_buffer_initialize given config =
    (let bits = bits_per_pixel (fc_pixel_format config) in
     if bits \<le> 0
     then (KUnknownPixelFormat, \<lparr>fb_config = config, fb_mem = (case given of None \<Rightarrow> [] | Some m \<Rightarrow> m)\<rparr>)
     else
       (KSuccess,
        case given of
          Some m \<Rightarrow> \<lparr>fb_config = config, fb_mem = m\<rparr>
        | None \<Rightarrow>
            \<lparr>fb_config = config\<lparr>fc_pixels_per_scanline := fc_horizontal_resolution config\<rparr>,
             fb_mem = replicate (unat (of_int ((bits + 7) div 8) * fc_horizontal_resolution config
                * fc_vertical_resolution config)) 0\<rparr>))"

section \<open>Pixel writers\<close>

definition pixel_at :: "frame_buffer_config \<Rightarrow> int \<Rightarrow> int \<Rightarrow> nat" where
  "pixel_at config x y = unat ((fc_pixels_per_scanline config * of_int y + of_int x) * 4)"

definition store3 :: "nat \<Rightarrow> u8 \<Rightarrow> u8 \<Rightarrow> u8 \<Rightarrow> u8 list \<Rightarrow> u8 list option" where
  "store3 p a b c m = do {
     m1 \<leftarrow> arr_set m p a;
     m2 \<leftarrow> arr_set m1 (p + 1) b;
     arr_set m2 (p + 2) c
   }"

text \<open>The writer \<open>Initialize\<close> makes for the format; there is none for an unknown one.\<close>

definition fb_write :: "frame_buffer pixel_write" where
  "fb_write pos c fb =
    (let p = pixel_at (fb_config fb) (vx pos) (vy pos)
     in map_option (\<lambda>m. fb\<lparr>fb_mem := m\<rparr>)
       (case fc_pixel_format (fb_config fb) of
          PixelRGBResv8 \<Rightarrow> store3 p (pc_r c) (pc_g c) (pc_b c) (fb_mem fb)
        | PixelBGRResv8 \<Rightarrow> store3 p (pc_b c) (pc_g c) (pc_r c) (fb_mem fb)
        | PixelOther n \<Rightarrow> None))"

definition fb_width :: "frame_buffer \<Rightarrow> int" where
  "fb_width fb = sint (fc_horizontal_resolution (fb_config fb))"

definition fb_height :: "frame_buffer \<Rightarrow> int" where
  "fb_height fb = sint (fc_vertical_resolution (fb_config fb))"

section \<open>Copying\<close>

text \<open>
  \<open>memcpy\<close> of \<open>n\<close> bytes.  A negative \<open>n\<close> is a huge size; \<open>mem_copy_within\<close> copies inside one buffer,
  where the two blocks must not overlap.
\<close>

definition mem_copy :: "u8 list \<Rightarrow> int \<Rightarrow> int \<Rightarrow> int \<Rightarrow> u8 list \<Rightarrow> u8 list option" where
  "mem_copy src n d s m =
    (if 0 \<le> n \<and> 0 \<le> d \<and> d + n \<le> int (length m) \<and> 0 \<le> s \<and> s + n \<le> int (length src)
     then Some (take (nat d) m @ take (nat n) (drop (nat s) src) @ drop (nat (d + n)) m)
     else None)"

definition mem_copy_within :: "int \<Rightarrow> int \<Rightarrow> int \<Rightarrow> u8 list \<Rightarrow> u8 list option" where
  "mem_copy_within n d s m = (if 0 < n \<and> d < s + n \<and> s < d + n then None else mem_copy m n d s m)"

text \<open>The loops over rows: a copy, then both pointers move on.\<close>

fun row_loop :: "(int \<Rightarrow> int \<Rightarrow> 's \<Rightarrow> 's option) \<Rightarrow> int \<Rightarrow> int \<Rightarrow> nat \<Rightarrow> int \<Rightarrow> int \<Rightarrow> 's \<Rightarrow> 's option" where
  "row_loop f dstep sstep 0 d s m = Some m"
| "row_loop f dstep sstep (Suc n) d s m = do {
     m' \<leftarrow> f d s m;
     row_loop f dstep sstep n (d + dstep) (s + sstep) m'
   }"

definition frame_copy ::
  "vec2 \<Rightarrow> frame_buffer \<Rightarrow> rectangle \<Rightarrow> frame_buffer \<Rightarrow> (error_code \<times> frame_buffer) option" where
  "frame_copy dst_pos src src_area dst =
    (if fc_pixel_format (fb_config dst) \<noteq> fc_pixel_format (fb_config src) then Some (KUnknownPixelFormat, dst)
     else if bits_per_pixel (fc_pixel_format (fb_config dst)) \<le> 0 then Some (KUnknownPixelFormat, dst)
     else
       (let src_area_shifted = rect dst_pos (rsize src_area);
            src_outline = rect (vsub dst_pos (rpos src_area)) (frame_buffer_size (fb_config src));
            dst_outline = rect (vec 0 0) (frame_buffer_size (fb_config dst));
            copy_area = rect_and (rect_and dst_outline src_outline) src_area_shifted;
            src_start_pos = vsub (rpos copy_area) (vsub dst_pos (rpos src_area));
            bpp = bytes_per_pixel (fc_pixel_format (fb_config dst))
        in do {
          dst_buf \<leftarrow> frame_addr_at (rpos copy_area) (fb_config dst);
          src_buf \<leftarrow> frame_addr_at src_start_pos (fb_config src);
          m \<leftarrow> row_loop (mem_copy (fb_mem src) (bpp * vx (rsize copy_area)))
                 (uint (of_int bpp * fc_pixels_per_scanline (fb_config dst)))
                 (uint (of_int bpp * fc_pixels_per_scanline (fb_config src)))
                 (nat (vy (rsize copy_area))) dst_buf src_buf (fb_mem dst);
          Some (KSuccess, dst\<lparr>fb_mem := m\<rparr>)
        }))"

text \<open>\<open>FrameBuffer::Move\<close>: downwards from the first row, or upwards from the last.\<close>

definition frame_move :: "vec2 \<Rightarrow> rectangle \<Rightarrow> frame_buffer \<Rightarrow> frame_buffer option" where
  "frame_move dst_pos src fb =
    (let config = fb_config fb;
         bpp = bytes_per_pixel (fc_pixel_format config);
         bpl = bytes_per_scan_line config;
         rows = nat (vy (rsize src));
         start = (if vy dst_pos < vy (rpos src) then vec 0 0 else vec 0 (vy (rsize src) - 1));
         step = (if vy dst_pos < vy (rpos src) then bpl else - bpl)
     in case (frame_addr_at (vadd dst_pos start) config, frame_addr_at (vadd (rpos src) start) config) of
          (Some dst_buf, Some src_buf) \<Rightarrow>
            map_option (\<lambda>m. fb\<lparr>fb_mem := m\<rparr>)
              (row_loop (mem_copy_within (bpp * vx (rsize src))) step step rows dst_buf src_buf (fb_mem fb))
        | _ \<Rightarrow> if rows = 0 then Some fb else None)"

section \<open>Well-formed frame buffers\<close>

text \<open>
  A known format, scan lines as long as the visible part at least, memory for every scan line, and
  fewer bytes than an \<open>int\<close> can count.
\<close>

definition known_format :: "pixel_format \<Rightarrow> bool" where
  "known_format f \<longleftrightarrow> f = PixelRGBResv8 \<or> f = PixelBGRResv8"

definition fb_line :: "frame_buffer \<Rightarrow> int" where
  "fb_line fb = uint (fc_pixels_per_scanline (fb_config fb))"

definition fb_ok :: "frame_buffer \<Rightarrow> bool" where
  "fb_ok fb \<longleftrightarrow>
    known_format (fc_pixel_format (fb_config fb))
    \<and> 0 < fb_line fb \<and> fb_line fb < 2 ^ 29
    \<and> fb_width fb \<le> fb_line fb \<and> 0 \<le> fb_width fb \<and> 0 \<le> fb_height fb
    \<and> 4 * (fb_line fb * fb_height fb) < 2 ^ 31 \<and> 4 * (fb_line fb * fb_height fb) \<le> int (length (fb_mem fb))"

definition fb_dims :: "frame_buffer \<Rightarrow> int \<times> int" where
  "fb_dims fb = (fb_width fb, fb_height fb)"

text \<open>The colour of a visible pixel, read back through the format.\<close>

definition fb_offset :: "frame_buffer \<Rightarrow> vec2 \<Rightarrow> int" where
  "fb_offset fb p = 4 * (fb_line fb * vy p + vx p)"

definition fb_colour :: "frame_buffer \<Rightarrow> vec2 \<Rightarrow> pixel_color" where
  "fb_colour fb p =
    (let o' = nat (fb_offset fb p); m = fb_mem fb
     in if fc_pixel_format (fb_config fb) = PixelRGBResv8
        then rgb (m ! o') (m ! (o' + 1)) (m ! (o' + 2))
        else rgb (m ! (o' + 2)) (m ! (o' + 1)) (m ! o'))"

lemma fb_bytes [simp]: "known_format f \<Longrightarrow> bytes_per_pixel f = 4" "known_format f \<Longrightarrow> bits_per_pixel f = 32"
  by (auto simp: known_format_def bytes_per_pixel_def)

lemma fb_okD:
  assumes "fb_ok fb"
  shows "known_format (fc_pixel_format (fb_config fb))" "fb_width fb \<le> fb_line fb" "0 \<le> fb_width fb"
    "0 \<le> fb_height fb" "fb_line fb < 2 ^ 29" "0 < fb_line fb" "4 * (fb_line fb * fb_height fb) < 2 ^ 31"
    "4 * (fb_line fb * fb_height fb) \<le> int (length (fb_mem fb))"
  using assms by (simp_all only: fb_ok_def)

lemma fb_offset_bound:
  assumes "fb_ok fb" and "on_canvas (fb_dims fb) p"
  shows "0 \<le> fb_offset fb p" "fb_offset fb p + 4 \<le> 4 * (fb_line fb * fb_height fb)"
proof -
  have p: "0 \<le> vx p" "vx p < fb_line fb" "0 \<le> vy p" "vy p + 1 \<le> fb_height fb" "0 \<le> fb_line fb"
    using assms by (auto simp: fb_ok_def on_canvas_def fb_dims_def)
  then show "0 \<le> fb_offset fb p" by (simp add: fb_offset_def)
  have "fb_line fb * (vy p + 1) \<le> fb_line fb * fb_height fb" using p(4,5) by (rule mult_left_mono)
  with p(2) show "fb_offset fb p + 4 \<le> 4 * (fb_line fb * fb_height fb)" by (simp add: fb_offset_def algebra_simps)
qed

text \<open>The 32-bit computations of an address are exact for a pixel of the buffer, and one past a row.\<close>

lemma uint_line_offset:
  assumes "0 \<le> x" "0 \<le> y" and "4 * (uint l * y + x) < 2 ^ 32"
  shows "uint ((l * of_int y + of_int x) * 4 :: u32) = 4 * (uint l * y + x)"
proof -
  have "(l * of_int y + of_int x) * 4 = of_int (4 * (uint l * y + x))" by simp
  then have "uint ((l * of_int y + of_int x) * 4) = (4 * (uint l * y + x)) mod 2 ^ 32"
    by (simp only: uint_word_of_int) simp
  also have "\<dots> = 4 * (uint l * y + x)" using assms by (intro mod_pos_pos_trivial) auto
  finally show ?thesis .
qed

lemma pixel_at_offset:
  assumes "fb_ok fb" and "on_canvas (fb_dims fb) p"
  shows "pixel_at (fb_config fb) (vx p) (vy p) = nat (fb_offset fb p)"
proof -
  have "4 * (fb_line fb * vy p + vx p) < 2 ^ 31"
    using fb_offset_bound(2) [OF assms] fb_okD(7) [OF assms(1)] unfolding fb_offset_def by linarith
  also have "\<dots> < 2 ^ 32" by simp
  finally have "4 * (fb_line fb * vy p + vx p) < 2 ^ 32" .
  moreover have "0 \<le> vx p" "0 \<le> vy p" using assms(2) by (auto simp: on_canvas_def)
  ultimately show ?thesis
    using uint_line_offset [of "vx p" "vy p" "fc_pixels_per_scanline (fb_config fb)"]
    unfolding pixel_at_def unat_eq_nat_uint fb_line_def fb_offset_def by simp
qed

text \<open>Different pixels have different bytes.\<close>

lemma line_unique:
  fixes l :: int
  assumes "0 \<le> x" "x < l" "0 \<le> x'" "x' < l" "l * y + x = l * y' + x'"
  shows "x = x'" "y = y'"
proof -
  have "x = (l * y + x) mod l" using assms(1,2) by simp
  also have "\<dots> = (l * y' + x') mod l" by (simp only: assms(5))
  also have "\<dots> = x'" using assms(3,4) by simp
  finally show x: "x = x'" .
  from assms(5) x have "l * y = l * y'" by linarith
  with assms(1,2) show "y = y'" by simp
qed

lemma fb_offset_apart:
  assumes "fb_ok fb" and "on_canvas (fb_dims fb) p" and "on_canvas (fb_dims fb) q" and "p \<noteq> q"
  shows "fb_offset fb p + 4 \<le> fb_offset fb q \<or> fb_offset fb q + 4 \<le> fb_offset fb p"
proof -
  have b: "0 \<le> vx p" "vx p < fb_line fb" "0 \<le> vx q" "vx q < fb_line fb"
    using assms by (auto simp: fb_ok_def on_canvas_def fb_dims_def)
  have "fb_line fb * vy p + vx p \<noteq> fb_line fb * vy q + vx q"
  proof
    assume "fb_line fb * vy p + vx p = fb_line fb * vy q + vx q"
    from line_unique [OF b this] assms(4) show False by (simp add: vec2_eq_iff)
  qed
  then have "fb_line fb * vy p + vx p < fb_line fb * vy q + vx q \<or> fb_line fb * vy q + vx q < fb_line fb * vy p + vx p"
    by (simp only: neq_iff)
  then show ?thesis by (elim disjE) (simp_all add: fb_offset_def)
qed

lemma store3_Some:
  "p + 2 < length m \<Longrightarrow> store3 p a b c m = Some (m[p := a, p + 1 := b, p + 2 := c])"
  by (simp add: store3_def ub_simps)

lemma fb_write_on_canvas:
  assumes "fb_ok fb" and "on_canvas (fb_dims fb) p"
  shows "\<exists>fb'. fb_write p c fb = Some fb' \<and> fb_ok fb' \<and> fb_config fb' = fb_config fb \<and> fb_dims fb' = fb_dims fb
    \<and> (\<forall>q. on_canvas (fb_dims fb) q \<longrightarrow> fb_colour fb' q = (if q = p then c else fb_colour fb q))"
proof -
  let ?o = "nat (fb_offset fb p)"
  have b: "0 \<le> fb_offset fb p" "fb_offset fb p + 4 \<le> int (length (fb_mem fb))"
    using fb_offset_bound [OF assms] assms(1) by (auto simp: fb_ok_def)
  then have l: "?o + 2 < length (fb_mem fb)" by linarith
  have kf: "fc_pixel_format (fb_config fb) = PixelRGBResv8 \<or> fc_pixel_format (fb_config fb) = PixelBGRResv8"
    using assms(1) by (simp add: fb_ok_def known_format_def)
  let ?m = "if fc_pixel_format (fb_config fb) = PixelRGBResv8
    then (fb_mem fb)[?o := pc_r c, ?o + 1 := pc_g c, ?o + 2 := pc_b c]
    else (fb_mem fb)[?o := pc_b c, ?o + 1 := pc_g c, ?o + 2 := pc_r c]"
  let ?fb = "fb\<lparr>fb_mem := ?m\<rparr>"
  have w: "fb_write p c fb = Some ?fb"
    using kf l by (auto simp: fb_write_def pixel_at_offset [OF assms] store3_Some)
  have ok: "fb_ok ?fb" "fb_dims ?fb = fb_dims fb" "fb_offset ?fb = fb_offset fb"
    using assms(1) by (auto simp: fb_ok_def fb_dims_def fb_width_def fb_height_def fb_line_def fb_offset_def fun_eq_iff)
  have same: "fb_colour ?fb p = c"
    using l by (cases c) (simp add: fb_colour_def ok Let_def rgb_def nth_list_update)
  have other: "fb_colour ?fb q = fb_colour fb q" if q: "on_canvas (fb_dims fb) q" "q \<noteq> p" for q
  proof -
    have "0 \<le> fb_offset fb q" using fb_offset_bound [OF assms(1) q(1)] by simp
    with fb_offset_apart [OF assms(1) q(1) assms(2) q(2)] b(1)
    have "nat (fb_offset fb q) + 4 \<le> ?o \<or> ?o + 4 \<le> nat (fb_offset fb q)" by linarith
    then show ?thesis by (auto simp: fb_colour_def ok Let_def nth_list_update)
  qed
  from w ok(1,2) same other show ?thesis by (intro exI [of _ ?fb]) auto
qed

interpretation fbc: canvas fb_write fb_colour fb_dims "\<lambda>fb. fb_ok fb \<and> fb_config fb = cfg" for cfg
  by unfold_locales (use fb_write_on_canvas in blast)

section \<open>Rows\<close>

lemma mem_copy_Some:
  assumes "0 \<le> n" "0 \<le> d" "d + n \<le> int (length m)" "0 \<le> s" "s + n \<le> int (length src)"
  shows "\<exists>m'. mem_copy src n d s m = Some m' \<and> length m' = length m
    \<and> (\<forall>i < length m. m' ! i = (if d \<le> int i \<and> int i < d + n then src ! nat (s + (int i - d)) else m ! i))"
proof -
  let ?m = "take (nat d) m @ take (nat n) (drop (nat s) src) @ drop (nat (d + n)) m"
  have e: "mem_copy src n d s m = Some ?m" using assms by (simp add: mem_copy_def)
  have l: "length ?m = length m" using assms by (simp add: nat_add_distrib)
  have "?m ! i = (if d \<le> int i \<and> int i < d + n then src ! nat (s + (int i - d)) else m ! i)" if i: "i < length m" for i
  proof -
    have i2: "int i < int (length m)" using i by simp
    consider "int i < d" | "d \<le> int i" "int i < d + n" | "d + n \<le> int i" by linarith
    then show ?thesis
    proof cases
      case 1
      then have "i < nat d" "i < length m" using i by auto
      with 1 show ?thesis by (simp add: nth_append)
    next
      case 2
      then have "\<not> i < nat d" "i - nat d < nat n" "nat d \<le> length m" "nat n \<le> length src - nat s"
        using assms i2 by linarith+
      moreover have "nat s + (i - nat d) = nat (s + (int i - d))" "nat s \<le> length src" using 2 assms by linarith+
      then have "drop (nat s) src ! (i - nat d) = src ! nat (s + (int i - d))" by (simp only: nth_drop)
      ultimately show ?thesis using 2 assms by (simp add: nth_append min_def del: nth_drop)
    next
      case 3
      then have "\<not> i < nat d" "\<not> i - nat d < nat n" "nat d \<le> length m" "nat n \<le> length src - nat s"
        "nat (d + n) + (i - nat d - nat n) = i" "nat (d + n) \<le> length m"
        using assms i2 by linarith+
      with 3 assms show ?thesis by (simp add: nth_append min_def)
    qed
  qed
  with e l show ?thesis by blast
qed

text \<open>Byte \<open>i\<close> is in row \<open>k\<close> of a block of \<open>r\<close> rows of \<open>n\<close> bytes, \<open>step\<close> bytes apart from \<open>d\<close> on.\<close>

definition in_rows :: "int \<Rightarrow> int \<Rightarrow> int \<Rightarrow> int \<Rightarrow> int \<Rightarrow> bool" where
  "in_rows d step n r i \<longleftrightarrow> 0 \<le> (i - d) div step \<and> (i - d) div step < r \<and> (i - d) mod step < n"

lemma in_rows_first: "0 < step \<Longrightarrow> n \<le> step \<Longrightarrow> in_rows d step n 1 i \<longleftrightarrow> d \<le> i \<and> i < d + n"
proof -
  assume s: "0 < step" "n \<le> step"
  have q: "(i - d) div step = 0 \<longleftrightarrow> 0 \<le> i - d \<and> i - d < step" using s(1) by (auto simp: zdiv_eq_0_iff)
  show ?thesis
  proof (cases "0 \<le> i - d \<and> i - d < step")
    case True
    with q have "(i - d) div step = 0" "(i - d) mod step = i - d" by (simp_all add: mod_pos_pos_trivial)
    with True show ?thesis by (auto simp: in_rows_def)
  next
    case False
    with q have "(i - d) div step \<noteq> 0" by simp
    with False s show ?thesis by (auto simp: in_rows_def)
  qed
qed

lemma row_shift:
  fixes step :: int
  assumes "0 < step"
  shows "(i - (d + step)) div step = (i - d) div step - 1" "(i - (d + step)) mod step = (i - d) mod step"
proof -
  have e: "i - (d + step) = (i - d) + (- 1) * step" by simp
  show "(i - (d + step)) div step = (i - d) div step - 1" unfolding e using assms by (subst div_mult_self1) auto
  show "(i - (d + step)) mod step = (i - d) mod step" unfolding e by (subst mod_mult_self1) simp
qed

text \<open>The rows of \<open>Copy\<close>: every byte of a row comes from the row of the same number in the source.\<close>

lemma row_loop_copy:
  assumes "0 \<le> n" "0 < ds" "n \<le> ds" "0 \<le> ss" "0 \<le> d" "0 \<le> s"
    and "r = 0 \<or> d + (int r - 1) * ds + n \<le> int (length m) \<and> s + (int r - 1) * ss + n \<le> int (length src)"
  shows "\<exists>m'. row_loop (mem_copy src n) ds ss r d s m = Some m' \<and> length m' = length m
    \<and> (\<forall>i < length m. m' ! i = (if in_rows d ds n (int r) (int i)
          then src ! nat (s + (int i - d) div ds * ss + (int i - d) mod ds) else m ! i))"
  using assms(5,6,7)
proof (induction r arbitrary: d s m)
  case 0
  have "\<not> in_rows d ds n (int 0) i" for i by (simp add: in_rows_def)
  then show ?case by (auto simp only: row_loop.simps if_False)
next
  case (Suc r)
  have nn: "0 \<le> int r * ds" "0 \<le> int r * ss" using assms(2,4) by simp_all
  with Suc.prems have b: "d + n \<le> int (length m)" "s + n \<le> int (length src)" by simp_all
  from mem_copy_Some [OF assms(1) Suc.prems(1) b(1) Suc.prems(2) b(2)] obtain m1 where
    m1: "mem_copy src n d s m = Some m1" "length m1 = length m"
      "\<forall>i < length m. m1 ! i = (if d \<le> int i \<and> int i < d + n then src ! nat (s + (int i - d)) else m ! i)" by blast
  have "r = 0 \<or> d + ds + (int r - 1) * ds + n \<le> int (length m1) \<and> s + ss + (int r - 1) * ss + n \<le> int (length src)"
    using Suc.prems(3) m1(2) by (simp add: algebra_simps)
  with Suc.IH [of "d + ds" "s + ss" m1] Suc.prems assms(2,4) m1(2) obtain m2 where
    m2: "row_loop (mem_copy src n) ds ss r (d + ds) (s + ss) m1 = Some m2" "length m2 = length m"
      "\<forall>i < length m. m2 ! i = (if in_rows (d + ds) ds n (int r) (int i)
        then src ! nat (s + ss + (int i - (d + ds)) div ds * ss + (int i - (d + ds)) mod ds) else m1 ! i)" by auto
  have "m2 ! i = (if in_rows d ds n (int (Suc r)) (int i)
      then src ! nat (s + (int i - d) div ds * ss + (int i - d) mod ds) else m ! i)" if i: "i < length m" for i
  proof (cases "in_rows (d + ds) ds n (int r) (int i)")
    case True
    then have "in_rows d ds n (int (Suc r)) (int i)" using assms(2) by (simp add: in_rows_def row_shift)
    moreover have e: "s + ss + ((int i - d) div ds - 1) * ss + (int i - d) mod ds = s + (int i - d) div ds * ss + (int i - d) mod ds"
      by (simp add: algebra_simps)
    ultimately show ?thesis
      using m2(3) [rule_format, OF i] True unfolding row_shift [OF assms(2)] e by (simp only: if_True)
  next
    case False
    then have "in_rows d ds n (int (Suc r)) (int i) \<longleftrightarrow> in_rows d ds n 1 (int i)"
      using assms(2) by (auto simp: in_rows_def row_shift)
    moreover have "(int i - d) div ds = 0 \<and> (int i - d) mod ds = int i - d" if "d \<le> int i" "int i < d + n"
      using that assms(3) by (simp add: div_pos_pos_trivial mod_pos_pos_trivial)
    ultimately show ?thesis
      using False m1(3) m2(3) i in_rows_first [OF assms(2,3), of d "int i"] by auto
  qed
  with m1(1) m2(1,2) show ?case by simp
qed

text \<open>The bytes of a pixel in a block of rows.\<close>

lemma div_mod_shift:
  fixes c k x :: int
  assumes "0 \<le> x" "x < c"
  shows "(c * k + x) div c = k" "(c * k + x) mod c = x"
  using assms by simp_all

lemma pixel_in_rows:
  assumes "0 < l" "0 \<le> x0" "x0 + w \<le> l" "0 \<le> w" "0 \<le> x" "x < l" "0 \<le> b" "b < 4"
  shows "in_rows (4 * (l * y0 + x0)) (4 * l) (4 * w) h (4 * (l * y + x) + b)
      \<longleftrightarrow> y0 \<le> y \<and> y < y0 + h \<and> x0 \<le> x \<and> x < x0 + w"
    and "x0 \<le> x \<Longrightarrow> (4 * (l * y + x) + b - 4 * (l * y0 + x0)) div (4 * l) = y - y0"
    and "x0 \<le> x \<Longrightarrow> (4 * (l * y + x) + b - 4 * (l * y0 + x0)) mod (4 * l) = 4 * (x - x0) + b"
proof -
  let ?i = "4 * (l * y + x) + b - 4 * (l * y0 + x0)"
  have right: "?i div (4 * l) = y - y0 \<and> ?i mod (4 * l) = 4 * (x - x0) + b" if "x0 \<le> x"
  proof -
    have e: "?i = 4 * l * (y - y0) + (4 * (x - x0) + b)" by (simp add: algebra_simps)
    have "0 \<le> 4 * (x - x0) + b" "4 * (x - x0) + b < 4 * l" using that assms by auto
    then show ?thesis unfolding e by (simp only: div_mod_shift)
  qed
  have left: "?i mod (4 * l) = 4 * (l + x - x0) + b" if "x < x0"
  proof -
    have e: "?i = 4 * l * (y - y0 - 1) + (4 * (l + x - x0) + b)" by (simp add: algebra_simps)
    have "0 \<le> 4 * (l + x - x0) + b" "4 * (l + x - x0) + b < 4 * l" using that assms by auto
    then show ?thesis unfolding e by (simp only: div_mod_shift)
  qed
  from right show "x0 \<le> x \<Longrightarrow> ?i div (4 * l) = y - y0" "x0 \<le> x \<Longrightarrow> ?i mod (4 * l) = 4 * (x - x0) + b" by simp_all
  show "in_rows (4 * (l * y0 + x0)) (4 * l) (4 * w) h (4 * (l * y + x) + b)
      \<longleftrightarrow> y0 \<le> y \<and> y < y0 + h \<and> x0 \<le> x \<and> x < x0 + w"
    using right left assms by (cases "x0 \<le> x") (auto simp: in_rows_def)
qed

text \<open>Two buffers whose bytes agree at a pixel agree in its colour.\<close>

lemma fb_colour_cong:
  assumes "fc_pixel_format (fb_config fb) = fc_pixel_format (fb_config fb')"
    and "\<forall>b < 3. fb_mem fb ! (nat (fb_offset fb p) + b) = fb_mem fb' ! (nat (fb_offset fb' q) + b)"
  shows "fb_colour fb p = fb_colour fb' q"
  using assms(1) assms(2) [rule_format, of 0] assms(2) [rule_format, of 1] assms(2) [rule_format, of 2]
  by (simp add: fb_colour_def Let_def)

lemma rows_fit:
  assumes "fb_ok fb" "0 \<le> x0" "0 \<le> y0" "x0 + w \<le> fb_width fb" "y0 + h \<le> fb_height fb" "0 < h"
  shows "4 * (fb_line fb * y0 + x0) + (h - 1) * (4 * fb_line fb) + 4 * w \<le> 4 * (fb_line fb * fb_height fb)"
    and "0 \<le> 4 * (fb_line fb * y0 + x0)"
proof -
  have "fb_line fb * (y0 + h) \<le> fb_line fb * fb_height fb"
    using assms(5) fb_okD(6) [OF assms(1)] by (intro mult_left_mono) auto
  moreover have "x0 + w \<le> fb_line fb" using assms(4) fb_okD(2) [OF assms(1)] by linarith
  ultimately show "4 * (fb_line fb * y0 + x0) + (h - 1) * (4 * fb_line fb) + 4 * w \<le> 4 * (fb_line fb * fb_height fb)"
    by (simp add: algebra_simps)
  show "0 \<le> 4 * (fb_line fb * y0 + x0)" using assms(2,3) fb_okD(6) [OF assms(1)] by simp
qed

text \<open>
  A block of \<open>h\<close> rows of \<open>w\<close> pixels at \<open>(x0, y0)\<close> that came, byte by byte, from the block at
  \<open>(sx, sy)\<close> of a source: read as colours.
\<close>

definition block_bytes ::
  "int \<Rightarrow> int \<Rightarrow> int \<Rightarrow> int \<Rightarrow> int \<Rightarrow> int \<Rightarrow> frame_buffer \<Rightarrow> frame_buffer \<Rightarrow> u8 list \<Rightarrow> bool" where
  "block_bytes x0 y0 w h sx sy src dst m \<longleftrightarrow>
    length m = length (fb_mem dst) \<and>
    (\<forall>i < length (fb_mem dst). m ! i =
      (if in_rows (4 * (fb_line dst * y0 + x0)) (4 * fb_line dst) (4 * w) h (int i)
       then fb_mem src ! nat (4 * (fb_line src * sy + sx)
         + (int i - 4 * (fb_line dst * y0 + x0)) div (4 * fb_line dst) * (4 * fb_line src)
         + (int i - 4 * (fb_line dst * y0 + x0)) mod (4 * fb_line dst))
       else fb_mem dst ! i))"

lemma block_colour:
  assumes ok: "fb_ok dst" "fb_ok src" and f: "fc_pixel_format (fb_config dst) = fc_pixel_format (fb_config src)"
    and w: "0 \<le> w" "0 \<le> x0" "x0 + w \<le> fb_width dst" and s: "0 \<le> sx" "0 \<le> sy"
    and m: "block_bytes x0 y0 w h sx sy src dst m" and q: "on_canvas (fb_dims dst) q"
  shows "fb_colour (dst\<lparr>fb_mem := m\<rparr>) q =
    (if rect_mem (rect (vec x0 y0) (vec w h)) q
     then fb_colour src (vec (sx + (vx q - x0)) (sy + (vy q - y0))) else fb_colour dst q)"
proof -
  let ?d = "4 * (fb_line dst * y0 + x0)" and ?s = "4 * (fb_line src * sy + sx)"
  let ?L = "fb_line dst" and ?K = "fb_line src" and ?dst = "dst\<lparr>fb_mem := m\<rparr>"
  let ?p = "vec (sx + (vx q - x0)) (sy + (vy q - y0))"
  have L: "0 < ?L" "x0 + w \<le> ?L" "0 < ?K" using ok w(3) by (auto simp: fb_ok_def)
  have off: "fb_offset ?dst q = fb_offset dst q" by (simp add: fb_offset_def fb_line_def)
  have q2: "0 \<le> vx q" "vx q < ?L" using q fb_okD(2) [OF ok(1)] by (auto simp: on_canvas_def fb_dims_def)
  have o0: "0 \<le> fb_offset dst q" "fb_offset dst q + 4 \<le> int (length (fb_mem dst))"
    using fb_offset_bound [OF ok(1) q] fb_okD(8) [OF ok(1)] by linarith+
  have byte: "m ! (nat (fb_offset dst q) + b) = (if rect_mem (rect (vec x0 y0) (vec w h)) q
      then fb_mem src ! (nat (fb_offset src ?p) + b) else fb_mem dst ! (nat (fb_offset dst q) + b))"
    if b: "b < 3" for b
  proof -
    have i: "nat (fb_offset dst q) + b < length (fb_mem dst)" using o0 b by linarith
    have ii: "int (nat (fb_offset dst q) + b) = 4 * (?L * vy q + vx q) + int b"
      using o0(1) by (simp add: fb_offset_def)
    have b4: "0 \<le> int b" "int b < 4" using b by auto
    note rows = pixel_in_rows [OF L(1) w(2) L(2) w(1) q2 b4]
    have inr: "in_rows ?d (4 * ?L) (4 * w) h (4 * (?L * vy q + vx q) + int b)
        \<longleftrightarrow> rect_mem (rect (vec x0 y0) (vec w h)) q"
      unfolding rows(1) by (auto simp: rect_mem_def)
    note mi = m [unfolded block_bytes_def, THEN conjunct2, rule_format, OF i, unfolded ii inr]
    show ?thesis
    proof (cases "rect_mem (rect (vec x0 y0) (vec w h)) q")
      case True
      then have x: "x0 \<le> vx q" "y0 \<le> vy q" by (auto simp: rect_mem_def)
      have e: "?s + (vy q - y0) * (4 * ?K) + (4 * (vx q - x0) + int b) = fb_offset src ?p + int b"
        by (simp add: fb_offset_def algebra_simps)
      have "0 \<le> fb_offset src ?p" using x s L(3) by (simp add: fb_offset_def)
      moreover have "m ! (nat (fb_offset dst q) + b) = fb_mem src ! nat (fb_offset src ?p + int b)"
        using mi True unfolding rows(2,3) [OF x(1)] e by (simp only: if_True)
      ultimately show ?thesis using True by (simp add: nat_add_distrib)
    next
      case False
      then show ?thesis using mi by (simp only: if_False)
    qed
  qed
  then show ?thesis
    using f by (cases "rect_mem (rect (vec x0 y0) (vec w h)) q")
      (simp_all add: off fb_colour_cong [of ?dst src q ?p] fb_colour_cong [of ?dst dst q q])
qed

lemma copy_block:
  assumes ok: "fb_ok dst" "fb_ok src" and w: "0 \<le> w" "0 < h"
    and d: "0 \<le> x0" "0 \<le> y0" "x0 + w \<le> fb_width dst" "y0 + h \<le> fb_height dst"
    and s: "0 \<le> sx" "0 \<le> sy" "sx + w \<le> fb_width src" "sy + h \<le> fb_height src"
  shows "\<exists>m. row_loop (mem_copy (fb_mem src) (4 * w)) (4 * fb_line dst) (4 * fb_line src) (nat h)
        (4 * (fb_line dst * y0 + x0)) (4 * (fb_line src * sy + sx)) (fb_mem dst) = Some m
      \<and> block_bytes x0 y0 w h sx sy src dst m"
proof -
  let ?d = "4 * (fb_line dst * y0 + x0)" and ?s = "4 * (fb_line src * sy + sx)"
  let ?L = "fb_line dst" and ?K = "fb_line src"
  have L: "0 < ?L" "x0 + w \<le> ?L" "0 < ?K" using ok d(3) by (auto simp: fb_ok_def)
  have hn: "int (nat h) = h" using w(2) by simp
  have "nat h = 0 \<or> ?d + (int (nat h) - 1) * (4 * ?L) + 4 * w \<le> int (length (fb_mem dst))
      \<and> ?s + (int (nat h) - 1) * (4 * ?K) + 4 * w \<le> int (length (fb_mem src))"
    using rows_fit(1) [OF ok(1) d w(2)] rows_fit(1) [OF ok(2) s w(2)] fb_okD(8) [OF ok(1)] fb_okD(8) [OF ok(2)]
    unfolding hn by linarith
  with row_loop_copy [of "4 * w" "4 * ?L" "4 * ?K" ?d ?s "nat h" "fb_mem dst" "fb_mem src"] w(1) L d(1)
    rows_fit(2) [OF ok(1) d w(2)] rows_fit(2) [OF ok(2) s w(2)]
  show ?thesis unfolding hn block_bytes_def by auto
qed

section \<open>What \<open>Copy\<close> does\<close>

lemma rect_and_within:
  assumes "0 < vy (rsize (rect_and a b))"
  shows "vx (rpos a) \<le> vx (rpos (rect_and a b))" "vy (rpos a) \<le> vy (rpos (rect_and a b))"
    "vx (rpos (rect_and a b)) + vx (rsize (rect_and a b)) \<le> vx (rpos a) + vx (rsize a)"
    "vy (rpos (rect_and a b)) + vy (rsize (rect_and a b)) \<le> vy (rpos a) + vy (rsize a)"
    "vx (rpos b) \<le> vx (rpos (rect_and a b))" "vy (rpos b) \<le> vy (rpos (rect_and a b))"
    "vx (rpos (rect_and a b)) + vx (rsize (rect_and a b)) \<le> vx (rpos b) + vx (rsize b)"
    "vy (rpos (rect_and a b)) + vy (rsize (rect_and a b)) \<le> vy (rpos b) + vy (rsize b)"
  using assms by (auto simp: rect_and_def Let_def split: if_splits)

lemma rect_and_empty:
  assumes "0 \<le> vx (rsize b)" "0 \<le> vy (rsize b)" "vx (rsize a) = 0" "vy (rsize a) = 0"
  shows "vy (rsize (rect_and a b)) = 0"
  using assms by (auto simp: rect_and_def Let_def)

text \<open>A common part with a row is a common part of each pair: an empty one has no rows.\<close>

lemma rect_and_rows:
  assumes "0 < vy (rsize (rect_and (rect_and a b) c))" "0 \<le> vx (rsize c)" "0 \<le> vy (rsize c)"
  shows "0 < vy (rsize (rect_and a b))"
proof (rule ccontr)
  assume n: "\<not> 0 < vy (rsize (rect_and a b))"
  from rect_and_within(2,4) [OF assms(1)] assms(1) have "0 < vy (rsize (rect_and a b))" by linarith
  with n show False by simp
qed

lemma frame_addr_at_exact:
  assumes "fb_ok fb" "0 \<le> vx p" "0 \<le> vy p" "4 * (fb_line fb * vy p + vx p) < 2 ^ 31"
  shows "frame_addr_at p (fb_config fb) = Some (4 * (fb_line fb * vy p + vx p))"
proof -
  have "4 * (fb_line fb * vy p + vx p) < 2 ^ 32" using assms(4) by simp
  then show ?thesis
    using uint_line_offset [of "vx p" "vy p" "fc_pixels_per_scanline (fb_config fb)"] assms(2,3) fb_okD(1) [OF assms(1)]
    by (simp add: frame_addr_at_def fb_line_def mult.commute)
qed

lemma block_start:
  assumes "fb_ok fb" "0 \<le> vx p" "0 \<le> vy p" "vx p + w \<le> fb_width fb" "vy p + h \<le> fb_height fb" "0 < h" "0 \<le> w"
  shows "frame_addr_at p (fb_config fb) = Some (4 * (fb_line fb * vy p + vx p))"
proof (rule frame_addr_at_exact [OF assms(1-3)])
  have "0 \<le> (h - 1) * (4 * fb_line fb)" using assms(6) fb_okD(6) [OF assms(1)] by simp
  then show "4 * (fb_line fb * vy p + vx p) < 2 ^ 31"
    using rows_fit(1) [OF assms(1-6)] fb_okD(7) [OF assms(1)] assms(7) by linarith
qed

lemma frame_addr_at_Some: "fb_ok fb \<Longrightarrow> \<exists>a. frame_addr_at p (fb_config fb) = Some a"
  using fb_okD(1) [of fb] by (simp add: frame_addr_at_def)

lemma line_step: "fb_ok fb \<Longrightarrow> uint (of_int 4 * fc_pixels_per_scanline (fb_config fb)) = 4 * fb_line fb"
  using uint_line_offset [of 0 1 "fc_pixels_per_scanline (fb_config fb)"] fb_okD(6) [of fb] fb_okD(5) [of fb]
  by (simp add: fb_line_def mult.commute)

lemma fb_ok_mem: "fb_ok fb \<Longrightarrow> length m = length (fb_mem fb) \<Longrightarrow> fb_ok (fb\<lparr>fb_mem := m\<rparr>)"
  by (simp add: fb_ok_def fb_width_def fb_height_def fb_line_def)

lemma fb_dims_mem [simp]: "fb_dims (fb\<lparr>fb_mem := m\<rparr>) = fb_dims fb"
  by (simp add: fb_dims_def fb_width_def fb_height_def)

text \<open>The copied area: the pixels of the destination whose source pixel exists and is asked for.\<close>

lemma copy_area_mem:
  "rect_mem (rect_and (rect_and (rect (vec 0 0) (vec dw dh)) (rect (vsub pos (rpos area)) (vec sw sh)))
      (rect pos (rsize area))) q
    \<longleftrightarrow> on_canvas (dw, dh) q \<and> on_canvas (sw, sh) (vadd (vsub q pos) (rpos area))
      \<and> rect_mem area (vadd (vsub q pos) (rpos area))"
  by (auto simp: rect_mem_and) (auto simp: rect_mem_def on_canvas_def)

lemma frame_copy_eq:
  assumes ok: "fb_ok dst" "fb_ok src" and f: "fc_pixel_format (fb_config dst) = fc_pixel_format (fb_config src)"
    and A: "A = rect_and (rect_and (rect (vec 0 0) (vec (fb_width dst) (fb_height dst)))
      (rect (vsub pos (rpos area)) (vec (fb_width src) (fb_height src)))) (rect pos (rsize area))"
  shows "frame_copy pos src area dst = do {
     dst_buf \<leftarrow> frame_addr_at (rpos A) (fb_config dst);
     src_buf \<leftarrow> frame_addr_at (vsub (rpos A) (vsub pos (rpos area))) (fb_config src);
     m \<leftarrow> row_loop (mem_copy (fb_mem src) (4 * vx (rsize A))) (4 * fb_line dst) (4 * fb_line src)
            (nat (vy (rsize A))) dst_buf src_buf (fb_mem dst);
     Some (KSuccess, dst\<lparr>fb_mem := m\<rparr>) }"
proof -
  have k: "known_format (fc_pixel_format (fb_config dst))" using fb_okD(1) [OF ok(1)] .
  have z: "frame_buffer_size (fb_config dst) = vec (fb_width dst) (fb_height dst)"
    "frame_buffer_size (fb_config src) = vec (fb_width src) (fb_height src)"
    by (simp_all add: frame_buffer_size_def fb_width_def fb_height_def)
  have "bytes_per_pixel (fc_pixel_format (fb_config dst)) = 4" "\<not> bits_per_pixel (fc_pixel_format (fb_config dst)) \<le> 0"
    using k by simp_all
  with f show ?thesis
    unfolding frame_copy_def Let_def z A [symmetric] line_step [OF ok(1)] line_step [OF ok(2)]
    by (simp only: line_step [OF ok(1)] line_step [OF ok(2)] refl not_True_eq_False if_False simp_thms)
qed

lemma frame_copy_spec:
  assumes ok: "fb_ok dst" "fb_ok src" and f: "fc_pixel_format (fb_config dst) = fc_pixel_format (fb_config src)"
    and sz: "0 \<le> vx (rsize area)" "0 \<le> vy (rsize area)"
  shows "\<exists>m. frame_copy pos src area dst = Some (KSuccess, dst\<lparr>fb_mem := m\<rparr>) \<and> fb_ok (dst\<lparr>fb_mem := m\<rparr>)
    \<and> (\<forall>q. on_canvas (fb_dims dst) q \<longrightarrow> fb_colour (dst\<lparr>fb_mem := m\<rparr>) q =
          (let p = vadd (vsub q pos) (rpos area)
           in if rect_mem area p \<and> on_canvas (fb_dims src) p then fb_colour src p else fb_colour dst q))"
proof -
  let ?D = "rect (vec 0 0) (vec (fb_width dst) (fb_height dst))"
  let ?S = "rect (vsub pos (rpos area)) (vec (fb_width src) (fb_height src))"
  let ?R = "rect pos (rsize area)"
  obtain A where A: "A = rect_and (rect_and ?D ?S) ?R" by simp
  let ?s = "vsub (rpos A) (vsub pos (rpos area))"
  let ?x = "vx (rpos A)" and ?y = "vy (rpos A)" and ?w = "vx (rsize A)" and ?h = "vy (rsize A)"
  have area: "rect_mem A q \<longleftrightarrow> on_canvas (fb_dims dst) q \<and> on_canvas (fb_dims src) (vadd (vsub q pos) (rpos area))
      \<and> rect_mem area (vadd (vsub q pos) (rpos area))" for q
    unfolding A fb_dims_def copy_area_mem ..
  have w: "0 \<le> ?w" using sz(1) fb_okD(3) [OF ok(1)] fb_okD(3) [OF ok(2)] unfolding A by (intro rect_and_size) simp_all
  show ?thesis
  proof (cases "0 < ?h")
    case True
    note in1 = rect_and_within [OF True [unfolded A]]
    note in2 = rect_and_within [OF rect_and_rows [OF True [unfolded A]], simplified, OF sz]
    have b: "0 \<le> ?x" "0 \<le> ?y" "?x + ?w \<le> fb_width dst" "?y + ?h \<le> fb_height dst"
      and c: "0 \<le> vx ?s" "0 \<le> vy ?s" "vx ?s + ?w \<le> fb_width src" "vy ?s + ?h \<le> fb_height src"
      using in1 in2 unfolding A [symmetric] by simp_all
    have a: "frame_addr_at (rpos A) (fb_config dst) = Some (4 * (fb_line dst * ?y + ?x))"
      "frame_addr_at ?s (fb_config src) = Some (4 * (fb_line src * vy ?s + vx ?s))"
      by (rule block_start [OF ok(1) b True w], rule block_start [OF ok(2) c True w])
    from copy_block [OF ok w True b c] obtain m where
      m: "row_loop (mem_copy (fb_mem src) (4 * ?w)) (4 * fb_line dst) (4 * fb_line src) (nat ?h)
        (4 * (fb_line dst * ?y + ?x)) (4 * (fb_line src * vy ?s + vx ?s)) (fb_mem dst) = Some m"
        "block_bytes ?x ?y ?w ?h (vx ?s) (vy ?s) src dst m" by blast
    have e: "vec (vx ?s + (vx q - ?x)) (vy ?s + (vy q - ?y)) = vadd (vsub q pos) (rpos area)" for q
      by (simp add: vec2_eq_iff)
    have "fb_ok (dst\<lparr>fb_mem := m\<rparr>)" using m(2) ok(1) by (simp add: fb_ok_mem block_bytes_def)
    moreover have "frame_copy pos src area dst = Some (KSuccess, dst\<lparr>fb_mem := m\<rparr>)"
      by (simp only: frame_copy_eq [OF ok f A] a m(1) bind.bind_lunit)
    moreover have "fb_colour (dst\<lparr>fb_mem := m\<rparr>) q = (let p = vadd (vsub q pos) (rpos area)
        in if rect_mem area p \<and> on_canvas (fb_dims src) p then fb_colour src p else fb_colour dst q)"
      if q: "on_canvas (fb_dims dst) q" for q
    proof -
      have r: "rect (vec ?x ?y) (vec ?w ?h) = A" by (cases A) (simp add: rect_def)
      show ?thesis
        unfolding block_colour [OF ok f w b(1,3) c(1,2) m(2) q, unfolded r area e] Let_def using q by simp
    qed
    ultimately show ?thesis by blast
  next
    case False
    then have "\<not> rect_mem A q" for q by (auto simp: rect_mem_def)
    moreover have "frame_copy pos src area dst = Some (KSuccess, dst\<lparr>fb_mem := fb_mem dst\<rparr>)"
      using False frame_addr_at_Some [OF ok(1), of "rpos A"] frame_addr_at_Some [OF ok(2), of ?s]
      by (auto simp: frame_copy_eq [OF ok f A])
    ultimately show ?thesis using ok(1) area by (intro exI [of _ "fb_mem dst"]) (auto simp: Let_def)
  qed
qed


definition sample_buffer :: "nat \<Rightarrow> u8 \<Rightarrow> frame_buffer" where
  "sample_buffer w v =
    \<lparr>fb_config = \<lparr>fc_pixels_per_scanline = of_nat w, fc_horizontal_resolution = of_nat w,
       fc_vertical_resolution = 2, fc_pixel_format = PixelRGBResv8\<rparr>, fb_mem = replicate (8 * w) v\<rparr>"

lemma sample_buffer_ok: "fb_ok (sample_buffer 2 v)" "fb_dims (sample_buffer 2 v) = (2, 2)"
  by (simp_all add: sample_buffer_def fb_ok_def known_format_def fb_width_def fb_height_def fb_line_def fb_dims_def)


section \<open>What \<open>Move\<close> does\<close>

text \<open>
  Inside one buffer the rows are copied away from the rows still to be read: the first row ends before
  the rows of the source begin, or, from the last row upwards, the source ends before it begins.
\<close>

lemma move_rows_down:
  assumes "0 \<le> n" "0 < ds" "n \<le> ds" "0 \<le> d" "d + n \<le> s"
    and "r = 0 \<or> s + (int r - 1) * ds + n \<le> int (length m)"
  shows "\<exists>m'. row_loop (mem_copy_within n) ds ds r d s m = Some m' \<and> length m' = length m
    \<and> (\<forall>i < length m. m' ! i = (if in_rows d ds n (int r) (int i) then m ! nat (s + (int i - d)) else m ! i))"
  using assms(4-6)
proof (induction r arbitrary: d s m)
  case 0
  have "\<not> in_rows d ds n (int 0) i" for i by (simp add: in_rows_def)
  then show ?case by (auto simp only: row_loop.simps if_False)
next
  case (Suc r)
  have nn: "0 \<le> int r * ds" using assms(2) by simp
  with Suc.prems have b: "s + n \<le> int (length m)" "d + n \<le> int (length m)" "0 \<le> s" using assms(1) by simp_all
  from mem_copy_Some [OF assms(1) Suc.prems(1) b(2,3,1)] obtain m1 where
    m1: "mem_copy m n d s m = Some m1" "length m1 = length m"
      "\<forall>i < length m. m1 ! i = (if d \<le> int i \<and> int i < d + n then m ! nat (s + (int i - d)) else m ! i)" by blast
  have w: "mem_copy_within n d s m = Some m1" using m1(1) Suc.prems(2) by (simp add: mem_copy_within_def)
  have "r = 0 \<or> s + ds + (int r - 1) * ds + n \<le> int (length m1)"
    using Suc.prems(3) m1(2) by (simp add: algebra_simps)
  with Suc.IH [of "d + ds" "s + ds" m1] Suc.prems assms(2) m1(2) obtain m2 where
    m2: "row_loop (mem_copy_within n) ds ds r (d + ds) (s + ds) m1 = Some m2" "length m2 = length m"
      "\<forall>i < length m. m2 ! i = (if in_rows (d + ds) ds n (int r) (int i)
        then m1 ! nat (s + ds + (int i - (d + ds))) else m1 ! i)" by auto
  have "m2 ! i = (if in_rows d ds n (int (Suc r)) (int i) then m ! nat (s + (int i - d)) else m ! i)"
    if i: "i < length m" for i
  proof (cases "in_rows (d + ds) ds n (int r) (int i)")
    case True
    then have q: "0 \<le> (int i - d) div ds - 1" "(int i - d) div ds - 1 < int r" "(int i - d) mod ds < n"
      using assms(2) by (simp_all add: in_rows_def row_shift)
    have split: "int i - d = ds * ((int i - d) div ds) + (int i - d) mod ds" by simp
    have lo: "ds \<le> int i - d" using q(1) assms(2) split by (smt (verit) mult_le_cancel_left1 pos_mod_sign)
    have "ds * ((int i - d) div ds) \<le> ds * int r" using q(2) assms(2) by (intro mult_left_mono) auto
    with split q(3) have hi: "int i - d < ds * int r + n" by linarith
    have "s + (int i - d) < int (length m)" using hi Suc.prems(3) by (simp add: algebra_simps)
    then have "nat (s + (int i - d)) < length m" using i by linarith
    moreover have "\<not> int (nat (s + (int i - d))) < d + n" using lo Suc.prems(2) b(3) assms(1,2) by linarith
    moreover have "in_rows d ds n (int (Suc r)) (int i)" using q by (simp add: in_rows_def)
    ultimately show ?thesis using True m1(3) m2(3) i by simp
  next
    case False
    then have "in_rows d ds n (int (Suc r)) (int i) \<longleftrightarrow> in_rows d ds n 1 (int i)"
      using assms(2) by (auto simp: in_rows_def row_shift)
    then show ?thesis
      using False m1(3) m2(3) i in_rows_first [OF assms(2,3), of d "int i"] by auto
  qed
  with w m2(1,2) show ?case by simp
qed

lemma move_rows_up:
  assumes "0 \<le> n" "0 < ds" "n \<le> ds" "0 \<le> s" "s + n \<le> d"
    and "r = 0 \<or> d + (int r - 1) * ds + n \<le> int (length m)"
  shows "\<exists>m'. row_loop (mem_copy_within n) (- ds) (- ds) r (d + (int r - 1) * ds) (s + (int r - 1) * ds) m = Some m'
    \<and> length m' = length m
    \<and> (\<forall>i < length m. m' ! i = (if in_rows d ds n (int r) (int i) then m ! nat (s + (int i - d)) else m ! i))"
  using assms(6)
proof (induction r arbitrary: m)
  case 0
  have "\<not> in_rows d ds n (int 0) i" for i by (simp add: in_rows_def)
  then show ?case by (auto simp only: row_loop.simps if_False)
next
  case (Suc r)
  let ?d = "d + int r * ds" and ?s = "s + int r * ds"
  have nn: "0 \<le> int r * ds" using assms(2) by simp
  with Suc.prems assms have b: "0 \<le> ?d" "?d + n \<le> int (length m)" "0 \<le> ?s" "?s + n \<le> int (length m)" by auto
  from mem_copy_Some [OF assms(1) b] obtain m1 where
    m1: "mem_copy m n ?d ?s m = Some m1" "length m1 = length m"
      "\<forall>i < length m. m1 ! i = (if ?d \<le> int i \<and> int i < ?d + n then m ! nat (?s + (int i - ?d)) else m ! i)" by blast
  have w: "mem_copy_within n ?d ?s m = Some m1" using m1(1) assms(5) by (simp add: mem_copy_within_def)
  have "r = 0 \<or> d + (int r - 1) * ds + n \<le> int (length m1)"
    using b(2) m1(2) assms(2) by (simp add: algebra_simps)
  from Suc.IH [OF this] m1(2) obtain m2 where
    m2: "row_loop (mem_copy_within n) (- ds) (- ds) r (d + (int r - 1) * ds) (s + (int r - 1) * ds) m1 = Some m2"
      "length m2 = length m"
      "\<forall>i < length m. m2 ! i = (if in_rows d ds n (int r) (int i) then m1 ! nat (s + (int i - d)) else m1 ! i)" by auto
  have "m2 ! i = (if in_rows d ds n (int (Suc r)) (int i) then m ! nat (s + (int i - d)) else m ! i)"
    if i: "i < length m" for i
  proof (cases "in_rows d ds n (int r) (int i)")
    case True
    then have q: "0 \<le> (int i - d) div ds" "(int i - d) div ds \<le> int r - 1" "(int i - d) mod ds < n"
      by (simp_all add: in_rows_def)
    have split: "int i - d = ds * ((int i - d) div ds) + (int i - d) mod ds" by simp
    have "0 \<le> ds * ((int i - d) div ds)" using q(1) assms(2) by simp
    with split assms(2) have lo: "0 \<le> int i - d" by (smt (verit) pos_mod_sign)
    have "ds * ((int i - d) div ds) \<le> ds * (int r - 1)" using q(2) assms(2) by (intro mult_left_mono) auto
    moreover have "ds * (int r - 1) = int r * ds - ds" by (simp add: algebra_simps)
    ultimately have hi: "int i - d < int r * ds" using split q(3) assms(3) by linarith
    have "nat (s + (int i - d)) < length m" "\<not> ?d \<le> int (nat (s + (int i - d)))"
      using i lo hi assms(1,4,5) by linarith+
    moreover have "in_rows d ds n (int (Suc r)) (int i)" using q by (simp add: in_rows_def)
    ultimately show ?thesis using True m1(3) m2(3) i by simp
  next
    case False
    have e: "int i - ?d = (int i - d) + (- int r) * ds" by simp
    have "(int i - ?d) div ds = (int i - d) div ds - int r" "(int i - ?d) mod ds = (int i - d) mod ds"
      unfolding e using assms(2) by (simp_all only: div_mult_self1 mod_mult_self1)
    then have "in_rows ?d ds n 1 (int i) \<longleftrightarrow> in_rows d ds n (int (Suc r)) (int i)"
      using False by (auto simp: in_rows_def)
    then show ?thesis
      using False m1(3) m2(3) i in_rows_first [OF assms(2,3), of ?d "int i"] by auto
  qed
  with w m2(1,2) show ?case by (simp add: algebra_simps)
qed

lemma move_bytes:
  assumes ok: "fb_ok fb" and "length m = length (fb_mem fb)"
    and "\<forall>i < length (fb_mem fb). m ! i =
      (if in_rows (4 * (fb_line fb * y0 + x0)) (4 * fb_line fb) (4 * w) h (int i)
       then fb_mem fb ! nat (4 * (fb_line fb * sy + sx) + (int i - 4 * (fb_line fb * y0 + x0))) else fb_mem fb ! i)"
  shows "block_bytes x0 y0 w h sx sy fb fb m"
proof -
  have e: "a + x div c * c + x mod c = a + x" for a x c :: int by (simp add: add.assoc)
  show ?thesis unfolding block_bytes_def e using assms(2,3) by blast
qed

lemma frame_move_spec:
  assumes ok: "fb_ok fb" and w: "0 \<le> vx (rsize src)" "0 < vy (rsize src)"
    and d: "0 \<le> vx pos" "0 \<le> vy pos" "vx pos + vx (rsize src) \<le> fb_width fb" "vy pos + vy (rsize src) \<le> fb_height fb"
    and s: "0 \<le> vx (rpos src)" "0 \<le> vy (rpos src)" "vx (rpos src) + vx (rsize src) \<le> fb_width fb"
      "vy (rpos src) + vy (rsize src) \<le> fb_height fb"
    and y: "vy pos \<noteq> vy (rpos src)"
  shows "\<exists>m. frame_move pos src fb = Some (fb\<lparr>fb_mem := m\<rparr>)
    \<and> block_bytes (vx pos) (vy pos) (vx (rsize src)) (vy (rsize src)) (vx (rpos src)) (vy (rpos src)) fb fb m"
proof -
  let ?L = "fb_line fb" and ?w = "vx (rsize src)" and ?h = "vy (rsize src)"
  let ?d = "4 * (?L * vy pos + vx pos)" and ?s = "4 * (?L * vy (rpos src) + vx (rpos src))"
  note fd = rows_fit [OF ok d w(2)] and fs = rows_fit [OF ok s w(2)]
  have L: "0 \<le> 4 * ?w" "0 < 4 * ?L" "4 * ?w \<le> 4 * ?L" using ok w(1) d(1,3) by (auto simp: fb_ok_def)
  have bpp: "bytes_per_pixel (fc_pixel_format (fb_config fb)) = 4" using fb_okD(1) [OF ok] by simp
  have bpl: "bytes_per_scan_line (fb_config fb) = 4 * ?L"
  proof -
    have "uint (of_int 4 * fc_pixels_per_scanline (fb_config fb)) = 4 * ?L" by (rule line_step [OF ok])
    moreover have "4 * ?L < 2 ^ 31" using fb_okD(5) [OF ok] by simp
    then have "signed_take_bit 31 (4 * ?L) = 4 * ?L" using L(2) by (intro signed_take_bit_int_eq_self) linarith+
    ultimately show ?thesis by (simp add: bytes_per_scan_line_def bpp sint_uint)
  qed
  have hn: "int (nat ?h) = ?h" using w(2) by simp
  have len: "4 * (?L * fb_height fb) \<le> int (length (fb_mem fb))" by (rule fb_okD(8) [OF ok])
  have gap: "?L * a + ?L \<le> ?L * b" if "a < b" for a b
    using mult_left_mono [of "a + 1" b ?L] that L(2) by (simp add: algebra_simps)
  have below: "4 * (a + x) + 4 * ?w \<le> 4 * (b + x')"
    if "a + ?L \<le> b" "x + ?w \<le> fb_width fb" "0 \<le> x'" for a b x x'
    using that fb_okD(2) [OF ok] by (simp add: distrib_left)
  show ?thesis
  proof (cases "vy pos < vy (rpos src)")
    case True
    have lo: "?d + 4 * ?w \<le> ?s" by (rule below [OF gap [OF True] d(3) s(1)])
    have hi: "nat ?h = 0 \<or> ?s + (int (nat ?h) - 1) * (4 * ?L) + 4 * ?w \<le> int (length (fb_mem fb))"
      using fs(1) len unfolding hn by linarith
    obtain m where m: "row_loop (mem_copy_within (4 * ?w)) (4 * ?L) (4 * ?L) (nat ?h) ?d ?s (fb_mem fb) = Some m"
        "length m = length (fb_mem fb)" "\<forall>i < length (fb_mem fb). m ! i =
          (if in_rows ?d (4 * ?L) (4 * ?w) ?h (int i) then fb_mem fb ! nat (?s + (int i - ?d)) else fb_mem fb ! i)"
      using move_rows_down [OF L fd(2) lo hi] unfolding hn by (elim exE conjE)
    have "frame_move pos src fb = Some (fb\<lparr>fb_mem := m\<rparr>)"
      unfolding frame_move_def Let_def bpp bpl
      by (simp only: True if_True vadd_zero block_start [OF ok d w(2,1)] block_start [OF ok s w(2,1)]
          prod.case option.case m(1) option.map)
    with move_bytes [OF ok m(2,3)] show ?thesis by blast
  next
    case False
    with y have y': "vy (rpos src) < vy pos" by simp
    have lo: "?s + 4 * ?w \<le> ?d" by (rule below [OF gap [OF y'] s(3) d(1)])
    have hi: "nat ?h = 0 \<or> ?d + (int (nat ?h) - 1) * (4 * ?L) + 4 * ?w \<le> int (length (fb_mem fb))"
      using fd(1) len unfolding hn by linarith
    obtain m where m: "row_loop (mem_copy_within (4 * ?w)) (- (4 * ?L)) (- (4 * ?L)) (nat ?h)
          (?d + (?h - 1) * (4 * ?L)) (?s + (?h - 1) * (4 * ?L)) (fb_mem fb) = Some m"
        "length m = length (fb_mem fb)" "\<forall>i < length (fb_mem fb). m ! i =
          (if in_rows ?d (4 * ?L) (4 * ?w) ?h (int i) then fb_mem fb ! nat (?s + (int i - ?d)) else fb_mem fb ! i)"
      using move_rows_up [OF L fs(2) lo hi] unfolding hn by (elim exE conjE)
    have last: "frame_addr_at (vadd p (vec 0 (?h - 1))) (fb_config fb) = Some (4 * (?L * vy p + vx p) + (?h - 1) * (4 * ?L))"
      if "0 \<le> vx p" "0 \<le> vy p" "vx p + ?w \<le> fb_width fb" "vy p + ?h \<le> fb_height fb" for p
      using block_start [of fb "vadd p (vec 0 (?h - 1))" ?w 1] ok that w by (simp add: algebra_simps)
    have "frame_move pos src fb = Some (fb\<lparr>fb_mem := m\<rparr>)"
      unfolding frame_move_def Let_def bpp bpl
      by (simp only: False if_False last [OF d] last [OF s] prod.case option.case m(1) option.map)
    with move_bytes [OF ok m(2,3)] show ?thesis by blast
  qed
qed

text \<open>
  \<open>FrameBuffer::Move\<close> scrolls a block of pixels inside one buffer by any number of rows, up or down,
  also when the two blocks overlap: every pixel of the destination block gets the colour its source
  pixel had before, every other pixel stays, and no row is copied onto itself.
\<close>

theorem frame_move_pixels:
  assumes "fb_ok fb" and "0 \<le> vx (rsize src)" and "0 < vy (rsize src)"
    and "0 \<le> vx pos" and "0 \<le> vy pos"
    and "vx pos + vx (rsize src) \<le> fb_width fb" and "vy pos + vy (rsize src) \<le> fb_height fb"
    and "0 \<le> vx (rpos src)" and "0 \<le> vy (rpos src)"
    and "vx (rpos src) + vx (rsize src) \<le> fb_width fb" and "vy (rpos src) + vy (rsize src) \<le> fb_height fb"
    and "vy pos \<noteq> vy (rpos src)"
  shows "\<exists>fb'. frame_move pos src fb = Some fb' \<and> fb_ok fb' \<and> fb_config fb' = fb_config fb
    \<and> (\<forall>q. on_canvas (fb_dims fb) q \<longrightarrow> fb_colour fb' q =
          (if rect_mem (rect pos (rsize src)) q then fb_colour fb (vadd (rpos src) (vsub q pos)) else fb_colour fb q))"
proof -
  from frame_move_spec [OF assms] obtain m where m: "frame_move pos src fb = Some (fb\<lparr>fb_mem := m\<rparr>)"
    "block_bytes (vx pos) (vy pos) (vx (rsize src)) (vy (rsize src)) (vx (rpos src)) (vy (rpos src)) fb fb m"
    by (elim exE conjE)
  have e: "vec (vx (rpos src) + (vx q - vx pos)) (vy (rpos src) + (vy q - vy pos)) = vadd (rpos src) (vsub q pos)" for q
    by (simp add: vec2_eq_iff)
  have "fb_ok (fb\<lparr>fb_mem := m\<rparr>)" using m(2) assms(1) by (simp add: fb_ok_mem block_bytes_def)
  with block_colour [OF assms(1,1) refl assms(2,4,6,8,9) m(2)] m(1) show ?thesis by (simp add: e)
qed

theorem frame_move_pixels_witness:
  "\<exists>fb'. frame_move (vec 0 1) (rect (vec 0 0) (vec 2 1)) (sample_buffer 2 5) = Some fb' \<and> fb_ok fb'"
proof -
  have "fb_width (sample_buffer 2 5) = 2" "fb_height (sample_buffer 2 5) = 2"
    using sample_buffer_ok(2) [of 5] by (simp_all add: fb_dims_def)
  then show ?thesis
    using frame_move_pixels [OF sample_buffer_ok(1), of "rect (vec 0 0) (vec 2 1)" "vec 0 1" 5] by auto
qed

end
