(* ===== verification/Window.thy ===== *)
theory Window
  imports Frame_Buffer
begin

text \<open>
  Windows: \<open>Kernel/window.hpp\<close> and \<open>window.cpp\<close>.

  A window keeps its pixels twice: \<open>data_\<close>, a vector of rows of colours, and a shadow frame buffer in
  the screen's format.  A \<open>ToplevelWindow\<close> is a window with a title; its virtual \<open>Activate\<close> and
  \<open>Deactivate\<close> are the two branches of one definition.
\<close>

record window =
  w_width :: int
  w_height :: int
  w_data :: "pixel_color list list"
  w_transparent :: "pixel_color option"
  w_shadow :: frame_buffer
  w_title :: "string option"

text \<open>The constructor; a failed \<open>Initialize\<close> is only logged.\<close>

definition window_new :: "int \<Rightarrow> int \<Rightarrow> pixel_format \<Rightarrow> window" where
  "window_new width height shadow_format =
    \<lparr>w_width = width, w_height = height,
     w_data = replicate (nat height) (replicate (nat width) (rgb 0 0 0)),
     w_transparent = None,
     w_shadow = snd (frame_buffer_initialize None
       \<lparr>fc_pixels_per_scanline = 0, fc_horizontal_resolution = of_int width,
        fc_vertical_resolution = of_int height, fc_pixel_format = shadow_format\<rparr>),
     w_title = None\<rparr>"

definition window_size :: "window \<Rightarrow> vec2" where
  "window_size w = vec (w_width w) (w_height w)"

text \<open>\<open>At\<close> and \<open>Write\<close>: an index outside the rows is undefined.\<close>

definition window_at :: "window \<Rightarrow> int \<Rightarrow> int \<Rightarrow> pixel_color option" where
  "window_at w x y =
    (if x < 0 \<or> y < 0 then None
     else do { row \<leftarrow> arr_get (w_data w) (nat y); arr_get row (nat x) })"

definition window_write :: "window pixel_write" where
  "window_write pos c w =
    (if vx pos < 0 \<or> vy pos < 0 then None
     else do {
       row \<leftarrow> arr_get (w_data w) (nat (vy pos));
       row' \<leftarrow> arr_set row (nat (vx pos)) c;
       data \<leftarrow> arr_set (w_data w) (nat (vy pos)) row';
       shadow \<leftarrow> fb_write pos c (w_shadow w);
       Some (w\<lparr>w_data := data, w_shadow := shadow\<rparr>)
     })"

definition set_transparent_color :: "pixel_color option \<Rightarrow> window \<Rightarrow> window" where
  "set_transparent_color c w = w\<lparr>w_transparent := c\<rparr>"

text \<open>\<open>Window::Move\<close> moves pixels of the shadow buffer only.\<close>

definition window_move :: "vec2 \<Rightarrow> rectangle \<Rightarrow> window \<Rightarrow> window option" where
  "window_move dst_pos src w = map_option (\<lambda>s. w\<lparr>w_shadow := s\<rparr>) (frame_move dst_pos src (w_shadow w))"

text \<open>
  \<open>Window::DrawTo\<close>: an opaque window copies the part of its shadow that is in the area; a transparent
  one writes its pixels one by one, all those the destination has, in the area or not.
\<close>

definition window_draw_to :: "window \<Rightarrow> vec2 \<Rightarrow> rectangle \<Rightarrow> frame_buffer \<Rightarrow> frame_buffer option" where
  "window_draw_to w pos area dst =
    (case w_transparent w of
       None \<Rightarrow>
         (let window_area = rect pos (window_size w);
              intersection = rect_and area window_area;
              copy_area = rect (vsub (rpos intersection) pos) (rsize intersection)
          in map_option snd (frame_copy (rpos intersection) (w_shadow w) copy_area dst))
     | Some tc \<Rightarrow>
         (let height_init = (if vy pos < 0 then - vy pos else 0);
              height_end = (if vy pos + w_height w > fb_height dst then fb_height dst - vy pos else w_height w);
              width_init = (if vx pos < 0 then - vx pos else 0);
              width_end = (if vx pos + w_width w > fb_width dst then fb_width dst - vx pos else w_width w)
          in for_each (\<lambda>y. for_each (\<lambda>x dst. do {
               c \<leftarrow> window_at w x y;
               if tc \<noteq> c then fb_write (vadd pos (vec x y)) c dst else Some dst
             }) [width_init..width_end - 1]) [height_init..height_end - 1] dst))"

section \<open>Decorations\<close>

definition kCloseButtonWidth :: int where
  "kCloseButtonWidth = 16"

definition kCloseButtonHeight :: int where
  "kCloseButtonHeight = 14"

definition close_button :: "string list" where
  "close_button =
    [''...............@'',
     ''.:::::::::::::$@'',
     ''.:::::::::::::$@'',
     ''.:::@@::::@@::$@'',
     ''.::::@@::@@:::$@'',
     ''.:::::@@@@::::$@'',
     ''.::::::@@:::::$@'',
     ''.:::::@@@@::::$@'',
     ''.::::@@::@@:::$@'',
     ''.:::@@::::@@::$@'',
     ''.:::::::::::::$@'',
     ''.:::::::::::::$@'',
     ''.$$$$$$$$$$$$$$@'',
     ''@@@@@@@@@@@@@@@@'']"

definition close_button_color :: "int \<Rightarrow> int \<Rightarrow> pixel_color" where
  "close_button_color x y =
    (let ch = close_button ! nat y ! nat x in
     if ch = CHR ''@'' then to_color 0x000000
     else if ch = CHR ''$'' then to_color 0x848484
     else if ch = CHR '':'' then to_color 0xC6C6C6
     else to_color 0xFFFFFF)"

definition draw_close_button :: "'s pixel_write \<Rightarrow> int \<Rightarrow> 's \<Rightarrow> 's option" where
  "draw_close_button write win_width =
    for_each (\<lambda>y. for_each (\<lambda>x.
      write (vec (win_width - 5 - kCloseButtonWidth + x) (5 + y)) (close_button_color x y))
      (int_range kCloseButtonWidth)) (int_range kCloseButtonHeight)"

definition draw_text_box ::
  "'s pixel_write \<Rightarrow> vec2 \<Rightarrow> vec2 \<Rightarrow> pixel_color \<Rightarrow> pixel_color \<Rightarrow> pixel_color \<Rightarrow> 's \<Rightarrow> 's option" where
  "draw_text_box write pos sz background border_light border_dark s = do {
     s1 \<leftarrow> fill_rectangle write (vadd pos (vec 1 2)) (vsub sz (vec 2 2)) background s;
     s2 \<leftarrow> fill_rectangle write pos (vec (vx sz) 1) border_light s1;
     s3 \<leftarrow> fill_rectangle write pos (vec 1 (vy sz)) border_light s2;
     s4 \<leftarrow> fill_rectangle write (vadd pos (vec 0 (vy sz))) (vec (vx sz) 1) border_dark s3;
     fill_rectangle write (vadd pos (vec (vx sz) 0)) (vec 1 (vy sz)) border_dark s4
   }"

definition draw_default_text_box :: "'s pixel_write \<Rightarrow> vec2 \<Rightarrow> vec2 \<Rightarrow> 's \<Rightarrow> 's option" where
  "draw_default_text_box write pos sz =
    draw_text_box write pos sz (to_color 0xFFFFFF) (to_color 0xC6C6C6) (to_color 0x848484)"

definition draw_terminal :: "'s pixel_write \<Rightarrow> vec2 \<Rightarrow> vec2 \<Rightarrow> 's \<Rightarrow> 's option" where
  "draw_terminal write pos sz =
    draw_text_box write pos sz (to_color 0x000000) (to_color 0xC6C6C6) (to_color 0x848484)"

text \<open>\<open>DrawWindowTitle\<close> and \<open>DrawWindow\<close> over a writer of width \<open>win_w\<close> and height \<open>win_h\<close>.\<close>

definition draw_window_title :: "u8 list \<Rightarrow> 's pixel_write \<Rightarrow> int \<Rightarrow> string \<Rightarrow> bool \<Rightarrow> 's \<Rightarrow> 's option" where
  "draw_window_title font write win_w title active s = do {
     s1 \<leftarrow> fill_rectangle write (vec 3 3) (vec (win_w - 6) 18) (to_color (if active then 0x000084 else 0x848484)) s;
     s2 \<leftarrow> write_string font write (vec 24 4) title (to_color 0xFFFFFF) s1;
     draw_close_button write win_w s2
   }"

definition draw_window :: "u8 list \<Rightarrow> 's pixel_write \<Rightarrow> int \<Rightarrow> int \<Rightarrow> string \<Rightarrow> 's \<Rightarrow> 's option" where
  "draw_window font write win_w win_h title s = do {
     s1 \<leftarrow> fill_rectangle write (vec 0 0) (vec win_w win_h) (to_color 0xC6C6C6) s;
     draw_window_title font write win_w title False s1
   }"

section \<open>Toplevel windows\<close>

definition kTopLeftMargin :: vec2 where
  "kTopLeftMargin = vec 4 24"

definition kBottomRightMargin :: vec2 where
  "kBottomRightMargin = vec 4 4"

definition toplevel_window_new :: "u8 list \<Rightarrow> int \<Rightarrow> int \<Rightarrow> pixel_format \<Rightarrow> string \<Rightarrow> window option" where
  "toplevel_window_new font width height shadow_format title =
    draw_window font window_write width height title (window_new width height shadow_format\<lparr>w_title := Some title\<rparr>)"

text \<open>\<open>Activate\<close> (\<open>True\<close>) and \<open>Deactivate\<close> (\<open>False\<close>): a plain window does nothing.\<close>

definition window_activate :: "u8 list \<Rightarrow> bool \<Rightarrow> window \<Rightarrow> window option" where
  "window_activate font active w =
    (case w_title w of
       None \<Rightarrow> Some w
     | Some title \<Rightarrow> draw_window_title font window_write (w_width w) title active w)"

definition inner_size :: "window \<Rightarrow> vec2" where
  "inner_size w = vsub (vsub (window_size w) kTopLeftMargin) kBottomRightMargin"

definition inner_write :: "window pixel_write" where
  "inner_write pos c w = window_write (vadd pos kTopLeftMargin) c w"

definition inner_width :: "window \<Rightarrow> int" where
  "inner_width w = w_width w - vx kTopLeftMargin - vx kBottomRightMargin"

definition inner_height :: "window \<Rightarrow> int" where
  "inner_height w = w_height w - vy kTopLeftMargin - vy kBottomRightMargin"

section \<open>Well-formed windows\<close>

definition win_dims :: "window \<Rightarrow> int \<times> int" where
  "win_dims w = (w_width w, w_height w)"

definition win_ok :: "window \<Rightarrow> bool" where
  "win_ok w \<longleftrightarrow>
    fb_ok (w_shadow w) \<and> fb_dims (w_shadow w) = win_dims w
    \<and> length (w_data w) = nat (w_height w) \<and> (\<forall>row \<in> set (w_data w). length row = nat (w_width w))"

definition win_data :: "window \<Rightarrow> vec2 \<Rightarrow> pixel_color" where
  "win_data w p = w_data w ! nat (vy p) ! nat (vx p)"

text \<open>What a window shows at a pixel of its own; \<open>None\<close> is transparent.\<close>

definition win_colour :: "window \<Rightarrow> vec2 \<Rightarrow> pixel_color option" where
  "win_colour w p =
    (case w_transparent w of
       None \<Rightarrow> Some (fb_colour (w_shadow w) p)
     | Some tc \<Rightarrow> if tc = win_data w p then None else Some (win_data w p))"

text \<open>The row and the index of a pixel exist.\<close>

lemma win_data_index:
  assumes "win_ok w" and "on_canvas (win_dims w) p"
  shows "nat (vy p) < length (w_data w)" "nat (vx p) < length (w_data w ! nat (vy p))"
proof -
  show y: "nat (vy p) < length (w_data w)" using assms by (auto simp: win_ok_def on_canvas_def win_dims_def)
  then have "w_data w ! nat (vy p) \<in> set (w_data w)" by simp
  with assms show "nat (vx p) < length (w_data w ! nat (vy p))"
    by (auto simp: win_ok_def on_canvas_def win_dims_def)
qed

lemma window_at_canvas:
  assumes "win_ok w" and "on_canvas (win_dims w) p"
  shows "window_at w (vx p) (vy p) = Some (win_data w p)"
  using win_data_index [OF assms] assms(2) by (auto simp: window_at_def ub_simps win_data_def on_canvas_def)

lemma window_write_on_canvas:
  assumes "win_ok w" and "on_canvas (win_dims w) p"
  shows "\<exists>w'. window_write p c w = Some w' \<and> win_ok w' \<and> win_dims w' = win_dims w
    \<and> w_transparent w' = w_transparent w \<and> w_title w' = w_title w
    \<and> fb_config (w_shadow w') = fb_config (w_shadow w)
    \<and> (\<forall>q. on_canvas (win_dims w) q \<longrightarrow>
          fb_colour (w_shadow w') q = (if q = p then c else fb_colour (w_shadow w) q)
          \<and> win_data w' q = (if q = p then c else win_data w q))"
proof -
  have ok: "fb_ok (w_shadow w)" "fb_dims (w_shadow w) = win_dims w" using assms(1) by (auto simp: win_ok_def)
  have xy: "0 \<le> vx p" "0 \<le> vy p" using assms(2) by (auto simp: on_canvas_def)
  note ix = win_data_index [OF assms]
  from fb_write_on_canvas [OF ok(1), of p c] assms(2) ok(2) obtain sh where
    sh: "fb_write p c (w_shadow w) = Some sh" "fb_ok sh" "fb_config sh = fb_config (w_shadow w)" "fb_dims sh = win_dims w"
      "\<forall>q. on_canvas (win_dims w) q \<longrightarrow> fb_colour sh q = (if q = p then c else fb_colour (w_shadow w) q)" by auto
  let ?row = "(w_data w ! nat (vy p))[nat (vx p) := c]"
  let ?w = "w\<lparr>w_data := (w_data w)[nat (vy p) := ?row], w_shadow := sh\<rparr>"
  have len: "length ?row = nat (w_width w)"
    using assms(1) ix(1) nth_mem by (fastforce simp: win_ok_def)
  have w: "window_write p c w = Some ?w" using xy ix sh(1) by (simp add: window_write_def ub_simps)
  have wok: "win_ok ?w"
    using assms(1) sh(2,4) len by (auto simp: win_ok_def win_dims_def dest!: set_update_subset_insert [THEN subsetD])
  have "win_data ?w q = (if q = p then c else win_data w q)" if q: "on_canvas (win_dims w) q" for q
  proof -
    have "0 \<le> vx q" "0 \<le> vy q" using q by (auto simp: on_canvas_def)
    with xy ix show ?thesis by (auto simp: win_data_def nth_list_update vec2_eq_iff nat_eq_iff2)
  qed
  with w wok sh show ?thesis by (intro exI [of _ ?w]) (simp add: win_dims_def)
qed

text \<open>
  A window is a canvas, and so is the inner area of a toplevel window; a write keeps what
  does not belong to the pixels.
\<close>

definition win_like :: "window \<Rightarrow> window \<Rightarrow> bool" where
  "win_like w0 w \<longleftrightarrow> win_ok w \<and> win_dims w = win_dims w0 \<and> w_transparent w = w_transparent w0
    \<and> w_title w = w_title w0 \<and> fb_config (w_shadow w) = fb_config (w_shadow w0)"

interpretation winc: canvas window_write "\<lambda>w. fb_colour (w_shadow w)" win_dims "win_like w0" for w0
proof
  fix s p c assume "win_like w0 s" "on_canvas (win_dims s) p"
  then have ok: "win_ok s" and like: "win_like w0 s" by (auto simp: win_like_def)
  from window_write_on_canvas [OF ok \<open>on_canvas (win_dims s) p\<close>, of c] obtain s' where
    "window_write p c s = Some s'" "win_ok s'" "win_dims s' = win_dims s" "w_transparent s' = w_transparent s"
    "w_title s' = w_title s" "fb_config (w_shadow s') = fb_config (w_shadow s)"
    "\<forall>q. on_canvas (win_dims s) q \<longrightarrow> fb_colour (w_shadow s') q = (if q = p then c else fb_colour (w_shadow s) q)
      \<and> win_data s' q = (if q = p then c else win_data s q)" by (elim exE conjE)
  with like show "\<exists>s'. window_write p c s = Some s' \<and> win_like w0 s' \<and> win_dims s' = win_dims s
      \<and> (\<forall>q. on_canvas (win_dims s) q \<longrightarrow>
            fb_colour (w_shadow s') q = (if q = p then c else fb_colour (w_shadow s) q))"
    by (intro exI [of _ s']) (simp add: win_like_def)
qed

interpretation windc: canvas window_write win_data win_dims "win_like w0" for w0
proof
  fix s p c assume "win_like w0 s" "on_canvas (win_dims s) p"
  then have ok: "win_ok s" and like: "win_like w0 s" by (auto simp: win_like_def)
  from window_write_on_canvas [OF ok \<open>on_canvas (win_dims s) p\<close>, of c] obtain s' where
    "window_write p c s = Some s'" "win_ok s'" "win_dims s' = win_dims s" "w_transparent s' = w_transparent s"
    "w_title s' = w_title s" "fb_config (w_shadow s') = fb_config (w_shadow s)"
    "\<forall>q. on_canvas (win_dims s) q \<longrightarrow> fb_colour (w_shadow s') q = (if q = p then c else fb_colour (w_shadow s) q)
      \<and> win_data s' q = (if q = p then c else win_data s q)" by (elim exE conjE)
  with like show "\<exists>s'. window_write p c s = Some s' \<and> win_like w0 s' \<and> win_dims s' = win_dims s
      \<and> (\<forall>q. on_canvas (win_dims s) q \<longrightarrow> win_data s' q = (if q = p then c else win_data s q))"
    by (intro exI [of _ s']) (simp add: win_like_def)
qed

interpretation inner: canvas inner_write "\<lambda>w p. fb_colour (w_shadow w) (vadd p kTopLeftMargin)"
    "\<lambda>w. (inner_width w, inner_height w)" "win_like w0" for w0
proof
  fix s p c assume s: "win_like w0 s" "on_canvas (inner_width s, inner_height s) p"
  have on: "on_canvas (win_dims s) (vadd q kTopLeftMargin)" if "on_canvas (inner_width s, inner_height s) q" for q
    using that by (auto simp: on_canvas_def inner_width_def inner_height_def win_dims_def kTopLeftMargin_def
        kBottomRightMargin_def)
  have inj: "vadd q kTopLeftMargin = vadd p kTopLeftMargin \<longleftrightarrow> q = p" for q by (auto simp: vec2_eq_iff)
  from winc.write_on_canvas [OF s(1) on [OF s(2)], of c] obtain s' where
    "inner_write p c s = Some s'" "win_like w0 s'" "win_dims s' = win_dims s"
    "\<forall>q. on_canvas (win_dims s) q \<longrightarrow>
      fb_colour (w_shadow s') q = (if q = vadd p kTopLeftMargin then c else fb_colour (w_shadow s) q)"
    unfolding inner_write_def by (elim exE conjE)
  with on show "\<exists>s'. inner_write p c s = Some s' \<and> win_like w0 s'
      \<and> (inner_width s', inner_height s') = (inner_width s, inner_height s)
      \<and> (\<forall>q. on_canvas (inner_width s, inner_height s) q \<longrightarrow>
            fb_colour (w_shadow s') (vadd q kTopLeftMargin) =
              (if q = p then c else fb_colour (w_shadow s) (vadd q kTopLeftMargin)))"
    by (intro exI [of _ s']) (auto simp: inj inner_width_def inner_height_def win_dims_def)
qed

section \<open>New windows\<close>

lemma frame_buffer_new_ok:
  assumes f: "known_format f" and d: "0 < width" "0 \<le> height" "4 * (width * height) < 2 ^ 31" "width < 2 ^ 29"
    and fb: "fb = snd (frame_buffer_initialize None
      \<lparr>fc_pixels_per_scanline = pps, fc_horizontal_resolution = of_int width,
       fc_vertical_resolution = of_int height, fc_pixel_format = f\<rparr>)"
  shows "fb_ok fb" "fb_dims fb = (width, height)" "fc_pixel_format (fb_config fb) = f"
proof -
  have h: "height < 2 ^ 29"
  proof -
    have "1 * height \<le> width * height" using d(1,2) by (intro mult_right_mono) auto
    moreover have "width * height < 2 ^ 29" using d(3) by (simp add: mult.commute)
    ultimately show ?thesis by (simp only: mult_1)
  qed
  have u: "uint (of_int width :: u32) = width" "uint (of_int height :: u32) = height"
    using d h by (simp_all add: uint_word_of_int)
  have sg: "sint (of_int width :: u32) = width" "sint (of_int height :: u32) = height"
    using d h by (simp_all add: signed_of_int signed_take_bit_int_eq_self)
  have e: "fb = \<lparr>fb_config = \<lparr>fc_pixels_per_scanline = of_int width, fc_horizontal_resolution = of_int width,
      fc_vertical_resolution = of_int height, fc_pixel_format = f\<rparr>,
      fb_mem = replicate (unat (4 * of_int width * of_int height :: u32)) 0\<rparr>"
    using f unfolding fb frame_buffer_initialize_def by (simp add: Let_def)
  have "uint (4 * of_int width * of_int height :: u32) = 4 * (width * height)"
  proof -
    have w: "(4 * of_int width * of_int height :: u32) = of_int (4 * (width * height))" by simp
    have "uint (of_int (4 * (width * height)) :: u32) = 4 * (width * height) mod 2 ^ 32"
      by (simp only: uint_word_of_int) simp
    also have "\<dots> = 4 * (width * height)" using d by (intro mod_pos_pos_trivial) auto
    finally show ?thesis unfolding w .
  qed
  then have len: "int (unat (4 * of_int width * of_int height :: u32)) = 4 * (width * height)" by simp
  show "fb_ok fb" "fb_dims fb = (width, height)" "fc_pixel_format (fb_config fb) = f"
    using f d len unfolding e
    by (simp_all add: fb_ok_def fb_width_def fb_height_def fb_line_def fb_dims_def u sg)
qed

lemma window_new_ok:
  assumes "known_format f" "0 < width" "0 \<le> height" "4 * (width * height) < 2 ^ 31" "width < 2 ^ 29"
  shows "win_ok (window_new width height f)" "win_dims (window_new width height f) = (width, height)"
    "fc_pixel_format (fb_config (w_shadow (window_new width height f))) = f"
    "w_transparent (window_new width height f) = None"
  using frame_buffer_new_ok [OF assms refl, of 0]
  by (auto simp: win_ok_def win_dims_def window_new_def)

section \<open>Drawing a window\<close>

text \<open>
  What a window at \<open>pos\<close> puts on a pixel \<open>q\<close> of the screen when an area is drawn; \<open>None\<close> leaves the pixel.
\<close>

definition win_shown :: "window \<Rightarrow> vec2 \<Rightarrow> rectangle \<Rightarrow> vec2 \<Rightarrow> pixel_color option" where
  "win_shown w pos area q =
    (if on_canvas (win_dims w) (vsub q pos) \<and> (w_transparent w = None \<longrightarrow> rect_mem area q)
     then win_colour w (vsub q pos) else None)"

lemma window_draw_opaque:
  assumes ok: "win_ok w" "fb_ok dst" and f: "fc_pixel_format (fb_config dst) = fc_pixel_format (fb_config (w_shadow w))"
    and sz: "0 \<le> vx (rsize area)" "0 \<le> vy (rsize area)" and t: "w_transparent w = None"
  shows "\<exists>dst'. window_draw_to w pos area dst = Some dst' \<and> fb_ok dst' \<and> fb_config dst' = fb_config dst
    \<and> (\<forall>q. on_canvas (fb_dims dst) q \<longrightarrow>
          fb_colour dst' q = (case win_shown w pos area q of Some c \<Rightarrow> c | None \<Rightarrow> fb_colour dst q))"
proof -
  let ?i = "rect_and area (rect pos (window_size w))"
  let ?c = "rect (vsub (rpos ?i) pos) (rsize ?i)"
  have sh: "fb_ok (w_shadow w)" "fb_dims (w_shadow w) = win_dims w" using ok(1) by (auto simp: win_ok_def)
  then have "0 \<le> w_width w" "0 \<le> w_height w" by (auto simp: fb_ok_def fb_dims_def win_dims_def)
  then have isz: "0 \<le> vx (rsize ?c)" "0 \<le> vy (rsize ?c)" using sz by (simp_all add: rect_and_size window_size_def)
  from frame_copy_spec [OF ok(2) sh(1) f isz, of "rpos ?i"] obtain m where
    m: "frame_copy (rpos ?i) (w_shadow w) ?c dst = Some (KSuccess, dst\<lparr>fb_mem := m\<rparr>)" "fb_ok (dst\<lparr>fb_mem := m\<rparr>)"
      "\<forall>q. on_canvas (fb_dims dst) q \<longrightarrow> fb_colour (dst\<lparr>fb_mem := m\<rparr>) q =
        (let p = vadd (vsub q (rpos ?i)) (rpos ?c)
         in if rect_mem ?c p \<and> on_canvas (win_dims w) p then fb_colour (w_shadow w) p else fb_colour dst q)"
    unfolding sh(2) by (elim exE conjE)
  have p: "vadd (vsub q (rpos ?i)) (rpos ?c) = vsub q pos" for q by (simp add: vec2_eq_iff)
  have r: "rect_mem ?c (vsub q pos) \<and> on_canvas (win_dims w) (vsub q pos)
      \<longleftrightarrow> rect_mem area q \<and> on_canvas (win_dims w) (vsub q pos)" for q
  proof -
    have "rect_mem ?c (vsub q pos) \<longleftrightarrow> rect_mem ?i q" by (simp add: rect_mem_def)
    then show ?thesis by (auto simp: rect_mem_and) (auto simp: rect_mem_def on_canvas_def window_size_def win_dims_def)
  qed
  have "window_draw_to w pos area dst = Some (dst\<lparr>fb_mem := m\<rparr>)"
    unfolding window_draw_to_def t Let_def option.case m(1) by simp
  moreover have "fb_colour (dst\<lparr>fb_mem := m\<rparr>) q = (case win_shown w pos area q of Some c \<Rightarrow> c | None \<Rightarrow> fb_colour dst q)"
    if "on_canvas (fb_dims dst) q" for q
    using m(3) [rule_format, OF that] unfolding p Let_def r by (simp add: win_shown_def win_colour_def t)
  ultimately show ?thesis using m(2) by (intro exI [of _ "dst\<lparr>fb_mem := m\<rparr>"]) simp
qed

text \<open>The loops of a transparent window visit the pixels that are on the window and on the screen.\<close>

definition draw_pixels :: "int \<Rightarrow> int \<Rightarrow> int \<Rightarrow> int \<Rightarrow> vec2 \<Rightarrow> vec2 list" where
  "draw_pixels x0 x1 y0 y1 pos = concat (map (\<lambda>y. map (\<lambda>x. vadd pos (vec x y)) [x0..x1 - 1]) [y0..y1 - 1])"

lemma set_draw_pixels:
  "q \<in> set (draw_pixels x0 x1 y0 y1 pos) \<longleftrightarrow>
    x0 \<le> vx q - vx pos \<and> vx q - vx pos < x1 \<and> y0 \<le> vy q - vy pos \<and> vy q - vy pos < y1"
proof -
  have "q \<in> set (draw_pixels x0 x1 y0 y1 pos) \<longleftrightarrow> (\<exists>y \<in> {y0..y1 - 1}. \<exists>x \<in> {x0..x1 - 1}. q = vadd pos (vec x y))"
    by (simp add: draw_pixels_def image_iff)
  also have "\<dots> \<longleftrightarrow> vy q - vy pos \<in> {y0..y1 - 1} \<and> vx q - vx pos \<in> {x0..x1 - 1}"
    unfolding eq_vadd_iff by auto
  finally show ?thesis by auto
qed

lemma window_draw_transparent:
  assumes ok: "win_ok w" "fb_ok dst" and t: "w_transparent w = Some tc"
  shows "\<exists>dst'. window_draw_to w pos area dst = Some dst' \<and> fb_ok dst' \<and> fb_config dst' = fb_config dst
    \<and> (\<forall>q. on_canvas (fb_dims dst) q \<longrightarrow>
          fb_colour dst' q = (case win_shown w pos area q of Some c \<Rightarrow> c | None \<Rightarrow> fb_colour dst q))"
proof -
  let ?y0 = "if vy pos < 0 then - vy pos else 0" and ?x0 = "if vx pos < 0 then - vx pos else 0"
  let ?y1 = "if vy pos + w_height w > fb_height dst then fb_height dst - vy pos else w_height w"
  let ?x1 = "if vx pos + w_width w > fb_width dst then fb_width dst - vx pos else w_width w"
  let ?f = "\<lambda>q dst. if tc \<noteq> win_data w (vsub q pos) then fb_write q (win_data w (vsub q pos)) dst else Some dst"
  let ?ps = "draw_pixels ?x0 ?x1 ?y0 ?y1 pos"
  have wh: "fb_dims (w_shadow w) = win_dims w" using ok(1) by (simp add: win_ok_def)
  have ps: "q \<in> set ?ps \<longleftrightarrow> on_canvas (win_dims w) (vsub q pos) \<and> on_canvas (fb_dims dst) q" for q
    unfolding set_draw_pixels by (auto simp: on_canvas_def win_dims_def fb_dims_def)
  have row: "for_each (\<lambda>x dst. do { c \<leftarrow> window_at w x y;
        if tc \<noteq> c then fb_write (vadd pos (vec x y)) c dst else Some dst }) [?x0..?x1 - 1] d
      = for_each ?f (map (\<lambda>x. vadd pos (vec x y)) [?x0..?x1 - 1]) d"
    if y: "y \<in> set [?y0..?y1 - 1]" for y d
    unfolding for_each_map
  proof (rule for_each_cong)
    fix x d assume "x \<in> set [?x0..?x1 - 1]"
    with y have "on_canvas (win_dims w) (vec x y)" by (auto simp: on_canvas_def win_dims_def split: if_splits)
    from window_at_canvas [OF ok(1) this]
    show "do { c \<leftarrow> window_at w x y; if tc \<noteq> c then fb_write (vadd pos (vec x y)) c d else Some d }
        = ?f (vadd pos (vec x y)) d" by simp
  qed
  have "window_draw_to w pos area dst =
    for_each (\<lambda>y. for_each ?f (map (\<lambda>x. vadd pos (vec x y)) [?x0..?x1 - 1])) [?y0..?y1 - 1] dst"
    unfolding window_draw_to_def t Let_def option.case by (rule for_each_cong) (rule row)
  also have "\<dots> = for_each (\<lambda>q. fb_write q (win_data w (vsub q pos))) (filter (\<lambda>q. tc \<noteq> win_data w (vsub q pos)) ?ps) dst"
    unfolding for_each_concat draw_pixels_def [symmetric] by (rule for_each_filter)
  finally have e: "window_draw_to w pos area dst = \<dots>" .
  have on: "\<forall>q \<in> set (filter (\<lambda>q. tc \<noteq> win_data w (vsub q pos)) ?ps). on_canvas (fb_dims dst) q" using ps by auto
  from fbc.by_position [of dst "fb_config dst", OF _ on, of "\<lambda>q. win_data w (vsub q pos)"] ok(2)
  obtain dst' where dst': "window_draw_to w pos area dst = Some dst'" "fb_ok dst'" "fb_config dst' = fb_config dst"
    "\<forall>q. on_canvas (fb_dims dst) q \<longrightarrow> fb_colour dst' q =
      (if q \<in> set (filter (\<lambda>q. tc \<noteq> win_data w (vsub q pos)) ?ps) then win_data w (vsub q pos) else fb_colour dst q)"
    unfolding e by auto
  then show ?thesis using ps by (intro exI [of _ dst']) (auto simp: win_shown_def win_colour_def t)
qed

lemma window_draw_to_spec:
  assumes "win_ok w" "fb_ok dst" "fc_pixel_format (fb_config dst) = fc_pixel_format (fb_config (w_shadow w))"
    and "0 \<le> vx (rsize area)" "0 \<le> vy (rsize area)"
  shows "\<exists>dst'. window_draw_to w pos area dst = Some dst' \<and> fb_ok dst' \<and> fb_config dst' = fb_config dst
    \<and> (\<forall>q. on_canvas (fb_dims dst) q \<longrightarrow>
          fb_colour dst' q = (case win_shown w pos area q of Some c \<Rightarrow> c | None \<Rightarrow> fb_colour dst q))"
  using window_draw_opaque [OF assms] window_draw_transparent [OF assms(1,2)] by (cases "w_transparent w") blast+

end
