(* ===== verification/Layers.thy ===== *)
theory Layers
  imports Window Kernel_Message
begin

text \<open>
  Layers: \<open>Kernel/layer.hpp\<close> and \<open>layer.cpp\<close>.

  Windows are shared between layers and the tasks that draw into them: a layer manager holds them in a
  list, and a \<open>shared_ptr<Window>\<close> is an index into it, as a \<open>Layer*\<close> is an index into the manager's
  layers; \<open>None\<close> is a null pointer.  A position the constructor of \<open>Layer\<close> leaves indeterminate is \<open>None\<close>,
  and reading it is undefined.
\<close>

record layer =
  ly_id :: u32
  ly_pos :: "vec2 option"
  ly_window :: "nat option"
  ly_draggable :: bool

record layer_manager =
  lm_screen :: "frame_buffer option"
  lm_back :: frame_buffer
  lm_layers :: "layer list"
  lm_stack :: "nat option list"
  lm_latest_id :: u32
  lm_windows :: "window list"

definition layer_new :: "u32 \<Rightarrow> layer" where
  "layer_new i = \<lparr>ly_id = i, ly_pos = None, ly_window = None, ly_draggable = False\<rparr>"

definition layer_move :: "vec2 \<Rightarrow> layer \<Rightarrow> layer" where
  "layer_move pos l = l\<lparr>ly_pos := Some pos\<rparr>"

definition layer_move_relative :: "vec2 \<Rightarrow> layer \<Rightarrow> layer option" where
  "layer_move_relative diff l = map_option (\<lambda>pos. l\<lparr>ly_pos := Some (vadd pos diff)\<rparr>) (ly_pos l)"

definition layer_set_window :: "nat \<Rightarrow> layer \<Rightarrow> layer" where
  "layer_set_window w l = l\<lparr>ly_window := Some w\<rparr>"

definition layer_set_draggable :: "bool \<Rightarrow> layer \<Rightarrow> layer" where
  "layer_set_draggable d l = l\<lparr>ly_draggable := d\<rparr>"

definition layer_draw_to :: "window list \<Rightarrow> layer \<Rightarrow> rectangle \<Rightarrow> frame_buffer \<Rightarrow> frame_buffer option" where
  "layer_draw_to ws l area dst =
    (case ly_window l of
       None \<Rightarrow> Some dst
     | Some k \<Rightarrow> do {
         w \<leftarrow> arr_get ws k;
         pos \<leftarrow> ly_pos l;
         window_draw_to w pos area dst
       })"

section \<open>The layer manager\<close>

text \<open>\<open>SetWriter\<close>: the back buffer has the screen's configuration and memory of its own.\<close>

definition set_writer :: "frame_buffer \<Rightarrow> layer_manager \<Rightarrow> layer_manager" where
  "set_writer screen lm =
    lm\<lparr>lm_screen := Some screen, lm_back := snd (frame_buffer_initialize None (fb_config screen))\<rparr>"

definition new_layer :: "layer_manager \<Rightarrow> nat \<times> layer_manager" where
  "new_layer lm =
    (length (lm_layers lm),
     lm\<lparr>lm_latest_id := lm_latest_id lm + 1, lm_layers := lm_layers lm @ [layer_new (lm_latest_id lm + 1)]\<rparr>)"

text \<open>\<open>FindLayer\<close>: the first layer with the id.\<close>

fun find_index :: "('a \<Rightarrow> bool) \<Rightarrow> 'a list \<Rightarrow> nat option" where
  "find_index p [] = None"
| "find_index p (x # xs) = (if p x then Some 0 else map_option Suc (find_index p xs))"

definition find_layer :: "u32 \<Rightarrow> layer_manager \<Rightarrow> nat option" where
  "find_layer i lm = find_index (\<lambda>l. ly_id l = i) (lm_layers lm)"

text \<open>The layer an element of the stack points to; the null pointer has none.\<close>

definition deref_layer :: "layer_manager \<Rightarrow> nat option \<Rightarrow> layer option" where
  "deref_layer lm p = (case p of None \<Rightarrow> None | Some i \<Rightarrow> arr_get (lm_layers lm) i)"

definition layer_window_size :: "layer_manager \<Rightarrow> layer \<Rightarrow> vec2 option" where
  "layer_window_size lm l = do { k \<leftarrow> ly_window l; w \<leftarrow> arr_get (lm_windows lm) k; Some (window_size w) }"

definition draw_stack :: "layer_manager \<Rightarrow> rectangle \<Rightarrow> nat option list \<Rightarrow> frame_buffer \<Rightarrow> frame_buffer option" where
  "draw_stack lm area =
    for_each (\<lambda>p back. do { l \<leftarrow> deref_layer lm p; layer_draw_to (lm_windows lm) l area back })"

text \<open>\<open>Draw(area)\<close>.\<close>

definition lm_draw_area :: "rectangle \<Rightarrow> layer_manager \<Rightarrow> layer_manager option" where
  "lm_draw_area area lm = do {
     back \<leftarrow> draw_stack lm area (lm_stack lm) (lm_back lm);
     screen \<leftarrow> lm_screen lm;
     (_, screen') \<leftarrow> frame_copy (rpos area) back area screen;
     Some (lm\<lparr>lm_back := back, lm_screen := Some screen'\<rparr>)
   }"

text \<open>
  \<open>Draw(id, area)\<close>: from the layer with the id upwards.  The loop's variables are \<open>draw\<close>, the window
  area, indeterminate until the layer is met, the area and the back buffer.
\<close>

definition draw_id_step ::
  "layer_manager \<Rightarrow> u32 \<Rightarrow> nat option \<Rightarrow> bool \<times> rectangle option \<times> rectangle \<times> frame_buffer
    \<Rightarrow> (bool \<times> rectangle option \<times> rectangle \<times> frame_buffer) option" where
  "draw_id_step lm i p st =
    (case st of (draw, warea, area, back) \<Rightarrow> do {
       l \<leftarrow> deref_layer lm p;
       (draw1, warea1, area1) \<leftarrow>
         (if ly_id l = i then do {
            sz \<leftarrow> layer_window_size lm l;
            pos \<leftarrow> ly_pos l;
            (let wa = rect pos sz in
             if vx (rsize area) \<ge> 0 \<or> vy (rsize area) \<ge> 0
             then (let area' = rect (vadd (rpos area) pos) (rsize area)
                   in Some (True, Some (rect_and wa area'), area'))
             else Some (True, Some wa, area))
          } else Some (draw, warea, area));
       back1 \<leftarrow>
         (if draw1 then do { wa \<leftarrow> warea1; layer_draw_to (lm_windows lm) l wa back } else Some back);
       Some (draw1, warea1, area1, back1)
     })"

definition lm_draw_id_area :: "u32 \<Rightarrow> rectangle \<Rightarrow> layer_manager \<Rightarrow> layer_manager option" where
  "lm_draw_id_area i area lm = do {
     (draw, warea, area', back) \<leftarrow> for_each (draw_id_step lm i) (lm_stack lm) (False, None, area, lm_back lm);
     wa \<leftarrow> warea;
     screen \<leftarrow> lm_screen lm;
     (_, screen') \<leftarrow> frame_copy (rpos wa) back wa screen;
     Some (lm\<lparr>lm_back := back, lm_screen := Some screen'\<rparr>)
   }"

definition lm_draw_id :: "u32 \<Rightarrow> layer_manager \<Rightarrow> layer_manager option" where
  "lm_draw_id i = lm_draw_id_area i (rect (vec 0 0) (vec (-1) (-1)))"

text \<open>\<open>Move\<close> and \<open>MoveRelative\<close>: an unknown id is ignored.\<close>

definition lm_move :: "u32 \<Rightarrow> vec2 \<Rightarrow> layer_manager \<Rightarrow> layer_manager option" where
  "lm_move i new_position lm =
    (case find_layer i lm of
       None \<Rightarrow> Some lm
     | Some k \<Rightarrow> do {
         l \<leftarrow> arr_get (lm_layers lm) k;
         sz \<leftarrow> layer_window_size lm l;
         old_pos \<leftarrow> ly_pos l;
         lm1 \<leftarrow> Some (lm\<lparr>lm_layers := (lm_layers lm)[k := layer_move new_position l]\<rparr>);
         lm2 \<leftarrow> lm_draw_area (rect old_pos sz) lm1;
         lm_draw_id i lm2
       })"

definition lm_move_relative :: "u32 \<Rightarrow> vec2 \<Rightarrow> layer_manager \<Rightarrow> layer_manager option" where
  "lm_move_relative i diff lm =
    (case find_layer i lm of
       None \<Rightarrow> Some lm
     | Some k \<Rightarrow> do {
         l \<leftarrow> arr_get (lm_layers lm) k;
         old_pos \<leftarrow> ly_pos l;
         lm_move i (vadd old_pos diff) lm
       })"

section \<open>The order of the layers\<close>

text \<open>\<open>Hide\<close>: the pointer \<open>FindLayer\<close> returns, null or not, is looked for and erased.\<close>

definition lm_hide :: "u32 \<Rightarrow> layer_manager \<Rightarrow> layer_manager" where
  "lm_hide i lm = lm\<lparr>lm_stack := remove1 (find_layer i lm) (lm_stack lm)\<rparr>"

definition insert_at :: "nat \<Rightarrow> 'a \<Rightarrow> 'a list \<Rightarrow> 'a list" where
  "insert_at n x xs = take n xs @ x # drop n xs"

text \<open>
  \<open>UpDown\<close>; an iterator is the index it stands at, also after the \<open>erase\<close> before it.
\<close>

definition up_down_stack :: "nat option \<Rightarrow> nat \<Rightarrow> nat option list \<Rightarrow> nat option list" where
  "up_down_stack p new_height stack =
    (let h = min new_height (length stack)
     in if p \<notin> set stack then insert_at h p stack
        else (let new_pos = (if h = length stack then h - 1 else h)
              in insert_at new_pos p (remove1 p stack)))"

definition lm_up_down :: "u32 \<Rightarrow> int \<Rightarrow> layer_manager \<Rightarrow> layer_manager" where
  "lm_up_down i new_height lm =
    (if new_height < 0 then lm_hide i lm
     else lm\<lparr>lm_stack := up_down_stack (find_layer i lm) (nat new_height) (lm_stack lm)\<rparr>)"

text \<open>\<open>GetHeight\<close>, \<open>-1\<close> for a layer that is not shown.\<close>

fun height_loop :: "layer_manager \<Rightarrow> u32 \<Rightarrow> nat option list \<Rightarrow> int \<Rightarrow> int option" where
  "height_loop lm i [] n = Some (-1)"
| "height_loop lm i (p # ps) n = do {
     l \<leftarrow> deref_layer lm p;
     if ly_id l = i then Some n else height_loop lm i ps (n + 1)
   }"

definition lm_get_height :: "u32 \<Rightarrow> layer_manager \<Rightarrow> int option" where
  "lm_get_height i lm = height_loop lm i (lm_stack lm) 0"

text \<open>\<open>FindLayerByPosition\<close>: from the top of the stack; the inner option is the pointer returned.\<close>

definition layer_hit :: "layer_manager \<Rightarrow> vec2 \<Rightarrow> u32 \<Rightarrow> layer \<Rightarrow> bool option" where
  "layer_hit lm pos exclude_id l =
    (if ly_id l = exclude_id then Some False
     else case ly_window l of
       None \<Rightarrow> Some False
     | Some k \<Rightarrow> do {
         win_pos \<leftarrow> ly_pos l;
         w \<leftarrow> arr_get (lm_windows lm) k;
         (let win_end_pos = vadd win_pos (window_size w)
          in Some (vx win_pos \<le> vx pos \<and> vx pos < vx win_end_pos
                   \<and> vy win_pos \<le> vy pos \<and> vy pos \<le> vy win_end_pos))
       })"

fun find_hit :: "layer_manager \<Rightarrow> vec2 \<Rightarrow> u32 \<Rightarrow> nat option list \<Rightarrow> nat option option" where
  "find_hit lm pos ex [] = Some None"
| "find_hit lm pos ex (p # ps) = do {
     l \<leftarrow> deref_layer lm p;
     hit \<leftarrow> layer_hit lm pos ex l;
     if hit then Some p else find_hit lm pos ex ps
   }"

definition find_layer_by_position :: "vec2 \<Rightarrow> u32 \<Rightarrow> layer_manager \<Rightarrow> nat option option" where
  "find_layer_by_position pos exclude_id lm = find_hit lm pos exclude_id (rev (lm_stack lm))"

section \<open>The active layer\<close>

record active_layer =
  al_active :: u32
  al_mouse :: u32

definition active_layer_new :: active_layer where
  "active_layer_new = \<lparr>al_active = 0, al_mouse = 0\<rparr>"

definition set_mouse_layer :: "u32 \<Rightarrow> active_layer \<Rightarrow> active_layer" where
  "set_mouse_layer m al = al\<lparr>al_mouse := m\<rparr>"

text \<open>\<open>layer->GetWindow()->Activate()\<close> or \<open>Deactivate()\<close> on the layer with an id.\<close>

definition activate_window :: "u8 list \<Rightarrow> bool \<Rightarrow> u32 \<Rightarrow> layer_manager \<Rightarrow> layer_manager option" where
  "activate_window font active i lm = do {
     l \<leftarrow> deref_layer lm (find_layer i lm);
     k \<leftarrow> ly_window l;
     w \<leftarrow> arr_get (lm_windows lm) k;
     w' \<leftarrow> window_activate font active w;
     Some (lm\<lparr>lm_windows := (lm_windows lm)[k := w']\<rparr>)
   }"

definition activate :: "u8 list \<Rightarrow> u32 \<Rightarrow> active_layer \<times> layer_manager \<Rightarrow> (active_layer \<times> layer_manager) option" where
  "activate font i st =
    (case st of (al, lm) \<Rightarrow>
     if al_active al = i then Some (al, lm)
     else do {
       lm1 \<leftarrow> (if al_active al > 0
                then do { lm1 \<leftarrow> activate_window font False (al_active al) lm; lm_draw_id (al_active al) lm1 }
                else Some lm);
       (let al' = al\<lparr>al_active := i\<rparr>
        in if i > 0
           then do {
             lm2 \<leftarrow> activate_window font True i lm1;
             h \<leftarrow> lm_get_height (al_mouse al') lm2;
             lm3 \<leftarrow> lm_draw_id i (lm_up_down i (h - 1) lm2);
             Some (al', lm3)
           }
           else Some (al', lm1))
     })"

text \<open>\<open>ProcessLayerMessage\<close>; the other messages carry no layer operation.\<close>

definition process_layer_message :: "message_body \<Rightarrow> layer_manager \<Rightarrow> layer_manager option" where
  "process_layer_message m lm =
    (case m of
       LayerMsg op i x y w h \<Rightarrow>
         (case op of
            LMove \<Rightarrow> lm_move i (vec x y) lm
          | LMoveRelative \<Rightarrow> lm_move_relative i (vec x y) lm
          | LDraw \<Rightarrow> lm_draw_id i lm
          | LDrawArea \<Rightarrow> lm_draw_id_area i (rect (vec x y) (vec w h)) lm)
     | _ \<Rightarrow> Some lm)"

section \<open>Painting\<close>

text \<open>
  A manager that can draw: screen and back buffer of one size, every window well formed and in the
  screen's format, and every layer of the stack a real one with a position.
\<close>

definition layer_ok :: "layer_manager \<Rightarrow> layer \<Rightarrow> bool" where
  "layer_ok lm l \<longleftrightarrow> ly_pos l \<noteq> None \<and> (\<forall>k. ly_window l = Some k \<longrightarrow> k < length (lm_windows lm))"

definition stack_entry_ok :: "layer_manager \<Rightarrow> nat option \<Rightarrow> bool" where
  "stack_entry_ok lm p \<longleftrightarrow> (\<exists>i < length (lm_layers lm). p = Some i \<and> layer_ok lm (lm_layers lm ! i))"

definition lm_ok :: "layer_manager \<Rightarrow> bool" where
  "lm_ok lm \<longleftrightarrow>
    (\<exists>screen. lm_screen lm = Some screen \<and> fb_ok screen \<and> fb_dims screen = fb_dims (lm_back lm)
      \<and> fc_pixel_format (fb_config screen) = fc_pixel_format (fb_config (lm_back lm)))
    \<and> fb_ok (lm_back lm)
    \<and> (\<forall>w \<in> set (lm_windows lm). win_ok w
          \<and> fc_pixel_format (fb_config (w_shadow w)) = fc_pixel_format (fb_config (lm_back lm)))
    \<and> (\<forall>p \<in> set (lm_stack lm). stack_entry_ok lm p)"

text \<open>What the layer at \<open>p\<close> puts on a pixel when an area is drawn.\<close>

definition entry_shown :: "layer_manager \<Rightarrow> rectangle \<Rightarrow> vec2 \<Rightarrow> nat option \<Rightarrow> pixel_color option" where
  "entry_shown lm area q p =
    (case deref_layer lm p of
       None \<Rightarrow> None
     | Some l \<Rightarrow>
         (case (ly_window l, ly_pos l) of
            (Some k, Some pos) \<Rightarrow> win_shown (lm_windows lm ! k) pos area q
          | _ \<Rightarrow> None))"

definition overlay :: "layer_manager \<Rightarrow> rectangle \<Rightarrow> vec2 \<Rightarrow> nat option list \<Rightarrow> pixel_color \<Rightarrow> pixel_color" where
  "overlay lm area q ps old =
    fold (\<lambda>p c. case entry_shown lm area q p of Some c' \<Rightarrow> c' | None \<Rightarrow> c) ps old"

lemma draw_entry:
  assumes p: "stack_entry_ok lm p" and b: "fb_ok b" "fc_pixel_format (fb_config b) = f"
    and ws: "\<forall>w \<in> set (lm_windows lm). win_ok w \<and> fc_pixel_format (fb_config (w_shadow w)) = f"
    and sz: "0 \<le> vx (rsize area)" "0 \<le> vy (rsize area)"
  shows "\<exists>b'. do { l \<leftarrow> deref_layer lm p; layer_draw_to (lm_windows lm) l area b } = Some b'
    \<and> fb_ok b' \<and> fb_config b' = fb_config b
    \<and> (\<forall>q. on_canvas (fb_dims b) q \<longrightarrow>
          fb_colour b' q = (case entry_shown lm area q p of Some c \<Rightarrow> c | None \<Rightarrow> fb_colour b q))"
proof -
  from p obtain i l pos where l: "i < length (lm_layers lm)" "p = Some i" "l = lm_layers lm ! i" "ly_pos l = Some pos"
      "\<forall>k. ly_window l = Some k \<longrightarrow> k < length (lm_windows lm)"
    unfolding stack_entry_ok_def layer_ok_def by auto
  then have d: "deref_layer lm p = Some l" by (simp add: deref_layer_def)
  show ?thesis
  proof (cases "ly_window l")
    case None
    then show ?thesis using b by (simp add: d layer_draw_to_def entry_shown_def)
  next
    case (Some k)
    with l(5) have k: "k < length (lm_windows lm)" by simp
    with ws b have w: "win_ok (lm_windows lm ! k)"
      "fc_pixel_format (fb_config b) = fc_pixel_format (fb_config (w_shadow (lm_windows lm ! k)))" by auto
    from window_draw_to_spec [OF w(1) b(1) w(2) sz, of pos] show ?thesis
      by (simp add: d layer_draw_to_def entry_shown_def Some l(4) ub_simps k)
  qed
qed

lemma draw_stack_spec:
  assumes ps: "\<forall>p \<in> set ps. stack_entry_ok lm p" and b: "fb_ok b" "fc_pixel_format (fb_config b) = f"
    and ws: "\<forall>w \<in> set (lm_windows lm). win_ok w \<and> fc_pixel_format (fb_config (w_shadow w)) = f"
    and sz: "0 \<le> vx (rsize area)" "0 \<le> vy (rsize area)"
  shows "\<exists>b'. draw_stack lm area ps b = Some b' \<and> fb_ok b' \<and> fb_config b' = fb_config b
    \<and> (\<forall>q. on_canvas (fb_dims b) q \<longrightarrow> fb_colour b' q = overlay lm area q ps (fb_colour b q))"
  using ps b
proof (induction ps arbitrary: b)
  case Nil
  then show ?case by (simp add: draw_stack_def overlay_def)
next
  case (Cons p ps)
  from draw_entry [OF _ Cons.prems(2,3) ws sz, of p] Cons.prems(1) obtain b1 where
    b1: "do { l \<leftarrow> deref_layer lm p; layer_draw_to (lm_windows lm) l area b } = Some b1" "fb_ok b1"
      "fb_config b1 = fb_config b"
      "\<forall>q. on_canvas (fb_dims b) q \<longrightarrow>
        fb_colour b1 q = (case entry_shown lm area q p of Some c \<Rightarrow> c | None \<Rightarrow> fb_colour b q)" by auto
  have dims: "fb_dims b1 = fb_dims b" using b1(3) by (simp add: fb_dims_def fb_width_def fb_height_def)
  from Cons.IH [of b1] Cons.prems b1(2,3) obtain b2 where
    b2: "draw_stack lm area ps b1 = Some b2" "fb_ok b2" "fb_config b2 = fb_config b"
      "\<forall>q. on_canvas (fb_dims b1) q \<longrightarrow> fb_colour b2 q = overlay lm area q ps (fb_colour b1 q)" by auto
  have "draw_stack lm area (p # ps) b = Some b2" using b1(1) b2(1) by (simp add: draw_stack_def)
  moreover have "fb_colour b2 q = overlay lm area q (p # ps) (fb_colour b q)" if "on_canvas (fb_dims b) q" for q
    using b2(4) b1(4) that dims by (simp add: overlay_def)
  ultimately show ?case using b2(2,3) by blast
qed

lemma lm_draw_area_spec:
  assumes lm: "lm_ok lm" and s: "lm_screen lm = Some screen"
    and sz: "0 \<le> vx (rsize area)" "0 \<le> vy (rsize area)"
  shows "\<exists>back screen'. lm_draw_area area lm = Some (lm\<lparr>lm_back := back, lm_screen := Some screen'\<rparr>)
    \<and> fb_ok back \<and> fb_config back = fb_config (lm_back lm) \<and> fb_ok screen' \<and> fb_config screen' = fb_config screen
    \<and> (\<forall>q. on_canvas (fb_dims screen) q \<longrightarrow> fb_colour screen' q =
          (if rect_mem area q then overlay lm area q (lm_stack lm) (fb_colour (lm_back lm) q) else fb_colour screen q))"
proof -
  have ok: "fb_ok screen" "fb_dims screen = fb_dims (lm_back lm)" "fb_ok (lm_back lm)"
      "fc_pixel_format (fb_config screen) = fc_pixel_format (fb_config (lm_back lm))"
    and st: "\<forall>p \<in> set (lm_stack lm). stack_entry_ok lm p"
    and ws: "\<forall>w \<in> set (lm_windows lm). win_ok w
        \<and> fc_pixel_format (fb_config (w_shadow w)) = fc_pixel_format (fb_config (lm_back lm))"
    using lm s by (auto simp: lm_ok_def)
  from draw_stack_spec [OF st ok(3) refl ws sz] obtain bb where
    bk: "draw_stack lm area (lm_stack lm) (lm_back lm) = Some bb" "fb_ok bb" "fb_config bb = fb_config (lm_back lm)"
      "\<forall>q. on_canvas (fb_dims (lm_back lm)) q \<longrightarrow>
        fb_colour bb q = overlay lm area q (lm_stack lm) (fb_colour (lm_back lm) q)" by (elim exE conjE)
  have dims: "fb_dims bb = fb_dims screen" using bk(3) ok(2) by (simp add: fb_dims_def fb_width_def fb_height_def)
  from frame_copy_spec [OF ok(1) bk(2) _ sz, of "rpos area"] ok(4) bk(3) obtain m where
    m: "frame_copy (rpos area) bb area screen = Some (KSuccess, screen\<lparr>fb_mem := m\<rparr>)" "fb_ok (screen\<lparr>fb_mem := m\<rparr>)"
      "\<forall>q. on_canvas (fb_dims screen) q \<longrightarrow> fb_colour (screen\<lparr>fb_mem := m\<rparr>) q =
        (if rect_mem area q \<and> on_canvas (fb_dims bb) q then fb_colour bb q else fb_colour screen q)"
    by auto
  have "lm_draw_area area lm = Some (lm\<lparr>lm_back := bb, lm_screen := Some (screen\<lparr>fb_mem := m\<rparr>)\<rparr>)"
    by (simp add: lm_draw_area_def bk(1) s m(1))
  with bk m ok(2) dims show ?thesis
    by (intro exI [of _ bb] exI [of _ "screen\<lparr>fb_mem := m\<rparr>"]) simp
qed

lemma overlay_top:
  assumes "entry_shown lm area q p = Some c" and "\<forall>p' \<in> set upper. entry_shown lm area q p' = None"
  shows "overlay lm area q (lower @ p # upper) old = c"
proof -
  have "fold (\<lambda>p c. case entry_shown lm area q p of Some c' \<Rightarrow> c' | None \<Rightarrow> c) upper c = c"
    using assms(2) by (induction upper) auto
  with assms(1) show ?thesis by (simp add: overlay_def)
qed

lemma lm_ok_drawn:
  assumes "lm_ok lm" "lm_screen lm = Some screen"
    and "fb_ok bb" "fb_config bb = fb_config (lm_back lm)" "fb_ok screen'" "fb_config screen' = fb_config screen"
  shows "lm_ok (lm\<lparr>lm_back := bb, lm_screen := Some screen'\<rparr>)"
proof -
  have "fb_dims bb = fb_dims (lm_back lm)" "fb_dims screen' = fb_dims screen"
    using assms(4,6) by (simp_all add: fb_dims_def fb_width_def fb_height_def)
  with assms show ?thesis by (auto simp: lm_ok_def stack_entry_ok_def layer_ok_def)
qed

text \<open>
  C28: drawing an area of the screen is never undefined and shows, at every pixel of the area, the colour
  of the topmost layer that has one there: a layer's window covers the pixel, is opaque or has another
  colour than its transparent one, and no layer above it shows anything.  Outside the area the screen
  keeps its colours, and the layers, their order and their windows stay as they are.
\<close>

theorem draw_shows_topmost:
  assumes "lm_ok lm" and "lm_screen lm = Some screen"
    and "0 \<le> vx (rsize area)" and "0 \<le> vy (rsize area)"
  shows "\<exists>lm' screen'. lm_draw_area area lm = Some lm' \<and> lm_ok lm' \<and> lm_screen lm' = Some screen'
    \<and> lm_layers lm' = lm_layers lm \<and> lm_stack lm' = lm_stack lm \<and> lm_windows lm' = lm_windows lm
    \<and> (\<forall>q lower p upper c. on_canvas (fb_dims screen) q \<longrightarrow> rect_mem area q \<longrightarrow>
          lm_stack lm = lower @ p # upper \<longrightarrow> entry_shown lm area q p = Some c \<longrightarrow>
          (\<forall>p' \<in> set upper. entry_shown lm area q p' = None) \<longrightarrow> fb_colour screen' q = c)
    \<and> (\<forall>q. on_canvas (fb_dims screen) q \<longrightarrow> \<not> rect_mem area q \<longrightarrow> fb_colour screen' q = fb_colour screen q)"
proof -
  from lm_draw_area_spec [OF assms] obtain bb screen' where
    d: "lm_draw_area area lm = Some (lm\<lparr>lm_back := bb, lm_screen := Some screen'\<rparr>)" "fb_ok bb"
      "fb_config bb = fb_config (lm_back lm)" "fb_ok screen'" "fb_config screen' = fb_config screen"
      "\<forall>q. on_canvas (fb_dims screen) q \<longrightarrow> fb_colour screen' q =
        (if rect_mem area q then overlay lm area q (lm_stack lm) (fb_colour (lm_back lm) q) else fb_colour screen q)"
    by (elim exE conjE)
  from lm_ok_drawn [OF assms(1,2) d(2-5)] d(1,6) show ?thesis
    by (intro exI [of _ "lm\<lparr>lm_back := bb, lm_screen := Some screen'\<rparr>"] exI [of _ screen'])
      (auto simp: overlay_top)
qed

definition sample_manager :: layer_manager where
  "sample_manager =
    \<lparr>lm_screen = Some (sample_buffer 2 9), lm_back = sample_buffer 2 8,
     lm_layers = [\<lparr>ly_id = 1, ly_pos = Some (vec 0 0), ly_window = Some 0, ly_draggable = False\<rparr>,
       \<lparr>ly_id = 2, ly_pos = Some (vec 1 1), ly_window = Some 1, ly_draggable = False\<rparr>],
     lm_stack = [Some 0, Some 1], lm_latest_id = 2,
     lm_windows = [(window_new 2 2 PixelRGBResv8)\<lparr>w_shadow := sample_buffer 2 3\<rparr>, window_new 1 1 PixelRGBResv8]\<rparr>"

lemma sample_manager_ok: "lm_ok sample_manager"
proof -
  have k: "known_format PixelRGBResv8" by (simp add: known_format_def)
  have w: "win_ok (window_new 1 1 PixelRGBResv8)" "win_ok (window_new 2 2 PixelRGBResv8)"
    "fc_pixel_format (fb_config (w_shadow (window_new 1 1 PixelRGBResv8))) = PixelRGBResv8"
    "win_dims (window_new 2 2 PixelRGBResv8) = (2, 2)"
    using window_new_ok [OF k, of 1 1] window_new_ok [OF k, of 2 2] by simp_all
  have "win_ok ((window_new 2 2 PixelRGBResv8)\<lparr>w_shadow := sample_buffer 2 3\<rparr>)"
    using w(2,4) sample_buffer_ok [of 3] by (simp add: win_ok_def win_dims_def)
  moreover have "fc_pixel_format (fb_config (sample_buffer 2 v)) = PixelRGBResv8" for v by (simp add: sample_buffer_def)
  ultimately show ?thesis
    using w sample_buffer_ok
    by (auto simp: lm_ok_def sample_manager_def stack_entry_ok_def layer_ok_def less_Suc_eq_0_disj)
qed

theorem draw_shows_topmost_witness:
  "\<exists>lm' screen'. lm_draw_area (rect (vec 0 0) (vec 2 1)) sample_manager = Some lm' \<and> lm_screen lm' = Some screen'
    \<and> fb_colour screen' (vec 0 0) = rgb 3 3 3"
proof -
  have sc: "lm_screen sample_manager = Some (sample_buffer 2 9)" by (simp add: sample_manager_def)
  from draw_shows_topmost [OF sample_manager_ok sc, of "rect (vec 0 0) (vec 2 1)"] obtain lm' screen' where
    d: "lm_draw_area (rect (vec 0 0) (vec 2 1)) sample_manager = Some lm'" "lm_screen lm' = Some screen'"
      "\<forall>q lower p upper c. on_canvas (2, 2) q \<longrightarrow> rect_mem (rect (vec 0 0) (vec 2 1)) q \<longrightarrow>
          lm_stack sample_manager = lower @ p # upper \<longrightarrow> entry_shown sample_manager (rect (vec 0 0) (vec 2 1)) q p = Some c \<longrightarrow>
          (\<forall>p' \<in> set upper. entry_shown sample_manager (rect (vec 0 0) (vec 2 1)) q p' = None) \<longrightarrow> fb_colour screen' q = c"
    by (auto simp: sample_buffer_ok(2))
  have "entry_shown sample_manager (rect (vec 0 0) (vec 2 1)) (vec 0 0) (Some 0) = Some (rgb 3 3 3)"
    by (simp add: entry_shown_def deref_layer_def sample_manager_def arr_get_def win_shown_def win_colour_def win_dims_def
        window_new_def on_canvas_def rect_mem_def fb_colour_def fb_offset_def sample_buffer_def Let_def)
  moreover have "entry_shown sample_manager (rect (vec 0 0) (vec 2 1)) (vec 0 0) (Some 1) = None"
    by (simp add: entry_shown_def deref_layer_def sample_manager_def arr_get_def win_shown_def win_dims_def
        window_new_def on_canvas_def)
  moreover have "lm_stack sample_manager = [] @ Some 0 # [Some 1]" by (simp add: sample_manager_def)
  ultimately have "fb_colour screen' (vec 0 0) = rgb 3 3 3"
    using d(3) [rule_format, of "vec 0 0" "[]" "Some 0" "[Some 1]"] by (simp add: on_canvas_def rect_mem_def)
  with d(1,2) show ?thesis by blast
qed

section \<open>Moving a layer up and down\<close>

lemma insert_at_length: "n \<le> length xs \<Longrightarrow> length (insert_at n x xs) = Suc (length xs)"
  by (simp add: insert_at_def)

lemma remove1_insert_at: "x \<notin> set xs \<Longrightarrow> remove1 x (insert_at n x xs) = xs"
  using set_take_subset [of n xs] by (auto simp: insert_at_def remove1_append)

lemma distinct_insert_at: "distinct xs \<Longrightarrow> x \<notin> set xs \<Longrightarrow> distinct (insert_at n x xs)"
  using set_take_subset [of n xs] set_drop_subset [of n xs] set_take_disj_set_drop_if_distinct [of xs n n]
  by (auto simp: insert_at_def)

lemma set_insert_at: "set (insert_at n x xs) = insert x (set xs)"
  by (simp add: insert_at_def) (metis append_take_drop_id set_append)

text \<open>The place a layer gets: its height is capped by the stack it ends in.\<close>

definition new_place :: "nat option \<Rightarrow> nat \<Rightarrow> nat option list \<Rightarrow> nat" where
  "new_place p h stack = (if p \<in> set stack then min h (length stack - 1) else min h (length stack))"

lemma capped_place: "0 < m \<Longrightarrow> (if min h m = m then min h m - 1 else min h m) = min h (m - 1)" for h m :: nat
  by (auto simp: min_def)

lemma up_down_stack_spec:
  assumes "distinct stack"
  shows "up_down_stack p h stack =
      take (new_place p h stack) (remove1 p stack) @ p # drop (new_place p h stack) (remove1 p stack)"
    and "distinct (up_down_stack p h stack)" and "set (up_down_stack p h stack) = insert p (set stack)"
    and "remove1 p (up_down_stack p h stack) = remove1 p stack"
proof -
  have pr: "p \<notin> set (remove1 p stack)" "distinct (remove1 p stack)" using assms by simp_all
  have n: "p \<in> set stack \<Longrightarrow> 0 < length stack" by (cases stack) auto
  show e: "up_down_stack p h stack =
      take (new_place p h stack) (remove1 p stack) @ p # drop (new_place p h stack) (remove1 p stack)"
  proof (cases "p \<in> set stack")
    case True
    with capped_place [OF n [OF True], of h] show ?thesis
      by (simp only: up_down_stack_def new_place_def insert_at_def Let_def True not_True_eq_False if_False if_True)
  qed (simp add: up_down_stack_def new_place_def insert_at_def Let_def remove1_idem)
  then have i: "up_down_stack p h stack = insert_at (new_place p h stack) p (remove1 p stack)"
    by (simp add: insert_at_def)
  show "distinct (up_down_stack p h stack)" unfolding i using pr by (simp add: distinct_insert_at)
  show "set (up_down_stack p h stack) = insert p (set stack)" unfolding i set_insert_at using assms by auto
  show "remove1 p (up_down_stack p h stack) = remove1 p stack" unfolding i using pr by (simp add: remove1_insert_at)
qed

text \<open>A stack of different real layers, with ids of their own.\<close>

definition stack_wf :: "layer_manager \<Rightarrow> bool" where
  "stack_wf lm \<longleftrightarrow>
    distinct (lm_stack lm) \<and> distinct (map ly_id (lm_layers lm))
    \<and> (\<forall>p \<in> set (lm_stack lm). \<exists>k < length (lm_layers lm). p = Some k)"

lemma find_index_Some: "find_index p xs = Some k \<Longrightarrow> k < length xs \<and> p (xs ! k)"
  by (induction xs arbitrary: k) (auto split: if_splits)

lemma find_layer_Some: "find_layer i lm = Some k \<Longrightarrow> k < length (lm_layers lm) \<and> ly_id (lm_layers lm ! k) = i"
  unfolding find_layer_def by (drule find_index_Some) simp

lemma find_index_unique: "distinct (map f xs) \<Longrightarrow> k < length xs \<Longrightarrow> find_index (\<lambda>x. f x = f (xs ! k)) xs = Some k"
proof (induction xs arbitrary: k)
  case (Cons x xs)
  show ?case
  proof (cases k)
    case (Suc j)
    with Cons.prems have "f x \<noteq> f (xs ! j)" by auto
    with Suc Cons show ?thesis by simp
  qed simp
qed simp

lemma find_layer_nth: "distinct (map ly_id (lm_layers lm)) \<Longrightarrow> k < length (lm_layers lm) \<Longrightarrow>
    find_layer (ly_id (lm_layers lm ! k)) lm = Some k"
  unfolding find_layer_def by (rule find_index_unique)

lemma height_loop_at:
  assumes "\<forall>p \<in> set xs. \<exists>l. deref_layer lm p = Some l \<and> ly_id l \<noteq> i" and "deref_layer lm p = Some l" "ly_id l = i"
  shows "height_loop lm i (xs @ p # ys) n = Some (n + int (length xs))"
  using assms by (induction xs arbitrary: n) auto

lemma get_height_at:
  assumes wf: "stack_wf lm" and st: "lm_stack lm = xs @ Some k # ys" and i: "find_layer i lm = Some k"
  shows "lm_get_height i lm = Some (int (length xs))"
proof -
  have k: "k < length (lm_layers lm)" "ly_id (lm_layers lm ! k) = i" using find_layer_Some [OF i] by auto
  have "\<exists>l. deref_layer lm p = Some l \<and> ly_id l \<noteq> i" if p: "p \<in> set xs" for p
  proof -
    from p st wf obtain j where j: "p = Some j" "j < length (lm_layers lm)" unfolding stack_wf_def by auto
    have "j \<noteq> k" using wf st p j(1) unfolding stack_wf_def by auto
    with wf j(2) k have "ly_id (lm_layers lm ! j) \<noteq> i"
      using nth_eq_iff_index_eq [of "map ly_id (lm_layers lm)" j k] by (auto simp: stack_wf_def)
    with j show ?thesis by (simp add: deref_layer_def)
  qed
  then show ?thesis
    using height_loop_at [of xs lm i "Some k" "lm_layers lm ! k" ys 0] k
    by (simp add: lm_get_height_def st deref_layer_def)
qed

lemma up_down_wf:
  assumes "stack_wf lm" and "find_layer i lm = Some k"
  shows "stack_wf (lm_up_down i h lm)"
proof (cases "h < 0")
  case True
  with assms(1) show ?thesis
    using set_remove1_subset [of "find_layer i lm" "lm_stack lm"] by (auto simp: stack_wf_def lm_up_down_def lm_hide_def)
next
  case False
  from assms(1) have "distinct (lm_stack lm)" by (simp add: stack_wf_def)
  from up_down_stack_spec(2,3) [OF this] assms False find_layer_Some [OF assms(2)] show ?thesis
    by (auto simp: stack_wf_def lm_up_down_def)
qed

text \<open>
  \<open>UpDown\<close> to a height that is not negative puts the layer at that height, or on top when the stack
  is not so high, whether it was shown before or not; the layers around it keep their order, and no
  layer is lost or doubled.
\<close>

theorem up_down_height:
  assumes "stack_wf lm" and "find_layer i lm = Some k" and "0 \<le> h"
  shows "lm_get_height i (lm_up_down i h lm) = Some (int (new_place (Some k) (nat h) (lm_stack lm)))
    \<and> stack_wf (lm_up_down i h lm)
    \<and> set (lm_stack (lm_up_down i h lm)) = insert (Some k) (set (lm_stack lm))
    \<and> remove1 (Some k) (lm_stack (lm_up_down i h lm)) = remove1 (Some k) (lm_stack lm)"
proof -
  let ?n = "new_place (Some k) (nat h) (lm_stack lm)" and ?lm = "lm_up_down i h lm"
  have d: "distinct (lm_stack lm)" using assms(1) by (simp add: stack_wf_def)
  note s = up_down_stack_spec [OF d, of "Some k" "nat h"]
  have st: "lm_stack ?lm = up_down_stack (Some k) (nat h) (lm_stack lm)" using assms(2,3) by (simp add: lm_up_down_def)
  have f: "find_layer i ?lm = Some k" using assms(2,3) by (simp add: lm_up_down_def find_layer_def)
  have "?n \<le> length (remove1 (Some k) (lm_stack lm))"
    by (auto simp: new_place_def length_remove1)
  then have "length (take ?n (remove1 (Some k) (lm_stack lm))) = ?n" by simp
  with get_height_at [OF up_down_wf [OF assms(1,2), of h] st [unfolded s(1)] f] s(3,4) up_down_wf [OF assms(1,2), of h]
  show ?thesis unfolding st by simp
qed

lemma sample_manager_wf: "stack_wf sample_manager" "find_layer 1 sample_manager = Some 0" "find_layer 2 sample_manager = Some 1"
  by (auto simp: stack_wf_def sample_manager_def find_layer_def)

theorem up_down_height_witness: "lm_get_height 1 (lm_up_down 1 7 sample_manager) = Some 1"
  using up_down_height [OF sample_manager_wf(1,2), of 7] by (simp add: new_place_def sample_manager_def)

section \<open>Drawing one layer\<close>

text \<open>Before the layer is met nothing is drawn; from it on, its window area is.\<close>

lemma draw_id_before:
  assumes "\<forall>p \<in> set xs. \<exists>l. deref_layer lm p = Some l \<and> ly_id l \<noteq> i"
  shows "for_each (draw_id_step lm i) xs (False, None, area, b) = Some (False, None, area, b)"
  using assms by (induction xs) (auto simp: draw_id_step_def)

lemma draw_id_after:
  assumes "\<forall>p \<in> set ys. \<exists>l. deref_layer lm p = Some l \<and> ly_id l \<noteq> i"
  shows "for_each (draw_id_step lm i) ys (True, Some wa, area, b) =
    map_option (\<lambda>b'. (True, Some wa, area, b')) (draw_stack lm wa ys b)"
  using assms
proof (induction ys arbitrary: b)
  case (Cons p ys)
  then obtain l where l: "deref_layer lm p = Some l" "ly_id l \<noteq> i" by auto
  show ?case
  proof (cases "layer_draw_to (lm_windows lm) l wa b")
    case None
    with l show ?thesis by (simp add: draw_id_step_def draw_stack_def)
  next
    case (Some b1)
    with l Cons.IH [of b1] Cons.prems show ?thesis by (simp add: draw_id_step_def draw_stack_def)
  qed
qed (simp add: draw_stack_def)

lemma other_ids:
  assumes wf: "stack_wf lm" and i: "find_layer i lm = Some k" and p: "p \<in> set (lm_stack lm)" "p \<noteq> Some k"
  shows "\<exists>l. deref_layer lm p = Some l \<and> ly_id l \<noteq> i"
proof -
  have k: "k < length (lm_layers lm)" "ly_id (lm_layers lm ! k) = i" using find_layer_Some [OF i] by auto
  from p wf obtain j where j: "p = Some j" "j < length (lm_layers lm)" unfolding stack_wf_def by auto
  with wf p(2) k have "ly_id (lm_layers lm ! j) \<noteq> i"
    using nth_eq_iff_index_eq [of "map ly_id (lm_layers lm)" j k] by (auto simp: stack_wf_def)
  with j show ?thesis by (simp add: deref_layer_def)
qed

lemma lm_draw_id_eq:
  assumes wf: "stack_wf lm" and i: "find_layer i lm = Some k" and st: "lm_stack lm = xs @ Some k # ys"
    and l: "ly_window (lm_layers lm ! k) = Some n" "ly_pos (lm_layers lm ! k) = Some pos" "n < length (lm_windows lm)"
  shows "lm_draw_id i lm = do {
     b \<leftarrow> draw_stack lm (rect pos (window_size (lm_windows lm ! n))) (Some k # ys) (lm_back lm);
     screen \<leftarrow> lm_screen lm;
     (e, screen') \<leftarrow> frame_copy pos b (rect pos (window_size (lm_windows lm ! n))) screen;
     Some (lm\<lparr>lm_back := b, lm_screen := Some screen'\<rparr>) }"
proof -
  let ?wa = "rect pos (window_size (lm_windows lm ! n))" and ?ar = "rect (vec 0 0) (vec (- 1) (- 1))"
  have k: "k < length (lm_layers lm)" "ly_id (lm_layers lm ! k) = i" using find_layer_Some [OF i] by auto
  have d: "distinct (xs @ Some k # ys)" using wf st by (simp add: stack_wf_def)
  have others: "\<forall>p \<in> set xs. \<exists>l. deref_layer lm p = Some l \<and> ly_id l \<noteq> i"
    "\<forall>p \<in> set ys. \<exists>l. deref_layer lm p = Some l \<and> ly_id l \<noteq> i"
    using other_ids [OF wf i] d by (auto simp: st)
  have me: "deref_layer lm (Some k) = Some (lm_layers lm ! k)" using k by (simp add: deref_layer_def)
  have sz: "layer_window_size lm (lm_layers lm ! k) = Some (window_size (lm_windows lm ! n))"
    using l by (simp add: layer_window_size_def ub_simps)
  have step: "draw_id_step lm i (Some k) (False, None, ?ar, b) =
      map_option (\<lambda>b'. (True, Some ?wa, ?ar, b')) (layer_draw_to (lm_windows lm) (lm_layers lm ! k) ?wa b)" for b
    using k(2) by (cases "layer_draw_to (lm_windows lm) (lm_layers lm ! k) ?wa b") (simp_all add: draw_id_step_def me sz l Let_def)
  have "for_each (draw_id_step lm i) (lm_stack lm) (False, None, ?ar, lm_back lm) =
      map_option (\<lambda>b'. (True, Some ?wa, ?ar, b')) (draw_stack lm ?wa (Some k # ys) (lm_back lm))"
    unfolding st for_each_append draw_id_before [OF others(1)]
    using draw_id_after [OF others(2)] step [of "lm_back lm"]
    by (cases "layer_draw_to (lm_windows lm) (lm_layers lm ! k) ?wa (lm_back lm)") (simp_all add: draw_stack_def me)
  then show ?thesis
    unfolding lm_draw_id_def lm_draw_id_area_def
    by (cases "draw_stack lm ?wa (Some k # ys) (lm_back lm)") simp_all
qed

text \<open>
  Drawing one layer that is shown: what is above it stays above it, and the manager stays as it was.
\<close>

lemma lm_draw_id_spec:
  assumes lm: "lm_ok lm" and s: "lm_screen lm = Some screen" and wf: "stack_wf lm"
    and i: "find_layer i lm = Some k" and st: "lm_stack lm = xs @ Some k # ys"
    and l: "ly_window (lm_layers lm ! k) = Some n" "ly_pos (lm_layers lm ! k) = Some pos"
  shows "\<exists>b screen'. lm_draw_id i lm = Some (lm\<lparr>lm_back := b, lm_screen := Some screen'\<rparr>)
    \<and> lm_ok (lm\<lparr>lm_back := b, lm_screen := Some screen'\<rparr>) \<and> fb_dims screen' = fb_dims screen
    \<and> (\<forall>q. on_canvas (fb_dims screen) q \<longrightarrow> fb_colour screen' q =
          (let wa = rect pos (window_size (lm_windows lm ! n))
           in if rect_mem wa q then overlay lm wa q (Some k # ys) (fb_colour (lm_back lm) q) else fb_colour screen q))"
proof -
  let ?wa = "rect pos (window_size (lm_windows lm ! n))"
  have ok: "fb_ok screen" "fb_dims screen = fb_dims (lm_back lm)" "fb_ok (lm_back lm)"
      "fc_pixel_format (fb_config screen) = fc_pixel_format (fb_config (lm_back lm))"
    and es: "\<forall>p \<in> set (Some k # ys). stack_entry_ok lm p"
    and ws: "\<forall>w \<in> set (lm_windows lm). win_ok w
        \<and> fc_pixel_format (fb_config (w_shadow w)) = fc_pixel_format (fb_config (lm_back lm))"
    using lm s by (auto simp: lm_ok_def st)
  have n: "n < length (lm_windows lm)" using es l(1) by (auto simp: stack_entry_ok_def layer_ok_def)
  with ws have "win_ok (lm_windows lm ! n)" by auto
  then have sz: "0 \<le> vx (rsize ?wa)" "0 \<le> vy (rsize ?wa)"
    by (auto simp: win_ok_def fb_ok_def fb_dims_def win_dims_def window_size_def)
  from draw_stack_spec [OF es ok(3) refl ws sz] obtain b where
    b: "draw_stack lm ?wa (Some k # ys) (lm_back lm) = Some b" "fb_ok b" "fb_config b = fb_config (lm_back lm)"
      "\<forall>q. on_canvas (fb_dims (lm_back lm)) q \<longrightarrow>
        fb_colour b q = overlay lm ?wa q (Some k # ys) (fb_colour (lm_back lm) q)" by (elim exE conjE)
  have dims: "fb_dims b = fb_dims screen" using b(3) ok(2) by (simp add: fb_dims_def fb_width_def fb_height_def)
  from frame_copy_spec [OF ok(1) b(2) _ sz, of pos] ok(4) b(3) obtain m where
    m: "frame_copy pos b ?wa screen = Some (KSuccess, screen\<lparr>fb_mem := m\<rparr>)" "fb_ok (screen\<lparr>fb_mem := m\<rparr>)"
      "\<forall>q. on_canvas (fb_dims screen) q \<longrightarrow> fb_colour (screen\<lparr>fb_mem := m\<rparr>) q =
        (if rect_mem ?wa q \<and> on_canvas (fb_dims b) q then fb_colour b q else fb_colour screen q)"
    by auto
  have "lm_draw_id i lm = Some (lm\<lparr>lm_back := b, lm_screen := Some (screen\<lparr>fb_mem := m\<rparr>)\<rparr>)"
    by (simp only: lm_draw_id_eq [OF wf i st l n] b(1) s m(1) bind.bind_lunit prod.case)
  with lm_ok_drawn [OF lm s b(2,3) m(2)] m(3) b(4) ok(2) dims show ?thesis
    by (intro exI [of _ b] exI [of _ "screen\<lparr>fb_mem := m\<rparr>"]) (simp add: Let_def)
qed

section \<open>Activating a layer\<close>

lemma up_down_ok:
  assumes "lm_ok lm" and "stack_wf lm" and "find_layer i lm = Some k" and "layer_ok lm (lm_layers lm ! k)"
  shows "lm_ok (lm_up_down i h lm)"
proof -
  have k: "stack_entry_ok lm (Some k)" using assms(4) find_layer_Some [OF assms(3)] by (auto simp: stack_entry_ok_def)
  have "distinct (lm_stack lm)" using assms(2) by (simp add: stack_wf_def)
  then have "set (lm_stack (lm_up_down i h lm)) \<subseteq> insert (Some k) (set (lm_stack lm))"
    using set_remove1_subset [of "Some k" "lm_stack lm"]
    by (auto simp: lm_up_down_def lm_hide_def assms(3) up_down_stack_spec(3))
  with assms(1) k have "\<forall>p \<in> set (lm_stack (lm_up_down i h lm)). stack_entry_ok lm p" by (auto simp: lm_ok_def)
  then show ?thesis
    using assms(1) by (auto simp: lm_ok_def lm_up_down_def lm_hide_def stack_entry_ok_def layer_ok_def)
qed

text \<open>Repainting a window in place keeps the manager able to draw.\<close>

lemma lm_ok_window:
  assumes "lm_ok lm" and "n < length (lm_windows lm)" and "win_like (lm_windows lm ! n) w"
  shows "lm_ok (lm\<lparr>lm_windows := (lm_windows lm)[n := w]\<rparr>)"
proof -
  have ws: "\<forall>w \<in> set (lm_windows lm). win_ok w
      \<and> fc_pixel_format (fb_config (w_shadow w)) = fc_pixel_format (fb_config (lm_back lm))"
    using assms(1) by (simp add: lm_ok_def)
  have "lm_windows lm ! n \<in> set (lm_windows lm)" using assms(2) by simp
  with ws assms(3) have "win_ok w \<and> fc_pixel_format (fb_config (w_shadow w)) = fc_pixel_format (fb_config (lm_back lm))"
    by (simp add: win_like_def)
  with ws have "\<forall>v \<in> set ((lm_windows lm)[n := w]). win_ok v
      \<and> fc_pixel_format (fb_config (w_shadow v)) = fc_pixel_format (fb_config (lm_back lm))"
    using set_update_subset_insert [of "lm_windows lm" n w] by auto
  then show ?thesis using assms(1) by (auto simp: lm_ok_def stack_entry_ok_def layer_ok_def)
qed

text \<open>
  What \<open>Activate\<close> does to the stack when no layer was active and the mouse layer is on top.
\<close>

lemma activate_stack:
  assumes lm: "lm_ok lm" and wf: "stack_wf lm" and s: "lm_screen lm = Some screen"
    and m: "lm_stack lm = rest @ [Some m]" "find_layer (al_mouse al) lm = Some m" and ne: "rest \<noteq> []"
    and i: "find_layer i lm = Some k" "0 < i" and a: "al_active al = 0" and km: "k \<noteq> m"
    and l: "ly_window (lm_layers lm ! k) = Some n" "layer_ok lm (lm_layers lm ! k)"
    and w: "window_activate font True (lm_windows lm ! n) = Some w" "win_like (lm_windows lm ! n) w"
  shows "\<exists>lm'. activate font i (al, lm) = Some (al\<lparr>al_active := i\<rparr>, lm')
    \<and> lm_stack lm' = up_down_stack (Some k) (length rest - 1) (rest @ [Some m])"
proof -
  have k: "k < length (lm_layers lm)" using find_layer_Some [OF i(1)] by simp
  obtain pos where pos: "ly_pos (lm_layers lm ! k) = Some pos" using l(2) by (auto simp: layer_ok_def)
  have n: "n < length (lm_windows lm)" using l by (simp add: layer_ok_def)
  let ?lm = "lm\<lparr>lm_windows := (lm_windows lm)[n := w]\<rparr>"
  have act: "activate_window font True i lm = Some ?lm"
    using i(1) k l(1) n w(1) by (simp add: activate_window_def deref_layer_def ub_simps)
  have ok: "lm_ok ?lm" by (rule lm_ok_window [OF lm n w(2)])
  have wf': "stack_wf ?lm" using wf by (simp add: stack_wf_def)
  have f: "find_layer j ?lm = find_layer j lm" for j by (simp add: find_layer_def)
  have lok: "layer_ok ?lm (lm_layers ?lm ! k)" using l(2) by (auto simp: layer_ok_def)
  have h: "lm_get_height (al_mouse al) ?lm = Some (int (length rest))"
    using get_height_at [OF wf', of rest m "[]" "al_mouse al"] m f by simp
  let ?u = "lm_up_down i (int (length rest) - 1) ?lm"
  have nn: "nat (int (length rest) - 1) = length rest - 1" using ne by (cases rest) auto
  have st: "lm_stack ?u = up_down_stack (Some k) (length rest - 1) (rest @ [Some m])"
    using ne by (cases rest) (simp_all add: lm_up_down_def f i(1) m(1))
  have "Some k \<in> set (lm_stack ?u)"
    unfolding st using up_down_stack_spec(3) [of "rest @ [Some m]" "Some k"] wf m(1) by (simp add: stack_wf_def)
  then obtain xs ys where xy: "lm_stack ?u = xs @ Some k # ys" by (meson split_list)
  have fu: "find_layer i ?u = Some k" "lm_layers ?u = lm_layers lm" "lm_screen ?u = Some screen"
    using i(1) s by (simp_all add: lm_up_down_def lm_hide_def find_layer_def)
  have fi: "find_layer i ?lm = Some k" using f i(1) by simp
  note u = up_down_ok [OF ok wf' fi lok] and uw = up_down_wf [OF wf' fi]
  from lm_draw_id_spec [OF u fu(3) uw fu(1) xy] l(1) pos fu(2) obtain lm' where
    d: "lm_draw_id i ?u = Some lm'" "lm_stack lm' = lm_stack ?u" by fastforce
  have "activate font i (al, lm) = Some (al\<lparr>al_active := i\<rparr>, lm')"
    using a i(2) by (simp add: activate_def Let_def act h d(1))
  with d(2) st show ?thesis by simp
qed

text \<open>
  Activating a layer that is shown raises it above every other layer except the mouse, which stays on
  top, and the others keep their order.  Activating a layer that is not shown yet, as
  \<open>TaskTerminal\<close> does with a new terminal and the system call that opens a window with its layer, inserts it one place too low:
  it comes to lie under the layer that was the topmost one below the mouse.
\<close>

theorem activate_raises:
  assumes "lm_ok lm" and "stack_wf lm" and "lm_screen lm = Some screen"
    and "lm_stack lm = rest @ [Some t, Some m]" and "find_layer (al_mouse al) lm = Some m"
    and "find_layer i lm = Some k" and "0 < i" and "al_active al = 0" and "k \<noteq> m"
    and "ly_window (lm_layers lm ! k) = Some n" and "layer_ok lm (lm_layers lm ! k)"
    and "window_activate font True (lm_windows lm ! n) = Some w" and "win_like (lm_windows lm ! n) w"
  shows "\<exists>lm'. activate font i (al, lm) = Some (al\<lparr>al_active := i\<rparr>, lm')
    \<and> lm_stack lm' =
        (if Some k \<in> set (lm_stack lm) then remove1 (Some k) (rest @ [Some t]) @ [Some k, Some m]
         else rest @ [Some k, Some t, Some m])"
proof -
  have st: "lm_stack lm = (rest @ [Some t]) @ [Some m]" using assms(4) by simp
  have "up_down_stack (Some k) (length (rest @ [Some t]) - 1) ((rest @ [Some t]) @ [Some m]) =
      (if Some k \<in> set (lm_stack lm) then remove1 (Some k) (rest @ [Some t]) @ [Some k, Some m]
       else rest @ [Some k, Some t, Some m])"
  proof (cases "Some k \<in> set (lm_stack lm)")
    case True
    then have kr: "Some k \<in> set (rest @ [Some t])" using st assms(9) by simp
    then have "remove1 (Some k) ((rest @ [Some t]) @ [Some m]) = remove1 (Some k) (rest @ [Some t]) @ [Some m]"
      by (simp only: remove1_append if_True)
    moreover have "length (remove1 (Some k) (rest @ [Some t])) = length rest"
      using kr by (simp add: length_remove1)
    ultimately show ?thesis using True kr by (auto simp: up_down_stack_def insert_at_def Let_def min_def)
  next
    case False
    then show ?thesis using st by (simp add: up_down_stack_def insert_at_def Let_def min_def)
  qed
  with activate_stack [OF assms(1-3) st assms(5) _ assms(6-13)] show ?thesis by simp
qed

definition sample_desktop :: layer_manager where
  "sample_desktop = sample_manager\<lparr>lm_layers := lm_layers sample_manager @
     [\<lparr>ly_id = 3, ly_pos = Some (vec 0 1), ly_window = Some 0, ly_draggable = True\<rparr>], lm_latest_id := 3\<rparr>"

lemma sample_desktop_ok: "lm_ok sample_desktop" "stack_wf sample_desktop"
  using sample_manager_ok
  by (auto simp: sample_desktop_def sample_manager_def lm_ok_def stack_entry_ok_def layer_ok_def stack_wf_def
      less_Suc_eq_0_disj)

theorem activate_raises_witness:
  "\<exists>lm'. activate [] 3 (\<lparr>al_active = 0, al_mouse = 2\<rparr>, sample_desktop) = Some (\<lparr>al_active = 3, al_mouse = 2\<rparr>, lm')
    \<and> lm_stack lm' = [Some 2, Some 0, Some 1]"
proof -
  let ?w = "(window_new 2 2 PixelRGBResv8)\<lparr>w_shadow := sample_buffer 2 3\<rparr>"
  have e: "lm_stack sample_desktop = [] @ [Some 0, Some 1]" "lm_windows sample_desktop ! 0 = ?w"
    "lm_screen sample_desktop = Some (sample_buffer 2 9)"
    "find_layer 2 sample_desktop = Some 1" "find_layer 3 sample_desktop = Some 2"
    "ly_window (lm_layers sample_desktop ! 2) = Some 0"
    by (simp_all add: sample_desktop_def sample_manager_def find_layer_def)
  have w: "window_activate [] True ?w = Some ?w" by (simp add: window_activate_def window_new_def)
  have "win_ok ?w" using sample_desktop_ok(1) by (simp add: lm_ok_def sample_desktop_def sample_manager_def)
  then have "win_like ?w ?w" by (simp add: win_like_def)
  moreover have "layer_ok sample_desktop (lm_layers sample_desktop ! 2)"
    by (simp add: sample_desktop_def sample_manager_def layer_ok_def)
  ultimately show ?thesis
    using activate_raises [OF sample_desktop_ok e(3,1), of "\<lparr>al_active = 0, al_mouse = 2\<rparr>" 3 2 0 "[]" ?w] e w by simp
qed

section \<open>Layers that are not shown\<close>

lemma find_index_map: "find_index p (map f xs) = find_index (\<lambda>x. p (f x)) xs"
  by (induction xs) auto

lemma find_layer_ids: "map ly_id (lm_layers lm) = map ly_id (lm_layers lm') \<Longrightarrow> find_layer i lm = find_layer i lm'"
  using find_index_map [of "\<lambda>j. j = i" ly_id "lm_layers lm"] find_index_map [of "\<lambda>j. j = i" ly_id "lm_layers lm'"]
  by (simp add: find_layer_def)

lemma lm_draw_id_hidden:
  assumes wf: "stack_wf lm" and i: "find_layer i lm = Some k" "Some k \<notin> set (lm_stack lm)"
  shows "lm_draw_id_area i area lm = None"
proof -
  have "\<forall>p \<in> set (lm_stack lm). \<exists>l. deref_layer lm p = Some l \<and> ly_id l \<noteq> i"
    using other_ids [OF wf i(1)] i(2) by auto
  then show ?thesis by (simp add: lm_draw_id_area_def draw_id_before)
qed

lemma lm_draw_area_frame:
  "lm_draw_area area lm = Some lm' \<Longrightarrow> lm_layers lm' = lm_layers lm \<and> lm_stack lm' = lm_stack lm"
  by (auto simp: lm_draw_area_def split: bind_splits)

text \<open>
  \<open>LayerManager::Move\<close> on a layer that is not in the stack reads the area to draw from a variable that
  was never written: \<open>Draw\<close> looks for the layer in the stack only, and copies its window area to the
  screen whether it met the layer or not.  \<open>InitializeMouse\<close> and \<open>TaskTerminal\<close> both move a new layer
  before they show it.
\<close>

theorem move_hidden_undefined:
  assumes "stack_wf lm" and "find_layer i lm = Some k" and "Some k \<notin> set (lm_stack lm)"
  shows "lm_move i pos lm = None"
proof -
  have k: "k < length (lm_layers lm)" using find_layer_Some [OF assms(2)] by simp
  let ?lm = "lm\<lparr>lm_layers := (lm_layers lm)[k := layer_move pos (lm_layers lm ! k)]\<rparr>"
  have ids: "map ly_id (lm_layers ?lm) = map ly_id (lm_layers lm)"
    using k by (simp add: map_update layer_move_def list_update_same_conv)
  have "lm_draw_id i lm' = None" if d: "lm_draw_area area ?lm = Some lm'" for area lm'
  proof -
    from lm_draw_area_frame [OF d] have f: "lm_layers lm' = lm_layers ?lm" "lm_stack lm' = lm_stack lm" by auto
    then have m: "map ly_id (lm_layers lm') = map ly_id (lm_layers lm)" using ids by simp
    have "length (lm_layers lm') = length (lm_layers lm)" using m by (metis length_map)
    with f(2) m assms(1) have "stack_wf lm'" by (simp add: stack_wf_def)
    moreover have "find_layer i lm' = Some k" using find_layer_ids [OF m] assms(2) by simp
    ultimately show ?thesis using assms(3) f(2) unfolding lm_draw_id_def by (intro lm_draw_id_hidden) auto
  qed
  then show ?thesis using assms(2) k by (auto simp: lm_move_def ub_simps split: bind_splits)
qed

theorem move_hidden_undefined_witness: "lm_move 3 (vec 100 200) sample_desktop = None"
  by (rule move_hidden_undefined [OF sample_desktop_ok(2), of 3 2])
    (simp_all add: sample_desktop_def sample_manager_def find_layer_def)

section \<open>Finding a layer under a position\<close>

text \<open>Whether a layer's window covers a pixel.\<close>

definition covers :: "layer_manager \<Rightarrow> vec2 \<Rightarrow> layer \<Rightarrow> bool" where
  "covers lm q l \<longleftrightarrow>
    (\<exists>k pos. ly_window l = Some k \<and> ly_pos l = Some pos
      \<and> rect_mem (rect pos (window_size (lm_windows lm ! k))) q)"

text \<open>The pixel row right under a window, as wide as the window.\<close>

definition right_under :: "layer_manager \<Rightarrow> vec2 \<Rightarrow> layer \<Rightarrow> bool" where
  "right_under lm q l \<longleftrightarrow>
    (\<exists>k pos. ly_window l = Some k \<and> ly_pos l = Some pos
      \<and> vx pos \<le> vx q \<and> vx q < vx pos + w_width (lm_windows lm ! k) \<and> vy q = vy pos + w_height (lm_windows lm ! k))"

lemma layer_hit_iff:
  assumes "layer_ok lm l" and "\<forall>w \<in> set (lm_windows lm). 0 \<le> w_height w"
  shows "layer_hit lm q ex l = Some (ly_id l \<noteq> ex \<and> (covers lm q l \<or> right_under lm q l))"
proof -
  obtain pos where pos: "ly_pos l = Some pos" using assms(1) by (auto simp: layer_ok_def)
  show ?thesis
  proof (cases "ly_window l")
    case (Some k)
    with assms(1) have k: "k < length (lm_windows lm)" by (simp add: layer_ok_def)
    with assms(2) have "0 \<le> w_height (lm_windows lm ! k)" by simp
    with Some pos k show ?thesis
      by (auto simp: layer_hit_def covers_def right_under_def ub_simps window_size_def rect_mem_def Let_def)
  qed (simp add: layer_hit_def covers_def right_under_def)
qed

lemma find_hit_first:
  assumes "\<forall>p \<in> set ps. stack_entry_ok lm p" and "\<forall>w \<in> set (lm_windows lm). 0 \<le> w_height w"
  shows "find_hit lm q ex ps = Some (case List.find (\<lambda>p. \<exists>l. deref_layer lm p = Some l \<and> ly_id l \<noteq> ex
      \<and> (covers lm q l \<or> right_under lm q l)) ps of None \<Rightarrow> None | Some p \<Rightarrow> p)"
  using assms(1)
proof (induction ps)
  case (Cons p ps)
  then obtain l where l: "deref_layer lm p = Some l" "layer_ok lm l"
    by (auto simp: stack_entry_ok_def deref_layer_def)
  from layer_hit_iff [OF l(2) assms(2), of q ex] l(1) Cons show ?case by auto
qed simp

text \<open>
  \<open>FindLayerByPosition\<close> finds the topmost layer, other than the excluded one, whose window covers the
  position or ends right above it: the comparison of the lower edge includes it, the one of the right
  edge does not, so a click one pixel under a window goes to the window and not to what is seen there.
\<close>

theorem find_layer_by_position_topmost:
  assumes "lm_ok lm"
  shows "find_layer_by_position q ex lm = Some (case List.find (\<lambda>p. \<exists>l. deref_layer lm p = Some l \<and> ly_id l \<noteq> ex
      \<and> (covers lm q l \<or> right_under lm q l)) (rev (lm_stack lm)) of None \<Rightarrow> None | Some p \<Rightarrow> p)"
proof -
  have "\<forall>w \<in> set (lm_windows lm). 0 \<le> w_height w"
    using assms by (auto simp: lm_ok_def win_ok_def fb_ok_def fb_dims_def win_dims_def)
  then show ?thesis
    using assms unfolding find_layer_by_position_def by (intro find_hit_first) (auto simp: lm_ok_def)
qed

theorem find_layer_by_position_topmost_witness:
  "find_layer_by_position (vec 1 2) 0 sample_manager = Some (Some 1)"
  using find_layer_by_position_topmost [OF sample_manager_ok, of "vec 1 2" 0]
  by (simp add: sample_manager_def deref_layer_def arr_get_def right_under_def window_new_def)

end
