(* ===== verification/Usb_Setup.thy ===== *)
theory Usb_Setup
  imports Usb_Endpoint Bit_Layout
begin

text \<open>
  Control requests and descriptors of USB devices: \<open>Kernel/usb/setupdata.hpp\<close> and
  \<open>Kernel/usb/descriptor.hpp\<close>.

  A descriptor is a view on the bytes a device sent; its fields are read little-endian at their
  offset, and a read outside the buffer has no result.
\<close>

section \<open>Requests\<close>

definition request_type_codes :: "(string \<times> u8) list" where
  "request_type_codes =
    [(''recipient kDevice'', 0), (''recipient kInterface'', 1), (''recipient kEndpoint'', 2),
     (''recipient kOther'', 3), (''type kStandard'', 0), (''type kClass'', 1), (''type kVendor'', 2),
     (''direction kOut'', 0), (''direction kIn'', 1)]"

definition request_codes :: "(string \<times> u8) list" where
  "request_codes =
    [(''kGetStatus'', 0), (''kClearFeature'', 1), (''kSetFeature'', 3), (''kSetAddress'', 5),
     (''kGetDescriptor'', 6), (''kSetDescriptor'', 7), (''kGetConfiguration'', 8),
     (''kSetConfiguration'', 9), (''kGetInterface'', 10), (''kSetInterface'', 11),
     (''kSynchFrame'', 12), (''kSetEncryption'', 13), (''kGetEncryption'', 14),
     (''kSetHandshake'', 15), (''kGetHandshake'', 16), (''kSetConnection'', 17),
     (''kSetSecurityData'', 18), (''kGetSecurityData'', 19), (''kSetWUSBData'', 20),
     (''kLoopbackDataWrite'', 21), (''kLoopbackDataRead'', 22), (''kSetInterfaceDS'', 23),
     (''kSetSel'', 48), (''kSetIsochDelay'', 49), (''kGetReport'', 1), (''kSetProtocol'', 11)]"

definition descriptor_type_codes :: "(string \<times> u8) list" where
  "descriptor_type_codes =
    [(''kDevice'', 1), (''kConfiguration'', 2), (''kString'', 3), (''kInterface'', 4),
     (''kEndpoint'', 5), (''kInterfacePower'', 8), (''kOTG'', 9), (''kDebug'', 10),
     (''kInterfaceAssociation'', 11), (''kBOS'', 15), (''kDeviceCapability'', 16), (''kHID'', 33),
     (''kSuperspeedUSBEndpointCompanion'', 48),
     (''kSuperspeedPlusIsochronousEndpointCompanion'', 49)]"

definition code_of :: "(string \<times> u8) list \<Rightarrow> string \<Rightarrow> u8" where
  "code_of t name = (case map_of t name of Some c \<Rightarrow> c | None \<Rightarrow> 0)"

definition request_type_layout :: layout where
  "request_type_layout = [(''recipient'', 5), (''type'', 2), (''direction'', 1)]"

record setup_data =
  sd_request_type :: u8
  sd_request :: u8
  sd_value :: u16
  sd_index :: u16
  sd_length :: u16

text \<open>\<open>operator ==\<close>, which the map of waiting class drivers compares with.\<close>

definition setup_data_eq :: "setup_data \<Rightarrow> setup_data \<Rightarrow> bool" where
  "setup_data_eq lhs rhs \<longleftrightarrow>
    sd_request_type lhs = sd_request_type rhs \<and> sd_request lhs = sd_request rhs
    \<and> sd_value lhs = sd_value rhs \<and> sd_index lhs = sd_index rhs \<and> sd_length lhs = sd_length rhs"

lemma setup_data_eq_iff: "setup_data_eq lhs rhs \<longleftrightarrow> lhs = rhs"
  by (cases lhs; cases rhs) (simp add: setup_data_eq_def)

definition request_type_of :: "string \<Rightarrow> string \<Rightarrow> string \<Rightarrow> u8" where
  "request_type_of direction kind recipient =
    field_set request_type_layout ''recipient'' (code_of request_type_codes (''recipient '' @ recipient))
      (field_set request_type_layout ''type'' (code_of request_type_codes (''type '' @ kind))
        (field_set request_type_layout ''direction'' (code_of request_type_codes (''direction '' @ direction)) 0))"

section \<open>Descriptors\<close>

text \<open>The fields of a descriptor in order, with their widths in bytes.\<close>

definition device_descriptor :: layout where
  "device_descriptor =
    [(''length'', 1), (''descriptor_type'', 1), (''usb_release'', 2), (''device_class'', 1),
     (''device_sub_class'', 1), (''device_protocol'', 1), (''max_packet_size'', 1), (''vendor_id'', 2),
     (''product_id'', 2), (''device_release'', 2), (''manufacturer'', 1), (''product'', 1),
     (''serial_number'', 1), (''num_configurations'', 1)]"

definition configuration_descriptor :: layout where
  "configuration_descriptor =
    [(''length'', 1), (''descriptor_type'', 1), (''total_length'', 2), (''num_interfaces'', 1),
     (''configuration_value'', 1), (''configuration_id'', 1), (''attributes'', 1), (''max_power'', 1)]"

definition interface_descriptor :: layout where
  "interface_descriptor =
    [(''length'', 1), (''descriptor_type'', 1), (''interface_number'', 1), (''alternate_setting'', 1),
     (''num_endpoints'', 1), (''interface_class'', 1), (''interface_sub_class'', 1),
     (''interface_protocol'', 1), (''interface_id'', 1)]"

definition endpoint_descriptor :: layout where
  "endpoint_descriptor =
    [(''length'', 1), (''descriptor_type'', 1), (''endpoint_address'', 1), (''attributes'', 1),
     (''max_packet_size'', 2), (''interval'', 1)]"

definition endpoint_address_layout :: layout where
  "endpoint_address_layout = [(''number'', 4), ('''', 3), (''dir_in'', 1)]"

definition endpoint_attributes_layout :: layout where
  "endpoint_attributes_layout = [(''transfer_type'', 2), (''sync_type'', 2), (''usage_type'', 2), ('''', 2)]"

definition hid_descriptor :: layout where
  "hid_descriptor =
    [(''length'', 1), (''descriptor_type'', 1), (''hid_release'', 2), (''country_code'', 1),
     (''num_descriptors'', 1)]"

definition hid_class_descriptor :: layout where
  "hid_class_descriptor = [(''descriptor_type'', 1), (''descriptor_length'', 2)]"

text \<open>\<open>kType\<close> of the descriptor structures.\<close>

datatype descriptor_kind =
  DeviceDesc | ConfigurationDesc | InterfaceDesc | EndpointDesc | HidDesc

fun descriptor_type_code :: "descriptor_kind \<Rightarrow> u8" where
  "descriptor_type_code DeviceDesc = 1"
| "descriptor_type_code ConfigurationDesc = 2"
| "descriptor_type_code InterfaceDesc = 4"
| "descriptor_type_code EndpointDesc = 5"
| "descriptor_type_code HidDesc = 33"

fun little_endian :: "u8 list \<Rightarrow> nat" where
  "little_endian [] = 0"
| "little_endian (b # bs) = unat b + 256 * little_endian bs"

definition desc_field :: "layout \<Rightarrow> string \<Rightarrow> u8 list \<Rightarrow> nat \<Rightarrow> nat option" where
  "desc_field l f buf p =
    (case field_pos l f of
       None \<Rightarrow> None
     | Some (off, n) \<Rightarrow>
         (if p + off + n \<le> length buf then Some (little_endian (take n (drop (p + off) buf))) else None))"

text \<open>\<open>DescriptorDynamicCast\<close>: whether the descriptor at \<open>p\<close> has the type; \<open>None\<close> outside the buffer.\<close>

definition descriptor_dynamic_cast :: "descriptor_kind \<Rightarrow> u8 list \<Rightarrow> nat \<Rightarrow> bool option" where
  "descriptor_dynamic_cast k buf p = map_option (\<lambda>b. b = descriptor_type_code k) (arr_get buf (p + 1))"

text \<open>\<open>GetClassDescriptor\<close>: the offset of an entry behind a HID descriptor, \<open>None\<close> for the null pointer.\<close>

definition get_class_descriptor :: "nat \<Rightarrow> nat \<Rightarrow> nat \<Rightarrow> nat option" where
  "get_class_descriptor num_descriptors p index =
    (if num_descriptors \<le> index then None
     else Some (p + layout_width hid_descriptor + layout_width hid_class_descriptor * index))"

lemma little_endian_less: "little_endian bs < 256 ^ length bs"
proof (induction bs)
  case (Cons b bs)
  have "unat b < 256" using unsigned_less [of b] by simp
  moreover have "256 * little_endian bs + 256 \<le> 256 * 256 ^ length bs" using Cons.IH by simp
  ultimately show ?case by simp
qed simp

lemma desc_field_byte:
  "field_pos l f = Some (off, 1) \<Longrightarrow> p + off < length buf \<Longrightarrow> desc_field l f buf p = Some (unat (buf ! (p + off)))"
proof -
  assume a: "field_pos l f = Some (off, 1)" "p + off < length buf"
  have "drop (p + off) buf = buf ! (p + off) # drop (p + off + 1) buf"
    using a(2) by (simp add: Cons_nth_drop_Suc)
  then show ?thesis using a by (simp add: desc_field_def)
qed

lemma desc_field_word:
  "field_pos l f = Some (off, 2) \<Longrightarrow> p + off + 1 < length buf \<Longrightarrow>
    desc_field l f buf p = Some (unat (buf ! (p + off)) + 256 * unat (buf ! (p + off + 1)))"
proof -
  assume a: "field_pos l f = Some (off, 2)" "p + off + 1 < length buf"
  have "drop (p + off) buf = buf ! (p + off) # buf ! (p + off + 1) # drop (p + off + 2) buf"
    using a(2) by (simp add: Cons_nth_drop_Suc)
  then show ?thesis using a by (simp add: desc_field_def numeral_2_eq_2)
qed

end
