(* ===== verification/Usb_Device.thy ===== *)
theory Usb_Device
  imports Usb_Setup Xhci_Ring Array_Map
begin

text \<open>
  A USB device behind an xHCI slot and its transfers: \<open>Kernel/usb/xhci/context.hpp\<close>,
  \<open>Kernel/usb/xhci/device.hpp\<close>, the transfer half of \<open>device.cpp\<close>, and the state of
  \<open>Kernel/usb/device.hpp\<close> and \<open>Kernel/usb/classdriver/*.hpp\<close>.

  \<open>usb::xhci::Device\<close> derives from \<open>usb::Device\<close>; one record holds the fields of both.  The class
  drivers of a device live in the list \<open>ud_drivers\<close>, a pointer to one is its index.  Pointers to
  buffers and request blocks are addresses, as the host controller sees them, and \<open>0\<close> is null.
\<close>

section \<open>Contexts\<close>

type_synonym xhci_context = "256 word"

definition slot_context_layout :: layout where
  "slot_context_layout =
   [(''route_string'', 20), (''speed'', 4), ('''', 1), (''mtt'', 1), (''hub'', 1),
    (''context_entries'', 5), (''max_exit_latency'', 16), (''root_hub_port_num'', 8),
    (''num_ports'', 8), (''tt_hub_slot_id'', 8), (''tt_port_num'', 8), (''ttt'', 2), ('''', 4),
    (''interrupter_target'', 10), (''usb_device_address'', 8), ('''', 19), (''slot_state'', 5)]"

definition endpoint_context_layout :: layout where
  "endpoint_context_layout =
   [(''ep_state'', 3), ('''', 5), (''mult'', 2), (''max_primary_streams'', 5),
    (''linear_stream_array'', 1), (''interval'', 8), (''max_esit_payload_hi'', 8), ('''', 1),
    (''error_count'', 2), (''ep_type'', 3), ('''', 1), (''host_initiate_disable'', 1),
    (''max_burst_size'', 8), (''max_packet_size'', 16), (''dequeue_cycle_state'', 1),
    ('''', 3), (''tr_dequeue_pointer'', 60), (''average_trb_length'', 16),
    (''max_esit_payload_lo'', 16)]"

definition ec_transfer_ring_buffer :: "xhci_context \<Rightarrow> u64" where
  "ec_transfer_ring_buffer c = push_bit 4 (ucast (field_get endpoint_context_layout ''tr_dequeue_pointer'' c))"

definition ec_set_transfer_ring_buffer :: "u64 \<Rightarrow> xhci_context \<Rightarrow> xhci_context" where
  "ec_set_transfer_ring_buffer buffer =
    field_set endpoint_context_layout ''tr_dequeue_pointer'' (ucast (drop_bit 4 buffer))"

text \<open>\<open>DeviceContextIndex\<close>, from an endpoint id and from a number with a direction.\<close>

definition dci_of_endpoint :: "nat \<Rightarrow> nat" where
  "dci_of_endpoint ep_id = ep_id"

definition dci_of_number :: "nat \<Rightarrow> bool \<Rightarrow> nat" where
  "dci_of_number ep_num dir_in = 2 * ep_num + (if ep_num = 0 then 1 else if dir_in then 1 else 0)"

record device_context =
  dc_slot_context :: xhci_context
  dc_ep_contexts :: "xhci_context list"

record input_control_context =
  icc_drop_context_flags :: u32
  icc_add_context_flags :: u32
  icc_configuration_value :: u8
  icc_interface_number :: u8
  icc_alternate_setting :: u8

record input_context =
  ic_control :: input_control_context
  ic_slot_context :: xhci_context
  ic_ep_contexts :: "xhci_context list"

definition icc_zero :: input_control_context where
  "icc_zero = \<lparr>icc_drop_context_flags = 0, icc_add_context_flags = 0, icc_configuration_value = 0,
     icc_interface_number = 0, icc_alternate_setting = 0\<rparr>"

definition ic_add_flag :: "nat \<Rightarrow> input_context \<Rightarrow> input_context" where
  "ic_add_flag n c = c\<lparr>ic_control := (ic_control c)\<lparr>icc_add_context_flags :=
     icc_add_context_flags (ic_control c) OR push_bit n 1\<rparr>\<rparr>"

definition enable_slot_context :: "input_context \<Rightarrow> input_context" where
  "enable_slot_context c = ic_add_flag 0 c"

text \<open>\<open>EnableEndpoint\<close>, and the index of the context it returns; outside 1..31 there is none.\<close>

definition enable_endpoint :: "nat \<Rightarrow> input_context \<Rightarrow> (nat \<times> input_context) option" where
  "enable_endpoint dci c = (if dci = 0 \<or> 31 < dci then None else Some (dci - 1, ic_add_flag dci c))"

section \<open>The state of a device\<close>

datatype driver_kind = HidKeyboard | HidMouse

record class_driver =
  cd_kind :: driver_kind
  cd_addr :: u64
  cd_ep_interrupt_in :: nat
  cd_ep_interrupt_out :: nat
  cd_interface_index :: nat
  cd_in_packet_size :: nat
  cd_initialize_phase :: nat
  cd_buf :: "u8 list"
  cd_previous_buf :: "u8 list"
  cd_observers :: "nat list"

datatype slot_state = SInvalid | SBlank | SSlotAssigning | SSlotAssigned

record usb_device =
  ud_class_drivers :: "nat option list"
  ud_drivers :: "class_driver list"
  ud_buf :: "u8 list"
  ud_num_configurations :: nat
  ud_config_index :: nat
  ud_is_initialized :: bool
  ud_initialize_phase :: nat
  ud_ep_configs :: "endpoint_config list"
  ud_num_ep_configs :: nat
  ud_event_waiters :: "(setup_data, nat) array_map"
  xd_addr :: u64
  xd_ctx :: device_context
  xd_input_ctx :: input_context
  xd_slot_id :: u8
  xd_state :: slot_state
  xd_transfer_rings :: "ring option list"
  xd_setup_stage_map :: "(u64, u64) array_map"
  xd_doorbell :: "u32 list"

text \<open>
  What the USB code shares: the memory pool, the observers of the input devices with the notices they
  were given, and the sizes and offsets of the objects, which the compiler chooses.
\<close>

datatype notice =
    KeyPressed nat u8 u8
  | MouseMoved nat u8 "8 word" "8 word"

record usb_abi =
  abi_device_size :: u64
  abi_device_buf :: u64
  abi_device_ctx :: u64
  abi_device_input_ctx :: u64
  abi_ring_size :: u64
  abi_keyboard_size :: u64
  abi_mouse_size :: u64
  abi_hid_buf :: u64

record usb_env =
  ue_pool :: u64
  ue_alloc_ptr :: u64
  ue_key_observer :: "nat option"
  ue_mouse_observer :: "nat option"
  ue_notices :: "notice list"
  ue_abi :: usb_abi

text \<open>\<open>Device::Device\<close> at an address, with the default member initializers.\<close>

definition xhci_device_new :: "u64 \<Rightarrow> u8 \<Rightarrow> usb_device" where
  "xhci_device_new addr slot_id =
    \<lparr>ud_class_drivers = replicate 16 None, ud_drivers = [], ud_buf = replicate 256 0,
     ud_num_configurations = 0, ud_config_index = 0, ud_is_initialized = False,
     ud_initialize_phase = 0,
     ud_ep_configs = replicate 16
       \<lparr>ec_ep_id = 0, ec_ep_type = EpControl, ec_max_packet_size = 0, ec_interval = 0\<rparr>,
     ud_num_ep_configs = 0,
     ud_event_waiters = am_new 0 4,
     xd_addr = addr,
     xd_ctx = \<lparr>dc_slot_context = 0, dc_ep_contexts = replicate 31 0\<rparr>,
     xd_input_ctx = \<lparr>ic_control = icc_zero, ic_slot_context = 0, ic_ep_contexts = replicate 31 0\<rparr>,
     xd_slot_id = slot_id, xd_state = SInvalid, xd_transfer_rings = replicate 31 None,
     xd_setup_stage_map = am_new 0 16, xd_doorbell = []\<rparr>"

definition xhci_device_initialize :: "usb_device \<Rightarrow> error_code \<times> usb_device" where
  "xhci_device_initialize d = (KSuccess, d\<lparr>xd_state := SBlank\<rparr>)"

definition select_for_slot_assignment :: "usb_device \<Rightarrow> usb_device" where
  "select_for_slot_assignment d = d\<lparr>xd_state := SSlotAssigning\<rparr>"

section \<open>Transfer rings\<close>

text \<open>A read through a pointer into a ring's buffer.\<close>

definition ring_trb :: "u64 \<Rightarrow> ring \<Rightarrow> trb option" where
  "ring_trb a r = (if 16 dvd unat (a - rg_base r) then arr_get (rg_buf r) (unat (a - rg_base r) div 16) else None)"

definition cast_pointer :: "trb_kind \<Rightarrow> u64 \<Rightarrow> ring \<Rightarrow> u64 option" where
  "cast_pointer k a r = map_option (\<lambda>t. if trb_dynamic_cast k t = None then 0 else a) (ring_trb a r)"

text \<open>
  \<open>transfer_rings_[dci.value - 1]\<close>, read and written; index 0 stands for the slot itself and there is
  no ring below it.
\<close>

definition ring_of_dci :: "nat \<Rightarrow> usb_device \<Rightarrow> ring option option" where
  "ring_of_dci dci d = (if dci = 0 then None else arr_get (xd_transfer_rings d) (dci - 1))"

definition put_ring :: "nat \<Rightarrow> ring option \<Rightarrow> usb_device \<Rightarrow> usb_device option" where
  "put_ring dci r d =
    (if dci = 0 then None
     else map_option (\<lambda>rs. d\<lparr>xd_transfer_rings := rs\<rparr>) (arr_set (xd_transfer_rings d) (dci - 1) r))"

definition alloc_transfer_ring :: "nat \<Rightarrow> nat \<Rightarrow> usb_device \<Rightarrow> usb_env \<Rightarrow> (ring option \<times> usb_device \<times> usb_env) option" where
  "alloc_transfer_ring dci buf_size d e =
    (case alloc_array (ue_pool e) (abi_ring_size (ue_abi e)) 1 64 4096 (ue_alloc_ptr e) of
       (None, p) \<Rightarrow> map_option (\<lambda>d'. (None, d', e\<lparr>ue_alloc_ptr := p\<rparr>)) (put_ring dci None d)
     | (Some _, p) \<Rightarrow>
         (let (_, r, p') = ring_initialize (ue_pool e) buf_size p in
          map_option (\<lambda>d'. (Some r, d', e\<lparr>ue_alloc_ptr := p'\<rparr>)) (put_ring dci (Some r) d)))"

definition ring_doorbell :: "nat \<Rightarrow> usb_device \<Rightarrow> usb_device" where
  "ring_doorbell target d = d\<lparr>xd_doorbell := xd_doorbell d @ [doorbell_ring (of_nat target) 0]\<rparr>"

section \<open>Control transfers\<close>

definition make_setup_stage_trb :: "setup_data \<Rightarrow> trb \<Rightarrow> trb" where
  "make_setup_stage_trb sd transfer_type =
    fields_set setup_stage_trb_layout
      [(''request_type'', ucast (sd_request_type sd)), (''request'', ucast (sd_request sd)),
       (''value'', ucast (sd_value sd)), (''index'', ucast (sd_index sd)),
       (''length'', ucast (sd_length sd)), (''transfer_type'', transfer_type)] setup_stage_trb_new"

definition make_data_stage_trb :: "u64 \<Rightarrow> int \<Rightarrow> bool \<Rightarrow> trb" where
  "make_data_stage_trb buf len dir_in =
    fields_set data_stage_trb_layout
      [(''trb_transfer_length'', of_int len), (''td_size'', 0), (''direction'', of_bool dir_in)]
      (data_stage_trb_set_pointer buf data_stage_trb_new)"

text \<open>The base class's \<open>ControlIn\<close> and \<open>ControlOut\<close>, which are the same, and its interrupt transfers.\<close>

definition base_control :: "setup_data \<Rightarrow> nat option \<Rightarrow> usb_device \<Rightarrow> error_code \<times> usb_device" where
  "base_control sd issuer d =
    (KSuccess,
     case issuer of None \<Rightarrow> d | Some w \<Rightarrow> d\<lparr>ud_event_waiters := am_put sd w (ud_event_waiters d)\<rparr>)"

definition base_interrupt :: "usb_device \<Rightarrow> error_code \<times> usb_device" where
  "base_interrupt d = (KSuccess, d)"

definition put_setup_stage :: "u64 \<Rightarrow> u64 \<Rightarrow> usb_device \<Rightarrow> usb_device" where
  "put_setup_stage position setup d = d\<lparr>xd_setup_stage_map := am_put position setup (xd_setup_stage_map d)\<rparr>"

text \<open>The stages of a transfer with a data stage, and of one without.\<close>

definition push_with_data :: "nat \<Rightarrow> trb \<Rightarrow> trb \<Rightarrow> trb \<Rightarrow> ring \<Rightarrow> usb_device \<Rightarrow> usb_device option" where
  "push_with_data dci setup data_stage status tr d = do {
     (a, tr1) \<leftarrow> ring_push setup tr;
     setup_trb_position \<leftarrow> cast_pointer SetupStageTrb a tr1;
     (data_trb_position, tr2) \<leftarrow>
       ring_push (field_set data_stage_trb_layout ''interrupt_on_completion'' 1 data_stage) tr1;
     (_, tr3) \<leftarrow> ring_push status tr2;
     d' \<leftarrow> put_ring dci (Some tr3) d;
     Some (put_setup_stage data_trb_position setup_trb_position d')
   }"

definition push_without_data :: "nat \<Rightarrow> trb \<Rightarrow> trb \<Rightarrow> ring \<Rightarrow> usb_device \<Rightarrow> usb_device option" where
  "push_without_data dci setup status tr d = do {
     (a, tr1) \<leftarrow> ring_push setup tr;
     setup_trb_position \<leftarrow> cast_pointer SetupStageTrb a tr1;
     (status_trb_position, tr2) \<leftarrow>
       ring_push (field_set status_stage_trb_layout ''interrupt_on_completion'' 1 status) tr1;
     d' \<leftarrow> put_ring dci (Some tr2) d;
     Some (put_setup_stage status_trb_position setup_trb_position d')
   }"

definition control_in ::
  "nat \<Rightarrow> setup_data \<Rightarrow> u64 \<Rightarrow> int \<Rightarrow> nat option \<Rightarrow> usb_device \<Rightarrow> (error_code \<times> usb_device) option" where
  "control_in ep_id sd buf len issuer d0 =
    (let (err, d) = base_control sd issuer d0; dci = dci_of_endpoint ep_id in
     if is_error err then Some (err, d)
     else if 15 < ep_number ep_id then Some (KInvalidEndpointNumber, d)
     else do {
       tr \<leftarrow> ring_of_dci dci d;
       (case tr of
          None \<Rightarrow> Some (KTransferRingNotSet, d)
        | Some r \<Rightarrow> do {
            d' \<leftarrow> (if buf \<noteq> 0
                  then push_with_data dci (make_setup_stage_trb sd kInDataStage)
                         (make_data_stage_trb buf len True) status_stage_trb_new r d
                  else push_without_data dci (make_setup_stage_trb sd kNoDataStage)
                         (field_set status_stage_trb_layout ''direction'' 1 status_stage_trb_new) r d);
            Some (KSuccess, ring_doorbell dci d')
          })
     })"

definition control_out ::
  "nat \<Rightarrow> setup_data \<Rightarrow> u64 \<Rightarrow> int \<Rightarrow> nat option \<Rightarrow> usb_device \<Rightarrow> (error_code \<times> usb_device) option" where
  "control_out ep_id sd buf len issuer d0 =
    (let (err, d) = base_control sd issuer d0; dci = dci_of_endpoint ep_id;
         status = field_set status_stage_trb_layout ''direction'' 1 status_stage_trb_new in
     if is_error err then Some (err, d)
     else if 15 < ep_number ep_id then Some (KInvalidEndpointNumber, d)
     else do {
       tr \<leftarrow> ring_of_dci dci d;
       (case tr of
          None \<Rightarrow> Some (KTransferRingNotSet, d)
        | Some r \<Rightarrow> do {
            d' \<leftarrow> (if buf \<noteq> 0
                  then push_with_data dci (make_setup_stage_trb sd kOutDataStage)
                         (make_data_stage_trb buf len False) status r d
                  else push_without_data dci (make_setup_stage_trb sd kNoDataStage) status r d);
            Some (KSuccess, ring_doorbell dci d')
          })
     })"

section \<open>Interrupt transfers\<close>

definition interrupt_in :: "nat \<Rightarrow> u64 \<Rightarrow> int \<Rightarrow> usb_device \<Rightarrow> (error_code \<times> usb_device) option" where
  "interrupt_in ep_id buf len d0 =
    (let (err, d) = base_interrupt d0; dci = dci_of_endpoint ep_id in
     if is_error err then Some (err, d)
     else do {
       tr \<leftarrow> ring_of_dci dci d;
       (case tr of
          None \<Rightarrow> Some (KTransferRingNotSet, d)
        | Some r \<Rightarrow> do {
            (_, r') \<leftarrow> ring_push
              (fields_set normal_trb_layout
                 [(''trb_transfer_length'', of_int len), (''interrupt_on_short_packet'', 1),
                  (''interrupt_on_completion'', 1)] (normal_trb_set_pointer buf normal_trb_new)) r;
            d' \<leftarrow> put_ring dci (Some r') d;
            Some (KSuccess, ring_doorbell dci d')
          })
     })"

definition interrupt_out :: "nat \<Rightarrow> u64 \<Rightarrow> int \<Rightarrow> usb_device \<Rightarrow> error_code \<times> usb_device" where
  "interrupt_out ep_id buf len d0 =
    (let (err, d) = base_interrupt d0 in if is_error err then (err, d) else (KNotImplemented, d))"

text \<open>Requests every device understands: \<open>GetDescriptor\<close> and \<open>SetConfiguration\<close>.\<close>

definition get_descriptor :: "nat \<Rightarrow> u8 \<Rightarrow> u8 \<Rightarrow> u64 \<Rightarrow> int \<Rightarrow> usb_device \<Rightarrow> (error_code \<times> usb_device) option" where
  "get_descriptor ep_id desc_type desc_index buf len d =
    control_in ep_id
      \<lparr>sd_request_type = request_type_of ''kIn'' ''kStandard'' ''kDevice'',
       sd_request = code_of request_codes ''kGetDescriptor'',
       sd_value = push_bit 8 (ucast desc_type) OR ucast desc_index, sd_index = 0, sd_length = of_int len\<rparr>
      buf len None d"

definition set_configuration :: "nat \<Rightarrow> u8 \<Rightarrow> usb_device \<Rightarrow> (error_code \<times> usb_device) option" where
  "set_configuration ep_id config_value d =
    control_out ep_id
      \<lparr>sd_request_type = request_type_of ''kOut'' ''kStandard'' ''kDevice'',
       sd_request = code_of request_codes ''kSetConfiguration'',
       sd_value = ucast config_value, sd_index = 0, sd_length = 0\<rparr>
      0 0 None d"

end
