(* ===== verification/Usb_Driver.thy ===== *)
theory Usb_Driver
  imports Usb_Device
begin

text \<open>
  The class drivers and the initialization of a device: \<open>Kernel/usb/classdriver/hid.cpp\<close>,
  \<open>keyboard.cpp\<close> and \<open>mouse.cpp\<close>, \<open>Kernel/usb/device.cpp\<close>, and the completion of transfers in
  \<open>Kernel/usb/xhci/device.cpp\<close>.

  The loops over descriptors have no result both when they read outside the buffer and when they
  never return: a descriptor of length 0 keeps the reader where it is.
\<close>

section \<open>HID drivers\<close>

definition put_driver :: "nat \<Rightarrow> class_driver \<Rightarrow> usb_device \<Rightarrow> usb_device" where
  "put_driver w c d = d\<lparr>ud_drivers := (ud_drivers d)[w := c]\<rparr>"

definition hid_base_driver_new :: "driver_kind \<Rightarrow> u64 \<Rightarrow> nat \<Rightarrow> nat \<Rightarrow> class_driver" where
  "hid_base_driver_new k addr interface_index in_packet_size =
    \<lparr>cd_kind = k, cd_addr = addr, cd_ep_interrupt_in = 0, cd_ep_interrupt_out = 0,
     cd_interface_index = interface_index, cd_in_packet_size = in_packet_size, cd_initialize_phase = 0,
     cd_buf = replicate 1024 0, cd_previous_buf = replicate 1024 0, cd_observers = []\<rparr>"

definition hid_keyboard_driver_new :: "u64 \<Rightarrow> nat \<Rightarrow> class_driver" where
  "hid_keyboard_driver_new addr interface_index = hid_base_driver_new HidKeyboard addr interface_index 8"

definition hid_mouse_driver_new :: "u64 \<Rightarrow> nat \<Rightarrow> class_driver" where
  "hid_mouse_driver_new addr interface_index = hid_base_driver_new HidMouse addr interface_index 3"

text \<open>\<open>observers_\<close> has four places.\<close>

definition subscribe_key_push :: "nat \<Rightarrow> class_driver \<Rightarrow> class_driver option" where
  "subscribe_key_push observer c =
    (if length (cd_observers c) < 4 then Some (c\<lparr>cd_observers := cd_observers c @ [observer]\<rparr>) else None)"

definition subscribe_mouse_move :: "nat \<Rightarrow> class_driver \<Rightarrow> class_driver option" where
  "subscribe_mouse_move observer c =
    (if length (cd_observers c) < 4 then Some (c\<lparr>cd_observers := cd_observers c @ [observer]\<rparr>) else None)"

definition notify_key_push :: "u8 \<Rightarrow> u8 \<Rightarrow> class_driver \<Rightarrow> notice list" where
  "notify_key_push modifier keycode c = map (\<lambda>ob. KeyPressed ob modifier keycode) (cd_observers c)"

definition notify_mouse_move :: "u8 \<Rightarrow> u8 \<Rightarrow> u8 \<Rightarrow> class_driver \<Rightarrow> notice list" where
  "notify_mouse_move buttons dx dy c = map (\<lambda>ob. MouseMoved ob buttons dx dy) (cd_observers c)"

text \<open>\<open>OnDataReceived\<close> of the keyboard: keys of the report that the last one did not hold.\<close>

fun key_loop :: "nat list \<Rightarrow> class_driver \<Rightarrow> notice list option" where
  "key_loop [] c = Some []"
| "key_loop (i # is) c = do {
     key \<leftarrow> arr_get (cd_buf c) i;
     modifier \<leftarrow> arr_get (cd_buf c) 0;
     rest \<leftarrow> key_loop is c;
     Some ((if key = 0 then []
            else if key \<in> set (drop 2 (cd_previous_buf c)) then []
            else notify_key_push modifier key c) @ rest)
   }"

definition keyboard_on_data_received :: "class_driver \<Rightarrow> notice list option" where
  "keyboard_on_data_received c = key_loop [2..<8] c"

definition mouse_on_data_received :: "class_driver \<Rightarrow> notice list option" where
  "mouse_on_data_received c = do {
     buttons \<leftarrow> arr_get (cd_buf c) 0;
     displacement_x \<leftarrow> arr_get (cd_buf c) 1;
     displacement_y \<leftarrow> arr_get (cd_buf c) 2;
     Some (notify_mouse_move buttons displacement_x displacement_y c)
   }"

definition on_data_received :: "class_driver \<Rightarrow> notice list option" where
  "on_data_received c =
    (case cd_kind c of HidKeyboard \<Rightarrow> keyboard_on_data_received c | HidMouse \<Rightarrow> mouse_on_data_received c)"

definition hid_initialize :: error_code where
  "hid_initialize = KNotImplemented"

definition hid_set_endpoint :: "endpoint_config \<Rightarrow> class_driver \<Rightarrow> class_driver" where
  "hid_set_endpoint config c =
    (if ec_ep_type config = EpInterrupt \<and> ep_is_in (ec_ep_id config)
     then c\<lparr>cd_ep_interrupt_in := ec_ep_id config\<rparr>
     else if ec_ep_type config = EpInterrupt \<and> \<not> ep_is_in (ec_ep_id config)
     then c\<lparr>cd_ep_interrupt_out := ec_ep_id config\<rparr>
     else c)"

definition set_protocol_request :: "nat \<Rightarrow> setup_data" where
  "set_protocol_request interface_index =
    \<lparr>sd_request_type = request_type_of ''kOut'' ''kClass'' ''kInterface'',
     sd_request = code_of request_codes ''kSetProtocol'', sd_value = 0,
     sd_index = of_nat interface_index, sd_length = 0\<rparr>"

definition hid_on_endpoints_configured :: "nat \<Rightarrow> usb_device \<Rightarrow> (error_code \<times> usb_device) option" where
  "hid_on_endpoints_configured w d = do {
     c \<leftarrow> arr_get (ud_drivers d) w;
     control_out kDefaultControlPipeID (set_protocol_request (cd_interface_index c)) 0 0 (Some w)
       (put_driver w (c\<lparr>cd_initialize_phase := 1\<rparr>) d)
   }"

definition hid_buf_addr :: "class_driver \<Rightarrow> usb_env \<Rightarrow> u64" where
  "hid_buf_addr c e = cd_addr c + abi_hid_buf (ue_abi e)"

definition hid_on_control_completed :: "nat \<Rightarrow> usb_device \<Rightarrow> usb_env \<Rightarrow> (error_code \<times> usb_device) option" where
  "hid_on_control_completed w d e = do {
     c \<leftarrow> arr_get (ud_drivers d) w;
     if cd_initialize_phase c = 1
     then interrupt_in (cd_ep_interrupt_in c) (hid_buf_addr c e) (int (cd_in_packet_size c))
            (put_driver w (c\<lparr>cd_initialize_phase := 2\<rparr>) d)
     else Some (KNotImplemented, d)
   }"

text \<open>\<open>std::copy_n\<close> between the two buffers of a driver; a count that is not positive copies nothing.\<close>

definition copy_n :: "u8 list \<Rightarrow> int \<Rightarrow> u8 list \<Rightarrow> u8 list option" where
  "copy_n src n dst =
    (if n \<le> 0 then Some dst
     else if nat n \<le> length src \<and> nat n \<le> length dst then Some (take (nat n) src @ drop (nat n) dst)
     else None)"

definition hid_on_interrupt_completed ::
  "nat \<Rightarrow> nat \<Rightarrow> int \<Rightarrow> usb_device \<Rightarrow> usb_env \<Rightarrow> (error_code \<times> usb_device \<times> usb_env) option" where
  "hid_on_interrupt_completed w ep_id len d e =
    (if ep_is_in ep_id
     then do {
       c \<leftarrow> arr_get (ud_drivers d) w;
       ns \<leftarrow> on_data_received c;
       prev \<leftarrow> copy_n (cd_buf c) len (cd_previous_buf c);
       (err, d') \<leftarrow> interrupt_in (cd_ep_interrupt_in c) (hid_buf_addr c e) (int (cd_in_packet_size c))
         (put_driver w (c\<lparr>cd_previous_buf := prev\<rparr>) d);
       Some (err, d', e\<lparr>ue_notices := ue_notices e @ ns\<rparr>)
     }
     else Some (KNotImplemented, d, e))"

section \<open>Reading a configuration\<close>

text \<open>\<open>ConfigurationDescriptorReader::Next\<close> from position \<open>p\<close>: the next descriptor and the position.\<close>

definition next_desc :: "u8 list \<Rightarrow> int \<Rightarrow> nat \<Rightarrow> (nat option \<times> nat) option" where
  "next_desc buf len p = do {
     n \<leftarrow> arr_get buf p;
     (let p' = p + unat n in Some (if int p' < len then Some p' else None, p'))
   }"

partial_function (option) next_of ::
  "descriptor_kind \<Rightarrow> u8 list \<Rightarrow> int \<Rightarrow> nat \<Rightarrow> (nat option \<times> nat) option" where
  "next_of k buf len p =
    Option.bind (next_desc buf len p) (\<lambda>(n, p').
      case n of
        None \<Rightarrow> Some (None, p')
      | Some q \<Rightarrow> Option.bind (descriptor_dynamic_cast k buf q) (\<lambda>c.
          if c then Some (Some q, p') else next_of k buf len p'))"

definition endpoint_type_of_code :: "nat \<Rightarrow> endpoint_type" where
  "endpoint_type_of_code c = [EpControl, EpIsochronous, EpBulk, EpInterrupt] ! c"

definition make_ep_config :: "u8 list \<Rightarrow> nat \<Rightarrow> endpoint_config option" where
  "make_ep_config buf p = do {
     address \<leftarrow> desc_field endpoint_descriptor ''endpoint_address'' buf p;
     attributes \<leftarrow> desc_field endpoint_descriptor ''attributes'' buf p;
     mps \<leftarrow> desc_field endpoint_descriptor ''max_packet_size'' buf p;
     interval \<leftarrow> desc_field endpoint_descriptor ''interval'' buf p;
     (let a = of_nat address :: u8; t = of_nat attributes :: u8 in
      Some \<lparr>ec_ep_id = endpoint_id (unat (field_get endpoint_address_layout ''number'' a))
                         (field_get endpoint_address_layout ''dir_in'' a = 1),
            ec_ep_type = endpoint_type_of_code (unat (field_get endpoint_attributes_layout ''transfer_type'' t)),
            ec_max_packet_size = mps, ec_interval = interval\<rparr>)
   }"

text \<open>The place of a new driver object, and the driver with the default observer subscribed.\<close>

definition new_driver :: "driver_kind \<Rightarrow> nat \<Rightarrow> usb_env \<Rightarrow> (class_driver \<times> usb_env) option" where
  "new_driver k interface_number e =
    (case alloc_mem (ue_pool e)
       (case k of HidKeyboard \<Rightarrow> abi_keyboard_size (ue_abi e) | HidMouse \<Rightarrow> abi_mouse_size (ue_abi e))
       0 0 (ue_alloc_ptr e) of
       (None, p) \<Rightarrow> None
     | (Some a, p) \<Rightarrow>
         map_option (\<lambda>c. (c, e\<lparr>ue_alloc_ptr := p\<rparr>))
           (case k of
              HidKeyboard \<Rightarrow>
                (let c = hid_keyboard_driver_new a interface_number in
                 case ue_key_observer e of None \<Rightarrow> Some c | Some ob \<Rightarrow> subscribe_key_push ob c)
            | HidMouse \<Rightarrow>
                (let c = hid_mouse_driver_new a interface_number in
                 case ue_mouse_observer e of None \<Rightarrow> Some c | Some ob \<Rightarrow> subscribe_mouse_move ob c)))"

definition new_class_driver ::
  "u8 list \<Rightarrow> nat \<Rightarrow> usb_device \<Rightarrow> usb_env \<Rightarrow> (nat option \<times> usb_device \<times> usb_env) option" where
  "new_class_driver buf p d e = do {
     cls \<leftarrow> desc_field interface_descriptor ''interface_class'' buf p;
     sub \<leftarrow> desc_field interface_descriptor ''interface_sub_class'' buf p;
     protocol \<leftarrow> desc_field interface_descriptor ''interface_protocol'' buf p;
     number \<leftarrow> desc_field interface_descriptor ''interface_number'' buf p;
     (if cls = 3 \<and> sub = 1 \<and> (protocol = 1 \<or> protocol = 2)
      then map_option (\<lambda>(c, e'). (Some (length (ud_drivers d)), d\<lparr>ud_drivers := ud_drivers d @ [c]\<rparr>, e'))
             (new_driver (if protocol = 1 then HidKeyboard else HidMouse) number e)
      else Some (None, d, e))
   }"

text \<open>The reads of the log line for a HID descriptor.\<close>

definition hid_log :: "u8 list \<Rightarrow> nat \<Rightarrow> unit option" where
  "hid_log buf p = do {
     n \<leftarrow> desc_field hid_descriptor ''num_descriptors'' buf p;
     (if list_all (\<lambda>i. case get_class_descriptor n p i of
            None \<Rightarrow> False | Some q \<Rightarrow> q + layout_width hid_class_descriptor \<le> length buf) [0..<n]
      then Some () else None)
   }"

text \<open>The loop of \<open>InitializePhase2\<close> over the endpoints of an interface with driver \<open>w\<close>.\<close>

definition take_endpoint :: "nat \<Rightarrow> endpoint_config \<Rightarrow> usb_device \<Rightarrow> usb_device option" where
  "take_endpoint w conf d = do {
     confs \<leftarrow> arr_set (ud_ep_configs d) (ud_num_ep_configs d) conf;
     cds \<leftarrow> arr_set (ud_class_drivers d) (ep_number (ec_ep_id conf)) (Some w);
     Some (d\<lparr>ud_ep_configs := confs, ud_num_ep_configs := ud_num_ep_configs d + 1, ud_class_drivers := cds\<rparr>)
   }"

definition endpoint_desc_step :: "nat \<Rightarrow> nat \<Rightarrow> usb_device \<Rightarrow> usb_device option" where
  "endpoint_desc_step w q d = do {
     is_ep \<leftarrow> descriptor_dynamic_cast EndpointDesc (ud_buf d) q;
     (if is_ep then Option.bind (make_ep_config (ud_buf d) q) (\<lambda>conf. take_endpoint w conf d)
      else do {
        is_hid \<leftarrow> descriptor_dynamic_cast HidDesc (ud_buf d) q;
        (if is_hid then map_option (\<lambda>_. d) (hid_log (ud_buf d) q) else Some d)
      })
   }"

partial_function (option) endpoints_loop ::
  "nat \<Rightarrow> nat \<Rightarrow> int \<Rightarrow> nat \<Rightarrow> usb_device \<Rightarrow> usb_device option" where
  "endpoints_loop w num_endpoints len p d =
    (if ud_num_ep_configs d < num_endpoints
     then Option.bind (next_desc (ud_buf d) len p) (\<lambda>(n, p').
            case n of
              None \<Rightarrow> None
            | Some q \<Rightarrow> Option.bind (endpoint_desc_step w q d) (\<lambda>d'.
                endpoints_loop w num_endpoints len p' d'))
     else Some d)"

partial_function (option) interfaces_loop ::
  "int \<Rightarrow> nat \<Rightarrow> usb_device \<Rightarrow> usb_env \<Rightarrow> (nat option \<times> usb_device \<times> usb_env) option" where
  "interfaces_loop len p d e =
    Option.bind (next_of InterfaceDesc (ud_buf d) len p) (\<lambda>(n, p').
      case n of
        None \<Rightarrow> Some (None, d, e)
      | Some q \<Rightarrow> Option.bind (new_class_driver (ud_buf d) q d e) (\<lambda>(cd, d', e').
          case cd of
            None \<Rightarrow> interfaces_loop len p' d' e'
          | Some w \<Rightarrow> Option.bind (desc_field interface_descriptor ''num_endpoints'' (ud_buf d) q) (\<lambda>k.
              Option.bind (endpoints_loop w k len p' (d'\<lparr>ud_num_ep_configs := 0\<rparr>)) (\<lambda>d''.
                Some (Some w, d'', e')))))"

section \<open>The phases of the initialization\<close>

definition device_buf_addr :: "usb_device \<Rightarrow> usb_env \<Rightarrow> u64" where
  "device_buf_addr d e = xd_addr d + abi_device_buf (ue_abi e)"

definition start_initialize :: "usb_device \<Rightarrow> usb_env \<Rightarrow> (error_code \<times> usb_device) option" where
  "start_initialize d e =
    get_descriptor kDefaultControlPipeID (descriptor_type_code DeviceDesc) 0 (device_buf_addr d e) 256
      (d\<lparr>ud_is_initialized := False, ud_initialize_phase := 1\<rparr>)"

definition initialize_phase1 :: "usb_device \<Rightarrow> usb_env \<Rightarrow> (error_code \<times> usb_device) option" where
  "initialize_phase1 d e = do {
     n \<leftarrow> desc_field device_descriptor ''num_configurations'' (ud_buf d) 0;
     get_descriptor kDefaultControlPipeID (descriptor_type_code ConfigurationDesc) 0 (device_buf_addr d e) 256
       (d\<lparr>ud_num_configurations := n, ud_config_index := 0, ud_initialize_phase := 2\<rparr>)
   }"

definition initialize_phase2 ::
  "int \<Rightarrow> usb_device \<Rightarrow> usb_env \<Rightarrow> (error_code \<times> usb_device \<times> usb_env) option" where
  "initialize_phase2 len d e = do {
     is_conf \<leftarrow> descriptor_dynamic_cast ConfigurationDesc (ud_buf d) 0;
     (if \<not> is_conf then Some (KInvalidDescriptor, d, e)
      else do {
        (w, d1, e1) \<leftarrow> interfaces_loop len 0 d e;
        (case w of
           None \<Rightarrow> Some (KSuccess, d1, e1)
         | Some _ \<Rightarrow> do {
             v \<leftarrow> desc_field configuration_descriptor ''configuration_value'' (ud_buf d1) 0;
             (err, d2) \<leftarrow> set_configuration kDefaultControlPipeID (of_nat v) (d1\<lparr>ud_initialize_phase := 3\<rparr>);
             Some (err, d2, e1)
           })
      })
   }"

text \<open>\<open>InitializePhase3\<close>: every endpoint is handed to its driver.\<close>

fun set_endpoints :: "endpoint_config list \<Rightarrow> usb_device \<Rightarrow> usb_device option" where
  "set_endpoints [] d = Some d"
| "set_endpoints (conf # confs) d = do {
     w \<leftarrow> arr_get (ud_class_drivers d) (ep_number (ec_ep_id conf));
     (case w of
        None \<Rightarrow> None
      | Some i \<Rightarrow> do {
          c \<leftarrow> arr_get (ud_drivers d) i;
          set_endpoints confs (put_driver i (hid_set_endpoint conf c) d)
        })
   }"

definition initialize_phase3 :: "usb_device \<Rightarrow> (error_code \<times> usb_device) option" where
  "initialize_phase3 d =
    (if ud_num_ep_configs d \<le> length (ud_ep_configs d)
     then map_option (\<lambda>d'. (KSuccess, d'\<lparr>ud_initialize_phase := 4, ud_is_initialized := True\<rparr>))
       (set_endpoints (take (ud_num_ep_configs d) (ud_ep_configs d)) d)
     else None)"

text \<open>\<open>OnEndpointsConfigured\<close>: the drivers are told, until one fails.\<close>

fun endpoints_configured_loop :: "nat option list \<Rightarrow> usb_device \<Rightarrow> (error_code \<times> usb_device) option" where
  "endpoints_configured_loop [] d = Some (KSuccess, d)"
| "endpoints_configured_loop (None # ws) d = endpoints_configured_loop ws d"
| "endpoints_configured_loop (Some w # ws) d = do {
     (err, d') \<leftarrow> hid_on_endpoints_configured w d;
     if is_error err then Some (err, d') else endpoints_configured_loop ws d'
   }"

definition on_endpoints_configured :: "usb_device \<Rightarrow> (error_code \<times> usb_device) option" where
  "on_endpoints_configured d = endpoints_configured_loop (ud_class_drivers d) d"

section \<open>Completed transfers\<close>

text \<open>
  The bytes behind a buffer pointer: the device's own buffer is the only one that the phases of the
  initialization are given.  Reading through any other pointer has no result.
\<close>

definition buffer_kind :: "u64 \<Rightarrow> descriptor_kind \<Rightarrow> usb_device \<Rightarrow> usb_env \<Rightarrow> bool option" where
  "buffer_kind buf k d e =
    (if buf = device_buf_addr d e then descriptor_dynamic_cast k (ud_buf d) 0 else None)"

definition on_control_completed ::
  "nat \<Rightarrow> setup_data \<Rightarrow> u64 \<Rightarrow> int \<Rightarrow> usb_device \<Rightarrow> usb_env \<Rightarrow> (error_code \<times> usb_device \<times> usb_env) option" where
  "on_control_completed ep_id sd buf len d e =
    (if ud_is_initialized d
     then (case am_get sd (ud_event_waiters d) of
             Some w \<Rightarrow> map_option (\<lambda>(err, d'). (err, d', e)) (hid_on_control_completed w d e)
           | None \<Rightarrow> Some (KNoWaiter, d, e))
     else if ud_initialize_phase d = 1
     then (if sd_request sd = code_of request_codes ''kGetDescriptor''
           then do {
             ok \<leftarrow> buffer_kind buf DeviceDesc d e;
             if ok then map_option (\<lambda>(err, d'). (err, d', e)) (initialize_phase1 d e)
             else Some (KInvalidPhase, d, e)
           }
           else Some (KInvalidPhase, d, e))
     else if ud_initialize_phase d = 2
     then (if sd_request sd = code_of request_codes ''kGetDescriptor''
           then do {
             ok \<leftarrow> buffer_kind buf ConfigurationDesc d e;
             if ok then initialize_phase2 len d e else Some (KInvalidPhase, d, e)
           }
           else Some (KInvalidPhase, d, e))
     else if ud_initialize_phase d = 3
     then (if sd_request sd = code_of request_codes ''kSetConfiguration''
           then map_option (\<lambda>(err, d'). (err, d', e)) (initialize_phase3 d)
           else Some (KInvalidPhase, d, e))
     else Some (KNotImplemented, d, e))"

definition on_interrupt_completed ::
  "nat \<Rightarrow> int \<Rightarrow> usb_device \<Rightarrow> usb_env \<Rightarrow> (error_code \<times> usb_device \<times> usb_env) option" where
  "on_interrupt_completed ep_id len d e = do {
     w \<leftarrow> arr_get (ud_class_drivers d) (ep_number ep_id);
     (case w of
        Some i \<Rightarrow> hid_on_interrupt_completed i ep_id len d e
      | None \<Rightarrow> Some (KNoWaiter, d, e))
   }"

text \<open>The block at an address, in one of the device's transfer rings.\<close>

definition device_trb :: "u64 \<Rightarrow> usb_device \<Rightarrow> trb option" where
  "device_trb a d =
    (case List.find (\<lambda>r. ring_trb a r \<noteq> None) (map the (filter (\<lambda>r. r \<noteq> None) (xd_transfer_rings d))) of
       None \<Rightarrow> None
     | Some r \<Rightarrow> ring_trb a r)"

text \<open>The reads of the log line of a transfer event: the two name tables and the issuing block.\<close>

definition log_transfer_event :: "trb \<Rightarrow> usb_device \<Rightarrow> unit option" where
  "log_transfer_event t d = do {
     _ \<leftarrow> arr_get trb_completion_code_names (unat (field_get transfer_event_trb_layout ''completion_code'' t));
     (if field_get transfer_event_trb_layout ''event_data'' t \<noteq> 0 then Some ()
      else do {
        issuer \<leftarrow> device_trb (transfer_event_trb_pointer t) d;
        _ \<leftarrow> arr_get trb_type_names (unat (field_get trb_layout ''trb_type'' issuer));
        Some ()
      })
   }"

text \<open>The bytes transferred: 32-bit unsigned arithmetic, read as an \<open>int\<close>.\<close>

definition transfer_length :: "u32 \<Rightarrow> u32 \<Rightarrow> int" where
  "transfer_length requested residual = sint (requested - residual)"

definition setup_data_of_trb :: "trb \<Rightarrow> setup_data" where
  "setup_data_of_trb t =
    \<lparr>sd_request_type = ucast (field_get setup_stage_trb_layout ''request_type'' t),
     sd_request = ucast (field_get setup_stage_trb_layout ''request'' t),
     sd_value = ucast (field_get setup_stage_trb_layout ''value'' t),
     sd_index = ucast (field_get setup_stage_trb_layout ''index'' t),
     sd_length = ucast (field_get setup_stage_trb_layout ''length'' t)\<rparr>"

definition on_transfer_event_received ::
  "trb \<Rightarrow> usb_device \<Rightarrow> usb_env \<Rightarrow> (error_code \<times> usb_device \<times> usb_env) option" where
  "on_transfer_event_received t d e =
    (let residual_length = ucast (field_get transfer_event_trb_layout ''trb_transfer_length'' t) :: u32;
         code = field_get transfer_event_trb_layout ''completion_code'' t;
         issuer_pos = transfer_event_trb_pointer t;
         ep_id = transfer_event_trb_endpoint t in
     do {
       _ \<leftarrow> log_transfer_event t d;
       if code \<noteq> 1 \<and> code \<noteq> 13 then Some (KTransferFailed, d, e)
       else do {
         issuer \<leftarrow> device_trb issuer_pos d;
         (case trb_dynamic_cast NormalTrb issuer of
            Some nt \<Rightarrow> on_interrupt_completed ep_id
              (transfer_length (ucast (field_get normal_trb_layout ''trb_transfer_length'' nt)) residual_length) d e
          | None \<Rightarrow>
              (case am_get issuer_pos (xd_setup_stage_map d) of
                 None \<Rightarrow> Some (KNoCorrespondingSetupStage, d, e)
               | Some setup_pos \<Rightarrow>
                   (let d1 = d\<lparr>xd_setup_stage_map := am_delete issuer_pos (xd_setup_stage_map d)\<rparr> in
                    do {
                      setup \<leftarrow> device_trb setup_pos d1;
                      (case trb_dynamic_cast DataStageTrb issuer of
                         Some dt \<Rightarrow> on_control_completed ep_id (setup_data_of_trb setup) (data_stage_trb_pointer dt)
                           (transfer_length (ucast (field_get data_stage_trb_layout ''trb_transfer_length'' dt))
                              residual_length) d1 e
                       | None \<Rightarrow>
                           (if trb_dynamic_cast StatusStageTrb issuer \<noteq> None
                            then on_control_completed ep_id (setup_data_of_trb setup) 0 0 d1 e
                            else Some (KNotImplemented, d1, e)))
                    })))
       }
     })"

end
