(* ===== verification/Usb_Transfer.thy ===== *)
theory Usb_Transfer
  imports Usb_Driver
begin

text \<open>
  Transfers of a device: what a request puts on a ring, what the driver reads back when the controller
  reports its completion, and the shape every operation of a device keeps.
\<close>

section \<open>Rings that can be pushed to\<close>

definition ring_ok :: "ring \<Rightarrow> bool" where
  "ring_ok r \<longleftrightarrow> rg_write r + 1 < rg_size r \<and> length (rg_buf r) = rg_size r"

lemma ring_push_ok:
  assumes "ring_ok r"
  shows "\<exists>r'. ring_push t r = Some (rg_base r + 16 * of_nat (rg_write r), r') \<and> ring_ok r'
    \<and> rg_base r' = rg_base r \<and> rg_size r' = rg_size r \<and> rg_buf r' ! rg_write r = with_cycle (rg_cycle r) t
    \<and> (\<forall>i < rg_size r - 1. i \<noteq> rg_write r \<longrightarrow> rg_buf r' ! i = rg_buf r ! i)
    \<and> rg_write r' = (if rg_write r + 2 = rg_size r then 0 else rg_write r + 1)"
proof -
  have w: "rg_write r + 1 < rg_size r" "length (rg_buf r) = rg_size r" using assms by (auto simp: ring_ok_def)
  show ?thesis
  proof (cases "rg_write r + 1 = rg_size r - 1")
    case True
    then show ?thesis using ring_push_eq [OF w, of t] w by (auto simp: Let_def ring_ok_def nth_list_update)
  next
    case False
    then show ?thesis using ring_push_eq [OF w, of t] w by (auto simp: Let_def ring_ok_def nth_list_update)
  qed
qed

lemma ring_trb_slot:
  assumes "length (rg_buf r) = rg_size r" and "i < rg_size r" and "16 * rg_size r < 2 ^ 64"
  shows "ring_trb (rg_base r + 16 * of_nat i) r = Some (rg_buf r ! i)"
proof -
  have "unat (16 * of_nat i :: u64) = 16 * i"
    using assms by (simp add: unat_word_ariths unat_of_nat)
  then show ?thesis using assms by (simp add: ring_trb_def arr_get_def)
qed

lemma trb_cast_with_cycle:
  "trb_dynamic_cast k t = Some t \<Longrightarrow> trb_dynamic_cast k (with_cycle c t) = Some (with_cycle c t)"
  using trb_type_pos [of k] field_get_with_cycle [OF trb_pos(1), of c t]
  by (simp add: trb_dynamic_cast_def split: if_splits)

section \<open>The blocks of a control transfer\<close>

lemma trb_cast_blank:
  assumes "''trb_type'' \<notin> fst ` set ws"
  shows "trb_dynamic_cast k (fields_set (layout_of k) ws (trb_blank k)) = Some (fields_set (layout_of k) ws (trb_blank k))"
  unfolding trb_dynamic_cast_alt [of k _ k] fields_set_other [OF assms] trb_blank_type by simp

lemma trb_cast_other:
  "trb_dynamic_cast k t = Some t \<Longrightarrow> k' \<noteq> k \<Longrightarrow> trb_dynamic_cast k' t = None"
  unfolding trb_dynamic_cast_alt [of k' t k] trb_dynamic_cast_alt [of k t k]
  by (auto split: if_splits) (metis trb_type_code_inject)

lemmas setup_defs = make_setup_stage_trb_def setup_stage_trb_new_def setup_stage_trb_layout_def

lemma setup_trb_eq:
  "make_setup_stage_trb sd ty = fields_set (layout_of SetupStageTrb)
    [(''immediate_data'', 1), (''trb_transfer_length'', 8),
     (''request_type'', ucast (sd_request_type sd)), (''request'', ucast (sd_request sd)),
     (''value'', ucast (sd_value sd)), (''index'', ucast (sd_index sd)),
     (''length'', ucast (sd_length sd)), (''transfer_type'', ty)] (trb_blank SetupStageTrb)"
  by (simp add: make_setup_stage_trb_def setup_stage_trb_new_def fields_set_def)

lemma setup_trb_cast: "trb_dynamic_cast SetupStageTrb (make_setup_stage_trb sd ty) = Some (make_setup_stage_trb sd ty)"
  unfolding setup_trb_eq by (rule trb_cast_blank) simp

lemma setup_pos:
  "field_pos setup_stage_trb_layout ''request_type'' = Some (0, 8)"
  "field_pos setup_stage_trb_layout ''request'' = Some (8, 8)"
  "field_pos setup_stage_trb_layout ''value'' = Some (16, 16)"
  "field_pos setup_stage_trb_layout ''index'' = Some (32, 16)"
  "field_pos setup_stage_trb_layout ''length'' = Some (48, 16)"
  "layout_width setup_stage_trb_layout \<le> 128"
  by (simp_all add: setup_stage_trb_layout_def layout_width_def)

lemma ucast_take_bit_ucast:
  "n = LENGTH('a) \<Longrightarrow> LENGTH('a) \<le> LENGTH('b) \<Longrightarrow> ucast (take_bit n (ucast x :: 'b::len word)) = (x :: 'a::len word)"
  by (rule bit_word_eqI) (auto simp: bit_simps)

lemma setup_data_of_setup_trb:
  "setup_data_of_trb (with_cycle c (make_setup_stage_trb sd ty)) = sd"
proof -
  have g: "field_get setup_stage_trb_layout f (make_setup_stage_trb sd ty) = take_bit n v"
    if "field_pos setup_stage_trb_layout f = Some (lo, n)"
      and "(f, v) \<in> set [(''request_type'', ucast (sd_request_type sd)), (''request'', ucast (sd_request sd)),
        (''value'', ucast (sd_value sd)), (''index'', ucast (sd_index sd)),
        (''length'', ucast (sd_length sd)), (''transfer_type'', ty)]" for f lo n v
    unfolding make_setup_stage_trb_def
    by (rule fields_set_get [OF that(1) _ that(2)]) (simp_all add: setup_pos)
  have f: "field_get setup_stage_trb_layout ''request_type'' (make_setup_stage_trb sd ty) = take_bit 8 (ucast (sd_request_type sd))"
    "field_get setup_stage_trb_layout ''request'' (make_setup_stage_trb sd ty) = take_bit 8 (ucast (sd_request sd))"
    "field_get setup_stage_trb_layout ''value'' (make_setup_stage_trb sd ty) = take_bit 16 (ucast (sd_value sd))"
    "field_get setup_stage_trb_layout ''index'' (make_setup_stage_trb sd ty) = take_bit 16 (ucast (sd_index sd))"
    "field_get setup_stage_trb_layout ''length'' (make_setup_stage_trb sd ty) = take_bit 16 (ucast (sd_length sd))"
    by (rule g, rule setup_pos, simp)+
  have w: "field_get setup_stage_trb_layout f (with_cycle c t) = field_get setup_stage_trb_layout f t"
    if "field_pos setup_stage_trb_layout f = Some (lo, n)" "lo + n \<le> 96" for f lo n t
    using field_get_with_cycle [OF that(1), of c t] that(2) by simp
  show ?thesis
    by (simp add: setup_data_of_trb_def w [OF setup_pos(1)] w [OF setup_pos(2)] w [OF setup_pos(3)]
        w [OF setup_pos(4)] w [OF setup_pos(5)] f ucast_take_bit_ucast)
qed

definition data_stage_block :: "u64 \<Rightarrow> int \<Rightarrow> bool \<Rightarrow> trb" where
  "data_stage_block buf len dir_in =
    field_set data_stage_trb_layout ''interrupt_on_completion'' 1 (make_data_stage_trb buf len dir_in)"

lemma data_pos:
  "field_pos data_stage_trb_layout ''data_buffer_pointer'' = Some (0, 64)"
  "field_pos data_stage_trb_layout ''trb_transfer_length'' = Some (64, 17)"
  "layout_width data_stage_trb_layout \<le> 128"
  by (simp_all add: data_stage_trb_layout_def layout_width_def)

lemma data_trb_eq:
  "data_stage_block buf len dir_in = fields_set (layout_of DataStageTrb)
    [(''data_buffer_pointer'', ucast buf), (''trb_transfer_length'', of_int len), (''td_size'', 0),
     (''direction'', of_bool dir_in), (''interrupt_on_completion'', 1)] (trb_blank DataStageTrb)"
  by (simp add: data_stage_block_def make_data_stage_trb_def data_stage_trb_set_pointer_def
      data_stage_trb_new_def fields_set_def)

lemma data_trb_cast: "trb_dynamic_cast DataStageTrb (data_stage_block buf len dir_in) = Some (data_stage_block buf len dir_in)"
  unfolding data_trb_eq by (rule trb_cast_blank) simp

lemma data_trb_fields:
  "data_stage_trb_pointer (with_cycle c (data_stage_block buf len dir_in)) = buf"
  "field_get data_stage_trb_layout ''trb_transfer_length'' (with_cycle c (data_stage_block buf len dir_in)) =
    take_bit 17 (of_int len)"
proof -
  have g: "field_get data_stage_trb_layout f (data_stage_block buf len dir_in) = take_bit n v"
    if "field_pos data_stage_trb_layout f = Some (lo, n)"
      and "(f, v) \<in> set [(''data_buffer_pointer'', ucast buf), (''trb_transfer_length'', of_int len), (''td_size'', 0),
        (''direction'', of_bool dir_in), (''interrupt_on_completion'', 1)]" for f lo n v
    unfolding data_trb_eq layout_of.simps
    by (rule fields_set_get [OF that(1) _ that(2)]) (simp_all add: data_pos)
  show "data_stage_trb_pointer (with_cycle c (data_stage_block buf len dir_in)) = buf"
    using g [OF data_pos(1), of "ucast buf"]
    by (simp add: data_stage_trb_pointer_def field_get_with_cycle [OF data_pos(1)] pointer_whole)
  show "field_get data_stage_trb_layout ''trb_transfer_length'' (with_cycle c (data_stage_block buf len dir_in)) =
    take_bit 17 (of_int len)"
    using g [OF data_pos(2), of "of_int len"] by (simp add: field_get_with_cycle [OF data_pos(2)])
qed

section \<open>Control transfers\<close>

text \<open>A ring with room for the three blocks of a transfer, and its next two slots.\<close>

definition control_ring :: "ring \<Rightarrow> bool" where
  "control_ring r \<longleftrightarrow> ring_ok r \<and> 4 \<le> rg_size r \<and> 16 * rg_size r < 2 ^ 64"

definition next_slot :: "ring \<Rightarrow> nat" where
  "next_slot r = (if rg_write r + 2 = rg_size r then 0 else rg_write r + 1)"

definition slot_addr :: "ring \<Rightarrow> nat \<Rightarrow> u64" where
  "slot_addr r i = rg_base r + 16 * of_nat i"

lemma ring_push_slot:
  assumes "ring_ok r" and "16 * rg_size r < 2 ^ 64"
  obtains r' where "ring_push t r = Some (slot_addr r (rg_write r), r')" and "ring_ok r'"
    and "rg_base r' = rg_base r" and "rg_size r' = rg_size r" and "rg_write r' = next_slot r"
    and "ring_trb (slot_addr r (rg_write r)) r' = Some (with_cycle (rg_cycle r) t)"
    and "\<And>i. i < rg_size r - 1 \<Longrightarrow> i \<noteq> rg_write r \<Longrightarrow> ring_trb (slot_addr r i) r' = ring_trb (slot_addr r i) r"
proof -
  obtain r' where r': "ring_push t r = Some (rg_base r + 16 * of_nat (rg_write r), r')" "ring_ok r'"
    "rg_base r' = rg_base r" "rg_size r' = rg_size r" "rg_buf r' ! rg_write r = with_cycle (rg_cycle r) t"
    "\<And>i. i < rg_size r - 1 \<Longrightarrow> i \<noteq> rg_write r \<Longrightarrow> rg_buf r' ! i = rg_buf r ! i"
    "rg_write r' = (if rg_write r + 2 = rg_size r then 0 else rg_write r + 1)"
    using ring_push_ok [OF assms(1), of t] by blast
  have l: "length (rg_buf r') = rg_size r'" "length (rg_buf r) = rg_size r" "rg_write r + 1 < rg_size r"
    using r'(2) assms(1) by (auto simp: ring_ok_def)
  have s: "ring_trb (slot_addr r i) r' = Some (rg_buf r' ! i)" "ring_trb (slot_addr r i) r = Some (rg_buf r ! i)"
    if "i < rg_size r" for i
    using ring_trb_slot [OF l(1), of i] ring_trb_slot [OF l(2), of i] that r'(3,4) assms(2) by (simp_all add: slot_addr_def)
  show ?thesis
    by (rule that [of r']) (use r' s l in \<open>auto simp: slot_addr_def next_slot_def\<close>)
qed

lemma next_slot_less: "ring_ok r \<Longrightarrow> next_slot r < rg_size r - 1"
  by (auto simp: next_slot_def ring_ok_def)

lemma put_ring_ok:
  "ring_of_dci dci d = Some old \<Longrightarrow>
    put_ring dci r d = Some (d\<lparr>xd_transfer_rings := (xd_transfer_rings d)[dci - 1 := r]\<rparr>)"
  by (auto simp: ring_of_dci_def put_ring_def arr_set_def split: if_splits)

text \<open>Pushing a transfer with a data stage: where its blocks are, and what the ring holds afterwards.\<close>

lemma push_with_data_ok:
  assumes r: "control_ring r" and d: "ring_of_dci dci d = Some (Some r)"
  obtains r' where
    "push_with_data dci (make_setup_stage_trb sd ty) (make_data_stage_trb buf len dir_in) status r d =
      Some (put_setup_stage (slot_addr r (next_slot r)) (slot_addr r (rg_write r))
        (d\<lparr>xd_transfer_rings := (xd_transfer_rings d)[dci - 1 := Some r']\<rparr>))"
    and "control_ring r'" and "rg_base r' = rg_base r" and "rg_size r' = rg_size r"
    and "\<exists>c. ring_trb (slot_addr r (rg_write r)) r' = Some (with_cycle c (make_setup_stage_trb sd ty))"
    and "\<exists>c. ring_trb (slot_addr r (next_slot r)) r' = Some (with_cycle c (data_stage_block buf len dir_in))"
proof -
  have ok: "ring_ok r" and sz: "4 \<le> rg_size r" "16 * rg_size r < 2 ^ 64" using r by (auto simp: control_ring_def)
  obtain r1 where p1: "ring_push (make_setup_stage_trb sd ty) r = Some (slot_addr r (rg_write r), r1)"
    and ok1: "ring_ok r1" and b1: "rg_base r1 = rg_base r" and s1: "rg_size r1 = rg_size r"
    and w1: "rg_write r1 = next_slot r"
    and t1: "ring_trb (slot_addr r (rg_write r)) r1 = Some (with_cycle (rg_cycle r) (make_setup_stage_trb sd ty))"
    by (rule ring_push_slot [OF ok sz(2)])
  obtain r2 where p2: "ring_push (data_stage_block buf len dir_in) r1 = Some (slot_addr r (next_slot r), r2)"
    and ok2: "ring_ok r2" and b2: "rg_base r2 = rg_base r" and s2: "rg_size r2 = rg_size r"
    and w2: "rg_write r2 = next_slot r1"
    and t2: "ring_trb (slot_addr r (next_slot r)) r2 = Some (with_cycle (rg_cycle r1) (data_stage_block buf len dir_in))"
    and o2: "\<And>i. i < rg_size r - 1 \<Longrightarrow> i \<noteq> next_slot r \<Longrightarrow> ring_trb (slot_addr r i) r2 = ring_trb (slot_addr r i) r1"
    using ring_push_slot [OF ok1, of "data_stage_block buf len dir_in"] sz b1 s1 w1 by (auto simp: slot_addr_def)
  obtain r3 where p3: "ring_push status r2 = Some (slot_addr r (next_slot r1), r3)"
    and ok3: "ring_ok r3" and b3: "rg_base r3 = rg_base r" and s3: "rg_size r3 = rg_size r"
    and o3: "\<And>i. i < rg_size r - 1 \<Longrightarrow> i \<noteq> next_slot r1 \<Longrightarrow> ring_trb (slot_addr r i) r3 = ring_trb (slot_addr r i) r2"
    using ring_push_slot [OF ok2, of status] sz b2 s2 w2 by (auto simp: slot_addr_def)
  have ne: "rg_write r \<noteq> next_slot r" "rg_write r \<noteq> next_slot r1" "next_slot r \<noteq> next_slot r1"
    and lt: "rg_write r < rg_size r - 1" "next_slot r < rg_size r - 1"
    using sz w1 s1 ok by (auto simp: next_slot_def ring_ok_def)
  have c: "cast_pointer SetupStageTrb (slot_addr r (rg_write r)) r1 = Some (slot_addr r (rg_write r))"
    using t1 trb_cast_with_cycle [OF setup_trb_cast] by (simp add: cast_pointer_def)
  have "push_with_data dci (make_setup_stage_trb sd ty) (make_data_stage_trb buf len dir_in) status r d =
      Some (put_setup_stage (slot_addr r (next_slot r)) (slot_addr r (rg_write r))
        (d\<lparr>xd_transfer_rings := (xd_transfer_rings d)[dci - 1 := Some r3]\<rparr>))"
    using p1 c p2 p3 put_ring_ok [OF d] by (simp add: push_with_data_def data_stage_block_def)
  moreover have "control_ring r3" using ok3 s3 sz by (simp add: control_ring_def)
  ultimately show ?thesis
    using that [of r3] b3 s3 t1 t2 o2 o3 ne lt by metis
qed

text \<open>No address belongs to two of a device's rings.\<close>

definition rings_apart :: "usb_device \<Rightarrow> bool" where
  "rings_apart d \<longleftrightarrow>
    (\<forall>i < length (xd_transfer_rings d). \<forall>j < length (xd_transfer_rings d). \<forall>r r' a.
      xd_transfer_rings d ! i = Some r \<and> xd_transfer_rings d ! j = Some r'
      \<and> ring_trb a r \<noteq> None \<and> ring_trb a r' \<noteq> None \<longrightarrow> i = j)"

lemma device_trb_ring:
  assumes "rings_apart d" and "i < length (xd_transfer_rings d)" and "xd_transfer_rings d ! i = Some r"
    and "ring_trb a r = Some t"
  shows "device_trb a d = Some t"
proof -
  let ?rs = "map the (filter (\<lambda>r. r \<noteq> None) (xd_transfer_rings d))"
  have "Some r \<in> set (xd_transfer_rings d)" using assms(2,3) nth_mem by metis
  then have "r \<in> set ?rs" by force
  then obtain q where q: "List.find (\<lambda>r. ring_trb a r \<noteq> None) ?rs = Some q"
    using assms(4) by (cases "List.find (\<lambda>r. ring_trb a r \<noteq> None) ?rs") (auto simp: find_None_iff_all)
  then have "Some q \<in> set (xd_transfer_rings d)" "ring_trb a q \<noteq> None" by (auto dest!: find_eq_SomeD)
  then obtain j where "j < length (xd_transfer_rings d)" "xd_transfer_rings d ! j = Some q" "ring_trb a q \<noteq> None"
    by (auto simp: in_set_conv_nth)
  then have "q = r" using assms unfolding rings_apart_def by (metis option.sel option.discI)
  then show ?thesis using q assms(4) by (simp add: device_trb_def)
qed

lemma ring_trb_defined: "ring_trb a r \<noteq> None \<longleftrightarrow>
    16 dvd unat (a - rg_base r) \<and> unat (a - rg_base r) div 16 < length (rg_buf r)"
  by (auto simp: ring_trb_def arr_get_def)

lemma rings_apart_update:
  assumes "rings_apart d" and "i < length (xd_transfer_rings d)" and "xd_transfer_rings d ! i = Some r"
    and "rg_base r' = rg_base r" and "length (rg_buf r') = length (rg_buf r)"
  shows "rings_apart (d\<lparr>xd_transfer_rings := (xd_transfer_rings d)[i := Some r']\<rparr>)"
proof -
  let ?rs = "(xd_transfer_rings d)[i := Some r']"
  have same: "ring_trb a r' \<noteq> None \<longleftrightarrow> ring_trb a r \<noteq> None" for a
    unfolding ring_trb_defined using assms by simp
  have old: "\<exists>s0. xd_transfer_rings d ! k = Some s0 \<and> ring_trb a s0 \<noteq> None"
    if "?rs ! k = Some s" "ring_trb a s \<noteq> None" for k s a
  proof (cases "k = i")
    case True
    then show ?thesis using that same assms(2,3) by auto
  next
    case False
    then show ?thesis using that by auto
  qed
  show ?thesis
    unfolding rings_apart_def
  proof (intro allI impI, elim conjE)
    fix p q s s' a
    assume "p < length (xd_transfer_rings (d\<lparr>xd_transfer_rings := ?rs\<rparr>))"
      "q < length (xd_transfer_rings (d\<lparr>xd_transfer_rings := ?rs\<rparr>))"
      "xd_transfer_rings (d\<lparr>xd_transfer_rings := ?rs\<rparr>) ! p = Some s"
      "xd_transfer_rings (d\<lparr>xd_transfer_rings := ?rs\<rparr>) ! q = Some s'"
      and a: "ring_trb a s \<noteq> None" "ring_trb a s' \<noteq> None"
    then have l: "p < length (xd_transfer_rings d)" "q < length (xd_transfer_rings d)"
      and s: "?rs ! p = Some s" "?rs ! q = Some s'" by simp_all
    obtain s0 where "xd_transfer_rings d ! p = Some s0" "ring_trb a s0 \<noteq> None" using old [OF s(1) a(1)] by blast
    moreover obtain s1 where "xd_transfer_rings d ! q = Some s1" "ring_trb a s1 \<noteq> None" using old [OF s(2) a(2)] by blast
    ultimately show "p = q" using assms(1) l unfolding rings_apart_def by blast
  qed
qed

lemma rings_apart_cong: "xd_transfer_rings d = xd_transfer_rings d' \<Longrightarrow> rings_apart d \<longleftrightarrow> rings_apart d'"
  by (simp add: rings_apart_def)

lemma control_ring_length: "control_ring r \<Longrightarrow> length (rg_buf r) = rg_size r"
  by (simp add: control_ring_def ring_ok_def)

lemma ring_of_dciD: "ring_of_dci dci d = Some x \<Longrightarrow> 0 < dci \<and> dci - 1 < length (xd_transfer_rings d) \<and> xd_transfer_rings d ! (dci - 1) = x"
  by (auto simp: ring_of_dci_def split: if_splits)

lemma names_length: "length trb_completion_code_names = 37" "length trb_type_names = 64"
  by (simp_all add: trb_completion_code_names_def trb_type_names_def)

lemma trb_type_field: "unat (field_get trb_layout ''trb_type'' t) < 64"
  using unat_bf_get_less [of 106 6 t] by (simp add: field_get_def trb_pos)

lemma transfer_length_small:
  assumes "0 \<le> len" and "len < 2 ^ 17"
  shows "transfer_length (ucast (take_bit 17 (of_int len :: trb))) residual = sint (of_int len - residual)"
proof -
  have "take_bit 17 (of_int len :: trb) = of_int len"
  proof (rule take_bit_small)
    have "unat (of_int len :: trb) = nat len" using assms by (simp add: unat_eq_nat_uint uint_word_of_int)
    then show "unat (of_int len :: trb) < 2 ^ 17" using assms by (simp add: nat_less_iff)
  qed
  moreover have "ucast (of_int len :: trb) = (of_int len :: u32)"
    by (rule bit_word_eqI) (simp add: bit_simps)
  ultimately show ?thesis by (simp add: transfer_length_def)
qed

lemma sint_difference:
  assumes "0 \<le> len" and "len < 2 ^ 17" and "res < 2 ^ 24"
  shows "sint (of_int len - of_nat res :: u32) = len - int res"
proof -
  have "sint (of_int (len - int res) :: u32) = signed_take_bit 31 (len - int res)"
    by (simp only: sint_sbintrunc') simp
  also have "\<dots> = len - int res"
    using assms by (intro signed_take_bit_int_eq_self) simp_all
  finally show ?thesis by simp
qed

section \<open>A sample device\<close>

text \<open>A device on port 1 with a ring for its control endpoint, and the addresses of the objects.\<close>

definition sample_env :: usb_env where
  "sample_env =
    \<lparr>ue_pool = 0x200000, ue_alloc_ptr = 0x200000, ue_key_observer = Some 7, ue_mouse_observer = None,
     ue_notices = [],
     ue_abi = \<lparr>abi_device_size = 0x1000, abi_device_buf = 0x80, abi_device_ctx = 0x400, abi_device_input_ctx = 0x800,
       abi_ring_size = 32, abi_keyboard_size = 0x900, abi_mouse_size = 0x900, abi_hid_buf = 0x20\<rparr>\<rparr>"

definition sample_ring :: ring where
  "sample_ring = \<lparr>rg_base = 0x6000, rg_buf = replicate 32 0, rg_size = 32, rg_cycle = True, rg_write = 0\<rparr>"

definition sample_device :: usb_device where
  "sample_device =
    (let d = xhci_device_new 0x201000 1 in
     d\<lparr>xd_ctx := (xd_ctx d)\<lparr>dc_slot_context := field_set slot_context_layout ''root_hub_port_num'' 1 0\<rparr>,
       xd_transfer_rings := (xd_transfer_rings d)[0 := Some sample_ring]\<rparr>)"

lemma sample_ring_control: "control_ring sample_ring"
  by (simp add: control_ring_def ring_ok_def sample_ring_def)

lemma sample_ring_of_dci: "ring_of_dci 1 sample_device = Some (Some sample_ring)"
  by (simp add: ring_of_dci_def sample_device_def xhci_device_new_def Let_def arr_get_def)

lemma sample_rings: "xd_transfer_rings sample_device = Some sample_ring # replicate 30 None"
  using replicate_Suc [of 30 "None :: ring option"] by (simp add: sample_device_def xhci_device_new_def Let_def)

lemma sample_rings_apart: "rings_apart sample_device"
  unfolding rings_apart_def sample_rings by (auto simp: nth_Cons split: nat.splits)

lemma sample_setup_map: "xd_setup_stage_map sample_device = am_new 0 16"
  by (simp add: sample_device_def xhci_device_new_def Let_def)

text \<open>What a control-in request with a buffer leaves on the ring and in the device.\<close>

lemma control_in_pushes:
  assumes d: "ring_of_dci ep_id d = Some (Some r)" and r: "control_ring r"
    and ep: "ep_number ep_id \<le> 15" and buf: "buf \<noteq> 0"
  obtains r' where
    "control_in ep_id sd buf len issuer d = Some (KSuccess, ring_doorbell ep_id
      (put_setup_stage (slot_addr r (next_slot r)) (slot_addr r (rg_write r))
        ((snd (base_control sd issuer d))\<lparr>xd_transfer_rings := (xd_transfer_rings d)[ep_id - 1 := Some r']\<rparr>)))"
    and "control_ring r'" and "rg_base r' = rg_base r" and "rg_size r' = rg_size r"
    and "\<exists>c. ring_trb (slot_addr r (rg_write r)) r' = Some (with_cycle c (make_setup_stage_trb sd kInDataStage))"
    and "\<exists>c. ring_trb (slot_addr r (next_slot r)) r' = Some (with_cycle c (data_stage_block buf len True))"
proof -
  define d0 where "d0 = snd (base_control sd issuer d)"
  have b: "base_control sd issuer d = (KSuccess, d0)" by (simp add: d0_def base_control_def)
  have rings: "xd_transfer_rings d0 = xd_transfer_rings d" by (simp add: d0_def base_control_def split: option.splits)
  have "ring_of_dci ep_id d0 = ring_of_dci ep_id d" by (simp add: ring_of_dci_def rings)
  then have d0: "ring_of_dci ep_id d0 = Some (Some r)" using d by simp
  show ?thesis
    by (rule push_with_data_ok [OF r d0, of sd kInDataStage buf len True status_stage_trb_new], rule that)
       (use ep buf d0 in \<open>auto simp: control_in_def b dci_of_endpoint_def rings\<close>)
qed

lemma control_in_ok:
  assumes "ring_of_dci ep_id d = Some (Some r)" and "control_ring r" and "ep_number ep_id \<le> 15" and "buf \<noteq> 0"
  shows "\<exists>d'. control_in ep_id sd buf len issuer d = Some (KSuccess, d')"
  by (rule control_in_pushes [OF assms]) blast

text \<open>The event of a data block that is still on the ring with its setup block.\<close>

lemma data_block_answered:
  assumes data: "device_trb a d = Some (with_cycle c2 (data_stage_block buf len True))" and len: "0 \<le> len" "len < 2 ^ 17"
    and su: "\<And>m. device_trb s (d\<lparr>xd_setup_stage_map := m\<rparr>) = Some (with_cycle c1 (make_setup_stage_trb sd kInDataStage))"
    and m: "am_get a (xd_setup_stage_map d) = Some s"
    and t: "transfer_event_trb_pointer t = a" "field_get transfer_event_trb_layout ''completion_code'' t \<in> {1, 13}"
  shows "on_transfer_event_received t d e =
    on_control_completed (transfer_event_trb_endpoint t) sd buf
      (len - int (unat (field_get transfer_event_trb_layout ''trb_transfer_length'' t)))
      (d\<lparr>xd_setup_stage_map := am_delete a (xd_setup_stage_map d)\<rparr>) e"
proof -
  let ?res = "field_get transfer_event_trb_layout ''trb_transfer_length'' t"
  note cast = trb_cast_with_cycle [OF data_trb_cast, of c2 buf len True]
  have "unat ?res < 2 ^ 24" by (simp add: field_get_def transfer_event_trb_layout_def unat_bf_get)
  then have l: "sint (of_int len - ucast ?res :: u32) = len - int (unat ?res)"
    using sint_difference [OF len, of "unat ?res"] by (simp add: of_nat_unat)
  have "log_transfer_event t d = Some ()"
    using t data trb_type_field by (auto simp: log_transfer_event_def arr_get_def names_length)
  moreover have "trb_dynamic_cast NormalTrb (with_cycle c2 (data_stage_block buf len True)) = None"
    by (rule trb_cast_other [OF cast]) simp
  ultimately show ?thesis
    using t data m su cast data_trb_fields [of c2 buf len True] transfer_length_small [OF len] l
    by (auto simp: on_transfer_event_received_def Let_def setup_data_of_setup_trb)
qed



end
