(* ===== verification/Usb_Device_Type.thy ===== *)
theory Usb_Device_Type
  imports Usb_Transfer
begin

text \<open>
  The shape of a device: arrays of the declared sizes, rings that can be pushed to, driver pointers
  that point to drivers, and an initialization phase that agrees with the flag.  Every operation on a
  device keeps it, whatever the device sends and the controller reports.
\<close>

definition driver_ok :: "class_driver \<Rightarrow> bool" where
  "driver_ok c \<longleftrightarrow> length (cd_buf c) = 1024 \<and> length (cd_previous_buf c) = 1024 \<and> length (cd_observers c) \<le> 4"

definition drivers_ok :: "usb_device \<Rightarrow> bool" where
  "drivers_ok d \<longleftrightarrow>
    length (ud_class_drivers d) = 16 \<and> (\<forall>c \<in> set (ud_drivers d). driver_ok c)
    \<and> (\<forall>w. Some w \<in> set (ud_class_drivers d) \<longrightarrow> w < length (ud_drivers d))
    \<and> length (ud_event_waiters d) = 4
    \<and> (\<forall>sd w. am_get sd (ud_event_waiters d) = Some w \<longrightarrow> w < length (ud_drivers d))"

definition phase_ok :: "usb_device \<Rightarrow> bool" where
  "phase_ok d \<longleftrightarrow> length (ud_buf d) = 256 \<and> ud_initialize_phase d \<le> 4
    \<and> (ud_is_initialized d \<longleftrightarrow> ud_initialize_phase d = 4)
    \<and> length (ud_ep_configs d) = 16 \<and> ud_num_ep_configs d \<le> 16"

definition rings_ok :: "usb_device \<Rightarrow> bool" where
  "rings_ok d \<longleftrightarrow> length (xd_transfer_rings d) = 31 \<and> (\<forall>r. Some r \<in> set (xd_transfer_rings d) \<longrightarrow> control_ring r)
    \<and> length (xd_setup_stage_map d) = 16"

definition device_ok :: "usb_device \<Rightarrow> bool" where
  "device_ok d \<longleftrightarrow> drivers_ok d \<and> phase_ok d \<and> rings_ok d"

lemmas device_ok_defs = device_ok_def drivers_ok_def phase_ok_def rings_ok_def

section \<open>Maps and rings\<close>

lemma am_put_length [simp]: "length (am_put k v t) = length t"
  by (induction k v t rule: am_put.induct) auto

lemma am_delete_length [simp]: "length (am_delete k t) = length t"
  by (induction k t rule: am_delete.induct) auto

lemma am_get_put_cases: "am_get k (am_put k' v t) = Some w \<Longrightarrow> w = v \<or> am_get k t = Some w"
  by (induction k' v t rule: am_put.induct) (auto split: if_splits)

lemma ring_push_keeps:
  assumes "ring_push t r = Some (a, r')" and "control_ring r"
  shows "control_ring r'"
proof -
  have r: "ring_ok r" "16 * rg_size r < 2 ^ 64" "4 \<le> rg_size r" using assms(2) by (auto simp: control_ring_def)
  obtain q where "ring_push t r = Some (slot_addr r (rg_write r), q)" "ring_ok q" "rg_size q = rg_size r"
    by (rule ring_push_slot [OF r(1,2)])
  then show ?thesis using assms(1) r by (simp add: control_ring_def)
qed

lemma put_ring_keeps:
  "put_ring dci (Some r) d = Some d' \<Longrightarrow> control_ring r \<Longrightarrow> device_ok d \<Longrightarrow> device_ok d'"
  using set_update_subset_insert [of "xd_transfer_rings d" "dci - 1" "Some r"]
  by (auto simp: put_ring_def device_ok_defs split: if_splits)

lemma put_setup_stage_keeps [simp]: "device_ok (put_setup_stage a s d) = device_ok d"
  by (simp add: put_setup_stage_def device_ok_defs)

lemma ring_doorbell_keeps [simp]: "device_ok (ring_doorbell n d) = device_ok d"
  by (simp add: ring_doorbell_def device_ok_defs)

lemma ring_of_dci_control: "ring_of_dci dci d = Some (Some r) \<Longrightarrow> device_ok d \<Longrightarrow> control_ring r"
  using ring_of_dciD [of dci d "Some r"] nth_mem [of "dci - 1" "xd_transfer_rings d"]
  by (auto simp: device_ok_defs)

section \<open>Transfers\<close>

lemma push_with_data_keeps:
  assumes "push_with_data dci su dt st r d = Some d'" and "control_ring r" and "device_ok d"
  shows "device_ok d'"
proof -
  obtain a r1 p b r2 c r3 d1 where "ring_push su r = Some (a, r1)"
    "ring_push (field_set data_stage_trb_layout ''interrupt_on_completion'' 1 dt) r1 = Some (b, r2)"
    "ring_push st r2 = Some (c, r3)" "put_ring dci (Some r3) d = Some d1" "d' = put_setup_stage b p d1"
    using assms(1) by (auto simp: push_with_data_def split: Option.bind_splits)
  then show ?thesis using assms(2,3) by (metis ring_push_keeps put_ring_keeps put_setup_stage_keeps)
qed

lemma push_without_data_keeps:
  assumes "push_without_data dci su st r d = Some d'" and "control_ring r" and "device_ok d"
  shows "device_ok d'"
proof -
  obtain a r1 p b r2 d1 where "ring_push su r = Some (a, r1)"
    "ring_push (field_set status_stage_trb_layout ''interrupt_on_completion'' 1 st) r1 = Some (b, r2)"
    "put_ring dci (Some r2) d = Some d1" "d' = put_setup_stage b p d1"
    using assms(1) by (auto simp: push_without_data_def split: Option.bind_splits)
  then show ?thesis using assms(2,3) by (metis ring_push_keeps put_ring_keeps put_setup_stage_keeps)
qed

definition issuer_ok :: "nat option \<Rightarrow> usb_device \<Rightarrow> bool" where
  "issuer_ok issuer d \<longleftrightarrow> (case issuer of None \<Rightarrow> True | Some w \<Rightarrow> w < length (ud_drivers d))"

lemma base_control_keeps:
  "device_ok d \<Longrightarrow> issuer_ok issuer d \<Longrightarrow> device_ok (snd (base_control sd issuer d))"
  by (auto simp: base_control_def device_ok_defs issuer_ok_def split: option.splits dest: am_get_put_cases)

lemma control_keeps:
  assumes "device_ok d" and "issuer_ok issuer d"
  shows "control_in ep_id sd buf len issuer d = Some (err, d') \<Longrightarrow> device_ok d'"
    and "control_out ep_id sd buf len issuer d = Some (err, d') \<Longrightarrow> device_ok d'"
  using base_control_keeps [OF assms, of sd]
  by (auto simp: control_in_def control_out_def base_control_def Let_def
      split: Option.bind_splits option.splits if_splits
      dest!: push_with_data_keeps push_without_data_keeps intro: ring_of_dci_control)

lemma interrupt_in_keeps:
  assumes "interrupt_in ep_id buf len d = Some (err, d')" and "device_ok d"
  shows "device_ok d'"
  using assms
  by (auto simp: interrupt_in_def base_interrupt_def Let_def split: Option.bind_splits option.splits)
     (metis put_ring_keeps ring_push_keeps ring_of_dci_control)

section \<open>Drivers\<close>

lemma put_driver_keeps:
  "device_ok d \<Longrightarrow> driver_ok c \<Longrightarrow> device_ok (put_driver w c d)"
  using set_update_subset_insert [of "ud_drivers d" w c]
  by (auto simp: put_driver_def device_ok_defs)

lemma driver_at: "device_ok d \<Longrightarrow> w < length (ud_drivers d) \<Longrightarrow> driver_ok (ud_drivers d ! w)"
  by (simp add: device_ok_defs)

lemma driver_ok_simps [simp]:
  "driver_ok (c\<lparr>cd_initialize_phase := n\<rparr>) = driver_ok c"
  "driver_ok (hid_set_endpoint conf c) = driver_ok c"
  by (auto simp: driver_ok_def hid_set_endpoint_def)

lemma copy_n_length: "copy_n src n dst = Some r \<Longrightarrow> length r = length dst"
  by (auto simp: copy_n_def split: if_splits)

lemma hid_on_endpoints_configured_keeps:
  "hid_on_endpoints_configured w d = Some (err, d') \<Longrightarrow> device_ok d \<Longrightarrow> device_ok d'"
  by (auto simp: hid_on_endpoints_configured_def issuer_ok_def put_driver_def driver_at
      intro!: control_keeps(2) [of "put_driver w _ d" "Some w"] put_driver_keeps
      split: Option.bind_splits)

lemma hid_on_control_completed_keeps:
  "hid_on_control_completed w d e = Some (err, d') \<Longrightarrow> device_ok d \<Longrightarrow> device_ok d'"
  by (auto simp: hid_on_control_completed_def driver_at split: Option.bind_splits if_splits
      intro!: interrupt_in_keeps [of _ _ _ "put_driver w _ d"] put_driver_keeps)

lemma hid_on_interrupt_completed_keeps:
  "hid_on_interrupt_completed w ep_id len d e = Some (err, d', e') \<Longrightarrow> device_ok d \<Longrightarrow> device_ok d'"
  by (auto simp: hid_on_interrupt_completed_def split: Option.bind_splits if_splits dest!: copy_n_length
      intro!: interrupt_in_keeps [of _ _ _ "put_driver w _ d"] put_driver_keeps)
     (auto dest: driver_at simp: driver_ok_def)

section \<open>Initialization\<close>

lemma device_ok_num_ep_configs [simp]:
  "device_ok d \<Longrightarrow> n \<le> 16 \<Longrightarrow> device_ok (d\<lparr>ud_num_ep_configs := n\<rparr>)"
  by (simp add: device_ok_defs)

lemma take_endpoint_keeps:
  assumes "take_endpoint w conf d = Some d'" and "device_ok d" and "w < length (ud_drivers d)"
  shows "device_ok d' \<and> ud_drivers d' = ud_drivers d"
  using assms set_update_subset_insert [of "ud_class_drivers d" "ep_number (ec_ep_id conf)" "Some w"]
  by (auto simp: take_endpoint_def device_ok_defs split: Option.bind_splits)

lemma endpoint_desc_step_keeps:
  assumes "endpoint_desc_step w q d = Some d'" and "device_ok d" and "w < length (ud_drivers d)"
  shows "device_ok d' \<and> ud_drivers d' = ud_drivers d"
  using assms by (auto simp: endpoint_desc_step_def split: Option.bind_splits if_splits dest: take_endpoint_keeps)

lemma endpoints_loop_keeps:
  "endpoints_loop w k len p d = Some d' \<Longrightarrow> device_ok d \<Longrightarrow> w < length (ud_drivers d) \<Longrightarrow> device_ok d'"
proof (induction rule: endpoints_loop.raw_induct [rotated, consumes 1, case_names step])
  case (step loop w k len p d d')
  from step(2) consider "d' = d" | q p' d1 where "endpoint_desc_step w q d = Some d1" "loop w k len p' d1 = Some d'"
    by (auto split: Option.bind_splits option.splits if_splits)
  then show ?case
    using step(1,3,4) by cases (auto dest: endpoint_desc_step_keeps)
qed

lemma new_driver_ok: "new_driver k n e = Some (c, e') \<Longrightarrow> driver_ok c"
  by (auto simp: new_driver_def driver_ok_def subscribe_key_push_def subscribe_mouse_move_def Let_def
      hid_keyboard_driver_new_def hid_mouse_driver_new_def hid_base_driver_new_def
      split: prod.splits option.splits driver_kind.splits if_splits)

lemma new_class_driver_keeps:
  assumes "new_class_driver buf q d e = Some (cd, d', e')" and "device_ok d"
  shows "device_ok d' \<and> (\<forall>w. cd = Some w \<longrightarrow> w < length (ud_drivers d'))"
  using assms
  by (auto simp: new_class_driver_def device_ok_defs less_Suc_eq split: Option.bind_splits if_splits
      dest!: new_driver_ok)

lemma interfaces_loop_keeps:
  "interfaces_loop len p d e = Some res \<Longrightarrow> device_ok d \<Longrightarrow> device_ok (fst (snd res))"
proof (induction rule: interfaces_loop.raw_induct [rotated, consumes 1, case_names step])
  case (step loop len p d e res)
  from step(2) consider "fst (snd res) = d"
    | q p' d1 e1 where "new_class_driver (ud_buf d) q d e = Some (None, d1, e1)" "loop len p' d1 e1 = Some res"
    | q w p' k d1 e1 d2 where "new_class_driver (ud_buf d) q d e = Some (Some w, d1, e1)"
        "endpoints_loop w k len p' (d1\<lparr>ud_num_ep_configs := 0\<rparr>) = Some d2" "fst (snd res) = d2"
    by (auto split: Option.bind_splits option.splits)
  then show ?case
  proof cases
    case (3 q w p' k d1 e1 d2)
    then show ?thesis using new_class_driver_keeps [OF 3(1) step(3)] by (auto intro: endpoints_loop_keeps)
  next
    case (2 q p' d1 e1)
    then show ?thesis using step(1) [OF 2(2)] new_class_driver_keeps [OF 2(1) step(3)] by simp
  qed (use step(3) in simp)
qed

lemma device_ok_phase [simp]:
  "device_ok d \<Longrightarrow> n < 4 \<Longrightarrow> \<not> ud_is_initialized d \<Longrightarrow> device_ok (d\<lparr>ud_initialize_phase := n\<rparr>)"
  "device_ok d \<Longrightarrow> n < 4 \<Longrightarrow> device_ok (d\<lparr>ud_is_initialized := False, ud_initialize_phase := n\<rparr>)"
  "device_ok d \<Longrightarrow> device_ok (d\<lparr>ud_initialize_phase := 4, ud_is_initialized := True\<rparr>)"
  by (simp_all add: device_ok_defs)

lemma issuer_none [simp]: "issuer_ok None d"
  by (simp add: issuer_ok_def)

lemma start_initialize_keeps: "start_initialize d e = Some (err, d') \<Longrightarrow> device_ok d \<Longrightarrow> device_ok d'"
  by (auto simp: start_initialize_def get_descriptor_def intro: control_keeps(1) [rotated 2])

lemma initialize_phase1_keeps:
  "initialize_phase1 d e = Some (err, d') \<Longrightarrow> device_ok d \<Longrightarrow> \<not> ud_is_initialized d \<Longrightarrow> device_ok d'"
proof -
  assume a: "initialize_phase1 d e = Some (err, d')" "device_ok d" "\<not> ud_is_initialized d"
  then obtain n sd where c: "control_in kDefaultControlPipeID sd (device_buf_addr d e) 256 None
      (d\<lparr>ud_num_configurations := n, ud_config_index := 0, ud_initialize_phase := 2\<rparr>) = Some (err, d')"
    by (auto simp: initialize_phase1_def get_descriptor_def split: Option.bind_splits)
  moreover have "device_ok (d\<lparr>ud_num_configurations := n, ud_config_index := 0, ud_initialize_phase := 2\<rparr>)"
    using a by (simp add: device_ok_defs)
  ultimately show ?thesis using control_keeps(1) issuer_none by metis
qed

text \<open>The loops over descriptors leave the flag and the buffer alone.\<close>

definition same_phase :: "usb_device \<Rightarrow> usb_device \<Rightarrow> bool" where
  "same_phase d d' \<longleftrightarrow> ud_is_initialized d' = ud_is_initialized d \<and> ud_buf d' = ud_buf d"

lemma same_phase_trans: "same_phase d1 d2 \<Longrightarrow> same_phase d2 d3 \<Longrightarrow> same_phase d1 d3"
  by (simp add: same_phase_def)

lemma endpoint_desc_step_phase: "endpoint_desc_step w q d = Some d' \<Longrightarrow> same_phase d d'"
  by (auto simp: endpoint_desc_step_def take_endpoint_def same_phase_def split: Option.bind_splits if_splits)

lemma endpoints_loop_phase: "endpoints_loop w k len p d = Some d' \<Longrightarrow> same_phase d d'"
proof (induction rule: endpoints_loop.raw_induct [rotated, consumes 1, case_names step])
  case (step loop w k len p d d')
  from step(2) consider "d' = d" | q p' d1 where "endpoint_desc_step w q d = Some d1" "loop w k len p' d1 = Some d'"
    by (auto split: Option.bind_splits option.splits if_splits)
  then show ?case
    using step(1) by cases (auto dest: endpoint_desc_step_phase intro: same_phase_trans simp: same_phase_def)
qed

lemma new_class_driver_phase: "new_class_driver buf q d e = Some (cd, d', e') \<Longrightarrow> same_phase d d'"
  by (auto simp: new_class_driver_def same_phase_def split: Option.bind_splits if_splits)

lemma interfaces_loop_phase: "interfaces_loop len p d e = Some res \<Longrightarrow> same_phase d (fst (snd res))"
proof (induction rule: interfaces_loop.raw_induct [rotated, consumes 1, case_names step])
  case (step loop len p d e res)
  from step(2) consider "fst (snd res) = d"
    | q p' d1 e1 where "new_class_driver (ud_buf d) q d e = Some (None, d1, e1)" "loop len p' d1 e1 = Some res"
    | q w p' k d1 e1 d2 where "new_class_driver (ud_buf d) q d e = Some (Some w, d1, e1)"
        "endpoints_loop w k len p' (d1\<lparr>ud_num_ep_configs := 0\<rparr>) = Some d2" "fst (snd res) = d2"
    by (auto split: Option.bind_splits option.splits)
  then show ?case
  proof cases
    case (3 q w p' k d1 e1 d2)
    then show ?thesis using new_class_driver_phase [OF 3(1)] endpoints_loop_phase [OF 3(2)]
      by (simp add: same_phase_def)
  qed (use step(1) in \<open>auto dest: new_class_driver_phase intro: same_phase_trans simp: same_phase_def\<close>)
qed

lemma initialize_phase2_keeps:
  assumes "initialize_phase2 len d e = Some (err, d', e')" and "device_ok d" and "\<not> ud_is_initialized d"
  shows "device_ok d'"
proof -
  from assms(1) consider "d' = d"
    | d1 e1 where "interfaces_loop len 0 d e = Some (None, d1, e1)" "d' = d1"
    | w d1 e1 v where "interfaces_loop len 0 d e = Some (Some w, d1, e1)"
        "set_configuration kDefaultControlPipeID v (d1\<lparr>ud_initialize_phase := 3\<rparr>) = Some (err, d')"
    by (auto simp: initialize_phase2_def split: Option.bind_splits option.splits if_splits)
  then show ?thesis
  proof cases
    case (3 w d1 e1 v)
    have "device_ok d1" "\<not> ud_is_initialized d1"
      using interfaces_loop_keeps [OF 3(1) assms(2)] interfaces_loop_phase [OF 3(1)] assms(3)
      by (simp_all add: same_phase_def)
    then have "device_ok (d1\<lparr>ud_initialize_phase := 3\<rparr>)" by simp
    then show ?thesis using 3(2) unfolding set_configuration_def by (rule control_keeps(2) [OF _ issuer_none])
  next
    case (2 d1 e1)
    then show ?thesis using interfaces_loop_keeps [OF 2(1) assms(2)] by simp
  qed (use assms in simp)
qed

lemma set_endpoints_keeps: "set_endpoints confs d = Some d' \<Longrightarrow> device_ok d \<Longrightarrow> device_ok d'"
proof (induction confs arbitrary: d)
  case (Cons conf confs)
  then show ?case
    by (auto split: Option.bind_splits option.splits intro!: Cons.IH put_driver_keeps driver_at)
qed simp

lemma initialize_phase3_keeps: "initialize_phase3 d = Some (err, d') \<Longrightarrow> device_ok d \<Longrightarrow> device_ok d'"
  by (auto simp: initialize_phase3_def split: if_splits dest: set_endpoints_keeps)

lemma endpoints_configured_loop_keeps:
  "endpoints_configured_loop ws d = Some (err, d') \<Longrightarrow> device_ok d \<Longrightarrow> device_ok d'"
  by (induction ws d rule: endpoints_configured_loop.induct)
     (auto split: Option.bind_splits if_splits dest: hid_on_endpoints_configured_keeps)

section \<open>Events\<close>

lemma on_control_completed_keeps:
  "on_control_completed ep_id sd buf len d e = Some (err, d', e') \<Longrightarrow> device_ok d \<Longrightarrow> device_ok d'"
  by (auto simp: on_control_completed_def split: if_splits option.splits Option.bind_splits
      dest: hid_on_control_completed_keeps initialize_phase1_keeps initialize_phase2_keeps initialize_phase3_keeps)

lemma on_interrupt_completed_keeps:
  "on_interrupt_completed ep_id len d e = Some (err, d', e') \<Longrightarrow> device_ok d \<Longrightarrow> device_ok d'"
  by (auto simp: on_interrupt_completed_def split: option.splits Option.bind_splits
      dest: hid_on_interrupt_completed_keeps)

lemma device_ok_setup_map [simp]: "device_ok (d\<lparr>xd_setup_stage_map := am_delete a (xd_setup_stage_map d)\<rparr>) = device_ok d"
  by (simp add: device_ok_defs)

lemma transfer_event_keeps:
  "on_transfer_event_received t d e = Some (err, d', e') \<Longrightarrow> device_ok d \<Longrightarrow> device_ok d'"
  by (auto simp: on_transfer_event_received_def Let_def split: Option.bind_splits option.splits if_splits
      dest: on_control_completed_keeps on_interrupt_completed_keeps)

lemma am_get_new [simp]: "am_get k (am_new v n) = None"
  by (induction n) (simp_all add: am_new_def)

lemma sample_device_ok: "device_ok sample_device"
  using sample_ring_control
  by (auto simp: device_ok_defs sample_rings)
     (simp_all add: sample_device_def xhci_device_new_def Let_def am_new_def [symmetric],
      simp_all add: am_new_def)

text \<open>A failed transfer on the sample device's control ring.\<close>

definition sample_failure :: trb where
  "sample_failure = fields_set transfer_event_trb_layout
     [(''trb_pointer'', 0x6000), (''completion_code'', 4), (''slot_id'', 1)] (trb_blank TransferEventTrb)"



end
