(* ===== verification/Usb_Input.thy ===== *)
theory Usb_Input
  imports Usb_Device_Type
begin

text \<open>
  What comes out of the class drivers and of the reading of a configuration: the key notices of the
  keyboard driver over a sequence of reports, and the endpoints taken from a configuration descriptor.
\<close>

section \<open>Interrupt transfers that succeed\<close>

lemma interrupt_in_ok:
  assumes "ring_of_dci ep d = Some (Some r)" and "control_ring r"
  shows "\<exists>d' r'. interrupt_in ep buf len d = Some (KSuccess, d') \<and> ud_drivers d' = ud_drivers d
    \<and> ring_of_dci ep d' = Some (Some r')"
proof -
  have ok: "ring_ok r" "16 * rg_size r < 2 ^ 64" using assms(2) by (auto simp: control_ring_def)
  let ?t = "fields_set normal_trb_layout
     [(''trb_transfer_length'', of_int len), (''interrupt_on_short_packet'', 1),
      (''interrupt_on_completion'', 1)] (normal_trb_set_pointer buf normal_trb_new)"
  obtain r' where p: "ring_push ?t r = Some (slot_addr r (rg_write r), r')"
    by (rule ring_push_slot [OF ok])
  let ?d = "ring_doorbell ep (d\<lparr>xd_transfer_rings := (xd_transfer_rings d)[ep - 1 := Some r']\<rparr>)"
  have "interrupt_in ep buf len d = Some (KSuccess, ?d)"
    using assms(1) p put_ring_ok [OF assms(1), of "Some r'"]
    by (simp add: interrupt_in_def base_interrupt_def dci_of_endpoint_def)
  moreover have "ring_of_dci ep ?d = Some (Some r')"
    using ring_of_dciD [OF assms(1)] by (simp add: ring_of_dci_def ring_doorbell_def arr_get_def)
  moreover have "ud_drivers ?d = ud_drivers d" by (simp add: ring_doorbell_def)
  ultimately show ?thesis by blast
qed

section \<open>The keyboard\<close>

text \<open>The keys of a report of 8 bytes that were not down in the report before.\<close>

definition report_keys :: "u8 list \<Rightarrow> u8 list" where
  "report_keys rep = drop 2 (take 8 rep)"

definition new_keys :: "u8 list \<Rightarrow> u8 list \<Rightarrow> u8 list" where
  "new_keys prev rep = filter (\<lambda>k. k \<noteq> 0 \<and> k \<notin> set (report_keys prev)) (report_keys rep)"

fun key_presses :: "u8 list \<Rightarrow> u8 list list \<Rightarrow> (u8 \<times> u8) list" where
  "key_presses prev [] = []"
| "key_presses prev (rep # reps) = map (\<lambda>k. (rep ! 0, k)) (new_keys prev rep) @ key_presses rep reps"

definition key_notices :: "nat list \<Rightarrow> (u8 \<times> u8) list \<Rightarrow> notice list" where
  "key_notices obs ks = concat (map (\<lambda>(m, k). map (\<lambda>ob. KeyPressed ob m k) obs) ks)"

text \<open>The controller writes a report to the driver's buffer and the transfer completes.\<close>

definition receive_report :: "nat \<Rightarrow> u8 list \<Rightarrow> usb_device \<Rightarrow> usb_device option" where
  "receive_report w rep d =
    map_option (\<lambda>c. put_driver w (c\<lparr>cd_buf := rep @ drop (length rep) (cd_buf c)\<rparr>) d) (arr_get (ud_drivers d) w)"

fun keyboard_run :: "nat \<Rightarrow> nat \<Rightarrow> u8 list list \<Rightarrow> usb_device \<Rightarrow> usb_env \<Rightarrow> (usb_device \<times> usb_env) option" where
  "keyboard_run w ep_id [] d e = Some (d, e)"
| "keyboard_run w ep_id (rep # reps) d e = do {
     d1 \<leftarrow> receive_report w rep d;
     (_, d2, e2) \<leftarrow> hid_on_interrupt_completed w ep_id (int (length rep)) d1 e;
     keyboard_run w ep_id reps d2 e2
   }"

lemma key_loop_eq:
  "\<forall>i \<in> set is. i < length (cd_buf c) \<Longrightarrow> 0 < length (cd_buf c) \<Longrightarrow>
    key_loop is c = Some (concat (map (\<lambda>k. if k = 0 \<or> k \<in> set (drop 2 (cd_previous_buf c)) then []
      else notify_key_push (cd_buf c ! 0) k c) (map ((!) (cd_buf c)) is)))"
  by (induction "is") (auto simp: arr_get_def)

lemma map_nth_range: "8 \<le> length xs \<Longrightarrow> map ((!) xs) [2..<8] = report_keys xs"
  by (rule nth_equalityI) (simp_all add: report_keys_def del: upt_rec_numeral)

lemma keyboard_report:
  assumes "length rep = 8" and "length prev = 8" and "cd_buf c = rep @ zs" and "cd_previous_buf c = prev @ replicate n 0"
  shows "keyboard_on_data_received c = Some (key_notices (cd_observers c) (map (\<lambda>k. (rep ! 0, k)) (new_keys prev rep)))"
proof -
  have k: "report_keys (cd_buf c) = report_keys rep" and m: "cd_buf c ! 0 = rep ! 0"
    using assms by (simp_all add: report_keys_def nth_append)
  have p: "set (drop 2 (cd_previous_buf c)) \<union> {0} = set (report_keys prev) \<union> {0}"
    using assms by (auto simp: report_keys_def)
  then have f: "k = 0 \<or> k \<in> set (drop 2 (cd_previous_buf c)) \<longleftrightarrow> \<not> (k \<noteq> 0 \<and> k \<notin> set (report_keys prev))" for k by blast
  have fl: "concat (map (\<lambda>k. if \<not> P k then [] else g k) ks) = concat (map g (filter P ks))"
    for ks :: "u8 list" and P and g :: "u8 \<Rightarrow> notice list"
    by (induction ks) auto
  have "8 \<le> length (cd_buf c)" using assms by simp
  then have "key_loop [2..<8] c = Some (concat (map (\<lambda>k. if k = 0 \<or> k \<in> set (drop 2 (cd_previous_buf c)) then []
      else notify_key_push (cd_buf c ! 0) k c) (report_keys (cd_buf c))))"
    by (subst key_loop_eq) (auto simp: map_nth_range simp del: upt_rec_numeral)
  also have "\<dots> = Some (concat (map (\<lambda>k. notify_key_push (rep ! 0) k c) (new_keys prev rep)))"
    unfolding f fl k m new_keys_def ..
  finally show ?thesis
    by (simp only: keyboard_on_data_received_def key_notices_def notify_key_push_def map_map comp_def prod.case)
qed

text \<open>The state between reports: an armed keyboard whose last report was \<open>prev\<close>.\<close>

definition keyboard_armed :: "nat \<Rightarrow> u8 list \<Rightarrow> nat list \<Rightarrow> usb_device \<Rightarrow> bool" where
  "keyboard_armed w prev obs d \<longleftrightarrow>
    device_ok d \<and> w < length (ud_drivers d)
    \<and> (let c = ud_drivers d ! w in
       cd_kind c = HidKeyboard \<and> cd_previous_buf c = prev @ replicate 1016 0 \<and> cd_observers c = obs
       \<and> (\<exists>r. ring_of_dci (cd_ep_interrupt_in c) d = Some (Some r)))"

lemma keyboard_step:
  assumes a: "keyboard_armed w prev obs d" and l: "length prev = 8" "length rep = 8" and ep: "ep_is_in ep_id"
  shows "\<exists>d1 d2 e2. receive_report w rep d = Some d1
    \<and> hid_on_interrupt_completed w ep_id 8 d1 e = Some (KSuccess, d2, e2)
    \<and> keyboard_armed w rep obs d2
    \<and> ue_notices e2 = ue_notices e @ key_notices obs (map (\<lambda>k. (rep ! 0, k)) (new_keys prev rep))"
proof -
  define c where "c = ud_drivers d ! w"
  define c1 where "c1 = c\<lparr>cd_buf := rep @ drop 8 (cd_buf c)\<rparr>"
  define c2 where "c2 = c1\<lparr>cd_previous_buf := rep @ replicate 1016 0\<rparr>"
  have ok: "device_ok d" "w < length (ud_drivers d)" and c: "cd_kind c = HidKeyboard"
    "cd_previous_buf c = prev @ replicate 1016 0" "cd_observers c = obs"
    using a by (simp_all add: keyboard_armed_def c_def Let_def)
  obtain r where r: "ring_of_dci (cd_ep_interrupt_in c) d = Some (Some r)"
    using a by (auto simp: keyboard_armed_def c_def Let_def)
  have dc: "driver_ok c" using driver_at [OF ok] by (simp add: c_def)
  then have dc2: "driver_ok c1" "driver_ok c2" using l by (simp_all add: driver_ok_def c1_def c2_def)
  let ?d1 = "put_driver w c1 d" and ?d1' = "put_driver w c2 (put_driver w c1 d)"
  have ok1: "device_ok ?d1'" using ok dc2 by (simp add: put_driver_keeps)
  have "ring_of_dci (cd_ep_interrupt_in c2) ?d1' = Some (Some r)"
    using r by (auto simp: c2_def c1_def put_driver_def ring_of_dci_def split: if_splits)
  from interrupt_in_ok [OF this ring_of_dci_control [OF this ok1], of "hid_buf_addr c2 e" "int (cd_in_packet_size c2)"]
  obtain d2 r' where i: "interrupt_in (cd_ep_interrupt_in c2) (hid_buf_addr c2 e) (int (cd_in_packet_size c2)) ?d1' = Some (KSuccess, d2)"
    and d2: "ud_drivers d2 = ud_drivers ?d1'" "ring_of_dci (cd_ep_interrupt_in c2) d2 = Some (Some r')" by blast
  have n: "on_data_received c1 = Some (key_notices obs (map (\<lambda>k. (rep ! 0, k)) (new_keys prev rep)))"
    using keyboard_report [OF l(2,1), of c1] c by (simp add: on_data_received_def c1_def)
  have cp: "copy_n (cd_buf c1) 8 (cd_previous_buf c1) = Some (rep @ replicate 1016 0)"
    using l c dc by (simp add: copy_n_def c1_def driver_ok_def)
  have h: "hid_on_interrupt_completed w ep_id 8 ?d1 e = Some (KSuccess, d2,
      e\<lparr>ue_notices := ue_notices e @ key_notices obs (map (\<lambda>k. (rep ! 0, k)) (new_keys prev rep))\<rparr>)"
    using ep ok n cp i
    by (simp add: hid_on_interrupt_completed_def put_driver_def arr_get_def c2_def hid_buf_addr_def)
  have "keyboard_armed w rep obs d2"
    using interrupt_in_keeps [OF i ok1] d2 ok c
    by (simp add: keyboard_armed_def put_driver_def c1_def c2_def)
  moreover have "receive_report w rep d = Some ?d1"
    using ok l by (simp add: receive_report_def arr_get_def c_def c1_def)
  ultimately show ?thesis using h by auto
qed


text \<open>A keyboard on endpoint 1 of the sample device.\<close>

definition sample_keyboard :: usb_device where
  "sample_keyboard = sample_device
     \<lparr>ud_drivers := [(hid_keyboard_driver_new 0x210000 0)\<lparr>cd_ep_interrupt_in := 1, cd_observers := [7]\<rparr>]\<rparr>"

lemma sample_keyboard_armed: "keyboard_armed 0 (replicate 8 0) [7] sample_keyboard"
proof -
  have r: "ring_of_dci 1 sample_keyboard = Some (Some sample_ring)"
    using sample_ring_of_dci by (auto simp: sample_keyboard_def ring_of_dci_def)
  have b: "replicate 8 0 @ replicate 1016 0 = replicate 1024 (0 :: u8)"
    by (simp flip: replicate_add)
  have "ud_class_drivers sample_device = replicate 16 None" "ud_event_waiters sample_device = am_new 0 4"
    by (simp_all add: sample_device_def xhci_device_new_def Let_def)
  then have "device_ok sample_keyboard"
    using sample_device_ok
    by (auto simp: device_ok_defs sample_keyboard_def driver_ok_def hid_keyboard_driver_new_def hid_base_driver_new_def)
  then show ?thesis using r b
    by (auto simp: keyboard_armed_def Let_def)
       (simp_all add: sample_keyboard_def hid_keyboard_driver_new_def hid_base_driver_new_def)
qed


section \<open>Reading a configuration\<close>

text \<open>
  A well-formed list of descriptors: each one starts with its length, which is at least 2, and has the
  bytes its type needs.
\<close>

definition desc_ok :: "u8 list \<Rightarrow> bool" where
  "desc_ok x \<longleftrightarrow> 2 \<le> length x \<and> length x < 256 \<and> unat (x ! 0) = length x
    \<and> (x ! 1 = 4 \<longrightarrow> 9 \<le> length x) \<and> (x ! 1 = 5 \<longrightarrow> 7 \<le> length x)
    \<and> (x ! 1 = 33 \<longrightarrow> 6 \<le> length x \<and> 6 + 3 * unat (x ! 5) \<le> length x)"

fun next_endpoints :: "nat \<Rightarrow> u8 list list \<Rightarrow> endpoint_config list option" where
  "next_endpoints 0 xs = Some []"
| "next_endpoints (Suc n) [] = None"
| "next_endpoints (Suc n) (x # xs) =
    (if x ! 1 = 5
     then Option.bind (make_ep_config x 0) (\<lambda>conf. map_option (Cons conf) (next_endpoints n xs))
     else next_endpoints (Suc n) xs)"

fun take_endpoints :: "nat \<Rightarrow> endpoint_config list \<Rightarrow> usb_device \<Rightarrow> usb_device option" where
  "take_endpoints w [] d = Some d"
| "take_endpoints w (conf # confs) d = Option.bind (take_endpoint w conf d) (take_endpoints w confs)"

text \<open>
  What \<open>InitializePhase2\<close> looks for, on the list of descriptors: the first interface a driver exists
  for, and as many endpoints behind it as the interface announces.
\<close>

fun find_interface :: "u8 list list \<Rightarrow> usb_device \<Rightarrow> usb_env \<Rightarrow> (nat option \<times> usb_device \<times> usb_env) option" where
  "find_interface [] d e = Some (None, d, e)"
| "find_interface (x # xs) d e =
    (if x ! 1 = 4
     then Option.bind (new_class_driver x 0 d e) (\<lambda>(cd, d', e').
       case cd of
         None \<Rightarrow> find_interface xs d' e'
       | Some w \<Rightarrow> do {
           n \<leftarrow> desc_field interface_descriptor ''num_endpoints'' x 0;
           confs \<leftarrow> next_endpoints n xs;
           d'' \<leftarrow> take_endpoints w confs (d'\<lparr>ud_num_ep_configs := 0\<rparr>);
           Some (Some w, d'', e')
         })
     else find_interface xs d e)"

lemma desc_field_at:
  assumes "field_pos l f = Some (off, n)" and "off + n \<le> length x"
  shows "desc_field l f (pre @ x @ post) (length pre) = desc_field l f x 0"
  using assms by (simp add: desc_field_def)

text \<open>The reader at the start of the descriptor \<open>x\<close>, with the descriptors \<open>xs\<close> behind it.\<close>

definition reader_at :: "u8 list \<Rightarrow> int \<Rightarrow> nat \<Rightarrow> u8 list \<Rightarrow> u8 list list \<Rightarrow> bool" where
  "reader_at buf len p x xs \<longleftrightarrow>
    (\<exists>pre post. buf = pre @ x @ concat xs @ post \<and> length pre = p
      \<and> len = int (length pre + length x + length (concat xs)))
    \<and> desc_ok x \<and> (\<forall>y \<in> set xs. desc_ok y)"

lemma reader_next:
  assumes "reader_at buf len p x xs"
  shows "case xs of
      [] \<Rightarrow> next_desc buf len p = Some (None, p + length x)
    | y # ys \<Rightarrow> next_desc buf len p = Some (Some (p + length x), p + length x) \<and> reader_at buf len (p + length x) y ys"
proof -
  obtain pre post where b: "buf = pre @ x @ concat xs @ post" "length pre = p"
    "len = int (length pre + length x + length (concat xs))" and ok: "desc_ok x" "\<forall>y \<in> set xs. desc_ok y"
    using assms by (auto simp: reader_at_def)
  have l: "2 \<le> length x" "unat (x ! 0) = length x" using ok by (auto simp: desc_ok_def)
  have "x \<noteq> []" using l by auto
  then have nx: "arr_get buf p = Some (x ! 0)" using b by (simp add: arr_get_def nth_append)
  have u: "uint (x ! 0) = int (length x)" unfolding l(2) [symmetric] by simp
  show ?thesis
  proof (cases xs)
    case Nil
    then show ?thesis using nx l(2) u b(2,3) by (simp add: next_desc_def arr_get_Some)
  next
    case (Cons y ys)
    then have "0 < length y" using ok by (auto simp: desc_ok_def)
    moreover have "reader_at buf len (p + length x) y ys"
      unfolding reader_at_def
      using b ok Cons by (intro conjI exI [of _ "pre @ x"] exI [of _ post]) auto
    ultimately show ?thesis using nx l(2) u b(2,3) Cons by (simp add: next_desc_def arr_get_Some add_pos_nonneg Let_def)
  qed
qed

lemma reader_cast:
  "reader_at buf len p x xs \<Longrightarrow> descriptor_dynamic_cast k buf p = Some (x ! 1 = descriptor_type_code k)"
  by (auto simp: reader_at_def descriptor_dynamic_cast_def arr_get_def desc_ok_def nth_append)

lemma reader_field:
  assumes "reader_at buf len p x xs" and "field_pos l f = Some (off, n)" and "off + n \<le> length x"
  shows "desc_field l f buf p = desc_field l f x 0"
  using assms desc_field_at [OF assms(2,3)] by (auto simp: reader_at_def)

lemma field_positions:
  "field_pos endpoint_descriptor ''endpoint_address'' = Some (2, 1)"
  "field_pos endpoint_descriptor ''attributes'' = Some (3, 1)"
  "field_pos endpoint_descriptor ''max_packet_size'' = Some (4, 2)"
  "field_pos endpoint_descriptor ''interval'' = Some (6, 1)"
  "field_pos interface_descriptor ''interface_class'' = Some (5, 1)"
  "field_pos interface_descriptor ''interface_sub_class'' = Some (6, 1)"
  "field_pos interface_descriptor ''interface_protocol'' = Some (7, 1)"
  "field_pos interface_descriptor ''interface_number'' = Some (2, 1)"
  "field_pos interface_descriptor ''num_endpoints'' = Some (4, 1)"
  "field_pos hid_descriptor ''num_descriptors'' = Some (5, 1)"
  "layout_width hid_descriptor = 6" "layout_width hid_class_descriptor = 3"
  by (simp_all add: endpoint_descriptor_def interface_descriptor_def hid_descriptor_def
      hid_class_descriptor_def layout_width_def)

lemma reader_ep_config:
  assumes "reader_at buf len p x xs" and "x ! 1 = 5"
  shows "make_ep_config buf p = make_ep_config x 0" and "make_ep_config x 0 \<noteq> None"
proof -
  have l: "7 \<le> length x" using assms by (auto simp: reader_at_def desc_ok_def)
  show "make_ep_config buf p = make_ep_config x 0"
    using l by (simp add: make_ep_config_def reader_field [OF assms(1)] field_positions)
  show "make_ep_config x 0 \<noteq> None"
    using l by (simp add: make_ep_config_def desc_field_def field_positions Let_def)
qed

lemma reader_class_driver:
  assumes "reader_at buf len p x xs" and "x ! 1 = 4"
  shows "new_class_driver buf p = new_class_driver x 0"
    and "desc_field interface_descriptor ''num_endpoints'' buf p = desc_field interface_descriptor ''num_endpoints'' x 0"
proof -
  have l: "9 \<le> length x" using assms by (auto simp: reader_at_def desc_ok_def)
  show "new_class_driver buf p = new_class_driver x 0"
    using l by (intro ext) (simp add: new_class_driver_def reader_field [OF assms(1)] field_positions)
  show "desc_field interface_descriptor ''num_endpoints'' buf p = desc_field interface_descriptor ''num_endpoints'' x 0"
    using l by (simp add: reader_field [OF assms(1)] field_positions)
qed

lemma reader_hid_log:
  assumes "reader_at buf len p x xs" and "x ! 1 = 33"
  shows "hid_log buf p = Some ()"
proof -
  have l: "6 \<le> length x" "6 + 3 * unat (x ! 5) \<le> length x" using assms by (auto simp: reader_at_def desc_ok_def)
  have n: "desc_field hid_descriptor ''num_descriptors'' buf p = Some (unat (x ! 5))"
    using l by (simp add: reader_field [OF assms(1)] field_positions desc_field_byte)
  have "p + length x \<le> length buf" using assms(1) by (auto simp: reader_at_def)
  then show ?thesis using l by (auto simp: hid_log_def n get_class_descriptor_def field_positions list_all_iff)
qed

lemma endpoint_step_at:
  assumes r: "reader_at (ud_buf d) len p x xs"
  shows "endpoint_desc_step w p d =
    (if x ! 1 = 5 then Option.bind (make_ep_config x 0) (\<lambda>conf. take_endpoint w conf d) else Some d)"
  using reader_ep_config [OF r] reader_hid_log [OF r]
  by (simp add: endpoint_desc_step_def reader_cast [OF r])

lemma take_endpoint_frame: "take_endpoint w conf d = Some d' \<Longrightarrow> ud_buf d' = ud_buf d \<and> ud_num_ep_configs d' = ud_num_ep_configs d + 1"
  by (auto simp: take_endpoint_def split: Option.bind_splits)

lemma endpoints_loop_list:
  "reader_at (ud_buf d) len p x xs \<Longrightarrow> ud_num_ep_configs d + n = k \<Longrightarrow>
    endpoints_loop w k len p d =
      Option.bind (next_endpoints n xs) (\<lambda>confs. take_endpoints w confs d)"
proof (induction xs arbitrary: p x n d)
  case Nil
  then have "next_desc (ud_buf d) len p = Some (None, p + length x)" using reader_next [OF Nil(1)] by simp
  then show ?case using Nil(2) by (cases n) (simp_all add: endpoints_loop.simps)
next
  case (Cons y ys)
  have nx: "next_desc (ud_buf d) len p = Some (Some (p + length x), p + length x)"
    and r: "reader_at (ud_buf d) len (p + length x) y ys" using reader_next [OF Cons.prems(1)] by simp_all
  note step = endpoint_step_at [OF r, of w]
  show ?case
  proof (cases n)
    case 0
    then show ?thesis using Cons.prems(2) by (simp add: endpoints_loop.simps)
  next
    case (Suc m)
    show ?thesis
    proof (cases "y ! 1 = 5")
      case False
      then have "endpoints_loop w k len p d = endpoints_loop w k len (p + length x) d"
        using Suc Cons.prems(2) nx step by (subst endpoints_loop.simps) simp
      then show ?thesis using Cons.IH [OF r, of n] Cons.prems(2) False Suc by simp
    next
      case True
      then obtain conf where conf: "make_ep_config y 0 = Some conf" using reader_ep_config(2) [OF r] by auto
      show ?thesis
      proof (cases "take_endpoint w conf d")
        case None
        then have "endpoints_loop w k len p d = None"
          using Suc Cons.prems(2) nx step True conf by (subst endpoints_loop.simps) simp
        then show ?thesis using None True conf Suc by (cases "next_endpoints m ys") simp_all
      next
        case (Some d')
        then have "endpoints_loop w k len p d = endpoints_loop w k len (p + length x) d'"
          using Suc Cons.prems(2) nx step True conf by (subst endpoints_loop.simps) simp
        also have "\<dots> = Option.bind (next_endpoints m ys) (\<lambda>confs. take_endpoints w confs d')"
          using Cons.IH [of d' "p + length x" y m] r take_endpoint_frame [OF Some] Suc Cons.prems(2) by simp
        finally show ?thesis using Some True conf Suc by (cases "next_endpoints m ys") simp_all
      qed
    qed
  qed
qed

lemma new_class_driver_frame: "new_class_driver buf q d e = Some (cd, d', e') \<Longrightarrow> ud_buf d' = ud_buf d"
  using new_class_driver_phase by (auto simp: same_phase_def)

lemma interfaces_loop_skip:
  assumes "next_desc (ud_buf d) len p = Some (Some q, q)"
    and "descriptor_dynamic_cast InterfaceDesc (ud_buf d) q = Some False"
  shows "interfaces_loop len p d e = interfaces_loop len q d e"
proof -
  have "next_of InterfaceDesc (ud_buf d) len p = next_of InterfaceDesc (ud_buf d) len q"
    using assms by (subst next_of.simps) simp
  then show ?thesis by (subst (1 2) interfaces_loop.simps) simp
qed

lemma interfaces_loop_list:
  "reader_at (ud_buf d) len p x xs \<Longrightarrow> interfaces_loop len p d e = find_interface xs d e"
proof (induction xs arbitrary: p x d e)
  case Nil
  then have "next_desc (ud_buf d) len p = Some (None, p + length x)" using reader_next [OF Nil(1)] by simp
  then have "next_of InterfaceDesc (ud_buf d) len p = Some (None, p + length x)" by (subst next_of.simps) simp
  then show ?case by (subst interfaces_loop.simps) simp
next
  case (Cons y ys)
  have nx: "next_desc (ud_buf d) len p = Some (Some (p + length x), p + length x)"
    and r: "reader_at (ud_buf d) len (p + length x) y ys" using reader_next [OF Cons.prems(1)] by simp_all
  show ?case
  proof (cases "y ! 1 = 4")
    case False
    then show ?thesis
      using interfaces_loop_skip [OF nx] Cons.IH [OF r] reader_cast [OF r, of InterfaceDesc] by simp
  next
    case True
    then have nof: "next_of InterfaceDesc (ud_buf d) len p = Some (Some (p + length x), p + length x)"
      using nx reader_cast [OF r, of InterfaceDesc] by (subst next_of.simps) simp
    note cd = reader_class_driver [OF r True]
    show ?thesis
    proof (cases "new_class_driver y 0 d e")
      case None
      then show ?thesis using True nof cd(1) by (subst interfaces_loop.simps) simp
    next
      case (Some res)
      then obtain c d' e' where n: "new_class_driver y 0 d e = Some (c, d', e')" by (cases res) auto
      have b: "ud_buf d' = ud_buf d" using new_class_driver_frame [OF n] .
      show ?thesis
      proof (cases c)
        case None
        then show ?thesis using True nof cd(1) n Cons.IH [of d' "p + length x" y e'] r b
          by (subst interfaces_loop.simps) simp
      next
        case (Some w)
        have "endpoints_loop w k len (p + length x) (d'\<lparr>ud_num_ep_configs := 0\<rparr>) =
            Option.bind (next_endpoints k ys) (\<lambda>confs. take_endpoints w confs (d'\<lparr>ud_num_ep_configs := 0\<rparr>))" for k
          using endpoints_loop_list [of "d'\<lparr>ud_num_ep_configs := 0\<rparr>" len "p + length x" y ys k k w] r b by simp
        then show ?thesis using True nof cd n Some by (subst interfaces_loop.simps) (simp add: bind_assoc)
      qed
    qed
  qed
qed

text \<open>
  C11: on a configuration of well-formed descriptors the loops of \<open>InitializePhase2\<close> return, and they
  compute what the list of descriptors says: the first interface a driver exists for, and as many
  endpoints behind it as it announces.  There is no result exactly when the list runs out of endpoints
  (the null pointer of the reader is dereferenced), the tables overflow or the memory for a driver is
  used up.
\<close>

theorem configuration_loops_equal_list:
  assumes "ud_buf d = concat (x # xs) @ rest" and "\<forall>y \<in> set (x # xs). desc_ok y"
  shows "interfaces_loop (int (length (concat (x # xs)))) 0 d e = find_interface xs d e"
proof (rule interfaces_loop_list)
  show "reader_at (ud_buf d) (int (length (concat (x # xs)))) 0 x xs"
    using assms unfolding reader_at_def
    by (intro conjI exI [of _ "[]"] exI [of _ rest]) auto
qed

text \<open>The configuration of a boot keyboard, and one whose second descriptor has length 0.\<close>

definition sample_descriptors :: "u8 list list" where
  "sample_descriptors =
    [[9, 2, 34, 0, 1, 1, 0, 0xA0, 50], [9, 4, 0, 0, 1, 3, 1, 1, 0], [9, 33, 0x11, 1, 0, 1, 34, 63, 0],
     [7, 5, 0x81, 3, 8, 0, 10]]"

definition sample_configuration :: usb_device where
  "sample_configuration = sample_device\<lparr>ud_buf := concat sample_descriptors @ replicate 222 0\<rparr>"

theorem configuration_loops_equal_list_witness:
  "\<exists>d' e'. interfaces_loop 34 0 sample_configuration sample_env = Some (Some 0, d', e')
    \<and> take (ud_num_ep_configs d') (ud_ep_configs d') =
      [\<lparr>ec_ep_id = 3, ec_ep_type = EpInterrupt, ec_max_packet_size = 8, ec_interval = 10\<rparr>]"
proof -
  have "map_option (\<lambda>(w, d', e'). (w, take (ud_num_ep_configs d') (ud_ep_configs d')))
      (find_interface (tl sample_descriptors) sample_configuration sample_env) =
    Some (Some 0, [\<lparr>ec_ep_id = 3, ec_ep_type = EpInterrupt, ec_max_packet_size = 8, ec_interval = 10\<rparr>])"
    by code_simp
  then obtain d' e' where f: "find_interface (tl sample_descriptors) sample_configuration sample_env = Some (Some 0, d', e')"
    "take (ud_num_ep_configs d') (ud_ep_configs d') =
      [\<lparr>ec_ep_id = 3, ec_ep_type = EpInterrupt, ec_max_packet_size = 8, ec_interval = 10\<rparr>]" by auto
  have "interfaces_loop (int (length (concat sample_descriptors))) 0 sample_configuration sample_env =
      find_interface (tl sample_descriptors) sample_configuration sample_env"
    using configuration_loops_equal_list [of sample_configuration "hd sample_descriptors" "tl sample_descriptors" "replicate 222 0" sample_env]
    by (simp add: sample_configuration_def sample_descriptors_def desc_ok_def)
  with f show ?thesis by (simp add: sample_descriptors_def)
qed

text \<open>
  C12: a descriptor of length 0 that is not the one looked for stops the initialization for good: the
  reader stays on it and the search never returns.
\<close>

theorem zero_length_descriptor_hangs:
  assumes "next_desc buf len p = Some (Some q, q)" and "q < length buf" and "buf ! q = 0"
    and "descriptor_dynamic_cast k buf q = Some False"
  shows "next_of k buf len p = None"
proof -
  have q: "next_desc buf len q = Some (Some q, q)"
    using assms(1-3) by (auto simp: next_desc_def arr_get_def Let_def split: Option.bind_splits if_splits)
  have "False" if "next_of k' b n p' = Some y" "k' = k" "b = buf" "n = len" "p' = q" for k' b n p' y
    using that
  proof (induction rule: next_of.raw_induct [rotated, consumes 1, case_names step])
    case (step loop k' b n p' y)
    then show ?case using q assms(4) by simp
  qed
  then have "next_of k buf len q = None" by (cases "next_of k buf len q") auto
  then show ?thesis using assms by (subst next_of.simps) simp
qed

theorem zero_length_descriptor_hangs_witness:
  "next_of InterfaceDesc [9, 2, 11, 0, 1, 1, 0, 0xA0, 50, 0, 99, 0] 11 0 = None"
  by (rule zero_length_descriptor_hangs [of _ _ 0 9])
     (simp_all add: next_desc_def arr_get_def descriptor_dynamic_cast_def)

end
