(* ===== verification/Xhci_Controller.thy ===== *)
theory Xhci_Controller
  imports Usb_Driver
begin

text \<open>
  The host controller driver: \<open>Kernel/usb/xhci/port.cpp\<close>, \<open>devmgr.cpp\<close> and \<open>xhci.cpp\<close>.

  The state holds what the driver keeps (the phase of every port, the port being addressed, the
  device manager, the rings) and the registers it reads.  The controller's answers are parameters:
  \<open>hw old v\<close> lists the values a port's register shows, one after the other, once \<open>v\<close> was written to
  it.  A polling loop has no result when the register never shows the value it waits for.
\<close>

section \<open>Ports\<close>

definition port_bit :: "string \<Rightarrow> u32 \<Rightarrow> bool" where
  "port_bit f w \<longleftrightarrow> field_get portsc_layout f w \<noteq> 0"

definition port_is_connected :: "u32 \<Rightarrow> bool" where
  "port_is_connected w \<longleftrightarrow> port_bit ''current_connect_status'' w"

definition port_is_enabled :: "u32 \<Rightarrow> bool" where
  "port_is_enabled w \<longleftrightarrow> port_bit ''port_enabled_disabled'' w"

definition port_is_connect_status_changed :: "u32 \<Rightarrow> bool" where
  "port_is_connect_status_changed w \<longleftrightarrow> port_bit ''connect_status_change'' w"

definition port_is_reset_changed :: "u32 \<Rightarrow> bool" where
  "port_is_reset_changed w \<longleftrightarrow> port_bit ''port_reset_change'' w"

definition port_speed :: "u32 \<Rightarrow> nat" where
  "port_speed w = unat (field_get portsc_layout ''port_speed'' w)"

text \<open>What \<open>Reset\<close> and \<open>CLEAR_STATUS_BIT\<close> write, and the loop that waits for the end of a reset.\<close>

definition port_reset_value :: "u32 \<Rightarrow> u32" where
  "port_reset_value w = (w AND 0x0e00c3e0) OR 0x00020010"

definition clear_status_bit :: "string \<Rightarrow> u32 \<Rightarrow> u32" where
  "clear_status_bit f w = field_set portsc_layout f 1 (w AND 0x0e01c3e0)"

definition wait_for :: "('a \<Rightarrow> bool) \<Rightarrow> 'a list \<Rightarrow> 'a option" where
  "wait_for P polls = List.find P polls"

type_synonym port_hw = "u32 \<Rightarrow> u32 \<Rightarrow> u32 list"

definition port_reset :: "port_hw \<Rightarrow> u32 \<Rightarrow> u32 option" where
  "port_reset hw w = wait_for (\<lambda>v. \<not> port_bit ''port_reset'' v) (hw w (port_reset_value w))"

definition written :: "port_hw \<Rightarrow> u32 \<Rightarrow> u32 \<Rightarrow> u32" where
  "written hw w v = (case hw w v of [] \<Rightarrow> v | vs \<Rightarrow> last vs)"

definition clear_connect_status_changed :: "port_hw \<Rightarrow> u32 \<Rightarrow> u32" where
  "clear_connect_status_changed hw w = written hw w (clear_status_bit ''connect_status_change'' w)"

definition clear_port_reset_change :: "port_hw \<Rightarrow> u32 \<Rightarrow> u32" where
  "clear_port_reset_change hw w = written hw w (clear_status_bit ''port_reset_change'' w)"

section \<open>The device manager\<close>

record device_manager =
  dm_max_slots :: nat
  dm_devices :: "usb_device option list"
  dm_contexts_addr :: u64
  dm_contexts :: "u64 list"

definition devmgr_initialize :: "nat \<Rightarrow> usb_env \<Rightarrow> error_code \<times> device_manager \<times> usb_env" where
  "devmgr_initialize max_slots e =
    (let dm = \<lparr>dm_max_slots = max_slots, dm_devices = [], dm_contexts_addr = 0, dm_contexts = []\<rparr>;
         n = of_nat (max_slots + 1) in
     case alloc_array (ue_pool e) 8 n 0 0 (ue_alloc_ptr e) of
       (None, p) \<Rightarrow> (KNoEnoughMemory, dm, e\<lparr>ue_alloc_ptr := p\<rparr>)
     | (Some a, p) \<Rightarrow>
         (case alloc_array (ue_pool e) 8 n 64 4096 p of
            (None, p') \<Rightarrow> (KNoEnoughMemory, dm, e\<lparr>ue_alloc_ptr := free_mem a p'\<rparr>)
          | (Some c, p') \<Rightarrow>
              (KSuccess,
               dm\<lparr>dm_devices := replicate (max_slots + 1) None, dm_contexts_addr := c,
                  dm_contexts := replicate (max_slots + 1) 0\<rparr>,
               e\<lparr>ue_alloc_ptr := p'\<rparr>)))"

text \<open>The searches over the slots 1 to \<open>max_slots_\<close>: the slot of the first device that satisfies \<open>P\<close>.\<close>

fun find_slot :: "(usb_device \<Rightarrow> bool) \<Rightarrow> nat list \<Rightarrow> device_manager \<Rightarrow> nat option option" where
  "find_slot P [] dm = Some None"
| "find_slot P (i # is) dm = do {
     dev \<leftarrow> arr_get (dm_devices dm) i;
     (case dev of
        None \<Rightarrow> find_slot P is dm
      | Some d \<Rightarrow> if P d then Some (Some i) else find_slot P is dm)
   }"

definition device_port :: "usb_device \<Rightarrow> u8" where
  "device_port d = ucast (field_get slot_context_layout ''root_hub_port_num'' (dc_slot_context (xd_ctx d)))"

definition find_by_port :: "u8 \<Rightarrow> device_manager \<Rightarrow> nat option option" where
  "find_by_port port_num dm = find_slot (\<lambda>d. device_port d = port_num) [1..<dm_max_slots dm + 1] dm"

definition find_by_state :: "slot_state \<Rightarrow> device_manager \<Rightarrow> nat option option" where
  "find_by_state st dm = find_slot (\<lambda>d. xd_state d = st) [1..<dm_max_slots dm + 1] dm"

definition find_by_slot :: "u8 \<Rightarrow> device_manager \<Rightarrow> usb_device option option" where
  "find_by_slot slot_id dm =
    (if dm_max_slots dm < unat slot_id then Some None else arr_get (dm_devices dm) (unat slot_id))"

definition put_device :: "u8 \<Rightarrow> usb_device option \<Rightarrow> device_manager \<Rightarrow> device_manager option" where
  "put_device slot_id d dm =
    map_option (\<lambda>ds. dm\<lparr>dm_devices := ds\<rparr>) (arr_set (dm_devices dm) (unat slot_id) d)"

definition alloc_device :: "u8 \<Rightarrow> device_manager \<Rightarrow> usb_env \<Rightarrow> (error_code \<times> device_manager \<times> usb_env) option" where
  "alloc_device slot_id dm e =
    (if dm_max_slots dm < unat slot_id then Some (KInvalidSlotID, dm, e)
     else do {
       old \<leftarrow> arr_get (dm_devices dm) (unat slot_id);
       if old \<noteq> None then Some (KAlreadyAllocated, dm, e)
       else
         (case alloc_array (ue_pool e) (abi_device_size (ue_abi e)) 1 64 4096 (ue_alloc_ptr e) of
            (None, p) \<Rightarrow> None
          | (Some a, p) \<Rightarrow>
              map_option (\<lambda>dm'. (KSuccess, dm', e\<lparr>ue_alloc_ptr := p\<rparr>))
                (put_device slot_id (Some (xhci_device_new a slot_id)) dm))
     })"

definition load_dcbaa :: "u8 \<Rightarrow> device_manager \<Rightarrow> usb_env \<Rightarrow> (error_code \<times> device_manager) option" where
  "load_dcbaa slot_id dm e =
    (if dm_max_slots dm < unat slot_id then Some (KInvalidSlotID, dm)
     else do {
       dev \<leftarrow> arr_get (dm_devices dm) (unat slot_id);
       d \<leftarrow> dev;
       cs \<leftarrow> arr_set (dm_contexts dm) (unat slot_id) (xd_addr d + abi_device_ctx (ue_abi e));
       Some (KSuccess, dm\<lparr>dm_contexts := cs\<rparr>)
     })"

definition remove_device :: "u8 \<Rightarrow> device_manager \<Rightarrow> (error_code \<times> device_manager) option" where
  "remove_device slot_id dm = do {
     cs \<leftarrow> arr_set (dm_contexts dm) (unat slot_id) 0;
     dm' \<leftarrow> put_device slot_id None (dm\<lparr>dm_contexts := cs\<rparr>);
     Some (KSuccess, dm')
   }"

section \<open>The controller\<close>

datatype config_phase =
    NotConnected
  | WaitingAddressed
  | ResettingPort
  | EnablingSlot
  | AddressingDevice
  | InitializingDevice
  | ConfiguringEndpoints
  | Configured

text \<open>\<open>hc_phase\<close> is \<open>port_config_phase\<close>, an array over all values of its 8-bit index.\<close>

record controller =
  hc_max_ports :: nat
  hc_devmgr :: device_manager
  hc_cr :: ring
  hc_er :: event_ring
  hc_portsc :: "u32 list"
  hc_doorbells :: "(nat \<times> u32) list"
  hc_phase :: "u8 \<Rightarrow> config_phase"
  hc_addressing_port :: u8
  hc_env :: usb_env

definition set_phase :: "u8 \<Rightarrow> config_phase \<Rightarrow> controller \<Rightarrow> controller" where
  "set_phase port_id ph s = s\<lparr>hc_phase := (hc_phase s)(port_id := ph)\<rparr>"

text \<open>A port's register, \<open>PortRegisterSets()[port_num - 1]\<close>.\<close>

definition read_portsc :: "u8 \<Rightarrow> controller \<Rightarrow> u32 option" where
  "read_portsc n s = (if n = 0 then None else arr_get (hc_portsc s) (unat n - 1))"

definition put_portsc :: "u8 \<Rightarrow> u32 \<Rightarrow> controller \<Rightarrow> controller option" where
  "put_portsc n w s =
    (if n = 0 then None else map_option (\<lambda>ws. s\<lparr>hc_portsc := ws\<rparr>) (arr_set (hc_portsc s) (unat n - 1) w))"

definition push_command :: "trb \<Rightarrow> controller \<Rightarrow> controller option" where
  "push_command cmd s = do {
     (_, r) \<leftarrow> ring_push cmd (hc_cr s);
     Some (s\<lparr>hc_cr := r, hc_doorbells := hc_doorbells s @ [(0, doorbell_ring 0 0)]\<rparr>)
   }"

definition hc_put_device :: "u8 \<Rightarrow> usb_device \<Rightarrow> usb_env \<Rightarrow> controller \<Rightarrow> controller option" where
  "hc_put_device slot_id d e s =
    map_option (\<lambda>dm. s\<lparr>hc_devmgr := dm, hc_env := e\<rparr>) (put_device slot_id (Some d) (hc_devmgr s))"

section \<open>From a connected port to an addressed device\<close>

definition initialize_slot_context :: "u8 \<Rightarrow> u32 \<Rightarrow> xhci_context \<Rightarrow> xhci_context" where
  "initialize_slot_context port_num portsc =
    fields_set slot_context_layout
      [(''route_string'', 0), (''root_hub_port_num'', ucast port_num), (''context_entries'', 1),
       (''speed'', of_nat (port_speed portsc))]"

definition max_packet_size_for_control_pipe :: "nat \<Rightarrow> nat" where
  "max_packet_size_for_control_pipe slot_speed =
    (if slot_speed = 4 then 512 else if slot_speed = 3 then 64 else 8)"

definition initialize_ep0_context :: "u64 \<Rightarrow> nat \<Rightarrow> xhci_context \<Rightarrow> xhci_context" where
  "initialize_ep0_context ring_buffer max_packet_size c =
    fields_set endpoint_context_layout
      [(''dequeue_cycle_state'', 1), (''interval'', 0), (''max_primary_streams'', 0), (''mult'', 0),
       (''error_count'', 3)]
      (ec_set_transfer_ring_buffer ring_buffer
        (fields_set endpoint_context_layout
          [(''ep_type'', 4), (''max_packet_size'', of_nat max_packet_size), (''max_burst_size'', 0)] c))"

definition reset_port :: "port_hw \<Rightarrow> u8 \<Rightarrow> controller \<Rightarrow> (error_code \<times> controller) option" where
  "reset_port hw n s = do {
     w \<leftarrow> read_portsc n s;
     if \<not> port_is_connected w then Some (KSuccess, s)
     else if hc_addressing_port s \<noteq> 0 then Some (KSuccess, set_phase n WaitingAddressed s)
     else if hc_phase s n \<noteq> NotConnected \<and> hc_phase s n \<noteq> WaitingAddressed then Some (KInvalidPhase, s)
     else do {
       w' \<leftarrow> port_reset hw w;
       s' \<leftarrow> put_portsc n w' (set_phase n ResettingPort (s\<lparr>hc_addressing_port := n\<rparr>));
       Some (KSuccess, s')
     }
   }"

definition enable_slot :: "port_hw \<Rightarrow> u8 \<Rightarrow> controller \<Rightarrow> (error_code \<times> controller) option" where
  "enable_slot hw n s = do {
     w \<leftarrow> read_portsc n s;
     if port_is_enabled w \<and> port_is_reset_changed w
     then do {
       s1 \<leftarrow> put_portsc n (clear_port_reset_change hw w) s;
       s2 \<leftarrow> push_command enable_slot_command_trb_new (set_phase n EnablingSlot s1);
       Some (KSuccess, s2)
     }
     else Some (KSuccess, s)
   }"

text \<open>The contexts \<open>AddressDevice\<close> fills in for the port and its control endpoint.\<close>

definition address_contexts :: "u8 \<Rightarrow> u32 \<Rightarrow> u64 \<Rightarrow> input_context \<Rightarrow> input_context option" where
  "address_contexts n portsc ring_buffer c0 = do {
     (i, c) \<leftarrow> enable_endpoint (dci_of_number 0 False) (enable_slot_context (c0\<lparr>ic_control := icc_zero\<rparr>));
     (let slot = initialize_slot_context n portsc (ic_slot_context c);
          mps = max_packet_size_for_control_pipe (unat (field_get slot_context_layout ''speed'' slot))
      in do {
        ep \<leftarrow> arr_get (ic_ep_contexts c) i;
        eps \<leftarrow> arr_set (ic_ep_contexts c) i (initialize_ep0_context ring_buffer mps ep);
        Some (c\<lparr>ic_slot_context := slot, ic_ep_contexts := eps\<rparr>)
      })
   }"

definition address_device :: "u8 \<Rightarrow> u8 \<Rightarrow> controller \<Rightarrow> (error_code \<times> controller) option" where
  "address_device n slot_id s0 = do {
     (_, dm, e) \<leftarrow> alloc_device slot_id (hc_devmgr s0) (hc_env s0);
     (let s = s0\<lparr>hc_devmgr := dm, hc_env := e\<rparr> in do {
       dev \<leftarrow> find_by_slot slot_id dm;
       (case dev of
          None \<Rightarrow> Some (KInvalidSlotID, s)
        | Some d \<Rightarrow> do {
            portsc \<leftarrow> read_portsc n s;
            (tr, d1, e1) \<leftarrow> alloc_transfer_ring (dci_of_number 0 False) 32 d e;
            r \<leftarrow> tr;
            ctx \<leftarrow> address_contexts n portsc (rg_base r) (xd_input_ctx d1);
            s1 \<leftarrow> hc_put_device slot_id (d1\<lparr>xd_input_ctx := ctx\<rparr>) e1 s;
            (_, dm') \<leftarrow> load_dcbaa slot_id (hc_devmgr s1) e1;
            s2 \<leftarrow> push_command
              (address_device_command_trb_new (xd_addr d + abi_device_input_ctx (ue_abi e)) slot_id)
              (set_phase n AddressingDevice (s1\<lparr>hc_devmgr := dm'\<rparr>));
            Some (KSuccess, s2)
          })
     })
   }"

definition initialize_device :: "u8 \<Rightarrow> u8 \<Rightarrow> controller \<Rightarrow> (error_code \<times> controller) option" where
  "initialize_device n slot_id s = do {
     dev \<leftarrow> find_by_slot slot_id (hc_devmgr s);
     (case dev of
        None \<Rightarrow> Some (KInvalidSlotID, s)
      | Some d \<Rightarrow> do {
          (_, d') \<leftarrow> start_initialize d (hc_env s);
          s' \<leftarrow> hc_put_device slot_id d' (hc_env s) (set_phase n InitializingDevice s);
          Some (KSuccess, s')
        })
   }"

section \<open>Configuring the endpoints\<close>

definition most_significant_bit :: "u32 \<Rightarrow> int" where
  "most_significant_bit v = (if v = 0 then - 1 else int (Max (set (filter (bit v) [0..<32]))))"

definition convert_interval :: "nat \<Rightarrow> endpoint_type \<Rightarrow> int \<Rightarrow> int" where
  "convert_interval speed t interval =
    (if speed = 1 \<or> speed = 2
     then (if t = EpIsochronous then interval + 2 else most_significant_bit (of_int interval) + 3)
     else interval - 1)"

definition ep_type_field :: "endpoint_type \<Rightarrow> bool \<Rightarrow> nat" where
  "ep_type_field t dir_in =
    (case t of
       EpControl \<Rightarrow> 4
     | EpIsochronous \<Rightarrow> if dir_in then 5 else 1
     | EpBulk \<Rightarrow> if dir_in then 6 else 2
     | EpInterrupt \<Rightarrow> if dir_in then 7 else 3)"

definition endpoint_context :: "nat \<Rightarrow> endpoint_config \<Rightarrow> u64 \<Rightarrow> xhci_context \<Rightarrow> xhci_context" where
  "endpoint_context speed conf ring_buffer c =
    fields_set endpoint_context_layout
      [(''dequeue_cycle_state'', 1), (''max_primary_streams'', 0), (''mult'', 0), (''error_count'', 3)]
      (ec_set_transfer_ring_buffer ring_buffer
        (fields_set endpoint_context_layout
          [(''ep_type'', of_nat (ep_type_field (ec_ep_type conf) (ep_is_in (ec_ep_id conf)))),
           (''max_packet_size'', of_nat (ec_max_packet_size conf)),
           (''interval'', of_int (convert_interval speed (ec_ep_type conf) (int (ec_interval conf)))),
           (''average_trb_length'', 1)] c))"

fun configure_loop :: "nat \<Rightarrow> endpoint_config list \<Rightarrow> usb_device \<Rightarrow> usb_env \<Rightarrow> (usb_device \<times> usb_env) option" where
  "configure_loop speed [] d e = Some (d, e)"
| "configure_loop speed (conf # confs) d e = do {
     (i, c) \<leftarrow> enable_endpoint (dci_of_endpoint (ec_ep_id conf)) (xd_input_ctx d);
     (tr, d1, e1) \<leftarrow> alloc_transfer_ring (dci_of_endpoint (ec_ep_id conf)) 32 d e;
     r \<leftarrow> tr;
     ep \<leftarrow> arr_get (ic_ep_contexts c) i;
     eps \<leftarrow> arr_set (ic_ep_contexts c) i (endpoint_context speed conf (rg_base r) ep);
     configure_loop speed confs (d1\<lparr>xd_input_ctx := c\<lparr>ic_ep_contexts := eps\<rparr>\<rparr>) e1
   }"

definition configure_endpoints :: "u8 \<Rightarrow> usb_device \<Rightarrow> controller \<Rightarrow> (error_code \<times> controller) option" where
  "configure_endpoints slot_id d0 s =
    (let c = enable_slot_context ((xd_input_ctx d0)\<lparr>ic_control := icc_zero,
               ic_slot_context := dc_slot_context (xd_ctx d0)\<rparr>);
         d = d0\<lparr>xd_input_ctx := c\<lparr>ic_slot_context :=
               field_set slot_context_layout ''context_entries'' 31 (ic_slot_context c)\<rparr>\<rparr>;
         port_id = device_port d
     in do {
       portsc \<leftarrow> read_portsc port_id s;
       if port_speed portsc = 0 \<or> 5 < port_speed portsc
       then map_option (\<lambda>s'. (KUnknownXHCISpeedID, s')) (hc_put_device slot_id d (hc_env s) s)
       else if length (ud_ep_configs d) < ud_num_ep_configs d then None
       else do {
         (d1, e1) \<leftarrow> configure_loop (port_speed portsc)
           (take (ud_num_ep_configs d) (ud_ep_configs d)) d (hc_env s);
         s1 \<leftarrow> hc_put_device slot_id d1 e1 s;
         s2 \<leftarrow> push_command
           (configure_endpoint_command_trb_new (xd_addr d1 + abi_device_input_ctx (ue_abi e1)) (xd_slot_id d1))
           (set_phase port_id ConfiguringEndpoints s1);
         Some (KSuccess, s2)
       }
     })"

definition complete_configuration :: "u8 \<Rightarrow> u8 \<Rightarrow> controller \<Rightarrow> (error_code \<times> controller) option" where
  "complete_configuration n slot_id s = do {
     dev \<leftarrow> find_by_slot slot_id (hc_devmgr s);
     (case dev of
        None \<Rightarrow> Some (KInvalidSlotID, s)
      | Some d \<Rightarrow> do {
          (_, d') \<leftarrow> on_endpoints_configured d;
          s' \<leftarrow> hc_put_device slot_id d' (hc_env s) s;
          Some (KSuccess, set_phase n Configured s')
        })
   }"

section \<open>Events\<close>

definition on_port_status_change :: "port_hw \<Rightarrow> trb \<Rightarrow> controller \<Rightarrow> (error_code \<times> controller) option" where
  "on_port_status_change hw t s =
    (let port_id = ucast (field_get port_status_change_event_trb_layout ''port_id'' t) in
     case hc_phase s port_id of
       NotConnected \<Rightarrow> reset_port hw port_id s
     | ResettingPort \<Rightarrow> enable_slot hw port_id s
     | _ \<Rightarrow> Some (KInvalidPhase, s))"

definition on_transfer_event :: "trb \<Rightarrow> controller \<Rightarrow> (error_code \<times> controller) option" where
  "on_transfer_event t s =
    (let slot_id = ucast (field_get transfer_event_trb_layout ''slot_id'' t) in
     do {
       dev \<leftarrow> find_by_slot slot_id (hc_devmgr s);
       (case dev of
          None \<Rightarrow> Some (KInvalidSlotID, s)
        | Some d \<Rightarrow> do {
            (err, d', e') \<leftarrow> on_transfer_event_received t d (hc_env s);
            s' \<leftarrow> hc_put_device slot_id d' e' s;
            if is_error err then Some (err, s')
            else if ud_is_initialized d' \<and> hc_phase s' (device_port d') = InitializingDevice
            then configure_endpoints slot_id d' s'
            else Some (KSuccess, s')
          })
     })"

definition waiting_port :: "controller \<Rightarrow> u8 option" where
  "waiting_port s = List.find (\<lambda>p. hc_phase s p = WaitingAddressed) (map of_nat [0..<256])"

definition on_enable_slot_completed :: "u8 \<Rightarrow> controller \<Rightarrow> (error_code \<times> controller) option" where
  "on_enable_slot_completed slot_id s =
    (if hc_phase s (hc_addressing_port s) \<noteq> EnablingSlot then Some (KInvalidPhase, s)
     else address_device (hc_addressing_port s) slot_id s)"

definition on_address_device_completed :: "port_hw \<Rightarrow> u8 \<Rightarrow> controller \<Rightarrow> (error_code \<times> controller) option" where
  "on_address_device_completed hw slot_id s = do {
     dev \<leftarrow> find_by_slot slot_id (hc_devmgr s);
     (case dev of
        None \<Rightarrow> Some (KInvalidSlotID, s)
      | Some d \<Rightarrow>
          (let port_id = device_port d in
           if port_id \<noteq> hc_addressing_port s then Some (KInvalidPhase, s)
           else if hc_phase s port_id \<noteq> AddressingDevice then Some (KInvalidPhase, s)
           else
             (let s1 = s\<lparr>hc_addressing_port := 0\<rparr> in
              case waiting_port s1 of
                None \<Rightarrow> initialize_device port_id slot_id s1
              | Some i \<Rightarrow> do {
                  (err, s2) \<leftarrow> reset_port hw i s1;
                  if is_error err then Some (err, s2) else initialize_device port_id slot_id s2
                })))
   }"

definition on_configure_endpoint_completed :: "u8 \<Rightarrow> controller \<Rightarrow> (error_code \<times> controller) option" where
  "on_configure_endpoint_completed slot_id s = do {
     dev \<leftarrow> find_by_slot slot_id (hc_devmgr s);
     (case dev of
        None \<Rightarrow> Some (KInvalidSlotID, s)
      | Some d \<Rightarrow>
          (if hc_phase s (device_port d) \<noteq> ConfiguringEndpoints then Some (KInvalidPhase, s)
           else complete_configuration (device_port d) slot_id s))
   }"

definition on_command_completion :: "port_hw \<Rightarrow> trb \<Rightarrow> controller \<Rightarrow> (error_code \<times> controller) option" where
  "on_command_completion hw t s = do {
     issuer \<leftarrow> ring_trb (command_completion_event_trb_pointer t) (hc_cr s);
     (let issuer_type = field_get trb_layout ''trb_type'' issuer;
          slot_id = ucast (field_get command_completion_event_trb_layout ''slot_id'' t) in
      if issuer_type = trb_type_code EnableSlotCommandTrb then on_enable_slot_completed slot_id s
      else if issuer_type = trb_type_code AddressDeviceCommandTrb then on_address_device_completed hw slot_id s
      else if issuer_type = trb_type_code ConfigureEndpointCommandTrb then on_configure_endpoint_completed slot_id s
      else Some (KInvalidPhase, s))
   }"

definition on_event :: "port_hw \<Rightarrow> trb \<Rightarrow> controller \<Rightarrow> (error_code \<times> controller) option" where
  "on_event hw t s =
    (if trb_dynamic_cast TransferEventTrb t \<noteq> None then on_transfer_event t s
     else if trb_dynamic_cast PortStatusChangeEventTrb t \<noteq> None then on_port_status_change hw t s
     else if trb_dynamic_cast CommandCompletionEventTrb t \<noteq> None then on_command_completion hw t s
     else Some (KNotImplemented, s))"

definition process_event :: "port_hw \<Rightarrow> controller \<Rightarrow> (error_code \<times> controller) option" where
  "process_event hw s = do {
     has_front \<leftarrow> er_has_front (hc_er s);
     if \<not> has_front then Some (KSuccess, s)
     else do {
       t \<leftarrow> er_front (hc_er s);
       (err, s') \<leftarrow> on_event hw t s;
       Some (err, s'\<lparr>hc_er := er_pop (hc_er s')\<rparr>)
     }
   }"

partial_function (option) process_events :: "port_hw \<Rightarrow> controller \<Rightarrow> controller option" where
  "process_events hw s =
    Option.bind (er_has_front (hc_er s)) (\<lambda>has_front.
      if has_front
      then Option.bind (process_event hw s) (\<lambda>(err, s'). process_events hw s')
      else Some s)"

text \<open>\<open>ConfigurePort\<close>, and the loop over all ports at the end of \<open>Initialize\<close>, which only logs errors.\<close>

definition configure_port :: "port_hw \<Rightarrow> u8 \<Rightarrow> controller \<Rightarrow> (error_code \<times> controller) option" where
  "configure_port hw n s =
    (if hc_phase s n = NotConnected then reset_port hw n s else Some (KSuccess, s))"

fun configure_ports :: "port_hw \<Rightarrow> u8 list \<Rightarrow> controller \<Rightarrow> controller option" where
  "configure_ports hw [] s = Some s"
| "configure_ports hw (n # ns) s = do {
     w \<leftarrow> read_portsc n s;
     if port_is_connected w
     then do { (_, s') \<leftarrow> configure_port hw n s; configure_ports hw ns s' }
     else configure_ports hw ns s
   }"

end
