(* ===== verification/Xhci_Phases.thy ===== *)
theory Xhci_Phases
  imports Xhci_Controller Usb_Transfer
begin

text \<open>
  The phases of the ports.  Between the reset of a port and the end of its addressing the controller
  must work for that port alone; the driver keeps the port's number in \<open>addressing_port\<close>.  The
  handlers are related to a small machine over the phases and this number, and what it guarantees is
  proved there.
\<close>

section \<open>The machine\<close>

type_synonym phase_state = "(u8 \<Rightarrow> config_phase) \<times> u8"

definition phase_view :: "controller \<Rightarrow> phase_state" where
  "phase_view s = (hc_phase s, hc_addressing_port s)"

inductive phase_step :: "phase_state \<Rightarrow> phase_state \<Rightarrow> bool" where
  ps_stay: "phase_step v v"
| ps_wait: "a \<noteq> 0 \<Longrightarrow> ph n = NotConnected \<Longrightarrow> phase_step (ph, a) (ph(n := WaitingAddressed), a)"
| ps_reset: "ph n = NotConnected \<Longrightarrow> n \<noteq> 0 \<Longrightarrow> phase_step (ph, 0) (ph(n := ResettingPort), n)"
| ps_enable: "ph n = ResettingPort \<Longrightarrow> phase_step (ph, a) (ph(n := EnablingSlot), a)"
| ps_address: "ph a = EnablingSlot \<Longrightarrow> phase_step (ph, a) (ph(a := AddressingDevice), a)"
| ps_addressed: "ph a = AddressingDevice \<Longrightarrow> phase_step (ph, a) (ph(a := InitializingDevice), 0)"
| ps_addressed_next: "ph a = AddressingDevice \<Longrightarrow> ph n = WaitingAddressed \<Longrightarrow> n \<noteq> 0 \<Longrightarrow>
    phase_step (ph, a) (ph(a := InitializingDevice, n := ResettingPort), n)"
| ps_configure: "ph n = InitializingDevice \<Longrightarrow> phase_step (ph, a) (ph(n := ConfiguringEndpoints), a)"
| ps_complete: "ph n = ConfiguringEndpoints \<Longrightarrow> phase_step (ph, a) (ph(n := Configured), a)"

inductive_cases phase_stepE: "phase_step v v'"

text \<open>The phases in which the controller belongs to one port.\<close>

definition addressing_phase :: "config_phase \<Rightarrow> bool" where
  "addressing_phase ph \<longleftrightarrow> ph = ResettingPort \<or> ph = EnablingSlot \<or> ph = AddressingDevice"

definition phases_ok :: "phase_state \<Rightarrow> bool" where
  "phases_ok v \<longleftrightarrow> (\<forall>p. addressing_phase (fst v p) \<longleftrightarrow> p = snd v \<and> p \<noteq> 0)"

lemma addressing_phase_simps [simp]:
  "addressing_phase ResettingPort" "addressing_phase EnablingSlot" "addressing_phase AddressingDevice"
  "\<not> addressing_phase NotConnected" "\<not> addressing_phase WaitingAddressed"
  "\<not> addressing_phase InitializingDevice" "\<not> addressing_phase ConfiguringEndpoints"
  "\<not> addressing_phase Configured"
  by (simp_all add: addressing_phase_def)

text \<open>A step changes one port, or hands the controller from one port to the next.\<close>

lemma phases_ok_upd:
  "phases_ok (ph, a) \<Longrightarrow> addressing_phase x = addressing_phase (ph n) \<Longrightarrow> phases_ok (ph(n := x), a)"
  by (simp add: phases_ok_def)

lemma phases_ok_enter: "phases_ok (ph, 0) \<Longrightarrow> n \<noteq> 0 \<Longrightarrow> addressing_phase x \<Longrightarrow> phases_ok (ph(n := x), n)"
  by (simp add: phases_ok_def)

lemma phases_ok_leave: "phases_ok (ph, a) \<Longrightarrow> \<not> addressing_phase x \<Longrightarrow> phases_ok (ph(a := x), 0)"
  by (simp add: phases_ok_def)

lemma phase_step_ok: "phase_step v v' \<Longrightarrow> phases_ok v \<Longrightarrow> phases_ok v'"
proof (induction rule: phase_step.induct)
  case (ps_addressed_next ph a n)
  then show ?case by (intro phases_ok_enter phases_ok_leave) simp_all
qed (simp_all add: phases_ok_upd phases_ok_enter phases_ok_leave)

section \<open>What the handlers do to the phases\<close>

named_theorems phase_simps

lemma view_simps [phase_simps]:
  "phase_view (set_phase n ph s) = ((hc_phase s)(n := ph), hc_addressing_port s)"
  "phase_view (s\<lparr>hc_devmgr := dm\<rparr>) = phase_view s" "phase_view (s\<lparr>hc_env := e\<rparr>) = phase_view s"
  "phase_view (s\<lparr>hc_er := er\<rparr>) = phase_view s" "phase_view (s\<lparr>hc_portsc := ws\<rparr>) = phase_view s"
  "phase_view (s\<lparr>hc_cr := r\<rparr>) = phase_view s" "phase_view (s\<lparr>hc_doorbells := ds\<rparr>) = phase_view s"
  "phase_view (s\<lparr>hc_addressing_port := a\<rparr>) = (hc_phase s, a)"
  by (simp_all add: phase_view_def set_phase_def)

lemma phase_of_view: "hc_phase s = fst (phase_view s)" "hc_addressing_port s = snd (phase_view s)"
  by (simp_all add: phase_view_def)

lemma push_command_view: "push_command cmd s = Some s' \<Longrightarrow> phase_view s' = phase_view s \<and> hc_devmgr s' = hc_devmgr s"
  by (auto simp: push_command_def phase_simps split: Option.bind_splits)

lemma put_portsc_view: "put_portsc n w s = Some s' \<Longrightarrow> phase_view s' = phase_view s \<and> hc_devmgr s' = hc_devmgr s \<and> n \<noteq> 0"
  by (auto simp: put_portsc_def phase_simps split: if_splits)

lemma hc_put_device_view: "hc_put_device slot d e s = Some s' \<Longrightarrow> phase_view s' = phase_view s"
  by (auto simp: hc_put_device_def phase_simps)

lemma set_phase_devmgr [simp]: "hc_devmgr (set_phase n ph s) = hc_devmgr s"
  by (simp add: set_phase_def)

lemmas phase_frames = push_command_view put_portsc_view hc_put_device_view

lemma reset_port_view:
  assumes "reset_port hw n s = Some (err, s')" and "phase_view s = (ph, a)"
  shows "hc_devmgr s' = hc_devmgr s \<and>
    (phase_view s' = (ph, a)
     \<or> a \<noteq> 0 \<and> phase_view s' = (ph(n := WaitingAddressed), a)
     \<or> a = 0 \<and> n \<noteq> 0 \<and> (ph n = NotConnected \<or> ph n = WaitingAddressed) \<and> phase_view s' = (ph(n := ResettingPort), n))
    \<and> (ph n = WaitingAddressed \<longrightarrow> err = KSuccess)"
  using assms
  by (auto simp: reset_port_def phase_of_view phase_simps split: Option.bind_splits if_splits dest!: put_portsc_view)

lemma enable_slot_view:
  assumes "enable_slot hw n s = Some (err, s')" and "phase_view s = (ph, a)"
  shows "phase_view s' = (ph, a) \<or> phase_view s' = (ph(n := EnablingSlot), a)"
  using assms
  by (auto simp: enable_slot_def phase_simps split: Option.bind_splits if_splits dest!: phase_frames)
     (auto simp: phase_view_def set_phase_def)

lemma address_device_view:
  assumes "address_device n slot s = Some (err, s')" and "phase_view s = (ph, a)"
  shows "phase_view s' = (ph, a) \<or> phase_view s' = (ph(n := AddressingDevice), a)"
  using assms
  by (auto simp: address_device_def phase_simps Let_def split: Option.bind_splits option.splits dest!: phase_frames)
     (auto simp: phase_view_def set_phase_def)

lemma initialize_device_view:
  assumes "initialize_device n slot s = Some (err, s')" and "phase_view s = (ph, a)"
    and "find_by_slot slot (hc_devmgr s) = Some (Some d)"
  shows "phase_view s' = (ph(n := InitializingDevice), a)"
  using assms
  by (auto simp: initialize_device_def phase_simps split: Option.bind_splits option.splits dest!: hc_put_device_view)
     (auto simp: phase_view_def set_phase_def)

lemma configure_endpoints_view:
  assumes "configure_endpoints slot d s = Some (err, s')" and "phase_view s = (ph, a)"
  shows "phase_view s' = (ph, a) \<or> phase_view s' = (ph(device_port d := ConfiguringEndpoints), a)"
  using assms
  by (auto simp: configure_endpoints_def device_port_def phase_simps Let_def
        split: Option.bind_splits option.splits if_splits dest!: phase_frames)
     (auto simp: phase_view_def set_phase_def)

lemma complete_configuration_view:
  assumes "complete_configuration n slot s = Some (err, s')" and "phase_view s = (ph, a)"
  shows "phase_view s' = (ph, a) \<or> phase_view s' = (ph(n := Configured), a)"
  using assms
  by (auto simp: complete_configuration_def phase_simps split: Option.bind_splits option.splits dest!: hc_put_device_view)
     (auto simp: phase_view_def set_phase_def)

section \<open>The handlers follow the machine\<close>

lemma phase_step_view:
  "phase_view s = (ph, a) \<Longrightarrow> phase_step (ph, a) v \<Longrightarrow> phase_view s' = v \<Longrightarrow> phase_step (phase_view s) (phase_view s')"
  by simp

lemma on_port_status_change_step:
  assumes "on_port_status_change hw t s = Some (err, s')"
  shows "phase_step (phase_view s) (phase_view s')"
proof -
  obtain ph a where v: "phase_view s = (ph, a)" by (cases "phase_view s")
  let ?n = "ucast (field_get port_status_change_event_trb_layout ''port_id'' t) :: u8"
  have ph: "hc_phase s ?n = ph ?n" using v by (simp add: phase_of_view)
  consider "ph ?n = NotConnected" "reset_port hw ?n s = Some (err, s')"
    | "ph ?n = ResettingPort" "enable_slot hw ?n s = Some (err, s')" | "s' = s"
    using assms ph by (auto simp: on_port_status_change_def Let_def split: config_phase.splits)
  then show ?thesis
  proof cases
    case 1
    then show ?thesis using reset_port_view [OF 1(2) v] v by (auto intro: phase_step.intros)
  next
    case 2
    then show ?thesis using enable_slot_view [OF 2(2) v] v by (auto intro: phase_step.intros)
  qed (simp add: ps_stay)
qed

lemma on_transfer_event_step:
  assumes "on_transfer_event t s = Some (err, s')"
  shows "phase_step (phase_view s) (phase_view s')"
proof -
  obtain ph a where v: "phase_view s = (ph, a)" by (cases "phase_view s")
  have "phase_view s' = phase_view s \<or>
    (\<exists>slot d s1. phase_view s1 = phase_view s \<and> hc_phase s1 (device_port d) = InitializingDevice
      \<and> configure_endpoints slot d s1 = Some (err, s'))"
    using assms
    by (auto simp: on_transfer_event_def Let_def split: Option.bind_splits option.splits if_splits
        dest!: hc_put_device_view)
  then show ?thesis
  proof (elim disjE exE conjE)
    fix slot d s1
    assume 1: "phase_view s1 = phase_view s" "hc_phase s1 (device_port d) = InitializingDevice"
      "configure_endpoints slot d s1 = Some (err, s')"
    with v configure_endpoints_view [OF 1(3), of ph a] show ?thesis
      by (auto simp: phase_of_view intro: phase_step.intros)
  qed (simp add: ps_stay)
qed

lemma on_address_device_completed_step:
  assumes "on_address_device_completed hw slot s = Some (err, s')"
  shows "phase_step (phase_view s) (phase_view s')"
proof -
  obtain ph a where v: "phase_view s = (ph, a)" by (cases "phase_view s")
  let ?s1 = "s\<lparr>hc_addressing_port := 0\<rparr>"
  have v1: "phase_view ?s1 = (ph, 0)" using v by (simp add: phase_simps phase_of_view)
  have "s' = s \<or> (\<exists>d. find_by_slot slot (hc_devmgr s) = Some (Some d) \<and> ph a = AddressingDevice \<and>
    (case waiting_port ?s1 of
       None \<Rightarrow> initialize_device a slot ?s1 = Some (err, s')
     | Some i \<Rightarrow> (case reset_port hw i ?s1 of None \<Rightarrow> False
         | Some (err2, s2) \<Rightarrow> if is_error err2 then s' = s2 else initialize_device a slot s2 = Some (err, s'))))"
    using assms v
    by (auto simp: on_address_device_completed_def Let_def phase_of_view split: Option.bind_splits option.splits if_splits)
  then show ?thesis
  proof (elim disjE exE conjE)
    fix d
    assume d: "find_by_slot slot (hc_devmgr s) = Some (Some d)" and pa: "ph a = AddressingDevice"
      and c: "case waiting_port ?s1 of
       None \<Rightarrow> initialize_device a slot ?s1 = Some (err, s')
     | Some i \<Rightarrow> (case reset_port hw i ?s1 of None \<Rightarrow> False
         | Some (err2, s2) \<Rightarrow> if is_error err2 then s' = s2 else initialize_device a slot s2 = Some (err, s'))"
    show ?thesis
    proof (cases "waiting_port ?s1")
      case None
      with c d v pa show ?thesis using initialize_device_view [OF _ v1, of a slot err s' d]
        by (auto intro: phase_step.intros)
    next
      case (Some i)
      then have w: "ph i = WaitingAddressed" "i \<noteq> a"
        using v1 pa by (auto simp: waiting_port_def phase_of_view dest!: find_eq_SomeD)
      from c Some obtain err2 s2 where r: "reset_port hw i ?s1 = Some (err2, s2)"
        and i: "if is_error err2 then s' = s2 else initialize_device a slot s2 = Some (err, s')"
        by (auto split: option.splits)
      note rv = reset_port_view [OF r v1]
      with i w have i': "initialize_device a slot s2 = Some (err, s')" and d2: "find_by_slot slot (hc_devmgr s2) = Some (Some d)"
        using d by auto
      from rv consider "phase_view s2 = (ph, 0)" | "i \<noteq> 0" "phase_view s2 = (ph(i := ResettingPort), i)" by auto
      then show ?thesis
      proof cases
        case 1
        then show ?thesis using initialize_device_view [OF i' _ d2] v pa by (auto intro: phase_step.intros)
      next
        case 2
        have "phase_view s' = (ph(a := InitializingDevice, i := ResettingPort), i)"
          using initialize_device_view [OF i' 2(2) d2] w by (simp add: fun_upd_twist)
        then show ?thesis using v pa w 2 by (simp add: ps_addressed_next)
      qed
    qed
  qed (simp add: ps_stay)
qed

lemma on_command_completion_step:
  assumes "on_command_completion hw t s = Some (err, s')"
  shows "phase_step (phase_view s) (phase_view s')"
proof -
  obtain ph a where v: "phase_view s = (ph, a)" by (cases "phase_view s")
  obtain slot where "on_enable_slot_completed slot s = Some (err, s') \<or> on_address_device_completed hw slot s = Some (err, s')
    \<or> on_configure_endpoint_completed slot s = Some (err, s') \<or> s' = s"
    using assms by (auto simp: on_command_completion_def Let_def split: Option.bind_splits if_splits)
  then show ?thesis
  proof (elim disjE)
    assume "on_enable_slot_completed slot s = Some (err, s')"
    then show ?thesis using v address_device_view [of a slot s err s', OF _ v]
      by (auto simp: on_enable_slot_completed_def phase_of_view split: if_splits intro: phase_step.intros)
  next
    assume "on_configure_endpoint_completed slot s = Some (err, s')"
    then have "s' = s \<or> (\<exists>n. ph n = ConfiguringEndpoints \<and> complete_configuration n slot s = Some (err, s'))"
      using v by (auto simp: on_configure_endpoint_completed_def phase_of_view split: Option.bind_splits option.splits if_splits)
    then show ?thesis
    proof (elim disjE exE conjE)
      fix n
      assume n: "ph n = ConfiguringEndpoints" "complete_configuration n slot s = Some (err, s')"
      from complete_configuration_view [OF n(2) v] n(1) v show ?thesis by (auto intro: phase_step.intros)
    qed (simp add: ps_stay)
  qed (auto intro: ps_stay on_address_device_completed_step)
qed

lemma process_event_step:
  assumes "process_event hw s = Some (err, s')"
  shows "phase_step (phase_view s) (phase_view s')"
proof -
  from assms consider "s' = s" | t s1 where "on_event hw t s = Some (err, s1)" "s' = s1\<lparr>hc_er := er_pop (hc_er s1)\<rparr>"
    by (auto simp: process_event_def split: Option.bind_splits if_splits)
  then show ?thesis
  proof cases
    case (2 t s1)
    then have "phase_step (phase_view s) (phase_view s1)"
      by (auto simp: on_event_def ps_stay split: if_splits
          intro: on_transfer_event_step on_port_status_change_step on_command_completion_step)
    with 2 show ?thesis by (simp add: phase_simps)
  qed (simp add: ps_stay)
qed

lemma configure_port_step:
  assumes "configure_port hw n s = Some (err, s')"
  shows "phase_step (phase_view s) (phase_view s')"
proof -
  obtain ph a where v: "phase_view s = (ph, a)" by (cases "phase_view s")
  then show ?thesis using assms reset_port_view [OF _ v, of hw n err s']
    by (auto simp: configure_port_def phase_of_view split: if_splits intro: phase_step.intros)
qed

section \<open>A sample controller\<close>

text \<open>A port event, the addresses of the objects, and a controller with a list of events and of port registers.\<close>

definition sample_port_event :: trb where
  "sample_port_event =
    fields_set port_status_change_event_trb_layout [(''port_id'', 1), (''cycle_bit'', 1)]
      (trb_blank PortStatusChangeEventTrb)"

definition sample_controller :: "trb list \<Rightarrow> u32 list \<Rightarrow> controller" where
  "sample_controller events portsc =
    \<lparr>hc_max_ports = length portsc,
     hc_devmgr = \<lparr>dm_max_slots = 8, dm_devices = replicate 9 None, dm_contexts_addr = 0x1000, dm_contexts = replicate 9 0\<rparr>,
     hc_cr = \<lparr>rg_base = 0x3000, rg_buf = replicate 32 0, rg_size = 32, rg_cycle = True, rg_write = 0\<rparr>,
     hc_er = \<lparr>er_base = 0x4000, er_size = length events, er_buf = events, er_cycle = True, er_erst = 0x5000,
       er_seg_base = 0x4000, er_seg_size = of_nat (length events), er_erstsz = 1, er_erstba = 0x5000, er_erdp = 0x4000\<rparr>,
     hc_portsc = portsc, hc_doorbells = [], hc_phase = (\<lambda>_. NotConnected), hc_addressing_port = 0,
     hc_env = sample_env\<rparr>"

definition sample_hw :: port_hw where
  "sample_hw w v = [v, v AND NOT 0x10]"

text \<open>A controller that addresses port 1 while the ports 2 and 3 wait; port 2 has been unplugged.\<close>

definition sample_waiting :: controller where
  "sample_waiting =
    (let s = sample_controller [0, 0] [1, 0, 1] in
     s\<lparr>hc_phase := (\<lambda>_. NotConnected)(1 := AddressingDevice, 2 := WaitingAddressed, 3 := WaitingAddressed),
       hc_addressing_port := 1,
       hc_devmgr := (hc_devmgr s)\<lparr>dm_devices := (replicate 9 None)[1 := Some sample_device]\<rparr>\<rparr>)"

lemma sample_event_runs:
  "map_option fst (process_event sample_hw (sample_controller [sample_port_event, 0] [1])) = Some KSuccess"
  by code_simp

lemma sample_event_result:
  "\<exists>s'. process_event sample_hw (sample_controller [sample_port_event, 0] [1]) = Some (KSuccess, s')"
  using sample_event_runs by auto

section \<open>One port at a time\<close>

text \<open>
  The steps of the system: an event is processed, a port is configured at start-up, or the hardware
  changes what it owns: registers, rings, contexts and buffers.
\<close>

inductive hc_step :: "port_hw \<Rightarrow> controller \<Rightarrow> controller \<Rightarrow> bool" for hw :: port_hw where
  hc_event: "process_event hw s = Some (err, s') \<Longrightarrow> hc_step hw s s'"
| hc_configure: "configure_port hw n s = Some (err, s') \<Longrightarrow> hc_step hw s s'"
| hc_hardware: "phase_view s' = phase_view s \<Longrightarrow> hc_step hw s s'"

definition hc_init :: "controller \<Rightarrow> bool" where
  "hc_init s \<longleftrightarrow> hc_phase s = (\<lambda>_. NotConnected) \<and> hc_addressing_port s = 0"

lemma hc_step_phase: "hc_step hw s s' \<Longrightarrow> phase_step (phase_view s) (phase_view s')"
  by (induction rule: hc_step.induct) (auto intro: process_event_step configure_port_step ps_stay)

lemma reach_after_event:
  "hc_init s \<Longrightarrow> process_event hw s = Some (err, s') \<Longrightarrow> reach hc_init (hc_step hw) s'"
  by (blast intro: reach_step reach_init hc_event)

interpretation hcs: safe_system hc_init "hc_step hw" "\<lambda>s. phases_ok (phase_view s)" for hw
proof
  show "hc_init s \<Longrightarrow> phases_ok (phase_view s)" for s
    by (simp add: hc_init_def phase_view_def phases_ok_def)
  show "hc_step hw s s' \<Longrightarrow> phases_ok (phase_view s) \<Longrightarrow> phases_ok (phase_view s')" for s s'
    by (blast intro: hc_step_phase phase_step_ok)
qed

text \<open>
  C7: every event handler of the controller, whatever the hardware reports, changes the port phases by
  one step of the phase machine: a port is reset only when the controller is free, is given a slot and
  an address only while it holds the controller, and the controller is handed to a waiting port in the
  same step that starts the initialization of the addressed one.
\<close>

theorem process_event_refines_phases:
  assumes "process_event hw s = Some (err, s')"
  shows "phase_step (phase_view s) (phase_view s')"
  using assms by (rule process_event_step)

theorem process_event_refines_phases_witness:
  "\<exists>s'. process_event sample_hw (sample_controller [sample_port_event, 0] [1]) = Some (KSuccess, s')
    \<and> phase_step (phase_view (sample_controller [sample_port_event, 0] [1])) (phase_view s')"
proof -
  obtain s' where "process_event sample_hw (sample_controller [sample_port_event, 0] [1]) = Some (KSuccess, s')"
    using sample_event_result by blast
  with process_event_refines_phases [OF this] show ?thesis by blast
qed

text \<open>
  C6: in every reachable state the ports between reset and addressing are exactly the port whose number
  \<open>addressing_port\<close> holds, and there is none when it holds 0.
\<close>

theorem addressing_exclusive:
  assumes "reach hc_init (hc_step hw) s"
  shows "addressing_phase (hc_phase s p) \<longleftrightarrow> p = hc_addressing_port s \<and> p \<noteq> 0"
  using hcs.reach_inv [OF assms] by (simp add: phases_ok_def phase_view_def)

theorem addressing_exclusive_witness:
  "\<exists>s'. process_event sample_hw (sample_controller [sample_port_event, 0] [1]) = Some (KSuccess, s')
    \<and> (\<forall>p. addressing_phase (hc_phase s' p) \<longleftrightarrow> p = hc_addressing_port s' \<and> p \<noteq> 0)"
proof -
  obtain s' where s': "process_event sample_hw (sample_controller [sample_port_event, 0] [1]) = Some (KSuccess, s')"
    using sample_event_result by blast
  have "hc_init (sample_controller [sample_port_event, 0] [1])" by (simp add: hc_init_def sample_controller_def)
  then have "reach hc_init (hc_step sample_hw) s'"
    using s' by (rule reach_after_event)
  from addressing_exclusive [OF this] s' show ?thesis by blast
qed

lemma sample_initialize:
  "\<exists>s'. initialize_device 1 1 (sample_waiting\<lparr>hc_addressing_port := 0\<rparr>) = Some (KSuccess, s')"
proof -
  let ?s = "sample_waiting\<lparr>hc_addressing_port := 0\<rparr>"
  let ?d = "sample_device\<lparr>ud_is_initialized := False, ud_initialize_phase := 1\<rparr>"
  have "ring_of_dci kDefaultControlPipeID sample_device = Some (Some sample_ring)"
    using sample_ring_of_dci by (simp add: kDefaultControlPipeID_def endpoint_id_def)
  moreover have "ring_of_dci kDefaultControlPipeID ?d = ring_of_dci kDefaultControlPipeID sample_device"
    by (simp add: ring_of_dci_def)
  ultimately have r: "ring_of_dci kDefaultControlPipeID ?d = Some (Some sample_ring)" by simp
  have "ep_number kDefaultControlPipeID \<le> 15" "device_buf_addr sample_device sample_env \<noteq> 0"
    by (simp_all add: kDefaultControlPipeID_def device_buf_addr_def sample_device_def xhci_device_new_def Let_def sample_env_def)
  then obtain d' where "start_initialize sample_device sample_env = Some (KSuccess, d')"
    unfolding start_initialize_def get_descriptor_def
    using control_in_ok [OF r sample_ring_control] by blast
  then show ?thesis
    by (auto simp: initialize_device_def find_by_slot_def sample_waiting_def Let_def sample_controller_def
        arr_get_def hc_put_device_def put_device_def arr_set_def set_phase_def)
qed

text \<open>
  When the first waiting port was unplugged before its turn, the end of another port's addressing
  resumes no port: the waiting ports stay waiting although the controller is free, and a status change
  of a waiting port is refused.
\<close>

theorem unplugged_port_blocks_waiting:
  assumes "waiting_port (s\<lparr>hc_addressing_port := 0\<rparr>) = Some i"
    and "read_portsc i s = Some w" and "\<not> port_is_connected w"
    and "on_address_device_completed hw slot s = Some (err, s')"
    and "hc_phase s (hc_addressing_port s) = AddressingDevice"
    and "find_by_slot slot (hc_devmgr s) = Some (Some d)" and "device_port d = hc_addressing_port s"
    and "hc_phase s j = WaitingAddressed"
  shows "hc_addressing_port s' = 0 \<and> hc_phase s' j = WaitingAddressed
    \<and> (ucast (field_get port_status_change_event_trb_layout ''port_id'' t) = j
        \<longrightarrow> on_port_status_change hw t s' = Some (KInvalidPhase, s'))"
proof -
  let ?s1 = "s\<lparr>hc_addressing_port := 0\<rparr>"
  have "read_portsc i ?s1 = Some w" using assms(2) by (simp add: read_portsc_def split: if_splits)
  then have "reset_port hw i ?s1 = Some (KSuccess, ?s1)"
    using assms(3) by (simp add: reset_port_def)
  then have i: "initialize_device (hc_addressing_port s) slot ?s1 = Some (err, s')"
    using assms by (simp add: on_address_device_completed_def Let_def)
  have "phase_view s' = ((hc_phase s)(hc_addressing_port s := InitializingDevice), 0)"
    using initialize_device_view [OF i, of "hc_phase s" 0 d] assms(6) by (simp add: phase_view_def)
  moreover have "j \<noteq> hc_addressing_port s" using assms(5,8) by auto
  ultimately have "hc_addressing_port s' = 0" "hc_phase s' j = WaitingAddressed"
    using assms(8) by (simp_all add: phase_view_def)
  then show ?thesis by (auto simp: on_port_status_change_def Let_def)
qed

theorem unplugged_port_blocks_waiting_witness:
  "\<exists>s'. on_address_device_completed sample_hw 1 sample_waiting = Some (KSuccess, s')
    \<and> hc_addressing_port s' = 0 \<and> hc_phase s' 3 = WaitingAddressed"
proof -
  let ?s = "sample_waiting\<lparr>hc_addressing_port := 0\<rparr>"
  have u: "[0..<256] = 0 # 1 # 2 # [3..<256]"
    by (simp add: upt_conv_Cons del: upt_rec_numeral)
  have w: "waiting_port ?s = Some 2"
    unfolding waiting_port_def u by (simp add: sample_waiting_def Let_def del: upt_rec_numeral)
  have f: "find_by_slot 1 (hc_devmgr sample_waiting) = Some (Some sample_device)"
    by (simp add: find_by_slot_def sample_waiting_def Let_def sample_controller_def arr_get_def)
  obtain s' where "initialize_device 1 1 ?s = Some (KSuccess, s')"
    using sample_initialize by blast
  moreover have "reset_port sample_hw 2 ?s = Some (KSuccess, ?s)"
    by (simp add: reset_port_def read_portsc_def sample_waiting_def Let_def sample_controller_def arr_get_def
        port_is_connected_def port_bit_def field_get_def split: option.splits)
  moreover have "device_port sample_device = 1" "hc_addressing_port sample_waiting = 1"
    "hc_phase sample_waiting 1 = AddressingDevice" by code_simp+
  moreover have "find_by_slot 1 (hc_devmgr sample_waiting) = Some (Some sample_device)"
    by (simp add: find_by_slot_def sample_waiting_def Let_def sample_controller_def arr_get_def)
  ultimately have s': "on_address_device_completed sample_hw 1 sample_waiting = Some (KSuccess, s')"
    using w by (simp add: on_address_device_completed_def Let_def)
  note w
  moreover have "read_portsc 2 sample_waiting = Some 0" "\<not> port_is_connected 0" by code_simp+
  moreover have "hc_phase sample_waiting (hc_addressing_port sample_waiting) = AddressingDevice"
    "hc_phase sample_waiting 3 = WaitingAddressed" by code_simp+
  moreover have "find_by_slot 1 (hc_devmgr sample_waiting) = Some (Some sample_device)"
    by (simp add: find_by_slot_def sample_waiting_def Let_def sample_controller_def arr_get_def)
  moreover have "device_port sample_device = hc_addressing_port sample_waiting" by code_simp
  ultimately show ?thesis
    using unplugged_port_blocks_waiting [OF _ _ _ s', of 2 0 sample_device 3] s' by blast
qed

end
