(* ===== verification/Xhci_Startup.thy ===== *)
theory Xhci_Startup
  imports Xhci_Controller
begin

text \<open>
  Bringing the host controller up: \<open>RequestHCOwnership\<close>, \<open>Controller::Initialize\<close> and
  \<open>Controller::Run\<close> of \<open>Kernel/usb/xhci/xhci.cpp\<close>.

  The registers the driver writes are kept in a record.  What a register shows while the driver polls
  it is a list, a parameter; a loop that never sees the value it waits for has no result.
\<close>

record hc_registers =
  hr_hcsparams1 :: u32
  hr_hcsparams2 :: u32
  hr_hccparams1 :: u32
  hr_usbcmd :: u32
  hr_usbsts :: u32
  hr_config :: u32
  hr_crcr :: u64
  hr_dcbaap :: u64
  hr_iman :: u32

record hc_polls =
  hp_owner :: "u32 list"
  hp_halted :: "u32 list"
  hp_reset :: "u32 list"
  hp_ready :: "u32 list"
  hp_running :: "u32 list"

section \<open>Taking the controller from the firmware\<close>

partial_function (option) find_legacy_support :: "(u64 \<Rightarrow> u32) \<Rightarrow> u64 option \<Rightarrow> u64 option option" where
  "find_legacy_support mem r =
    (case r of
       None \<Rightarrow> Some None
     | Some a \<Rightarrow>
         if field_get extended_register_layout ''capability_id'' (mem a) = 1 then Some (Some a)
         else find_legacy_support mem (extended_next mem r))"

text \<open>The register write, if there is one.\<close>

definition request_hc_ownership ::
  "(u64 \<Rightarrow> u32) \<Rightarrow> hc_polls \<Rightarrow> u64 \<Rightarrow> u32 \<Rightarrow> (u64 \<times> u32) option option" where
  "request_hc_ownership mem polls mmio_base hccp = do {
     ext_usblegsup \<leftarrow> find_legacy_support mem (extended_first mmio_base hccp);
     (case ext_usblegsup of
        None \<Rightarrow> Some None
      | Some a \<Rightarrow>
          if field_get usblegsup_layout ''hc_os_owned_semaphore'' (mem a) \<noteq> 0 then Some None
          else do {
            _ \<leftarrow> wait_for (\<lambda>r. field_get usblegsup_layout ''hc_bios_owned_semaphore'' r = 0
                               \<and> field_get usblegsup_layout ''hc_os_owned_semaphore'' r \<noteq> 0) (hp_owner polls);
            Some (Some (a, field_set usblegsup_layout ''hc_os_owned_semaphore'' 1 (mem a)))
          })
   }"

section \<open>Resetting the controller\<close>

definition stop_value :: "u32 \<Rightarrow> u32 \<Rightarrow> u32" where
  "stop_value usbsts usbcmd =
    (let v = fields_set usbcmd_layout
       [(''interrupter_enable'', 0), (''host_system_error_enable'', 0), (''enable_wrap_event'', 0)] usbcmd
     in if field_get usbsts_layout ''host_controller_halted'' usbsts = 0
        then field_set usbcmd_layout ''run_stop'' 0 v else v)"

definition reset_controller :: "hc_polls \<Rightarrow> hc_registers \<Rightarrow> hc_registers option" where
  "reset_controller polls r = do {
     _ \<leftarrow> wait_for (\<lambda>w. field_get usbsts_layout ''host_controller_halted'' w \<noteq> 0) (hp_halted polls);
     cmd \<leftarrow> wait_for (\<lambda>w. field_get usbcmd_layout ''host_controller_reset'' w = 0) (hp_reset polls);
     sts \<leftarrow> wait_for (\<lambda>w. field_get usbsts_layout ''controller_not_ready'' w = 0) (hp_ready polls);
     Some (r\<lparr>hr_usbcmd := cmd, hr_usbsts := sts\<rparr>)
   }"

section \<open>Scratchpad buffers\<close>

definition max_scratchpad_buffers :: "u32 \<Rightarrow> u16" where
  "max_scratchpad_buffers hcsparams2 =
    ucast (field_get hcsparams2_layout ''max_scratchpad_buffers_low'' hcsparams2
      OR push_bit 5 (field_get hcsparams2_layout ''max_scratchpad_buffers_high'' hcsparams2))"

text \<open>The buffers, null where the pool was used up.\<close>

fun alloc_scratchpads :: "nat \<Rightarrow> usb_env \<Rightarrow> u64 list \<times> usb_env" where
  "alloc_scratchpads 0 e = ([], e)"
| "alloc_scratchpads (Suc n) e =
    (let (a, p) = alloc_mem (ue_pool e) 4096 4096 4096 (ue_alloc_ptr e);
         (bs, e') = alloc_scratchpads n (e\<lparr>ue_alloc_ptr := p\<rparr>)
     in ((case a of None \<Rightarrow> 0 | Some b \<Rightarrow> b) # bs, e'))"

text \<open>The array of the buffers, its address stored in entry 0 of the device contexts.\<close>

definition initialize_scratchpads ::
  "u32 \<Rightarrow> device_manager \<Rightarrow> usb_env \<Rightarrow> (u64 list \<times> device_manager \<times> usb_env) option" where
  "initialize_scratchpads hcsparams2 dm e =
    (let n = unat (max_scratchpad_buffers hcsparams2) in
     if n = 0 then Some ([], dm, e)
     else
       (case alloc_array (ue_pool e) 8 (of_nat n) 64 4096 (ue_alloc_ptr e) of
          (None, p) \<Rightarrow> None
        | (Some arr, p) \<Rightarrow>
            (let (bs, e') = alloc_scratchpads n (e\<lparr>ue_alloc_ptr := p\<rparr>) in
             map_option (\<lambda>cs. (bs, dm\<lparr>dm_contexts := cs\<rparr>, e')) (arr_set (dm_contexts dm) 0 arr))))"

section \<open>The controller\<close>

definition register_command_ring :: "ring \<Rightarrow> u64 \<Rightarrow> u64" where
  "register_command_ring r crcr =
    crcr_set_pointer (rg_base r)
      (fields_set crcr_layout [(''ring_cycle_state'', 1), (''command_stop'', 0), (''command_abort'', 0)] crcr)"

definition controller_new :: "u32 \<Rightarrow> nat" where
  "controller_new hcsparams1 = unat (field_get hcsparams1_layout ''max_ports'' hcsparams1)"

text \<open>
  \<open>Controller::Initialize\<close> after the ownership was requested: the error, the registers, the device
  manager, the command and event rings.  \<open>er0\<close> holds the registers of the primary interrupter.
\<close>

definition kDeviceSize :: nat where
  "kDeviceSize = 8"

definition empty_ring :: ring where
  "empty_ring = \<lparr>rg_base = 0, rg_buf = [], rg_size = 0, rg_cycle = False, rg_write = 0\<rparr>"

definition controller_initialize ::
  "hc_polls \<Rightarrow> event_ring \<Rightarrow> hc_registers \<Rightarrow> usb_env \<Rightarrow>
    (error_code \<times> hc_registers \<times> device_manager \<times> ring \<times> event_ring \<times> usb_env) option" where
  "controller_initialize polls er0 r e =
    (let (err, dm, e1) = devmgr_initialize kDeviceSize e in
     if is_error err then Some (err, r, dm, empty_ring, er0, e1)
     else do {
       r1 \<leftarrow> reset_controller polls (r\<lparr>hr_usbcmd := stop_value (hr_usbsts r) (hr_usbcmd r)\<rparr>);
       (_, dm1, e2) \<leftarrow> initialize_scratchpads (hr_hcsparams2 r) dm e1;
       (let r2 = r1\<lparr>hr_config := field_set config_layout ''max_device_slots_enabled'' (of_nat kDeviceSize) (hr_config r1),
                    hr_dcbaap := dcbaap_set_pointer (dm_contexts_addr dm1) 0\<rparr>;
            (err, cr, p) = ring_initialize (ue_pool e2) 32 (ue_alloc_ptr e2);
            e3 = e2\<lparr>ue_alloc_ptr := p\<rparr> in
        if is_error err then Some (err, r2, dm1, cr, er0, e3)
        else
          (let r3 = r2\<lparr>hr_crcr := register_command_ring cr (hr_crcr r2)\<rparr>;
               (err, er, p) = event_ring_initialize (ue_pool e3) 32 er0 (ue_alloc_ptr e3);
               e4 = e3\<lparr>ue_alloc_ptr := p\<rparr> in
           if is_error err then Some (err, r3, dm1, cr, er, e4)
           else
             Some (KSuccess,
               r3\<lparr>hr_iman := fields_set iman_layout [(''interrupt_pending'', 1), (''interrupt_enable'', 1)] (hr_iman r3),
                  hr_usbcmd := field_set usbcmd_layout ''interrupter_enable'' 1 (hr_usbcmd r3)\<rparr>,
               dm1, cr, er, e4)))
     })"

definition controller_run :: "hc_polls \<Rightarrow> hc_registers \<Rightarrow> (error_code \<times> hc_registers) option" where
  "controller_run polls r = do {
     sts \<leftarrow> wait_for (\<lambda>w. field_get usbsts_layout ''host_controller_halted'' w = 0) (hp_running polls);
     Some (KSuccess, r\<lparr>hr_usbcmd := field_set usbcmd_layout ''run_stop'' 1 (hr_usbcmd r), hr_usbsts := sts\<rparr>)
   }"

section \<open>A controller that was initialized\<close>

text \<open>
  When initialization succeeds the rings are ready: both have 32 blocks of zeros at addresses the
  allocator gave, the command ring starts with cycle state 1 at block 0, and no device has a slot.
\<close>

lemma controller_initialize_rings:
  assumes "controller_initialize polls er0 r e = Some (KSuccess, r', dm, cr, er, e')"
  shows "rg_buf cr = replicate 32 0 \<and> rg_size cr = 32 \<and> rg_cycle cr \<and> rg_write cr = 0
    \<and> er_buf er = replicate 32 0 \<and> er_cycle er
    \<and> dm_max_slots dm = 8 \<and> (\<forall>d \<in> set (dm_devices dm). d = None) \<and> length (dm_devices dm) = 9"
  using assms
  by (auto simp: controller_initialize_def Let_def is_error_def ring_initialize_def event_ring_initialize_def
        er_write_dequeue_pointer_def initialize_scratchpads_def devmgr_initialize_def kDeviceSize_def
      split: prod.splits option.splits Option.bind_splits if_splits)

end
