(* ===== verification/Input_Devices.thy ===== *)
theory Input_Devices
  imports Layers Task_Sched Usb_Input
begin

text \<open>
  Keyboard and mouse: \<open>Kernel/keyboard.hpp\<close>, \<open>keyboard.cpp\<close>, \<open>Kernel/mouse.hpp\<close> and \<open>mouse.cpp\<close>.

  Both are observers of the USB class drivers: the keyboard turns a key into a message to task 1, the
  mouse moves its layer, the layer that is dragged, and the active layer.
\<close>

section \<open>The keyboard\<close>

definition keycode_map :: "u8 list" where
  "keycode_map =
    [0, 0, 0, 0, 97, 98, 99, 100,
     101, 102, 103, 104, 105, 106, 107, 108,
     109, 110, 111, 112, 113, 114, 115, 116,
     117, 118, 119, 120, 121, 122, 49, 50,
     51, 52, 53, 54, 55, 56, 57, 48,
     10, 8, 8, 9, 32, 45, 61, 91,
     93, 92, 35, 59, 39, 96, 44, 46,
     47, 0, 0, 0, 0, 0, 0, 0,
     0, 0, 0, 0, 0, 0, 0, 0,
     0, 0, 0, 0, 0, 0, 0, 0,
     0, 0, 0, 0, 47, 42, 45, 43,
     10, 49, 50, 51, 52, 53, 54, 55,
     56, 57, 48, 46, 92, 0, 0, 61] @ replicate 152 0"

definition keycode_map_shifted :: "u8 list" where
  "keycode_map_shifted =
    [0, 0, 0, 0, 65, 66, 67, 68,
     69, 70, 71, 72, 73, 74, 75, 76,
     77, 78, 79, 80, 81, 82, 83, 84,
     85, 86, 87, 88, 89, 90, 33, 64,
     35, 36, 37, 94, 38, 42, 40, 41,
     10, 8, 8, 9, 32, 95, 43, 123,
     125, 124, 126, 58, 34, 126, 60, 62,
     63, 0, 0, 0, 0, 0, 0, 0,
     0, 0, 0, 0, 0, 0, 0, 0,
     0, 0, 0, 0, 0, 0, 0, 0,
     0, 0, 0, 0, 47, 42, 45, 43,
     10, 49, 50, 51, 52, 53, 54, 55,
     56, 57, 48, 46, 92, 0, 0, 61] @ replicate 152 0"

definition kLControlBitMask :: u8 where
  "kLControlBitMask = 0b00000001"

definition kLShiftBitMask :: u8 where
  "kLShiftBitMask = 0b00000010"

definition kLAltBitMask :: u8 where
  "kLAltBitMask = 0b00000100"

definition kLGUIBitMask :: u8 where
  "kLGUIBitMask = 0b00001000"

definition kRControlBitMask :: u8 where
  "kRControlBitMask = 0b00010000"

definition kRShiftBitMask :: u8 where
  "kRShiftBitMask = 0b00100000"

definition kRAltBitMask :: u8 where
  "kRAltBitMask = 0b01000000"

definition kRGUIBitMask :: u8 where
  "kRGUIBitMask = 0b10000000"

text \<open>The message the keyboard's observer sends for a key, and the observer.\<close>

definition key_message :: "u8 \<Rightarrow> u8 \<Rightarrow> message" where
  "key_message modifier keycode =
    (let shift = (modifier AND (kLShiftBitMask OR kRShiftBitMask) \<noteq> 0);
         ascii = (if shift then keycode_map_shifted ! unat keycode else keycode_map ! unat keycode)
     in mk_message (KeyPush keycode modifier ascii))"

definition keyboard_observer :: "u8 \<Rightarrow> u8 \<Rightarrow> task_manager \<Rightarrow> task_manager option" where
  "keyboard_observer modifier keycode tm = map_option snd (send_message 1 (key_message modifier keycode) tm)"

section \<open>The mouse\<close>

definition kMouseCursorWidth :: int where
  "kMouseCursorWidth = 15"

definition kMouseCursorHeight :: int where
  "kMouseCursorHeight = 24"

definition kMouseTransparentColor :: pixel_color where
  "kMouseTransparentColor = rgb 0 0 1"

definition mouse_cursor_shape :: "string list" where
  "mouse_cursor_shape =
    [''@              '',
     ''@@             '',
     ''@.@            '',
     ''@..@           '',
     ''@...@          '',
     ''@....@         '',
     ''@.....@        '',
     ''@......@       '',
     ''@.......@      '',
     ''@........@     '',
     ''@.........@    '',
     ''@..........@   '',
     ''@...........@  '',
     ''@............@ '',
     ''@......@@@@@@@@'',
     ''@......@       '',
     ''@....@@.@      '',
     ''@...@ @.@      '',
     ''@..@   @.@     '',
     ''@.@    @.@     '',
     ''@@      @.@    '',
     ''@       @.@    '',
     ''         @.@   '',
     ''         @@@   '']"

definition cursor_color :: "char \<Rightarrow> pixel_color" where
  "cursor_color ch =
    (if ch = CHR ''@'' then rgb 0 0 0 else if ch = CHR ''.'' then rgb 255 255 255 else kMouseTransparentColor)"

definition draw_mouse_cursor :: "'s pixel_write \<Rightarrow> vec2 \<Rightarrow> 's \<Rightarrow> 's option" where
  "draw_mouse_cursor write position =
    for_each (\<lambda>dy. for_each (\<lambda>dx.
      write (vadd position (vec dx dy)) (cursor_color (mouse_cursor_shape ! nat dy ! nat dx)))
      (int_range kMouseCursorWidth)) (int_range kMouseCursorHeight)"

record mouse =
  ms_layer_id :: u32
  ms_position :: vec2
  ms_drag_layer_id :: u32
  ms_previous_buttons :: u8

definition mouse_new :: "u32 \<Rightarrow> mouse" where
  "mouse_new layer_id =
    \<lparr>ms_layer_id = layer_id, ms_position = vec 0 0, ms_drag_layer_id = 0, ms_previous_buttons = 0\<rparr>"

definition mouse_set_position :: "vec2 \<Rightarrow> mouse \<times> layer_manager \<Rightarrow> (mouse \<times> layer_manager) option" where
  "mouse_set_position position st =
    (case st of (m, lm) \<Rightarrow>
       map_option (Pair (m\<lparr>ms_position := position\<rparr>)) (lm_move (ms_layer_id m) position lm))"

text \<open>The new position: the displacements are signed bytes, and the position stays on the screen.\<close>

definition mouse_new_position :: "vec2 \<Rightarrow> vec2 \<Rightarrow> u8 \<Rightarrow> u8 \<Rightarrow> vec2" where
  "mouse_new_position screen_size oldpos dx dy =
    element_max (element_min (vadd oldpos (vec (sint dx) (sint dy))) (vadd screen_size (vec (-1) (-1)))) (vec 0 0)"

definition mouse_on_interrupt ::
  "u8 list \<Rightarrow> vec2 \<Rightarrow> u8 \<Rightarrow> u8 \<Rightarrow> u8 \<Rightarrow> mouse \<times> active_layer \<times> layer_manager
    \<Rightarrow> (mouse \<times> active_layer \<times> layer_manager) option" where
  "mouse_on_interrupt font screen_size buttons dx dy st =
    (case st of (m0, al, lm) \<Rightarrow>
     let oldpos = ms_position m0;
         m = m0\<lparr>ms_position := mouse_new_position screen_size oldpos dx dy\<rparr>;
         posdiff = vsub (ms_position m) oldpos;
         previous_left_pressed = (ms_previous_buttons m AND 1 \<noteq> 0);
         left_pressed = (buttons AND 1 \<noteq> 0);
         done = (\<lambda>m. m\<lparr>ms_previous_buttons := buttons\<rparr>)
     in do {
       lm1 \<leftarrow> lm_move (ms_layer_id m) (ms_position m) lm;
       if \<not> previous_left_pressed \<and> left_pressed
       then do {
         p \<leftarrow> find_layer_by_position (ms_position m) (ms_layer_id m) lm1;
         (case p of
            None \<Rightarrow> map_option (Pair (done m)) (activate font 0 (al, lm1))
          | Some k \<Rightarrow> do {
              l \<leftarrow> arr_get (lm_layers lm1) k;
              if ly_draggable l
              then map_option (Pair (done (m\<lparr>ms_drag_layer_id := ly_id l\<rparr>))) (activate font (ly_id l) (al, lm1))
              else map_option (Pair (done m)) (activate font 0 (al, lm1))
            })
       }
       else if previous_left_pressed \<and> left_pressed
       then (if ms_drag_layer_id m > 0
             then map_option (\<lambda>lm2. (done m, al, lm2)) (lm_move_relative (ms_drag_layer_id m) posdiff lm1)
             else Some (done m, al, lm1))
       else if previous_left_pressed \<and> \<not> left_pressed
       then Some (done (m\<lparr>ms_drag_layer_id := 0\<rparr>), al, lm1)
       else Some (done m, al, lm1)
     })"

text \<open>\<open>InitializeMouse\<close> without the observer: the cursor's window, its layer, and the mouse on top.\<close>

definition initialize_mouse ::
  "pixel_format \<Rightarrow> active_layer \<times> layer_manager \<Rightarrow> (mouse \<times> active_layer \<times> layer_manager) option" where
  "initialize_mouse fmt st =
    (case st of (al, lm) \<Rightarrow> do {
       w \<leftarrow> draw_mouse_cursor window_write (vec 0 0)
         (set_transparent_color (Some kMouseTransparentColor) (window_new kMouseCursorWidth kMouseCursorHeight fmt));
       (let (k, lm1) = new_layer lm in do {
          l \<leftarrow> arr_get (lm_layers lm1) k;
          (let n = length (lm_windows lm1);
               lm2 = lm1\<lparr>lm_windows := lm_windows lm1 @ [w],
                         lm_layers := (lm_layers lm1)[k := layer_set_window n l]\<rparr>
           in do {
             (m, lm3) \<leftarrow> mouse_set_position (vec 200 200) (mouse_new (ly_id l), lm2);
             Some (m, set_mouse_layer (ly_id l) al, lm_up_down (ly_id l) 0x7FFFFFFF lm3)
           })
        })
     })"

section \<open>Moving a shown layer\<close>

lemma lm_move_ok:
  assumes lm: "lm_ok lm" and wf: "stack_wf lm" and i: "find_layer i lm = Some k"
    and st: "Some k \<in> set (lm_stack lm)" and w: "ly_window (lm_layers lm ! k) = Some n"
  shows "\<exists>lm'. lm_move i pos lm = Some lm' \<and> lm_ok lm' \<and> stack_wf lm' \<and> lm_stack lm' = lm_stack lm
    \<and> lm_layers lm' = (lm_layers lm)[k := layer_move pos (lm_layers lm ! k)]"
proof -
  have k: "k < length (lm_layers lm)" using find_layer_Some [OF i] by simp
  have lok: "layer_ok lm (lm_layers lm ! k)" using lm st by (auto simp: lm_ok_def stack_entry_ok_def)
  then obtain old where old: "ly_pos (lm_layers lm ! k) = Some old" and n: "n < length (lm_windows lm)"
    using w by (auto simp: layer_ok_def)
  let ?l = "layer_move pos (lm_layers lm ! k)"
  let ?lm = "lm\<lparr>lm_layers := (lm_layers lm)[k := ?l]\<rparr>"
  have ids: "map ly_id (lm_layers ?lm) = map ly_id (lm_layers lm)"
    using k by (simp add: map_update layer_move_def list_update_same_conv)
  have "stack_entry_ok ?lm p" if "stack_entry_ok lm p" for p
    using that k by (auto simp: stack_entry_ok_def layer_ok_def nth_list_update layer_move_def)
  then have ok1: "lm_ok ?lm" using lm by (auto simp: lm_ok_def)
  have wf1: "stack_wf ?lm" using wf ids by (simp add: stack_wf_def)
  obtain screen where s: "lm_screen ?lm = Some screen" using lm by (auto simp: lm_ok_def)
  have "win_ok (lm_windows lm ! n)" using lm n by (auto simp: lm_ok_def)
  then have sz: "0 \<le> vx (window_size (lm_windows lm ! n))" "0 \<le> vy (window_size (lm_windows lm ! n))"
    by (auto simp: win_ok_def fb_ok_def fb_dims_def win_dims_def window_size_def)
  from lm_draw_area_spec [OF ok1 s, of "rect old (window_size (lm_windows lm ! n))"] sz
  obtain b sc where d: "lm_draw_area (rect old (window_size (lm_windows lm ! n))) ?lm =
      Some (?lm\<lparr>lm_back := b, lm_screen := Some sc\<rparr>)"
    and b: "fb_ok b" "fb_config b = fb_config (lm_back ?lm)" "fb_ok sc" "fb_config sc = fb_config screen" by auto
  let ?lm2 = "?lm\<lparr>lm_back := b, lm_screen := Some sc\<rparr>"
  have ok2: "lm_ok ?lm2" by (rule lm_ok_drawn [OF ok1 s b])
  have wf2: "stack_wf ?lm2" using wf1 by (simp add: stack_wf_def)
  have i2: "find_layer i ?lm2 = Some k" using find_layer_ids [of ?lm2 lm i] ids i by simp
  obtain xs ys where xy: "lm_stack ?lm2 = xs @ Some k # ys" using st by (auto dest: split_list)
  have l2: "ly_window (lm_layers ?lm2 ! k) = Some n" "ly_pos (lm_layers ?lm2 ! k) = Some pos"
    using k w by (simp_all add: layer_move_def)
  have s2: "lm_screen ?lm2 = Some sc" by simp
  from lm_draw_id_spec [OF ok2 s2 wf2 i2 xy l2] obtain b' sc' where
    e: "lm_draw_id i ?lm2 = Some (?lm2\<lparr>lm_back := b', lm_screen := Some sc'\<rparr>)"
      "lm_ok (?lm2\<lparr>lm_back := b', lm_screen := Some sc'\<rparr>)" by auto
  have "lm_move i pos lm = Some (?lm2\<lparr>lm_back := b', lm_screen := Some sc'\<rparr>)"
    using i k w old n d e by (simp add: lm_move_def layer_window_size_def ub_simps)
  moreover have "stack_wf (?lm2\<lparr>lm_back := b', lm_screen := Some sc'\<rparr>)" using wf2 by (simp add: stack_wf_def)
  ultimately show ?thesis using e(2) by auto
qed

lemma lm_move_relative_ok:
  assumes lm: "lm_ok lm" and wf: "stack_wf lm" and i: "find_layer i lm = Some k"
    and st: "Some k \<in> set (lm_stack lm)" and w: "ly_window (lm_layers lm ! k) = Some n"
    and p: "ly_pos (lm_layers lm ! k) = Some pos"
  shows "\<exists>lm'. lm_move_relative i diff lm = Some lm' \<and> lm_ok lm' \<and> stack_wf lm' \<and> lm_stack lm' = lm_stack lm
    \<and> lm_layers lm' = (lm_layers lm)[k := layer_move (vadd pos diff) (lm_layers lm ! k)]"
  using lm_move_ok [OF lm wf i st w, of "vadd pos diff"] find_layer_Some [OF i] i p
  by (auto simp: lm_move_relative_def ub_simps)

text \<open>
  C29: while the left button is held, a mouse report moves the mouse's layer and the dragged layer by the
  same distance, so the pointer keeps its place on the window; the pointer does not leave the screen,
  and no other layer and not the order of the layers changes.
\<close>

theorem mouse_drags_layer:
  assumes "lm_ok lm" and "stack_wf lm" and "find_layer (ms_layer_id m) lm = Some i" and "Some i \<in> set (lm_stack lm)"
    and "ly_window (lm_layers lm ! i) = Some n"
    and "find_layer (ms_drag_layer_id m) lm = Some j" and "Some j \<in> set (lm_stack lm)"
    and "ly_window (lm_layers lm ! j) = Some n'" and "ly_pos (lm_layers lm ! j) = Some pos"
    and "i \<noteq> j" and "ms_drag_layer_id m > 0"
    and "ms_previous_buttons m AND 1 \<noteq> 0" and "buttons AND 1 \<noteq> 0"
    and "0 < vx screen_size" and "0 < vy screen_size"
  shows "\<exists>m' lm'. mouse_on_interrupt font screen_size buttons dx dy (m, al, lm) = Some (m', al, lm')
    \<and> lm_ok lm' \<and> stack_wf lm' \<and> lm_stack lm' = lm_stack lm
    \<and> on_canvas (vx screen_size, vy screen_size) (ms_position m')
    \<and> ly_pos (lm_layers lm' ! i) = Some (ms_position m')
    \<and> ly_pos (lm_layers lm' ! j) = Some (vadd pos (vsub (ms_position m') (ms_position m)))
    \<and> (\<forall>k. k \<noteq> i \<and> k \<noteq> j \<longrightarrow> lm_layers lm' ! k = lm_layers lm ! k)"
proof -
  let ?p = "mouse_new_position screen_size (ms_position m) dx dy"
  obtain lm1 where l1: "lm_move (ms_layer_id m) ?p lm = Some lm1" "lm_ok lm1" "stack_wf lm1" "lm_stack lm1 = lm_stack lm"
    "lm_layers lm1 = (lm_layers lm)[i := layer_move ?p (lm_layers lm ! i)]"
    using lm_move_ok [OF assms(1-5)] by blast
  have ik: "i < length (lm_layers lm)" "j < length (lm_layers lm)"
    using find_layer_Some [OF assms(3)] find_layer_Some [OF assms(6)] by simp_all
  have "map ly_id (lm_layers lm1) = map ly_id (lm_layers lm)"
    using ik l1(5) by (simp add: map_update layer_move_def list_update_same_conv)
  then have j1: "find_layer (ms_drag_layer_id m) lm1 = Some j" using find_layer_ids assms(6) by metis
  have w1: "Some j \<in> set (lm_stack lm1)" "ly_window (lm_layers lm1 ! j) = Some n'" "ly_pos (lm_layers lm1 ! j) = Some pos"
    using l1(4,5) assms(7-10) by simp_all
  obtain lm2 where l2: "lm_move_relative (ms_drag_layer_id m) (vsub ?p (ms_position m)) lm1 = Some lm2" "lm_ok lm2"
    "stack_wf lm2" "lm_stack lm2 = lm_stack lm1"
    "lm_layers lm2 = (lm_layers lm1)[j := layer_move (vadd pos (vsub ?p (ms_position m))) (lm_layers lm1 ! j)]"
    using lm_move_relative_ok [OF l1(2,3) j1 w1] by blast
  have "mouse_on_interrupt font screen_size buttons dx dy (m, al, lm) =
      Some (m\<lparr>ms_position := ?p, ms_previous_buttons := buttons\<rparr>, al, lm2)"
    using assms(11-13) l1(1) l2(1) by (simp add: mouse_on_interrupt_def Let_def)
  moreover have "on_canvas (vx screen_size, vy screen_size) ?p"
    using assms(14,15) by (auto simp: on_canvas_def mouse_new_position_def min_def)
  ultimately show ?thesis
    using l1 l2 ik assms(10) by (auto simp: layer_move_def)
qed

text \<open>A drag on the sample desktop: layer 2 carries the pointer, layer 1 is dragged one to the left.\<close>

definition sample_mouse :: mouse where
  "sample_mouse = \<lparr>ms_layer_id = 2, ms_position = vec 1 1, ms_drag_layer_id = 1, ms_previous_buttons = 1\<rparr>"

theorem mouse_drags_layer_witness:
  "\<exists>m' lm'. mouse_on_interrupt [] (vec 2 2) 1 (-1) 0 (sample_mouse, active_layer_new, sample_manager) = Some (m', active_layer_new, lm')
    \<and> ly_pos (lm_layers lm' ! 1) = Some (ms_position m')"
  using mouse_drags_layer [OF sample_manager_ok sample_manager_wf(1), of sample_mouse 1 1 0 0 "vec 0 0" 1 "vec 2 2" "[]" "-1" 0]
  using sample_manager_wf(2,3) by (fastforce simp: sample_mouse_def sample_manager_def)

end
