(* ===== verification/Pci_Bus.thy ===== *)
theory Pci_Bus
  imports Bit_Layout Timer_Mgr
begin

unbundle bit_operations_syntax

text \<open>
  The PCI bus: \<open>Kernel/pci.hpp\<close> and \<open>pci.cpp\<close>, and what \<open>usb/xhci/xhci.cpp\<close> does on it to find and
  set up the controller.

  The kernel reaches the configuration space through two ports: it writes an address to one and reads
  or writes the register through the other.  The space is what every address reads; what a write does
  to it is the hardware's, a parameter \<open>store\<close>.  The three scan functions call each other through
  bridges; \<open>scan_function\<close> has the number of bridges that may still be crossed as fuel, and the table of
  32 devices bounds it, also when the bridges form a cycle.
\<close>

section \<open>Devices and the configuration space\<close>

record class_code =
  cc_base :: u8
  cc_sub :: u8
  cc_interface :: u8

definition match_base :: "u8 \<Rightarrow> class_code \<Rightarrow> bool" where
  "match_base b c \<longleftrightarrow> b = cc_base c"

definition match_sub :: "u8 \<Rightarrow> u8 \<Rightarrow> class_code \<Rightarrow> bool" where
  "match_sub b s c \<longleftrightarrow> match_base b c \<and> s = cc_sub c"

definition match_interface :: "u8 \<Rightarrow> u8 \<Rightarrow> u8 \<Rightarrow> class_code \<Rightarrow> bool" where
  "match_interface b s i c \<longleftrightarrow> match_sub b s c \<and> i = cc_interface c"

record pci_device =
  pd_bus :: u8
  pd_device :: u8
  pd_function :: u8
  pd_header_type :: u8
  pd_class_code :: class_code

type_synonym config_space = "u32 \<Rightarrow> u32"
type_synonym config_store = "u32 \<Rightarrow> u32 \<Rightarrow> config_space \<Rightarrow> config_space"

record pci =
  pci_address :: u32
  pci_space :: config_space
  pci_devices :: "pci_device list"
  pci_num_device :: nat

definition make_address :: "u8 \<Rightarrow> u8 \<Rightarrow> u8 \<Rightarrow> u8 \<Rightarrow> u32" where
  "make_address bus device function reg_addr =
    push_bit 31 1 OR push_bit 16 (ucast bus) OR push_bit 11 (ucast device) OR push_bit 8 (ucast function)
      OR (ucast reg_addr AND 0xfc)"

definition write_address :: "u32 \<Rightarrow> pci \<Rightarrow> pci" where
  "write_address a st = st\<lparr>pci_address := a\<rparr>"

definition write_data :: "config_store \<Rightarrow> u32 \<Rightarrow> pci \<Rightarrow> pci" where
  "write_data store v st = st\<lparr>pci_space := store (pci_address st) v (pci_space st)\<rparr>"

definition read_data :: "pci \<Rightarrow> u32" where
  "read_data st = pci_space st (pci_address st)"

text \<open>Every read writes the address first; a reader returns what it read and the new state.\<close>

definition read_vendor_id :: "u8 \<Rightarrow> u8 \<Rightarrow> u8 \<Rightarrow> pci \<Rightarrow> u16 \<times> pci" where
  "read_vendor_id bus device function st =
    (let st1 = write_address (make_address bus device function 0x00) st in (ucast (read_data st1 AND 0xffff), st1))"

definition read_device_id :: "u8 \<Rightarrow> u8 \<Rightarrow> u8 \<Rightarrow> pci \<Rightarrow> u16 \<times> pci" where
  "read_device_id bus device function st =
    (let st1 = write_address (make_address bus device function 0x00) st in (ucast (drop_bit 16 (read_data st1)), st1))"

definition read_header_type :: "u8 \<Rightarrow> u8 \<Rightarrow> u8 \<Rightarrow> pci \<Rightarrow> u8 \<times> pci" where
  "read_header_type bus device function st =
    (let st1 = write_address (make_address bus device function 0x0c) st
     in (ucast (drop_bit 16 (read_data st1) AND 0xff), st1))"

definition read_class_code :: "u8 \<Rightarrow> u8 \<Rightarrow> u8 \<Rightarrow> pci \<Rightarrow> class_code \<times> pci" where
  "read_class_code bus device function st =
    (let st1 = write_address (make_address bus device function 0x08) st;
         reg = read_data st1
     in (\<lparr>cc_base = ucast (drop_bit 24 reg AND 0xff), cc_sub = ucast (drop_bit 16 reg AND 0xff),
          cc_interface = ucast (drop_bit 8 reg AND 0xff)\<rparr>, st1))"

definition read_bus_numbers :: "u8 \<Rightarrow> u8 \<Rightarrow> u8 \<Rightarrow> pci \<Rightarrow> u32 \<times> pci" where
  "read_bus_numbers bus device function st =
    (let st1 = write_address (make_address bus device function 0x18) st in (read_data st1, st1))"

definition is_single_function_device :: "u8 \<Rightarrow> bool" where
  "is_single_function_device header_type \<longleftrightarrow> header_type AND 0x80 = 0"

definition read_conf_reg :: "pci_device \<Rightarrow> u8 \<Rightarrow> pci \<Rightarrow> u32 \<times> pci" where
  "read_conf_reg dev reg_addr st =
    (let st1 = write_address (make_address (pd_bus dev) (pd_device dev) (pd_function dev) reg_addr) st
     in (read_data st1, st1))"

definition write_conf_reg :: "config_store \<Rightarrow> pci_device \<Rightarrow> u8 \<Rightarrow> u32 \<Rightarrow> pci \<Rightarrow> pci" where
  "write_conf_reg store dev reg_addr v st =
    write_data store v (write_address (make_address (pd_bus dev) (pd_device dev) (pd_function dev) reg_addr) st)"

section \<open>Scanning the buses\<close>

definition add_device :: "pci_device \<Rightarrow> pci \<Rightarrow> (error_code \<times> pci) option" where
  "add_device dev st =
    (if pci_num_device st = 32 then Some (KFull, st)
     else do {
       ds \<leftarrow> arr_set (pci_devices st) (pci_num_device st) dev;
       Some (KSuccess, st\<lparr>pci_devices := ds, pci_num_device := pci_num_device st + 1\<rparr>)
     })"

text \<open>A loop that returns at the first error.\<close>

fun scan_each :: "('a \<Rightarrow> pci \<Rightarrow> (error_code \<times> pci) option) \<Rightarrow> 'a list \<Rightarrow> pci \<Rightarrow> (error_code \<times> pci) option" where
  "scan_each f [] st = Some (KSuccess, st)"
| "scan_each f (x # xs) st = do {
     (err, st1) \<leftarrow> f x st;
     if is_error err then Some (err, st1) else scan_each f xs st1
   }"

text \<open>\<open>ScanDevice\<close> and \<open>ScanBus\<close>; \<open>scan_fn\<close> is \<open>ScanFunction\<close>.\<close>

definition scan_device_with ::
  "(u8 \<Rightarrow> u8 \<Rightarrow> u8 \<Rightarrow> pci \<Rightarrow> (error_code \<times> pci) option) \<Rightarrow> u8 \<Rightarrow> u8 \<Rightarrow> pci \<Rightarrow> (error_code \<times> pci) option" where
  "scan_device_with scan_fn bus device st = do {
     (err, st1) \<leftarrow> scan_fn bus device 0 st;
     if is_error err then Some (err, st1)
     else
       (let (header_type, st2) = read_header_type bus device 0 st1 in
        if is_single_function_device header_type then Some (KSuccess, st2)
        else scan_each (\<lambda>function st.
               let (vendor, st1) = read_vendor_id bus device function st in
               if vendor = 0xffff then Some (KSuccess, st1) else scan_fn bus device function st1)
             (map of_nat [1..<8]) st2)
   }"

definition scan_bus_with ::
  "(u8 \<Rightarrow> u8 \<Rightarrow> u8 \<Rightarrow> pci \<Rightarrow> (error_code \<times> pci) option) \<Rightarrow> u8 \<Rightarrow> pci \<Rightarrow> (error_code \<times> pci) option" where
  "scan_bus_with scan_fn bus =
    scan_each (\<lambda>device st.
      let (vendor, st1) = read_vendor_id bus device 0 st in
      if vendor = 0xffff then Some (KSuccess, st1) else scan_device_with scan_fn bus device st1)
    (map of_nat [0..<32])"

fun scan_function :: "nat \<Rightarrow> u8 \<Rightarrow> u8 \<Rightarrow> u8 \<Rightarrow> pci \<Rightarrow> (error_code \<times> pci) option" where
  "scan_function 0 bus device function st = None"
| "scan_function (Suc n) bus device function st =
    (let (cc, st1) = read_class_code bus device function st;
         (header_type, st2) = read_header_type bus device function st1 in
     do {
       (err, st3) \<leftarrow> add_device \<lparr>pd_bus = bus, pd_device = device, pd_function = function,
         pd_header_type = header_type, pd_class_code = cc\<rparr> st2;
       if is_error err then Some (err, st3)
       else if match_sub 0x06 0x04 cc
       then (let (bus_numbers, st4) = read_bus_numbers bus device function st3;
                 secondary_bus = ucast (drop_bit 8 bus_numbers AND 0xff)
             in scan_bus_with (scan_function n) secondary_bus st4)
       else Some (KSuccess, st3)
     })"

definition scan_fuel :: nat where
  "scan_fuel = 33"

definition scan_device :: "u8 \<Rightarrow> u8 \<Rightarrow> pci \<Rightarrow> (error_code \<times> pci) option" where
  "scan_device = scan_device_with (scan_function scan_fuel)"

definition scan_bus :: "u8 \<Rightarrow> pci \<Rightarrow> (error_code \<times> pci) option" where
  "scan_bus = scan_bus_with (scan_function scan_fuel)"

definition scan_all_bus :: "pci \<Rightarrow> (error_code \<times> pci) option" where
  "scan_all_bus st =
    (let (header_type, st1) = read_header_type 0 0 0 (st\<lparr>pci_num_device := 0\<rparr>) in
     if is_single_function_device header_type then scan_bus 0 st1
     else scan_each (\<lambda>function st.
            let (vendor, st1) = read_vendor_id 0 0 function st in
            if vendor = 0xffff then Some (KSuccess, st1) else scan_bus function st1)
          (map of_nat [0..<8]) st1)"

section \<open>Base addresses and capabilities\<close>

definition calc_bar_address :: "u32 \<Rightarrow> u8" where
  "calc_bar_address bar_index = ucast (0x10 + 4 * bar_index)"

definition read_bar :: "pci_device \<Rightarrow> u32 \<Rightarrow> pci \<Rightarrow> u64 with_error \<times> pci" where
  "read_bar dev bar_index st =
    (if 6 \<le> bar_index then ((0, KIndexOutOfRange), st)
     else
       (let addr = calc_bar_address bar_index;
            (bar, st1) = read_conf_reg dev addr st in
        if bar AND 4 = 0 then ((ucast bar, KSuccess), st1)
        else if 5 \<le> bar_index then ((0, KIndexOutOfRange), st1)
        else
          (let (bar_upper, st2) = read_conf_reg dev (addr + 4) st1
           in ((ucast bar OR push_bit 32 (ucast bar_upper), KSuccess), st2))))"

definition capability_header_layout :: layout where
  "capability_header_layout = [(''cap_id'', 8), (''next_ptr'', 8), (''cap'', 16)]"

definition kCapabilityMSI :: u32 where
  "kCapabilityMSI = 0x05"

definition kCapabilityMSIX :: u32 where
  "kCapabilityMSIX = 0x11"

definition read_capability_header :: "pci_device \<Rightarrow> u8 \<Rightarrow> pci \<Rightarrow> u32 \<times> pci" where
  "read_capability_header = read_conf_reg"

definition msi_header_layout :: layout where
  "msi_header_layout =
    [(''cap_id'', 8), (''next_ptr'', 8), (''msi_enable'', 1), (''multi_msg_capable'', 3), (''multi_msg_enable'', 3),
     (''addr_64_capable'', 1), (''per_vector_mask_capable'', 1), ('''', 7)]"

record msi_capability =
  mc_header :: u32
  mc_msg_addr :: u32
  mc_msg_upper_addr :: u32
  mc_msg_data :: u32
  mc_mask_bits :: u32
  mc_pending_bits :: u32

definition addr_64_capable :: "u32 \<Rightarrow> bool" where
  "addr_64_capable h \<longleftrightarrow> field_get msi_header_layout ''addr_64_capable'' h \<noteq> 0"

definition per_vector_mask_capable :: "u32 \<Rightarrow> bool" where
  "per_vector_mask_capable h \<longleftrightarrow> field_get msi_header_layout ''per_vector_mask_capable'' h \<noteq> 0"

text \<open>\<open>ReadMSICapability\<close> and \<open>WriteMSICapability\<close>: the addresses are bytes and wrap.\<close>

definition read_msi_capability :: "pci_device \<Rightarrow> u8 \<Rightarrow> pci \<Rightarrow> msi_capability \<times> pci" where
  "read_msi_capability dev cap_addr st =
    (let (header, st1) = read_conf_reg dev cap_addr st;
         (msg_addr, st2) = read_conf_reg dev (cap_addr + 4) st1;
         (upper, st3) = (if addr_64_capable header then read_conf_reg dev (cap_addr + 8) st2 else (0, st2));
         msg_data_addr = (if addr_64_capable header then cap_addr + 12 else cap_addr + 8);
         (msg_data, st4) = read_conf_reg dev msg_data_addr st3;
         (mask, st5) = (if per_vector_mask_capable header then read_conf_reg dev (msg_data_addr + 4) st4 else (0, st4));
         (pending, st6) = (if per_vector_mask_capable header then read_conf_reg dev (msg_data_addr + 8) st5 else (0, st5))
     in (\<lparr>mc_header = header, mc_msg_addr = msg_addr, mc_msg_upper_addr = upper, mc_msg_data = msg_data,
          mc_mask_bits = mask, mc_pending_bits = pending\<rparr>, st6))"

definition write_msi_capability :: "config_store \<Rightarrow> pci_device \<Rightarrow> u8 \<Rightarrow> msi_capability \<Rightarrow> pci \<Rightarrow> pci" where
  "write_msi_capability store dev cap_addr c st =
    (let st2 = write_conf_reg store dev (cap_addr + 4) (mc_msg_addr c) (write_conf_reg store dev cap_addr (mc_header c) st);
         st3 = (if addr_64_capable (mc_header c) then write_conf_reg store dev (cap_addr + 8) (mc_msg_upper_addr c) st2 else st2);
         msg_data_addr = (if addr_64_capable (mc_header c) then cap_addr + 12 else cap_addr + 8);
         st4 = write_conf_reg store dev msg_data_addr (mc_msg_data c) st3
     in if per_vector_mask_capable (mc_header c)
        then write_conf_reg store dev (msg_data_addr + 8) (mc_pending_bits c)
               (write_conf_reg store dev (msg_data_addr + 4) (mc_mask_bits c) st4)
        else st4)"

text \<open>The header with the capability enabled for as many vectors as asked for and as the device can do.\<close>

definition msi_enabled_header :: "u32 \<Rightarrow> u32 \<Rightarrow> u32" where
  "msi_enabled_header num_vector_exponent h =
    (let capable = field_get msi_header_layout ''multi_msg_capable'' h
     in fields_set msi_header_layout
          [(''multi_msg_enable'', if capable \<le> num_vector_exponent then capable else num_vector_exponent),
           (''msi_enable'', 1)] h)"

definition configure_msi_register ::
  "config_store \<Rightarrow> pci_device \<Rightarrow> u8 \<Rightarrow> u32 \<Rightarrow> u32 \<Rightarrow> u32 \<Rightarrow> pci \<Rightarrow> error_code \<times> pci" where
  "configure_msi_register store dev cap_addr msg_addr msg_data num_vector_exponent st =
    (let (c, st1) = read_msi_capability dev cap_addr st;
         c' = c\<lparr>mc_header := msi_enabled_header num_vector_exponent (mc_header c),
                mc_msg_addr := msg_addr, mc_msg_data := msg_data\<rparr>
     in (KSuccess, write_msi_capability store dev cap_addr c' st1))"

definition configure_msix_register ::
  "pci_device \<Rightarrow> u8 \<Rightarrow> u32 \<Rightarrow> u32 \<Rightarrow> u32 \<Rightarrow> pci \<Rightarrow> error_code \<times> pci" where
  "configure_msix_register dev cap_addr msg_addr msg_data num_vector_exponent st = (KNotImplemented, st)"

text \<open>The walk along the list of capabilities; a list that comes back to itself is walked for ever.\<close>

partial_function (option) find_msi_capabilities ::
  "pci_device \<Rightarrow> u8 \<Rightarrow> u8 \<Rightarrow> u8 \<Rightarrow> pci \<Rightarrow> ((u8 \<times> u8) \<times> pci) option" where
  "find_msi_capabilities dev cap_addr msi msix st =
    (if cap_addr = 0 then Some ((msi, msix), st)
     else
       (let (header, st1) = read_capability_header dev cap_addr st;
            cap_id = field_get capability_header_layout ''cap_id'' header;
            next_ptr = ucast (field_get capability_header_layout ''next_ptr'' header) :: u8 in
        if cap_id = kCapabilityMSI then find_msi_capabilities dev next_ptr cap_addr msix st1
        else if cap_id = kCapabilityMSIX then find_msi_capabilities dev next_ptr msi cap_addr st1
        else find_msi_capabilities dev next_ptr msi msix st1))"

definition configure_msi ::
  "config_store \<Rightarrow> pci_device \<Rightarrow> u32 \<Rightarrow> u32 \<Rightarrow> u32 \<Rightarrow> pci \<Rightarrow> (error_code \<times> pci) option" where
  "configure_msi store dev msg_addr msg_data num_vector_exponent st =
    (let (first, st1) = read_conf_reg dev 0x34 st in
     do {
       ((msi, msix), st2) \<leftarrow> find_msi_capabilities dev (ucast (first AND 0xff)) 0 0 st1;
       Some (if msi \<noteq> 0 then configure_msi_register store dev msi msg_addr msg_data num_vector_exponent st2
             else if msix \<noteq> 0 then configure_msix_register dev msix msg_addr msg_data num_vector_exponent st2
             else (KNoPCIMSI, st2))
     })"

datatype msi_trigger_mode = MsiEdge | MsiLevel

datatype msi_delivery_mode = MsiFixed | MsiLowestPriority | MsiSMI | MsiNMI | MsiINIT | MsiExtINT

fun delivery_mode_code :: "msi_delivery_mode \<Rightarrow> u32" where
  "delivery_mode_code MsiFixed = 0b000"
| "delivery_mode_code MsiLowestPriority = 0b001"
| "delivery_mode_code MsiSMI = 0b010"
| "delivery_mode_code MsiNMI = 0b100"
| "delivery_mode_code MsiINIT = 0b101"
| "delivery_mode_code MsiExtINT = 0b111"

definition msi_fixed_address :: "u8 \<Rightarrow> u32" where
  "msi_fixed_address apic_id = 0xfee00000 OR push_bit 12 (ucast apic_id)"

definition msi_fixed_data :: "msi_trigger_mode \<Rightarrow> msi_delivery_mode \<Rightarrow> u8 \<Rightarrow> u32" where
  "msi_fixed_data trigger delivery vector =
    (let d = push_bit 8 (delivery_mode_code delivery) OR ucast vector
     in if trigger = MsiLevel then d OR 0xc000 else d)"

definition configure_msi_fixed_destination ::
  "config_store \<Rightarrow> pci_device \<Rightarrow> u8 \<Rightarrow> msi_trigger_mode \<Rightarrow> msi_delivery_mode \<Rightarrow> u8 \<Rightarrow> u32 \<Rightarrow> pci
    \<Rightarrow> (error_code \<times> pci) option" where
  "configure_msi_fixed_destination store dev apic_id trigger delivery vector num_vector_exponent =
    configure_msi store dev (msi_fixed_address apic_id) (msi_fixed_data trigger delivery vector) num_vector_exponent"

section \<open>Finding the controller of the USB ports\<close>

text \<open>The loop keeps the last controller it saw and stops at the first one made by Intel.\<close>

fun find_xhc :: "pci_device list \<Rightarrow> pci_device option \<Rightarrow> pci \<Rightarrow> pci_device option \<times> pci" where
  "find_xhc [] found st = (found, st)"
| "find_xhc (d # ds) found st =
    (if match_interface 0x0c 0x03 0x30 (pd_class_code d)
     then (let (vendor, st1) = read_vendor_id (pd_bus d) (pd_device d) (pd_function d) st in
           if 0x8086 = vendor then (Some d, st1) else find_xhc ds (Some d) st1)
     else find_xhc ds found st)"

fun intel_ehc_exists :: "pci_device list \<Rightarrow> pci \<Rightarrow> bool \<times> pci" where
  "intel_ehc_exists [] st = (False, st)"
| "intel_ehc_exists (d # ds) st =
    (if match_interface 0x0c 0x03 0x20 (pd_class_code d)
     then (let (vendor, st1) = read_vendor_id (pd_bus d) (pd_device d) (pd_function d) st in
           if 0x8086 = vendor then (True, st1) else intel_ehc_exists ds st1)
     else intel_ehc_exists ds st)"

definition switch_ehci_to_xhci :: "config_store \<Rightarrow> pci_device \<Rightarrow> pci \<Rightarrow> pci" where
  "switch_ehci_to_xhci store xhc_dev st =
    (let (intel, st1) = intel_ehc_exists (take (pci_num_device st) (pci_devices st)) st in
     if \<not> intel then st1
     else
       (let (superspeed_ports, st2) = read_conf_reg xhc_dev 0xdc st1;
            st3 = write_conf_reg store xhc_dev 0xd8 superspeed_ports st2;
            (ehci2xhci_ports, st4) = read_conf_reg xhc_dev 0xd4 st3
        in write_conf_reg store xhc_dev 0xd0 ehci2xhci_ports st4))"

text \<open>
  The part of \<open>usb::xhci::Initialize\<close> before the controller itself is touched: the device, the
  base of its registers and the bus afterwards; \<open>Some None\<close> is the exit when there is no controller.
  The errors of \<open>ConfigureMSIFixedDestination\<close> and \<open>ReadBar\<close> are not looked at.
\<close>

definition locate_controller ::
  "config_store \<Rightarrow> u8 \<Rightarrow> pci \<Rightarrow> (pci_device \<times> u64 \<times> pci) option option" where
  "locate_controller store bsp_local_apic_id st =
    (case find_xhc (take (pci_num_device st) (pci_devices st)) None st of
       (None, st1) \<Rightarrow> Some None
     | (Some xhc_dev, st1) \<Rightarrow> do {
         (_, st2) \<leftarrow> configure_msi_fixed_destination store xhc_dev bsp_local_apic_id MsiLevel MsiFixed (vector_number VecXHCI) 0 st1;
         (let ((bar, _), st3) = read_bar xhc_dev 0 st2;
              (vendor, st4) = read_vendor_id (pd_bus xhc_dev) (pd_device xhc_dev) (pd_function xhc_dev) st3;
              st5 = (if 0x8086 = vendor then switch_ehci_to_xhci store xhc_dev st4 else st4)
          in Some (Some (xhc_dev, bar AND NOT 0xf, st5)))
       })"

end
