(* ===== verification/Pci_Scan.thy ===== *)
theory Pci_Scan
  imports Pci_Bus
begin

unbundle bit_operations_syntax

text \<open>
  What the scan of the PCI buses finds: the functions in the order of a walk that enters a bridge's bus
  right after the bridge, up to the 32 the table holds.  The scan ends on every configuration space.
\<close>

section \<open>The walk\<close>

text \<open>What a register of a function reads; the readers of \<open>Pci_Bus\<close> only move the address port.\<close>

definition conf :: "config_space \<Rightarrow> u8 \<Rightarrow> u8 \<Rightarrow> u8 \<Rightarrow> u8 \<Rightarrow> u32" where
  "conf sp bus device function reg_addr = sp (make_address bus device function reg_addr)"

definition present :: "config_space \<Rightarrow> u8 \<Rightarrow> u8 \<Rightarrow> u8 \<Rightarrow> bool" where
  "present sp bus device function \<longleftrightarrow> (ucast (conf sp bus device function 0 AND 0xffff) :: u16) \<noteq> 0xffff"

definition conf_header_type :: "config_space \<Rightarrow> u8 \<Rightarrow> u8 \<Rightarrow> u8 \<Rightarrow> u8" where
  "conf_header_type sp bus device function = ucast (drop_bit 16 (conf sp bus device function 0x0c) AND 0xff)"

definition conf_class_code :: "config_space \<Rightarrow> u8 \<Rightarrow> u8 \<Rightarrow> u8 \<Rightarrow> class_code" where
  "conf_class_code sp bus device function =
    (let reg = conf sp bus device function 0x08
     in \<lparr>cc_base = ucast (drop_bit 24 reg AND 0xff), cc_sub = ucast (drop_bit 16 reg AND 0xff),
         cc_interface = ucast (drop_bit 8 reg AND 0xff)\<rparr>)"

definition function_info :: "config_space \<Rightarrow> u8 \<Rightarrow> u8 \<Rightarrow> u8 \<Rightarrow> pci_device" where
  "function_info sp bus device function =
    \<lparr>pd_bus = bus, pd_device = device, pd_function = function,
     pd_header_type = conf_header_type sp bus device function,
     pd_class_code = conf_class_code sp bus device function\<rparr>"

definition secondary_bus :: "config_space \<Rightarrow> u8 \<Rightarrow> u8 \<Rightarrow> u8 \<Rightarrow> u8" where
  "secondary_bus sp bus device function = ucast (drop_bit 8 (conf sp bus device function 0x18) AND 0xff)"

text \<open>The functions of a bus, in the order of their numbers.\<close>

definition device_functions :: "config_space \<Rightarrow> u8 \<Rightarrow> u8 \<Rightarrow> u8 list" where
  "device_functions sp bus device =
    0 # (if is_single_function_device (conf_header_type sp bus device 0) then []
         else filter (present sp bus device) (map of_nat [1..<8]))"

definition bus_devices :: "config_space \<Rightarrow> u8 \<Rightarrow> u8 list" where
  "bus_devices sp bus = filter (\<lambda>device. present sp bus device 0) (map of_nat [0..<32])"

definition walk_device ::
  "(u8 \<Rightarrow> u8 \<Rightarrow> u8 \<Rightarrow> pci_device list) \<Rightarrow> config_space \<Rightarrow> u8 \<Rightarrow> u8 \<Rightarrow> pci_device list" where
  "walk_device walk sp bus device = concat (map (walk bus device) (device_functions sp bus device))"

definition walk_bus :: "(u8 \<Rightarrow> u8 \<Rightarrow> u8 \<Rightarrow> pci_device list) \<Rightarrow> config_space \<Rightarrow> u8 \<Rightarrow> pci_device list" where
  "walk_bus walk sp bus = concat (map (walk_device walk sp bus) (bus_devices sp bus))"

fun walk_function :: "config_space \<Rightarrow> nat \<Rightarrow> u8 \<Rightarrow> u8 \<Rightarrow> u8 \<Rightarrow> pci_device list" where
  "walk_function sp 0 bus device function = []"
| "walk_function sp (Suc n) bus device function =
    function_info sp bus device function #
    (if match_sub 0x06 0x04 (conf_class_code sp bus device function)
     then walk_bus (walk_function sp n) sp (secondary_bus sp bus device function)
     else [])"

definition root_buses :: "config_space \<Rightarrow> u8 list" where
  "root_buses sp =
    (if is_single_function_device (conf_header_type sp 0 0 0) then [0] else filter (present sp 0 0) (map of_nat [0..<8]))"

definition all_functions :: "config_space \<Rightarrow> pci_device list" where
  "all_functions sp = concat (map (walk_bus (walk_function sp scan_fuel) sp) (root_buses sp))"

section \<open>The scan adds the walk to the table\<close>

definition pci_ok :: "pci \<Rightarrow> bool" where
  "pci_ok st \<longleftrightarrow> length (pci_devices st) = 32 \<and> pci_num_device st \<le> 32"

definition pci_list :: "pci \<Rightarrow> pci_device list" where
  "pci_list st = take (pci_num_device st) (pci_devices st)"

text \<open>A step that adds \<open>ys\<close>, as far as there is room.\<close>

definition adds :: "pci_device list \<Rightarrow> pci \<Rightarrow> (error_code \<times> pci) option \<Rightarrow> bool" where
  "adds ys st r \<longleftrightarrow>
    (\<exists>err st'. r = Some (err, st') \<and> pci_ok st' \<and> pci_space st' = pci_space st
      \<and> pci_list st' = take 32 (pci_list st @ ys)
      \<and> err = (if length (pci_list st @ ys) \<le> 32 then KSuccess else KFull))"

lemma readers [simp]:
  "read_vendor_id b d f st = (ucast (conf (pci_space st) b d f 0 AND 0xffff), write_address (make_address b d f 0) st)"
  "read_header_type b d f st = (conf_header_type (pci_space st) b d f, write_address (make_address b d f 0x0c) st)"
  "read_class_code b d f st = (conf_class_code (pci_space st) b d f, write_address (make_address b d f 0x08) st)"
  "read_bus_numbers b d f st = (conf (pci_space st) b d f 0x18, write_address (make_address b d f 0x18) st)"
  by (simp_all add: read_vendor_id_def read_header_type_def read_class_code_def read_bus_numbers_def
      conf_header_type_def conf_class_code_def conf_def write_address_def read_data_def Let_def)

lemma read_conf_reg_eq [simp]:
  "read_conf_reg dev r st =
    (conf (pci_space st) (pd_bus dev) (pd_device dev) (pd_function dev) r,
     write_address (make_address (pd_bus dev) (pd_device dev) (pd_function dev) r) st)"
  by (simp add: read_conf_reg_def conf_def write_address_def read_data_def Let_def)

lemma write_address_simps [simp]:
  "pci_space (write_address a st) = pci_space st" "pci_devices (write_address a st) = pci_devices st"
  "pci_num_device (write_address a st) = pci_num_device st" "pci_list (write_address a st) = pci_list st"
  "pci_ok (write_address a st) = pci_ok st" "adds ys (write_address a st) r = adds ys st r"
  by (auto simp: write_address_def pci_list_def pci_ok_def adds_def)

lemma pci_list_length: "pci_ok st \<Longrightarrow> length (pci_list st) = pci_num_device st"
  by (simp add: pci_list_def pci_ok_def)

lemma adds_none: "pci_ok st \<Longrightarrow> adds [] st (Some (KSuccess, st))"
  by (simp add: adds_def pci_list_def pci_ok_def)

lemma add_device_adds: "pci_ok st \<Longrightarrow> adds [dev] st (add_device dev st)"
  by (auto simp: adds_def add_device_def pci_ok_def pci_list_def ub_simps take_Suc_conv_app_nth list_update_append
      nth_append)

text \<open>Steps one after the other; the second one runs only when there was room for the first.\<close>

lemma adds_bind_simple:
  assumes "adds ys st r" and "pci_ok st"
    and "\<And>st'. pci_ok st' \<Longrightarrow> pci_space st' = pci_space st \<Longrightarrow> pci_num_device st + length ys = pci_num_device st' \<Longrightarrow>
      adds zs st' (g st')"
  shows "adds (ys @ zs) st (Option.bind r (\<lambda>(err, st'). if is_error err then Some (err, st') else g st'))"
proof -
  obtain err st' where r: "r = Some (err, st')" "pci_ok st'" "pci_space st' = pci_space st"
    "pci_list st' = take 32 (pci_list st @ ys)"
    "err = (if length (pci_list st @ ys) \<le> 32 then KSuccess else KFull)"
    using assms(1) unfolding adds_def by (elim exE conjE)
  show ?thesis
  proof (cases "length (pci_list st @ ys) \<le> 32")
    case True
    then have l: "pci_list st' = pci_list st @ ys" and e: "err = KSuccess" using r(4,5) by simp_all
    have "pci_num_device st + length ys = pci_num_device st'"
      using l pci_list_length [OF r(2)] pci_list_length [OF assms(2)] by simp
    then have "adds zs st' (g st')" by (rule assms(3) [OF r(2,3)])
    then have "adds (ys @ zs) st (g st')" unfolding adds_def l r(3) append_assoc .
    then show ?thesis by (simp add: r(1) e)
  next
    case False
    then have "err = KFull" using r(5) by simp
    then show ?thesis using r(2-4) False unfolding adds_def r(1) by (simp add: is_error_def)
  qed
qed

lemma scan_each_adds:
  assumes "pci_ok st" and "k \<le> pci_num_device st"
    and "\<And>x st'. x \<in> set xs \<Longrightarrow> pci_ok st' \<Longrightarrow> pci_space st' = pci_space st \<Longrightarrow> k \<le> pci_num_device st' \<Longrightarrow>
      adds (ys x) st' (f x st')"
  shows "adds (concat (map ys xs)) st (scan_each f xs st)"
  using assms
proof (induction xs arbitrary: st)
  case Nil
  then show ?case by (simp add: adds_none)
next
  case (Cons x xs)
  have "adds (ys x @ concat (map ys xs)) st
    (Option.bind (f x st) (\<lambda>(err, st'). if is_error err then Some (err, st') else scan_each f xs st'))"
  proof (rule adds_bind_simple)
    show "adds (ys x) st (f x st)" using Cons.prems by simp
    fix st' assume st': "pci_ok st'" "pci_space st' = pci_space st" "pci_num_device st + length (ys x) = pci_num_device st'"
    show "adds (concat (map ys xs)) st' (scan_each f xs st')"
      using Cons.prems st' by (intro Cons.IH) auto
  qed (rule Cons.prems(1))
  then show ?case by simp
qed

lemma concat_map_filter: "concat (map f (filter P xs)) = concat (map (\<lambda>x. if P x then f x else []) xs)"
  by (induction xs) auto

text \<open>A loop over the numbers at which there is something.\<close>

lemma scan_present_adds:
  assumes "pci_ok st" and "k \<le> pci_num_device st" and "pci_space st = sp"
    and "\<And>x st'. pci_ok st' \<Longrightarrow> pci_space st' = sp \<Longrightarrow> k \<le> pci_num_device st' \<Longrightarrow> adds (ys x) st' (f x st')"
  shows "adds (concat (map ys (filter (\<lambda>x. present sp b (d x) (g x)) xs))) st
    (scan_each (\<lambda>x st. let (vendor, st1) = read_vendor_id b (d x) (g x) st in
       if vendor = 0xffff then Some (KSuccess, st1) else f x st1) xs st)"
  unfolding concat_map_filter
proof (rule scan_each_adds [OF assms(1,2)])
  fix x st' assume st': "pci_ok st'" "pci_space st' = pci_space st" "k \<le> pci_num_device st'"
  show "adds (if present sp b (d x) (g x) then ys x else []) st'
    (let (vendor, st1) = read_vendor_id b (d x) (g x) st' in if vendor = 0xffff then Some (KSuccess, st1) else f x st1)"
    using st' assms(3) assms(4) [of "write_address (make_address b (d x) (g x) 0) st'" x]
      adds_none [of "write_address (make_address b (d x) (g x) 0) st'"]
    by (auto simp: present_def)
qed

lemma scan_device_with_adds:
  assumes "pci_ok st" and "k \<le> pci_num_device st" and "pci_space st = sp"
    and scan: "\<And>b d f st'. pci_ok st' \<Longrightarrow> pci_space st' = sp \<Longrightarrow> k \<le> pci_num_device st' \<Longrightarrow> adds (walk b d f) st' (scan_fn b d f st')"
  shows "adds (walk_device walk sp bus device) st (scan_device_with scan_fn bus device st)"
proof -
  let ?rest = "if is_single_function_device (conf_header_type sp bus device 0) then []
    else concat (map (walk bus device) (filter (present sp bus device) (map of_nat [1..<8])))"
  have "adds (walk bus device 0 @ ?rest) st (scan_device_with scan_fn bus device st)"
    unfolding scan_device_with_def
  proof (rule adds_bind_simple [OF scan [OF assms(1,3,2)] assms(1)])
    fix st' assume st': "pci_ok st'" "pci_space st' = pci_space st" "pci_num_device st + length (walk bus device 0) = pci_num_device st'"
    let ?st2 = "write_address (make_address bus device 0 0x0c) st'"
    have "adds (concat (map (walk bus device) (filter (\<lambda>x. present sp bus device x) (map of_nat [1..<8])))) ?st2
      (scan_each (\<lambda>function st. let (vendor, st1) = read_vendor_id bus device function st in
         if vendor = 0xffff then Some (KSuccess, st1) else scan_fn bus device function st1) (map of_nat [1..<8]) ?st2)"
      using st' assms(2,3) by (intro scan_present_adds [where k=k] scan) auto
    with st' adds_none [of ?st2] assms(3) show "adds ?rest st' (let (header_type, st2) = read_header_type bus device 0 st' in
        if is_single_function_device header_type then Some (KSuccess, st2)
        else scan_each (\<lambda>function st. let (vendor, st1) = read_vendor_id bus device function st in
         if vendor = 0xffff then Some (KSuccess, st1) else scan_fn bus device function st1) (map of_nat [1..<8]) st2)"
      by (simp del: upt_rec_numeral)
  qed
  then show ?thesis by (simp add: walk_device_def device_functions_def del: upt_rec_numeral split: if_splits)
qed

lemma scan_bus_with_adds:
  assumes "pci_ok st" and "k \<le> pci_num_device st" and "pci_space st = sp"
    and scan: "\<And>b d f st'. pci_ok st' \<Longrightarrow> pci_space st' = sp \<Longrightarrow> k \<le> pci_num_device st' \<Longrightarrow> adds (walk b d f) st' (scan_fn b d f st')"
  shows "adds (walk_bus walk sp bus) st (scan_bus_with scan_fn bus st)"
  unfolding scan_bus_with_def walk_bus_def bus_devices_def
  using scan by (intro scan_present_adds [OF assms(1-3)] scan_device_with_adds [where k=k]) auto

text \<open>Every bridge on the way takes a place of the table, so that many bridges can be crossed.\<close>

lemma scan_function_adds:
  assumes "pci_ok st" and "33 \<le> n + pci_num_device st" and "pci_space st = sp"
  shows "adds (walk_function sp n b d f) st (scan_function n b d f st)"
  using assms
proof (induction n arbitrary: b d f st)
  case 0
  then show ?case by (simp add: pci_ok_def)
next
  case (Suc n)
  let ?cc = "conf_class_code sp b d f"
  let ?rest = "if match_sub 0x06 0x04 ?cc then walk_bus (walk_function sp n) sp (secondary_bus sp b d f) else []"
  let ?st2 = "write_address (make_address b d f 0x0c) (write_address (make_address b d f 0x08) st)"
  have "adds ([function_info sp b d f] @ ?rest) ?st2
    (Option.bind (add_device (function_info sp b d f) ?st2) (\<lambda>(err, st3).
      if is_error err then Some (err, st3)
      else if match_sub 0x06 0x04 ?cc
      then (let (bus_numbers, st4) = read_bus_numbers b d f st3;
                secondary_bus = ucast (drop_bit 8 bus_numbers AND 0xff)
            in scan_bus_with (scan_function n) secondary_bus st4)
      else Some (KSuccess, st3)))"
  proof (rule adds_bind_simple)
    show "adds [function_info sp b d f] ?st2 (add_device (function_info sp b d f) ?st2)"
      using Suc.prems by (intro add_device_adds) simp
    fix st' assume st': "pci_ok st'" "pci_space st' = pci_space ?st2"
      "pci_num_device ?st2 + length [function_info sp b d f] = pci_num_device st'"
    have "adds (walk_bus (walk_function sp n) sp b) (write_address a st') (scan_bus_with (scan_function n) b (write_address a st'))" for a b
      using st' Suc.prems by (intro scan_bus_with_adds [where k="pci_num_device st'"] Suc.IH) auto
    with st' Suc.prems show "adds ?rest st' (if match_sub 0x06 0x04 ?cc
      then (let (bus_numbers, st4) = read_bus_numbers b d f st';
                secondary_bus = ucast (drop_bit 8 bus_numbers AND 0xff)
            in scan_bus_with (scan_function n) secondary_bus st4)
      else Some (KSuccess, st'))"
      by (auto simp: secondary_bus_def adds_none)
  qed (use Suc.prems in simp)
  with Suc.prems show ?case by (simp add: function_info_def)
qed

text \<open>
  C25: the scan of all buses returns on every configuration space, also when bridges lead back to a bus
  that was scanned.  The table holds the functions in the order of the walk, and the
  error \<open>kFull\<close> is reported exactly when there are more than 32.\<close>

theorem scan_all_bus_walk:
  assumes "length (pci_devices st) = 32"
  shows "\<exists>err st'. scan_all_bus st = Some (err, st') \<and> pci_num_device st' \<le> 32
    \<and> take (pci_num_device st') (pci_devices st') = take 32 (all_functions (pci_space st))
    \<and> err = (if length (all_functions (pci_space st)) \<le> 32 then KSuccess else KFull)"
proof -
  let ?sp = "pci_space st"
  let ?st1 = "write_address (make_address 0 0 0 0x0c) (st\<lparr>pci_num_device := 0\<rparr>)"
  have ok: "pci_ok ?st1" "pci_space ?st1 = ?sp" "pci_list ?st1 = []"
    using assms by (simp_all add: pci_ok_def pci_list_def)
  have bus: "adds (walk_bus (walk_function ?sp scan_fuel) ?sp b) st' (scan_bus b st')"
    if "pci_ok st'" "pci_space st' = ?sp" for b st'
    unfolding scan_bus_def using that
    by (intro scan_bus_with_adds [where k=0] scan_function_adds) (simp_all add: scan_fuel_def)
  have "adds (all_functions ?sp) ?st1 (scan_all_bus st)"
  proof (cases "is_single_function_device (conf_header_type ?sp 0 0 0)")
    case True
    then show ?thesis
      using bus [of ?st1 0] ok by (simp add: scan_all_bus_def all_functions_def root_buses_def del: upt_rec_numeral)
  next
    case False
    have "adds (concat (map (walk_bus (walk_function ?sp scan_fuel) ?sp) (filter (\<lambda>x. present ?sp 0 0 x) (map of_nat [0..<8])))) ?st1
      (scan_each (\<lambda>function st. let (vendor, st1) = read_vendor_id 0 0 function st in
         if vendor = 0xffff then Some (KSuccess, st1) else scan_bus function st1) (map of_nat [0..<8]) ?st1)"
      using ok by (intro scan_present_adds [where k=0] bus) auto
    with False ok show ?thesis by (simp add: scan_all_bus_def all_functions_def root_buses_def del: upt_rec_numeral)
  qed
  then show ?thesis using ok by (auto simp: adds_def pci_ok_def pci_list_def)
qed

text \<open>A bus with one device of one function, a host bridge.\<close>

definition sample_space :: config_space where
  "sample_space a =
    (if a = 0x80000000 then 0x12378086 else if a = 0x80000008 then 0x06000000 else if a = 0x8000000c then 0
     else 0xffffffff)"

definition sample_bus :: pci where
  "sample_bus = \<lparr>pci_address = 0, pci_space = sample_space,
     pci_devices = replicate 32 (function_info sample_space 1 1 1), pci_num_device = 0\<rparr>"

lemma sample_functions: "all_functions sample_space = [function_info sample_space 0 0 0]"
  by code_simp

theorem scan_all_bus_walk_witness:
  "\<exists>st'. scan_all_bus sample_bus = Some (KSuccess, st') \<and> pci_num_device st' \<le> 32
    \<and> take (pci_num_device st') (pci_devices st') = [function_info sample_space 0 0 0]"
  using scan_all_bus_walk [of sample_bus] sample_functions by (simp add: sample_bus_def)

end
