(* ===== verification/Pci_Msi.thy ===== *)
theory Pci_Msi
  imports Pci_Scan
begin

unbundle bit_operations_syntax

text \<open>
  What \<open>ConfigureMSI\<close> programs: it walks the list of capabilities, takes the last one of each kind,
  and changes three registers of the MSI capability.
\<close>

section \<open>Register addresses\<close>

lemma aligned_reg: "unat r mod 4 = 0 \<Longrightarrow> r AND 0xfc = r" for r :: u8
proof -
  assume "unat r mod 4 = 0"
  then have "unat (r AND NOT (mask 2)) = unat r"
    using mult_div_mod_eq [of 4 "unat r"] by (simp add: and_not_mask_unat)
  moreover have "NOT (mask 2) = (0xfc :: u8)" by (simp add: mask_eq_exp_minus_1)
  ultimately show ?thesis by (simp add: word_unat_eq_iff)
qed

lemma is_up_8_32: "is_up (ucast :: u8 \<Rightarrow> u32)"
  by (simp add: is_up)

lemma take_bit_reg: "take_bit 8 (ucast r :: u32) = ucast r" for r :: u8
  by (rule bit_word_eqI) (auto simp: bit_simps dest: bit_imp_le_length)

lemma make_address_low: "take_bit 8 (make_address b d f r) = ucast (r AND 0xfc)"
  by (simp add: make_address_def take_bit_push_bit unsigned_and_eq take_bit_reg)

lemma make_address_inj:
  assumes "unat r mod 4 = 0" and "unat r' mod 4 = 0"
  shows "make_address b d f r = make_address b d f r' \<longleftrightarrow> r = r'"
proof
  assume "make_address b d f r = make_address b d f r'"
  then have "(ucast (r AND 0xfc) :: u32) = ucast (r' AND 0xfc)" by (metis make_address_low)
  then have "(ucast r :: u32) = ucast r'" using assms by (simp only: aligned_reg)
  then have "uint r = uint r'" by (metis uint_up_ucast is_up_8_32)
  then show "r = r'" by (simp add: word_uint_eq_iff)
qed simp

text \<open>The address of a function's register, and the registers of a capability that lies in the space.\<close>

definition reg_addr_of :: "pci_device \<Rightarrow> u8 \<Rightarrow> u32" where
  "reg_addr_of dev r = make_address (pd_bus dev) (pd_device dev) (pd_function dev) r"

definition cap_inside :: "u8 \<Rightarrow> bool" where
  "cap_inside c \<longleftrightarrow> unat c mod 4 = 0 \<and> unat c + 24 \<le> 256"

lemma cap_regs:
  assumes "cap_inside c" and "k \<in> {0, 4, 8, 12, 16, 20}"
  shows "unat (c + k) = unat c + unat k" "unat (c + k) mod 4 = 0"
proof -
  have k: "unat k \<le> 20" "unat k mod 4 = 0" using assms(2) by auto
  show u: "unat (c + k) = unat c + unat k" using assms(1) k by (intro unat_add_no_wrap) (simp add: cap_inside_def)
  show "unat (c + k) mod 4 = 0" using assms(1) k unfolding u by (simp add: cap_inside_def mod_add_eq [symmetric])
qed

lemma cap_reg_inj:
  assumes "cap_inside c" and "k \<in> {0, 4, 8, 12, 16, 20}" and "k' \<in> {0, 4, 8, 12, 16, 20}"
  shows "reg_addr_of dev (c + k) = reg_addr_of dev (c + k') \<longleftrightarrow> k = k'"
  unfolding reg_addr_of_def using make_address_inj [OF cap_regs(2) [OF assms(1,2)] cap_regs(2) [OF assms(1,3)]] by simp

lemma cap_regs_distinct: "cap_inside c \<Longrightarrow> distinct (map (reg_addr_of dev) [c, c + 4, c + 8, c + 12, c + 16, c + 20])"
  using cap_reg_inj [of c 0 _ dev] cap_reg_inj [of c 4 _ dev] cap_reg_inj [of c 8 _ dev] cap_reg_inj [of c 12 _ dev]
    cap_reg_inj [of c 16 _ dev]
  by simp

section \<open>The capability after the configuration\<close>

text \<open>Hardware whose registers keep what is written to them and change nothing else.\<close>

definition keeps_written :: "config_store \<Rightarrow> bool" where
  "keeps_written store \<longleftrightarrow> (\<forall>a v sp. store a v sp = sp(a := v))"

definition msi_data_reg :: "u8 \<Rightarrow> u32 \<Rightarrow> u8" where
  "msi_data_reg c h = (if addr_64_capable h then c + 12 else c + 8)"

definition msi_programmed :: "pci_device \<Rightarrow> u8 \<Rightarrow> u32 \<Rightarrow> u32 \<Rightarrow> u32 \<Rightarrow> config_space \<Rightarrow> config_space" where
  "msi_programmed dev c msg_addr msg_data n sp =
    (let h = sp (reg_addr_of dev c) in
     sp(reg_addr_of dev c := msi_enabled_header n h,
        reg_addr_of dev (c + 4) := msg_addr,
        reg_addr_of dev (msi_data_reg c h) := msg_data))"

lemma write_conf_reg_space:
  "keeps_written store \<Longrightarrow>
    pci_space (write_conf_reg store dev r v st) = (pci_space st)(reg_addr_of dev r := v)"
  by (simp add: keeps_written_def write_conf_reg_def write_data_def write_address_def reg_addr_of_def)

lemma enabled_header_fields:
  "field_get msi_header_layout ''msi_enable'' (msi_enabled_header n h) = 1"
  "f \<noteq> ''msi_enable'' \<Longrightarrow> f \<noteq> ''multi_msg_enable'' \<Longrightarrow>
    field_get msi_header_layout f (msi_enabled_header n h) = field_get msi_header_layout f h"
  by (auto simp: msi_enabled_header_def fields_set_def Let_def field_get_set_other)
    (simp_all add: field_get_def field_set_def msi_header_layout_def)

lemma write_msi_capability_space:
  assumes "keeps_written store"
  shows "pci_space (write_msi_capability store dev c mc st) =
    (let d = msi_data_reg c (mc_header mc);
         sp1 = (pci_space st)(reg_addr_of dev c := mc_header mc, reg_addr_of dev (c + 4) := mc_msg_addr mc);
         sp2 = (if addr_64_capable (mc_header mc) then sp1(reg_addr_of dev (c + 8) := mc_msg_upper_addr mc) else sp1);
         sp3 = sp2(reg_addr_of dev d := mc_msg_data mc)
     in if per_vector_mask_capable (mc_header mc)
        then sp3(reg_addr_of dev (d + 4) := mc_mask_bits mc, reg_addr_of dev (d + 8) := mc_pending_bits mc) else sp3)"
  using assms by (simp add: write_msi_capability_def Let_def write_conf_reg_space msi_data_reg_def)

lemma read_msi_capability_parts:
  fixes st dev c
  defines "mc \<equiv> fst (read_msi_capability dev c st)" and "sp \<equiv> pci_space st"
  shows "mc_header mc = sp (reg_addr_of dev c)" "mc_msg_addr mc = sp (reg_addr_of dev (c + 4))"
    "addr_64_capable (mc_header mc) \<Longrightarrow> mc_msg_upper_addr mc = sp (reg_addr_of dev (c + 8))"
    "per_vector_mask_capable (mc_header mc) \<Longrightarrow>
      mc_mask_bits mc = sp (reg_addr_of dev (msi_data_reg c (mc_header mc) + 4))"
    "per_vector_mask_capable (mc_header mc) \<Longrightarrow>
      mc_pending_bits mc = sp (reg_addr_of dev (msi_data_reg c (mc_header mc) + 8))"
    "pci_space (snd (read_msi_capability dev c st)) = sp"
  unfolding mc_def sp_def
  by (auto simp: read_msi_capability_def Let_def conf_def reg_addr_of_def msi_data_reg_def split: if_splits)

lemma store_back:
  "distinct [a, b, c, d, e, g] \<Longrightarrow> f(a := x, b := y, c := f c, d := z, e := f e, g := f g) = f(a := x, b := y, d := z)"
  "distinct [a, b, c, d] \<Longrightarrow> f(a := x, b := y, c := f c, d := z) = f(a := x, b := y, d := z)"
  "distinct [a, b, c, d, e] \<Longrightarrow> f(a := x, b := y, c := z, d := f d, e := f e) = f(a := x, b := y, c := z)"
  for f :: "'a \<Rightarrow> 'b"
  by (auto simp: fun_eq_iff)

lemma configure_msi_register_space:
  assumes "keeps_written store" and c: "cap_inside c"
  shows "fst (configure_msi_register store dev c msg_addr msg_data n st) = KSuccess"
    "pci_space (snd (configure_msi_register store dev c msg_addr msg_data n st)) =
      msi_programmed dev c msg_addr msg_data n (pci_space st)"
proof -
  let ?mc = "fst (read_msi_capability dev c st)" and ?st1 = "snd (read_msi_capability dev c st)"
  let ?h = "pci_space st (reg_addr_of dev c)"
  let ?mc' = "?mc\<lparr>mc_header := msi_enabled_header n ?h, mc_msg_addr := msg_addr, mc_msg_data := msg_data\<rparr>"
  have e: "configure_msi_register store dev c msg_addr msg_data n st =
      (KSuccess, write_msi_capability store dev c ?mc' ?st1)"
    using read_msi_capability_parts(1) [of dev c st] by (simp add: configure_msi_register_def case_prod_beta Let_def)
  then show "fst (configure_msi_register store dev c msg_addr msg_data n st) = KSuccess" by simp
  have flags: "addr_64_capable (msi_enabled_header n ?h) = addr_64_capable ?h"
    "per_vector_mask_capable (msi_enabled_header n ?h) = per_vector_mask_capable ?h"
    "msi_data_reg c (msi_enabled_header n ?h) = msi_data_reg c ?h"
    by (simp_all add: addr_64_capable_def per_vector_mask_capable_def msi_data_reg_def enabled_header_fields)
  note parts = read_msi_capability_parts [of dev c st]
  have hdr: "mc_header ?mc = ?h" by (rule parts(1))
  note parts' = parts(3-5) [unfolded hdr]
  have d: "distinct [reg_addr_of dev c, reg_addr_of dev (c + 4), reg_addr_of dev (8 + c), reg_addr_of dev (12 + c),
      reg_addr_of dev (16 + c), reg_addr_of dev (20 + c)]"
    "reg_addr_of dev (c + 8) = reg_addr_of dev (8 + c)" "reg_addr_of dev (c + 12) = reg_addr_of dev (12 + c)"
    using cap_regs_distinct [OF c, of dev] by (simp_all add: add.commute [of _ c])
  show "pci_space (snd (configure_msi_register store dev c msg_addr msg_data n st)) =
      msi_programmed dev c msg_addr msg_data n (pci_space st)"
    unfolding e snd_conv write_msi_capability_space [OF assms(1)] msi_programmed_def Let_def parts(6)
    using parts' d
    by (cases "addr_64_capable ?h"; cases "per_vector_mask_capable ?h")
      (simp_all add: flags msi_data_reg_def store_back)
qed

section \<open>The list of capabilities\<close>

definition cap_id_at :: "config_space \<Rightarrow> pci_device \<Rightarrow> u8 \<Rightarrow> u32" where
  "cap_id_at sp dev c = field_get capability_header_layout ''cap_id'' (sp (reg_addr_of dev c))"

definition next_cap :: "config_space \<Rightarrow> pci_device \<Rightarrow> u8 \<Rightarrow> u8" where
  "next_cap sp dev c = ucast (field_get capability_header_layout ''next_ptr'' (sp (reg_addr_of dev c)))"

text \<open>The capabilities from an address on, up to the null pointer.\<close>

fun cap_chain :: "config_space \<Rightarrow> pci_device \<Rightarrow> u8 \<Rightarrow> u8 list \<Rightarrow> bool" where
  "cap_chain sp dev a [] \<longleftrightarrow> a = 0"
| "cap_chain sp dev a (c # cs) \<longleftrightarrow> a = c \<and> c \<noteq> 0 \<and> cap_chain sp dev (next_cap sp dev c) cs"

definition last_with :: "config_space \<Rightarrow> pci_device \<Rightarrow> u32 \<Rightarrow> u8 list \<Rightarrow> u8 \<Rightarrow> u8" where
  "last_with sp dev i cs z = last (z # filter (\<lambda>c. cap_id_at sp dev c = i) cs)"

lemma last_with_Cons:
  "last_with sp dev i (c # cs) z = last_with sp dev i cs (if cap_id_at sp dev c = i then c else z)"
  by (simp add: last_with_def)

lemma find_msi_capabilities_chain:
  assumes "cap_chain sp dev a cs" and "pci_space st = sp"
  shows "\<exists>st'. find_msi_capabilities dev a msi msix st =
      Some ((last_with sp dev kCapabilityMSI cs msi, last_with sp dev kCapabilityMSIX cs msix), st')
    \<and> pci_space st' = sp"
  using assms
proof (induction cs arbitrary: a msi msix st)
  case Nil
  then show ?case by (simp add: find_msi_capabilities.simps last_with_def)
next
  case (Cons c cs)
  let ?st1 = "write_address (reg_addr_of dev c) st"
  have c: "a = c" "c \<noteq> 0" "cap_chain sp dev (next_cap sp dev c) cs" using Cons.prems(1) by auto
  have id: "kCapabilityMSI \<noteq> kCapabilityMSIX" by (simp add: kCapabilityMSI_def kCapabilityMSIX_def)
  have step: "find_msi_capabilities dev a msi msix st =
    find_msi_capabilities dev (next_cap sp dev c)
      (if cap_id_at sp dev c = kCapabilityMSI then c else msi)
      (if cap_id_at sp dev c = kCapabilityMSIX then c else msix) ?st1"
    using c(1,2) Cons.prems(2) id
    by (subst find_msi_capabilities.simps)
      (simp add: read_capability_header_def cap_id_at_def next_cap_def conf_def reg_addr_of_def)
  show ?case
    using Cons.IH [OF c(3), of ?st1] Cons.prems(2) unfolding step last_with_Cons by simp
qed

lemma cap_chain_nonzero: "cap_chain sp dev a cs \<Longrightarrow> c \<in> set cs \<Longrightarrow> c \<noteq> 0"
  by (induction cs arbitrary: a) auto

lemma last_with_eq:
  "last_with sp dev i cs z =
    (case rev (filter (\<lambda>c. cap_id_at sp dev c = i) cs) of [] \<Rightarrow> z | c # _ \<Rightarrow> c)"
  by (auto simp: last_with_def rev_swap split: list.split)

lemma last_with_nonzero:
  assumes "cap_chain sp dev a cs"
  shows "last_with sp dev i cs 0 \<noteq> 0 \<longleftrightarrow> (\<exists>c \<in> set cs. cap_id_at sp dev c = i)"
proof (cases "filter (\<lambda>c. cap_id_at sp dev c = i) cs")
  case Nil
  then show ?thesis by (auto simp: last_with_def filter_empty_conv)
next
  case (Cons c ms)
  then have "last_with sp dev i cs 0 \<in> set (filter (\<lambda>c. cap_id_at sp dev c = i) cs)" by (simp add: last_with_def)
  then show ?thesis using cap_chain_nonzero [OF assms] by auto
qed

lemma take_bit_word_eq_self_small: "x < 8 \<Longrightarrow> take_bit 3 x = x" for x :: u32
  by (simp add: word_unat_eq_iff unsigned_take_bit_eq take_bit_nat_eq_self_iff word_less_nat_alt)

lemma enable_field:
  "field_get msi_header_layout ''multi_msg_enable'' (msi_enabled_header n h) =
    min (field_get msi_header_layout ''multi_msg_capable'' h) n"
proof -
  let ?k = "field_get msi_header_layout ''multi_msg_capable'' h"
  have k: "?k < 8"
  proof -
    have "?k = take_bit 3 (drop_bit 17 h)" by (simp add: field_get_def bf_get_def msi_header_layout_def)
    moreover have "take_bit 3 (unat (drop_bit 17 h)) < 2 ^ 3" by (rule take_bit_nat_less_exp)
    ultimately show ?thesis by (simp add: word_less_nat_alt unsigned_take_bit_eq)
  qed
  have m: "(if ?k \<le> n then ?k else n) = min ?k n" by (simp add: min_def)
  have "field_get msi_header_layout ''multi_msg_enable'' (msi_enabled_header n h) = take_bit 3 (min ?k n)"
    unfolding msi_enabled_header_def Let_def fields_set_def m
    by (simp add: field_get_set_other)
      (rule field_get_set_same [where lo=20], simp_all add: msi_header_layout_def layout_width_def)
  also have "\<dots> = min ?k n" using k by (intro take_bit_word_eq_self_small) (simp add: min_less_iff_disj)
  finally show ?thesis .
qed

text \<open>
  C26: on a list of capabilities that ends, \<open>ConfigureMSI\<close> takes the last MSI capability and changes
  its header, its message address and its message data and no other register; the capability is
  enabled, for the number of vectors asked for or, if that is less, the number the device can do.
  Without an MSI capability nothing is written and the error tells whether there is an MSI-X one.
\<close>

theorem configure_msi_programs:
  assumes "keeps_written store" and "cap_chain sp dev (ucast (sp (reg_addr_of dev 0x34) AND 0xff)) cs"
    and "\<forall>c \<in> set cs. cap_inside c" and "pci_space st = sp"
  shows "\<exists>err st'. configure_msi store dev msg_addr msg_data n st = Some (err, st')
    \<and> (case rev (filter (\<lambda>c. cap_id_at sp dev c = kCapabilityMSI) cs) of
         [] \<Rightarrow> pci_space st' = sp
           \<and> err = (if \<exists>c \<in> set cs. cap_id_at sp dev c = kCapabilityMSIX then KNotImplemented else KNoPCIMSI)
       | c # _ \<Rightarrow> err = KSuccess \<and> pci_space st' = msi_programmed dev c msg_addr msg_data n sp
           \<and> field_get msi_header_layout ''msi_enable'' (pci_space st' (reg_addr_of dev c)) = 1
           \<and> field_get msi_header_layout ''multi_msg_enable'' (pci_space st' (reg_addr_of dev c)) =
               min (field_get msi_header_layout ''multi_msg_capable'' (sp (reg_addr_of dev c))) n)"
proof -
  let ?st1 = "write_address (reg_addr_of dev 0x34) st"
  let ?msi = "last_with sp dev kCapabilityMSI cs 0" and ?msix = "last_with sp dev kCapabilityMSIX cs 0"
  obtain st2 where st2: "find_msi_capabilities dev (ucast (sp (reg_addr_of dev 0x34) AND 0xff)) 0 0 ?st1 = Some ((?msi, ?msix), st2)"
    "pci_space st2 = sp"
    using find_msi_capabilities_chain [OF assms(2), of ?st1 0 0] assms(4) by auto
  have e: "configure_msi store dev msg_addr msg_data n st =
    Some (if ?msi \<noteq> 0 then configure_msi_register store dev ?msi msg_addr msg_data n st2
          else if ?msix \<noteq> 0 then configure_msix_register dev ?msix msg_addr msg_data n st2 else (KNoPCIMSI, st2))"
    using st2(1) assms(4) by (simp add: configure_msi_def conf_def reg_addr_of_def [symmetric])
  show ?thesis
  proof (cases "rev (filter (\<lambda>c. cap_id_at sp dev c = kCapabilityMSI) cs)")
    case Nil
    then have "?msi = 0" by (simp add: last_with_eq)
    then show ?thesis
      using Nil st2(2) last_with_nonzero [OF assms(2), of kCapabilityMSIX] by (auto simp: e configure_msix_register_def)
  next
    case (Cons c ms)
    then have "c \<in> set (filter (\<lambda>c. cap_id_at sp dev c = kCapabilityMSI) cs)" by (metis list.set_intros(1) set_rev)
    then have c: "c \<in> set cs" by simp
    have msi: "?msi = c" using Cons by (simp add: last_with_eq)
    then have nz: "c \<noteq> 0" and inside: "cap_inside c" using cap_chain_nonzero [OF assms(2)] assms(3) c by auto
    let ?r = "configure_msi_register store dev c msg_addr msg_data n st2"
    note sp' = configure_msi_register_space [OF assms(1) inside, of dev msg_addr msg_data n st2, unfolded st2(2)]
    have "msi_programmed dev c msg_addr msg_data n sp (reg_addr_of dev c) = msi_enabled_header n (sp (reg_addr_of dev c))"
      using cap_reg_inj [OF inside, of 0 _ dev, simplified] by (simp add: msi_programmed_def Let_def msi_data_reg_def)
    then show ?thesis
      using Cons sp' nz msi by (intro exI [of _ "fst ?r"] exI [of _ "snd ?r"]) (simp add: e enabled_header_fields enable_field prod_eq_iff)
  qed
qed

text \<open>A function with an MSI-X and an MSI capability that can send 64-bit addresses and four vectors.\<close>

definition sample_function :: pci_device where
  "sample_function = function_info sample_space 0 0 0"

definition sample_caps :: config_space where
  "sample_caps a = (if a = 0x80000034 then 0x40 else if a = 0x80000040 then 0x5011 else if a = 0x80000050 then 0x00840005 else 0)"

theorem configure_msi_programs_witness:
  "\<exists>st'. configure_msi (\<lambda>a v sp. sp(a := v)) sample_function 0xfee00000 0x4041 0 (sample_bus\<lparr>pci_space := sample_caps\<rparr>) = Some (KSuccess, st')
    \<and> pci_space st' = sample_caps(0x80000050 := 0x00850005, 0x80000054 := 0xfee00000, 0x8000005c := 0x4041)"
proof -
  have chain: "cap_chain sample_caps sample_function (ucast (sample_caps (reg_addr_of sample_function 0x34) AND 0xff)) [0x40, 0x50]"
    by code_simp
  have f: "rev (filter (\<lambda>c. cap_id_at sample_caps sample_function c = kCapabilityMSI) [0x40, 0x50]) = [0x50]" by code_simp
  have a: "reg_addr_of sample_function 0x50 = 0x80000050" "reg_addr_of sample_function 0x54 = 0x80000054"
    "reg_addr_of sample_function (msi_data_reg 0x50 (sample_caps 0x80000050)) = 0x8000005c"
    "msi_enabled_header 0 (sample_caps 0x80000050) = 0x00850005" by code_simp+
  show ?thesis
    using configure_msi_programs [of "\<lambda>a v sp. sp(a := v)", OF _ chain, of "sample_bus\<lparr>pci_space := sample_caps\<rparr>" "0xfee00000" "0x4041" 0]
    unfolding f by (simp add: keeps_written_def cap_inside_def msi_programmed_def a) blast
qed

end
