(* ===== verification/Console_Text.thy ===== *)
theory Console_Text
  imports Layers
begin

text \<open>
  The console of the kernel's log: \<open>Kernel/console.hpp\<close> and \<open>console.cpp\<close>, and \<open>InitializeLayer\<close> of
  \<open>layer.cpp\<close>, which moves it from the screen into a window.

  A \<open>PixelWriter*\<close> is the screen's writer or a window's; windows are in the list the layer manager
  uses as well, also before \<open>layer_manager\<close> is set.  Characters are kept without the sign.
\<close>

datatype con_target = ScreenWriter | WindowWriter nat

record con_world =
  cw_screen :: frame_buffer
  cw_layers :: layer_manager
  cw_has_manager :: bool

record console =
  con_writer :: "con_target option"
  con_window :: "nat option"
  con_layer_id :: u32
  con_fg :: pixel_color
  con_bg :: pixel_color
  con_buffer :: "string list"
  con_row :: nat
  con_column :: nat

definition kRows :: nat where
  "kRows = 25"

definition kColumns :: nat where
  "kColumns = 80"

text \<open>The null character, and the C string in a row; a row without a null is read past its end.\<close>

abbreviation nul :: char where
  "nul \<equiv> CHR 0x00"

definition row_string :: "string \<Rightarrow> string option" where
  "row_string row = (if nul \<in> set row then Some (takeWhile (\<lambda>c. c \<noteq> nul) row) else None)"

definition blank_row :: string where
  "blank_row = replicate (kColumns + 1) nul"

definition console_new :: "pixel_color \<Rightarrow> pixel_color \<Rightarrow> console" where
  "console_new fg_color bg_color =
    \<lparr>con_writer = None, con_window = None, con_layer_id = 0, con_fg = fg_color, con_bg = bg_color,
     con_buffer = replicate kRows blank_row, con_row = 0, con_column = 0\<rparr>"

section \<open>Writers\<close>

definition put_con_window :: "nat \<Rightarrow> window \<Rightarrow> con_world \<Rightarrow> con_world" where
  "put_con_window n w st =
    st\<lparr>cw_layers := (cw_layers st)\<lparr>lm_windows := (lm_windows (cw_layers st))[n := w]\<rparr>\<rparr>"

definition con_write :: "con_target \<Rightarrow> con_world pixel_write" where
  "con_write t pos c st =
    (case t of
       ScreenWriter \<Rightarrow> map_option (\<lambda>s. st\<lparr>cw_screen := s\<rparr>) (fb_write pos c (cw_screen st))
     | WindowWriter n \<Rightarrow> do {
         w \<leftarrow> arr_get (lm_windows (cw_layers st)) n;
         w' \<leftarrow> window_write pos c w;
         Some (put_con_window n w' st)
       })"

text \<open>\<open>Width\<close> and \<open>Height\<close> of a writer.\<close>

definition con_dims :: "con_target \<Rightarrow> con_world \<Rightarrow> (int \<times> int) option" where
  "con_dims t st =
    (case t of
       ScreenWriter \<Rightarrow> Some (fb_width (cw_screen st), fb_height (cw_screen st))
     | WindowWriter n \<Rightarrow> map_option (\<lambda>w. (w_width w, w_height w)) (arr_get (lm_windows (cw_layers st)) n))"

section \<open>The operations\<close>

definition console_clear :: "console \<times> con_world \<Rightarrow> (console \<times> con_world) option" where
  "console_clear p =
    (case p of (c, st) \<Rightarrow> do {
       t \<leftarrow> con_writer c;
       (w, h) \<leftarrow> con_dims t st;
       st1 \<leftarrow> for_each (\<lambda>y. for_each (\<lambda>x. con_write t (vec x y) (con_bg c)) (int_range w)) (int_range h) st;
       Some (c\<lparr>con_buffer := replicate kRows blank_row\<rparr>, st1)
     })"

text \<open>The loop that moves the rows up by one and writes each on the screen.\<close>

fun scroll_rows :: "u8 list \<Rightarrow> 's pixel_write \<Rightarrow> pixel_color \<Rightarrow> nat list \<Rightarrow> string list \<times> 's \<Rightarrow> (string list \<times> 's) option" where
  "scroll_rows font put fg [] p = Some p"
| "scroll_rows font put fg (row # rows) (buf, s) = do {
     below \<leftarrow> arr_get buf (row + 1);
     buf1 \<leftarrow> arr_set buf row below;
     str \<leftarrow> row_string below;
     s1 \<leftarrow> write_string font put (vec 0 (16 * int row)) str fg s;
     scroll_rows font put fg rows (buf1, s1)
   }"

definition console_newline :: "u8 list \<Rightarrow> console \<times> con_world \<Rightarrow> (console \<times> con_world) option" where
  "console_newline font p =
    (case p of (c0, st) \<Rightarrow>
     let c = c0\<lparr>con_column := 0\<rparr> in
     if con_row c < kRows - 1 then Some (c\<lparr>con_row := con_row c + 1\<rparr>, st)
     else do {
       t \<leftarrow> con_writer c;
       (case con_window c of
          Some n \<Rightarrow> do {
            w \<leftarrow> arr_get (lm_windows (cw_layers st)) n;
            w' \<leftarrow> window_move (vec 0 0)
              (rect (vec 0 16) (vec (8 * int kColumns) (16 * (int kRows - 1)))) w;
            st1 \<leftarrow> fill_rectangle (con_write t) (vec 0 (16 * (int kRows - 1))) (vec (8 * int kColumns) 16) (con_bg c)
              (put_con_window n w' st);
            Some (c, st1)
          }
        | None \<Rightarrow> do {
            st1 \<leftarrow> fill_rectangle (con_write t) (vec 0 0) (vec (8 * int kColumns) (16 * int kRows)) (con_bg c) st;
            (buf, st2) \<leftarrow> scroll_rows font (con_write t) (con_fg c) [0..<kRows - 1] (con_buffer c, st1);
            buf1 \<leftarrow> arr_set buf (kRows - 1) blank_row;
            Some (c\<lparr>con_buffer := buf1\<rparr>, st2)
          })
     })"

definition console_put_char :: "u8 list \<Rightarrow> char \<Rightarrow> console \<times> con_world \<Rightarrow> (console \<times> con_world) option" where
  "console_put_char font ch p =
    (case p of (c, st) \<Rightarrow>
     if ch = CHR ''\<newline>'' then console_newline font (c, st)
     else if con_column c < kColumns then do {
       t \<leftarrow> con_writer c;
       st1 \<leftarrow> write_ascii font (con_write t) (vec (int (con_column c) * 8) (int (con_row c) * 16)) ch (con_fg c) st;
       row \<leftarrow> arr_get (con_buffer c) (con_row c);
       row' \<leftarrow> arr_set row (con_column c) ch;
       buf \<leftarrow> arr_set (con_buffer c) (con_row c) row';
       Some (c\<lparr>con_buffer := buf, con_column := con_column c + 1\<rparr>, st1)
     }
     else Some (c, st))"

definition console_put_string :: "u8 list \<Rightarrow> string \<Rightarrow> console \<times> con_world \<Rightarrow> (console \<times> con_world) option" where
  "console_put_string font str p = do {
     (c, st) \<leftarrow> for_each (console_put_char font) str p;
     if cw_has_manager st
     then map_option (\<lambda>lm. (c, st\<lparr>cw_layers := lm\<rparr>)) (lm_draw_id (con_layer_id c) (cw_layers st))
     else Some (c, st)
   }"

definition console_refresh :: "u8 list \<Rightarrow> console \<times> con_world \<Rightarrow> (console \<times> con_world) option" where
  "console_refresh font p =
    (case p of (c, st) \<Rightarrow> do {
       t \<leftarrow> con_writer c;
       st1 \<leftarrow> fill_rectangle (con_write t) (vec 0 0) (vec (8 * int kColumns) (16 * int kRows)) (con_bg c) st;
       st2 \<leftarrow> for_each (\<lambda>row st. do {
         line \<leftarrow> arr_get (con_buffer c) row;
         str \<leftarrow> row_string line;
         write_string font (con_write t) (vec 0 (int row * 16)) str (con_fg c) st
       }) [0..<kRows] st1;
       Some (c, st2)
     })"

definition console_set_writer :: "u8 list \<Rightarrow> con_target \<Rightarrow> console \<times> con_world \<Rightarrow> (console \<times> con_world) option" where
  "console_set_writer font t p =
    (case p of (c, st) \<Rightarrow>
     if con_writer c = Some t then Some (c, st)
     else console_refresh font (c\<lparr>con_writer := Some t, con_window := None\<rparr>, st))"

definition console_set_window :: "u8 list \<Rightarrow> nat \<Rightarrow> console \<times> con_world \<Rightarrow> (console \<times> con_world) option" where
  "console_set_window font n p =
    (case p of (c, st) \<Rightarrow>
     if con_window c = Some n then Some (c, st)
     else console_refresh font (c\<lparr>con_window := Some n, con_writer := Some (WindowWriter n)\<rparr>, st))"

definition console_set_layer_id :: "u32 \<Rightarrow> console \<Rightarrow> console" where
  "console_set_layer_id i c = c\<lparr>con_layer_id := i\<rparr>"

definition initialize_console :: "u8 list \<Rightarrow> con_world \<Rightarrow> (console \<times> con_world) option" where
  "initialize_console font st = do {
     p \<leftarrow> console_set_writer font ScreenWriter (console_new kDesktopFGColor kDesktopBGColor, st);
     console_clear p
   }"

text \<open>
  \<open>InitializeLayer\<close>: the background and the console get a window and a layer each.  The manager's
  constructor has no layers; windows that exist already stay.  There is no result when the screen's
  format is unknown, where the code exits.
\<close>

definition initialize_layer ::
  "u8 list \<Rightarrow> console \<times> con_world \<Rightarrow> (console \<times> con_world \<times> active_layer) option" where
  "initialize_layer font p =
    (case p of (c, st) \<Rightarrow>
     let config = fb_config (cw_screen st);
         w = sint (fc_horizontal_resolution config); h = sint (fc_vertical_resolution config);
         windows = lm_windows (cw_layers st);
         bg = length windows; con = length windows + 1 in
     do {
       (c1, st1) \<leftarrow> console_set_window font con (c, st\<lparr>cw_layers := (cw_layers st)\<lparr>lm_windows :=
         windows @ [window_new w h (fc_pixel_format config),
                    window_new (int kColumns * 8) (int kRows * 16) (fc_pixel_format config)]\<rparr>\<rparr>);
       st2 \<leftarrow> draw_desktop (con_write (WindowWriter bg)) w h st1;
       (let (err, screen) = frame_buffer_initialize (Some (fb_mem (cw_screen st2))) config in
        if is_error err then None
        else
          (let lm0 = set_writer screen ((cw_layers st2)\<lparr>lm_layers := [], lm_stack := [], lm_latest_id := 0\<rparr>);
               (i, lm1) = new_layer lm0;
               lm2 = lm1\<lparr>lm_layers := (lm_layers lm1)[i := layer_move (vec 0 0) (layer_set_window bg (lm_layers lm1 ! i))]\<rparr>;
               (j, lm3) = new_layer lm2;
               lm4 = lm3\<lparr>lm_layers := (lm_layers lm3)[j := layer_move (vec 0 0) (layer_set_window con (lm_layers lm3 ! j))]\<rparr>;
               bglayer_id = ly_id (lm_layers lm4 ! i);
               c2 = console_set_layer_id (ly_id (lm_layers lm4 ! j)) c1
           in Some (c2, st2\<lparr>cw_layers := lm_up_down (con_layer_id c2) 1 (lm_up_down bglayer_id 0 lm4),
                            cw_has_manager := True\<rparr>, active_layer_new)))
     })"

section \<open>Text on a surface\<close>

text \<open>
  The console's text as lines.  A typed character goes to the end of the last line, if it is not full;
  a new line pushes out the first one when there are \<open>kRows\<close>.
\<close>

definition type_char :: "char \<Rightarrow> string list \<Rightarrow> string list" where
  "type_char ch ls =
    (if ch = CHR ''\<newline>'' then (if length ls < kRows then ls else tl ls) @ [[]]
     else if length (last ls) < kColumns then butlast ls @ [last ls @ [ch]]
     else ls)"

definition text_ok :: "string list \<Rightarrow> bool" where
  "text_ok ls \<longleftrightarrow> ls \<noteq> [] \<and> length ls \<le> kRows \<and> (\<forall>l \<in> set ls. length l \<le> kColumns \<and> nul \<notin> set l)"

definition row_of :: "string \<Rightarrow> string" where
  "row_of l = l @ replicate (kColumns + 1 - length l) nul"

definition rows_of :: "string list \<Rightarrow> string list" where
  "rows_of ls = map row_of (ls @ replicate (kRows - length ls) [])"

text \<open>A character the font has a glyph for, and whether its pixel at an offset is set.\<close>

definition has_glyph :: "u8 list \<Rightarrow> char \<Rightarrow> bool" where
  "has_glyph font ch \<longleftrightarrow> (\<exists>g. get_font font ch = Some g \<and> g + 16 \<le> length font)"

definition inked :: "u8 list \<Rightarrow> char \<Rightarrow> int \<Rightarrow> int \<Rightarrow> bool" where
  "inked font ch dx dy \<longleftrightarrow> (\<exists>g. get_font font ch = Some g \<and> glyph_bit font g dx dy)"

text \<open>The colour of a pixel where lines of text are shown from the top left corner in cells of 8 by 16.\<close>

definition inked_text :: "u8 list \<Rightarrow> string list \<Rightarrow> vec2 \<Rightarrow> bool" where
  "inked_text font ls q \<longleftrightarrow>
    (let r = nat (vy q div 16); k = nat (vx q div 8)
     in r < length ls \<and> k < length (ls ! r) \<and> inked font (ls ! r ! k) (vx q mod 8) (vy q mod 16))"

definition text_colour :: "u8 list \<Rightarrow> pixel_color \<Rightarrow> pixel_color \<Rightarrow> string list \<Rightarrow> vec2 \<Rightarrow> pixel_color" where
  "text_colour font fg bg ls q = (if inked_text font ls q then fg else bg)"

definition text_area :: "vec2 \<Rightarrow> bool" where
  "text_area q \<longleftrightarrow> 0 \<le> vx q \<and> vx q < 8 * int kColumns \<and> 0 \<le> vy q \<and> vy q < 16 * int kRows"

lemma cell_offset:
  assumes "0 \<le> x"
  shows "0 \<le> x - 8 * int k \<and> x - 8 * int k < 8 \<longleftrightarrow> nat (x div 8) = k"
    "0 \<le> x - 16 * int k \<and> x - 16 * int k < 16 \<longleftrightarrow> nat (x div 16) = k"
  using assms by auto

lemma inked_offset: "inked font ch dx dy \<Longrightarrow> 0 \<le> dx \<and> dx < 8 \<and> 0 \<le> dy \<and> dy < 16"
  by (auto simp: inked_def glyph_bit_def)

lemma inked_cell:
  assumes "0 \<le> vx q" and "0 \<le> vy q"
  shows "inked font ch (vx q - 8 * int k) (vy q - 16 * int r) \<longleftrightarrow>
    nat (vx q div 8) = k \<and> nat (vy q div 16) = r \<and> inked font ch (vx q mod 8) (vy q mod 16)"
proof -
  have "vx q - 8 * int (nat (vx q div 8)) = vx q mod 8" "vy q - 16 * int (nat (vy q div 16)) = vy q mod 16"
    using assms by (simp_all add: minus_mult_div_eq_mod pos_imp_zdiv_nonneg_iff)
  then show ?thesis
    using inked_offset [of font ch "vx q - 8 * int k" "vy q - 16 * int r"] cell_offset(1) [OF assms(1), of k]
      cell_offset(2) [OF assms(2), of r] by auto
qed

text \<open>The lines of a text with one line or one character more.\<close>

definition inked_line :: "u8 list \<Rightarrow> string \<Rightarrow> nat \<Rightarrow> vec2 \<Rightarrow> bool" where
  "inked_line font l r q \<longleftrightarrow>
    nat (vy q div 16) = r \<and> nat (vx q div 8) < length l
    \<and> inked font (l ! nat (vx q div 8)) (vx q mod 8) (vy q mod 16)"

lemma inked_text_append:
  "inked_text font (ls @ [l]) q \<longleftrightarrow> inked_text font ls q \<or> inked_line font l (length ls) q"
  by (auto simp: inked_text_def inked_line_def Let_def nth_append not_less_eq)

lemma inked_line_append:
  "inked_line font (l @ [ch]) r q \<longleftrightarrow> inked_line font l r q \<or>
    nat (vx q div 8) = length l \<and> nat (vy q div 16) = r \<and> inked font ch (vx q mod 8) (vy q mod 16)"
  by (auto simp: inked_line_def nth_append not_less_eq)

lemma inked_text_blank [simp]: "inked_text font (ls @ replicate n []) q = inked_text font ls q"
  by (auto simp: inked_text_def Let_def nth_append)

lemma row_string_row_of: "length l \<le> kColumns \<Longrightarrow> nul \<notin> set l \<Longrightarrow> row_string (row_of l) = Some l"
proof -
  assume l: "length l \<le> kColumns" "nul \<notin> set l"
  then have "kColumns + 1 - length l = Suc (kColumns - length l)" by simp
  then have "row_of l = l @ nul # replicate (kColumns - length l) nul" by (simp only: row_of_def replicate_Suc)
  then show "row_string (row_of l) = Some l"
    using l(2) by (auto simp: row_string_def takeWhile_tail takeWhile_eq_all_conv)
qed

lemma scroll_rows_append:
  "scroll_rows font put fg (xs @ ys) p = do { p' \<leftarrow> scroll_rows font put fg xs p; scroll_rows font put fg ys p' }"
  by (induction font put fg xs p rule: scroll_rows.induct)
    (auto simp: arr_get_def arr_set_def split: bind_splits)

context canvas
begin

lemma cell:
  assumes "ok s" and "has_glyph font ch"
    and "\<forall>p :: vec2. vx base \<le> vx p \<and> vx p < vx base + 8 \<and> vy base \<le> vy p \<and> vy p < vy base + 16 \<longrightarrow> on_canvas (dims s) p"
  shows "\<exists>s'. write_ascii font put base ch c s = Some s' \<and> ok s' \<and> dims s' = dims s
    \<and> (\<forall>q. on_canvas (dims s) q \<longrightarrow>
          colour s' q = (if inked font ch (vx q - vx base) (vy q - vy base) then c else colour s q))"
proof -
  obtain g where g: "get_font font ch = Some g" "g + 16 \<le> length font" using assms(2) by (auto simp: has_glyph_def)
  have "\<forall>p. glyph_bit font g (vx p - vx base) (vy p - vy base) \<longrightarrow> on_canvas (dims s) p"
    using assms(3) by (auto simp: glyph_bit_def)
  from glyph [OF assms(1) g this, of c] show ?thesis by (simp add: inked_def g)
qed

lemma line:
  assumes "ok s" and "\<forall>ch \<in> set str. has_glyph font ch" and "length str \<le> kColumns" and "r < kRows"
    and "\<forall>p. text_area p \<longrightarrow> on_canvas (dims s) p"
  shows "\<exists>s'. write_string font put (vec 0 (16 * int r)) str c s = Some s' \<and> ok s' \<and> dims s' = dims s
    \<and> (\<forall>q. on_canvas (dims s) q \<longrightarrow> colour s' q = (if inked_line font str r q then c else colour s q))"
  using assms(2,3)
proof (induction str rule: rev_induct)
  case Nil
  then show ?case using assms(1) by (simp add: write_string_def inked_line_def)
next
  case (snoc ch str)
  then obtain s1 where s1: "write_string font put (vec 0 (16 * int r)) str c s = Some s1" "ok s1" "dims s1 = dims s"
    "\<forall>q. on_canvas (dims s) q \<longrightarrow> colour s1 q = (if inked_line font str r q then c else colour s q)" by auto
  let ?base = "vec (int (length str) * 8) (16 * int r)"
  have "\<forall>p :: vec2. vx ?base \<le> vx p \<and> vx p < vx ?base + 8 \<and> vy ?base \<le> vy p \<and> vy p < vy ?base + 16 \<longrightarrow> on_canvas (dims s1) p"
  proof (intro allI impI)
    fix p :: vec2 assume "vx ?base \<le> vx p \<and> vx p < vx ?base + 8 \<and> vy ?base \<le> vy p \<and> vy p < vy ?base + 16"
    then have "text_area p" using snoc.prems(2) assms(4) by (auto simp: text_area_def)
    then show "on_canvas (dims s1) p" using assms(5) s1(3) by simp
  qed
  with cell [OF s1(2), of font ch ?base c] snoc.prems(1) obtain s2 where
    s2: "write_ascii font put ?base ch c s1 = Some s2" "ok s2" "dims s2 = dims s"
      "\<forall>q. on_canvas (dims s) q \<longrightarrow>
        colour s2 q = (if inked font ch (vx q - vx ?base) (vy q - vy ?base) then c else colour s1 q)"
    using s1(3) by auto
  have "write_string font put (vec 0 (16 * int r)) (str @ [ch]) c s = Some s2"
    using s1(1) s2(1) by (simp add: write_string_def for_each_append)
  moreover have "colour s2 q = (if inked_line font (str @ [ch]) r q then c else colour s q)" if q: "on_canvas (dims s) q" for q
    using s1(4) s2(4) q inked_cell [of q font ch "length str" r]
    by (auto simp: inked_line_append on_canvas_def mult.commute [of _ 8])
  ultimately show ?case using s2(2,3) by blast
qed

text \<open>Scrolling: the lines below the first one are written over the first \<open>n\<close> rows.\<close>

lemma scroll:
  assumes "ok s" and "length L = kRows" and "\<forall>l \<in> set L. length l \<le> kColumns \<and> nul \<notin> set l \<and> (\<forall>ch \<in> set l. has_glyph font ch)"
    and "\<forall>p. text_area p \<longrightarrow> on_canvas (dims s) p" and "n < kRows"
  shows "\<exists>s'. scroll_rows font put c [0..<n] (map row_of L, s) = Some (map row_of (take n (tl L) @ drop n L), s')
    \<and> ok s' \<and> dims s' = dims s
    \<and> (\<forall>q. on_canvas (dims s) q \<longrightarrow> colour s' q = (if inked_text font (take n (tl L)) q then c else colour s q))"
  using assms(5)
proof (induction n)
  case 0
  then show ?case using assms(1) by (simp add: inked_text_def)
next
  case (Suc n)
  then obtain s1 where s1: "scroll_rows font put c [0..<n] (map row_of L, s) = Some (map row_of (take n (tl L) @ drop n L), s1)"
    "ok s1" "dims s1 = dims s"
    "\<forall>q. on_canvas (dims s) q \<longrightarrow> colour s1 q = (if inked_text font (take n (tl L)) q then c else colour s q)" by auto
  have n: "Suc n < length L" using Suc.prems assms(2) by simp
  let ?l = "L ! Suc n"
  have l: "length ?l \<le> kColumns" "nul \<notin> set ?l" "\<forall>ch \<in> set ?l. has_glyph font ch"
    using assms(3) nth_mem [OF n] by auto
  have tl: "take (Suc n) (tl L) = take n (tl L) @ [?l]"
    using n by (simp add: take_Suc_conv_app_nth nth_tl)
  obtain s2 where s2: "write_string font put (vec 0 (16 * int n)) ?l c s1 = Some s2" "ok s2" "dims s2 = dims s"
    "\<forall>q. on_canvas (dims s) q \<longrightarrow> colour s2 q = (if inked_line font ?l n q then c else colour s1 q)"
    using line [OF s1(2) l(3,1), of n c] assms(4) Suc.prems s1(3) by auto
  have len: "length (take n (tl L)) = n" using n by simp
  have d: "drop n L = L ! n # ?l # drop (Suc (Suc n)) L"
    using n by (metis Cons_nth_drop_Suc Suc_lessD)
  have "scroll_rows font put c [0..<Suc n] (map row_of L, s) =
      scroll_rows font put c [n] (map row_of (take n (tl L) @ drop n L), s1)"
    by (simp add: scroll_rows_append s1(1) del: upt_Suc) (simp add: upt_Suc scroll_rows_append s1(1))
  also have "\<dots> = Some (map row_of (take (Suc n) (tl L) @ drop (Suc n) L), s2)"
    using s2(1) len n row_string_row_of [OF l(1,2)]
    by (simp add: tl d nth_append ub_simps list_update_append Cons_nth_drop_Suc [symmetric])
  finally have "scroll_rows font put c [0..<Suc n] (map row_of L, s) =
    Some (map row_of (take (Suc n) (tl L) @ drop (Suc n) L), s2)" .
  moreover have "colour s2 q = (if inked_text font (take (Suc n) (tl L)) q then c else colour s q)"
    if "on_canvas (dims s) q" for q
    using s1(4) s2(4) that by (simp add: tl inked_text_append [of font "take n (tl L)", unfolded len])
  ultimately show ?case using s2(2,3) by blast
qed

end

section \<open>The console on the screen\<close>

text \<open>The screen's writer is a canvas; writing on it changes the screen's pixels and nothing else.\<close>

definition screen_like :: "con_world \<Rightarrow> con_world \<Rightarrow> bool" where
  "screen_like st0 st \<longleftrightarrow> fb_ok (cw_screen st) \<and> cw_has_manager st = cw_has_manager st0 \<and> cw_layers st = cw_layers st0"

interpretation scr: canvas "con_write ScreenWriter" "\<lambda>st. fb_colour (cw_screen st)" "\<lambda>st. fb_dims (cw_screen st)"
    "screen_like st0" for st0
proof
  fix s p c assume "screen_like st0 s" "on_canvas (fb_dims (cw_screen s)) p"
  then have ok: "fb_ok (cw_screen s)" and like: "screen_like st0 s" by (simp_all add: screen_like_def)
  from fb_write_on_canvas [OF ok \<open>on_canvas (fb_dims (cw_screen s)) p\<close>, of c] obtain b where
    b: "fb_write p c (cw_screen s) = Some b" "fb_ok b" "fb_dims b = fb_dims (cw_screen s)"
      "\<forall>q. on_canvas (fb_dims (cw_screen s)) q \<longrightarrow> fb_colour b q = (if q = p then c else fb_colour (cw_screen s) q)"
    by (elim exE conjE)
  with like show "\<exists>s'. con_write ScreenWriter p c s = Some s' \<and> screen_like st0 s'
      \<and> fb_dims (cw_screen s') = fb_dims (cw_screen s)
      \<and> (\<forall>q. on_canvas (fb_dims (cw_screen s)) q \<longrightarrow>
            fb_colour (cw_screen s') q = (if q = p then c else fb_colour (cw_screen s) q))"
    by (intro exI [of _ "s\<lparr>cw_screen := b\<rparr>"]) (simp add: con_write_def screen_like_def)
qed

definition on_screen :: "con_world \<Rightarrow> bool" where
  "on_screen st \<longleftrightarrow> fb_ok (cw_screen st) \<and> \<not> cw_has_manager st
    \<and> (\<forall>p. text_area p \<longrightarrow> on_canvas (fb_dims (cw_screen st)) p)"

text \<open>The console's buffer and cursor, and the pixels of the screen, are those of the text.\<close>

definition shows_text :: "u8 list \<Rightarrow> console \<Rightarrow> con_world \<Rightarrow> string list \<Rightarrow> bool" where
  "shows_text font c st ls \<longleftrightarrow>
    text_ok ls \<and> (\<forall>l \<in> set ls. \<forall>ch \<in> set l. has_glyph font ch)
    \<and> con_writer c = Some ScreenWriter \<and> con_window c = None
    \<and> con_buffer c = rows_of ls \<and> con_row c = length ls - 1 \<and> con_column c = length (last ls)
    \<and> on_screen st
    \<and> (\<forall>q. text_area q \<longrightarrow> fb_colour (cw_screen st) q = text_colour font (con_fg c) (con_bg c) ls q)"

lemma rows_of_full: "length ls = kRows \<Longrightarrow> rows_of ls = map row_of ls"
  by (simp add: rows_of_def)

lemma rows_of_snoc: "length ls < kRows \<Longrightarrow> rows_of (ls @ [[]]) = rows_of ls"
  by (cases "kRows - length ls") (auto simp: rows_of_def)

lemma length_rows_of: "length ls \<le> kRows \<Longrightarrow> length (rows_of ls) = kRows"
  by (simp add: rows_of_def)

lemma rows_of_last:
  assumes "ls \<noteq> []" and "length ls \<le> kRows"
  shows "rows_of ls ! (length ls - 1) = row_of (last ls)"
    "(rows_of ls)[length ls - 1 := row_of l] = rows_of (butlast ls @ [l])"
proof -
  obtain xs x where ls: "ls = xs @ [x]" using assms(1) by (cases ls rule: rev_cases) auto
  show "rows_of ls ! (length ls - 1) = row_of (last ls)"
    "(rows_of ls)[length ls - 1 := row_of l] = rows_of (butlast ls @ [l])"
    by (simp_all add: rows_of_def ls nth_append list_update_append)
qed

lemma row_of_put: "length l < kColumns \<Longrightarrow> (row_of l)[length l := ch] = row_of (l @ [ch])"
  by (simp add: row_of_def list_update_append Suc_diff_le)

lemma newline_scrolls:
  assumes sh: "shows_text font c st ls" and full: "length ls = kRows"
  shows "\<exists>c' st'. console_newline font (c, st) = Some (c', st') \<and> shows_text font c' st' (tl ls @ [[]])
    \<and> con_fg c' = con_fg c \<and> con_bg c' = con_bg c"
proof -
  let ?w = "con_write ScreenWriter" and ?n = "kRows - 1"
  have ok: "text_ok ls" "\<forall>l \<in> set ls. \<forall>ch \<in> set l. has_glyph font ch" "on_screen st"
    and c: "con_writer c = Some ScreenWriter" "con_window c = None" "con_buffer c = map row_of ls" "con_row c = ?n"
    using sh full by (auto simp: shows_text_def rows_of_full)
  have like: "screen_like st st" and area: "\<forall>p. text_area p \<longrightarrow> on_canvas (fb_dims (cw_screen st)) p"
    using ok(3) by (auto simp: on_screen_def screen_like_def)
  have rect: "rect_mem (rect (vec 0 0) (vec (8 * int kColumns) (16 * int kRows))) p \<longleftrightarrow> text_area p" for p
    by (auto simp: rect_mem_def text_area_def)
  obtain st1 where st1: "fill_rectangle ?w (vec 0 0) (vec (8 * int kColumns) (16 * int kRows)) (con_bg c) st = Some st1"
    "screen_like st st1" "fb_dims (cw_screen st1) = fb_dims (cw_screen st)"
    "\<forall>q. on_canvas (fb_dims (cw_screen st)) q \<longrightarrow>
      fb_colour (cw_screen st1) q = (if text_area q then con_bg c else fb_colour (cw_screen st) q)"
    using scr.fill [OF like, of "vec 0 0" "vec (8 * int kColumns) (16 * int kRows)" "con_bg c"] area unfolding rect by auto
  have lines: "\<forall>l \<in> set ls. length l \<le> kColumns \<and> nul \<notin> set l \<and> (\<forall>ch \<in> set l. has_glyph font ch)"
    using ok(1,2) by (auto simp: text_ok_def)
  have n: "?n < kRows" by (simp add: kRows_def)
  obtain st2 where st2: "scroll_rows font ?w (con_fg c) [0..<?n] (map row_of ls, st1) =
      Some (map row_of (take ?n (tl ls) @ drop ?n ls), st2)"
    "screen_like st st2" "fb_dims (cw_screen st2) = fb_dims (cw_screen st)"
    "\<forall>q. on_canvas (fb_dims (cw_screen st)) q \<longrightarrow> fb_colour (cw_screen st2) q =
      (if inked_text font (take ?n (tl ls)) q then con_fg c else fb_colour (cw_screen st1) q)"
    using scr.scroll [OF st1(2) full lines _ n, of "con_fg c"] area st1(3) by auto
  have tl: "take ?n (tl ls) = tl ls" "length (tl ls) = ?n" using full by simp_all
  obtain xs x where ls: "ls = xs @ [x]" "length xs = ?n" using full by (cases ls rule: rev_cases) (auto simp: kRows_def)
  let ?c = "c\<lparr>con_column := 0, con_buffer := map row_of (tl ls @ [[]])\<rparr>"
  have "console_newline font (c, st) = Some (?c, st2)"
    using st1(1) st2(1) tl ls c by (simp add: console_newline_def Let_def ub_simps list_update_append row_of_def blank_row_def)
  moreover have "shows_text font ?c st2 (tl ls @ [[]])"
  proof -
    have "set (tl ls) \<subseteq> set ls" by (cases ls) auto
    then have "text_ok (tl ls @ [[]])" "\<forall>l \<in> set (tl ls @ [[]]). \<forall>ch \<in> set l. has_glyph font ch"
      using lines tl(2) n by (auto simp: text_ok_def)
    moreover have "on_screen st2" using st2(2,3) ok(3) by (simp add: on_screen_def screen_like_def)
    moreover have "length (tl ls @ [[]]) = kRows" using tl(2) n by simp
    moreover have "fb_colour (cw_screen st2) q = text_colour font (con_fg c) (con_bg c) (tl ls @ [[]]) q"
      if "text_area q" for q
      using that area st1(4) st2(4) tl(1) by (simp add: text_colour_def inked_text_append inked_line_def)
    ultimately show ?thesis using c by (simp add: shows_text_def rows_of_full)
  qed
  ultimately show ?thesis by (intro exI [of _ ?c] exI [of _ st2]) simp
qed

text \<open>A newline, a character at the end of the last line, and the pixels it changes.\<close>

lemma newline_types:
  assumes sh: "shows_text font c st ls" and nl: "ch = CHR ''\<newline>''"
  shows "\<exists>c' st'. console_put_char font ch (c, st) = Some (c', st') \<and> shows_text font c' st' (type_char ch ls)
    \<and> con_fg c' = con_fg c \<and> con_bg c' = con_bg c"
proof (cases "length ls < kRows")
  case False
  then have "length ls = kRows" using sh by (simp add: shows_text_def text_ok_def)
  with newline_scrolls [OF sh] nl show ?thesis by (simp add: console_put_char_def type_char_def)
next
  case less: True
  let ?c = "c\<lparr>con_column := 0, con_row := con_row c + 1\<rparr>"
  have "ls \<noteq> []" "con_row c = length ls - 1" using sh by (simp_all add: shows_text_def text_ok_def)
  then have "length ls - 1 < kRows - 1" "con_row c + 1 = length ls" using less by (cases ls; simp)+
  then have "console_put_char font ch (c, st) = Some (?c, st)"
    using nl \<open>con_row c = length ls - 1\<close> by (simp add: console_put_char_def console_newline_def)
  moreover have "shows_text font ?c st (ls @ [[]])"
    using sh less \<open>con_row c + 1 = length ls\<close>
    by (auto simp: shows_text_def text_ok_def rows_of_snoc text_colour_def inked_text_append inked_line_def)
  ultimately show ?thesis using nl less by (intro exI [of _ ?c] exI [of _ st]) (simp add: type_char_def)
qed

lemma inked_text_snoc:
  assumes ls: "ls \<noteq> []" and q: "text_area q"
  shows "inked_text font (butlast ls @ [last ls @ [ch]]) q \<longleftrightarrow> inked_text font ls q
    \<or> inked font ch (vx q - int (length (last ls)) * 8) (vy q - int (length ls - 1) * 16)"
proof -
  have nonneg: "0 \<le> vx q" "0 \<le> vy q" using q by (simp_all add: text_area_def)
  have "inked_text font ls q \<longleftrightarrow> inked_text font (butlast ls @ [last ls]) q" using ls by simp
  then show ?thesis
    using inked_cell [OF nonneg, of font ch "length (last ls)" "length ls - 1"]
    by (auto simp: inked_text_append inked_line_append mult.commute [of _ 8] mult.commute [of _ 16])
qed

lemma char_types:
  assumes sh: "shows_text font c st ls" and nl: "ch \<noteq> CHR ''\<newline>''" and g: "has_glyph font ch" "ch \<noteq> nul"
    and room: "length (last ls) < kColumns"
  shows "\<exists>c' st'. console_put_char font ch (c, st) = Some (c', st') \<and> shows_text font c' st' (type_char ch ls)
    \<and> con_fg c' = con_fg c \<and> con_bg c' = con_bg c"
proof -
  have ok: "text_ok ls" "on_screen st" "con_writer c = Some ScreenWriter" "con_buffer c = rows_of ls"
    "con_row c = length ls - 1" "con_column c = length (last ls)"
    using sh by (auto simp: shows_text_def)
  then have ls: "ls \<noteq> []" "length ls \<le> kRows" by (simp_all add: text_ok_def)
  let ?r = "length ls - 1" and ?k = "length (last ls)"
  let ?base = "vec (int ?k * 8) (int ?r * 16)" and ?ls = "butlast ls @ [last ls @ [ch]]"
  have area: "\<forall>p. text_area p \<longrightarrow> on_canvas (fb_dims (cw_screen st)) p" and like: "screen_like st st"
    using ok(2) by (auto simp: on_screen_def screen_like_def)
  have r: "?r < kRows" using ls by (cases ls) auto
  have "\<forall>p :: vec2. vx ?base \<le> vx p \<and> vx p < vx ?base + 8 \<and> vy ?base \<le> vy p \<and> vy p < vy ?base + 16
      \<longrightarrow> on_canvas (fb_dims (cw_screen st)) p"
  proof (intro allI impI)
    fix p :: vec2 assume "vx ?base \<le> vx p \<and> vx p < vx ?base + 8 \<and> vy ?base \<le> vy p \<and> vy p < vy ?base + 16"
    then have "text_area p" using room r by (auto simp: text_area_def)
    then show "on_canvas (fb_dims (cw_screen st)) p" using area by simp
  qed
  from scr.cell [OF like g(1) this, of "con_fg c"] obtain st1 where
    st1: "write_ascii font (con_write ScreenWriter) ?base ch (con_fg c) st = Some st1" "screen_like st st1"
      "fb_dims (cw_screen st1) = fb_dims (cw_screen st)"
      "\<forall>q. on_canvas (fb_dims (cw_screen st)) q \<longrightarrow> fb_colour (cw_screen st1) q =
        (if inked font ch (vx q - vx ?base) (vy q - vy ?base) then con_fg c else fb_colour (cw_screen st) q)"
    by (elim exE conjE)
  let ?c = "c\<lparr>con_buffer := rows_of ?ls, con_column := ?k + 1\<rparr>"
  have row: "?k < length (row_of (last ls))" using room by (simp add: row_of_def)
  have "console_put_char font ch (c, st) = Some (?c, st1)"
    using nl room st1(1) ok(3-6) r row rows_of_last [OF ls] length_rows_of [OF ls(2)] row_of_put [OF room, of ch]
    by (simp add: console_put_char_def ub_simps)
  moreover have "shows_text font ?c st1 ?ls"
  proof -
    have lines: "\<forall>l \<in> set ls. length l \<le> kColumns \<and> nul \<notin> set l \<and> (\<forall>ch \<in> set l. has_glyph font ch)"
      using sh by (auto simp: shows_text_def text_ok_def)
    then have "text_ok ?ls" "\<forall>l \<in> set ?ls. \<forall>ch \<in> set l. has_glyph font ch"
      using ls room g last_in_set [OF ls(1)] by (auto simp: text_ok_def dest!: in_set_butlastD)
    moreover have "on_screen st1" using st1(2,3) ok(2) by (simp add: on_screen_def screen_like_def)
    moreover have "fb_colour (cw_screen st1) q = text_colour font (con_fg c) (con_bg c) ?ls q" if q: "text_area q" for q
      using st1(4) area q sh inked_text_snoc [OF ls(1) q, of font ch] by (simp add: text_colour_def shows_text_def)
    ultimately show ?thesis using sh ls by (simp add: shows_text_def)
  qed
  ultimately show ?thesis using nl room by (intro exI [of _ ?c] exI [of _ st1]) (simp add: type_char_def)
qed

lemma put_char_types:
  assumes sh: "shows_text font c st ls" and ch: "ch = CHR ''\<newline>'' \<or> ch \<noteq> nul \<and> has_glyph font ch"
  shows "\<exists>c' st'. console_put_char font ch (c, st) = Some (c', st') \<and> shows_text font c' st' (type_char ch ls)
    \<and> con_fg c' = con_fg c \<and> con_bg c' = con_bg c"
proof (cases "ch = CHR ''\<newline>''")
  case True
  with sh show ?thesis by (rule newline_types)
next
  case False
  show ?thesis
  proof (cases "length (last ls) < kColumns")
    case True
    with sh False ch show ?thesis by (blast intro: char_types)
  next
    case full: False
    then show ?thesis using False sh
      by (intro exI [of _ c] exI [of _ st]) (simp add: console_put_char_def type_char_def shows_text_def)
  qed
qed

lemma for_each_same: "\<forall>x \<in> set xs. f x s = Some s \<Longrightarrow> for_each f xs s = Some s"
  by (induction xs) auto

lemma empty_text: "rows_of [[]] = replicate kRows blank_row" "\<not> inked_text font [[]] q"
proof -
  have "[[]] @ replicate (kRows - 1) [] = replicate kRows ([] :: string)" by (simp add: kRows_def numeral_eq_Suc)
  then show "rows_of [[]] = replicate kRows blank_row" by (simp add: rows_of_def row_of_def blank_row_def)
  show "\<not> inked_text font [[]] q" using inked_text_append [of font "[]" "[]" q] by (simp add: inked_text_def inked_line_def)
qed

text \<open>A new console on the screen shows an empty line.\<close>

lemma initialize_console_shows:
  assumes "on_screen st"
  shows "\<exists>c' st'. initialize_console font st = Some (c', st') \<and> shows_text font c' st' [[]]
    \<and> con_fg c' = kDesktopFGColor \<and> con_bg c' = kDesktopBGColor"
proof -
  let ?w = "con_write ScreenWriter"
  let ?c = "(console_new kDesktopFGColor kDesktopBGColor)\<lparr>con_writer := Some ScreenWriter\<rparr>"
  have like: "screen_like st st" and area: "\<forall>p. text_area p \<longrightarrow> on_canvas (fb_dims (cw_screen st)) p"
    using assms by (auto simp: on_screen_def screen_like_def)
  have "\<forall>p. rect_mem (rect (vec 0 0) (vec (8 * int kColumns) (16 * int kRows))) p \<longrightarrow> on_canvas (fb_dims (cw_screen st)) p"
    using area by (auto simp: rect_mem_def text_area_def)
  from scr.fill [OF like this, of kDesktopBGColor] obtain st1 where
    st1: "fill_rectangle ?w (vec 0 0) (vec (8 * int kColumns) (16 * int kRows)) kDesktopBGColor st = Some st1"
      "screen_like st st1" "fb_dims (cw_screen st1) = fb_dims (cw_screen st)" by (elim exE conjE)
  have blank: "row_string blank_row = Some []" by (simp add: row_string_def blank_row_def)
  have rows: "for_each (\<lambda>row st. do {
         line \<leftarrow> arr_get (con_buffer ?c) row;
         str \<leftarrow> row_string line;
         write_string font ?w (vec 0 (int row * 16)) str (con_fg ?c) st
       }) [0..<kRows] st1 = Some st1"
    by (rule for_each_same) (simp add: console_new_def blank ub_simps write_string_def)
  have set: "console_set_writer font ScreenWriter (console_new kDesktopFGColor kDesktopBGColor, st) = Some (?c, st1)"
    using st1(1) rows by (simp add: console_set_writer_def console_refresh_def) (simp add: console_new_def)
  let ?W = "fst (fb_dims (cw_screen st))" and ?H = "snd (fb_dims (cw_screen st))"
  have "\<forall>p. rect_mem (rect (vec 0 0) (vec ?W ?H)) p \<longrightarrow> on_canvas (fb_dims (cw_screen st1)) p"
    by (simp add: rect_mem_def on_canvas_def st1(3))
  from scr.fill [OF st1(2) this, of kDesktopBGColor] obtain st2 where
    st2: "fill_rectangle ?w (vec 0 0) (vec ?W ?H) kDesktopBGColor st1 = Some st2"
      "screen_like st st2" "fb_dims (cw_screen st2) = fb_dims (cw_screen st)"
      "\<forall>q. on_canvas (fb_dims (cw_screen st)) q \<longrightarrow> fb_colour (cw_screen st2) q = kDesktopBGColor"
    using st1(3) by (auto simp: rect_mem_def on_canvas_def)
  have pos: "vadd (vec 0 0) (vec x y) = vec x y" for x y by (simp add: vec2_eq_iff)
  let ?c2 = "?c\<lparr>con_buffer := replicate kRows blank_row\<rparr>"
  have "initialize_console font st = Some (?c2, st2)"
    using st2(1) st1(3) unfolding initialize_console_def set fill_rectangle_def pos
    by (simp add: console_clear_def con_dims_def fb_dims_def) (simp add: console_new_def)
  moreover have "shows_text font ?c2 st2 [[]]"
    using st2 assms area
    by (simp add: shows_text_def on_screen_def screen_like_def text_ok_def console_new_def empty_text
        text_colour_def) (simp add: kRows_def)
  ultimately show ?thesis by (intro exI [of _ ?c2] exI [of _ st2]) (simp add: console_new_def)
qed

text \<open>
  C27: a string put on the console of the screen shows: the buffer, the cursor and every pixel of the
  text area are those of the text it extends, where a line ends at 80 characters and the first line
  is pushed out when there are 25.
\<close>

theorem console_shows_text:
  assumes "shows_text font c st ls" and "\<forall>ch \<in> set str. ch = CHR ''\<newline>'' \<or> ch \<noteq> nul \<and> has_glyph font ch"
  shows "\<exists>c' st'. console_put_string font str (c, st) = Some (c', st') \<and> shows_text font c' st' (fold type_char str ls)
    \<and> con_fg c' = con_fg c \<and> con_bg c' = con_bg c"
proof -
  have "\<exists>c' st'. for_each (console_put_char font) str (c, st) = Some (c', st') \<and> shows_text font c' st' (fold type_char str ls)
    \<and> con_fg c' = con_fg c \<and> con_bg c' = con_bg c"
    using assms
  proof (induction str arbitrary: c st ls)
    case (Cons ch str)
    from Cons.prems obtain c1 st1 where
      1: "console_put_char font ch (c, st) = Some (c1, st1)" "shows_text font c1 st1 (type_char ch ls)"
        "con_fg c1 = con_fg c" "con_bg c1 = con_bg c"
      using put_char_types [OF Cons.prems(1), of ch] by auto
    with Cons.IH [OF 1(2)] Cons.prems(2) show ?case by auto
  qed auto
  then show ?thesis by (auto simp: console_put_string_def shows_text_def on_screen_def)
qed

text \<open>A screen of 640 by 400 pixels and a font of blank glyphs.\<close>

definition sample_screen :: con_world where
  "sample_screen =
    \<lparr>cw_screen = snd (frame_buffer_initialize None
       \<lparr>fc_pixels_per_scanline = 0, fc_horizontal_resolution = of_int 640,
        fc_vertical_resolution = of_int 400, fc_pixel_format = PixelRGBResv8\<rparr>),
     cw_layers = sample_manager, cw_has_manager = False\<rparr>"

lemma sample_screen_ok: "on_screen sample_screen"
proof -
  note fb = frame_buffer_new_ok [of PixelRGBResv8 640 400 "cw_screen sample_screen" 0]
  have "fb_ok (cw_screen sample_screen)" "fb_dims (cw_screen sample_screen) = (640, 400)"
    using fb(1,2) by (simp_all add: sample_screen_def known_format_def)
  then show ?thesis
    by (simp add: on_screen_def text_area_def on_canvas_def kColumns_def kRows_def) (simp add: sample_screen_def)
qed

theorem console_shows_text_witness:
  "\<exists>c st c' st'. initialize_console (replicate 4096 0) sample_screen = Some (c, st)
    \<and> console_put_string (replicate 4096 0) (''ok'' @ [CHR ''\<newline>'', CHR ''#'']) (c, st) = Some (c', st')
    \<and> shows_text (replicate 4096 0) c' st' [''ok'', ''#'']"
proof -
  from initialize_console_shows [OF sample_screen_ok] obtain c st where
    0: "initialize_console (replicate 4096 0) sample_screen = Some (c, st)" "shows_text (replicate 4096 0) c st [[]]" by blast
  have g: "has_glyph (replicate 4096 0) CHR ''o''" "has_glyph (replicate 4096 0) CHR ''k''" "has_glyph (replicate 4096 0) CHR ''#''"
    by (simp_all add: has_glyph_def get_font_def)
  have "fold type_char (''ok'' @ [CHR ''\<newline>'', CHR ''#'']) [[]] = [''ok'', ''#'']"
    by (simp add: type_char_def kRows_def kColumns_def)
  with console_shows_text [OF 0(2), of "''ok'' @ [CHR ''\<newline>'', CHR ''#'']"] g 0(1) show ?thesis by fastforce
qed

end
