(* ===== verification/Terminal_View.thy ===== *)
theory Terminal_View
  imports Layers Task_Sched Elf_Loader Pci_Bus
begin

text \<open>
  The terminal's screen: the drawing operations of \<open>Kernel/terminal.hpp\<close> and \<open>terminal.cpp\<close>.

  A terminal draws into a window that the layer manager holds as well.  The world a terminal works in
  has the layer manager with the windows, the tasks it sends messages to, the PCI bus and the memory
  applications are loaded into.
\<close>

record term_world =
  tw_lm :: layer_manager
  tw_tm :: task_manager
  tw_pci :: pci
  tw_loader :: loader_state

record terminal =
  tr_window :: nat
  tr_task_id :: u64
  tr_layer_id :: u32
  tr_x :: nat
  tr_y :: nat
  tr_visible :: bool
  tr_index :: nat
  tr_linebuf :: string
  tr_history :: "string list"
  tr_history_index :: int

definition kTermRows :: nat where
  "kTermRows = 15"

definition kTermColumns :: nat where
  "kTermColumns = 60"

definition kLineMax :: nat where
  "kLineMax = 128"

definition blank_line :: string where
  "blank_line = replicate kLineMax (CHR 0x00)"

text \<open>Messages to the main task.\<close>

definition make_layer_message :: "u64 \<Rightarrow> u32 \<Rightarrow> layer_operation \<Rightarrow> rectangle \<Rightarrow> message" where
  "make_layer_message task_id layer_id op area =
    \<lparr>msg_body = LayerMsg op layer_id (vx (rpos area)) (vy (rpos area)) (vx (rsize area)) (vy (rsize area)),
     msg_src_task = task_id\<rparr>"

definition term_send :: "message \<Rightarrow> term_world \<Rightarrow> term_world option" where
  "term_send m st = map_option (\<lambda>(_, tm). st\<lparr>tw_tm := tm\<rparr>) (send_message 1 m (tw_tm st))"

section \<open>Drawing\<close>

definition term_window :: "nat \<Rightarrow> term_world \<Rightarrow> window option" where
  "term_window n st = arr_get (lm_windows (tw_lm st)) n"

definition put_term_window :: "nat \<Rightarrow> window \<Rightarrow> term_world \<Rightarrow> term_world" where
  "put_term_window n w st = st\<lparr>tw_lm := (tw_lm st)\<lparr>lm_windows := (lm_windows (tw_lm st))[n := w]\<rparr>\<rparr>"

text \<open>The writer \<open>window_->InnerWriter()\<close>.\<close>

definition inner_put :: "nat \<Rightarrow> term_world pixel_write" where
  "inner_put n pos c st = do {
     w \<leftarrow> term_window n st;
     w' \<leftarrow> inner_write pos c w;
     Some (put_term_window n w' st)
   }"

definition calc_cursor_pos :: "terminal \<Rightarrow> vec2" where
  "calc_cursor_pos t = vec (int (tr_x t) * 8 + 4) (int (tr_y t) * 16 + 5)"

definition draw_cursor :: "bool \<Rightarrow> terminal \<Rightarrow> term_world \<Rightarrow> (rectangle \<times> term_world) option" where
  "draw_cursor visible t st =
    map_option (Pair (rect (calc_cursor_pos t) (vec 7 15)))
      (fill_rectangle (inner_put (tr_window t)) (calc_cursor_pos t) (vec 7 15)
        (to_color (if visible then 0xFFFFFF else 0x000000)) st)"

definition blink_cursor :: "terminal \<times> term_world \<Rightarrow> (rectangle \<times> terminal \<times> term_world) option" where
  "blink_cursor p =
    (case p of (t, st) \<Rightarrow> do {
       (inner_area, st1) \<leftarrow> draw_cursor (\<not> tr_visible t) t st;
       Some (rect (vadd (rpos inner_area) kTopLeftMargin) (rsize inner_area), t\<lparr>tr_visible := \<not> tr_visible t\<rparr>, st1)
     })"

definition scroll_one_line :: "terminal \<Rightarrow> term_world \<Rightarrow> term_world option" where
  "scroll_one_line t st = do {
     w \<leftarrow> term_window (tr_window t) st;
     w' \<leftarrow> window_move (vadd kTopLeftMargin (vec 4 4))
       (rect (vadd kTopLeftMargin (vec 4 (4 + 16))) (vec (8 * int kTermColumns) (16 * (int kTermRows - 1)))) w;
     fill_rectangle (inner_put (tr_window t)) (vec 4 (int (tr_y t) * 16 + 4)) (vec (int kTermColumns * 8) 16)
       (to_color 0x000000) (put_term_window (tr_window t) w' st)
   }"

definition term_newline :: "terminal \<times> term_world \<Rightarrow> (terminal \<times> term_world) option" where
  "term_newline p =
    (case p of (t0, st) \<Rightarrow>
     let t = t0\<lparr>tr_x := 0\<rparr> in
     if tr_y t < kTermRows - 1 then Some (t\<lparr>tr_y := tr_y t + 1\<rparr>, st)
     else map_option (Pair t) (scroll_one_line t st))"

text \<open>\<open>Print(const char)\<close>.\<close>

definition term_print_char :: "u8 list \<Rightarrow> char \<Rightarrow> terminal \<times> term_world \<Rightarrow> (terminal \<times> term_world) option" where
  "term_print_char font c p =
    (case p of (t, st) \<Rightarrow>
     if c = CHR ''\<newline>'' then term_newline (t, st)
     else do {
       st1 \<leftarrow> write_ascii font (inner_put (tr_window t)) (calc_cursor_pos t) c (to_color 0xFFFFFF) st;
       if tr_x t = kTermColumns - 1 then term_newline (t, st1) else Some (t\<lparr>tr_x := tr_x t + 1\<rparr>, st1)
     })"

text \<open>
  \<open>Print(const char*, optional<size_t>)\<close>; \<open>str\<close> are the characters of the C string, or as many as the
  length says.  The main task is asked to draw the lines from the old cursor to the new one.
\<close>

definition term_print :: "u8 list \<Rightarrow> string \<Rightarrow> terminal \<times> term_world \<Rightarrow> (terminal \<times> term_world) option" where
  "term_print font str p =
    (case p of (t, st) \<Rightarrow> do {
       (_, st1) \<leftarrow> draw_cursor False t st;
       (t2, st2) \<leftarrow> for_each (term_print_char font) str (t, st1);
       (_, st3) \<leftarrow> draw_cursor True t2 st2;
       w \<leftarrow> term_window (tr_window t2) st3;
       (let margin = kTopLeftMargin;
            before = calc_cursor_pos t; after = calc_cursor_pos t2;
            area = rect (vec (vx margin) (vy margin + vy before)) (vec (vx (inner_size w)) (vy after - vy before + 16))
        in map_option (Pair t2) (term_send (make_layer_message (tr_task_id t2) (tr_layer_id t2) LDrawArea area) st3))
     })"

text \<open>The constructor.\<close>

definition terminal_new :: "u8 list \<Rightarrow> pixel_format \<Rightarrow> u64 \<Rightarrow> term_world \<Rightarrow> (terminal \<times> term_world) option" where
  "terminal_new font fmt task_id st = do {
     w \<leftarrow> toplevel_window_new font (int kTermColumns * 8 + 8 + vx (vadd kTopLeftMargin kBottomRightMargin))
       (int kTermRows * 16 + 8 + vy (vadd kTopLeftMargin kBottomRightMargin)) fmt ''Terminal'';
     w1 \<leftarrow> draw_terminal inner_write (vec 0 0) (inner_size w) w;
     (let n = length (lm_windows (tw_lm st));
          (i, lm1) = new_layer ((tw_lm st)\<lparr>lm_windows := lm_windows (tw_lm st) @ [w1]\<rparr>);
          l = layer_set_draggable True (layer_set_window n (lm_layers lm1 ! i))
      in do {
        (t, st1) \<leftarrow> term_print font ''> ''
          (\<lparr>tr_window = n, tr_task_id = task_id, tr_layer_id = ly_id l, tr_x = 0, tr_y = 0, tr_visible = False,
            tr_index = 0, tr_linebuf = blank_line, tr_history = [], tr_history_index = -1\<rparr>,
           st\<lparr>tw_lm := lm1\<lparr>lm_layers := (lm_layers lm1)[i := l]\<rparr>\<rparr>);
        Some (t\<lparr>tr_history := replicate 8 blank_line\<rparr>, st1)
      })
   }"

end
