(* ===== verification/Terminal_Exec.thy ===== *)
theory Terminal_Exec
  imports Terminal_View Fat_Volume
begin

unbundle bit_operations_syntax

text \<open>
  The commands of the terminal: \<open>ExecuteLine\<close>, \<open>MakeArgVector\<close> and \<open>ExecuteFile\<close> of
  \<open>Kernel/terminal.cpp\<close>.

  The FAT volume, the font and the value of CR3 do not change and are arguments, as are what the two
  arrays \<open>NameIsEqual\<close> does not terminate happen to hold (\<open>Fat_Volume\<close>).  What an application does when
  it is called is an argument too, and so is the text \<open>File():Line()\<close> of an error.
\<close>

section \<open>C strings and formatted output\<close>

abbreviation nul_char :: char where
  "nul_char \<equiv> CHR 0x00"

definition byte_of :: "char \<Rightarrow> u8" where
  "byte_of c = of_char c"

definition char_of_byte :: "u8 \<Rightarrow> char" where
  "char_of_byte b = char_of (unat b)"

text \<open>The C string at the start of an array; undefined without a null character.\<close>

definition c_chars :: "string \<Rightarrow> string option" where
  "c_chars s = (if nul_char \<in> set s then Some (takeWhile (\<lambda>c. c \<noteq> nul_char) s) else None)"

text \<open>\<open>sprintf\<close> into an array: what does not fit with its null character is written past the end.\<close>

definition sprintf_into :: "nat \<Rightarrow> string \<Rightarrow> string option" where
  "sprintf_into n s = (if length s < n then Some s else None)"

text \<open>The conversions \<open>%x\<close> with a width padded by zeros, and \<open>%d\<close> of a byte.\<close>

definition hex_digit :: "nat \<Rightarrow> char" where
  "hex_digit d = (if d < 10 then char_of (48 + d) else char_of (87 + d))"

fun hex_string :: "nat \<Rightarrow> string" where
  "hex_string n = (if n < 16 then [hex_digit n] else hex_string (n div 16) @ [hex_digit (n mod 16)])"

declare hex_string.simps [simp del]

definition hex_padded :: "nat \<Rightarrow> nat \<Rightarrow> string" where
  "hex_padded width n = replicate (width - length (hex_string n)) (CHR ''0'') @ hex_string n"

fun dec_string :: "nat \<Rightarrow> string" where
  "dec_string n = (if n < 10 then [char_of (48 + n)] else dec_string (n div 10) @ [char_of (48 + n mod 10)])"

declare dec_string.simps [simp del]

section \<open>Built-in commands\<close>

definition clear_terminal :: "terminal \<times> term_world \<Rightarrow> (terminal \<times> term_world) option" where
  "clear_terminal p =
    (case p of (t, st) \<Rightarrow> do {
       w \<leftarrow> term_window (tr_window t) st;
       st1 \<leftarrow> fill_rectangle (inner_put (tr_window t)) (vec 0 0) (inner_size w) (to_color 0x000000) st;
       Some (t\<lparr>tr_y := 0\<rparr>, st1)
     })"

definition lspci_line :: "pci_device \<Rightarrow> u16 \<Rightarrow> string" where
  "lspci_line dev vendor_id =
    hex_padded 2 (unat (pd_bus dev)) @ '':'' @ hex_padded 2 (unat (pd_device dev)) @ ''.'' @ dec_string (unat (pd_function dev))
    @ '' vend='' @ hex_padded 4 (unat vendor_id) @ '' head='' @ hex_padded 2 (unat (pd_header_type dev))
    @ '' class='' @ hex_padded 2 (unat (cc_base (pd_class_code dev))) @ ''.'' @ hex_padded 2 (unat (cc_sub (pd_class_code dev)))
    @ ''.'' @ hex_padded 2 (unat (cc_interface (pd_class_code dev))) @ [CHR ''\<newline>'']"

fun lspci_loop :: "u8 list \<Rightarrow> pci_device list \<Rightarrow> terminal \<times> term_world \<Rightarrow> (terminal \<times> term_world) option" where
  "lspci_loop font [] p = Some p"
| "lspci_loop font (dev # devs) (t, st) =
    (let (vendor_id, bus) = read_vendor_id (pd_bus dev) (pd_device dev) (pd_function dev) (tw_pci st) in
     do {
       s \<leftarrow> sprintf_into 64 (lspci_line dev vendor_id);
       p \<leftarrow> term_print font s (t, st\<lparr>tw_pci := bus\<rparr>);
       lspci_loop font devs p
     })"

text \<open>\<open>ls\<close>: the entries of the first cluster of the root directory, \<open>n\<close> of them left.\<close>

fun ls_loop :: "u8 list \<Rightarrow> volume \<Rightarrow> nat \<Rightarrow> nat \<Rightarrow> terminal \<times> term_world \<Rightarrow> (terminal \<times> term_world) option" where
  "ls_loop font vol off 0 p = Some p"
| "ls_loop font vol off (Suc n) p = do {
     d \<leftarrow> dir_entry_at vol off;
     (let (base, ext) = read_name d; special_code = base ! 0 in
      if special_code = 0x00 then Some p
      else if special_code = 0xE5 then ls_loop font vol (off + 32) n p
      else if de_attr d = attribute_bits AttrLongName then ls_loop font vol (off + 32) n p
      else do {
        b \<leftarrow> c_string base;
        e \<leftarrow> c_string ext;
        s \<leftarrow> sprintf_into 64 (map char_of_byte (if ext ! 0 \<noteq> 0 then b @ 0x2E # e else b) @ [CHR ''\<newline>'']);
        p1 \<leftarrow> term_print font s p;
        ls_loop font vol (off + 32) n p1
      })
   }"

definition execute_ls :: "u8 list \<Rightarrow> volume \<Rightarrow> terminal \<times> term_world \<Rightarrow> (terminal \<times> term_world) option" where
  "execute_ls font vol =
    ls_loop font vol (unat (get_cluster_addr vol (ucast (bp_root_cluster (vol_bpb vol)))))
      (unat (bp_bytes_per_sector (vol_bpb vol)) div 32 * unat (bp_sectors_per_cluster (vol_bpb vol)))"

text \<open>\<open>cat\<close>: the loop over the clusters ends at the end of the chain, not of the file.\<close>

partial_function (option) cat_loop ::
  "u8 list \<Rightarrow> volume \<Rightarrow> u32 \<Rightarrow> u32 \<Rightarrow> terminal \<times> term_world \<Rightarrow> (terminal \<times> term_world) option" where
  "cat_loop font vol cluster remain_bytes p =
    (if cluster = 0 \<or> ucast cluster = kEndOfClusterChain then Some p
     else
       (let i = min (bytes_per_cluster vol) (unat remain_bytes) in
        Option.bind (read_bytes vol (unat (get_cluster_addr vol (ucast cluster))) i) (\<lambda>bs.
        Option.bind (for_each (term_print_char font) (map char_of_byte bs) p) (\<lambda>p1.
        Option.bind (next_cluster vol (ucast cluster)) (\<lambda>c.
          cat_loop font vol (ucast c) (remain_bytes - of_nat i) p1)))))"

definition with_cursor_off ::
  "(terminal \<times> term_world \<Rightarrow> (terminal \<times> term_world) option) \<Rightarrow> terminal \<times> term_world \<Rightarrow> (terminal \<times> term_world) option" where
  "with_cursor_off f p =
    (case p of (t, st) \<Rightarrow> do {
       (_, st1) \<leftarrow> draw_cursor False t st;
       (t2, st2) \<leftarrow> f (t, st1);
       (_, st3) \<leftarrow> draw_cursor True t2 st2;
       Some (t2, st3)
     })"

definition find_named :: "u8 \<Rightarrow> u8 \<Rightarrow> volume \<Rightarrow> string \<Rightarrow> directory_entry option option" where
  "find_named b8 e3 vol name = do {
     r \<leftarrow> find_file b8 e3 vol (map byte_of name) 0;
     (case r of None \<Rightarrow> Some None | Some off \<Rightarrow> map_option Some (dir_entry_at vol off))
   }"

text \<open>Without an argument the null pointer is dereferenced, by \<open>FindFile\<close> or by \<open>sprintf\<close>.\<close>

definition execute_cat ::
  "u8 list \<Rightarrow> u8 \<Rightarrow> u8 \<Rightarrow> volume \<Rightarrow> string option \<Rightarrow> terminal \<times> term_world \<Rightarrow> (terminal \<times> term_world) option" where
  "execute_cat font b8 e3 vol first_arg p = do {
     name \<leftarrow> first_arg;
     file_entry \<leftarrow> find_named b8 e3 vol name;
     (case file_entry of
        None \<Rightarrow> do { s \<leftarrow> sprintf_into 64 (''no such file: '' @ name @ [CHR ''\<newline>'']); term_print font s p }
      | Some d \<Rightarrow> with_cursor_off (cat_loop font vol (first_cluster d) (de_file_size d)) p)
   }"

section \<open>Arguments of an application\<close>

definition isspace :: "char \<Rightarrow> bool" where
  "isspace c \<longleftrightarrow> c \<in> {CHR '' '', CHR ''\<newline>'', CHR 0x09, CHR 0x0B, CHR 0x0C, CHR 0x0D}"

record arg_vector =
  av_argc :: nat
  av_index :: nat
  av_argv :: "nat list"
  av_argbuf :: string

text \<open>\<open>push_to_argv\<close>; an entry of \<open>argv\<close> is kept as an offset into \<open>argbuf\<close>.\<close>

definition push_to_argv :: "nat \<Rightarrow> string \<Rightarrow> arg_vector \<Rightarrow> (error_code \<times> arg_vector) option" where
  "push_to_argv argv_len s v =
    (if argv_len \<le> av_argc v \<or> length (av_argbuf v) \<le> av_index v then Some (KFull, v)
     else if length (av_argbuf v) < av_index v + length s + 1 then None
     else Some (KSuccess,
       v\<lparr>av_argv := av_argv v @ [av_index v],
         av_argbuf := take (av_index v) (av_argbuf v) @ s @ nul_char # drop (av_index v + length s + 1) (av_argbuf v),
         av_index := av_index v + length s + 1,
         av_argc := av_argc v + 1\<rparr>))"

lemma arg_loop_shrinks:
  assumes "dropWhile isspace p = c # cs" and "dropWhile (\<lambda>c. c \<noteq> nul_char \<and> \<not> isspace c) (c # cs) = d # ds"
  shows "length ds < length p"
proof -
  have "length (c # cs) \<le> length p" "length (d # ds) \<le> length (c # cs)"
    using length_dropWhile_le [of isspace p] length_dropWhile_le [of "\<lambda>c. c \<noteq> nul_char \<and> \<not> isspace c" "c # cs"] assms
    by simp_all
  then show ?thesis by simp
qed

text \<open>
  The loop of \<open>MakeArgVector\<close>; \<open>p\<close> is the line from the pointer on, up to the end of its array, which comes
  back with a zero behind each word that does not end the line.
\<close>

function arg_loop :: "nat \<Rightarrow> string \<Rightarrow> arg_vector \<Rightarrow> (error_code \<times> arg_vector \<times> string) option" where
  "arg_loop argv_len p v =
    (case dropWhile isspace p of
       [] \<Rightarrow> None
     | c # cs \<Rightarrow>
         if c = nul_char then Some (KSuccess, v, p)
         else
           (case c_chars (c # cs) of
              None \<Rightarrow> None
            | Some s \<Rightarrow>
                (case push_to_argv argv_len s v of
                   None \<Rightarrow> None
                 | Some (err, v1) \<Rightarrow>
                     if is_error err then Some (err, v1, p)
                     else
                       (case dropWhile (\<lambda>c. c \<noteq> nul_char \<and> \<not> isspace c) (c # cs) of
                          [] \<Rightarrow> None
                        | d # ds \<Rightarrow>
                            if d = nul_char then Some (KSuccess, v1, p)
                            else map_option
                              (\<lambda>(err, v2, q). (err, v2, takeWhile isspace p
                                 @ takeWhile (\<lambda>c. c \<noteq> nul_char \<and> \<not> isspace c) (c # cs) @ nul_char # q))
                              (arg_loop argv_len ds v1)))))"
  by pat_completeness auto

termination
  by (relation "measure (\<lambda>(n, p, v). length p)") (auto intro: arg_loop_shrinks simp del: dropWhile.simps)

text \<open>The null pointer \<open>first_arg\<close> of a line without arguments is dereferenced.\<close>

definition make_arg_vector ::
  "nat \<Rightarrow> string \<Rightarrow> string option \<Rightarrow> string \<Rightarrow> (error_code \<times> arg_vector \<times> string option) option" where
  "make_arg_vector argv_len command first_arg argbuf = do {
     (err, v) \<leftarrow> push_to_argv argv_len command \<lparr>av_argc = 0, av_index = 0, av_argv = [], av_argbuf = argbuf\<rparr>;
     if is_error err then Some (err, v, first_arg)
     else do {
       p \<leftarrow> first_arg;
       (err, v1, q) \<leftarrow> arg_loop argv_len p v;
       Some (err, v1, Some q)
     }
   }"

section \<open>Running a file\<close>

definition le64 :: "u8 list \<Rightarrow> u64" where
  "le64 bs = ucast (le32 bs) OR push_bit 32 (ucast (le32 (drop 4 bs)))"

text \<open>The headers of an ELF file, read from its bytes.\<close>

definition slice :: "nat \<Rightarrow> nat \<Rightarrow> u8 list \<Rightarrow> u8 list option" where
  "slice off n bs = (if off + n \<le> length bs then Some (take n (drop off bs)) else None)"

definition ehdr_of :: "u8 list \<Rightarrow> elf_ehdr option" where
  "ehdr_of bytes = do {
     h \<leftarrow> slice 0 64 bytes;
     Some \<lparr>e_ident = take 16 h, e_type = le16 (drop 16 h), e_machine = le16 (drop 18 h), e_version = le32 (drop 20 h),
       e_entry = le64 (drop 24 h), e_phoff = le64 (drop 32 h), e_shoff = le64 (drop 40 h), e_flags = le32 (drop 48 h),
       e_ehsize = le16 (drop 52 h), e_phentsize = le16 (drop 54 h), e_phnum = le16 (drop 56 h),
       e_shentsize = le16 (drop 58 h), e_shnum = le16 (drop 60 h), e_shstrndx = le16 (drop 62 h)\<rparr>
   }"

definition phdr_of :: "u8 list \<Rightarrow> nat \<Rightarrow> elf_phdr option" where
  "phdr_of bytes off = do {
     h \<leftarrow> slice off 56 bytes;
     Some \<lparr>p_type = le32 h, p_flags = le32 (drop 4 h), p_offset = le64 (drop 8 h), p_vaddr = le64 (drop 16 h),
       p_paddr = le64 (drop 24 h), p_filesz = le64 (drop 32 h), p_memsz = le64 (drop 40 h), p_align = le64 (drop 48 h)\<rparr>
   }"

fun phdrs_of :: "u8 list \<Rightarrow> nat \<Rightarrow> nat \<Rightarrow> nat \<Rightarrow> elf_phdr list option" where
  "phdrs_of bytes off step 0 = Some []"
| "phdrs_of bytes off step (Suc n) = do {
     h \<leftarrow> phdr_of bytes off;
     hs \<leftarrow> phdrs_of bytes (off + step) step n;
     Some (h # hs)
   }"

definition elf_of_bytes :: "u8 list \<Rightarrow> elf_file option" where
  "elf_of_bytes bytes = do {
     h \<leftarrow> ehdr_of bytes;
     phs \<leftarrow> phdrs_of bytes (unat (e_phoff h)) (unat (e_phentsize h)) (unat (e_phnum h));
     Some \<lparr>el_ehdr = h, el_phdrs = phs, el_bytes = bytes\<rparr>
   }"

text \<open>What the kernel hands over to: the code in a file without an ELF header, and an application.\<close>

record app_calls =
  run_raw :: "u8 list \<Rightarrow> terminal \<times> term_world \<Rightarrow> (terminal \<times> term_world) option"
  call_app :: "nat \<Rightarrow> u64 \<Rightarrow> u16 \<Rightarrow> u64 \<Rightarrow> u64 \<Rightarrow> terminal \<times> term_world \<Rightarrow> (terminal \<times> term_world) option"

definition stack_frame_addr :: u64 where
  "stack_frame_addr = 0xFFFFFFFFFFFFE000"

definition args_frame_addr :: u64 where
  "args_frame_addr = 0xFFFFFFFFFFFFF000"

definition argv_len :: nat where
  "argv_len = 32"

definition argbuf_addr :: u64 where
  "argbuf_addr = args_frame_addr + of_nat (8 * argv_len)"

definition argbuf_len :: nat where
  "argbuf_len = 4096 - 8 * argv_len"

definition le_bytes :: "u64 \<Rightarrow> u8 list" where
  "le_bytes a = map (\<lambda>i. ucast (drop_bit (8 * i) a)) [0..<8]"

text \<open>The argument page after \<open>MakeArgVector\<close>: pointers to the strings, and the strings.\<close>

definition store_args :: "arg_vector \<Rightarrow> (u64 \<Rightarrow> u8) \<Rightarrow> u64 \<Rightarrow> u8" where
  "store_args v m =
    vm_copy argbuf_addr (map byte_of (av_argbuf v))
      (vm_copy args_frame_addr (concat (map (\<lambda>off. le_bytes (argbuf_addr + of_nat off)) (av_argv v))) m)"

text \<open>\<open>ExecuteFile\<close> from \<open>LoadElf\<close> to \<open>MakeArgVector\<close>; the line's array comes back as well.\<close>

definition load_app ::
  "u64 \<Rightarrow> elf_file \<Rightarrow> string \<Rightarrow> string option \<Rightarrow> loader_state
    \<Rightarrow> (error_code \<times> nat \<times> string option \<times> loader_state) option" where
  "load_app cr3 elf command first_arg ld = do {
     (err, ld1) \<leftarrow> load_elf cr3 elf ld;
     if is_error err then Some (err, 0, first_arg, ld1)
     else do {
       (err, pg) \<leftarrow> setup_page_maps cr3 stack_frame_addr 1 (ld_pages ld1);
       if is_error err then Some (err, 0, first_arg, ld1\<lparr>ld_pages := pg\<rparr>)
       else do {
         (err, pg) \<leftarrow> setup_page_maps cr3 args_frame_addr 1 pg;
         (let ld2 = ld1\<lparr>ld_pages := pg\<rparr> in
          if is_error err then Some (err, 0, first_arg, ld2)
          else do {
            (err, v, rest) \<leftarrow> make_arg_vector argv_len command first_arg
              (map (\<lambda>i. char_of_byte (ld_vmem ld2 (argbuf_addr + of_nat i))) [0..<argbuf_len]);
            Some (err, av_argc v, rest, ld2\<lparr>ld_vmem := store_args v (ld_vmem ld2)\<rparr>)
          })
       }
     }
   }"

text \<open>\<open>first_arg\<close> points into the line buffer and goes to its end.\<close>

definition put_first_arg :: "string option \<Rightarrow> terminal \<Rightarrow> terminal" where
  "put_first_arg first_arg t =
    (case first_arg of
       None \<Rightarrow> t
     | Some q \<Rightarrow> t\<lparr>tr_linebuf := take (length (tr_linebuf t) - length q) (tr_linebuf t) @ q\<rparr>)"

definition execute_file ::
  "app_calls \<Rightarrow> volume \<Rightarrow> u64 \<Rightarrow> directory_entry \<Rightarrow> string \<Rightarrow> string option \<Rightarrow> terminal \<times> term_world
    \<Rightarrow> (error_code \<times> terminal \<times> term_world) option" where
  "execute_file apps vol cr3 file_entry command first_arg p =
    (let n = unat (de_file_size file_entry) in
     if n = 0 then None
     else do {
       (loaded, bytes) \<leftarrow> load_file vol n file_entry;
       if loaded \<noteq> n then Some (KBufferTooSmall, p)
       else do {
         ident \<leftarrow> slice 0 4 bytes;
         if ident \<noteq> [0x7F, 0x45, 0x4C, 0x46] then map_option (Pair KSuccess) (run_raw apps bytes p)
         else do {
           elf \<leftarrow> elf_of_bytes bytes;
           (err, argc, rest, ld) \<leftarrow> load_app cr3 elf command first_arg (tw_loader (snd p));
           (let p1 = (put_first_arg rest (fst p), (snd p)\<lparr>tw_loader := ld\<rparr>) in
            if is_error err then Some (err, p1)
            else do {
              _ \<leftarrow> current_task (tw_tm (snd p1));
              (t2, st2) \<leftarrow> call_app apps argc args_frame_addr (push_bit 3 3 OR 3) (e_entry (el_ehdr elf))
                (stack_frame_addr + 4096 - 8) p1;
              (err, pg) \<leftarrow> clean_page_maps cr3 (get_first_load_address (el_phdrs elf)) (ld_pages (tw_loader st2));
              Some (err, t2, st2\<lparr>tw_loader := (tw_loader st2)\<lparr>ld_pages := pg\<rparr>\<rparr>)
            })
         }
       }
     })"

section \<open>A line\<close>

text \<open>
  The command of a line and, if there is a space, the array from behind it on.  The space is overwritten
  by a null character.
\<close>

definition split_line :: "string \<Rightarrow> (string \<times> string option \<times> string) option" where
  "split_line linebuf = do {
     line \<leftarrow> c_chars linebuf;
     (let command = takeWhile (\<lambda>c. c \<noteq> CHR '' '') line; first_arg = drop (length command + 1) linebuf
      in Some (if CHR '' '' \<in> set line then (command, Some first_arg, command @ nul_char # first_arg)
               else (command, None, linebuf)))
   }"

record exec_env =
  ee_font :: "u8 list"
  ee_volume :: volume
  ee_b8 :: u8
  ee_e3 :: u8
  ee_cr3 :: u64
  ee_apps :: app_calls
  ee_origin :: "error_code \<Rightarrow> string"

definition execute_command ::
  "exec_env \<Rightarrow> string \<Rightarrow> string option \<Rightarrow> terminal \<times> term_world \<Rightarrow> (terminal \<times> term_world) option" where
  "execute_command env command first_arg p = do {
     file_entry \<leftarrow> find_named (ee_b8 env) (ee_e3 env) (ee_volume env) command;
     (case file_entry of
        None \<Rightarrow> do {
          p1 \<leftarrow> term_print (ee_font env) ''command not found: '' p;
          p2 \<leftarrow> term_print (ee_font env) command p1;
          term_print (ee_font env) [CHR ''\<newline>''] p2
        }
      | Some d \<Rightarrow> do {
          (err, p1) \<leftarrow> execute_file (ee_apps env) (ee_volume env) (ee_cr3 env) d command first_arg p;
          if is_error err then do {
            name \<leftarrow> error_name err;
            s \<leftarrow> sprintf_into 128 (''failed to execute file: '' @ name @ '' '' @ ee_origin env err @ [CHR ''\<newline>'']);
            term_print (ee_font env) s p1
          }
          else Some p1
        })
   }"

definition execute_line :: "exec_env \<Rightarrow> terminal \<times> term_world \<Rightarrow> (terminal \<times> term_world) option" where
  "execute_line env p0 = do {
     (command, first_arg, linebuf) \<leftarrow> split_line (tr_linebuf (fst p0));
     p \<leftarrow> Some ((fst p0)\<lparr>tr_linebuf := linebuf\<rparr>, snd p0);
     arg \<leftarrow> (case first_arg of None \<Rightarrow> Some None | Some a \<Rightarrow> map_option Some (c_chars a));
     (if command = ''echo'' then do {
        p1 \<leftarrow> (case arg of None \<Rightarrow> Some p | Some a \<Rightarrow> term_print (ee_font env) a p);
        term_print (ee_font env) [CHR ''\<newline>''] p1
      }
      else if command = ''clear'' then clear_terminal p
      else if command = ''lspci'' then
        lspci_loop (ee_font env) (take (pci_num_device (tw_pci (snd p))) (pci_devices (tw_pci (snd p)))) p
      else if command = ''ls'' then execute_ls (ee_font env) (ee_volume env) p
      else if command = ''cat'' then execute_cat (ee_font env) (ee_b8 env) (ee_e3 env) (ee_volume env) arg p
      else if command \<noteq> [] then execute_command env command first_arg p
      else Some p)
   }"

end
