(* ===== verification/Terminal_Input.thy ===== *)
theory Terminal_Input
  imports Terminal_Exec
begin

text \<open>
  Keys, the history of commands and the task of a terminal: \<open>InputKey\<close>, \<open>HistoryUpDown\<close> and
  \<open>TaskTerminal\<close> of \<open>Kernel/terminal.cpp\<close>.
\<close>

section \<open>The history\<close>

text \<open>\<open>strcpy\<close> into the line buffer.\<close>

definition copy_line :: "string \<Rightarrow> string \<Rightarrow> string option" where
  "copy_line str buf =
    (if length buf < length str + 1 then None else Some (str @ nul_char # drop (length str + 1) buf))"

definition history_move :: "int \<Rightarrow> terminal \<Rightarrow> int" where
  "history_move direction t =
    (if direction = -1 \<and> 0 \<le> tr_history_index t then tr_history_index t - 1
     else if direction = 1 \<and> tr_history_index t + 1 < int (length (tr_history t)) then tr_history_index t + 1
     else tr_history_index t)"

text \<open>The entry the index is at; no entry at \<open>-1\<close>.\<close>

definition history_entry :: "terminal \<Rightarrow> string option" where
  "history_entry t =
    (if 0 \<le> tr_history_index t
     then do { h \<leftarrow> arr_get (tr_history t) (nat (tr_history_index t)); c_chars h } else Some [])"

definition history_up_down ::
  "u8 list \<Rightarrow> int \<Rightarrow> terminal \<times> term_world \<Rightarrow> (rectangle \<times> terminal \<times> term_world) option" where
  "history_up_down font direction p =
    (case p of (t0, st) \<Rightarrow>
     let t = t0\<lparr>tr_history_index := history_move direction t0, tr_x := 1\<rparr>;
         first_pos = calc_cursor_pos t;
         area = rect first_pos (vec ((int kTermColumns - 1) * 8) 16) in
     do {
       st1 \<leftarrow> fill_rectangle (inner_put (tr_window t)) (rpos area) (rsize area) (to_color 0x000000) st;
       history \<leftarrow> history_entry t;
       buf \<leftarrow> copy_line history (tr_linebuf t);
       st2 \<leftarrow> write_string font (inner_put (tr_window t)) first_pos history (to_color 0xFFFFFF) st1;
       Some (rect (vadd (rpos area) kTopLeftMargin) (rsize area),
         t\<lparr>tr_linebuf := buf, tr_index := length history, tr_x := length history + 1\<rparr>, st2)
     })"

section \<open>Keys\<close>

text \<open>The line is ended and remembered, and the cursor goes to the next row.\<close>

definition end_line :: "terminal \<times> term_world \<Rightarrow> (terminal \<times> term_world) option" where
  "end_line p =
    (case p of (t, st) \<Rightarrow> do {
       buf \<leftarrow> arr_set (tr_linebuf t) (tr_index t) nul_char;
       hist \<leftarrow> (if 0 < tr_index t
               then (if tr_history t = [] then None else Some (buf # butlast (tr_history t)))
               else Some (tr_history t));
       (let t1 = t\<lparr>tr_linebuf := buf, tr_history := hist, tr_index := 0, tr_x := 0\<rparr> in
        if tr_y t1 < kTermRows - 1 then Some (t1\<lparr>tr_y := tr_y t1 + 1\<rparr>, st)
        else map_option (Pair t1) (scroll_one_line t1 st))
     })"

definition input_char :: "u8 list \<Rightarrow> char \<Rightarrow> terminal \<times> term_world \<Rightarrow> (terminal \<times> term_world) option" where
  "input_char font ascii p =
    (case p of (t, st) \<Rightarrow>
     if ascii \<noteq> nul_char \<and> tr_x t < kTermColumns - 1 \<and> tr_index t < kLineMax - 1 then do {
       buf \<leftarrow> arr_set (tr_linebuf t) (tr_index t) ascii;
       st1 \<leftarrow> write_ascii font (inner_put (tr_window t)) (calc_cursor_pos t) ascii (to_color 0xFFFFFF) st;
       Some (t\<lparr>tr_linebuf := buf, tr_index := tr_index t + 1, tr_x := tr_x t + 1\<rparr>, st1)
     }
     else Some (t, st))"

definition input_backspace :: "terminal \<times> term_world \<Rightarrow> (terminal \<times> term_world) option" where
  "input_backspace p =
    (case p of (t, st) \<Rightarrow>
     if 0 < tr_x t then
       (let t1 = t\<lparr>tr_x := tr_x t - 1, tr_index := (if 0 < tr_index t then tr_index t - 1 else tr_index t)\<rparr>
        in map_option (Pair t1)
             (fill_rectangle (inner_put (tr_window t)) (calc_cursor_pos t1) (vec 8 16) (to_color 0x000000) st))
     else Some (t, st))"

text \<open>A key that does not end the line, and \<open>InputKey\<close>.\<close>

definition key_area :: "terminal \<Rightarrow> rectangle" where
  "key_area t = rect (vadd kTopLeftMargin (calc_cursor_pos t)) (vec (8 * 2) 16)"

definition input_edit ::
  "u8 list \<Rightarrow> u8 \<Rightarrow> char \<Rightarrow> terminal \<times> term_world \<Rightarrow> (rectangle \<times> terminal \<times> term_world) option" where
  "input_edit font keycode ascii p =
    (let t = fst p in
     if ascii = CHR 0x08 then do {
       (t1, st1) \<leftarrow> input_backspace p;
       Some (if 0 < tr_x t then key_area t1 else key_area t, t1, st1)
     }
     else if keycode = 0x51 then history_up_down font (-1) p
     else if keycode = 0x52 then history_up_down font 1 p
     else map_option (Pair (key_area t)) (input_char font ascii p))"

definition input_enter :: "exec_env \<Rightarrow> terminal \<times> term_world \<Rightarrow> (rectangle \<times> terminal \<times> term_world) option" where
  "input_enter env p = do {
     p1 \<leftarrow> end_line p;
     p2 \<leftarrow> execute_line env p1;
     (t3, st3) \<leftarrow> term_print (ee_font env) ''> '' p2;
     w \<leftarrow> term_window (tr_window t3) st3;
     Some (rect kTopLeftMargin (inner_size w), t3, st3)
   }"

definition input_key ::
  "exec_env \<Rightarrow> u8 \<Rightarrow> u8 \<Rightarrow> char \<Rightarrow> terminal \<times> term_world \<Rightarrow> (rectangle \<times> terminal \<times> term_world) option" where
  "input_key env modifier keycode ascii p =
    (case p of (t, st) \<Rightarrow> do {
       (_, st1) \<leftarrow> draw_cursor False t st;
       (area, t2, st2) \<leftarrow> (if ascii = CHR ''\<newline>'' then input_enter env (t, st1)
                         else input_edit (ee_font env) keycode ascii (t, st1));
       (_, st3) \<leftarrow> draw_cursor True t2 st2;
       Some (area, t2, st3)
     })"

section \<open>The task\<close>

text \<open>The start of \<open>TaskTerminal\<close>; the map of layers and the map of terminals get the new terminal.\<close>

record terminal_maps =
  mp_layer_task :: "u32 \<rightharpoonup> u64"
  mp_terminals :: "u64 \<rightharpoonup> terminal"

definition task_terminal_start ::
  "u8 list \<Rightarrow> pixel_format \<Rightarrow> u64 \<Rightarrow> active_layer \<times> terminal_maps \<times> term_world
    \<Rightarrow> (terminal \<times> active_layer \<times> terminal_maps \<times> term_world) option" where
  "task_terminal_start font fmt task_id p =
    (case p of (al, maps, st) \<Rightarrow> do {
       _ \<leftarrow> current_task (tw_tm st);
       (t, st1) \<leftarrow> terminal_new font fmt task_id st;
       lm1 \<leftarrow> lm_move (tr_layer_id t) (vec 100 200) (tw_lm st1);
       (al', lm2) \<leftarrow> activate font (tr_layer_id t) (al, lm1);
       Some (t, al',
         maps\<lparr>mp_layer_task := (if tr_layer_id t \<in> dom (mp_layer_task maps) then mp_layer_task maps
                               else (mp_layer_task maps)(tr_layer_id t \<mapsto> task_id)),
              mp_terminals := (mp_terminals maps)(task_id \<mapsto> t)\<rparr>,
         st1\<lparr>tw_lm := lm2\<rparr>)
     })"

text \<open>What the loop does with a message.\<close>

definition terminal_handle ::
  "exec_env \<Rightarrow> u64 \<Rightarrow> message \<Rightarrow> terminal \<times> term_world \<Rightarrow> (terminal \<times> term_world) option" where
  "terminal_handle env task_id m p =
    (case msg_body m of
       TimerTimeout _ _ \<Rightarrow> do {
         (area, t, st) \<leftarrow> blink_cursor p;
         map_option (Pair t) (term_send (make_layer_message task_id (tr_layer_id t) LDrawArea area) st)
       }
     | KeyPush keycode modifier ascii \<Rightarrow> do {
         (area, t, st) \<leftarrow> input_key env modifier keycode (char_of_byte ascii) p;
         map_option (Pair t) (term_send (make_layer_message task_id (tr_layer_id t) LDrawArea area) st)
       }
     | _ \<Rightarrow> Some p)"

text \<open>One turn of the loop: the task \<open>self\<close> takes a message, or goes to sleep.\<close>

definition terminal_turn ::
  "exec_env \<Rightarrow> u64 \<Rightarrow> nat \<Rightarrow> terminal \<times> term_world \<Rightarrow> (terminal \<times> term_world) option" where
  "terminal_turn env task_id self p =
    (case p of (t, st) \<Rightarrow> do {
       (msg, tm) \<leftarrow> task_receive_message self (tw_tm st);
       (case msg of
          None \<Rightarrow> map_option (\<lambda>tm'. (t, st\<lparr>tw_tm := tm'\<rparr>)) (sleep_task self tm)
        | Some m \<Rightarrow> terminal_handle env task_id m (t, st\<lparr>tw_tm := tm\<rparr>))
     })"

end
