(* ===== verification/Terminal_Edit.thy ===== *)
theory Terminal_Edit
  imports Terminal_Input Console_Text
begin

text \<open>
  Line editing in the terminal: keys other than the end of the line refine an editor on strings, and
  nothing is drawn outside the window, whatever is typed.
\<close>

section \<open>Drawing in the terminal's window\<close>

definition term_size :: "int \<times> int" where
  "term_size = (496, 276)"

definition window_at_index :: "nat \<Rightarrow> term_world \<Rightarrow> window" where
  "window_at_index n st = lm_windows (tw_lm st) ! n"

definition term_ready :: "nat \<Rightarrow> term_world \<Rightarrow> bool" where
  "term_ready n st \<longleftrightarrow> n < length (lm_windows (tw_lm st)) \<and> win_ok (window_at_index n st)
    \<and> win_dims (window_at_index n st) = term_size"

text \<open>A world that differs from another one in the pixels of the terminal's window only.\<close>

definition term_like :: "nat \<Rightarrow> term_world \<Rightarrow> term_world \<Rightarrow> bool" where
  "term_like n st0 st \<longleftrightarrow> (\<exists>w. win_like (window_at_index n st0) w \<and> st = put_term_window n w st0)"

lemma put_term_window_simps [simp]:
  "tw_tm (put_term_window n w st) = tw_tm st" "tw_pci (put_term_window n w st) = tw_pci st"
  "tw_loader (put_term_window n w st) = tw_loader st"
  "put_term_window n w (put_term_window n w' st) = put_term_window n w st"
  "length (lm_windows (tw_lm (put_term_window n w st))) = length (lm_windows (tw_lm st))"
  "put_term_window n (window_at_index n st) st = st"
  by (simp_all add: put_term_window_def window_at_index_def)

lemma window_at_put [simp]:
  "n < length (lm_windows (tw_lm st)) \<Longrightarrow> window_at_index n (put_term_window n w st) = w"
  by (simp add: put_term_window_def window_at_index_def)

lemma term_like_refl: "term_ready n st \<Longrightarrow> term_like n st st"
  unfolding term_like_def by (intro exI [of _ "window_at_index n st"]) (simp add: term_ready_def win_like_def)

lemma win_like_trans: "win_like w0 w1 \<Longrightarrow> win_like w1 w2 \<Longrightarrow> win_like w0 w2"
  by (simp add: win_like_def)

lemma term_like_trans:
  "term_ready n st0 \<Longrightarrow> term_like n st0 st1 \<Longrightarrow> term_like n st1 st2 \<Longrightarrow> term_like n st0 st2"
  unfolding term_like_def term_ready_def by auto (metis win_like_trans)

lemma term_like_ready: "term_ready n st0 \<Longrightarrow> term_like n st0 st \<Longrightarrow> term_ready n st"
  by (auto simp: term_like_def term_ready_def win_like_def)

lemma term_like_same:
  "term_like n st0 st \<Longrightarrow> tw_tm st = tw_tm st0 \<and> tw_pci st = tw_pci st0 \<and> tw_loader st = tw_loader st0"
  by (auto simp: term_like_def)

text \<open>
  The writer of the inner area takes every pixel of the window right of and below the top left margin.
\<close>

definition inner_dims :: "nat \<Rightarrow> term_world \<Rightarrow> int \<times> int" where
  "inner_dims n st = (w_width (window_at_index n st) - 4, w_height (window_at_index n st) - 24)"

definition inner_colour :: "nat \<Rightarrow> term_world \<Rightarrow> vec2 \<Rightarrow> pixel_color" where
  "inner_colour n st q = fb_colour (w_shadow (window_at_index n st)) (vadd q kTopLeftMargin)"

interpretation termc: canvas "inner_put n" "inner_colour n" "inner_dims n"
    "\<lambda>st. term_ready n st0 \<and> term_like n st0 st" for n st0
proof
  fix s p c assume "term_ready n st0 \<and> term_like n st0 s" and p: "on_canvas (inner_dims n s) p"
  then have r0: "term_ready n st0" and like: "term_like n st0 s" by auto
  have ready: "term_ready n s" by (rule term_like_ready [OF r0 like])
  let ?w = "window_at_index n s"
  have w: "term_window n s = Some ?w" using ready by (simp add: term_window_def term_ready_def window_at_index_def ub_simps)
  have wl: "win_like ?w ?w" using ready by (simp add: term_ready_def win_like_def)
  have on: "on_canvas (win_dims ?w) (vadd q kTopLeftMargin)" if "on_canvas (inner_dims n s) q" for q
    using that by (auto simp: on_canvas_def inner_dims_def win_dims_def kTopLeftMargin_def)
  have inj: "vadd q kTopLeftMargin = vadd p kTopLeftMargin \<longleftrightarrow> q = p" for q by (auto simp: vec2_eq_iff)
  from winc.write_on_canvas [OF wl on [OF p], of c] obtain w' where
    w': "window_write (vadd p kTopLeftMargin) c ?w = Some w'" "win_like ?w w'" "win_dims w' = win_dims ?w"
      "\<forall>q. on_canvas (win_dims ?w) q \<longrightarrow>
        fb_colour (w_shadow w') q = (if q = vadd p kTopLeftMargin then c else fb_colour (w_shadow ?w) q)"
    by (elim exE conjE)
  let ?s = "put_term_window n w' s"
  have n: "n < length (lm_windows (tw_lm s))" using ready by (simp add: term_ready_def)
  have "inner_put n p c s = Some ?s" using w w'(1) by (simp add: inner_put_def inner_write_def)
  moreover have "term_like n st0 ?s"
    by (rule term_like_trans [OF r0 like]) (use w'(2) in \<open>auto simp: term_like_def\<close>)
  moreover have "inner_dims n ?s = inner_dims n s" using n w'(3) by (simp add: inner_dims_def win_dims_def)
  moreover have "inner_colour n ?s q = (if q = p then c else inner_colour n s q)" if "on_canvas (inner_dims n s) q" for q
    using n w'(4) on [OF that] by (simp add: inner_colour_def inj)
  ultimately show "\<exists>s'. inner_put n p c s = Some s' \<and> (term_ready n st0 \<and> term_like n st0 s')
      \<and> inner_dims n s' = inner_dims n s
      \<and> (\<forall>q. on_canvas (inner_dims n s) q \<longrightarrow> inner_colour n s' q = (if q = p then c else inner_colour n s q))"
    using r0 by (intro exI [of _ ?s]) simp
qed

lemma ready_dims: "term_ready n st \<Longrightarrow> inner_dims n st = (492, 252)"
  by (simp add: term_ready_def inner_dims_def win_dims_def term_size_def)

text \<open>What the terminal's operations draw stays on the canvas.\<close>

lemma draw_fill:
  assumes "term_ready n st" and "0 \<le> vx pos" "0 \<le> vy pos" "vx pos + vx sz \<le> 492" "vy pos + vy sz \<le> 252"
  shows "\<exists>st'. fill_rectangle (inner_put n) pos sz c st = Some st' \<and> term_ready n st' \<and> term_like n st st'"
proof -
  have "\<forall>p. rect_mem (rect pos sz) p \<longrightarrow> on_canvas (inner_dims n st) p"
    using assms by (auto simp: rect_mem_def on_canvas_def ready_dims [OF assms(1)])
  with termc.fill [of n st st] assms(1) term_like_refl [OF assms(1)] term_like_ready show ?thesis by blast
qed

lemma draw_cell:
  assumes "term_ready n st" and "has_glyph font ch"
    and "0 \<le> vx pos" "0 \<le> vy pos" "vx pos + 8 \<le> 492" "vy pos + 16 \<le> 252"
  shows "\<exists>st'. write_ascii font (inner_put n) pos ch c st = Some st' \<and> term_ready n st' \<and> term_like n st st'"
proof -
  have "\<forall>p :: vec2. vx pos \<le> vx p \<and> vx p < vx pos + 8 \<and> vy pos \<le> vy p \<and> vy p < vy pos + 16
      \<longrightarrow> on_canvas (inner_dims n st) p"
    using assms by (auto simp: on_canvas_def ready_dims [OF assms(1)])
  with termc.cell [of n st st font ch pos c] assms(1,2) term_like_refl [OF assms(1)] term_like_ready show ?thesis by blast
qed

lemma draw_string:
  assumes "term_ready n st" and "\<forall>ch \<in> set str. has_glyph font ch"
    and "0 \<le> vx pos" "0 \<le> vy pos" "vx pos + 8 * int (length str) \<le> 492" "vy pos + 16 \<le> 252"
  shows "\<exists>st'. write_string font (inner_put n) pos str c st = Some st' \<and> term_ready n st' \<and> term_like n st st'"
  using assms(2,5)
proof (induction str rule: rev_induct)
  case Nil
  then show ?case using assms(1) term_like_refl by (simp add: write_string_def)
next
  case (snoc ch str)
  then obtain st1 where st1: "write_string font (inner_put n) pos str c st = Some st1" "term_ready n st1" "term_like n st st1"
    by auto
  obtain st2 where st2: "write_ascii font (inner_put n) (vec (vx pos + int (length str) * 8) (vy pos)) ch c st1 = Some st2"
    "term_ready n st2" "term_like n st1 st2"
    using draw_cell [OF st1(2), of font ch "vec (vx pos + int (length str) * 8) (vy pos)" c] snoc.prems assms(3,4,6) by auto
  have "write_string font (inner_put n) pos (str @ [ch]) c st = Some st2"
    using st1(1) st2(1) by (simp add: write_string_def for_each_append)
  with st2(2) term_like_trans [OF assms(1) st1(3) st2(3)] show ?case by blast
qed

text \<open>Scrolling moves the pixels of the shadow buffer and blanks the last row.\<close>

lemma win_like_shadow:
  assumes "win_ok w" and "fb_ok s" and "fb_config s = fb_config (w_shadow w)"
  shows "win_like w (w\<lparr>w_shadow := s\<rparr>)"
  using assms by (simp add: win_like_def win_ok_def win_dims_def fb_dims_def fb_width_def fb_height_def)

lemma draw_scroll:
  assumes ready: "term_ready (tr_window t) st" and y: "tr_y t < kTermRows"
  shows "\<exists>st'. scroll_one_line t st = Some st' \<and> term_ready (tr_window t) st' \<and> term_like (tr_window t) st st'"
proof -
  let ?n = "tr_window t" and ?w = "window_at_index (tr_window t) st"
  let ?src = "rect (vadd kTopLeftMargin (vec 4 (4 + 16))) (vec (8 * int kTermColumns) (16 * (int kTermRows - 1)))"
  have n: "?n < length (lm_windows (tw_lm st))" and ok: "fb_ok (w_shadow ?w)" "win_ok ?w"
    and d: "fb_width (w_shadow ?w) = 496" "fb_height (w_shadow ?w) = 276"
    using ready by (auto simp: term_ready_def win_ok_def fb_dims_def win_dims_def term_size_def)
  have "\<exists>m. frame_move (vadd kTopLeftMargin (vec 4 4)) ?src (w_shadow ?w) = Some (w_shadow ?w\<lparr>fb_mem := m\<rparr>)
      \<and> block_bytes 8 28 480 224 8 44 (w_shadow ?w) (w_shadow ?w) m"
    using frame_move_spec [OF ok(1), of ?src "vadd kTopLeftMargin (vec 4 4)"]
    by (simp add: d kTopLeftMargin_def kTermColumns_def kTermRows_def)
  then obtain m where m: "frame_move (vadd kTopLeftMargin (vec 4 4)) ?src (w_shadow ?w) = Some (w_shadow ?w\<lparr>fb_mem := m\<rparr>)"
    "length m = length (fb_mem (w_shadow ?w))" unfolding block_bytes_def by blast
  let ?w' = "?w\<lparr>w_shadow := w_shadow ?w\<lparr>fb_mem := m\<rparr>\<rparr>"
  have like: "win_like ?w ?w'" using ok m(2) by (intro win_like_shadow) (simp_all add: fb_ok_mem)
  let ?st1 = "put_term_window ?n ?w' st"
  have t1: "term_like ?n st ?st1" using like by (auto simp: term_like_def)
  note r1 = term_like_ready [OF ready t1]
  obtain st2 where st2: "fill_rectangle (inner_put ?n) (vec 4 (int (tr_y t) * 16 + 4)) (vec (int kTermColumns * 8) 16)
      (to_color 0x000000) ?st1 = Some st2" "term_ready ?n st2" "term_like ?n ?st1 st2"
    using draw_fill [OF r1, of "vec 4 (int (tr_y t) * 16 + 4)" "vec (int kTermColumns * 8) 16" "to_color 0x000000"] y
    by (auto simp: kTermRows_def kTermColumns_def)
  have "scroll_one_line t st = Some st2"
    using n m(1) st2(1) by (simp add: scroll_one_line_def term_window_def ub_simps window_move_def window_at_index_def [symmetric])
  with st2(2) term_like_trans [OF ready t1 st2(3)] show ?thesis by blast
qed

section \<open>An editor on strings\<close>

record editor =
  ed_x :: nat
  ed_line :: string
  ed_history :: "string list"
  ed_pos :: int

definition ed_recall :: "int \<Rightarrow> editor \<Rightarrow> editor" where
  "ed_recall direction e =
    (let pos = (if direction = -1 \<and> 0 \<le> ed_pos e then ed_pos e - 1
                else if direction = 1 \<and> ed_pos e + 1 < int (length (ed_history e)) then ed_pos e + 1 else ed_pos e);
         line = (if 0 \<le> pos then ed_history e ! nat pos else [])
     in e\<lparr>ed_pos := pos, ed_line := line, ed_x := length line + 1\<rparr>)"

definition ed_key :: "u8 \<Rightarrow> char \<Rightarrow> editor \<Rightarrow> editor" where
  "ed_key keycode ascii e =
    (if ascii = CHR 0x08 then (if 0 < ed_x e then e\<lparr>ed_x := ed_x e - 1, ed_line := butlast (ed_line e)\<rparr> else e)
     else if keycode = 0x51 then ed_recall (-1) e
     else if keycode = 0x52 then ed_recall 1 e
     else if ascii \<noteq> nul_char \<and> ed_x e < 59 then e\<lparr>ed_x := ed_x e + 1, ed_line := ed_line e @ [ascii]\<rparr>
     else e)"

definition ed_enter :: "editor \<Rightarrow> editor" where
  "ed_enter e = e\<lparr>ed_x := 0, ed_line := [],
     ed_history := (if ed_line e = [] then ed_history e else ed_line e # butlast (ed_history e))\<rparr>"

text \<open>The editor a terminal implements, and the terminals that do.\<close>

definition editor_of :: "terminal \<Rightarrow> editor" where
  "editor_of t =
    \<lparr>ed_x = tr_x t, ed_line = take (tr_index t) (tr_linebuf t), ed_history = map (\<lambda>h. the (c_chars h)) (tr_history t),
     ed_pos = tr_history_index t\<rparr>"

definition line_ok :: "u8 list \<Rightarrow> string \<Rightarrow> bool" where
  "line_ok font l \<longleftrightarrow> length l \<le> 59 \<and> (\<forall>ch \<in> set l. ch \<noteq> nul_char \<and> has_glyph font ch)"

lemma line_ok_butlast: "line_ok font l \<Longrightarrow> line_ok font (butlast l)"
  unfolding line_ok_def by (metis diff_le_self in_set_butlastD le_trans length_butlast)

definition edit_ok :: "u8 list \<Rightarrow> terminal \<Rightarrow> term_world \<Rightarrow> bool" where
  "edit_ok font t st \<longleftrightarrow>
    term_ready (tr_window t) st \<and> tr_y t < kTermRows \<and> tr_x t \<le> 60 \<and> tr_index t \<le> tr_x t
    \<and> length (tr_linebuf t) = kLineMax \<and> tr_index t \<le> 59 \<and> line_ok font (take (tr_index t) (tr_linebuf t))
    \<and> length (tr_history t) = 8 \<and> (\<forall>h \<in> set (tr_history t). \<exists>l. c_chars h = Some l \<and> line_ok font l)
    \<and> -1 \<le> tr_history_index t \<and> tr_history_index t < 8"

lemma edit_okD:
  assumes "edit_ok font t st"
  shows "term_ready (tr_window t) st" "tr_y t < 15" "tr_x t \<le> 60" "tr_index t \<le> tr_x t" "length (tr_linebuf t) = 128"
    "tr_index t \<le> 59" "line_ok font (take (tr_index t) (tr_linebuf t))" "length (tr_history t) = 8"
  using assms by (simp_all add: edit_ok_def kTermRows_def kLineMax_def)

lemma edit_ok_world: "edit_ok font t st \<Longrightarrow> term_ready (tr_window t) st' \<Longrightarrow> edit_ok font t st'"
  by (simp add: edit_ok_def)

lemma draw_cursor_ok:
  assumes "term_ready (tr_window t) st" and "tr_y t < 15" and "tr_x t \<le> 60"
  shows "\<exists>st'. draw_cursor v t st = Some (rect (calc_cursor_pos t) (vec 7 15), st') \<and> term_ready (tr_window t) st'
    \<and> term_like (tr_window t) st st'"
  using draw_fill [OF assms(1), of "calc_cursor_pos t" "vec 7 15"] assms(2,3)
  by (auto simp: draw_cursor_def calc_cursor_pos_def)

text \<open>The four ways a key changes the terminal.\<close>

lemma input_char_edits:
  assumes ok: "edit_ok font t st" and ch: "ascii = nul_char \<or> has_glyph font ascii"
  shows "\<exists>t' st'. input_char font ascii (t, st) = Some (t', st') \<and> edit_ok font t' st' \<and> term_like (tr_window t) st st'
    \<and> tr_window t' = tr_window t
    \<and> editor_of t' = (if ascii \<noteq> nul_char \<and> tr_x t < 59
        then (editor_of t)\<lparr>ed_x := tr_x t + 1, ed_line := ed_line (editor_of t) @ [ascii]\<rparr> else editor_of t)"
proof (cases "ascii \<noteq> nul_char \<and> tr_x t < 59")
  case False
  then have "\<not> (ascii \<noteq> nul_char \<and> tr_x t < kTermColumns - 1 \<and> tr_index t < kLineMax - 1)" by (auto simp: kTermColumns_def)
  then show ?thesis using False ok term_like_refl [OF edit_okD(1) [OF ok]]
    by (intro exI [of _ t] exI [of _ st]) (auto simp: input_char_def)
next
  case True
  note d = edit_okD [OF ok]
  let ?buf = "(tr_linebuf t)[tr_index t := ascii]"
  let ?t = "t\<lparr>tr_linebuf := ?buf, tr_index := tr_index t + 1, tr_x := tr_x t + 1\<rparr>"
  obtain st1 where st1: "write_ascii font (inner_put (tr_window t)) (calc_cursor_pos t) ascii (to_color 0xFFFFFF) st = Some st1"
    "term_ready (tr_window t) st1" "term_like (tr_window t) st st1"
    using draw_cell [OF d(1), of font ascii "calc_cursor_pos t" "to_color 0xFFFFFF"] ch True d(2)
    by (auto simp: calc_cursor_pos_def)
  have g: "tr_x t < kTermColumns - 1" "tr_index t < kLineMax - 1" "tr_index t < length (tr_linebuf t)"
    using True d(4,5) by (simp_all add: kTermColumns_def kLineMax_def)
  have "input_char font ascii (t, st) = Some (?t, st1)"
    using True g st1(1) by (simp add: input_char_def ub_simps)
  moreover have line: "take (Suc (tr_index t)) ?buf = take (tr_index t) (tr_linebuf t) @ [ascii]"
    using g(3) by (simp add: take_Suc_conv_app_nth)
  have "line_ok font (take (Suc (tr_index t)) ?buf)"
    unfolding line using d(4,5,7) True ch by (auto simp: line_ok_def)
  then have "edit_ok font ?t st1" using ok st1(2) True d(4) by (simp add: edit_ok_def)
  moreover have "editor_of ?t = (editor_of t)\<lparr>ed_x := tr_x t + 1, ed_line := ed_line (editor_of t) @ [ascii]\<rparr>"
    by (simp add: editor_of_def line)
  ultimately show ?thesis using True st1(3) by (intro exI [of _ ?t] exI [of _ st1]) simp
qed

lemma input_backspace_edits:
  assumes ok: "edit_ok font t st"
  shows "\<exists>t' st'. input_backspace (t, st) = Some (t', st') \<and> edit_ok font t' st' \<and> term_like (tr_window t) st st'
    \<and> tr_window t' = tr_window t
    \<and> editor_of t' = (if 0 < tr_x t
        then (editor_of t)\<lparr>ed_x := tr_x t - 1, ed_line := butlast (ed_line (editor_of t))\<rparr> else editor_of t)"
proof (cases "0 < tr_x t")
  case False
  then show ?thesis using ok term_like_refl [OF edit_okD(1) [OF ok]]
    by (intro exI [of _ t] exI [of _ st]) (simp add: input_backspace_def)
next
  case True
  note d = edit_okD [OF ok]
  let ?t = "t\<lparr>tr_x := tr_x t - 1, tr_index := tr_index t - 1\<rparr>"
  have i: "(if 0 < tr_index t then tr_index t - 1 else tr_index t) = tr_index t - 1" by simp
  obtain st1 where st1: "fill_rectangle (inner_put (tr_window t)) (calc_cursor_pos ?t) (vec 8 16) (to_color 0x000000) st = Some st1"
    "term_ready (tr_window t) st1" "term_like (tr_window t) st st1"
    using draw_fill [OF d(1), of "calc_cursor_pos ?t" "vec 8 16" "to_color 0x000000"] d(2,3) True
    by (auto simp: calc_cursor_pos_def)
  have "input_backspace (t, st) = Some (?t, st1)"
    using True st1(1) unfolding input_backspace_def i by (simp add: calc_cursor_pos_def)
  moreover have line: "take (tr_index t - 1) (tr_linebuf t) = butlast (take (tr_index t) (tr_linebuf t))"
    using butlast_take [of "tr_index t" "tr_linebuf t"] d(5,6) by simp
  have "line_ok font (take (tr_index t - 1) (tr_linebuf t))"
    unfolding line by (rule line_ok_butlast [OF d(7)])
  then have "edit_ok font ?t st1" using ok st1(2) by (auto simp: edit_ok_def)
  moreover have "editor_of ?t = (editor_of t)\<lparr>ed_x := tr_x t - 1, ed_line := butlast (ed_line (editor_of t))\<rparr>"
    by (simp add: editor_of_def line [unfolded One_nat_def])
  ultimately show ?thesis using True st1(3) by (intro exI [of _ ?t] exI [of _ st1]) simp
qed

lemma history_move_recall:
  "length (tr_history t) = 8 \<Longrightarrow>
    history_move direction t = ed_pos (ed_recall direction (editor_of t))"
  by (simp add: history_move_def ed_recall_def editor_of_def Let_def)

lemma history_edits:
  assumes ok: "edit_ok font t st" and dir: "direction = 1 \<or> direction = -1"
  shows "\<exists>area t' st'. history_up_down font direction (t, st) = Some (area, t', st') \<and> edit_ok font t' st'
    \<and> term_like (tr_window t) st st' \<and> tr_window t' = tr_window t \<and> editor_of t' = ed_recall direction (editor_of t)"
proof -
  note d = edit_okD [OF ok]
  let ?pos = "history_move direction t"
  let ?t = "t\<lparr>tr_history_index := ?pos, tr_x := 1\<rparr>"
  have pos: "-1 \<le> ?pos" "?pos < 8" using ok dir by (auto simp: history_move_def edit_ok_def)
  have "\<exists>l. history_entry ?t = Some l
      \<and> line_ok font l \<and> l = (if 0 \<le> ?pos then ed_history (editor_of t) ! nat ?pos else [])"
  proof (cases "0 \<le> ?pos")
    case True
    then have n: "nat ?pos < length (tr_history t)" using pos(2) d(8) by simp
    have "\<forall>h \<in> set (tr_history t). \<exists>l. c_chars h = Some l \<and> line_ok font l" using ok by (simp add: edit_ok_def)
    from bspec [OF this nth_mem [OF n]] obtain l where "c_chars (tr_history t ! nat ?pos) = Some l" "line_ok font l" by blast
    then show ?thesis using True n by (simp add: history_entry_def ub_simps editor_of_def)
  qed (simp add: history_entry_def line_ok_def)
  then obtain l where l: "history_entry ?t = Some l"
    "line_ok font l" "l = (if 0 \<le> ?pos then ed_history (editor_of t) ! nat ?pos else [])" by blast
  have len: "length l \<le> 59" "\<forall>ch \<in> set l. has_glyph font ch" using l(2) by (auto simp: line_ok_def)
  obtain st1 where st1: "fill_rectangle (inner_put (tr_window t)) (calc_cursor_pos ?t) (vec ((int kTermColumns - 1) * 8) 16)
      (to_color 0x000000) st = Some st1" "term_ready (tr_window t) st1" "term_like (tr_window t) st st1"
    using draw_fill [OF d(1), of "calc_cursor_pos ?t" "vec ((int kTermColumns - 1) * 8) 16" "to_color 0x000000"] d(2)
    by (auto simp: calc_cursor_pos_def kTermColumns_def)
  obtain st2 where st2: "write_string font (inner_put (tr_window t)) (calc_cursor_pos ?t) l (to_color 0xFFFFFF) st1 = Some st2"
    "term_ready (tr_window t) st2" "term_like (tr_window t) st1 st2"
    using draw_string [OF st1(2) len(2), of "calc_cursor_pos ?t" "to_color 0xFFFFFF"] d(2) len(1)
    by (auto simp: calc_cursor_pos_def)
  let ?buf = "l @ nul_char # drop (length l + 1) (tr_linebuf t)"
  let ?t2 = "?t\<lparr>tr_linebuf := ?buf, tr_index := length l, tr_x := length l + 1\<rparr>"
  have "copy_line l (tr_linebuf t) = Some ?buf" using d(5) len(1) by (simp add: copy_line_def)
  then obtain area where "history_up_down font direction (t, st) = Some (area, ?t2, st2)"
    using st1(1) st2(1) l(1) unfolding history_up_down_def by (simp add: Let_def)
  moreover have "edit_ok font ?t2 st2" using ok st2(2) l(2) len(1) pos d(5) by (simp add: edit_ok_def kLineMax_def)
  moreover have "editor_of ?t2 = ed_recall direction (editor_of t)"
    using l(3) history_move_recall [OF d(8), of direction]
    by (simp add: ed_recall_def Let_def) (simp add: editor_of_def)
  ultimately show ?thesis using term_like_trans [OF d(1) st1(3) st2(3)]
    by (intro exI [of _ area] exI [of _ ?t2] exI [of _ st2]) simp
qed

text \<open>A key that does not end the line.\<close>

lemma input_key_edits:
  assumes ok: "edit_ok (ee_font env) t st" and key: "ascii \<noteq> CHR ''\<newline>''"
    and ch: "ascii = nul_char \<or> ascii = CHR 0x08 \<or> has_glyph (ee_font env) ascii"
  shows "\<exists>area t' st'. input_key env modifier keycode ascii (t, st) = Some (area, t', st') \<and> edit_ok (ee_font env) t' st'
    \<and> term_like (tr_window t) st st' \<and> tr_window t' = tr_window t \<and> editor_of t' = ed_key keycode ascii (editor_of t)"
proof -
  let ?font = "ee_font env"
  note d = edit_okD [OF ok]
  obtain st1 where st1: "draw_cursor False t st = Some (rect (calc_cursor_pos t) (vec 7 15), st1)"
    "term_ready (tr_window t) st1" "term_like (tr_window t) st st1"
    using draw_cursor_ok [OF d(1-3)] by blast
  note ok1 = edit_ok_world [OF ok st1(2)]
  have x: "ed_x (editor_of t) = tr_x t" by (simp add: editor_of_def)
  have "\<exists>area t' st'. input_edit ?font keycode ascii (t, st1) = Some (area, t', st') \<and> edit_ok ?font t' st'
      \<and> term_like (tr_window t) st1 st' \<and> tr_window t' = tr_window t \<and> editor_of t' = ed_key keycode ascii (editor_of t)"
  proof (cases "ascii = CHR 0x08")
    case True
    then show ?thesis using input_backspace_edits [OF ok1] by (auto simp: ed_key_def x input_edit_def)
  next
    case False
    then show ?thesis
      using history_edits [OF ok1, of 1] history_edits [OF ok1, of "-1"] input_char_edits [OF ok1, of ascii] ch
      by (auto simp: ed_key_def x input_edit_def)
  qed
  then obtain area t' st2 where s: "input_edit ?font keycode ascii (t, st1) = Some (area, t', st2)" "edit_ok ?font t' st2"
      "term_like (tr_window t) st1 st2" "tr_window t' = tr_window t"
      "editor_of t' = ed_key keycode ascii (editor_of t)" by (elim exE conjE)
  obtain st3 where st3: "draw_cursor True t' st2 = Some (rect (calc_cursor_pos t') (vec 7 15), st3)"
    "term_ready (tr_window t') st3" "term_like (tr_window t') st2 st3"
    using draw_cursor_ok [of t' st2 True] edit_okD(1-3) [OF s(2)] by blast
  have "input_key env modifier keycode ascii (t, st) = Some (area, t', st3)"
    using st1(1) st3(1) key s(1) by (simp add: input_key_def)
  moreover have "term_like (tr_window t) st st3"
    using term_like_trans [OF d(1) st1(3)] term_like_trans [OF st1(2) s(3)] st3(3) s(4) by simp
  ultimately show ?thesis using edit_ok_world [OF s(2) st3(2)] s(4,5) by blast
qed

section \<open>Lines\<close>

text \<open>The end of a line, before its command is run.\<close>

lemma end_line_edits:
  assumes ok: "edit_ok font t st"
  shows "\<exists>t' st'. end_line (t, st) = Some (t', st') \<and> edit_ok font t' st' \<and> term_like (tr_window t) st st'
    \<and> tr_window t' = tr_window t \<and> editor_of t' = ed_enter (editor_of t)
    \<and> c_chars (tr_linebuf t') = Some (ed_line (editor_of t))"
proof -
  note d = edit_okD [OF ok]
  let ?line = "take (tr_index t) (tr_linebuf t)" and ?buf = "(tr_linebuf t)[tr_index t := nul_char]"
  let ?hist = "if 0 < tr_index t then ?buf # butlast (tr_history t) else tr_history t"
  let ?t = "t\<lparr>tr_linebuf := ?buf, tr_history := ?hist, tr_index := 0, tr_x := 0\<rparr>"
  let ?y = "if tr_y t < kTermRows - 1 then tr_y t + 1 else tr_y t"
  have i: "tr_index t < length (tr_linebuf t)" using d(5,6) by simp
  have "takeWhile (\<lambda>c. c \<noteq> nul_char) ?buf = ?line"
    using d(7) by (subst upd_conv_take_nth_drop [OF i]) (auto simp: line_ok_def)
  moreover have "nul_char \<in> set ?buf" using i by (simp add: set_update_memI)
  ultimately have chars: "c_chars ?buf = Some ?line" by (simp add: c_chars_def)
  have "\<exists>l. c_chars h = Some l \<and> line_ok font l" if "h \<in> set ?hist" for h
    using that ok chars d(7) by (auto simp: edit_ok_def split: if_splits dest: in_set_butlastD)
  moreover have "length ?hist = 8" using d(8) by simp
  ultimately have edit: "edit_ok font (?t\<lparr>tr_y := ?y\<rparr>) st" using ok by (auto simp: edit_ok_def line_ok_def kTermRows_def)
  have "?line = [] \<longleftrightarrow> tr_index t = 0" using d(5) by auto
  then have editor: "editor_of (?t\<lparr>tr_y := ?y\<rparr>) = ed_enter (editor_of t)"
    using chars by (simp add: editor_of_def ed_enter_def map_butlast)
  have hist: "(if 0 < tr_index t then (if tr_history t = [] then None else Some (?buf # butlast (tr_history t)))
      else Some (tr_history t)) = Some ?hist" using d(8) by auto
  have line: "ed_line (editor_of t) = ?line" by (simp add: editor_of_def)
  show ?thesis
  proof (cases "tr_y t < kTermRows - 1")
    case True
    then have "end_line (t, st) = Some (?t\<lparr>tr_y := ?y\<rparr>, st)"
      using i by (simp add: end_line_def ub_simps hist)
    with edit editor chars term_like_refl [OF d(1)] show ?thesis
      unfolding line by (intro exI [of _ "?t\<lparr>tr_y := ?y\<rparr>"] exI [of _ st]) simp
  next
    case False
    obtain st' where s: "scroll_one_line ?t st = Some st'" "term_ready (tr_window t) st'" "term_like (tr_window t) st st'"
      using draw_scroll [of ?t st] d(1,2) by (auto simp: kTermRows_def)
    then have "end_line (t, st) = Some (?t\<lparr>tr_y := ?y\<rparr>, st')"
      using i False by (simp add: end_line_def ub_simps hist)
    with edit_ok_world [OF edit, of st'] s(2,3) editor chars show ?thesis
      unfolding line by (intro exI [of _ "?t\<lparr>tr_y := ?y\<rparr>"] exI [of _ st']) simp
  qed
qed


text \<open>A terminal with an empty line in a window of the desktop, and a font of blank glyphs.\<close>

definition sample_terminal :: terminal where
  "sample_terminal =
    \<lparr>tr_window = 0, tr_task_id = 2, tr_layer_id = 3, tr_x = 2, tr_y = 14, tr_visible = False, tr_index = 0,
     tr_linebuf = blank_line, tr_history = replicate 8 blank_line, tr_history_index = -1\<rparr>"

definition sample_term_world :: term_world where
  "sample_term_world =
    \<lparr>tw_lm = sample_manager\<lparr>lm_windows := [window_new 496 276 PixelRGBResv8]\<rparr>,
     tw_tm = task_manager_new 0 zero_context 0 zero_context 0 0 zero_context,
     tw_pci = \<lparr>pci_address = 0, pci_space = (\<lambda>_. 0), pci_devices = [], pci_num_device = 0\<rparr>, tw_loader = sample_loader\<rparr>"

definition sample_exec_env :: "volume \<Rightarrow> exec_env" where
  "sample_exec_env vol =
    \<lparr>ee_font = replicate 4096 0, ee_volume = vol, ee_b8 = 0, ee_e3 = 0, ee_cr3 = 0,
     ee_apps = \<lparr>run_raw = (\<lambda>_. Some), call_app = (\<lambda>_ _ _ _ _. Some)\<rparr>, ee_origin = (\<lambda>_. [])\<rparr>"

lemma c_chars_blank_line: "c_chars blank_line = Some []"
  by (simp add: c_chars_def blank_line_def kLineMax_def)

lemma sample_terminal_ok: "edit_ok (replicate 4096 0) sample_terminal sample_term_world"
proof -
  have k: "known_format PixelRGBResv8" by (simp add: known_format_def)
  have "term_ready 0 sample_term_world"
    using window_new_ok [OF k, of 496 276]
    by (simp add: term_ready_def sample_term_world_def window_at_index_def term_size_def)
  then show ?thesis
    by (simp add: edit_ok_def sample_terminal_def kTermRows_def kLineMax_def blank_line_def line_ok_def c_chars_def)
qed


end
