(* ===== verification/Acpi.thy ===== *)
theory Acpi
  imports Terminal_Exec
begin

unbundle bit_operations_syntax

text \<open>
  ACPI tables and the power management timer: \<open>Kernel/acpi.hpp\<close> and \<open>acpi.cpp\<close>.

  A table is a view on physical memory at its address.  What \<open>IoIn32\<close> reads from a port the \<open>k\<close>-th time
  is a parameter.  An exit of the kernel has no result.
\<close>

type_synonym phys_mem = "u64 \<Rightarrow> u8"

definition mem_bytes :: "phys_mem \<Rightarrow> u64 \<Rightarrow> nat \<Rightarrow> u8 list" where
  "mem_bytes mem a n = map (\<lambda>i. mem (a + of_nat i)) [0..<n]"

definition mem32 :: "phys_mem \<Rightarrow> u64 \<Rightarrow> u32" where
  "mem32 mem a = le32 (mem_bytes mem a 4)"

definition mem64 :: "phys_mem \<Rightarrow> u64 \<Rightarrow> u64" where
  "mem64 mem a = le64 (mem_bytes mem a 8)"

section \<open>Tables\<close>

definition sum_bytes :: "u8 list \<Rightarrow> u8" where
  "sum_bytes data = fold (\<lambda>b sum. sum + b) data 0"

text \<open>\<open>strncmp\<close> with all the characters of a literal.\<close>

definition signature_is :: "phys_mem \<Rightarrow> u64 \<Rightarrow> string \<Rightarrow> bool" where
  "signature_is mem a s \<longleftrightarrow> mem_bytes mem a (length s) = map byte_of s"

definition rsdp_revision :: "phys_mem \<Rightarrow> u64 \<Rightarrow> u8" where
  "rsdp_revision mem a = mem (a + 15)"

definition rsdp_xsdt_address :: "phys_mem \<Rightarrow> u64 \<Rightarrow> u64" where
  "rsdp_xsdt_address mem a = mem64 mem (a + 24)"

definition rsdp_is_valid :: "phys_mem \<Rightarrow> u64 \<Rightarrow> bool" where
  "rsdp_is_valid mem a \<longleftrightarrow>
    (if \<not> signature_is mem a ''RSD PTR '' then False
     else if rsdp_revision mem a \<noteq> 2 then False
     else if sum_bytes (mem_bytes mem a 20) \<noteq> 0 then False
     else if sum_bytes (mem_bytes mem a 36) \<noteq> 0 then False
     else True)"

text \<open>\<open>DescriptionHeader\<close>, of 36 bytes.\<close>

definition header_length :: "phys_mem \<Rightarrow> u64 \<Rightarrow> u32" where
  "header_length mem a = mem32 mem (a + 4)"

definition header_is_valid :: "phys_mem \<Rightarrow> u64 \<Rightarrow> string \<Rightarrow> bool" where
  "header_is_valid mem a expected_signature \<longleftrightarrow>
    (if \<not> signature_is mem a expected_signature then False
     else if sum_bytes (mem_bytes mem a (unat (header_length mem a))) \<noteq> 0 then False
     else True)"

definition xsdt_entry :: "phys_mem \<Rightarrow> u64 \<Rightarrow> nat \<Rightarrow> u64" where
  "xsdt_entry mem a i = mem64 mem (a + 36 + 8 * of_nat i)"

definition xsdt_count :: "phys_mem \<Rightarrow> u64 \<Rightarrow> u64" where
  "xsdt_count mem a = (ucast (header_length mem a) - 36) div 8"

text \<open>
  The search for the FADT: \<open>n\<close> entries are left from \<open>i\<close> on.  The counter is an \<open>int\<close> and may not pass
  its greatest value.
\<close>

fun find_fadt :: "phys_mem \<Rightarrow> u64 \<Rightarrow> nat \<Rightarrow> nat \<Rightarrow> u64 option option" where
  "find_fadt mem xsdt i 0 = Some None"
| "find_fadt mem xsdt i (Suc n) =
    (if header_is_valid mem (xsdt_entry mem xsdt i) ''FACP'' then Some (Some (xsdt_entry mem xsdt i))
     else if i = 2 ^ 31 - 1 then None
     else find_fadt mem xsdt (i + 1) n)"

definition acpi_initialize :: "phys_mem \<Rightarrow> u64 \<Rightarrow> u64 option" where
  "acpi_initialize mem rsdp =
    (if \<not> rsdp_is_valid mem rsdp then None
     else
       (let xsdt = rsdp_xsdt_address mem rsdp in
        if \<not> header_is_valid mem xsdt ''XSDT'' then None
        else Option.bind (find_fadt mem xsdt 0 (unat (xsdt_count mem xsdt))) id))"

section \<open>Waiting\<close>

definition fadt_pm_tmr_blk :: "phys_mem \<Rightarrow> u64 \<Rightarrow> u32" where
  "fadt_pm_tmr_blk mem a = mem32 mem (a + 76)"

definition fadt_flags :: "phys_mem \<Rightarrow> u64 \<Rightarrow> u32" where
  "fadt_flags mem a = mem32 mem (a + 112)"

definition kPMTimerFreq :: u32 where
  "kPMTimerFreq = 3579545"

text \<open>
  A loop that reads a port until the value passes a test; \<open>k\<close> values have been read before.  It returns
  how many have been read after it.
\<close>

partial_function (option) poll_until :: "(u32 \<Rightarrow> bool) \<Rightarrow> (nat \<Rightarrow> u32) \<Rightarrow> nat \<Rightarrow> nat option" where
  "poll_until test reads k = (if test (reads k) then Some (k + 1) else poll_until test reads (k + 1))"

definition wait_milliseconds :: "phys_mem \<Rightarrow> u64 \<Rightarrow> (u16 \<Rightarrow> nat \<Rightarrow> u32) \<Rightarrow> u64 \<Rightarrow> nat option" where
  "wait_milliseconds mem fadt io_in32 msec =
    (let pm_timer_32 = drop_bit 8 (fadt_flags mem fadt) AND 1 \<noteq> 0;
         reads = io_in32 (ucast (fadt_pm_tmr_blk mem fadt));
         start = reads 0;
         end1 = ucast (ucast start + ucast kPMTimerFreq * msec div 1000) :: u32;
         end2 = (if pm_timer_32 then end1 else end1 AND 0x00FFFFFF)
     in do {
       k \<leftarrow> (if end2 < start then poll_until (\<lambda>v. \<not> start \<le> v) reads 1 else Some 1);
       poll_until (\<lambda>v. \<not> v < end2) reads k
     })"

lemma poll_until_first:
  assumes "k \<le> j" and "test (reads j)" and "\<forall>i. k \<le> i \<longrightarrow> i < j \<longrightarrow> \<not> test (reads i)"
  shows "poll_until test reads k = Some (j + 1)"
  using assms
proof (induction "j - k" arbitrary: k)
  case 0
  then show ?case by (subst poll_until.simps) simp
next
  case (Suc n)
  then have "\<not> test (reads k)" "Suc k \<le> j" by auto
  moreover have "poll_until test reads (k + 1) = Some (j + 1)"
    using Suc.hyps(1) [of "k + 1"] Suc.hyps(2) Suc.prems by auto
  ultimately show ?case by (subst poll_until.simps) simp
qed

text \<open>The first reading from the \<open>k\<close>-th on at which \<open>d\<close> ticks have passed.\<close>

lemma first_passed:
  fixes t :: "nat \<Rightarrow> nat"
  assumes mono: "\<forall>k. t k \<le> t (k + 1)" and go: "\<forall>n. \<exists>k. n \<le> t k"
  shows "\<exists>j \<ge> k. d \<le> t j \<and> (\<forall>i. k \<le> i \<longrightarrow> i < j \<longrightarrow> t i < d)"
proof -
  have le: "t a \<le> t b" if "a \<le> b" for a b by (rule lift_Suc_mono_le [OF _ that]) (use mono in auto)
  obtain m where m: "d \<le> t m" using go by blast
  have ex: "\<exists>j. k \<le> j \<and> d \<le> t j" using le [of m "max k m"] m by (intro exI [of _ "max k m"]) auto
  let ?j = "LEAST j. k \<le> j \<and> d \<le> t j"
  have "k \<le> ?j \<and> d \<le> t ?j" by (rule LeastI_ex [OF ex])
  moreover have "t i < d" if "k \<le> i" "i < ?j" for i using not_less_Least [OF that(2)] that(1) by auto
  ultimately show ?thesis by blast
qed

text \<open>A clock that is polled: it never steps back, never jumps by more than \<open>g\<close> and does not stop.\<close>

definition polled_clock :: "(nat \<Rightarrow> nat) \<Rightarrow> nat \<Rightarrow> bool" where
  "polled_clock t g \<longleftrightarrow> t 0 = 0 \<and> (\<forall>k. t k \<le> t (k + 1) \<and> t (k + 1) \<le> t k + g) \<and> (\<forall>n. \<exists>k. n \<le> t k)"

lemma polled_clock_passes:
  assumes "polled_clock t g" and "1 \<le> k" and "t (k - 1) \<le> d"
  shows "\<exists>j \<ge> k. d \<le> t j \<and> t j \<le> d + g \<and> (\<forall>i. k \<le> i \<longrightarrow> i < j \<longrightarrow> t i < d)"
proof -
  obtain j where j: "k \<le> j" "d \<le> t j" "\<forall>i. k \<le> i \<longrightarrow> i < j \<longrightarrow> t i < d"
    using first_passed [of t k d] assms(1) unfolding polled_clock_def by blast
  have "t (j - 1) \<le> d"
  proof (cases "j = k")
    case False
    then have "k \<le> j - 1" "j - 1 < j" using j(1) by auto
    then show ?thesis using j(3) by (meson less_imp_le_nat)
  qed (use assms(3) in simp)
  moreover have "t (j - 1 + 1) \<le> t (j - 1) + g" using assms(1) unfolding polled_clock_def by blast
  ultimately have "t j \<le> d + g" using j(1) assms(2) by simp
  with j show ?thesis by blast
qed

lemma wait_ticks:
  fixes start :: u32
  assumes d: "d = unat msec * 3579545 div 1000" "d < 2 ^ 32"
  shows "unat (ucast (ucast start + ucast kPMTimerFreq * msec div 1000 :: u64) :: u32) = (unat start + d) mod 2 ^ 32"
proof -
  have m: "unat msec * 3579545 < 2 ^ 64" using d by simp
  have f: "(ucast kPMTimerFreq :: u64) = 3579545" by (simp add: kPMTimerFreq_def)
  have "unat ((3579545 :: u64) * msec) = 3579545 * unat msec"
    using m by (simp add: unat_word_ariths mult.commute)
  then have p: "unat ((3579545 :: u64) * msec div 1000) = d" using d(1) by (simp add: unat_div mult.commute)
  have lt: "unat start < 2 ^ 32" using unsigned_less [of start] by simp
  then have s: "unat (ucast start :: u64) = unat start" by (simp add: unsigned_ucast_eq take_bit_nat_eq_self)
  have "unat ((ucast start :: u64) + 3579545 * msec div 1000) = unat start + d"
    using d(2) p s lt by (subst unat_add_no_wrap) simp_all
  then show ?thesis by (simp add: f unsigned_ucast_eq take_bit_eq_mod)
qed

lemma wait_end:
  fixes start flags :: u32
  assumes w: "w = (if bit flags 8 then 32 else 24)"
    and d: "d = unat msec * 3579545 div 1000" "d < 2 ^ w"
  shows "unat (if drop_bit 8 flags AND 1 \<noteq> 0 then ucast (ucast start + ucast kPMTimerFreq * msec div 1000 :: u64) :: u32
      else ucast (ucast start + ucast kPMTimerFreq * msec div 1000 :: u64) AND 0x00FFFFFF) = (unat start + d) mod 2 ^ w"
proof -
  have flag: "drop_bit 8 flags AND 1 \<noteq> 0 \<longleftrightarrow> bit flags 8"
    by (simp add: and_one_eq bit_iff_odd_drop_bit odd_iff_mod_2_eq_one)
  have d32: "d < 2 ^ 32" using d(2) w by (simp split: if_splits)
  have m: "(0x00FFFFFF :: u32) = mask 24" by (simp add: mask_eq_exp_minus_1)
  show ?thesis
    unfolding flag m using w by (simp add: wait_ticks [OF d(1) d32] and_mask_unat mod_mod_cancel)
qed

text \<open>The two loops, on a counter of \<open>N\<close> values.\<close>

lemma poll_clock:
  fixes N :: nat
  assumes clock: "polled_clock t g" and r: "\<forall>k. unat (reads k) = (origin + t k) mod N" and origin: "origin < N" and d: "d < N"
    and start: "unat start = origin" and e: "unat e = (origin + d) mod N"
    and margin: "origin + d < N \<Longrightarrow> origin + d + g < N" "N \<le> origin + d \<Longrightarrow> g < origin \<and> origin + d + 2 * g < 2 * N"
  shows "\<exists>k. Option.bind (if e < start then poll_until (\<lambda>v. \<not> start \<le> v) reads 1 else Some 1)
      (poll_until (\<lambda>v. \<not> v < e) reads) = Some (k + 1) \<and> d \<le> t k \<and> t k \<le> d + 2 * g"
proof (cases "origin + d < N")
  case True
  then have e': "unat e = origin + d" using e by simp
  obtain j where j: "1 \<le> j" "d \<le> t j" "t j \<le> d + g" "\<forall>i. 1 \<le> i \<longrightarrow> i < j \<longrightarrow> t i < d"
    using polled_clock_passes [OF clock, of 1 d] clock by (auto simp: polled_clock_def)
  have "unat (reads j) = origin + t j" using r j(3) margin(1) [OF True] by simp
  moreover have "unat (reads i) = origin + t i" if "t i < d" for i using r that True by simp
  ultimately have "poll_until (\<lambda>v. \<not> v < e) reads 1 = Some (j + 1)"
    using j e' by (intro poll_until_first) (auto simp: word_less_nat_alt)
  moreover have "\<not> e < start" using e' start by (simp add: word_less_nat_alt)
  ultimately show ?thesis using j(2,3) by (intro exI [of _ j]) simp
next
  case False
  then have w: "N \<le> origin + d" "g < origin" "origin + d + 2 * g < 2 * N" using margin(2) by auto
  have wrapped: "unat (reads k) = origin + t k - N" if "N \<le> origin + t k" "origin + t k < 2 * N" for k
    using r that by (simp add: le_mod_geq)
  have e': "unat e = origin + d - N" using e w(1) d origin by (simp add: le_mod_geq)
  have mono: "t a \<le> t b" if "a \<le> b" for a b
    by (rule lift_Suc_mono_le [OF _ that]) (use clock in \<open>auto simp: polled_clock_def\<close>)
  obtain j where j: "1 \<le> j" "N - origin \<le> t j" "t j \<le> N - origin + g" "\<forall>i. 1 \<le> i \<longrightarrow> i < j \<longrightarrow> t i < N - origin"
    using polled_clock_passes [OF clock, of 1 "N - origin"] clock origin by (auto simp: polled_clock_def)
  have "unat (reads j) < origin" using wrapped [of j] j(2,3) w origin by simp
  moreover have "origin \<le> unat (reads i)" if "1 \<le> i" "i < j" for i
  proof -
    have "t i < N - origin" using j(4) that by blast
    then show ?thesis using r by simp
  qed
  ultimately have first: "poll_until (\<lambda>v. \<not> start \<le> v) reads 1 = Some (j + 1)"
    using j(1) start by (intro poll_until_first) (auto simp: word_le_nat_alt)
  have es: "e < start" using e' start w(1) d origin by (simp add: word_less_nat_alt)
  have "\<exists>k. j + 1 \<le> k \<and> d \<le> t k \<and> t k \<le> d + 2 * g \<and> (\<forall>i. j + 1 \<le> i \<longrightarrow> i < k \<longrightarrow> t i < d)"
  proof (cases "t j \<le> d")
    case True
    then show ?thesis using polled_clock_passes [OF clock, of "j + 1" d] by auto
  next
    case False
    have "t (j + 1) \<le> t j + g" "t j \<le> t (j + 1)" using clock by (auto simp: polled_clock_def)
    then show ?thesis using False j(3) w(1) origin by (intro exI [of _ "j + 1"]) auto
  qed
  then obtain k where k: "j + 1 \<le> k" "d \<le> t k" "t k \<le> d + 2 * g" "\<forall>i. j + 1 \<le> i \<longrightarrow> i < k \<longrightarrow> t i < d" by blast
  have "unat e \<le> unat (reads k)" using wrapped [of k] k(2,3) w e' by simp
  moreover have "unat (reads i) < unat e" if "j + 1 \<le> i" "i < k" for i
    using wrapped [of i] mono [of j i] that k(4) j(2) w e' origin d by fastforce
  ultimately have "poll_until (\<lambda>v. \<not> v < e) reads (j + 1) = Some (k + 1)"
    using k(1) by (intro poll_until_first) (auto simp: word_less_nat_alt word_le_nat_alt)
  with first es k(2,3) show ?thesis by (intro exI [of _ k]) simp
qed



end
