(* ===== verification/Descriptors.thy ===== *)
theory Descriptors
  imports Bit_Layout Memory_Manager Timer_Mgr
begin

unbundle bit_operations_syntax

text \<open>
  Segment and interrupt descriptors: \<open>Kernel/x86_descriptor.hpp\<close>, \<open>segment.hpp\<close>, \<open>segment.cpp\<close> and the
  tables of \<open>interrupt.hpp\<close> and \<open>interrupt.cpp\<close>.

  The addresses the linker gives the tables and the handlers are parameters.  What the instructions
  behind \<open>LoadGDT\<close>, \<open>LoadTR\<close>, \<open>LoadIDT\<close>, \<open>SetDSAll\<close> and \<open>SetCSSS\<close> load is kept in the state of the processor.
\<close>

datatype x86_descriptor_type =
  TypeUpper8Bytes | TypeLDT | TypeTSSAvailable | TypeTSSBusy | TypeCallGate | TypeInterruptGate | TypeTrapGate
  | TypeReadWrite | TypeExecuteRead

fun x86_type_code :: "x86_descriptor_type \<Rightarrow> nat" where
  "x86_type_code TypeUpper8Bytes = 0"
| "x86_type_code TypeLDT = 2"
| "x86_type_code TypeTSSAvailable = 9"
| "x86_type_code TypeTSSBusy = 11"
| "x86_type_code TypeCallGate = 12"
| "x86_type_code TypeInterruptGate = 14"
| "x86_type_code TypeTrapGate = 15"
| "x86_type_code TypeReadWrite = 2"
| "x86_type_code TypeExecuteRead = 10"

section \<open>Segment descriptors\<close>

definition segment_layout :: layout where
  "segment_layout =
    [(''limit_low'', 16), (''base_low'', 16), (''base_middle'', 8), (''type'', 4), (''system_segment'', 1),
     (''descriptor_privilege_level'', 2), (''present'', 1), (''limit_high'', 4), (''available'', 1), (''long_mode'', 1),
     (''default_operation_size'', 1), (''granularity'', 1), (''base_high'', 8)]"

definition set_code_segment :: "x86_descriptor_type \<Rightarrow> u32 \<Rightarrow> u32 \<Rightarrow> u32 \<Rightarrow> u64" where
  "set_code_segment t dpl base limit =
    fields_set segment_layout
      [(''base_low'', ucast (base AND 0xFFFF)), (''base_middle'', ucast (drop_bit 16 base AND 0xFF)),
       (''base_high'', ucast (drop_bit 24 base AND 0xFF)), (''limit_low'', ucast (limit AND 0xFFFF)),
       (''limit_high'', ucast (drop_bit 16 limit AND 0x000F)), (''type'', of_nat (x86_type_code t)),
       (''system_segment'', 1), (''descriptor_privilege_level'', ucast dpl), (''present'', 1), (''available'', 0),
       (''long_mode'', 1), (''default_operation_size'', 0), (''granularity'', 1)] 0"

definition set_data_segment :: "x86_descriptor_type \<Rightarrow> u32 \<Rightarrow> u32 \<Rightarrow> u32 \<Rightarrow> u64" where
  "set_data_segment t dpl base limit =
    fields_set segment_layout [(''long_mode'', 0), (''default_operation_size'', 1)] (set_code_segment t dpl base limit)"

definition set_system_segment :: "x86_descriptor_type \<Rightarrow> u32 \<Rightarrow> u32 \<Rightarrow> u32 \<Rightarrow> u64" where
  "set_system_segment t dpl base limit =
    fields_set segment_layout [(''system_segment'', 0), (''long_mode'', 0)] (set_code_segment t dpl base limit)"

definition kKernelCS :: u16 where
  "kKernelCS = push_bit 3 1"

definition kKernelSS :: u16 where
  "kKernelSS = push_bit 3 2"

definition kKernelDS :: u16 where
  "kKernelDS = 0"

definition kTSS :: u16 where
  "kTSS = push_bit 3 5"

definition kISTForTimer :: nat where
  "kISTForTimer = 1"

section \<open>The tables and what the processor has loaded\<close>

record interrupt_descriptor =
  id_offset_low :: u16
  id_segment_selector :: u16
  id_attr :: u16
  id_offset_middle :: u16
  id_offset_high :: u32
  id_reserved :: u32

record seg_state =
  sg_gdt :: "u64 list"
  sg_tss :: "u32 list"
  sg_idt :: "interrupt_descriptor list"
  sg_gdtr :: "(u16 \<times> u64) option"
  sg_idtr :: "(u16 \<times> u64) option"
  sg_tr :: u16
  sg_cs :: u16
  sg_ss :: u16
  sg_ds :: u16

definition set_tss :: "nat \<Rightarrow> u64 \<Rightarrow> seg_state \<Rightarrow> seg_state option" where
  "set_tss index v st = do {
     tss1 \<leftarrow> arr_set (sg_tss st) index (ucast (v AND 0xFFFFFFFF));
     tss2 \<leftarrow> arr_set tss1 (index + 1) (ucast (drop_bit 32 v));
     Some (st\<lparr>sg_tss := tss2\<rparr>)
   }"

text \<open>Without memory for the stack the kernel exits.\<close>

definition allocate_stack_area :: "nat \<Rightarrow> bitmap_manager \<Rightarrow> (u64 \<times> bitmap_manager) option" where
  "allocate_stack_area num_4kframes mm = do {
     ((stk, err), mm1) \<leftarrow> allocate num_4kframes mm;
     if is_error err then None else Some (frame_address stk + of_nat (num_4kframes * 4096), mm1)
   }"

definition initialize_tss :: "u64 \<Rightarrow> seg_state \<times> bitmap_manager \<Rightarrow> (seg_state \<times> bitmap_manager) option" where
  "initialize_tss tss_addr p =
    (case p of (st, mm) \<Rightarrow> do {
       (rsp0, mm1) \<leftarrow> allocate_stack_area 8 mm;
       st1 \<leftarrow> set_tss 1 rsp0 st;
       (ist, mm2) \<leftarrow> allocate_stack_area 8 mm1;
       st2 \<leftarrow> set_tss (7 + 2 * kISTForTimer) ist st1;
       gdt1 \<leftarrow> arr_set (sg_gdt st2) (unat (drop_bit 3 kTSS))
         (set_system_segment TypeTSSAvailable 0 (ucast (tss_addr AND 0xFFFFFFFF)) (26 * 4 - 1));
       gdt2 \<leftarrow> arr_set gdt1 (unat (drop_bit 3 kTSS) + 1) (drop_bit 32 tss_addr);
       Some (st2\<lparr>sg_gdt := gdt2, sg_tr := kTSS\<rparr>, mm2)
     })"

definition setup_segments :: "u64 \<Rightarrow> seg_state \<Rightarrow> seg_state option" where
  "setup_segments gdt_addr st = do {
     g0 \<leftarrow> arr_set (sg_gdt st) 0 0;
     g1 \<leftarrow> arr_set g0 1 (set_code_segment TypeExecuteRead 0 0 0xFFFFF);
     g2 \<leftarrow> arr_set g1 2 (set_data_segment TypeReadWrite 0 0 0xFFFFF);
     g3 \<leftarrow> arr_set g2 3 (set_data_segment TypeReadWrite 3 0 0xFFFFF);
     g4 \<leftarrow> arr_set g3 4 (set_code_segment TypeExecuteRead 3 0 0xFFFFF);
     Some (st\<lparr>sg_gdt := g4, sg_gdtr := Some (7 * 8 - 1, gdt_addr)\<rparr>)
   }"

definition initialize_segment :: "u64 \<Rightarrow> seg_state \<Rightarrow> seg_state option" where
  "initialize_segment gdt_addr st = do {
     st1 \<leftarrow> setup_segments gdt_addr st;
     Some (st1\<lparr>sg_ds := 0, sg_cs := push_bit 3 1, sg_ss := push_bit 3 2\<rparr>)
   }"

section \<open>Interrupt descriptors\<close>

definition idt_attr_layout :: layout where
  "idt_attr_layout =
    [(''interrupt_stack_table'', 3), ('''', 5), (''type'', 4), ('''', 1), (''descriptor_privilege_level'', 2), (''present'', 1)]"

definition make_idt_attr :: "x86_descriptor_type \<Rightarrow> u8 \<Rightarrow> bool \<Rightarrow> u8 \<Rightarrow> u16" where
  "make_idt_attr t dpl present ist =
    fields_set idt_attr_layout
      [(''type'', of_nat (x86_type_code t)), (''descriptor_privilege_level'', ucast dpl),
       (''present'', if present then 1 else 0), (''interrupt_stack_table'', ucast ist)] 0"

definition set_idt_entry :: "u16 \<Rightarrow> u64 \<Rightarrow> u16 \<Rightarrow> interrupt_descriptor \<Rightarrow> interrupt_descriptor" where
  "set_idt_entry attr offset segment_selector desc =
    desc\<lparr>id_attr := attr, id_offset_low := ucast (offset AND 0xFFFF),
      id_offset_middle := ucast (drop_bit 16 offset AND 0xFFFF), id_offset_high := ucast (drop_bit 32 offset),
      id_segment_selector := segment_selector\<rparr>"

definition put_idt :: "nat \<Rightarrow> u16 \<Rightarrow> u64 \<Rightarrow> seg_state \<Rightarrow> seg_state option" where
  "put_idt irq attr handler st = do {
     desc \<leftarrow> arr_get (sg_idt st) irq;
     idt1 \<leftarrow> arr_set (sg_idt st) irq (set_idt_entry attr handler (sg_cs st) desc);
     Some (st\<lparr>sg_idt := idt1\<rparr>)
   }"

text \<open>The vectors of the exceptions with a handler, in the order they are set.\<close>

definition fault_vectors :: "(nat \<times> string) list" where
  "fault_vectors =
    [(0, ''DE''), (1, ''DB''), (3, ''BP''), (4, ''OF''), (5, ''BR''), (6, ''UD''), (7, ''NM''), (8, ''DF''),
     (10, ''TS''), (11, ''NP''), (12, ''SS''), (13, ''GP''), (14, ''PF''), (16, ''MF''), (17, ''AC''), (18, ''MC''),
     (19, ''XM''), (20, ''VE'')]"

fun put_faults :: "(string \<Rightarrow> u64) \<Rightarrow> (nat \<times> string) list \<Rightarrow> seg_state \<Rightarrow> seg_state option" where
  "put_faults handler [] st = Some st"
| "put_faults handler ((irq, fault) # fs) st = do {
     st1 \<leftarrow> put_idt irq (make_idt_attr TypeInterruptGate 0 True 0) (handler fault) st;
     put_faults handler fs st1
   }"

definition initialize_interrupt :: "u64 \<Rightarrow> (string \<Rightarrow> u64) \<Rightarrow> seg_state \<Rightarrow> seg_state option" where
  "initialize_interrupt idt_addr handler st = do {
     st1 \<leftarrow> put_idt (unat (vector_number VecXHCI)) (make_idt_attr TypeInterruptGate 0 True 0) (handler ''XHCI'') st;
     st2 \<leftarrow> put_idt (unat (vector_number VecLAPICTimer)) (make_idt_attr TypeInterruptGate 0 True (of_nat kISTForTimer))
       (handler ''LAPICTimer'') st1;
     st3 \<leftarrow> put_faults handler fault_vectors st2;
     Some (st3\<lparr>sg_idtr := Some (256 * 16 - 1, idt_addr)\<rparr>)
   }"

section \<open>What the processor reads\<close>

text \<open>The base and the limit of a segment descriptor, the target of a gate and a field of the TSS.\<close>

definition segment_base :: "u64 \<Rightarrow> u64" where
  "segment_base d = field_get segment_layout ''base_low'' d OR push_bit 16 (field_get segment_layout ''base_middle'' d)
    OR push_bit 24 (field_get segment_layout ''base_high'' d)"

definition segment_limit :: "u64 \<Rightarrow> u64" where
  "segment_limit d = field_get segment_layout ''limit_low'' d OR push_bit 16 (field_get segment_layout ''limit_high'' d)"

definition gate_offset :: "interrupt_descriptor \<Rightarrow> u64" where
  "gate_offset d = ucast (id_offset_low d) OR push_bit 16 (ucast (id_offset_middle d)) OR push_bit 32 (ucast (id_offset_high d))"

definition tss_field :: "nat \<Rightarrow> seg_state \<Rightarrow> u64" where
  "tss_field i st = ucast (sg_tss st ! i) OR push_bit 32 (ucast (sg_tss st ! (i + 1)))"

lemma and_masks:
  "x AND 0xFFFF = take_bit 16 x" "x AND 0xFFFFFFFF = take_bit 32 x" "b AND 0xFFFF = take_bit 16 b"
  "b AND 0xFF = take_bit 8 b" "b AND 0x0F = take_bit 4 b" for x :: u64 and b :: u32
  by (simp_all add: take_bit_eq_mask mask_eq_exp_minus_1)

lemma gate_offset_set [simp]: "gate_offset (set_idt_entry attr offset cs d) = offset"
proof (rule bit_word_eqI)
  fix n assume "n < LENGTH(64)"
  then show "bit (gate_offset (set_idt_entry attr offset cs d)) n \<longleftrightarrow> bit offset n"
    by (cases "n < 16"; cases "n < 32") (auto simp: gate_offset_def set_idt_entry_def and_masks bit_simps not_less)
qed

lemma tss_halves:
  "ucast (ucast (v AND 0xFFFFFFFF) :: u32) OR push_bit 32 (ucast (ucast (drop_bit 32 v) :: u32)) = v" for v :: u64
  by (rule bit_word_eqI) (auto simp: and_masks bit_simps)

lemma segment_width: "layout_width segment_layout \<le> LENGTH(64)"
  by (simp add: layout_width_def segment_layout_def)

lemma code_segment_get:
  assumes "field_pos segment_layout f = Some (lo, n)"
    and "(f, v) \<in> set [(''base_low'', ucast (base AND 0xFFFF)), (''base_middle'', ucast (drop_bit 16 base AND 0xFF)),
       (''base_high'', ucast (drop_bit 24 base AND 0xFF)), (''limit_low'', ucast (limit AND 0xFFFF)),
       (''limit_high'', ucast (drop_bit 16 limit AND 0x000F)), (''type'', of_nat (x86_type_code t)),
       (''system_segment'', 1), (''descriptor_privilege_level'', ucast dpl), (''present'', 1), (''available'', 0),
       (''long_mode'', 1), (''default_operation_size'', 0), (''granularity'', 1)]"
  shows "field_get segment_layout f (set_code_segment t dpl base limit) = take_bit n v"
  unfolding set_code_segment_def by (rule fields_set_get [OF assms(1) segment_width assms(2)]) simp

lemma segment_base_code: "segment_base (set_code_segment t dpl base limit) = ucast base"
proof -
  let ?d = "set_code_segment t dpl base limit"
  have "field_get segment_layout ''base_low'' ?d = take_bit 16 (ucast (base AND 0xFFFF))"
    "field_get segment_layout ''base_middle'' ?d = take_bit 8 (ucast (drop_bit 16 base AND 0xFF))"
    "field_get segment_layout ''base_high'' ?d = take_bit 8 (ucast (drop_bit 24 base AND 0xFF))"
    by (rule code_segment_get [of _ 16], simp add: segment_layout_def, simp,
        rule code_segment_get [of _ 32], simp add: segment_layout_def, simp,
        rule code_segment_get [of _ 56], simp add: segment_layout_def, simp)
  then have "segment_base ?d = ucast (take_bit 16 base) OR push_bit 16 (ucast (take_bit 8 (drop_bit 16 base)))
      OR push_bit 24 (ucast (take_bit 8 (drop_bit 24 base)))"
    unfolding segment_base_def and_masks by (simp add: unsigned_take_bit_eq)
  moreover have "bit \<dots> n \<longleftrightarrow> bit (ucast base :: u64) n" if "n < 64" for n
    using that by (cases "n < 16"; cases "n < 24"; cases "n < 32") (auto simp: bit_simps not_less dest: bit_imp_le_length)
  ultimately show ?thesis by (intro bit_word_eqI) simp
qed

lemma segment_limit_code: "segment_limit (set_code_segment t dpl base limit) = ucast (take_bit 20 limit)"
proof -
  let ?d = "set_code_segment t dpl base limit"
  have "field_get segment_layout ''limit_low'' ?d = take_bit 16 (ucast (limit AND 0xFFFF))"
    "field_get segment_layout ''limit_high'' ?d = take_bit 4 (ucast (drop_bit 16 limit AND 0x000F))"
    by (rule code_segment_get [of _ 0], simp add: segment_layout_def, simp,
        rule code_segment_get [of _ 48], simp add: segment_layout_def, simp)
  then have "segment_limit ?d = ucast (take_bit 16 limit) OR push_bit 16 (ucast (take_bit 4 (drop_bit 16 limit)))"
    unfolding segment_limit_def and_masks by (simp add: unsigned_take_bit_eq)
  moreover have "bit \<dots> n \<longleftrightarrow> bit (ucast (take_bit 20 limit) :: u64) n" if "n < 64" for n
    using that by (cases "n < 16"; cases "n < 20") (auto simp: bit_simps not_less)
  ultimately show ?thesis by (intro bit_word_eqI) simp
qed

lemma system_segment_other:
  assumes "f \<notin> {''system_segment'', ''long_mode''}"
  shows "field_get segment_layout f (set_system_segment t dpl base limit) = field_get segment_layout f (set_code_segment t dpl base limit)"
  using assms unfolding set_system_segment_def by (intro fields_set_other) simp

lemma system_segment_system: "field_get segment_layout ''system_segment'' (set_system_segment t dpl base limit) = 0"
proof -
  have "field_pos segment_layout ''system_segment'' = Some (44, 1)" by (simp add: segment_layout_def)
  from fields_set_get [OF this segment_width, of 0] show ?thesis unfolding set_system_segment_def by simp
qed

lemma allocate_stack_area_spec:
  assumes ok: "manager_ok mm" and n: "0 < n" and a: "allocate_stack_area n mm = Some (sp, mm1)"
  shows "\<exists>s. sp = frame_address s + of_nat (n * 4096) \<and> manager_ok mm1 \<and> managed_frames mm1 = managed_frames mm
    \<and> frame_run s n \<subseteq> managed_frames mm - used_frames mm \<and> used_frames mm1 = used_frames mm \<union> frame_run s n"
proof -
  from a obtain s err where al: "allocate n mm = Some ((s, err), mm1)" "\<not> is_error err" "sp = frame_address s + of_nat (n * 4096)"
    by (auto simp: allocate_stack_area_def bind_eq_Some_conv split: if_splits)
  then have at: "allocated_at n mm (range_begin mm) s mm1" using allocate_spec [OF ok, of n] by (auto simp: is_error_def)
  from allocated_at_frames [OF n at ok] al(3) show ?thesis
    by (intro exI [of _ s]) (use at in \<open>auto simp: allocated_at_def\<close>)
qed

lemma set_tss_field:
  assumes "i + 1 < length (sg_tss st)"
  shows "\<exists>st'. set_tss i v st = Some st' \<and> st' = st\<lparr>sg_tss := sg_tss st'\<rparr> \<and> length (sg_tss st') = length (sg_tss st)
    \<and> tss_field i st' = v \<and> (\<forall>j. j + 1 < i \<or> i + 1 < j \<longrightarrow> tss_field j st' = tss_field j st)"
  using assms by (auto simp: set_tss_def ub_simps tss_field_def tss_halves)

lemma initialize_tss_stacks:
  assumes ok: "manager_ok mm" and len: "length (sg_gdt st) = 7" "length (sg_tss st) = 26"
    and i: "initialize_tss tss_addr (st, mm) = Some (st', mm')"
  shows "\<exists>s1 s2. tss_field 1 st' = frame_address s1 + 0x8000 \<and> tss_field (7 + 2 * kISTForTimer) st' = frame_address s2 + 0x8000
    \<and> frame_run s1 8 \<inter> frame_run s2 8 = {} \<and> frame_run s1 8 \<union> frame_run s2 8 \<subseteq> managed_frames mm - used_frames mm
    \<and> used_frames mm' = used_frames mm \<union> frame_run s1 8 \<union> frame_run s2 8
    \<and> sg_tr st' = 8 * 5 \<and> segment_base (sg_gdt st' ! 5) OR push_bit 32 (sg_gdt st' ! 6) = tss_addr
    \<and> segment_limit (sg_gdt st' ! 5) = 4 * 26 - 1 \<and> field_get segment_layout ''type'' (sg_gdt st' ! 5) = 9
    \<and> field_get segment_layout ''present'' (sg_gdt st' ! 5) = 1 \<and> field_get segment_layout ''system_segment'' (sg_gdt st' ! 5) = 0"
proof -
  let ?desc = "set_system_segment TypeTSSAvailable 0 (ucast (tss_addr AND 0xFFFFFFFF)) (26 * 4 - 1)"
  obtain rsp0 mm1 ist where a: "allocate_stack_area 8 mm = Some (rsp0, mm1)" "allocate_stack_area 8 mm1 = Some (ist, mm')"
    using i by (auto simp: initialize_tss_def bind_eq_Some_conv split: prod.splits)
  obtain s1 where s1: "rsp0 = frame_address s1 + of_nat (8 * 4096)" "manager_ok mm1" "managed_frames mm1 = managed_frames mm"
    "frame_run s1 8 \<subseteq> managed_frames mm - used_frames mm" "used_frames mm1 = used_frames mm \<union> frame_run s1 8"
    using allocate_stack_area_spec [OF ok _ a(1)] by auto
  obtain s2 where s2: "ist = frame_address s2 + of_nat (8 * 4096)"
    "frame_run s2 8 \<subseteq> managed_frames mm1 - used_frames mm1" "used_frames mm' = used_frames mm1 \<union> frame_run s2 8"
    using allocate_stack_area_spec [OF s1(2) _ a(2)] by auto
  obtain st1 where st1: "set_tss 1 rsp0 st = Some st1" "st1 = st\<lparr>sg_tss := sg_tss st1\<rparr>" "length (sg_tss st1) = 26"
    "tss_field 1 st1 = rsp0" using set_tss_field [of 1 st rsp0] len by auto
  obtain st2 where st2: "set_tss 9 ist st1 = Some st2" "st2 = st1\<lparr>sg_tss := sg_tss st2\<rparr>" "tss_field 9 st2 = ist"
    "tss_field 1 st2 = rsp0" using set_tss_field [of 9 st1 ist] st1(3,4) by auto
  have g: "sg_gdt st2 = sg_gdt st" using st1(2) st2(2) by (metis seg_state.ext_inject seg_state.surjective seg_state.update_convs(2))
  have k: "unat (drop_bit 3 kTSS) = 5" by (simp add: kTSS_def)
  have st': "st' = st2\<lparr>sg_gdt := (sg_gdt st)[5 := ?desc, 6 := drop_bit 32 tss_addr], sg_tr := kTSS\<rparr>"
    using i a st1(1) st2(1) len by (simp add: initialize_tss_def k g ub_simps kISTForTimer_def)
  have "segment_base ?desc = ucast (ucast (tss_addr AND 0xFFFFFFFF) :: u32)"
    unfolding segment_base_def by (simp add: system_segment_other segment_base_code [unfolded segment_base_def])
  moreover have "bit (ucast (ucast (tss_addr AND 0xFFFFFFFF) :: u32) OR push_bit 32 (drop_bit 32 tss_addr)) n \<longleftrightarrow> bit tss_addr n"
    if "n < 64" for n using that by (cases "n < 32") (auto simp: and_masks bit_simps not_less)
  ultimately have base: "segment_base ?desc OR push_bit 32 (drop_bit 32 tss_addr) = tss_addr" by (intro bit_word_eqI) simp
  have limit: "segment_limit ?desc = 4 * 26 - 1"
    unfolding segment_limit_def by (simp add: system_segment_other segment_limit_code [unfolded segment_limit_def])
  have pos: "field_pos segment_layout ''type'' = Some (40, 4)" "field_pos segment_layout ''present'' = Some (47, 1)"
    by (simp_all add: segment_layout_def)
  have flags: "field_get segment_layout ''type'' ?desc = 9" "field_get segment_layout ''present'' ?desc = 1"
    using code_segment_get [of "''type''" 40 4 9 _ _ TypeTSSAvailable] code_segment_get [of "''present''" 47 1 1]
    by (simp_all add: system_segment_other pos)
  show ?thesis
    using s1 s2 st2(3,4) len base limit flags system_segment_system
    by (intro exI [of _ s1] exI [of _ s2]) (auto simp: st' kISTForTimer_def kTSS_def tss_field_def)
qed

text \<open>
  After \<open>InitializeTSS\<close> the stack of the kernel's privilege level and the stack the timer's interrupts
  run on are two separate blocks of 32 KiB that were free before, the TSS points to their upper ends, and
  the two descriptors the task register selects have the address and the size of the TSS.\<close>

theorem tss_stacks:
  assumes ok: "manager_ok mm" and len: "length (sg_gdt st) = 7" "length (sg_tss st) = 26"
    and i: "initialize_tss tss_addr (st, mm) = Some (st', mm')"
  shows "\<exists>s1 s2. tss_field 1 st' = frame_address s1 + 0x8000 \<and> tss_field (7 + 2 * kISTForTimer) st' = frame_address s2 + 0x8000
    \<and> frame_run s1 8 \<inter> frame_run s2 8 = {} \<and> frame_run s1 8 \<union> frame_run s2 8 \<subseteq> managed_frames mm - used_frames mm
    \<and> used_frames mm' = used_frames mm \<union> frame_run s1 8 \<union> frame_run s2 8
    \<and> sg_tr st' = 8 * 5 \<and> segment_base (sg_gdt st' ! 5) OR push_bit 32 (sg_gdt st' ! 6) = tss_addr
    \<and> segment_limit (sg_gdt st' ! 5) = 4 * 26 - 1 \<and> field_get segment_layout ''type'' (sg_gdt st' ! 5) = 9
    \<and> field_get segment_layout ''present'' (sg_gdt st' ! 5) = 1 \<and> field_get segment_layout ''system_segment'' (sg_gdt st' ! 5) = 0"
  by (rule initialize_tss_stacks [OF assms])

text \<open>Setting gates on different vectors.\<close>

lemma put_idt_Some:
  "irq < length (sg_idt st) \<Longrightarrow>
    put_idt irq attr h st = Some (st\<lparr>sg_idt := (sg_idt st)[irq := set_idt_entry attr h (sg_cs st) (sg_idt st ! irq)]\<rparr>)"
  by (simp add: put_idt_def ub_simps)

definition gate_to :: "u16 \<Rightarrow> u64 \<Rightarrow> u16 \<Rightarrow> interrupt_descriptor \<Rightarrow> bool" where
  "gate_to cs target attr d \<longleftrightarrow> gate_offset d = target \<and> id_segment_selector d = cs \<and> id_attr d = attr"

lemma gate_to_set: "gate_to cs h attr (set_idt_entry attr h cs d)"
  by (simp add: gate_to_def set_idt_entry_def gate_offset_set [unfolded set_idt_entry_def])

lemma put_faults_gates:
  assumes "\<forall>(irq, name) \<in> set fs. irq < length (sg_idt st)" and "distinct (map fst fs)"
  shows "\<exists>idt. put_faults handler fs st = Some (st\<lparr>sg_idt := idt\<rparr>) \<and> length idt = length (sg_idt st)
    \<and> (\<forall>(irq, name) \<in> set fs. gate_to (sg_cs st) (handler name) (make_idt_attr TypeInterruptGate 0 True 0) (idt ! irq))
    \<and> (\<forall>irq. irq \<notin> fst ` set fs \<longrightarrow> idt ! irq = sg_idt st ! irq)"
  using assms
proof (induction fs arbitrary: st)
  case Nil
  then show ?case by (intro exI [of _ "sg_idt st"]) simp
next
  case (Cons p fs)
  obtain irq name where p: "p = (irq, name)" by (cases p)
  let ?attr = "make_idt_attr TypeInterruptGate 0 True 0"
  let ?st = "st\<lparr>sg_idt := (sg_idt st)[irq := set_idt_entry ?attr (handler name) (sg_cs st) (sg_idt st ! irq)]\<rparr>"
  have irq: "irq < length (sg_idt st)" "irq \<notin> fst ` set fs" using Cons.prems p by auto
  obtain idt where idt: "put_faults handler fs ?st = Some (?st\<lparr>sg_idt := idt\<rparr>)" "length idt = length (sg_idt st)"
    "\<forall>(irq, name) \<in> set fs. gate_to (sg_cs st) (handler name) ?attr (idt ! irq)"
    "\<forall>i. i \<notin> fst ` set fs \<longrightarrow> idt ! i = sg_idt ?st ! i"
    using Cons.IH [of ?st] Cons.prems by auto
  have "gate_to (sg_cs st) (handler name) ?attr (idt ! irq)"
    using idt(4) irq by (simp add: gate_to_set)
  then show ?case
    using idt irq by (intro exI [of _ idt]) (auto simp: p put_idt_Some)
qed

text \<open>
  After \<open>InitializeInterrupt\<close> each of the twenty vectors of the kernel has a present interrupt gate of
  privilege level 0 to its handler in the kernel's code segment, the timer's on its own stack and the
  others on the current one; no other vector is changed.\<close>

theorem idt_dispatches:
  assumes "length (sg_idt st) = 256"
  shows "\<exists>st'. initialize_interrupt idt_addr handler st = Some st' \<and> sg_idtr st' = Some (0xFFF, idt_addr)
    \<and> list_all (\<lambda>(irq, name). gate_offset (sg_idt st' ! irq) = handler name \<and> id_segment_selector (sg_idt st' ! irq) = sg_cs st
          \<and> field_get idt_attr_layout ''type'' (id_attr (sg_idt st' ! irq)) = 14
          \<and> field_get idt_attr_layout ''present'' (id_attr (sg_idt st' ! irq)) = 1
          \<and> field_get idt_attr_layout ''descriptor_privilege_level'' (id_attr (sg_idt st' ! irq)) = 0
          \<and> field_get idt_attr_layout ''interrupt_stack_table'' (id_attr (sg_idt st' ! irq)) = (if irq = 0x41 then 1 else 0))
        ((0x40, ''XHCI'') # (0x41, ''LAPICTimer'') # fault_vectors)
    \<and> (\<forall>irq. irq \<notin> {0x40, 0x41} \<union> fst ` set fault_vectors \<longrightarrow> sg_idt st' ! irq = sg_idt st ! irq)"
proof -
  let ?gate = "make_idt_attr TypeInterruptGate 0 True" and ?kernel = "[(0x40, ''XHCI''), (0x41, ''LAPICTimer'')] :: (nat \<times> string) list"
  let ?idt1 = "(sg_idt st)[0x40 := set_idt_entry (?gate 0) (handler ''XHCI'') (sg_cs st) (sg_idt st ! 0x40)]"
  let ?idt2 = "?idt1[0x41 := set_idt_entry (?gate 1) (handler ''LAPICTimer'') (sg_cs st) (?idt1 ! 0x41)]"
  have v: "unat (vector_number VecXHCI) = 0x40" "unat (vector_number VecLAPICTimer) = 0x41" "of_nat kISTForTimer = (1 :: u8)"
    by (simp_all add: kISTForTimer_def)
  have ok: "\<forall>(irq, name) \<in> set fault_vectors. irq < length (sg_idt (st\<lparr>sg_idt := ?idt2\<rparr>))" "distinct (map fst fault_vectors)"
    using assms by (simp_all add: fault_vectors_def)
  obtain idt where idt: "put_faults handler fault_vectors (st\<lparr>sg_idt := ?idt2\<rparr>) = Some (st\<lparr>sg_idt := idt\<rparr>)"
    "\<forall>(irq, name) \<in> set fault_vectors. gate_to (sg_cs st) (handler name) (?gate 0) (idt ! irq)"
    "\<forall>irq. irq \<notin> fst ` set fault_vectors \<longrightarrow> idt ! irq = ?idt2 ! irq"
    using put_faults_gates [OF ok, of handler] by auto
  have i: "initialize_interrupt idt_addr handler st = Some (st\<lparr>sg_idt := idt, sg_idtr := Some (0xFFF, idt_addr)\<rparr>)"
    using assms idt(1) unfolding initialize_interrupt_def v by (simp add: put_idt_Some)
  have k: "gate_to (sg_cs st) (handler ''XHCI'') (?gate 0) (idt ! 0x40)"
    "gate_to (sg_cs st) (handler ''LAPICTimer'') (?gate 1) (idt ! 0x41)"
    using idt(3) assms by (simp_all add: fault_vectors_def gate_to_set)
  have attr: "field_get idt_attr_layout ''type'' (?gate i) = 14" "field_get idt_attr_layout ''present'' (?gate i) = 1"
    "field_get idt_attr_layout ''descriptor_privilege_level'' (?gate i) = 0"
    "field_get idt_attr_layout ''interrupt_stack_table'' (?gate i) = ucast i" if "i \<in> {0, 1}" for i
    using that by (elim insertE emptyE; hypsubst; code_simp)+
  have f: "\<forall>(irq, name) \<in> set fault_vectors. irq < 0x40" by (simp add: fault_vectors_def)
  have "list_all (\<lambda>(irq, name). gate_to (sg_cs st) (handler name) (?gate (if irq = 0x41 then 1 else 0)) (idt ! irq))
      ((0x40, ''XHCI'') # (0x41, ''LAPICTimer'') # fault_vectors)"
    using k idt(2) f by (fastforce simp: list_all_iff)
  then show ?thesis
    unfolding i using idt(3)
    by (auto simp: gate_to_def attr elim!: list.pred_mono_strong)
qed

text \<open>Empty tables, and memory of which the frames 1 to 99 are free.\<close>

definition sample_tables :: seg_state where
  "sample_tables =
    \<lparr>sg_gdt = replicate 7 0, sg_tss = replicate 26 0,
     sg_idt = replicate 256 \<lparr>id_offset_low = 0, id_segment_selector = 0, id_attr = 0, id_offset_middle = 0, id_offset_high = 0,
       id_reserved = 0\<rparr>,
     sg_gdtr = None, sg_idtr = None, sg_tr = 0, sg_cs = 8, sg_ss = 16, sg_ds = 0\<rparr>"

definition free_manager :: bitmap_manager where
  "free_manager = \<lparr>alloc_map = (\<lambda>_. 0), range_begin = 1, range_end = 100\<rparr>"

theorem tss_stacks_witness:
  "\<exists>st' mm' s1 s2. initialize_tss 0x123456789A (sample_tables, free_manager) = Some (st', mm')
    \<and> tss_field 1 st' = frame_address s1 + 0x8000 \<and> tss_field 9 st' = frame_address s2 + 0x8000
    \<and> frame_run s1 8 \<inter> frame_run s2 8 = {} \<and> segment_base (sg_gdt st' ! 5) OR push_bit 32 (sg_gdt st' ! 6) = 0x123456789A"
proof -
  have ok: "manager_ok free_manager" by (simp add: manager_ok_def free_manager_def kFrameCount_def)
  have used: "used_frames free_manager = {}" by (simp add: used_frames_def frame_used_def free_manager_def)
  have free: "free_run free_manager 1 8" by (simp add: free_run_def used) (simp add: free_manager_def)
  obtain s m1 where a1: "allocate 8 free_manager = Some ((s, KSuccess), m1)" "allocated_at 8 free_manager 1 s m1"
    using allocate_spec [OF ok, of 8] free by (auto simp: free_manager_def)
  have "s \<le> 1" using a1(2) free by (auto simp: allocated_at_def)
  then have s: "s = 1" using a1(2) by (simp add: allocated_at_def)
  have "range_begin m1 = 1" "range_end m1 = 100" "used_frames m1 = frame_run 1 8"
    using a1(2) used unfolding s by (simp_all add: allocated_at_def) (simp_all add: free_manager_def)
  then have "free_run m1 9 8" by (auto simp: free_run_def frame_run_def)
  moreover have "manager_ok m1" using allocated_at_frames [OF _ a1(2) ok] by simp
  ultimately obtain s2 m2 where a2: "allocate 8 m1 = Some ((s2, KSuccess), m2)"
    using allocate_spec [of m1 8] by auto
  have len: "length (sg_gdt sample_tables) = 7" "length (sg_tss sample_tables) = 26" by (simp_all add: sample_tables_def)
  have "\<exists>p. initialize_tss 0x123456789A (sample_tables, free_manager) = Some p"
    using a1(1) a2 len
    by (simp add: initialize_tss_def allocate_stack_area_def set_tss_def ub_simps kISTForTimer_def kTSS_def)
  then obtain st' mm' where i: "initialize_tss 0x123456789A (sample_tables, free_manager) = Some (st', mm')" by force
  show ?thesis using tss_stacks [OF ok len i] i by (auto simp: kISTForTimer_def)
qed

theorem idt_dispatches_witness:
  "\<exists>st'. initialize_interrupt 0x5000 (\<lambda>name. of_nat (length name)) sample_tables = Some st'
    \<and> gate_offset (sg_idt st' ! 0x41) = 10
    \<and> field_get idt_attr_layout ''interrupt_stack_table'' (id_attr (sg_idt st' ! 0x41)) = 1"
proof -
  have "length (sg_idt sample_tables) = 256" by (simp add: sample_tables_def)
  from idt_dispatches [OF this, where handler = "\<lambda>name. of_nat (length name)" and idt_addr = "0x5000"] show ?thesis by auto
qed

end
