(* ===== verification/Fault_Screen.thy ===== *)
theory Fault_Screen
  imports Terminal_Exec
begin

unbundle bit_operations_syntax

text \<open>
  What the handlers of the processor's exceptions show before they halt: \<open>PrintHex\<close>, \<open>PrintFrame\<close> and the
  handlers of \<open>Kernel/interrupt.cpp\<close>, on any writer of pixels.
\<close>

record interrupt_frame =
  if_rip :: u64
  if_cs :: u64
  if_rflags :: u64
  if_rsp :: u64
  if_ss :: u64

definition hex_char :: "u64 \<Rightarrow> char" where
  "hex_char x = (if 10 \<le> x then char_of (unat x + (97 - 10)) else char_of (unat x + 48))"

text \<open>A shift by the width of the value or more is undefined.\<close>

definition print_hex :: "u8 list \<Rightarrow> 's pixel_write \<Rightarrow> u64 \<Rightarrow> nat \<Rightarrow> vec2 \<Rightarrow> 's \<Rightarrow> 's option" where
  "print_hex font put v width pos =
    for_each (\<lambda>i s.
      if 64 \<le> 4 * (width - i - 1) then None
      else write_ascii font put (vadd pos (vec (8 * int i) 0)) (hex_char (drop_bit (4 * (width - i - 1)) v AND 0xF)) (rgb 0 0 0) s)
      [0..<width]"

definition print_frame :: "u8 list \<Rightarrow> 's pixel_write \<Rightarrow> interrupt_frame \<Rightarrow> string \<Rightarrow> 's \<Rightarrow> 's option" where
  "print_frame font put frame exp_name s = do {
     s \<leftarrow> write_string font put (vec 500 (16 * 0)) exp_name (rgb 0 0 0) s;
     s \<leftarrow> write_string font put (vec 500 (16 * 1)) ''CS:RIP'' (rgb 0 0 0) s;
     s \<leftarrow> print_hex font put (if_cs frame) 4 (vec (500 + 8 * 7) (16 * 1)) s;
     s \<leftarrow> print_hex font put (if_rip frame) 16 (vec (500 + 8 * 12) (16 * 1)) s;
     s \<leftarrow> write_string font put (vec 500 (16 * 2)) ''RFLAGS'' (rgb 0 0 0) s;
     s \<leftarrow> print_hex font put (if_rflags frame) 16 (vec (500 + 8 * 7) (16 * 2)) s;
     s \<leftarrow> write_string font put (vec 500 (16 * 3)) ''SS:RSP'' (rgb 0 0 0) s;
     s \<leftarrow> print_hex font put (if_ss frame) 4 (vec (500 + 8 * 7) (16 * 3)) s;
     print_hex font put (if_rsp frame) 16 (vec (500 + 8 * 12) (16 * 3)) s
   }"

text \<open>
  The handlers, by the name of the exception and whether it has an error code, and the screen each
  leaves when it halts.
\<close>

definition fault_handlers :: "(string \<times> bool) list" where
  "fault_handlers =
    [(''DE'', False), (''DB'', False), (''BP'', False), (''OF'', False), (''BR'', False), (''UD'', False), (''NM'', False),
     (''DF'', True), (''TS'', True), (''NP'', True), (''SS'', True), (''GP'', True), (''PF'', True), (''MF'', False),
     (''AC'', True), (''MC'', False), (''XM'', True), (''VE'', False)]"

definition fault_screen ::
  "u8 list \<Rightarrow> 's pixel_write \<Rightarrow> string \<Rightarrow> interrupt_frame \<Rightarrow> u64 \<Rightarrow> 's \<Rightarrow> 's option" where
  "fault_screen font put fault_name frame error_code s =
    (case map_of fault_handlers fault_name of
       None \<Rightarrow> None
     | Some with_error \<Rightarrow> do {
         s \<leftarrow> print_frame font put frame (CHR ''#'' # fault_name) s;
         if with_error then do {
           s \<leftarrow> write_string font put (vec 500 (16 * 4)) ''ERR'' (rgb 0 0 0) s;
           print_hex font put error_code 16 (vec (500 + 8 * 4) (16 * 4)) s
         }
         else Some s
       })"

section \<open>Digits\<close>

lemma hex_padded_Suc:
  assumes "0 < w"
  shows "hex_padded (Suc w) n = hex_padded w (n div 16) @ [hex_digit (n mod 16)]"
proof (cases "n < 16")
  case True
  moreover obtain k where "w = Suc k" using assms by (cases w) auto
  moreover have "char_of (48 :: nat) = CHR ''0''" by code_simp
  ultimately show ?thesis
    by (simp add: hex_padded_def hex_string.simps [of n] hex_string.simps [of 0] hex_digit_def replicate_append_same)
next
  case False
  then show ?thesis by (simp add: hex_padded_def hex_string.simps [of n])
qed

lemma hex_padded_digits:
  "n < 16 ^ Suc w \<Longrightarrow> hex_padded (Suc w) n = map (\<lambda>i. hex_digit (n div 16 ^ (w - i) mod 16)) [0..<Suc w]"
proof (induction w arbitrary: n)
  case 0
  then show ?case by (simp add: hex_padded_def hex_string.simps [of n])
next
  case (Suc w)
  have "n div 16 < 16 ^ Suc w" using Suc.prems by (simp add: div_less_iff_less_mult mult.commute)
  from Suc.IH [OF this] have "hex_padded (Suc (Suc w)) n
      = map (\<lambda>i. hex_digit (n div 16 div 16 ^ (w - i) mod 16)) [0..<Suc w] @ [hex_digit (n mod 16)]"
    by (simp only: hex_padded_Suc [OF zero_less_Suc])
  moreover have "n div 16 div 16 ^ (w - i) = n div 16 ^ (Suc w - i)" if "i < Suc w" for i
    using that by (simp add: Suc_diff_le div_mult2_eq)
  ultimately show ?case by simp
qed

lemma hex_char_digit: "hex_char x = hex_digit (unat x)"
proof -
  have "10 \<le> x \<longleftrightarrow> \<not> unat x < 10" by (simp only: word_le_nat_alt not_less) simp
  then show ?thesis by (simp add: hex_char_def hex_digit_def add.commute)
qed

lemma nibble: "unat (drop_bit (4 * k) v AND 0xF) = unat v div 16 ^ k mod 16" for v :: u64
proof -
  have "(0xF :: u64) = mask 4" by (simp add: mask_eq_exp_minus_1)
  then have "unat (drop_bit (4 * k) v AND 0xF) = unat v div 2 ^ (4 * k) mod 2 ^ 4"
    by (simp only: and_mask_unat unat_drop_bit_eq drop_bit_eq_div [where 'a=nat])
  then show ?thesis by (simp add: power_mult)
qed

text \<open>
  \<open>PrintHex\<close> shows the lowest digits of the value as \<open>printf\<close> would with zeros up to the width, one cell
  of the font after the other.\<close>

theorem print_hex_digits:
  assumes "0 < width" and "width \<le> 16"
  shows "print_hex font put v width pos s = write_string font put pos (hex_padded width (unat v mod 16 ^ width)) (rgb 0 0 0) s"
proof -
  obtain w where w: "width = Suc w" using assms(1) by (cases width) auto
  let ?digit = "\<lambda>i. hex_digit (unat v div 16 ^ (w - i) mod 16)"
  have "unat v mod 16 ^ Suc w div 16 ^ (w - i) mod 16 = unat v div 16 ^ (w - i) mod 16" if "i \<le> w" for i
  proof -
    have "(16 :: nat) ^ Suc w = 16 ^ (w - i) * 16 ^ Suc i" using that by (simp flip: power_add add: Suc_diff_le)
    then have "unat v mod 16 ^ Suc w div 16 ^ (w - i) = unat v div 16 ^ (w - i) mod 16 ^ Suc i"
      by (simp only: mod_mult2_eq) simp
    then show ?thesis by (simp add: mod_mod_cancel)
  qed
  note digit = this
  have "hex_padded width (unat v mod 16 ^ width) = map (\<lambda>i. hex_digit (unat v mod 16 ^ Suc w div 16 ^ (w - i) mod 16)) [0..<Suc w]"
    unfolding w by (rule hex_padded_digits) (rule mod_less_divisor, simp)
  also have "\<dots> = map ?digit [0..<Suc w]" by (intro map_cong refl arg_cong [of _ _ hex_digit] digit) auto
  finally have d: "hex_padded width (unat v mod 16 ^ width) = map ?digit [0..<width]" unfolding w .
  have "zip [0..<width] (map ?digit [0..<width]) = map (\<lambda>i. (i, ?digit i)) [0..<width]"
    by (simp add: zip_map2 zip_same_conv_map)
  then have "write_string font put pos (map ?digit [0..<width]) (rgb 0 0 0) s
      = for_each (\<lambda>i. write_ascii font put (vec (vx pos + int i * 8) (vy pos)) (?digit i) (rgb 0 0 0)) [0..<width] s"
    unfolding write_string_def by (simp only: length_map length_upt diff_zero for_each_map prod.case)
  also have "\<dots> = print_hex font put v width pos s"
    unfolding print_hex_def
  proof (rule for_each_cong)
    fix i s assume "i \<in> set [0..<width]"
    then have "4 * (width - i - 1) < 64" "width - i - 1 = w - i" using assms(2) w by auto
    then show "write_ascii font put (vec (vx pos + int i * 8) (vy pos)) (?digit i) (rgb 0 0 0) s
        = (if 64 \<le> 4 * (width - i - 1) then None
           else write_ascii font put (vadd pos (vec (8 * int i) 0)) (hex_char (drop_bit (4 * (width - i - 1)) v AND 0xF)) (rgb 0 0 0) s)"
      by (simp only: hex_char_digit nibble not_le if_False) (simp add: mult.commute vec2_eq_iff vadd_def)
  qed
  finally show ?thesis unfolding d by simp
qed

theorem print_hex_digits_witness:
  "print_hex (replicate 4096 0x80) (\<lambda>p c s. Some (s @ [(p, c)])) 0x1234ABCD 4 (vec 500 16) []
    = write_string (replicate 4096 0x80) (\<lambda>p c s. Some (s @ [(p, c)])) (vec 500 16) ''abcd'' (rgb 0 0 0) []"
proof -
  have "unat (0x1234ABCD :: u64) mod 16 ^ 4 = 0xABCD" by simp
  moreover have "hex_padded 4 0xABCD = [char_of (97 :: nat), char_of (98 :: nat), char_of (99 :: nat), char_of (100 :: nat)]"
    by (simp add: hex_padded_def hex_string.simps hex_digit_def)
  moreover have "[char_of (97 :: nat), char_of (98 :: nat), char_of (99 :: nat), char_of (100 :: nat)] = ''abcd''" by code_simp
  ultimately have d: "hex_padded 4 (unat (0x1234ABCD :: u64) mod 16 ^ 4) = ''abcd''" by (simp only:)
  show ?thesis by (rule print_hex_digits [of 4 _ _ "0x1234ABCD", unfolded d]) simp_all
qed

end
