(* ===== verification/Terminal_Print.thy ===== *)
theory Terminal_Print
  imports Terminal_Edit
begin

text \<open>
  Printing on a terminal: what \<open>Print\<close> does to the cursor, to the window and to the main task's mailbox.
\<close>

text \<open>The cursor after a character; on the last row the screen scrolls instead.\<close>

definition cursor_step :: "char \<Rightarrow> nat \<times> nat \<Rightarrow> nat \<times> nat" where
  "cursor_step c p =
    (if c = CHR ''\<newline>'' \<or> fst p = kTermColumns - 1 then (0, min (snd p + 1) (kTermRows - 1)) else (fst p + 1, snd p))"

definition term_cursor :: "terminal \<Rightarrow> nat \<times> nat" where
  "term_cursor t = (tr_x t, tr_y t)"

definition on_term :: "nat \<times> nat \<Rightarrow> bool" where
  "on_term p \<longleftrightarrow> fst p < kTermColumns \<and> snd p < kTermRows"

lemma cursor_step_on_term: "on_term p \<Longrightarrow> on_term (cursor_step c p)"
  by (auto simp: on_term_def cursor_step_def kTermColumns_def kTermRows_def)

lemma fold_cursor_on_term: "on_term p \<Longrightarrow> on_term (fold cursor_step str p)"
  by (induction str arbitrary: p) (simp_all only: fold_simps cursor_step_on_term)

text \<open>A terminal with the cursor somewhere else.\<close>

definition put_cursor :: "nat \<times> nat \<Rightarrow> terminal \<Rightarrow> terminal" where
  "put_cursor p t = t\<lparr>tr_x := fst p, tr_y := snd p\<rparr>"

lemma put_cursor_simps [simp]:
  "tr_window (put_cursor p t) = tr_window t" "tr_task_id (put_cursor p t) = tr_task_id t"
  "tr_layer_id (put_cursor p t) = tr_layer_id t" "tr_x (put_cursor p t) = fst p" "tr_y (put_cursor p t) = snd p"
  "put_cursor q (put_cursor p t) = put_cursor q t" "put_cursor (term_cursor t) t = t" "term_cursor (put_cursor p t) = p"
  by (simp_all add: put_cursor_def term_cursor_def)

lemma term_newline_ok:
  assumes ready: "term_ready (tr_window t) st" and y: "tr_y t < kTermRows"
  shows "\<exists>st'. term_newline (t, st) = Some (put_cursor (0, min (tr_y t + 1) (kTermRows - 1)) t, st')
    \<and> term_ready (tr_window t) st' \<and> term_like (tr_window t) st st'"
proof (cases "tr_y t < kTermRows - 1")
  case True
  then show ?thesis using ready term_like_refl [OF ready]
    by (intro exI [of _ st]) (simp add: term_newline_def put_cursor_def)
next
  case False
  then have "tr_y t = kTermRows - 1" using y by simp
  with draw_scroll [of "t\<lparr>tr_x := 0\<rparr>" st] ready y show ?thesis
    by (auto simp: term_newline_def put_cursor_def kTermRows_def)
qed

lemma term_print_char_ok:
  assumes ready: "term_ready (tr_window t) st" and on: "on_term (term_cursor t)"
    and c: "c = CHR ''\<newline>'' \<or> has_glyph font c"
  shows "\<exists>st'. term_print_char font c (t, st) = Some (put_cursor (cursor_step c (term_cursor t)) t, st')
    \<and> term_ready (tr_window t) st' \<and> term_like (tr_window t) st st'"
proof (cases "c = CHR ''\<newline>''")
  case True
  then show ?thesis using term_newline_ok [OF ready] on
    by (simp add: term_print_char_def cursor_step_def on_term_def term_cursor_def)
next
  case False
  have y: "tr_y t < kTermRows" and x: "tr_x t < kTermColumns" using on by (simp_all add: on_term_def term_cursor_def)
  obtain st1 where st1: "write_ascii font (inner_put (tr_window t)) (calc_cursor_pos t) c (to_color 0xFFFFFF) st = Some st1"
    "term_ready (tr_window t) st1" "term_like (tr_window t) st st1"
    using draw_cell [OF ready, of font c "calc_cursor_pos t" "to_color 0xFFFFFF"] c False x y
    by (auto simp: calc_cursor_pos_def kTermRows_def kTermColumns_def)
  show ?thesis
  proof (cases "tr_x t = kTermColumns - 1")
    case True
    obtain st2 where "term_newline (t, st1) = Some (put_cursor (0, min (tr_y t + 1) (kTermRows - 1)) t, st2)"
      "term_ready (tr_window t) st2" "term_like (tr_window t) st1 st2"
      using term_newline_ok [OF st1(2) y] by blast
    then show ?thesis using st1 False True term_like_trans [OF ready st1(3)]
      by (auto simp: term_print_char_def cursor_step_def term_cursor_def)
  next
    case no_wrap: False
    then show ?thesis using st1 False by (simp add: term_print_char_def cursor_step_def term_cursor_def put_cursor_def)
  qed
qed

lemma print_chars_ok:
  assumes "term_ready (tr_window t) st" and "on_term (term_cursor t)"
    and "\<forall>c \<in> set str. c = CHR ''\<newline>'' \<or> has_glyph font c"
  shows "\<exists>st'. for_each (term_print_char font) str (t, st) = Some (put_cursor (fold cursor_step str (term_cursor t)) t, st')
    \<and> term_ready (tr_window t) st' \<and> term_like (tr_window t) st st'"
  using assms
proof (induction str arbitrary: t st)
  case Nil
  then show ?case using term_like_refl by auto
next
  case (Cons c str)
  obtain st1 where st1: "term_print_char font c (t, st) = Some (put_cursor (cursor_step c (term_cursor t)) t, st1)"
    "term_ready (tr_window t) st1" "term_like (tr_window t) st st1"
    using term_print_char_ok [OF Cons.prems(1,2), of c font] Cons.prems(3) by auto
  with Cons.IH [of "put_cursor (cursor_step c (term_cursor t)) t" st1] Cons.prems(2,3)
  obtain st2 where "for_each (term_print_char font) str (put_cursor (cursor_step c (term_cursor t)) t, st1)
      = Some (put_cursor (fold cursor_step str (cursor_step c (term_cursor t))) t, st2)"
    "term_ready (tr_window t) st2" "term_like (tr_window t) st1 st2"
    by (auto simp: cursor_step_on_term)
  with st1 term_like_trans [OF Cons.prems(1) st1(3)] show ?case by auto
qed

text \<open>The rows of the window the main task is asked to draw after printing: from the old cursor's to the new one's.\<close>

definition printed_rows :: "nat \<times> nat \<Rightarrow> nat \<times> nat \<Rightarrow> rectangle" where
  "printed_rows p q = rect (vec 4 (24 + 16 * int (snd p) + 5)) (vec 488 (16 * int (snd q) - 16 * int (snd p) + 16))"

text \<open>
  \<open>Print\<close> of characters the font has is defined up to its message: only the window's pixels change,
  the cursor wraps at the last column and stays on the last row, where the screen scrolls, and the main
  task is asked to draw the rows from the old cursor to the new one.\<close>

lemma term_print_cursor:
  assumes ready: "term_ready (tr_window t) st" and on: "on_term (term_cursor t)"
    and glyphs: "\<forall>c \<in> set str. c = CHR ''\<newline>'' \<or> has_glyph font c"
    and q: "q = fold cursor_step str (term_cursor t)"
  shows "on_term q \<and> (\<exists>st'. term_print font str (t, st)
      = map_option (Pair (put_cursor q t))
          (term_send (make_layer_message (tr_task_id t) (tr_layer_id t) LDrawArea (printed_rows (term_cursor t) q)) st')
      \<and> term_ready (tr_window t) st' \<and> term_like (tr_window t) st st')"
proof -
  have x: "tr_x t \<le> 60" "tr_y t < 15" using on by (simp_all add: on_term_def term_cursor_def kTermColumns_def kTermRows_def)
  have onq: "on_term q" unfolding q by (rule fold_cursor_on_term [OF on])
  obtain st1 where st1: "draw_cursor False t st = Some (rect (calc_cursor_pos t) (vec 7 15), st1)"
    "term_ready (tr_window t) st1" "term_like (tr_window t) st st1"
    using draw_cursor_ok [OF ready x(2,1)] by blast
  obtain st2 where st2: "for_each (term_print_char font) str (t, st1) = Some (put_cursor q t, st2)"
    "term_ready (tr_window t) st2" "term_like (tr_window t) st1 st2"
    using print_chars_ok [OF st1(2) on glyphs] q by blast
  obtain st3 where st3: "draw_cursor True (put_cursor q t) st2 = Some (rect (calc_cursor_pos (put_cursor q t)) (vec 7 15), st3)"
    "term_ready (tr_window t) st3" "term_like (tr_window t) st2 st3"
    using draw_cursor_ok [of "put_cursor q t" st2 True] st2(2) onq
    by (auto simp: on_term_def kTermColumns_def kTermRows_def)
  have w: "term_window (tr_window t) st3 = Some (window_at_index (tr_window t) st3)"
    "inner_size (window_at_index (tr_window t) st3) = vec 488 248"
    using st3(2) by (auto simp: term_window_def term_ready_def window_at_index_def ub_simps inner_size_def win_dims_def
        term_size_def window_size_def kTopLeftMargin_def kBottomRightMargin_def vec2_eq_iff)
  have "term_print font str (t, st) = map_option (Pair (put_cursor q t))
      (term_send (make_layer_message (tr_task_id t) (tr_layer_id t) LDrawArea (printed_rows (term_cursor t) q)) st3)"
    using st1(1) st2(1) st3(1) w
    by (simp add: term_print_def printed_rows_def term_cursor_def calc_cursor_pos_def kTopLeftMargin_def algebra_simps)
  then show ?thesis
    using onq st3(2) term_like_trans [OF ready st1(3) term_like_trans [OF st1(2) st2(3) st3(3)]] by blast
qed

end
