(* ===== verification/Syscalls.thy ===== *)
theory Syscalls
  imports Terminal_Print Acpi Task_Invariant
begin

unbundle bit_operations_syntax

text \<open>
  System calls: \<open>Kernel/syscall.cpp\<close>, \<open>msr.hpp\<close>, \<open>SyscallEntry\<close> of \<open>asmfunc.asm\<close> and the log of \<open>logger.cpp\<close>.

  Strings are read from the memory of the application.  The console and the layer manager see the same
  windows; \<open>terminals\<close> maps the id of a task to its terminal.
\<close>

record kernel_world =
  kw_term :: term_world
  kw_active :: active_layer
  kw_console :: console
  kw_screen :: frame_buffer
  kw_log_level :: u64
  kw_maps :: terminal_maps

section \<open>The log\<close>

definition kError :: u64 where
  "kError = 3"

definition kWarn :: u64 where
  "kWarn = 4"

definition kInfo :: u64 where
  "kInfo = 6"

definition kDebug :: u64 where
  "kDebug = 7"

definition set_log_level :: "u64 \<Rightarrow> kernel_world \<Rightarrow> kernel_world" where
  "set_log_level level w = w\<lparr>kw_log_level := level\<rparr>"

text \<open>\<open>console->PutString\<close> when the layers exist.\<close>

definition kernel_put_string :: "u8 list \<Rightarrow> string \<Rightarrow> kernel_world \<Rightarrow> kernel_world option" where
  "kernel_put_string font str w =
    map_option (\<lambda>(c, cw). w\<lparr>kw_console := c, kw_screen := cw_screen cw, kw_term := (kw_term w)\<lparr>tw_lm := cw_layers cw\<rparr>\<rparr>)
      (console_put_string font str
        (kw_console w, \<lparr>cw_screen = kw_screen w, cw_layers = tw_lm (kw_term w), cw_has_manager = True\<rparr>))"

text \<open>\<open>Log\<close> with the text its format gives, which goes into an array of 1024 characters.\<close>

definition log_text :: "u8 list \<Rightarrow> u64 \<Rightarrow> string \<Rightarrow> kernel_world \<Rightarrow> kernel_world option" where
  "log_text font level text w =
    (if kw_log_level w < level then Some w
     else do { s \<leftarrow> sprintf_into 1024 text; kernel_put_string font s w })"

section \<open>The calls\<close>

record sys_result =
  sr_value :: u64
  sr_error :: int

definition EBADF :: int where
  "EBADF = 9"

definition E2BIG :: int where
  "E2BIG = 7"

definition EINVAL :: int where
  "EINVAL = 22"

definition sys_ok :: "u64 \<Rightarrow> int \<Rightarrow> sys_result" where
  "sys_ok v e = \<lparr>sr_value = v, sr_error = e\<rparr>"

text \<open>A C string in memory; there is no result without a null character.\<close>

partial_function (option) c_string_at :: "phys_mem \<Rightarrow> u64 \<Rightarrow> string option" where
  "c_string_at mem a =
    (if mem a = 0 then Some [] else Option.bind (c_string_at mem (a + 1)) (\<lambda>s. Some (char_of_byte (mem a) # s)))"

text \<open>A 64-bit argument taken as an \<open>int\<close>.\<close>

definition int_arg :: "u64 \<Rightarrow> int" where
  "int_arg a = sint (ucast a :: u32)"

record sys_env =
  se_font :: "u8 list"
  se_format :: pixel_format

type_synonym syscall = "u64 \<Rightarrow> u64 \<Rightarrow> u64 \<Rightarrow> u64 \<Rightarrow> u64 \<Rightarrow> kernel_world \<Rightarrow> (sys_result \<times> kernel_world) option"

definition vm_of :: "kernel_world \<Rightarrow> phys_mem" where
  "vm_of w = ld_vmem (tw_loader (kw_term w))"

definition sys_log_string :: "sys_env \<Rightarrow> syscall" where
  "sys_log_string env arg1 arg2 arg3 arg4 arg5 w =
    (if arg1 \<noteq> kError \<and> arg1 \<noteq> kWarn \<and> arg1 \<noteq> kInfo \<and> arg1 \<noteq> kDebug then Some (sys_ok 0 EINVAL, w)
     else do {
       s \<leftarrow> c_string_at (vm_of w) arg2;
       if 1024 < length s then Some (sys_ok 0 E2BIG, w)
       else map_option (Pair (sys_ok 0 0)) (log_text (se_font env) arg1 s w)
     })"

definition current_task_of :: "kernel_world \<Rightarrow> task option" where
  "current_task_of w = Option.bind (current_task (tw_tm (kw_term w))) (tm_task (tw_tm (kw_term w)))"

text \<open>A task without a terminal gets the null pointer from the map, which is dereferenced.\<close>

definition sys_put_string :: "sys_env \<Rightarrow> syscall" where
  "sys_put_string env arg1 arg2 arg3 arg4 arg5 w =
    (if 1024 < arg3 then Some (sys_ok 0 E2BIG, w)
     else if arg1 = 1 then do {
       task \<leftarrow> current_task_of w;
       t \<leftarrow> mp_terminals (kw_maps w) (tk_id task);
       (t', st) \<leftarrow> term_print (se_font env) (map char_of_byte (mem_bytes (vm_of w) arg2 (unat arg3))) (t, kw_term w);
       Some (sys_ok arg3 0,
         w\<lparr>kw_term := st, kw_maps := (kw_maps w)\<lparr>mp_terminals := (mp_terminals (kw_maps w))(tk_id task \<mapsto> t')\<rparr>\<rparr>)
     }
     else Some (sys_ok 0 EBADF, w))"

definition sys_exit :: "sys_env \<Rightarrow> syscall" where
  "sys_exit env arg1 arg2 arg3 arg4 arg5 w =
    map_option (\<lambda>task. (sys_ok (tk_os_stack_ptr task) (int_arg arg1), w)) (current_task_of w)"

definition sys_open_window :: "sys_env \<Rightarrow> syscall" where
  "sys_open_window env arg1 arg2 arg3 arg4 arg5 w = do {
     title \<leftarrow> c_string_at (vm_of w) arg5;
     win \<leftarrow> toplevel_window_new (se_font env) (int_arg arg1) (int_arg arg2) (se_format env) title;
     (let lm = tw_lm (kw_term w);
          n = length (lm_windows lm);
          (i, lm1) = new_layer (lm\<lparr>lm_windows := lm_windows lm @ [win]\<rparr>);
          l = layer_move (vec (int_arg arg3) (int_arg arg4)) (layer_set_draggable True (layer_set_window n (lm_layers lm1 ! i)))
      in do {
        (al, lm2) \<leftarrow> activate (se_font env) (ly_id l) (kw_active w, lm1\<lparr>lm_layers := (lm_layers lm1)[i := l]\<rparr>);
        Some (sys_ok (ucast (ly_id l)) 0, w\<lparr>kw_active := al, kw_term := (kw_term w)\<lparr>tw_lm := lm2\<rparr>\<rparr>)
      })
   }"

definition sys_win_write_string :: "sys_env \<Rightarrow> syscall" where
  "sys_win_write_string env arg1 arg2 arg3 arg4 arg5 w =
    (let layer_id = ucast arg1 :: u32; lm = tw_lm (kw_term w) in
     case find_layer layer_id lm of
       None \<Rightarrow> Some (sys_ok 0 EBADF, w)
     | Some i \<Rightarrow> do {
         msg \<leftarrow> c_string_at (vm_of w) arg5;
         k \<leftarrow> ly_window (lm_layers lm ! i);
         win \<leftarrow> arr_get (lm_windows lm) k;
         win' \<leftarrow> write_string (se_font env) window_write (vec (int_arg arg2) (int_arg arg3)) msg (to_color (ucast arg4)) win;
         lm' \<leftarrow> lm_draw_id layer_id (lm\<lparr>lm_windows := (lm_windows lm)[k := win']\<rparr>);
         Some (sys_ok 0 0, w\<lparr>kw_term := (kw_term w)\<lparr>tw_lm := lm'\<rparr>\<rparr>)
       })"

definition syscall_table :: "sys_env \<Rightarrow> syscall list" where
  "syscall_table env =
    [sys_log_string env, sys_put_string env, sys_exit env, sys_open_window env, sys_win_write_string env]"

text \<open>\<open>SyscallEntry\<close>: the number is an index into the table, and what is behind the table is called, too.\<close>

definition syscall_entry :: "sys_env \<Rightarrow> u32 \<Rightarrow> syscall" where
  "syscall_entry env eax arg1 arg2 arg3 arg4 arg5 w = do {
     f \<leftarrow> arr_get (syscall_table env) (unat (eax AND 0x7FFFFFFF));
     f arg1 arg2 arg3 arg4 arg5 w
   }"

definition kIA32_EFER :: u32 where
  "kIA32_EFER = 0xC0000080"

definition kIA32_STAR :: u32 where
  "kIA32_STAR = 0xC0000081"

definition kIA32_LSTAR :: u32 where
  "kIA32_LSTAR = 0xC0000082"

definition kIA32_FMASK :: u32 where
  "kIA32_FMASK = 0xC0000084"

text \<open>The writes to model specific registers of \<open>InitializeSyscall\<close>; \<open>entry_addr\<close> is the address of \<open>SyscallEntry\<close>.\<close>

definition initialize_syscall :: "u64 \<Rightarrow> (u32 \<times> u64) list" where
  "initialize_syscall entry_addr =
    [(kIA32_EFER, 0x0501), (kIA32_LSTAR, entry_addr), (kIA32_STAR, push_bit 32 8 OR push_bit 48 (16 OR 3)), (kIA32_FMASK, 0)]"

section \<open>What the calls do\<close>


text \<open>
  \<open>LogString\<close> checks for more than 1024 characters, but the array its text is formatted into has no
  room for the null character of a string of 1024: that length passes the check and is undefined.\<close>

theorem log_string_one_too_long:
  assumes s: "c_string_at (vm_of w) str = Some s" and level: "level \<in> {kError, kWarn, kInfo, kDebug}" "level \<le> kw_log_level w"
  shows "syscall_entry env 0x80000000 level str arg3 arg4 arg5 w =
    (if 1024 < length s then Some (sys_ok 0 E2BIG, w) else if length s = 1024 then None
     else map_option (Pair (sys_ok 0 0)) (kernel_put_string (se_font env) s w))"
proof -
  have n: "unat ((0x80000000 :: u32) AND 0x7FFFFFFF) = 0" by simp
  show ?thesis
    unfolding syscall_entry_def n using s level
    by (auto simp: arr_get_def syscall_table_def sys_log_string_def log_text_def sprintf_into_def not_less)
qed

text \<open>A world with one terminal, of the running task, and some memory.\<close>

definition sample_kernel :: "phys_mem \<Rightarrow> kernel_world" where
  "sample_kernel mem =
    \<lparr>kw_term = sample_term_world\<lparr>tw_loader := sample_loader\<lparr>ld_vmem := mem\<rparr>\<rparr>, kw_active = active_layer_new,
     kw_console = console_new kDesktopFGColor kDesktopBGColor, kw_screen = cw_screen sample_screen, kw_log_level = kWarn,
     kw_maps = \<lparr>mp_layer_task = Map.empty, mp_terminals = [1 \<mapsto> sample_terminal]\<rparr>\<rparr>"

definition sample_sys_env :: sys_env where
  "sample_sys_env = \<lparr>se_font = replicate 4096 0, se_format = PixelRGBResv8\<rparr>"

lemma sample_task: "\<exists>task. current_task_of (sample_kernel mem) = Some task \<and> tk_id task = 1"
  by (simp add: current_task_of_def sample_kernel_def sample_term_world_def current_task_def tm_task_def
      task_manager_new_eq kMaxLevel_def ub_simps task_new_def)


text \<open>A string of 1024 letters that starts at \<open>n\<close> characters before its end.\<close>

lemma c_string_letters:
  "n \<le> 1024 \<Longrightarrow> c_string_at (\<lambda>a. if unat a < 1024 then 0x41 else 0) (of_nat (1024 - n)) = Some (replicate n (CHR ''A''))"
proof (induction n)
  case 0
  show ?case by (subst c_string_at.simps) simp
next
  case (Suc n)
  have b: "char_of_byte 0x41 = CHR ''A''" by (simp add: char_of_byte_def) code_simp
  obtain m where m: "1024 - Suc n = m" "1024 - n = Suc m" "m < 1024" using Suc.prems by (metis Suc_diff_Suc Suc_le_lessD diff_less zero_less_Suc zero_less_numeral)
  then have "unat (of_nat m :: u64) = m" by (simp add: unat_of_nat take_bit_nat_eq_self)
  moreover have "(0x41 :: u8) \<noteq> 0" by simp
  ultimately have "c_string_at (\<lambda>a. if unat a < 1024 then 0x41 else 0) (of_nat m)
      = Option.bind (c_string_at (\<lambda>a. if unat a < 1024 then 0x41 else 0) (of_nat m + 1)) (\<lambda>s. Some (char_of_byte 0x41 # s))"
    using m(3) by (subst c_string_at.simps) (simp only: if_True if_False)
  with Suc m b show ?case by (simp add: add.commute)
qed

theorem log_string_one_too_long_witness:
  "syscall_entry sample_sys_env 0x80000000 3 0 0 0 0 (sample_kernel (\<lambda>a. if unat a < 1024 then 0x41 else 0)) = None"
proof -
  let ?w = "sample_kernel (\<lambda>a. if unat a < 1024 then 0x41 else 0)"
  have "c_string_at (vm_of ?w) 0 = Some (replicate 1024 (CHR ''A''))"
    using c_string_letters [of 1024] by (simp add: vm_of_def sample_kernel_def)
  from log_string_one_too_long [OF this, of 3 sample_sys_env 0 0 0] show ?thesis
    by (simp add: sample_kernel_def kError_def kWarn_def)
qed

end
