(* ===== verification/Main_Loop.thy ===== *)
theory Main_Loop
  imports Syscalls Input_Devices Xhci_Startup Fault_Screen
begin

unbundle bit_operations_syntax

text \<open>
  The main task: the windows, the text box and the message loop of \<open>Kernel/main.cpp\<close>.

  What \<open>kernel_main_new_stack\<close> does before its loop is in \<open>Kernel_Start\<close>.  What the loop waits for are messages to
  the main task.
\<close>

record main_state =
  mn_kernel :: kernel_world
  mn_timers :: timer_manager
  mn_mouse :: mouse
  mn_xhc :: controller
  mn_main_window :: nat
  mn_main_layer :: u32
  mn_text_window :: nat
  mn_text_layer :: u32
  mn_text_index :: int
  mn_text_visible :: bool
  mn_terminal_task :: u64

definition mn_lm :: "main_state \<Rightarrow> layer_manager" where
  "mn_lm s = tw_lm (kw_term (mn_kernel s))"

definition put_lm :: "layer_manager \<Rightarrow> main_state \<Rightarrow> main_state" where
  "put_lm lm s = s\<lparr>mn_kernel := (mn_kernel s)\<lparr>kw_term := (kw_term (mn_kernel s))\<lparr>tw_lm := lm\<rparr>\<rparr>\<rparr>"

definition mn_tm :: "main_state \<Rightarrow> task_manager" where
  "mn_tm s = tw_tm (kw_term (mn_kernel s))"

definition put_tm :: "task_manager \<Rightarrow> main_state \<Rightarrow> main_state" where
  "put_tm tm s = s\<lparr>mn_kernel := (mn_kernel s)\<lparr>kw_term := (kw_term (mn_kernel s))\<lparr>tw_tm := tm\<rparr>\<rparr>\<rparr>"

section \<open>The windows of the main task\<close>

text \<open>A toplevel window in a draggable layer on top: \<open>InitializeMainWindow\<close>, and \<open>InitializeTextWindow\<close> after its box is drawn.\<close>

definition open_toplevel :: "window \<Rightarrow> vec2 \<Rightarrow> layer_manager \<Rightarrow> nat \<times> u32 \<times> layer_manager" where
  "open_toplevel w pos lm =
    (let n = length (lm_windows lm);
         (i, lm1) = new_layer (lm\<lparr>lm_windows := lm_windows lm @ [w]\<rparr>);
         l = layer_move pos (layer_set_draggable True (layer_set_window n (lm_layers lm1 ! i)))
     in (n, ly_id l, lm_up_down (ly_id l) (2 ^ 31 - 1) (lm1\<lparr>lm_layers := (lm_layers lm1)[i := l]\<rparr>)))"

definition initialize_main_window :: "u8 list \<Rightarrow> pixel_format \<Rightarrow> layer_manager \<Rightarrow> (nat \<times> u32 \<times> layer_manager) option" where
  "initialize_main_window font fmt lm = do {
     w \<leftarrow> toplevel_window_new font 160 52 fmt ''Main Window'';
     Some (open_toplevel w (vec 300 100) lm)
   }"

definition initialize_text_window :: "u8 list \<Rightarrow> pixel_format \<Rightarrow> layer_manager \<Rightarrow> (nat \<times> u32 \<times> layer_manager) option" where
  "initialize_text_window font fmt lm = do {
     w \<leftarrow> toplevel_window_new font 160 52 fmt ''Text Window'';
     w1 \<leftarrow> draw_default_text_box inner_write (vec 0 0) (inner_size w) w;
     Some (open_toplevel w1 (vec 350 200) lm)
   }"

section \<open>The text box\<close>

text \<open>The writers of the window \<open>n\<close> and of its inner area.\<close>

definition lm_window_put :: "nat \<Rightarrow> layer_manager pixel_write" where
  "lm_window_put n pos c lm = do {
     w \<leftarrow> arr_get (lm_windows lm) n;
     w' \<leftarrow> window_write pos c w;
     Some (lm\<lparr>lm_windows := (lm_windows lm)[n := w']\<rparr>)
   }"

definition lm_inner_put :: "nat \<Rightarrow> layer_manager pixel_write" where
  "lm_inner_put n pos c lm = do {
     w \<leftarrow> arr_get (lm_windows lm) n;
     w' \<leftarrow> inner_write pos c w;
     Some (lm\<lparr>lm_windows := (lm_windows lm)[n := w']\<rparr>)
   }"

definition draw_text_cursor :: "nat \<Rightarrow> int \<Rightarrow> bool \<Rightarrow> layer_manager \<Rightarrow> layer_manager option" where
  "draw_text_cursor n index visible =
    fill_rectangle (lm_inner_put n) (vec (4 + 8 * index) 5) (vec 7 15) (to_color (if visible then 0x000000 else 0xFFFFFF))"

definition text_pos :: "int \<Rightarrow> vec2" where
  "text_pos index = vec (4 + 8 * index) 6"

text \<open>
  \<open>InputTextWindow\<close>: a backspace or a character in a box of \<open>max_chars\<close>, and the whole with the layer drawn
  after it; \<open>c\<close> is a signed character.
\<close>

definition edit_text_box :: "u8 list \<Rightarrow> nat \<Rightarrow> int \<Rightarrow> u8 \<Rightarrow> int \<times> layer_manager \<Rightarrow> (int \<times> layer_manager) option" where
  "edit_text_box font n max_chars c p =
    (case p of (index, lm) \<Rightarrow>
     if c = 8 \<and> 0 < index then do {
       lm1 \<leftarrow> draw_text_cursor n index False lm;
       lm2 \<leftarrow> fill_rectangle (lm_inner_put n) (text_pos (index - 1)) (vec 8 16) (to_color 0xFFFFFF) lm1;
       Some (index - 1, lm2)
     }
     else if 32 \<le> sint c \<and> index < max_chars then do {
       lm1 \<leftarrow> draw_text_cursor n index False lm;
       lm2 \<leftarrow> write_ascii font (lm_inner_put n) (text_pos index) (char_of_byte c) (to_color 0x000000) lm1;
       Some (index + 1, lm2)
     }
     else Some (index, lm))"

definition text_max_chars :: "int \<Rightarrow> int" where
  "text_max_chars width = (if width < 16 then - ((16 - width) div 8) else (width - 16) div 8) - 1"

definition input_text_window :: "u8 list \<Rightarrow> nat \<Rightarrow> u32 \<Rightarrow> u8 \<Rightarrow> int \<times> layer_manager \<Rightarrow> (int \<times> layer_manager) option" where
  "input_text_window font n i c p =
    (if c = 0 then Some p
     else do {
       w \<leftarrow> arr_get (lm_windows (snd p)) n;
       (index, lm) \<leftarrow> edit_text_box font n (text_max_chars (w_width w)) c p;
       map_option (Pair index) (lm_draw_id i lm)
     })"

section \<open>Output on the console\<close>

text \<open>\<open>printk\<close> of a formatted text, and \<open>ShowVolumeImage\<close> with its calls in order.\<close>

definition printk :: "u8 list \<Rightarrow> string \<Rightarrow> kernel_world \<Rightarrow> kernel_world option" where
  "printk font text w = do { s \<leftarrow> sprintf_into 1024 text; kernel_put_string font s w }"

definition byte_text :: "u8 \<Rightarrow> string" where
  "byte_text b = '' '' @ hex_padded 2 (unat b)"

definition volume_texts :: "u8 list \<Rightarrow> string list" where
  "volume_texts bytes =
    (''Volume Image:'' @ [CHR ''\<newline>'']) # concat (map (\<lambda>i.
      [hex_padded 4 (i * 16) @ '':''] @ map byte_text (take 8 (drop (16 * i) bytes)) @ ['' '']
      @ map byte_text (take 8 (drop (16 * i + 8) bytes)) @ [[CHR ''\<newline>'']]) [0..<16])"

definition show_volume_image :: "u8 list \<Rightarrow> u8 list \<Rightarrow> kernel_world \<Rightarrow> kernel_world option" where
  "show_volume_image font bytes w =
    (if length bytes < 256 then None else for_each (printk font) (volume_texts bytes) w)"

section \<open>The message loop\<close>

definition kTextboxCursorTime :: int where
  "kTextboxCursorTime = 1"

definition kTimer05Sec :: u64 where
  "kTimer05Sec = of_nat (kTimerFreq div 2)"

record main_env =
  me_sys :: sys_env
  me_screen_size :: vec2
  me_port_hw :: port_hw

definition hex_upper :: "char \<Rightarrow> char" where
  "hex_upper c = (if of_char c < (97 :: nat) then c else char_of (of_char c - (32 :: nat)))"

text \<open>The counter in the main window: \<open>0x%08X\<close> of the low half of the tick.\<close>

definition counter_text :: "u64 \<Rightarrow> string" where
  "counter_text tick = ''0x'' @ map hex_upper (hex_padded 8 (unat (ucast tick :: u32)))"

definition draw_counter :: "u8 list \<Rightarrow> main_state \<Rightarrow> main_state option" where
  "draw_counter font s =
    (let n = mn_main_window s; lm = mn_lm s;
         put = lm_window_put n
     in map_option (\<lambda>lm'. put_lm lm' s) (do {
       lm1 \<leftarrow> fill_rectangle put (vec 24 28) (vec (8 * 10) 16) (to_color 0xC6C6C6) lm;
       lm2 \<leftarrow> write_string font put (vec 24 28) (counter_text (tick_count (mn_timers s))) (to_color 0x000000) lm1;
       lm_draw_id (mn_main_layer s) lm2
     }))"

text \<open>\<open>task_manager->SendMessage\<close>, whose error is not looked at.\<close>

definition main_send :: "u64 \<Rightarrow> message \<Rightarrow> main_state \<Rightarrow> main_state option" where
  "main_send i m s = map_option (\<lambda>(_, tm). put_tm tm s) (send_message i m (mn_tm s))"

text \<open>What the observers of keyboard and mouse do when a class driver notifies them.\<close>

definition deliver_notice :: "main_env \<Rightarrow> notice \<Rightarrow> main_state \<Rightarrow> main_state option" where
  "deliver_notice env n s =
    (case n of
       KeyPressed _ modifier keycode \<Rightarrow> map_option (\<lambda>tm. put_tm tm s) (keyboard_observer modifier keycode (mn_tm s))
     | MouseMoved _ buttons dx dy \<Rightarrow>
         map_option (\<lambda>(m, al, lm). put_lm lm (s\<lparr>mn_mouse := m, mn_kernel := (mn_kernel s)\<lparr>kw_active := al\<rparr>\<rparr>))
           (mouse_on_interrupt (se_font (me_sys env)) (me_screen_size env) buttons dx dy
             (mn_mouse s, kw_active (mn_kernel s), mn_lm s)))"

text \<open>\<open>usb::xhci::ProcessEvents\<close>; the notices of its events are delivered in their order.\<close>

definition main_process_events :: "main_env \<Rightarrow> main_state \<Rightarrow> main_state option" where
  "main_process_events env s = do {
     xhc \<leftarrow> process_events (me_port_hw env) (mn_xhc s);
     for_each (deliver_notice env) (drop (length (ue_notices (hc_env (mn_xhc s)))) (ue_notices (hc_env xhc))) (s\<lparr>mn_xhc := xhc\<rparr>)
   }"

definition main_timer_timeout :: "message \<Rightarrow> u64 \<Rightarrow> main_state \<Rightarrow> main_state option" where
  "main_timer_timeout m timeout s = do {
     s1 \<leftarrow> Some (s\<lparr>mn_timers := add_timer \<lparr>tmr_timeout = timeout + kTimer05Sec, tmr_value = kTextboxCursorTime\<rparr> (mn_timers s),
                  mn_text_visible := \<not> mn_text_visible s\<rparr>);
     lm1 \<leftarrow> draw_text_cursor (mn_text_window s1) (mn_text_index s1) (mn_text_visible s1) (mn_lm s1);
     lm2 \<leftarrow> lm_draw_id (mn_text_layer s1) lm1;
     main_send (mn_terminal_task s1) m (put_lm lm2 s1)
   }"

definition key_not_handled :: "u8 \<Rightarrow> u8 \<Rightarrow> string" where
  "key_not_handled keycode ascii =
    ''key push not handled: keycode '' @ hex_padded 2 (unat keycode) @ '', ascii ''
    @ hex_padded 2 (unat (scast ascii :: u32)) @ [CHR ''\<newline>'']"

definition main_key_push :: "main_env \<Rightarrow> message \<Rightarrow> u8 \<Rightarrow> u8 \<Rightarrow> main_state \<Rightarrow> main_state option" where
  "main_key_push env m keycode ascii s =
    (let active = al_active (kw_active (mn_kernel s)) in
     if active = mn_text_layer s then
       map_option (\<lambda>(index, lm). put_lm lm (s\<lparr>mn_text_index := index\<rparr>))
         (input_text_window (se_font (me_sys env)) (mn_text_window s) (mn_text_layer s) ascii (mn_text_index s, mn_lm s))
     else
       (case mp_layer_task (kw_maps (mn_kernel s)) active of
          Some task_id \<Rightarrow> main_send task_id m s
        | None \<Rightarrow> map_option (\<lambda>w. s\<lparr>mn_kernel := w\<rparr>)
            (printk (se_font (me_sys env)) (key_not_handled keycode ascii) (mn_kernel s))))"

definition main_layer :: "message \<Rightarrow> main_state \<Rightarrow> main_state option" where
  "main_layer m s = do {
     lm \<leftarrow> process_layer_message (msg_body m) (mn_lm s);
     main_send (msg_src_task m) (mk_message LayerFinish) (put_lm lm s)
   }"

text \<open>The switch over the type of a message; \<open>kLayerFinish\<close>, the fifth type, is not expected.\<close>

definition main_handle :: "main_env \<Rightarrow> message \<Rightarrow> main_state \<Rightarrow> main_state option" where
  "main_handle env m s =
    (case msg_body m of
       InterruptXHCI \<Rightarrow> main_process_events env s
     | TimerTimeout timeout v \<Rightarrow> if v = kTextboxCursorTime then main_timer_timeout m timeout s else Some s
     | KeyPush keycode modifier ascii \<Rightarrow> main_key_push env m keycode ascii s
     | LayerMsg _ _ _ _ _ _ \<Rightarrow> main_layer m s
     | LayerFinish \<Rightarrow> map_option (\<lambda>w. s\<lparr>mn_kernel := w\<rparr>)
         (log_text (se_font (me_sys env)) kError (''Unknown message type: 4'' @ [CHR ''\<newline>'']) (mn_kernel s)))"

text \<open>A turn of the loop: the task \<open>self\<close> draws the counter and takes a message, or goes to sleep.\<close>

definition main_turn :: "main_env \<Rightarrow> nat \<Rightarrow> main_state \<Rightarrow> main_state option" where
  "main_turn env self s = do {
     s1 \<leftarrow> draw_counter (se_font (me_sys env)) s;
     (msg, tm) \<leftarrow> task_receive_message self (mn_tm s1);
     (case msg of
        None \<Rightarrow> map_option (\<lambda>tm'. put_tm tm' s1) (sleep_task self tm)
      | Some m \<Rightarrow> main_handle env m (put_tm tm s1))
   }"

end
