(* ===== verification/Main_Props.thy ===== *)
theory Main_Props
  imports Main_Loop
begin

text \<open>
  Properties of the main task: its text box, and how its loop hands messages on.
\<close>

section \<open>Messages\<close>

lemma mn_put [simp]:
  "mn_tm (put_tm tm s) = tm" "mn_lm (put_lm lm s) = lm" "mn_tm (put_lm lm s) = mn_tm s" "mn_lm (put_tm tm s) = mn_lm s"
  "put_tm tm (put_tm tm' s) = put_tm tm s" "kw_active (mn_kernel (put_tm tm s)) = kw_active (mn_kernel s)"
  "kw_active (mn_kernel (put_lm lm s)) = kw_active (mn_kernel s)" "kw_maps (mn_kernel (put_tm tm s)) = kw_maps (mn_kernel s)"
  "kw_maps (mn_kernel (put_lm lm s)) = kw_maps (mn_kernel s)" "mn_text_layer (put_tm tm s) = mn_text_layer s"
  "mn_text_layer (put_lm lm s) = mn_text_layer s" "put_tm tm (put_lm lm s) = put_lm lm (put_tm tm s)"
  by (simp_all add: mn_tm_def put_tm_def mn_lm_def put_lm_def)

lemma draw_counter_frame:
  "draw_counter font s = Some s1 \<Longrightarrow> \<exists>lm. s1 = put_lm lm s"
  unfolding draw_counter_def Let_def map_option_eq_Some by metis

text \<open>A message for another task goes into its mailbox and wakes it.\<close>

lemma main_send_delivers:
  assumes inv: "sched_inv (mn_tm s)" and t: "find_task i (mn_tm s) = Some t"
  shows "\<exists>tm'. main_send i m s = Some (put_tm tm' s) \<and> sched_inv tm'
    \<and> tk_messages (tasks tm' ! t) = tk_messages (tasks (mn_tm s) ! t) @ [m] \<and> tk_running (tasks tm' ! t)
    \<and> (\<forall>u. u \<noteq> t \<longrightarrow> tasks tm' ! u = tasks (mn_tm s) ! u)"
proof -
  have l: "t < length (tasks (mn_tm s))" using find_task_Some [OF t] by simp
  from task_send_message_inv [OF inv l, of m] obtain tm' where tm': "task_send_message t m (mn_tm s) = Some tm'"
    "sched_inv tm'" "\<forall>u. u \<noteq> t \<longrightarrow> tasks tm' ! u = tasks (mn_tm s) ! u" "tk_running (tasks tm' ! t)" by blast
  have "tk_messages (tasks tm' ! t) = tk_messages (tasks (mn_tm s) ! t) @ [m]"
    by (rule task_send_message_mailbox [OF l tm'(1)])
  with tm' t show ?thesis by (intro exI [of _ tm']) (simp add: main_send_def send_message_def)
qed

text \<open>The main task takes the first message of its mailbox.\<close>

lemma main_takes:
  assumes inv: "sched_inv (mn_tm s)" and self: "self < length (tasks (mn_tm s))"
    and box: "tk_messages (tasks (mn_tm s) ! self) = m # ms"
  shows "\<exists>tm. task_receive_message self (mn_tm s) = Some (Some m, tm) \<and> sched_inv tm
    \<and> tasks tm = (tasks (mn_tm s))[self := (tasks (mn_tm s) ! self)\<lparr>tk_messages := ms\<rparr>]"
  using inv self box by (simp add: task_receive_message_def tm_defined sched_inv_frame)

definition took :: "nat \<Rightarrow> message list \<Rightarrow> nat \<Rightarrow> message \<Rightarrow> task_manager \<Rightarrow> task_manager \<Rightarrow> bool" where
  "took self ms t m tm tm' \<longleftrightarrow>
    sched_inv tm' \<and> tk_messages (tasks tm' ! self) = ms \<and> tk_messages (tasks tm' ! t) = tk_messages (tasks tm ! t) @ [m]
    \<and> tk_running (tasks tm' ! t) \<and> (\<forall>u. u \<noteq> t \<and> u \<noteq> self \<longrightarrow> tasks tm' ! u = tasks tm ! u)"

lemma take_and_send:
  assumes inv: "sched_inv (mn_tm s)" and self: "self < length (tasks (mn_tm s))"
    and box: "tk_messages (tasks (mn_tm s) ! self) = m # ms" and t: "find_task i (mn_tm s) = Some t" "t \<noteq> self"
  shows "\<exists>tm tm'. task_receive_message self (mn_tm s) = Some (Some m, tm) \<and> took self ms t m' (mn_tm s) tm'
    \<and> (\<forall>s'. mn_tm s' = tm \<longrightarrow> main_send i m' s' = Some (put_tm tm' s'))"
proof -
  obtain tm where tm: "task_receive_message self (mn_tm s) = Some (Some m, tm)" "sched_inv tm"
    "tasks tm = (tasks (mn_tm s))[self := (tasks (mn_tm s) ! self)\<lparr>tk_messages := ms\<rparr>]"
    using main_takes [OF inv self box] by blast
  have "map tk_id (tasks tm) = map tk_id (tasks (mn_tm s))"
    using self by (simp add: tm(3) list_eq_iff_nth_eq nth_list_update)
  then have f: "find_task i tm = Some t" using t(1) find_task_ids by metis
  obtain tm' where tm': "main_send i m' (put_tm tm s) = Some (put_tm tm' s)" "sched_inv tm'"
    "tk_messages (tasks tm' ! t) = tk_messages (tasks tm ! t) @ [m']" "tk_running (tasks tm' ! t)"
    "\<forall>u. u \<noteq> t \<longrightarrow> tasks tm' ! u = tasks tm ! u"
    using main_send_delivers [of "put_tm tm s" i t m'] tm(2) f by auto
  have "main_send i m' s' = Some (put_tm tm' s')" if "mn_tm s' = tm" for s'
  proof -
    have "map_option snd (send_message i m' tm) = Some tm'"
      using tm'(1) by (auto simp: main_send_def dest!: arg_cong [of _ _ mn_tm])
    then show ?thesis using that by (auto simp: main_send_def)
  qed
  moreover have "took self ms t m' (mn_tm s) tm'" using tm' tm(3) t(2) self by (auto simp: took_def)
  ultimately show ?thesis using tm(1) by blast
qed

text \<open>
  C31: when the first message of the main task is a key and the active layer belongs to another task, a
  turn of the loop takes the key out of its mailbox, appends it to the mailbox of that task and wakes the
  task; apart from the counter in the main window nothing else changes.\<close>

theorem main_turn_forwards_key:
  assumes draw: "draw_counter (se_font (me_sys env)) s = Some s1" and inv: "sched_inv (mn_tm s)"
    and self: "self < length (tasks (mn_tm s))" and box: "tk_messages (tasks (mn_tm s) ! self) = m # ms"
    and key: "msg_body m = KeyPush keycode modifier ascii"
    and active: "al_active (kw_active (mn_kernel s)) \<noteq> mn_text_layer s"
    and i: "mp_layer_task (kw_maps (mn_kernel s)) (al_active (kw_active (mn_kernel s))) = Some i"
    and t: "find_task i (mn_tm s) = Some t" "t \<noteq> self"
  shows "\<exists>tm'. main_turn env self s = Some (put_tm tm' s1) \<and> took self ms t m (mn_tm s) tm'"
proof -
  obtain lm where lm: "s1 = put_lm lm s" using draw_counter_frame [OF draw] by blast
  from take_and_send [OF inv self box t, of m] obtain tm tm' where
    r: "task_receive_message self (mn_tm s) = Some (Some m, tm)" "took self ms t m (mn_tm s) tm'"
      "main_send i m (put_tm tm s1) = Some (put_tm tm' (put_tm tm s1))" by fastforce
  have "main_turn env self s = Some (put_tm tm' s1)"
    using draw r(1,3) key active i by (simp add: main_turn_def lm main_handle_def main_key_push_def Let_def)
  with r(2) show ?thesis by blast
qed

text \<open>
  When the first message of the main task asks for an operation on a layer, as \<open>Print\<close> of a terminal
  does, a turn of the loop carries it out and answers the task it comes from with \<open>kLayerFinish\<close>, which
  wakes that task.\<close>

theorem main_turn_answers_layer:
  assumes draw: "draw_counter (se_font (me_sys env)) s = Some s1" and inv: "sched_inv (mn_tm s)"
    and self: "self < length (tasks (mn_tm s))" and box: "tk_messages (tasks (mn_tm s) ! self) = m # ms"
    and layer: "msg_body m = LayerMsg op i x y w h" and carried: "process_layer_message (msg_body m) (mn_lm s1) = Some lm'"
    and t: "find_task (msg_src_task m) (mn_tm s) = Some t" "t \<noteq> self"
  shows "\<exists>tm'. main_turn env self s = Some (put_lm lm' (put_tm tm' s1))
    \<and> took self ms t (mk_message LayerFinish) (mn_tm s) tm'"
proof -
  obtain lm where lm: "s1 = put_lm lm s" using draw_counter_frame [OF draw] by blast
  from take_and_send [OF inv self box t, of "mk_message LayerFinish"] obtain tm tm' where
    r: "task_receive_message self (mn_tm s) = Some (Some m, tm)" "took self ms t (mk_message LayerFinish) (mn_tm s) tm'"
      "\<And>s'. mn_tm s' = tm \<Longrightarrow> main_send (msg_src_task m) (mk_message LayerFinish) s' = Some (put_tm tm' s')" by blast
  have "main_turn env self s = Some (put_lm lm' (put_tm tm' s1))"
    using draw r(1) r(3) [of "put_lm lm' (put_tm tm s1)"] layer carried
    by (simp add: main_turn_def lm main_handle_def main_layer_def)
  with r(2) show ?thesis by blast
qed

section \<open>Drawing in a window of the layer manager\<close>

definition lm_put_at :: "nat \<Rightarrow> nat \<Rightarrow> nat \<Rightarrow> layer_manager pixel_write" where
  "lm_put_at a b n pos c lm = lm_window_put n (vadd pos (vec (int a) (int b))) c lm"

lemma lm_puts: "lm_window_put n = lm_put_at 0 0 n" "lm_inner_put n = lm_put_at 4 24 n"
  by (intro ext; simp add: lm_put_at_def lm_window_put_def lm_inner_put_def inner_write_def kTopLeftMargin_def vadd_def)+

definition lm_like :: "nat \<Rightarrow> layer_manager \<Rightarrow> layer_manager \<Rightarrow> bool" where
  "lm_like n lm0 lm \<longleftrightarrow> n < length (lm_windows lm0) \<and> win_ok (lm_windows lm0 ! n)
    \<and> (\<exists>w. win_like (lm_windows lm0 ! n) w \<and> lm = lm0\<lparr>lm_windows := (lm_windows lm0)[n := w]\<rparr>)"

definition lm_dims :: "nat \<Rightarrow> nat \<Rightarrow> nat \<Rightarrow> layer_manager \<Rightarrow> int \<times> int" where
  "lm_dims a b n lm = (w_width (lm_windows lm ! n) - int a, w_height (lm_windows lm ! n) - int b)"

definition lm_colour :: "nat \<Rightarrow> nat \<Rightarrow> nat \<Rightarrow> layer_manager \<Rightarrow> vec2 \<Rightarrow> pixel_color" where
  "lm_colour a b n lm q = fb_colour (w_shadow (lm_windows lm ! n)) (vadd q (vec (int a) (int b)))"

lemma lm_like_refl: "n < length (lm_windows lm) \<Longrightarrow> win_ok (lm_windows lm ! n) \<Longrightarrow> lm_like n lm lm"
  unfolding lm_like_def by (intro conjI exI [of _ "lm_windows lm ! n"]) (simp_all add: win_like_def)

lemma lm_like_trans: "lm_like n lm0 lm1 \<Longrightarrow> lm_like n lm1 lm2 \<Longrightarrow> lm_like n lm0 lm2"
  unfolding lm_like_def using win_like_trans by fastforce

lemma lm_like_window:
  assumes "lm_like n lm0 lm"
  shows "n < length (lm_windows lm)" "win_ok (lm_windows lm ! n)" "win_dims (lm_windows lm ! n) = win_dims (lm_windows lm0 ! n)"
  using assms by (auto simp: lm_like_def win_like_def)

interpretation boxc: canvas "lm_put_at a b n" "lm_colour a b n" "lm_dims a b n" "lm_like n lm0" for a b n lm0
proof
  fix s p c assume like: "lm_like n lm0 s" and p: "on_canvas (lm_dims a b n s) p"
  let ?w = "lm_windows s ! n" and ?off = "vec (int a) (int b)"
  note w = lm_like_window [OF like]
  have wl: "win_like ?w ?w" using w(2) by (simp add: win_like_def)
  have on: "on_canvas (win_dims ?w) (vadd q ?off)" if "on_canvas (lm_dims a b n s) q" for q
    using that by (auto simp: on_canvas_def lm_dims_def win_dims_def)
  have inj: "vadd q ?off = vadd p ?off \<longleftrightarrow> q = p" for q by (auto simp: vec2_eq_iff)
  from winc.write_on_canvas [OF wl on [OF p], of c] obtain w' where
    w': "window_write (vadd p ?off) c ?w = Some w'" "win_like ?w w'" "win_dims w' = win_dims ?w"
      "\<forall>q. on_canvas (win_dims ?w) q \<longrightarrow>
        fb_colour (w_shadow w') q = (if q = vadd p ?off then c else fb_colour (w_shadow ?w) q)"
    by (elim exE conjE)
  let ?s = "s\<lparr>lm_windows := (lm_windows s)[n := w']\<rparr>"
  have "lm_put_at a b n p c s = Some ?s" using w(1) w'(1) by (simp add: lm_put_at_def lm_window_put_def ub_simps)
  moreover have "lm_like n lm0 ?s"
    by (rule lm_like_trans [OF like]) (use w w'(2) in \<open>auto simp: lm_like_def\<close>)
  moreover have "lm_dims a b n ?s = lm_dims a b n s" using w(1) w'(3) by (simp add: lm_dims_def win_dims_def)
  moreover have "lm_colour a b n ?s q = (if q = p then c else lm_colour a b n s q)" if "on_canvas (lm_dims a b n s) q" for q
    using w(1) w'(4) on [OF that] by (simp add: lm_colour_def inj)
  ultimately show "\<exists>s'. lm_put_at a b n p c s = Some s' \<and> lm_like n lm0 s' \<and> lm_dims a b n s' = lm_dims a b n s
      \<and> (\<forall>q. on_canvas (lm_dims a b n s) q \<longrightarrow> lm_colour a b n s' q = (if q = p then c else lm_colour a b n s q))"
    by blast
qed

lemma lm_fill:
  assumes "lm_like n lm0 lm" and "0 \<le> vx pos" "0 \<le> vy pos"
    and "vx pos + vx sz \<le> fst (win_dims (lm_windows lm0 ! n)) - int a" "vy pos + vy sz \<le> snd (win_dims (lm_windows lm0 ! n)) - int b"
  shows "\<exists>lm'. fill_rectangle (lm_put_at a b n) pos sz c lm = Some lm' \<and> lm_like n lm0 lm'"
proof -
  have "\<forall>p. rect_mem (rect pos sz) p \<longrightarrow> on_canvas (lm_dims a b n lm) p"
    using assms(2-) lm_like_window(3) [OF assms(1)] by (auto simp: rect_mem_def on_canvas_def lm_dims_def win_dims_def)
  with boxc.fill [OF assms(1)] show ?thesis by blast
qed

lemma lm_cell:
  assumes "lm_like n lm0 lm" and "has_glyph font ch" and "0 \<le> vx pos" "0 \<le> vy pos"
    and "vx pos + 8 \<le> fst (win_dims (lm_windows lm0 ! n)) - int a" "vy pos + 16 \<le> snd (win_dims (lm_windows lm0 ! n)) - int b"
  shows "\<exists>lm'. write_ascii font (lm_put_at a b n) pos ch c lm = Some lm' \<and> lm_like n lm0 lm'"
proof -
  have "\<forall>p :: vec2. vx pos \<le> vx p \<and> vx p < vx pos + 8 \<and> vy pos \<le> vy p \<and> vy p < vy pos + 16
      \<longrightarrow> on_canvas (lm_dims a b n lm) p"
    using assms(3-) lm_like_window(3) [OF assms(1)] by (auto simp: on_canvas_def lm_dims_def win_dims_def)
  with boxc.cell [OF assms(1,2)] show ?thesis by blast
qed

lemma lm_string:
  assumes "lm_like n lm0 lm" and "\<forall>ch \<in> set str. has_glyph font ch" and "0 \<le> vx pos" "0 \<le> vy pos"
    and "vx pos + 8 * int (length str) \<le> fst (win_dims (lm_windows lm0 ! n)) - int a"
      "vy pos + 16 \<le> snd (win_dims (lm_windows lm0 ! n)) - int b"
  shows "\<exists>lm'. write_string font (lm_put_at a b n) pos str c lm = Some lm' \<and> lm_like n lm0 lm'"
  using assms(2,5)
proof (induction str rule: rev_induct)
  case Nil
  then show ?case using assms(1) by (simp add: write_string_def)
next
  case (snoc ch str)
  then obtain lm1 where lm1: "write_string font (lm_put_at a b n) pos str c lm = Some lm1" "lm_like n lm0 lm1" by auto
  obtain lm2 where "write_ascii font (lm_put_at a b n) (vec (vx pos + int (length str) * 8) (vy pos)) ch c lm1 = Some lm2"
    "lm_like n lm0 lm2"
    using lm_cell [OF lm1(2), of font ch "vec (vx pos + int (length str) * 8) (vy pos)" a b c] snoc.prems assms(3,4,6) by auto
  with lm1(1) show ?case by (simp add: write_string_def for_each_append)
qed

section \<open>The text box and the counter\<close>

text \<open>A window of a layer that is shown.\<close>

definition shown_window :: "nat \<Rightarrow> u32 \<Rightarrow> int \<times> int \<Rightarrow> layer_manager \<Rightarrow> bool" where
  "shown_window n i d lm \<longleftrightarrow>
    lm_ok lm \<and> stack_wf lm \<and> n < length (lm_windows lm) \<and> win_dims (lm_windows lm ! n) = d
    \<and> (\<exists>k pos. find_layer i lm = Some k \<and> Some k \<in> set (lm_stack lm) \<and> ly_window (lm_layers lm ! k) = Some n
          \<and> ly_pos (lm_layers lm ! k) = Some pos)"

lemma shown_window_like: "shown_window n i d lm \<Longrightarrow> lm_like n lm lm"
  by (intro lm_like_refl) (auto simp: shown_window_def lm_ok_def)

lemma shown_like:
  assumes s: "shown_window n i d lm" and l: "lm_like n lm lm'"
  shows "shown_window n i d lm'"
proof -
  obtain w where w: "win_like (lm_windows lm ! n) w" "lm' = lm\<lparr>lm_windows := (lm_windows lm)[n := w]\<rparr>"
    using l by (auto simp: lm_like_def)
  have "lm_ok lm'" unfolding w(2) using s by (intro lm_ok_window [OF _ _ w(1)]) (simp_all add: shown_window_def)
  moreover have "stack_wf lm'" using s by (auto simp: shown_window_def stack_wf_def w(2) find_layer_def)
  ultimately show ?thesis using s w(1) by (auto simp: shown_window_def w(2) find_layer_def win_like_def)
qed

lemma draw_shown:
  assumes s: "shown_window n i d lm"
  shows "\<exists>lm'. lm_draw_id i lm = Some lm' \<and> shown_window n i d lm' \<and> lm_windows lm' = lm_windows lm
    \<and> lm_layers lm' = lm_layers lm \<and> lm_stack lm' = lm_stack lm"
proof -
  obtain k pos where k: "find_layer i lm = Some k" "Some k \<in> set (lm_stack lm)" "ly_window (lm_layers lm ! k) = Some n"
    "ly_pos (lm_layers lm ! k) = Some pos" using s by (auto simp: shown_window_def)
  obtain screen where sc: "lm_screen lm = Some screen" using s by (auto simp: shown_window_def lm_ok_def)
  obtain xs ys where "lm_stack lm = xs @ Some k # ys" using split_list [OF k(2)] by blast
  from lm_draw_id_spec [OF _ sc _ k(1) this k(3,4)] s obtain b screen' where
    d: "lm_draw_id i lm = Some (lm\<lparr>lm_back := b, lm_screen := Some screen'\<rparr>)" "lm_ok (lm\<lparr>lm_back := b, lm_screen := Some screen'\<rparr>)"
    by (auto simp: shown_window_def)
  with s k show ?thesis by (auto simp: shown_window_def stack_wf_def find_layer_def)
qed

text \<open>What a character does to the number of characters in the box.\<close>

definition text_step :: "u8 \<Rightarrow> int \<Rightarrow> int" where
  "text_step c index =
    (if c = 8 then (if 0 < index then index - 1 else index) else if 32 \<le> sint c \<and> index < 17 then index + 1 else index)"

lemma input_text_step:
  assumes s: "shown_window n i (160, 52) lm" and index: "0 \<le> index" "index \<le> 17"
    and glyph: "32 \<le> sint c \<Longrightarrow> has_glyph font (char_of_byte c)"
  shows "\<exists>lm'. input_text_window font n i c (index, lm) = Some (text_step c index, lm') \<and> shown_window n i (160, 52) lm'
    \<and> lm_layers lm' = lm_layers lm \<and> lm_stack lm' = lm_stack lm"
proof (cases "c = 0")
  case True
  then show ?thesis using s by (simp add: input_text_window_def text_step_def)
next
  case False
  note l0 = shown_window_like [OF s]
  have d: "win_dims (lm_windows lm ! n) = (160, 52)" and n: "n < length (lm_windows lm)" using s by (auto simp: shown_window_def)
  have max: "text_max_chars (w_width (lm_windows lm ! n)) = 17" using d by (simp add: win_dims_def text_max_chars_def)
  obtain lm1 where lm1: "draw_text_cursor n index False lm = Some lm1" "lm_like n lm lm1"
    using lm_fill [OF l0, of "vec (4 + 8 * index) 5" "vec 7 15" 4 24 "to_color 0xFFFFFF"] index d
    by (auto simp: draw_text_cursor_def lm_puts)
  have "\<exists>lm2. edit_text_box font n 17 c (index, lm) = Some (text_step c index, lm2) \<and> lm_like n lm lm2"
    using lm1 l0 index d glyph
      lm_fill [OF lm1(2), of "text_pos (index - 1)" "vec 8 16" 4 24 "to_color 0xFFFFFF"]
      lm_cell [OF lm1(2), of font "char_of_byte c" "text_pos index" 4 24 "to_color 0x000000"]
    by (auto simp: edit_text_box_def text_step_def text_pos_def lm_puts)
  then obtain lm2 where lm2: "edit_text_box font n 17 c (index, lm) = Some (text_step c index, lm2)" "lm_like n lm lm2" by blast
  obtain lm3 where lm3: "lm_draw_id i lm2 = Some lm3" "shown_window n i (160, 52) lm3" "lm_layers lm3 = lm_layers lm2"
    "lm_stack lm3 = lm_stack lm2" using draw_shown [OF shown_like [OF s lm2(2)]] by blast
  have "input_text_window font n i c (index, lm) = Some (text_step c index, lm3)"
    using False n lm2(1) lm3(1) max by (simp add: input_text_window_def ub_simps)
  with lm3 lm2(2) show ?thesis by (auto simp: lm_like_def)
qed

text \<open>
  C32: whatever is typed into the text box, characters of the font or backspaces, typing is defined: the
  number of characters is as counted, between 0 and 17, everything is drawn inside the window's frame,
  and no layer moves.\<close>

theorem text_box_typing:
  assumes "shown_window n i (160, 52) lm" and "0 \<le> index" "index \<le> 17"
    and "\<forall>c \<in> set cs. 32 \<le> sint c \<longrightarrow> has_glyph font (char_of_byte c)"
  shows "0 \<le> fold text_step cs index \<and> fold text_step cs index \<le> 17
    \<and> (\<exists>lm'. for_each (input_text_window font n i) cs (index, lm) = Some (fold text_step cs index, lm')
        \<and> shown_window n i (160, 52) lm' \<and> lm_layers lm' = lm_layers lm \<and> lm_stack lm' = lm_stack lm)"
  using assms
proof (induction cs arbitrary: index lm)
  case (Cons c cs)
  obtain lm1 where lm1: "input_text_window font n i c (index, lm) = Some (text_step c index, lm1)"
    "shown_window n i (160, 52) lm1" "lm_layers lm1 = lm_layers lm" "lm_stack lm1 = lm_stack lm"
    using input_text_step [OF Cons.prems(1-3), of c font] Cons.prems(4) by auto
  have "0 \<le> text_step c index" "text_step c index \<le> 17" using Cons.prems(2,3) by (auto simp: text_step_def)
  from Cons.IH [OF lm1(2) this] Cons.prems(4) lm1 show ?case by auto
qed auto

text \<open>The counter in the main window is drawn.\<close>

lemma hex_digits_upper: "map (\<lambda>d. hex_upper (hex_digit d)) [0, 1, 2, 3, 4, 5, 6, 7, 8, 9, 10, 11, 12, 13, 14, 15] = ''0123456789ABCDEF''"
proof -
  have "[char_of (48 :: nat), char_of (49 :: nat), char_of (50 :: nat), char_of (51 :: nat), char_of (52 :: nat),
      char_of (53 :: nat), char_of (54 :: nat), char_of (55 :: nat), char_of (56 :: nat), char_of (57 :: nat),
      char_of (97 :: nat), char_of (98 :: nat), char_of (99 :: nat), char_of (100 :: nat), char_of (101 :: nat),
      char_of (102 :: nat)] = ''0123456789abcdef''" by code_simp
  moreover have "[char_of (65 :: nat), char_of (66 :: nat), char_of (67 :: nat), char_of (68 :: nat), char_of (69 :: nat),
      char_of (70 :: nat)] = ''ABCDEF''" by code_simp
  ultimately show ?thesis by (simp add: hex_digit_def hex_upper_def)
qed

lemma counter_text_chars: "set (counter_text tick) \<subseteq> set ''0123456789ABCDEFx''" "length (counter_text tick) = 10"
proof -
  let ?n = "unat (ucast tick :: u32)"
  have "?n < 16 ^ Suc 7" using unsigned_less [of "ucast tick :: u32"] by simp
  moreover have "8 = Suc 7" by simp
  ultimately have h: "hex_padded 8 ?n = map (\<lambda>i. hex_digit (?n div 16 ^ (7 - i) mod 16)) [0..<8]"
    using hex_padded_digits [of ?n 7] by (simp only:)
  have d: "hex_upper (hex_digit (m mod 16)) \<in> set ''0123456789ABCDEF''" for m
  proof -
    have "m mod 16 < 16" by simp
    then have "m mod 16 \<in> set [0..<16]" by (simp only: set_upt atLeastLessThan_iff zero_le simp_thms)
    moreover have "[0..<16] = [0, 1, 2, 3, 4, 5, 6, 7, 8, 9, 10, 11, 12, 13, 14, 15]" by code_simp
    ultimately have "m mod 16 \<in> set [0, 1, 2, 3, 4, 5, 6, 7, 8, 9, 10, 11, 12, 13, 14, 15]" by (simp only:)
    then show ?thesis unfolding hex_digits_upper [symmetric] set_map by (rule imageI)
  qed
  show "set (counter_text tick) \<subseteq> set ''0123456789ABCDEFx''"
    unfolding counter_text_def h using d by (fastforce simp del: upt_rec_numeral)
  show "length (counter_text tick) = 10" unfolding counter_text_def h by simp
qed

lemma draw_counter_ok:
  assumes s: "shown_window (mn_main_window s) (mn_main_layer s) (160, 52) (mn_lm s)"
    and glyphs: "\<forall>ch \<in> set ''0123456789ABCDEFx''. has_glyph font ch"
  shows "\<exists>lm. draw_counter font s = Some (put_lm lm s) \<and> shown_window (mn_main_window s) (mn_main_layer s) (160, 52) lm"
proof -
  let ?n = "mn_main_window s" and ?text = "counter_text (tick_count (mn_timers s))"
  have d: "win_dims (lm_windows (mn_lm s) ! ?n) = (160, 52)" using s by (simp add: shown_window_def)
  obtain lm1 where lm1: "fill_rectangle (lm_window_put ?n) (vec 24 28) (vec (8 * 10) 16) (to_color 0xC6C6C6) (mn_lm s) = Some lm1"
    "lm_like ?n (mn_lm s) lm1"
    using lm_fill [OF shown_window_like [OF s], of "vec 24 28" "vec (8 * 10) 16" 0 0 "to_color 0xC6C6C6"] d by (auto simp: lm_puts)
  obtain lm2 where lm2: "write_string font (lm_window_put ?n) (vec 24 28) ?text (to_color 0x000000) lm1 = Some lm2"
    "lm_like ?n (mn_lm s) lm2"
    using lm_string [OF lm1(2), of ?text font "vec 24 28" 0 0 "to_color 0x000000"] d glyphs counter_text_chars
    by (auto simp: lm_puts)
  obtain lm3 where "lm_draw_id (mn_main_layer s) lm2 = Some lm3" "shown_window ?n (mn_main_layer s) (160, 52) lm3"
    using draw_shown [OF shown_like [OF s lm2(2)]] by blast
  with lm1(1) lm2(1) show ?thesis by (intro exI [of _ lm3]) (simp add: draw_counter_def Let_def)
qed

text \<open>A desktop with the main window, a task with a terminal, and a message for the main task.\<close>

definition box_desktop :: layer_manager where
  "box_desktop = sample_manager\<lparr>lm_windows := [window_new 160 52 PixelRGBResv8, window_new 1 1 PixelRGBResv8]\<rparr>"

lemma box_desktop_shown: "shown_window 0 1 (160, 52) box_desktop"
proof -
  have k: "known_format PixelRGBResv8" by (simp add: known_format_def)
  have w: "win_ok (window_new 1 1 PixelRGBResv8)" "win_ok (window_new 160 52 PixelRGBResv8)"
    "win_dims (window_new 160 52 PixelRGBResv8) = (160, 52)"
    "fc_pixel_format (fb_config (w_shadow (window_new 1 1 PixelRGBResv8))) = PixelRGBResv8"
    "fc_pixel_format (fb_config (w_shadow (window_new 160 52 PixelRGBResv8))) = PixelRGBResv8"
    using window_new_ok [OF k, of 1 1] window_new_ok [OF k, of 160 52] by simp_all
  have "fc_pixel_format (fb_config (sample_buffer 2 v)) = PixelRGBResv8" for v by (simp add: sample_buffer_def)
  then have "lm_ok box_desktop" using w sample_manager_ok
    by (auto simp: lm_ok_def box_desktop_def sample_manager_def stack_entry_ok_def layer_ok_def less_Suc_eq_0_disj)
  then show ?thesis using w(3) by (simp add: shown_window_def stack_wf_def box_desktop_def sample_manager_def find_layer_def)
qed

lemma blank_font_glyphs: "\<forall>ch \<in> set ''0123456789ABCDEFx''. has_glyph (replicate 4096 0) ch"
  by (simp add: has_glyph_def get_font_def)

theorem text_box_typing_witness:
  "\<exists>lm'. for_each (input_text_window (replicate 4096 0) 0 1) [0x41, 0x42, 8, 8, 8, 0x43] (0, box_desktop) = Some (1, lm')"
proof -
  have g: "char_of_byte 0x41 = CHR ''A''" "char_of_byte 0x42 = CHR ''B''" "char_of_byte 0x43 = CHR ''C''"
    by (simp add: char_of_byte_def, code_simp)+
  have glyphs: "\<forall>c \<in> set [0x41, 0x42, 8, 8, 8, 0x43]. 32 \<le> sint c \<longrightarrow> has_glyph (replicate 4096 0) (char_of_byte c)"
    using blank_font_glyphs by (simp add: g)
  have index: "(0 :: int) \<le> 17" by simp
  have f: "fold text_step [0x41, 0x42, 8, 8, 8, 0x43] 0 = 1" by (simp add: text_step_def)
  from text_box_typing [OF box_desktop_shown order_refl index glyphs] show ?thesis unfolding f by blast
qed

definition sample_tasks :: "message \<Rightarrow> task_manager" where
  "sample_tasks m =
    (let tm = task_manager_new 0 zero_context 0 zero_context 0 0 zero_context
     in tm\<lparr>tasks := (tasks tm)[0 := (tasks tm ! 0)\<lparr>tk_messages := [m]\<rparr>]\<rparr>)"

lemma sample_tasks_ok:
  "sched_inv (sample_tasks m)" "length (tasks (sample_tasks m)) = 2" "tk_messages (tasks (sample_tasks m) ! 0) = [m]"
  "find_task 2 (sample_tasks m) = Some 1" "tk_messages (tasks (sample_tasks m) ! 1) = []"
proof -
  note inv = task_manager_new_inv(1) [of 0 zero_context 0 zero_context 0 0 zero_context]
  have l: "0 < length (tasks (task_manager_new 0 zero_context 0 zero_context 0 0 zero_context))" by (simp add: task_manager_new_eq)
  show "sched_inv (sample_tasks m)" unfolding sample_tasks_def Let_def using sched_inv_frame [OF inv l] by simp
  show "length (tasks (sample_tasks m)) = 2" "tk_messages (tasks (sample_tasks m) ! 0) = [m]"
    "find_task 2 (sample_tasks m) = Some 1" "tk_messages (tasks (sample_tasks m) ! 1) = []"
    by (simp_all add: sample_tasks_def task_manager_new_eq find_task_def upt_rec task_new_def task_init_context_def Let_def)
qed

definition sample_main :: "controller \<Rightarrow> message \<Rightarrow> main_state" where
  "sample_main xhc m =
    \<lparr>mn_kernel = (sample_kernel (\<lambda>_. 0))
       \<lparr>kw_term := sample_term_world\<lparr>tw_lm := box_desktop, tw_tm := sample_tasks m\<rparr>,
        kw_active := \<lparr>al_active = 7, al_mouse = 0\<rparr>, kw_maps := \<lparr>mp_layer_task = [7 \<mapsto> 2], mp_terminals = Map.empty\<rparr>\<rparr>,
     mn_timers = timer_manager_new, mn_mouse = mouse_new 0, mn_xhc = xhc, mn_main_window = 0, mn_main_layer = 1,
     mn_text_window = 1, mn_text_layer = 2, mn_text_index = 0, mn_text_visible = False, mn_terminal_task = 2\<rparr>"

definition sample_main_env :: main_env where
  "sample_main_env = \<lparr>me_sys = sample_sys_env, me_screen_size = vec 2 2, me_port_hw = (\<lambda>_ _. [])\<rparr>"

lemma sample_main_simps:
  "mn_lm (sample_main xhc m) = box_desktop" "mn_tm (sample_main xhc m) = sample_tasks m"
  "se_font (me_sys sample_main_env) = replicate 4096 0"
  by (simp_all add: mn_lm_def mn_tm_def sample_main_def sample_main_env_def sample_sys_env_def)

lemma sample_counter:
  "\<exists>lm. draw_counter (se_font (me_sys sample_main_env)) (sample_main xhc m) = Some (put_lm lm (sample_main xhc m))
    \<and> shown_window 0 1 (160, 52) lm"
  using draw_counter_ok [of "sample_main xhc m" "replicate 4096 0"] box_desktop_shown blank_font_glyphs
  unfolding sample_main_simps by (simp add: sample_main_def)

theorem main_turn_forwards_key_witness:
  "\<forall>xhc. \<exists>s' tm'. main_turn sample_main_env 0 (sample_main xhc (mk_message (KeyPush 4 0 97))) = Some s'
    \<and> mn_tm s' = tm' \<and> tk_messages (tasks tm' ! 0) = [] \<and> tk_messages (tasks tm' ! 1) = [mk_message (KeyPush 4 0 97)]"
proof
  fix xhc
  let ?m = "mk_message (KeyPush 4 0 97)" and ?s = "sample_main xhc (mk_message (KeyPush 4 0 97))"
  obtain lm where d: "draw_counter (se_font (me_sys sample_main_env)) ?s = Some (put_lm lm ?s)" using sample_counter by blast
  note t = sample_tasks_ok [of ?m]
  have "\<exists>tm'. main_turn sample_main_env 0 ?s = Some (put_tm tm' (put_lm lm ?s)) \<and> took 0 [] 1 ?m (mn_tm ?s) tm'"
    by (rule main_turn_forwards_key [OF d, where i = 2 and keycode = 4 and modifier = 0 and ascii = 97])
      (simp_all add: sample_main_simps t, simp_all add: mk_message_def sample_main_def)
  then show "\<exists>s' tm'. main_turn sample_main_env 0 ?s = Some s'
    \<and> mn_tm s' = tm' \<and> tk_messages (tasks tm' ! 0) = [] \<and> tk_messages (tasks tm' ! 1) = [?m]"
    using t(5) by (auto simp: took_def sample_main_simps)
qed

theorem main_turn_answers_layer_witness:
  "\<forall>xhc. \<exists>s' tm'. main_turn sample_main_env 0 (sample_main xhc \<lparr>msg_body = LayerMsg LDraw 1 0 0 0 0, msg_src_task = 2\<rparr>) = Some s'
    \<and> mn_tm s' = tm' \<and> tk_messages (tasks tm' ! 1) = [mk_message LayerFinish]"
proof
  fix xhc
  let ?m = "\<lparr>msg_body = LayerMsg LDraw 1 0 0 0 0, msg_src_task = 2\<rparr>"
  let ?s = "sample_main xhc ?m"
  obtain lm where d: "draw_counter (se_font (me_sys sample_main_env)) ?s = Some (put_lm lm ?s)" "shown_window 0 1 (160, 52) lm"
    using sample_counter by blast
  obtain lm' where l: "lm_draw_id 1 lm = Some lm'" using draw_shown [OF d(2)] by blast
  note t = sample_tasks_ok [of ?m]
  have "\<exists>tm'. main_turn sample_main_env 0 ?s = Some (put_lm lm' (put_tm tm' (put_lm lm ?s)))
      \<and> took 0 [] 1 (mk_message LayerFinish) (mn_tm ?s) tm'"
    by (rule main_turn_answers_layer [OF d(1), where m = ?m])
      (simp_all add: sample_main_simps t l process_layer_message_def)
  then show "\<exists>s' tm'. main_turn sample_main_env 0 ?s = Some s'
    \<and> mn_tm s' = tm' \<and> tk_messages (tasks tm' ! 1) = [mk_message LayerFinish]"
    using t(5) by (auto simp: took_def sample_main_simps)
qed

end
