(* ===== verification/Page_Init.thy ===== *)
theory Page_Init
  imports Paging
begin

unbundle bit_operations_syntax

text \<open>
  The kernel's own page tables: \<open>InitializePagetable\<close> of \<open>Kernel/paging.cpp\<close>.

  The three static arrays lie where the linker puts them (\<open>page_tables\<close>); memory is that of
  \<open>Paging\<close>, and \<open>pu_cr3\<close> is what \<open>SetCR3\<close> loads.  \<open>translate\<close> is the walk the processor makes
  through four levels of tables, with pages of 1 GiB, 2 MiB and 4 KiB; it is the specification the tables are
  proved against.
\<close>

section \<open>The tables\<close>

definition kPageSize4K :: u64 where
  "kPageSize4K = 4096"

definition kPageSize2M :: u64 where
  "kPageSize2M = 512 * kPageSize4K"

definition kPageSize1G :: u64 where
  "kPageSize1G = 512 * kPageSize2M"

definition kPageDirectoryCount :: nat where
  "kPageDirectoryCount = 64"

record page_tables =
  pml4_table :: u64
  pdp_table :: u64
  page_directory :: u64

record paging_unit =
  pu_mem :: "u64 \<Rightarrow> u64"
  pu_cr3 :: u64

text \<open>The addresses of \<open>pdp_table[i]\<close>, \<open>page_directory[i]\<close> and \<open>page_directory[i][j]\<close>.\<close>

definition pdp_entry :: "page_tables \<Rightarrow> nat \<Rightarrow> u64" where
  "pdp_entry pts i = entry_address (pdp_table pts) (of_nat i)"

definition directory_at :: "page_tables \<Rightarrow> nat \<Rightarrow> u64" where
  "directory_at pts i = page_directory pts + 4096 * of_nat i"

definition directory_entry_at :: "page_tables \<Rightarrow> nat \<Rightarrow> nat \<Rightarrow> u64" where
  "directory_entry_at pts i j = entry_address (directory_at pts i) (of_nat j)"

definition directory_value :: "nat \<Rightarrow> nat \<Rightarrow> u64" where
  "directory_value i j = (of_nat i * kPageSize1G + of_nat j * kPageSize2M) OR 0x83"

definition fill_directory :: "page_tables \<Rightarrow> nat \<Rightarrow> (u64 \<Rightarrow> u64) \<Rightarrow> u64 \<Rightarrow> u64" where
  "fill_directory pts i m = fold (\<lambda>j m. m(directory_entry_at pts i j := directory_value i j)) [0..<512] m"

definition fill_tables :: "page_tables \<Rightarrow> nat \<Rightarrow> (u64 \<Rightarrow> u64) \<Rightarrow> u64 \<Rightarrow> u64" where
  "fill_tables pts n m =
    fold (\<lambda>i m. fill_directory pts i (m(pdp_entry pts i := directory_at pts i OR 0x03))) [0..<n] m"

definition initialize_pagetable :: "page_tables \<Rightarrow> paging_unit \<Rightarrow> paging_unit" where
  "initialize_pagetable pts u =
    u\<lparr>pu_mem := fill_tables pts kPageDirectoryCount ((pu_mem u)(pml4_table pts := pdp_table pts OR 0x03)),
      pu_cr3 := pml4_table pts\<rparr>"

section \<open>What the processor does with them\<close>

definition pme_huge :: "u64 \<Rightarrow> bool" where
  "pme_huge e \<longleftrightarrow> bf_get 7 1 e \<noteq> 0"

text \<open>The part of an address below a page of \<open>2 ^ k\<close> bytes, put under the address in an entry.\<close>

definition page_of :: "nat \<Rightarrow> u64 \<Rightarrow> u64 \<Rightarrow> u64" where
  "page_of k e a = push_bit k (bf_get k (52 - k) e) + bf_get 0 k a"

fun walk :: "(u64 \<Rightarrow> u64) \<Rightarrow> nat \<Rightarrow> u64 \<Rightarrow> u64 \<Rightarrow> u64 option" where
  "walk m 0 table a = None"
| "walk m (Suc lv) table a =
    (let e = m (entry_address table (la_part (Suc lv) a)) in
     if \<not> pme_present e then None
     else if lv = 0 then Some (page_of 12 e a)
     else if (lv = 1 \<or> lv = 2) \<and> pme_huge e then Some (page_of (12 + 9 * lv) e a)
     else walk m lv (pme_pointer e) a)"

definition translate :: "paging_unit \<Rightarrow> u64 \<Rightarrow> u64 option" where
  "translate u a = walk (pu_mem u) 4 (pu_cr3 u) a"

section \<open>Where the entries are\<close>

text \<open>The arrays are aligned to 4 KiB, do not overlap and lie below the limit of a table address.\<close>

definition tables_ok :: "page_tables \<Rightarrow> bool" where
  "tables_ok pts \<longleftrightarrow>
    (let l4 = unat (pml4_table pts); l3 = unat (pdp_table pts); l2 = unat (page_directory pts) in
     4096 dvd l4 \<and> 4096 dvd l3 \<and> 4096 dvd l2
     \<and> l4 + 4096 \<le> 2 ^ 52 \<and> l3 + 4096 \<le> 2 ^ 52 \<and> l2 + 64 * 4096 \<le> 2 ^ 52
     \<and> (l4 + 4096 \<le> l3 \<or> l3 + 4096 \<le> l4)
     \<and> (l4 + 4096 \<le> l2 \<or> l2 + 64 * 4096 \<le> l4) \<and> (l3 + 4096 \<le> l2 \<or> l2 + 64 * 4096 \<le> l3))"

lemma unat_small_add:
  "unat x + n < 2 ^ 64 \<Longrightarrow> unat (x + of_nat n) = unat x + n" for x :: u64
  by (simp add: unat_word_ariths unsigned_of_nat take_bit_eq_mod)

lemma unat_entry: "i < 512 \<Longrightarrow> unat t + 4096 \<le> 2 ^ 52 \<Longrightarrow> unat (entry_address t (of_nat i)) = unat t + 8 * i"
  using unat_small_add [of t "8 * i"] by (simp add: entry_address_def)

lemma tables_okD:
  assumes "tables_ok pts"
  shows "4096 dvd unat (pdp_table pts)" "4096 dvd unat (page_directory pts)"
    "unat (pml4_table pts) + 4096 \<le> 2 ^ 52" "unat (pdp_table pts) + 4096 \<le> 2 ^ 52"
    "unat (page_directory pts) + 262144 \<le> 2 ^ 52"
    "unat (pml4_table pts) + 4096 \<le> unat (pdp_table pts) \<or> unat (pdp_table pts) + 4096 \<le> unat (pml4_table pts)"
    "unat (pml4_table pts) + 4096 \<le> unat (page_directory pts) \<or> unat (page_directory pts) + 262144 \<le> unat (pml4_table pts)"
    "unat (pdp_table pts) + 4096 \<le> unat (page_directory pts) \<or> unat (page_directory pts) + 262144 \<le> unat (pdp_table pts)"
  using assms unfolding tables_ok_def Let_def by simp_all

lemma unat_pdp_entry:
  "tables_ok pts \<Longrightarrow> i < 512 \<Longrightarrow> unat (pdp_entry pts i) = unat (pdp_table pts) + 8 * i"
  using tables_okD(4) by (simp add: pdp_entry_def unat_entry)

lemma unat_directory_at:
  "tables_ok pts \<Longrightarrow> i < 64 \<Longrightarrow> unat (directory_at pts i) = unat (page_directory pts) + 4096 * i"
  using tables_okD(5) [of pts] unat_small_add [of "page_directory pts" "4096 * i"] by (simp add: directory_at_def)

lemma unat_directory_entry:
  assumes "tables_ok pts" and "i < 64" and "j < 512"
  shows "unat (directory_entry_at pts i j) = unat (page_directory pts) + 4096 * i + 8 * j"
  using tables_okD(5) [OF assms(1)] unat_directory_at [OF assms(1,2)] assms
  by (simp add: directory_entry_at_def unat_entry)

section \<open>What the loops leave in the tables\<close>

text \<open>A store per index: each cell has its value, the other cells what they had.\<close>

lemma fold_store_other: "(\<And>j. j \<in> set js \<Longrightarrow> a \<noteq> f j) \<Longrightarrow> fold (\<lambda>j m. m(f j := v j)) js m a = m a"
  by (induction js arbitrary: m) auto

lemma fold_store_at:
  assumes "inj_on f (set js)" and "j \<in> set js"
  shows "fold (\<lambda>j m. m(f j := v j)) js m (f j) = v j"
  using assms
proof (induction js rule: rev_induct)
  case (snoc k js)
  then show ?case by (cases "f j = f k") (auto simp: inj_on_def)
qed simp

lemma fill_directory_cells:
  assumes "tables_ok pts" and "i < 64"
  shows "j < 512 \<Longrightarrow> fill_directory pts i m (directory_entry_at pts i j) = directory_value i j"
    and "unat a < unat (page_directory pts) + 4096 * i \<or> unat (page_directory pts) + 4096 * i + 4096 \<le> unat a
      \<Longrightarrow> fill_directory pts i m a = m a"
proof -
  have n: "unat (directory_entry_at pts i j) = unat (page_directory pts) + 4096 * i + 8 * j" if "j < 512" for j
    by (rule unat_directory_entry [OF assms that])
  have "inj_on (directory_entry_at pts i) (set [0..<512])"
  proof (rule inj_onI)
    fix x y assume "x \<in> set [0..<512]" "y \<in> set [0..<512]" and eq: "directory_entry_at pts i x = directory_entry_at pts i y"
    then have xy: "x < 512" "y < 512" by (simp_all only: set_upt atLeastLessThan_iff)
    show "x = y" using n [OF xy(1)] n [OF xy(2)] unfolding eq by linarith
  qed
  then show "fill_directory pts i m (directory_entry_at pts i j) = directory_value i j" if "j < 512"
    unfolding fill_directory_def by (rule fold_store_at) (simp only: set_upt atLeastLessThan_iff that le0 simp_thms)
  assume a: "unat a < unat (page_directory pts) + 4096 * i \<or> unat (page_directory pts) + 4096 * i + 4096 \<le> unat a"
  have "a \<noteq> directory_entry_at pts i j" if "j < 512" for j using n [OF that] a that by auto
  then show "fill_directory pts i m a = m a"
    unfolding fill_directory_def by (intro fold_store_other) (simp del: upt_rec_numeral)
qed

lemma fill_tables_Suc:
  "fill_tables pts (Suc n) m =
    fill_directory pts n ((fill_tables pts n m)(pdp_entry pts n := directory_at pts n OR 0x03))"
  by (simp add: fill_tables_def)

text \<open>After \<open>n\<close> turns of the outer loop the first \<open>n\<close> directories and the entries for them are there.\<close>

lemma fill_tables_cells:
  assumes ok: "tables_ok pts"
  shows "n \<le> 64 \<Longrightarrow>
    (\<forall>i < n. fill_tables pts n m (pdp_entry pts i) = directory_at pts i OR 0x03
      \<and> (\<forall>j < 512. fill_tables pts n m (directory_entry_at pts i j) = directory_value i j))
    \<and> (\<forall>a. (\<forall>i < n. a \<noteq> pdp_entry pts i)
        \<and> (unat a < unat (page_directory pts) \<or> unat (page_directory pts) + 4096 * n \<le> unat a)
        \<longrightarrow> fill_tables pts n m a = m a)"
proof (induction n)
  case 0
  then show ?case by (simp add: fill_tables_def)
next
  case (Suc n)
  then have n: "n < 64" and le: "n \<le> 64" by simp_all
  note ih = Suc.IH [OF le] and cells = fill_directory_cells [OF ok n]
  let ?m = "(fill_tables pts n m)(pdp_entry pts n := directory_at pts n OR 0x03)"
  have pdp: "fill_directory pts n ?m (pdp_entry pts i) = ?m (pdp_entry pts i)" if "i < 512" for i
    using unat_pdp_entry [OF ok that] tables_okD(8) [OF ok] n that by (intro cells(2)) linarith
  have ne: "pdp_entry pts i = pdp_entry pts n \<longleftrightarrow> i = n" if "i < 64" for i
  proof
    assume eq: "pdp_entry pts i = pdp_entry pts n"
    have "i < 512" "n < 512" using that n by simp_all
    from unat_pdp_entry [OF ok this(1)] unat_pdp_entry [OF ok this(2)] show "i = n" unfolding eq by linarith
  qed simp
  have dir: "fill_directory pts n ?m (directory_entry_at pts i j) = fill_tables pts n m (directory_entry_at pts i j)"
    if "i < n" "j < 512" for i j
  proof -
    have u: "unat (directory_entry_at pts i j) = unat (page_directory pts) + 4096 * i + 8 * j"
      using unat_directory_entry [OF ok _ that(2)] that(1) n by simp
    then have "directory_entry_at pts i j \<noteq> pdp_entry pts n"
      using unat_pdp_entry [OF ok, of n] tables_okD(8) [OF ok] n that by (intro notI) (simp only:, linarith)
    moreover have "8 * j < 4096" "4096 * i + 4096 \<le> 4096 * n" using that by linarith+
    ultimately show ?thesis using u by (subst cells(2)) auto
  qed
  show ?case unfolding fill_tables_Suc
  proof (intro conjI allI impI)
    fix i assume "i < Suc n"
    then show "fill_directory pts n ?m (pdp_entry pts i) = directory_at pts i OR 0x03"
      using pdp [of i] ne [of i] ih n by auto
  next
    fix i j assume "i < Suc n" and j: "j < (512 :: nat)"
    then show "fill_directory pts n ?m (directory_entry_at pts i j) = directory_value i j"
      using cells(1) [OF j] dir [OF _ j] ih by (cases "i = n") auto
  next
    fix a
    assume a: "(\<forall>i < Suc n. a \<noteq> pdp_entry pts i)
      \<and> (unat a < unat (page_directory pts) \<or> unat (page_directory pts) + 4096 * Suc n \<le> unat a)"
    then have "fill_directory pts n ?m a = ?m a" by (intro cells(2)) auto
    with a ih show "fill_directory pts n ?m a = m a" by auto
  qed
qed

section \<open>The identity mapping\<close>

lemma bf_get_bit: "bf_get k 1 e \<noteq> 0 \<longleftrightarrow> bit e k" for e :: u64
proof
  assume "bf_get k 1 e \<noteq> 0"
  then obtain i where "bit (bf_get k 1 e) i" by (auto simp: bit_eq_iff)
  then show "bit e k" by (auto simp: bit_bf_get)
next
  assume "bit e k"
  then have "bit (bf_get k 1 e) 0" by (simp add: bit_bf_get)
  then show "bf_get k 1 e \<noteq> 0" by auto
qed

lemma flag_set: "pme_present e \<longleftrightarrow> bit e 0" "pme_huge e \<longleftrightarrow> bit e 7"
  unfolding pme_present_def pme_huge_def by (rule bf_get_bit)+

lemma zero_not_present: "\<not> pme_present 0"
  by (simp add: flag_set)

lemma bf_get_or: "bf_get lo n (x OR y) = bf_get lo n x OR bf_get lo n y" for x y :: u64
  by (rule bit_word_eqI) (auto simp: bit_bf_get bit_simps)

lemma flags_zero: "bf_get 12 40 (0x03 :: u64) = 0" "bf_get 21 31 (0x83 :: u64) = 0"
  by (simp_all add: bf_get_def)

lemma flag_bits: "bit (0x03 :: u64) 0" "bit (0x83 :: u64) 0" "bit (0x83 :: u64) 7" "\<not> bit (0x03 :: u64) 7"
  by simp_all

lemma table_entry:
  assumes "4096 dvd unat p" and "unat p < 2 ^ 52"
  shows "pme_present (p OR 0x03)" "pme_pointer (p OR 0x03) = p" "\<not> pme_huge (p OR 0x03)"
proof -
  have "\<not> bit p 7"
  proof
    assume "bit p 7"
    then have "odd (unat p div 2 ^ 7)" by (simp only: bit_unsigned_iff bit_iff_odd [symmetric]) simp
    moreover obtain k where "unat p = 4096 * k" using assms(1) by blast
    ultimately show False by simp
  qed
  then show "\<not> pme_huge (p OR 0x03)" by (simp add: flag_set bit_or_iff flag_bits)
  show "pme_present (p OR 0x03)" by (simp add: flag_set bit_or_iff flag_bits)
  have "unat (bf_get 12 40 p) = unat p div 4096" using assms(2) by (simp add: unat_bf_get)
  then have "unat (push_bit 12 (bf_get 12 40 p)) = unat p"
    using assms by (subst shift_left_unat) (auto simp: dvd_div_mult_self)
  then have "push_bit 12 (bf_get 12 40 p) = p" by (rule unsigned_word_eqI)
  then show "pme_pointer (p OR 0x03) = p" by (simp add: pme_pointer_def bf_get_or flags_zero)
qed

lemma unat_directory_base:
  assumes "i < 64" and "j < 512"
  shows "unat (of_nat i * kPageSize1G + of_nat j * kPageSize2M) = i * 2 ^ 30 + j * 2 ^ 21"
proof -
  have "of_nat i * kPageSize1G + of_nat j * kPageSize2M = (0 + of_nat (i * 2 ^ 30 + j * 2 ^ 21) :: u64)"
    by (simp add: kPageSize1G_def kPageSize2M_def kPageSize4K_def)
  moreover have "i * 2 ^ 30 + j * 2 ^ 21 < 2 ^ 64" using assms by simp
  ultimately show ?thesis using unat_small_add [of 0 "i * 2 ^ 30 + j * 2 ^ 21"] by simp
qed

lemma directory_value_page:
  assumes "i < 64" and "j < 512" and "unat a = i * 2 ^ 30 + j * 2 ^ 21 + r" and "r < 2 ^ 21"
  shows "pme_present (directory_value i j)" "pme_huge (directory_value i j)" "page_of 21 (directory_value i j) a = a"
proof -
  show "pme_present (directory_value i j)" "pme_huge (directory_value i j)"
    by (simp_all add: flag_set directory_value_def bit_or_iff flag_bits)
  let ?x = "of_nat i * kPageSize1G + of_nat j * kPageSize2M :: u64"
  have f: "unat (bf_get 21 31 ?x) = i * 512 + j"
    using assms(1,2) unat_directory_base [OF assms(1,2)] by (simp add: unat_bf_get)
  have "unat (push_bit 21 (bf_get 21 31 ?x)) = i * 2 ^ 30 + j * 2 ^ 21"
    using f assms(1,2) by (subst shift_left_unat) simp_all
  moreover have "unat a = r + (i * 512 + j) * 2 ^ 21" using assms(3) by simp
  then have "unat a mod 2 ^ 21 = r" using assms(4) by (simp only: mod_mult_self1 mod_less)
  then have "unat (bf_get 0 21 a) = r" by (simp add: unat_bf_get)
  ultimately have "unat (push_bit 21 (bf_get 21 31 ?x) + bf_get 0 21 a) = unat a"
    using assms by (subst unat_add_no_wrap) simp_all
  then have "push_bit 21 (bf_get 21 31 ?x) + bf_get 0 21 a = a" by (rule unsigned_word_eqI)
  then show "page_of 21 (directory_value i j) a = a"
    by (simp add: page_of_def directory_value_def bf_get_or flags_zero)
qed

lemma unat_la_part:
  "unat (la_part 4 a) = unat a div 2 ^ 39 mod 512" "unat (la_part 3 a) = unat a div 2 ^ 30 mod 512"
  "unat (la_part 2 a) = unat a div 2 ^ 21 mod 512" "unat (la_part 1 a) = unat a div 2 ^ 12 mod 512"
  by (simp_all add: la_part_def unat_bf_get)

text \<open>The addresses the processor accepts: bits 48 and up repeat bit 47.\<close>

definition canonical :: "u64 \<Rightarrow> bool" where
  "canonical a \<longleftrightarrow> unat a < 2 ^ 47 \<or> 2 ^ 64 - 2 ^ 47 \<le> unat a"

section \<open>The walk over the new tables\<close>

lemma translate_steps:
  "translate u a =
    (let e4 = pu_mem u (entry_address (pu_cr3 u) (la_part 4 a)) in
     if \<not> pme_present e4 then None
     else (let e3 = pu_mem u (entry_address (pme_pointer e4) (la_part 3 a)) in
       if \<not> pme_present e3 then None
       else if pme_huge e3 then Some (page_of 30 e3 a)
       else (let e2 = pu_mem u (entry_address (pme_pointer e3) (la_part 2 a)) in
         if \<not> pme_present e2 then None
         else if pme_huge e2 then Some (page_of 21 e2 a)
         else (let e1 = pu_mem u (entry_address (pme_pointer e2) (la_part 1 a)) in
           if \<not> pme_present e1 then None else Some (page_of 12 e1 a)))))"
  by (simp add: translate_def numeral_eq_Suc Let_def)

lemma entry_of_part: "entry_address t (la_part lv a) = entry_address t (of_nat (unat (la_part lv a)))"
  by simp

lemma canonical_low:
  assumes "canonical a" and "unat (la_part 4 a) = 0"
  shows "unat a < 2 ^ 39"
proof -
  let ?q = "unat a div 2 ^ 39"
  have q: "?q mod 512 = 0" using assms(2) by (simp only: unat_la_part)
  have top: "?q < 2 ^ 25" using unsigned_less [of a] by (intro less_mult_imp_div_less) simp
  have "?q < 256 \<or> 2 ^ 25 - 256 \<le> ?q"
    using assms(1) unfolding canonical_def
  proof
    assume "unat a < 2 ^ 47"
    then have "?q < 256" by (intro less_mult_imp_div_less) simp
    then show ?thesis ..
  next
    assume "2 ^ 64 - 2 ^ 47 \<le> unat a"
    then have "(2 ^ 64 - 2 ^ 47) div 2 ^ 39 \<le> ?q" by (rule div_le_mono)
    then show ?thesis by simp
  qed
  moreover obtain k where k: "?q = 512 * k" using q by (metis mod_0_imp_dvd dvdE)
  ultimately have "?q = 0" using top unfolding k by auto
  then show ?thesis by (simp add: div_eq_0_iff)
qed

text \<open>Below 64 GiB the walk needs only the first entry of the top table and what hangs under it.\<close>

lemma identity_walk:
  assumes ok: "tables_ok pts" and lt: "unat a < 64 * 2 ^ 30" and cr: "pu_cr3 u = pml4_table pts"
    and top: "pu_mem u (pml4_table pts) = pdp_table pts OR 0x03"
    and cells: "\<forall>i < 64. pu_mem u (pdp_entry pts i) = directory_at pts i OR 0x03
      \<and> (\<forall>j < 512. pu_mem u (directory_entry_at pts i j) = directory_value i j)"
  shows "translate u a = Some a"
proof -
  let ?i = "unat a div 2 ^ 30" and ?j = "unat a div 2 ^ 21 mod 512"
  have i: "?i < 64" using lt by (simp add: div_less_iff_less_mult)
  have "unat (la_part 4 a) = 0" using lt unfolding unat_la_part by simp
  then have "la_part 4 a = 0" by (simp add: unat_eq_0)
  then have e4: "pu_mem u (entry_address (pu_cr3 u) (la_part 4 a)) = pdp_table pts OR 0x03"
    using top cr by (simp add: entry_address_def)
  have s4: "pme_present (pdp_table pts OR 0x03)" "pme_pointer (pdp_table pts OR 0x03) = pdp_table pts"
    using table_entry [OF tables_okD(1) [OF ok]] tables_okD(4) [OF ok] by simp_all
  have "unat (la_part 3 a) = unat (of_nat ?i :: u64)" using i by (simp add: unat_la_part unsigned_of_nat take_bit_eq_mod)
  then have "la_part 3 a = of_nat ?i" by (rule unsigned_word_eqI)
  then have a3: "entry_address (pdp_table pts) (la_part 3 a) = pdp_entry pts ?i" by (simp only: pdp_entry_def)
  have e3: "pu_mem u (pdp_entry pts ?i) = directory_at pts ?i OR 0x03" using cells i by blast
  have "4096 dvd unat (directory_at pts ?i)" "unat (directory_at pts ?i) < 2 ^ 52"
    using unat_directory_at [OF ok i] tables_okD(2,5) [OF ok] i by simp_all
  note s3 = table_entry [OF this]
  have "unat (la_part 2 a) = unat (of_nat ?j :: u64)" by (simp add: unat_la_part unsigned_of_nat take_bit_eq_mod)
  then have p2: "la_part 2 a = of_nat ?j" by (rule unsigned_word_eqI)
  have j: "?j < 512" by simp
  have a2: "entry_address (directory_at pts ?i) (la_part 2 a) = directory_entry_at pts ?i ?j"
    unfolding p2 directory_entry_at_def ..
  have e2: "pu_mem u (directory_entry_at pts ?i ?j) = directory_value ?i ?j" using cells i j by blast
  have "unat a = ?i * 2 ^ 30 + ?j * 2 ^ 21 + unat a mod 2 ^ 21"
  proof -
    let ?q = "unat a div 2 ^ 21"
    have "?i = ?q div 512" by (simp add: div_mult2_eq [symmetric])
    then have q: "512 * ?i + ?j = ?q" by (metis mult_div_mod_eq)
    have "?i * 2 ^ 30 + ?j * 2 ^ 21 = 2 ^ 21 * (512 * ?i + ?j)" by simp
    then show ?thesis unfolding q by (simp only: mult_div_mod_eq)
  qed
  moreover have "unat a mod 2 ^ 21 < 2 ^ 21" by simp
  ultimately have s2: "pme_present (directory_value ?i ?j)" "pme_huge (directory_value ?i ?j)"
    "page_of 21 (directory_value ?i ?j) a = a"
    by (rule directory_value_page [OF i j])+
  show ?thesis
    unfolding translate_steps Let_def e4 s4 a3 e3 s3 a2 e2 s2
    by (simp only: s4 s3 s2 if_True if_False not_True_eq_False)
qed

text \<open>The cells after the call.\<close>

lemma initialize_cells:
  assumes ok: "tables_ok pts"
  shows "pu_cr3 (initialize_pagetable pts u) = pml4_table pts"
    and "\<forall>i < 64. pu_mem (initialize_pagetable pts u) (pdp_entry pts i) = directory_at pts i OR 0x03
      \<and> (\<forall>j < 512. pu_mem (initialize_pagetable pts u) (directory_entry_at pts i j) = directory_value i j)"
    and "i < 512 \<Longrightarrow> pu_mem (initialize_pagetable pts u) (entry_address (pml4_table pts) (of_nat i)) =
      (if i = 0 then pdp_table pts OR 0x03 else pu_mem u (entry_address (pml4_table pts) (of_nat i)))"
    and "64 \<le> i \<Longrightarrow> i < 512 \<Longrightarrow> pu_mem (initialize_pagetable pts u) (pdp_entry pts i) = pu_mem u (pdp_entry pts i)"
proof -
  let ?init = "(pu_mem u)(pml4_table pts := pdp_table pts OR 0x03)"
  let ?fin = "fill_tables pts 64 ?init"
  have cells: "\<forall>i < 64. ?fin (pdp_entry pts i) = directory_at pts i OR 0x03
      \<and> (\<forall>j < 512. ?fin (directory_entry_at pts i j) = directory_value i j)"
    and other: "\<And>a. (\<forall>i < 64. a \<noteq> pdp_entry pts i)
        \<Longrightarrow> unat a < unat (page_directory pts) \<or> unat (page_directory pts) + 262144 \<le> unat a \<Longrightarrow> ?fin a = ?init a"
    using fill_tables_cells [OF ok, of 64 ?init] by auto
  have l4: "unat (entry_address (pml4_table pts) (of_nat i)) = unat (pml4_table pts) + 8 * i" if "i < 512" for i
    using unat_entry [OF that tables_okD(3) [OF ok]] .
  have l3: "unat (pdp_entry pts i) = unat (pdp_table pts) + 8 * i" if "i < 512" for i
    using unat_pdp_entry [OF ok that] .
  have top: "?fin (entry_address (pml4_table pts) (of_nat i)) = ?init (entry_address (pml4_table pts) (of_nat i))" if "i < 512" for i
  proof (rule other)
    show "\<forall>k < 64. entry_address (pml4_table pts) (of_nat i) \<noteq> pdp_entry pts k"
    proof (intro allI impI notI)
      fix k :: nat assume "k < 64" and eq: "entry_address (pml4_table pts) (of_nat i) = pdp_entry pts k"
      then show False using l4 [OF that] l3 [of k] tables_okD(6) [OF ok] that unfolding eq by simp
    qed
  qed (use l4 [OF that] tables_okD(7) [OF ok] that in linarith)
  have rest: "?fin (pdp_entry pts i) = pu_mem u (pdp_entry pts i)" if "64 \<le> i" "i < 512" for i
  proof -
    have "?fin (pdp_entry pts i) = ?init (pdp_entry pts i)"
    proof (rule other)
      show "\<forall>k < 64. pdp_entry pts i \<noteq> pdp_entry pts k"
      proof (intro allI impI notI)
        fix k :: nat assume "k < 64" and eq: "pdp_entry pts i = pdp_entry pts k"
        then show False using l3 [OF that(2)] l3 [of k] that unfolding eq by simp
      qed
    qed (use l3 [OF that(2)] tables_okD(8) [OF ok] that in linarith)
    moreover have "pdp_entry pts i \<noteq> pml4_table pts"
    proof
      assume eq: "pdp_entry pts i = pml4_table pts"
      show False using l3 [OF that(2)] tables_okD(6) [OF ok] that unfolding eq by linarith
    qed
    ultimately show ?thesis by simp
  qed
  have mem: "pu_mem (initialize_pagetable pts u) = ?fin" "pu_cr3 (initialize_pagetable pts u) = pml4_table pts"
    by (simp_all add: initialize_pagetable_def kPageDirectoryCount_def)
  show "pu_cr3 (initialize_pagetable pts u) = pml4_table pts" by (rule mem(2))
  show "\<forall>i < 64. pu_mem (initialize_pagetable pts u) (pdp_entry pts i) = directory_at pts i OR 0x03
      \<and> (\<forall>j < 512. pu_mem (initialize_pagetable pts u) (directory_entry_at pts i j) = directory_value i j)"
    unfolding mem by (rule cells)
  show "64 \<le> i \<Longrightarrow> i < 512 \<Longrightarrow> pu_mem (initialize_pagetable pts u) (pdp_entry pts i) = pu_mem u (pdp_entry pts i)"
    unfolding mem by (rule rest)
  assume i: "i < 512"
  have "entry_address (pml4_table pts) (of_nat i) = pml4_table pts \<longleftrightarrow> i = 0"
  proof
    assume "entry_address (pml4_table pts) (of_nat i) = pml4_table pts"
    then show "i = 0" using l4 [OF i] by simp
  qed (simp add: entry_address_def)
  then show "pu_mem (initialize_pagetable pts u) (entry_address (pml4_table pts) (of_nat i)) =
      (if i = 0 then pdp_table pts OR 0x03 else pu_mem u (entry_address (pml4_table pts) (of_nat i)))"
    unfolding mem using top [OF i] by simp
qed

text \<open>
  \<open>InitializePagetable\<close> maps the first 64 GiB to themselves: the processor translates every canonical address
  below to itself, whatever it may be, and finds no page for any other one, provided the static arrays
  start out zeroed as the loader leaves them.
\<close>

theorem initialize_pagetable_identity:
  assumes ok: "tables_ok pts" and a: "canonical a"
    and zero: "\<forall>i < 512. pu_mem u (entry_address (pml4_table pts) (of_nat i)) = 0 \<and> pu_mem u (pdp_entry pts i) = 0"
  shows "translate (initialize_pagetable pts u) a = (if unat a < 64 * 2 ^ 30 then Some a else None)"
proof -
  let ?u = "initialize_pagetable pts u" and ?i = "unat a div 2 ^ 30"
  note cells = initialize_cells [OF ok, where u = u]
  have i4: "unat (la_part 4 a) < 512" by (simp add: la_part_less)
  have e4: "pu_mem ?u (entry_address (pml4_table pts) (la_part 4 a)) =
      (if unat (la_part 4 a) = 0 then pdp_table pts OR 0x03 else 0)"
    using cells(3) [OF i4] zero [rule_format, OF i4, THEN conjunct1] by simp
  show ?thesis
  proof (cases "unat a < 64 * 2 ^ 30")
    case True
    have "pu_mem ?u (pml4_table pts) = pdp_table pts OR 0x03" using cells(3) [of 0] by (simp add: entry_address_def)
    from identity_walk [OF ok True cells(1) this cells(2)] True show ?thesis by simp
  next
    case high: False
    have "translate ?u a = None"
    proof (cases "unat (la_part 4 a) = 0")
      case False
      then show ?thesis using e4 by (simp add: translate_steps Let_def cells(1) zero_not_present)
    next
      case True
      have i3: "?i < 512" "64 \<le> ?i" using canonical_low [OF a True] high by simp_all
      have "unat (la_part 3 a) = unat (of_nat ?i :: u64)" using i3 by (simp add: unat_la_part unsigned_of_nat take_bit_eq_mod)
      then have "la_part 3 a = of_nat ?i" by (rule unsigned_word_eqI)
      then have a3: "entry_address (pdp_table pts) (la_part 3 a) = pdp_entry pts ?i" by (simp only: pdp_entry_def)
      have e3: "pu_mem ?u (pdp_entry pts ?i) = 0" using cells(4) [OF i3(2,1)] zero i3(1) by simp
      have s4: "pme_present (pdp_table pts OR 0x03)" "pme_pointer (pdp_table pts OR 0x03) = pdp_table pts"
        using table_entry [OF tables_okD(1) [OF ok]] tables_okD(4) [OF ok] by simp_all
      have e4': "pu_mem ?u (entry_address (pml4_table pts) (la_part 4 a)) = pdp_table pts OR 0x03" using e4 True by simp
      show ?thesis
        unfolding translate_steps Let_def cells(1) e4' s4 a3 e3
        by (simp only: s4 zero_not_present if_True simp_thms if_cancel)
    qed
    with high show ?thesis by simp
  qed
qed

definition sample_page_tables :: page_tables where
  "sample_page_tables = \<lparr>pml4_table = 0x200000, pdp_table = 0x201000, page_directory = 0x202000\<rparr>"

theorem initialize_pagetable_identity_witness:
  "translate (initialize_pagetable sample_page_tables \<lparr>pu_mem = \<lambda>_. 0, pu_cr3 = 0\<rparr>) 0x123456789 = Some 0x123456789
    \<and> translate (initialize_pagetable sample_page_tables \<lparr>pu_mem = \<lambda>_. 0, pu_cr3 = 0\<rparr>) 0xFFFF800000000000 = None"
proof -
  have ok: "tables_ok sample_page_tables" by (simp add: tables_ok_def sample_page_tables_def Let_def)
  have c: "canonical 0x123456789" "canonical 0xFFFF800000000000" by (simp_all add: canonical_def)
  show ?thesis
    using initialize_pagetable_identity [OF ok c(1), of "\<lparr>pu_mem = \<lambda>_. 0, pu_cr3 = 0\<rparr>"]
      initialize_pagetable_identity [OF ok c(2), of "\<lparr>pu_mem = \<lambda>_. 0, pu_cr3 = 0\<rparr>"] by simp
qed

end
