(* ===== verification/Kernel_Start.thy ===== *)
theory Kernel_Start
  imports Main_Loop Page_Init Memory_Init Descriptors Acpi Task_Properties
begin

unbundle bit_operations_syntax

text \<open>
  The start of the kernel: \<open>usb::xhci::Initialize\<close> of \<open>Kernel/usb/xhci/xhci.cpp\<close> and
  \<open>kernel_main_new_stack\<close> of \<open>Kernel/main.cpp\<close> up to its loop, in the order of its calls.

  Addresses the linker chooses are in \<open>kernel_image\<close>, what the boot loader hands over in \<open>boot_args\<close>, and the
  devices with the answers they give in \<open>kernel_hardware\<close>.  Where the code calls \<open>exit\<close> there is no result.
\<close>

section \<open>The host controller\<close>

text \<open>
  The controller's registers, what it answers while it is polled, its memory of extended capabilities and
  the status registers of its ports.
\<close>

record xhc_hardware =
  xw_polls :: hc_polls
  xw_regs :: hc_registers
  xw_interrupter :: event_ring
  xw_extended :: "u64 \<Rightarrow> u32"
  xw_portsc :: "u32 list"
  xw_port_hw :: port_hw

text \<open>
  The static data and the pool of the driver: every port is not connected and none is being addressed.  The errors of
  \<open>Run\<close> and of the ports are not looked at or only logged.
\<close>

definition xhci_initialize ::
  "config_store \<Rightarrow> u8 \<Rightarrow> xhc_hardware \<Rightarrow> usb_env \<Rightarrow> pci \<Rightarrow> (controller \<times> hc_registers \<times> (u64 \<times> u32) option \<times> pci) option" where
  "xhci_initialize store bsp_local_apic_id hw e st = do {
     found \<leftarrow> locate_controller store bsp_local_apic_id st;
     (xhc_dev, mmio_base, st1) \<leftarrow> found;
     owned \<leftarrow> request_hc_ownership (xw_extended hw) (xw_polls hw) mmio_base (hr_hccparams1 (xw_regs hw));
     (err, r1, dm, cr, er, e1) \<leftarrow> controller_initialize (xw_polls hw) (xw_interrupter hw) (xw_regs hw) e;
     (if is_error err then None
      else do {
        (_, r2) \<leftarrow> controller_run (xw_polls hw) r1;
        (let max_ports = controller_new (hr_hcsparams1 (xw_regs hw)) in do {
           s \<leftarrow> configure_ports (xw_port_hw hw) (map of_nat [1..<Suc max_ports])
             \<lparr>hc_max_ports = max_ports, hc_devmgr = dm, hc_cr = cr, hc_er = er, hc_portsc = xw_portsc hw,
              hc_doorbells = [], hc_phase = (\<lambda>_. NotConnected), hc_addressing_port = 0, hc_env = e1\<rparr>;
           Some (s, r2, owned, st1)
         })
      })
   }"

section \<open>Memory, segments and interrupts\<close>

record kernel_image =
  ki_font :: "u8 list"
  ki_page_tables :: page_tables
  ki_gdt :: u64
  ki_tss :: u64
  ki_idt :: u64
  ki_handlers :: "string \<Rightarrow> u64"
  ki_syscall_entry :: u64
  ki_task_idle :: u64
  ki_task_terminal :: u64

record memory_state =
  ms_seg :: seg_state
  ms_paging :: paging_unit
  ms_frames :: bitmap_manager
  ms_heap :: kernel_heap

text \<open>\<open>InitializeSegment\<close>, \<open>InitializePagetable\<close>, \<open>InitializeMemoryManager\<close>, \<open>InitializeTSS\<close> and \<open>InitializeInterrupt\<close>.\<close>

definition start_memory :: "kernel_image \<Rightarrow> memory_descriptor list \<Rightarrow> memory_state \<Rightarrow> memory_state option" where
  "start_memory ki memmap m = do {
     seg1 \<leftarrow> initialize_segment (ki_gdt ki) (ms_seg m);
     pu \<leftarrow> Some (initialize_pagetable (ki_page_tables ki) (ms_paging m));
     (err, frames, heap) \<leftarrow> initialize_memory_manager memmap (ms_heap m);
     (if is_error err then None
      else do {
        (seg2, frames2) \<leftarrow> initialize_tss (ki_tss ki) (seg1, frames);
        seg3 \<leftarrow> initialize_interrupt (ki_idt ki) (ki_handlers ki) seg2;
        Some \<lparr>ms_seg = seg3, ms_paging = pu, ms_frames = frames2, ms_heap = heap\<rparr>
      })
   }"

section \<open>Tasks\<close>

text \<open>
  \<open>InitializeTask\<close> and the task of the terminal.  \<open>memory\<close> gives what the memory of the new tasks holds: two for the
  constructor of the task manager, one for the terminal; \<open>stack\<close> gives the addresses of the stacks.
\<close>

record task_memory =
  tv_os_stack_ptr :: "nat \<Rightarrow> u64"
  tv_context :: "nat \<Rightarrow> task_context"
  tv_stack :: "nat \<Rightarrow> u64"

definition start_tasks ::
  "kernel_image \<Rightarrow> task_memory \<Rightarrow> task_context \<Rightarrow> timer_manager \<Rightarrow> (u64 \<times> timer_manager \<times> task_manager) option" where
  "start_tasks ki v regs tmr =
    (let (tmr1, made) = initialize_task (task_manager_new (tv_os_stack_ptr v 0) (tv_context v 0)
           (tv_os_stack_ptr v 1) (tv_context v 1) (ki_task_idle ki) (tv_stack v 1) regs) tmr
     in do {
       tm \<leftarrow> made;
       _ \<leftarrow> current_task tm;
       (t, tm1) \<leftarrow> Some (new_task (tv_os_stack_ptr v 2) (tv_context v 2) tm);
       tm2 \<leftarrow> tm_update t (task_init_context (ki_task_terminal ki) 0 (cx_cr3 (cpu tm1)) (tv_stack v 2)) tm1;
       tm3 \<leftarrow> wakeup_task t (- 1) tm2;
       k \<leftarrow> tm_task tm3 t;
       Some (tk_id k, tmr1, tm3)
     })"

section \<open>The whole start\<close>

record boot_args =
  ba_screen :: frame_buffer
  ba_memory_map :: "memory_descriptor list"
  ba_rsdp :: u64
  ba_volume :: "u8 list"

record kernel_hardware =
  kh_memory :: phys_mem
  kh_apic_count :: u32
  kh_apic_id :: u8
  kh_config_store :: config_store
  kh_pci :: pci
  kh_xhc :: xhc_hardware
  kh_usb :: usb_env
  kh_registers :: task_context
  kh_tasks :: task_memory

record started_kernel =
  sk_main :: main_state
  sk_memory :: memory_state
  sk_msrs :: "(u32 \<times> u64) list"
  sk_fadt :: u64
  sk_apic :: "apic_event list"
  sk_xhc_regs :: hc_registers

text \<open>\<open>InitializeGraphics\<close> and \<open>ScreenSize\<close>.\<close>

definition initialize_graphics :: "frame_buffer \<Rightarrow> frame_buffer option" where
  "initialize_graphics config =
    (case fc_pixel_format (fb_config config) of PixelOther _ \<Rightarrow> None | _ \<Rightarrow> Some config)"

definition screen_size :: "frame_buffer_config \<Rightarrow> vec2" where
  "screen_size config = vec (sint (fc_horizontal_resolution config)) (sint (fc_vertical_resolution config))"

text \<open>\<open>InitializeLayer\<close>, the two windows, and all of the screen drawn.\<close>

definition start_screen ::
  "u8 list \<Rightarrow> console \<times> con_world \<Rightarrow>
    ((nat \<times> u32) \<times> (nat \<times> u32) \<times> console \<times> con_world \<times> active_layer) option" where
  "start_screen font p = do {
     (c, st, al) \<leftarrow> initialize_layer font p;
     config \<leftarrow> Some (fb_config (cw_screen st));
     (main_window, main_layer, lm1) \<leftarrow> initialize_main_window font (fc_pixel_format config) (cw_layers st);
     (text_window, text_layer, lm2) \<leftarrow> initialize_text_window font (fc_pixel_format config) lm1;
     lm3 \<leftarrow> lm_draw_area (rect (vec 0 0) (screen_size config)) lm2;
     Some ((main_window, main_layer), (text_window, text_layer), c, st\<lparr>cw_layers := lm3\<rparr>, al)
   }"

definition no_layers :: layer_manager where
  "no_layers =
    \<lparr>lm_screen = None,
     lm_back = \<lparr>fb_config = \<lparr>fc_pixels_per_scanline = 0, fc_horizontal_resolution = 0, fc_vertical_resolution = 0,
       fc_pixel_format = PixelRGBResv8\<rparr>, fb_mem = []\<rparr>,
     lm_layers = [], lm_stack = [], lm_latest_id = 0, lm_windows = []\<rparr>"

definition initialize_pci :: "pci \<Rightarrow> pci option" where
  "initialize_pci st = do { (err, st1) \<leftarrow> scan_all_bus st; if is_error err then None else Some st1 }"

definition kernel_main_new_stack ::
  "kernel_image \<Rightarrow> boot_args \<Rightarrow> kernel_hardware \<Rightarrow> memory_state \<Rightarrow> started_kernel option" where
  "kernel_main_new_stack ki ba hw m0 = do {
     screen \<leftarrow> initialize_graphics (ba_screen ba);
     config \<leftarrow> Some (fb_config screen);
     con \<leftarrow> initialize_console (ki_font ki) \<lparr>cw_screen = screen, cw_layers = no_layers, cw_has_manager = False\<rparr>;
     m \<leftarrow> start_memory ki (ba_memory_map ba) m0;
     bus \<leftarrow> initialize_pci (kh_pci hw);
     fadt \<leftarrow> acpi_initialize (kh_memory hw) (ba_rsdp ba);
     (tmr, _, apic) \<leftarrow> Some (initialize_apic_timer (kh_apic_count hw));
     tmr1 \<leftarrow> Some (add_timer \<lparr>tmr_timeout = kTimer05Sec, tmr_value = kTextboxCursorTime\<rparr> tmr);
     ((main_window, main_layer), (text_window, text_layer), c, st, al) \<leftarrow> start_screen (ki_font ki) con;
     (terminal, tmr2, tm) \<leftarrow> start_tasks ki (kh_tasks hw) ((kh_registers hw)\<lparr>cx_cr3 := pu_cr3 (ms_paging m)\<rparr>) tmr1;
     (xhc, regs, _, bus1) \<leftarrow> xhci_initialize (kh_config_store hw) (kh_apic_id hw) (kh_xhc hw) (kh_usb hw) bus;
     (mouse, al1, lm) \<leftarrow> initialize_mouse (fc_pixel_format config) (al, cw_layers st);
     kw \<leftarrow> show_volume_image (ki_font ki) (ba_volume ba)
       \<lparr>kw_term = \<lparr>tw_lm = lm, tw_tm = tm, tw_pci = bus1,
          tw_loader = \<lparr>ld_pages = \<lparr>pt_mem = pu_mem (ms_paging m), pt_frames = ms_frames m\<rparr>, ld_vmem = kh_memory hw\<rparr>\<rparr>,
        kw_active = al1, kw_console = c, kw_screen = cw_screen st, kw_log_level = kInfo,
        kw_maps = \<lparr>mp_layer_task = Map.empty, mp_terminals = Map.empty\<rparr>\<rparr>;
     Some \<lparr>
       sk_main = \<lparr>mn_kernel = kw, mn_timers = tmr2, mn_mouse = mouse,
         mn_xhc = xhc\<lparr>hc_env := (hc_env xhc)\<lparr>ue_mouse_observer := Some 0, ue_key_observer := Some 0\<rparr>\<rparr>,
         mn_main_window = main_window, mn_main_layer = main_layer, mn_text_window = text_window,
         mn_text_layer = text_layer, mn_text_index = 0, mn_text_visible = False, mn_terminal_task = terminal\<rparr>,
       sk_memory = m, sk_msrs = initialize_syscall (ki_syscall_entry ki), sk_fadt = fadt, sk_apic = apic,
       sk_xhc_regs = regs\<rparr>
   }"

section \<open>The memory map on the console\<close>

text \<open>\<open>show_memory_map\<close>: a line for the size of the map, and one for each descriptor of available memory.\<close>

definition descriptor_text :: "memory_descriptor \<Rightarrow> string" where
  "descriptor_text d =
    ''type = '' @ dec_string (unat (md_type d)) @ '', phys = '' @ hex_padded 8 (unat (md_physical_start d)) @ '' - ''
    @ hex_padded 8 (unat (md_physical_start d + md_number_of_pages d * 4096 - 1)) @ '', pages = ''
    @ dec_string (unat (md_number_of_pages d)) @ '', attr = '' @ hex_padded 8 (unat (md_attribute d)) @ [CHR ''\<newline>'']"

definition memory_map_texts :: "u64 \<Rightarrow> memory_descriptor list \<Rightarrow> string list" where
  "memory_map_texts map_size ds =
    (''start memory map iteration: '' @ (let i = sint (ucast map_size :: u32) in
       if i < 0 then CHR ''-'' # dec_string (nat (- i)) else dec_string (nat i)) @ [CHR ''\<newline>''])
    # map descriptor_text (filter (\<lambda>d. is_available (md_type d)) ds)"

definition show_memory_map :: "u8 list \<Rightarrow> u64 \<Rightarrow> memory_descriptor list \<Rightarrow> kernel_world \<Rightarrow> kernel_world option" where
  "show_memory_map font map_size ds = for_each (printk font) (memory_map_texts map_size ds)"

section \<open>The first tasks\<close>

text \<open>The scheduler after the start: the main task runs, the terminal waits at its level, and the idle task below it.\<close>

definition first_tasks :: "kernel_image \<Rightarrow> task_memory \<Rightarrow> task_context \<Rightarrow> task_manager" where
  "first_tasks ki v regs =
    \<lparr>tasks = [(task_new (tv_os_stack_ptr v 0) (tv_context v 0) 1)\<lparr>tk_level := 3, tk_running := True\<rparr>,
       (task_init_context (ki_task_idle ki) 0 (cx_cr3 regs) (tv_stack v 1) (task_new (tv_os_stack_ptr v 1) (tv_context v 1) 2))
         \<lparr>tk_level := 0, tk_running := True\<rparr>,
       (task_init_context (ki_task_terminal ki) 0 (cx_cr3 regs) (tv_stack v 2) (task_new (tv_os_stack_ptr v 2) (tv_context v 2) 3))
         \<lparr>tk_running := True\<rparr>],
     latest_id = 3, run_queues = [[1], [2], [], [0]], current_level = 3, level_changed = False, cpu = regs\<rparr>"

lemma task_init_context_keeps:
  "tk_id (task_init_context f d c b k) = tk_id k" "tk_level (task_init_context f d c b k) = tk_level k"
  "tk_running (task_init_context f d c b k) = tk_running k" "tk_messages (task_init_context f d c b k) = tk_messages k"
  by (simp_all add: task_init_context_def Let_def)

lemma task_new_sel:
  "tk_id (task_new osp c i) = i" "tk_level (task_new osp c i) = 1" "\<not> tk_running (task_new osp c i)"
  "tk_messages (task_new osp c i) = []"
  by (simp_all add: task_new_def kDefaultLevel_def)

lemma level_one_update: "tk_level k = 1 \<Longrightarrow> k\<lparr>tk_level := 1, tk_running := r\<rparr> = k\<lparr>tk_running := r\<rparr>"
  by simp

lemma start_tasks_first:
  "start_tasks ki v regs tmr = Some (3, fst (initialize_task undefined tmr), first_tasks ki v regs)"
  by (simp add: start_tasks_def initialize_task_def task_manager_new_eq new_task_def current_task_def tm_update_def
      wakeup_task_def tm_task_def ub_simps task_init_context_keeps task_new_sel first_tasks_def level_one_update)

text \<open>
  What follows when the main task finds no message: it sleeps, and the terminal runs; when a message to the main
  task comes, the next tick of the task timer gives it the processor back.
\<close>

definition main_asleep :: "kernel_image \<Rightarrow> task_memory \<Rightarrow> task_context \<Rightarrow> task_manager" where
  "main_asleep ki v regs =
    (let tm = first_tasks ki v regs
     in tm\<lparr>tasks := (tasks tm)[0 := (tasks tm ! 0)\<lparr>tk_running := False, tk_context := regs\<rparr>],
           run_queues := [[1], [2], [], []], current_level := 1, cpu := tk_context (tasks tm ! 2)\<rparr>)"

lemma main_sleeps: "sleep_task 0 (first_tasks ki v regs) = Some (main_asleep ki v regs)"
  by (simp add: sleep_task_def first_tasks_def main_asleep_def tm_task_def tm_update_def ub_simps current_task_def
      rotate_run_queue_def kMaxLevel_def switch_context_def restore_context_def numeral_3_eq_3 task_new_def)

lemma main_wakes:
  "\<exists>tm2. send_message 1 msg (main_asleep ki v regs) = Some (KSuccess, tm2) \<and> current_task tm2 = Some 2
    \<and> (\<exists>tm3. switch_task ctx tm2 = Some tm3 \<and> current_task tm3 = Some 0 \<and> cpu tm3 = regs
        \<and> tk_messages (tasks tm3 ! 0) = [msg] \<and> tk_context (tasks tm3 ! 2) = ctx
        \<and> run_queues tm3 = [[1], [2], [], [0]])"
  by (simp add: send_message_def find_task_def main_asleep_def first_tasks_def upt_rec task_new_sel task_init_context_keeps
      task_send_message_def tm_update_def wakeup_task_def tm_task_def ub_simps current_task_def switch_task_def
      rotate_run_queue_def kMaxLevel_def restore_context_def numeral_3_eq_3)

text \<open>
  C5: when the kernel has started its tasks, the main task (id 1) runs, and the terminal (id 3) and the idle task
  (id 2) wait below it.  When the main task sleeps, the processor goes on in \<open>TaskTerminal\<close> with the terminal's id
  and the kernel's page tables; a message to the main task wakes it without taking the processor from the
  terminal, and the next switch gives it back to the main task with the registers it had, the message in its mailbox.\<close>

theorem main_and_terminal_take_turns:
  "\<exists>tmr' tm. start_tasks ki v regs tmr = Some (3, tmr', tm) \<and> map tk_id (tasks tm) = [1, 2, 3] \<and> run_queues tm = [[1], [2], [], [0]]
    \<and> current_task tm = Some 0 \<and> cpu tm = regs
    \<and> (\<exists>tm1. sleep_task 0 tm = Some tm1 \<and> current_task tm1 = Some 2 \<and> cx_rip (cpu tm1) = ki_task_terminal ki
        \<and> cx_rdi (cpu tm1) = 3 \<and> cx_cr3 (cpu tm1) = cx_cr3 regs
        \<and> (\<exists>tm2. send_message 1 msg tm1 = Some (KSuccess, tm2) \<and> current_task tm2 = Some 2
            \<and> (\<exists>tm3. switch_task ctx tm2 = Some tm3 \<and> current_task tm3 = Some 0 \<and> cpu tm3 = regs
                \<and> tk_messages (tasks tm3 ! 0) = [msg] \<and> tk_context (tasks tm3 ! 2) = ctx
                \<and> run_queues tm3 = [[1], [2], [], [0]])))"
proof -
  let ?tm = "first_tasks ki v regs" and ?tm1 = "main_asleep ki v regs"
  have first: "map tk_id (tasks ?tm) = [1, 2, 3] \<and> run_queues ?tm = [[1], [2], [], [0]] \<and> current_task ?tm = Some 0 \<and> cpu ?tm = regs"
    by (simp add: first_tasks_def task_new_sel task_init_context_keeps current_task_def ub_simps)
  have asleep: "current_task ?tm1 = Some 2 \<and> cx_rip (cpu ?tm1) = ki_task_terminal ki \<and> cx_rdi (cpu ?tm1) = 3
      \<and> cx_cr3 (cpu ?tm1) = cx_cr3 regs"
    by (simp add: main_asleep_def first_tasks_def current_task_def ub_simps task_init_context_def Let_def task_new_sel)
  note wakes = main_wakes [of msg ki v regs ctx]
  show ?thesis
    by (rule exI, rule exI, rule conjI, rule start_tasks_first) (simp only: first asleep main_sleeps option.inject ex_simps wakes simp_thms ex1_eq)
qed

lemma printk_tasks: "printk font text w = Some w' \<Longrightarrow> tw_tm (kw_term w') = tw_tm (kw_term w)"
  by (auto simp: printk_def kernel_put_string_def bind_eq_Some_conv)

lemma for_each_printk_tasks: "for_each (printk font) ts w = Some w' \<Longrightarrow> tw_tm (kw_term w') = tw_tm (kw_term w)"
  by (induction ts arbitrary: w) (auto simp: bind_eq_Some_conv dest: printk_tasks)

text \<open>The loop of the main task starts with these tasks, on the kernel's own page tables.\<close>

lemma kernel_main_tasks:
  assumes "kernel_main_new_stack ki ba hw m0 = Some sk"
  shows "mn_terminal_task (sk_main sk) = 3 \<and> start_memory ki (ba_memory_map ba) m0 = Some (sk_memory sk)
    \<and> mn_tm (sk_main sk) = first_tasks ki (kh_tasks hw) ((kh_registers hw)\<lparr>cx_cr3 := pml4_table (ki_page_tables ki)\<rparr>)"
proof -
  obtain m where m: "start_memory ki (ba_memory_map ba) m0 = Some m" "sk_memory sk = m"
    and s: "mn_terminal_task (sk_main sk) = 3 \<and> mn_tm (sk_main sk) = first_tasks ki (kh_tasks hw) ((kh_registers hw)\<lparr>cx_cr3 := pu_cr3 (ms_paging m)\<rparr>)"
    using assms by (auto simp: kernel_main_new_stack_def start_tasks_first show_volume_image_def mn_tm_def
        dest!: for_each_printk_tasks split: Option.bind_split_asm if_split_asm prod.split_asm)
  have "pu_cr3 (ms_paging m) = pml4_table (ki_page_tables ki)"
    using m(1) by (auto simp: start_memory_def initialize_pagetable_def bind_eq_Some_conv split: if_splits)
  with m s show ?thesis by simp
qed

section \<open>Who has which memory\<close>

lemma put_idt_tss: "put_idt irq attr h st = Some st' \<Longrightarrow> sg_tss st' = sg_tss st"
  by (auto simp: put_idt_def bind_eq_Some_conv)

lemma put_faults_tss: "put_faults handler fs st = Some st' \<Longrightarrow> sg_tss st' = sg_tss st"
  by (induction handler fs st rule: put_faults.induct) (auto simp: bind_eq_Some_conv dest: put_idt_tss)

lemma initialize_interrupt_tss: "initialize_interrupt a handler st = Some st' \<Longrightarrow> sg_tss st' = sg_tss st"
  by (auto simp: initialize_interrupt_def bind_eq_Some_conv dest!: put_idt_tss put_faults_tss)

lemma initialize_segment_tables:
  "initialize_segment a st = Some st' \<Longrightarrow> sg_tss st' = sg_tss st \<and> length (sg_gdt st') = length (sg_gdt st)"
  by (auto simp: initialize_segment_def setup_segments_def arr_set_def bind_eq_Some_conv split: if_splits)

lemma initialize_tss_managed:
  assumes i: "initialize_tss a (st, mm) = Some (st', mm')" and ok: "manager_ok mm"
  shows "managed_frames mm' = managed_frames mm"
proof -
  obtain rsp0 mm1 ist where a: "allocate_stack_area 8 mm = Some (rsp0, mm1)" "allocate_stack_area 8 mm1 = Some (ist, mm')"
    using i by (auto simp: initialize_tss_def bind_eq_Some_conv split: prod.splits)
  from allocate_stack_area_spec [OF ok _ a(1)] have "manager_ok mm1" "managed_frames mm1 = managed_frames mm" by auto
  with allocate_stack_area_spec [OF this(1) _ a(2)] show ?thesis by auto
qed

text \<open>
  C16: after the start of the kernel over a well-formed memory map, the heap of the C library, the stack of
  interrupts in user mode and the stack of the timer are separate runs of frames that the map calls available;
  the TSS points to the upper ends of the two stacks, the break to the heap's first byte, and the frames the
  allocator can still hand out are the rest.\<close>

theorem kernel_memory_partitioned:
  assumes map: "map_ok descs" "available_frames descs \<noteq> {}"
    and len: "length (sg_gdt (ms_seg m0)) = 7" "length (sg_tss (ms_seg m0)) = 26"
    and s: "start_memory ki descs m0 = Some m"
  shows "\<exists>h s1 s2. frame_run h kHeapFrames \<inter> frame_run s1 8 = {} \<and> frame_run h kHeapFrames \<inter> frame_run s2 8 = {}
    \<and> frame_run s1 8 \<inter> frame_run s2 8 = {}
    \<and> frame_run h kHeapFrames \<union> frame_run s1 8 \<union> frame_run s2 8 \<subseteq> available_frames descs - {0}
    \<and> unat (program_break (ms_heap m)) = 4096 * h
    \<and> tss_field 1 (ms_seg m) = frame_address s1 + 0x8000
    \<and> tss_field (7 + 2 * kISTForTimer) (ms_seg m) = frame_address s2 + 0x8000
    \<and> managed_frames (ms_frames m) - used_frames (ms_frames m)
      = available_frames descs - {0} - frame_run h kHeapFrames - frame_run s1 8 - frame_run s2 8"
proof -
  obtain seg1 frames heap seg2 frames2 where seg1: "initialize_segment (ki_gdt ki) (ms_seg m0) = Some seg1"
    and mm: "initialize_memory_manager descs (ms_heap m0) = Some (KSuccess, frames, heap)"
    and seg2: "initialize_tss (ki_tss ki) (seg1, frames) = Some (seg2, frames2)"
    and seg3: "initialize_interrupt (ki_idt ki) (ki_handlers ki) seg2 = Some (ms_seg m)"
    and m: "ms_frames m = frames2" "ms_heap m = heap"
    using s by (auto simp: start_memory_def bind_eq_Some_conv is_error_def split: if_splits)
  from memory_manager_frames [OF map, of "ms_heap m0"] mm obtain h where ok: "manager_ok frames"
    and h: "frame_run h kHeapFrames \<subseteq> available_frames descs - {0}"
      "managed_frames frames - used_frames frames = available_frames descs - {0} - frame_run h kHeapFrames"
      "unat (program_break heap) = 4096 * h" by auto
  have "length (sg_gdt seg1) = 7" "length (sg_tss seg1) = 26" using initialize_segment_tables [OF seg1] len by simp_all
  from initialize_tss_stacks [OF ok this seg2] obtain s1 s2 where
    t: "tss_field 1 seg2 = frame_address s1 + 0x8000" "tss_field (7 + 2 * kISTForTimer) seg2 = frame_address s2 + 0x8000"
    and r: "frame_run s1 8 \<inter> frame_run s2 8 = {}" "frame_run s1 8 \<union> frame_run s2 8 \<subseteq> managed_frames frames - used_frames frames"
      "used_frames frames2 = used_frames frames \<union> frame_run s1 8 \<union> frame_run s2 8" by blast
  have man: "managed_frames frames2 = managed_frames frames" using seg2 ok by (rule initialize_tss_managed)
  have "tss_field i (ms_seg m) = tss_field i seg2" for i by (simp add: tss_field_def initialize_interrupt_tss [OF seg3])
  note tss = this [of 1, unfolded t(1)] this [of "7 + 2 * kISTForTimer", unfolded t(2)]
  have free: "managed_frames (ms_frames m) - used_frames (ms_frames m)
      = available_frames descs - {0} - frame_run h kHeapFrames - frame_run s1 8 - frame_run s2 8"
    unfolding m man r(3) using h(2) by blast
  have apart: "frame_run h kHeapFrames \<inter> frame_run s1 8 = {}" "frame_run h kHeapFrames \<inter> frame_run s2 8 = {}"
    "frame_run h kHeapFrames \<union> frame_run s1 8 \<union> frame_run s2 8 \<subseteq> available_frames descs - {0}"
    using h(1,2) r(2) by blast+
  have break: "unat (program_break (ms_heap m)) = 4096 * h" unfolding m by (rule h(3))
  show ?thesis
    by (rule exI [of _ h], rule exI [of _ s1], rule exI [of _ s2]) (intro conjI apart r(1) tss free break)
qed

section \<open>A start that succeeds\<close>

lemma free_run_of_frames:
  assumes "0 < n" and f: "frame_run s n \<subseteq> managed_frames m - used_frames m"
  shows "free_run m s n"
proof -
  have "s \<in> frame_run s n" "s + (n - 1) \<in> frame_run s n" using assms(1) by (simp_all add: frame_run_def)
  with f have "range_begin m \<le> s" "s + (n - 1) < range_end m" by (auto simp: managed_frames_def)
  with assms(1) f show ?thesis by (auto simp: free_run_def)
qed

lemma allocate_found:
  assumes "manager_ok m" and "0 < n" and "frame_run s n \<subseteq> managed_frames m - used_frames m"
  shows "\<exists>s' m'. allocate n m = Some ((s', KSuccess), m')"
  using allocate_spec [OF assms(1), of n] free_run_of_frames [OF assms(2,3)] by blast

lemma heap_found:
  assumes map: "map_ok descs" "available_frames descs \<noteq> {}" and r: "frame_run s kHeapFrames \<subseteq> available_frames descs - {0}"
  shows "\<exists>m h'. initialize_memory_manager descs h = Some (KSuccess, m, h')"
proof -
  from memory_before_heap [OF map] obtain a m where
    l: "descriptor_loop descs 0 bitmap_manager_new = Some (a, m)" and
    ok: "manager_ok (set_memory_range 1 (unat (a div kBytesPerFrame)) m)" and
    free: "managed_frames (set_memory_range 1 (unat (a div kBytesPerFrame)) m)
      - used_frames (set_memory_range 1 (unat (a div kBytesPerFrame)) m) = available_frames descs - {0}" by auto
  have "0 < kHeapFrames" by (simp add: kHeapFrames_def)
  from allocate_found [OF ok this r [folded free]] obtain s' m' where
    "allocate kHeapFrames (set_memory_range 1 (unat (a div kBytesPerFrame)) m) = Some ((s', KSuccess), m')" by blast
  with l show ?thesis by (simp add: initialize_memory_manager_def initialize_heap_def is_error_def Let_def)
qed

lemma initialize_tss_found:
  assumes ok: "manager_ok mm" and len: "length (sg_gdt st) = 7" "length (sg_tss st) = 26"
    and r: "frame_run s 8 \<subseteq> managed_frames mm - used_frames mm" "frame_run (s + 16) 8 \<subseteq> managed_frames mm - used_frames mm"
  shows "\<exists>p. initialize_tss a (st, mm) = Some p"
proof -
  obtain s1 m1 where a1: "allocate 8 mm = Some ((s1, KSuccess), m1)" using allocate_found [OF ok _ r(1)] by auto
  then have "allocate_stack_area 8 mm = Some (frame_address s1 + of_nat (8 * 4096), m1)"
    by (simp add: allocate_stack_area_def is_error_def)
  from allocate_stack_area_spec [OF ok _ this] obtain s2 where m1: "manager_ok m1" "managed_frames m1 = managed_frames mm"
    "used_frames m1 = used_frames mm \<union> frame_run s2 8" by auto
  have "frame_run s 8 \<inter> frame_run s2 8 = {} \<or> frame_run (s + 16) 8 \<inter> frame_run s2 8 = {}" by (auto simp: frame_run_def)
  then obtain s3 where "frame_run s3 8 \<subseteq> managed_frames m1 - used_frames m1" using r m1 by blast
  then obtain s4 m2 where a2: "allocate 8 m1 = Some ((s4, KSuccess), m2)" using allocate_found [OF m1(1)] by fastforce
  show ?thesis using a1 a2 len
    by (simp add: initialize_tss_def allocate_stack_area_def set_tss_def ub_simps kISTForTimer_def kTSS_def is_error_def)
qed

lemma initialize_interrupt_found:
  assumes "length (sg_idt st) = 256"
  shows "\<exists>st'. initialize_interrupt a handler st = Some st'"
proof -
  have d: "distinct (map fst fault_vectors)" by (simp add: fault_vectors_def)
  have "\<forall>(irq, name) \<in> set fault_vectors. irq < length (sg_idt st')" if "length (sg_idt st') = 256" for st'
    using that by (simp add: fault_vectors_def)
  from put_faults_gates [OF this d] have f: "\<exists>st''. put_faults handler fault_vectors st' = Some st''" if "length (sg_idt st') = 256" for st'
    using that by blast
  let ?gate = "make_idt_attr TypeInterruptGate 0 True"
  obtain st1 where st1: "put_idt (unat (vector_number VecXHCI)) (?gate 0) (handler ''XHCI'') st = Some st1" "length (sg_idt st1) = 256"
    using put_idt_Some [of "unat (vector_number VecXHCI)" st] assms by simp
  obtain st2 where st2: "put_idt (unat (vector_number VecLAPICTimer)) (?gate (of_nat kISTForTimer)) (handler ''LAPICTimer'') st1 = Some st2"
    "length (sg_idt st2) = 256" using put_idt_Some [of "unat (vector_number VecLAPICTimer)" st1] st1(2) by simp
  from f [OF st2(2)] st1(1) st2(1) show ?thesis by (auto simp: initialize_interrupt_def)
qed

text \<open>The memory map of the theory of the memory manager, and tables of zeros.\<close>

definition sample_image :: kernel_image where
  "sample_image = \<lparr>ki_font = replicate 4096 0, ki_page_tables = \<lparr>pml4_table = 0x1000, pdp_table = 0x2000, page_directory = 0x3000\<rparr>,
     ki_gdt = 0x80000, ki_tss = 0x81000, ki_idt = 0x82000, ki_handlers = (\<lambda>_. 0x90000), ki_syscall_entry = 0x91000,
     ki_task_idle = 0x92000, ki_task_terminal = 0x93000\<rparr>"

definition sample_memory :: memory_state where
  "sample_memory = \<lparr>ms_seg = sample_tables, ms_paging = \<lparr>pu_mem = (\<lambda>_. 0), pu_cr3 = 0\<rparr>, ms_frames = free_manager,
     ms_heap = \<lparr>program_break = 0, program_break_end = 0\<rparr>\<rparr>"

lemma sample_map_frames: "map_ok sample_map" "available_frames sample_map = {0..<160} \<union> {256..<65536}"
proof -
  show "map_ok sample_map" by (simp add: map_ok_def sample_map_def frame_first_def frame_last_def kFrameCount_def)
  have "{d \<in> set sample_map. is_available (md_type d)} = {sample_map ! 0, sample_map ! 2}"
    by (auto simp: sample_map_def is_available_def)
  then show "available_frames sample_map = {0..<160} \<union> {256..<65536}"
    by (simp add: available_frames_def) (simp add: sample_map_def frame_first_def frame_last_def)
qed

lemma sample_start: "\<exists>m. start_memory sample_image sample_map sample_memory = Some m"
proof -
  let ?seg = "ms_seg sample_memory"
  have seg: "length (sg_gdt ?seg) = 7" "length (sg_tss ?seg) = 26" "length (sg_idt ?seg) = 256"
    by (simp_all add: sample_memory_def sample_tables_def)
  obtain seg1 where seg1: "initialize_segment (ki_gdt sample_image) ?seg = Some seg1" "sg_idt seg1 = sg_idt ?seg"
    using seg by (auto simp: initialize_segment_def setup_segments_def ub_simps)
  have av: "available_frames sample_map \<noteq> {}" by (simp add: sample_map_frames)
  have "frame_run 256 kHeapFrames \<subseteq> available_frames sample_map - {0}"
    by (auto simp: sample_map_frames frame_run_def kHeapFrames_def)
  from heap_found [OF sample_map_frames(1) av this] obtain mm h where
    mm: "initialize_memory_manager sample_map (ms_heap sample_memory) = Some (KSuccess, mm, h)" by blast
  with memory_manager_frames [OF sample_map_frames(1) av, of "ms_heap sample_memory"] obtain s where ok: "manager_ok mm"
    and s: "frame_run s kHeapFrames \<subseteq> available_frames sample_map - {0}"
    and free: "managed_frames mm - used_frames mm = available_frames sample_map - {0} - frame_run s kHeapFrames" by auto
  have "\<not> (s \<le> 200)"
  proof
    assume "s \<le> 200"
    then have "200 \<in> frame_run s kHeapFrames" by (simp add: frame_run_def kHeapFrames_def)
    with s show False by (auto simp: sample_map_frames)
  qed
  then have low: "frame_run k 8 \<subseteq> managed_frames mm - used_frames mm" if "1 \<le> k" "k \<le> 32" for k
    using that unfolding free sample_map_frames by (auto simp: frame_run_def)
  have "\<exists>p. initialize_tss (ki_tss sample_image) (seg1, mm) = Some p"
    using initialize_segment_tables [OF seg1(1)] seg by (intro initialize_tss_found [OF ok, of _ 1] low) simp_all
  then obtain seg2 mm2 where seg2: "initialize_tss (ki_tss sample_image) (seg1, mm) = Some (seg2, mm2)" by force
  then have "sg_idt seg2 = sg_idt seg1" by (auto simp: initialize_tss_def set_tss_def bind_eq_Some_conv)
  with seg1(2) seg(3) obtain seg3 where "initialize_interrupt (ki_idt sample_image) (ki_handlers sample_image) seg2 = Some seg3"
    using initialize_interrupt_found [of seg2] by auto
  with seg1(1) mm seg2 show ?thesis by (simp add: start_memory_def is_error_def)
qed

theorem kernel_memory_partitioned_witness:
  "\<exists>m h s1 s2. start_memory sample_image sample_map sample_memory = Some m
    \<and> frame_run h kHeapFrames \<inter> (frame_run s1 8 \<union> frame_run s2 8) = {} \<and> frame_run s1 8 \<inter> frame_run s2 8 = {}
    \<and> unat (program_break (ms_heap m)) = 4096 * h \<and> tss_field 1 (ms_seg m) = frame_address s1 + 0x8000
    \<and> managed_frames (ms_frames m) - used_frames (ms_frames m)
      = {1..<160} \<union> {256..<65536} - frame_run h kHeapFrames - frame_run s1 8 - frame_run s2 8"
proof -
  obtain m where m: "start_memory sample_image sample_map sample_memory = Some m" using sample_start by blast
  have av: "available_frames sample_map \<noteq> {}" by (simp add: sample_map_frames)
  have len: "length (sg_gdt (ms_seg sample_memory)) = 7" "length (sg_tss (ms_seg sample_memory)) = 26"
    by (simp_all add: sample_memory_def sample_tables_def)
  have e: "available_frames sample_map - {0} = {1..<160} \<union> {256..<65536}" by (auto simp: sample_map_frames)
  from kernel_memory_partitioned [OF sample_map_frames(1) av len m, unfolded e] obtain h s1 s2 where
    p: "frame_run h kHeapFrames \<inter> frame_run s1 8 = {}" "frame_run h kHeapFrames \<inter> frame_run s2 8 = {}"
      "frame_run s1 8 \<inter> frame_run s2 8 = {}" "unat (program_break (ms_heap m)) = 4096 * h"
      "tss_field 1 (ms_seg m) = frame_address s1 + 0x8000"
      "managed_frames (ms_frames m) - used_frames (ms_frames m)
        = {1..<160} \<union> {256..<65536} - frame_run h kHeapFrames - frame_run s1 8 - frame_run s2 8" by blast
  have "frame_run h kHeapFrames \<inter> (frame_run s1 8 \<union> frame_run s2 8) = {}" unfolding Int_Un_distrib p(1,2) by simp
  with m p(3-6) show ?thesis by blast
qed

end
