(* ===== verification/Xhci_Blocks.thy ===== *)
theory Xhci_Blocks
  imports Xhci_Registers
begin

text \<open>
  Where the registers of the controller are: the register blocks of \<open>usb/xhci/registers.hpp\<close>, the arrays of
  \<open>register.hpp\<close>, and the accessors of \<open>Controller\<close> in \<open>usb/xhci/xhci.hpp\<close> that put them together.

  A block is the list of its members in the order of the packed structure, each with its size in bytes;
  an array has the address of its first element, the number and the size of its elements.
\<close>

section \<open>Blocks\<close>

type_synonym reg_block = "(string \<times> nat) list"

fun block_size :: "reg_block \<Rightarrow> nat" where
  "block_size [] = 0"
| "block_size ((r, n) # b) = n + block_size b"

fun reg_offset :: "reg_block \<Rightarrow> string \<Rightarrow> nat option" where
  "reg_offset [] name = None"
| "reg_offset ((r, n) # b) name = (if r = name then Some 0 else map_option ((+) n) (reg_offset b name))"

definition capability_registers :: reg_block where
  "capability_registers =
    [(''CAPLENGTH'', 1), (''reserved1'', 1), (''HCIVERSION'', 2), (''HCSPARAMS1'', 4), (''HCSPARAMS2'', 4),
     (''HCSPARAMS3'', 4), (''HCCPARAMS1'', 4), (''DBOFF'', 4), (''RTSOFF'', 4), (''HCCPARAMS2'', 4)]"

definition operational_registers :: reg_block where
  "operational_registers =
    [(''USBCMD'', 4), (''USBSTS'', 4), (''PAGESIZE'', 4), (''reserved1'', 2 * 4), (''DNCTRL'', 4), (''CRCR'', 8),
     (''reserved2'', 4 * 4), (''DCBAAP'', 8), (''CONFIG'', 4)]"

definition port_register_set :: reg_block where
  "port_register_set = [(''PORTSC'', 4), (''PORTPMSC'', 4), (''PORTLI'', 4), (''PORTHLPMC'', 4)]"

definition interrupter_register_set :: reg_block where
  "interrupter_register_set =
    [(''IMAN'', 4), (''IMOD'', 4), (''ERSTSZ'', 4), (''reserved'', 4), (''ERSTBA'', 8), (''ERDP'', 8)]"

definition doorbell_register :: reg_block where
  "doorbell_register = [(''reg_'', 4)]"

section \<open>Arrays\<close>

record array_wrapper =
  aw_array :: u64
  aw_size :: nat
  aw_value :: reg_block

definition array_wrapper_new :: "reg_block \<Rightarrow> u64 \<Rightarrow> nat \<Rightarrow> array_wrapper" where
  "array_wrapper_new b base n = \<lparr>aw_array = base, aw_size = n, aw_value = b\<rparr>"

definition aw_begin :: "array_wrapper \<Rightarrow> u64" where
  "aw_begin a = aw_array a"

definition aw_end :: "array_wrapper \<Rightarrow> u64" where
  "aw_end a = aw_array a + of_nat (aw_size a * block_size (aw_value a))"

definition aw_at :: "array_wrapper \<Rightarrow> u64 \<Rightarrow> u64" where
  "aw_at a index = aw_array a + index * of_nat (block_size (aw_value a))"

text \<open>The address of a member of an element.\<close>

definition reg_at :: "array_wrapper \<Rightarrow> u64 \<Rightarrow> string \<Rightarrow> u64 option" where
  "reg_at a i name = map_option (\<lambda>off. aw_at a i + of_nat off) (reg_offset (aw_value a) name)"

section \<open>The controller's registers\<close>

record controller_layout =
  cl_mmio_base :: u64
  cl_op :: u64
  cl_max_ports :: u8

text \<open>The constructor; \<open>caplength\<close> and \<open>hcsparams1\<close> are what the two registers read.\<close>

definition controller_at :: "u64 \<Rightarrow> u8 \<Rightarrow> u32 \<Rightarrow> controller_layout" where
  "controller_at mmio_base caplength hcsparams1 =
    \<lparr>cl_mmio_base = mmio_base, cl_op = mmio_base + ucast caplength,
     cl_max_ports = ucast (field_get hcsparams1_layout ''max_ports'' hcsparams1)\<rparr>"

definition interrupter_register_sets :: "u64 \<Rightarrow> u32 \<Rightarrow> array_wrapper" where
  "interrupter_register_sets mmio_base rtsoff =
    array_wrapper_new interrupter_register_set (mmio_base + ucast (rtsoff_offset rtsoff) + 0x20) 1024"

definition port_register_sets :: "controller_layout \<Rightarrow> array_wrapper" where
  "port_register_sets c = array_wrapper_new port_register_set (cl_op c + 0x400) (unat (cl_max_ports c))"

definition doorbell_registers :: "u64 \<Rightarrow> u32 \<Rightarrow> array_wrapper" where
  "doorbell_registers mmio_base dboff = array_wrapper_new doorbell_register (mmio_base + ucast (dboff_offset dboff)) 256"

definition doorbell_register_at :: "u64 \<Rightarrow> u32 \<Rightarrow> u8 \<Rightarrow> u64" where
  "doorbell_register_at mmio_base dboff index = aw_at (doorbell_registers mmio_base dboff) (ucast index)"

text \<open>\<open>PortAt\<close>: the register set of a port; ports are counted from 1.\<close>

definition port_at :: "controller_layout \<Rightarrow> u8 \<Rightarrow> u64" where
  "port_at c port_num = aw_at (port_register_sets c) (of_int (uint port_num - 1))"

section \<open>Registers do not overlap\<close>

fun member_size :: "reg_block \<Rightarrow> string \<Rightarrow> nat option" where
  "member_size [] name = None"
| "member_size ((r, n) # b) name = (if r = name then Some n else member_size b name)"

lemma reg_offset_within:
  "reg_offset b r = Some x \<Longrightarrow> member_size b r = Some n \<Longrightarrow> x + n \<le> block_size b"
proof (induction b arbitrary: x)
  case (Cons a b)
  then show ?case by (cases a; cases "fst a = r") (auto simp: add.assoc)
qed simp

lemma members_apart:
  "reg_offset b r = Some x \<Longrightarrow> member_size b r = Some n \<Longrightarrow> reg_offset b s = Some y \<Longrightarrow> member_size b s = Some m \<Longrightarrow>
    r \<noteq> s \<Longrightarrow> x + n \<le> y \<or> y + m \<le> x"
proof (induction b arbitrary: x y)
  case (Cons a b)
  obtain t k where a: "a = (t, k)" by (cases a)
  consider "t = r" | "t = s" | "t \<noteq> r" "t \<noteq> s" by blast
  then show ?case
  proof cases
    case 3
    with Cons.prems a obtain x' y' where xy: "x = k + x'" "y = k + y'"
      and off: "reg_offset b r = Some x'" "reg_offset b s = Some y'" by auto
    from 3 Cons.prems a have "x' + n \<le> y' \<or> y' + m \<le> x'" by (intro Cons.IH off) simp_all
    with xy show ?thesis by linarith
  qed (use Cons.prems a in auto)
qed simp

text \<open>The offsets the specification of the controller gives.\<close>

lemma register_offsets:
  "map (reg_offset capability_registers) [''CAPLENGTH'', ''HCIVERSION'', ''HCSPARAMS1'', ''HCCPARAMS1'', ''DBOFF'', ''RTSOFF'']
    = map Some [0x00, 0x02, 0x04, 0x10, 0x14, 0x18]"
  "map (reg_offset operational_registers) [''USBCMD'', ''USBSTS'', ''PAGESIZE'', ''DNCTRL'', ''CRCR'', ''DCBAAP'', ''CONFIG'']
    = map Some [0x00, 0x04, 0x08, 0x14, 0x18, 0x30, 0x38]"
  "map (reg_offset port_register_set) [''PORTSC'', ''PORTPMSC'', ''PORTLI'', ''PORTHLPMC''] = map Some [0x0, 0x4, 0x8, 0xC]"
  "map (reg_offset interrupter_register_set) [''IMAN'', ''IMOD'', ''ERSTSZ'', ''ERSTBA'', ''ERDP''] = map Some [0x00, 0x04, 0x08, 0x10, 0x18]"
  "map block_size [capability_registers, port_register_set, interrupter_register_set, doorbell_register] = [0x20, 0x10, 0x20, 0x4]"
  by (simp_all add: capability_registers_def operational_registers_def port_register_set_def
      interrupter_register_set_def doorbell_register_def)

lemma port_byte:
  assumes "1 \<le> unat p"
  shows "port_at c p + of_nat j = cl_op c + of_nat (0x400 + 16 * (unat p - 1) + j)"
proof -
  have "uint p - 1 = int (unat p - 1)" using assms by (simp add: of_nat_diff)
  then have "of_int (uint p - 1) = (of_nat (unat p - 1) :: u64)" by (simp only: of_int_of_nat_eq)
  then show ?thesis
    by (simp add: port_at_def aw_at_def port_register_sets_def array_wrapper_new_def port_register_set_def)
qed

lemma unat_port_byte:
  assumes "unat (cl_op c) + 0x400 + 16 * 256 \<le> 2 ^ 64" and "1 \<le> unat p" and "j < 16"
  shows "unat (port_at c p + of_nat j) = unat (cl_op c) + (0x400 + 16 * (unat p - 1) + j)"
proof -
  let ?o = "0x400 + 16 * (unat p - 1) + j"
  have "unat p < 256" using unsigned_less [of p] by simp
  with assms have o: "unat (cl_op c) + ?o < 2 ^ LENGTH(64)" by simp
  then have "?o < 2 ^ LENGTH(64)" by linarith
  then have "unat (of_nat ?o :: u64) = ?o" unfolding unsigned_of_nat take_bit_eq_mod by (simp only: mod_less of_nat_id)
  with o show ?thesis unfolding port_byte [OF assms(2)] by (simp only: unat_add_lem [THEN iffD1])
qed

text \<open>
  Two registers of ports that share a byte are the same register of the same port, as long as the port
  registers do not reach past the end of the address space.
\<close>

theorem port_registers_apart:
  assumes base: "unat (cl_op c) + 0x400 + 16 * 256 \<le> 2 ^ 64" and pq: "1 \<le> unat p" "1 \<le> unat q"
    and r: "reg_offset port_register_set r = Some x" "member_size port_register_set r = Some n" "k < n"
    and s: "reg_offset port_register_set s = Some y" "member_size port_register_set s = Some m" "l < m"
    and same: "port_at c p + of_nat (x + k) = port_at c q + of_nat (y + l)"
  shows "p = q \<and> r = s"
proof -
  have sz: "block_size port_register_set = 16" by (simp add: port_register_set_def)
  have in16: "x + k < 16" "y + l < 16"
    using reg_offset_within [OF r(1,2)] reg_offset_within [OF s(1,2)] r(3) s(3) unfolding sz by simp_all
  have eq: "16 * (unat p - 1) + (x + k) = 16 * (unat q - 1) + (y + l)"
    using unat_port_byte [OF base pq(1) in16(1)] unat_port_byte [OF base pq(2) in16(2)] unfolding same by linarith
  then have "(16 * (unat p - 1) + (x + k)) div 16 = (16 * (unat q - 1) + (y + l)) div 16" by (rule arg_cong)
  then have pred: "unat p - 1 = unat q - 1" using in16 by simp
  from eq have off: "x + k = y + l" unfolding pred by (rule add_left_imp_eq)
  from pred pq have u: "unat p = unat q" by linarith
  have "r = s"
  proof (rule ccontr)
    assume "r \<noteq> s"
    from members_apart [OF r(1,2) s(1,2) this] off r(3) s(3) show False by linarith
  qed
  moreover have "p = q" using u by (rule unsigned_word_eqI)
  ultimately show ?thesis by simp
qed

theorem port_registers_apart_witness:
  "port_at (controller_at 0xfebf0000 0x20 0x04000000) 2 + of_nat (0 + 1) = 0xfebf0431
    \<and> (\<forall>l < 4. port_at (controller_at 0xfebf0000 0x20 0x04000000) 2 + of_nat (0 + 1)
        \<noteq> port_at (controller_at 0xfebf0000 0x20 0x04000000) 3 + of_nat (0 + l))"
proof -
  let ?c = "controller_at 0xfebf0000 0x20 0x04000000"
  have base: "unat (cl_op ?c) + 0x400 + 16 * 256 \<le> 2 ^ 64" by (simp add: controller_at_def)
  have r: "reg_offset port_register_set ''PORTSC'' = Some 0" "member_size port_register_set ''PORTSC'' = Some 4"
    by (simp_all add: port_register_set_def)
  have "port_at ?c 2 + of_nat (0 + 1) = 0xfebf0431"
    by (simp add: port_at_def aw_at_def port_register_sets_def array_wrapper_new_def port_register_set_def controller_at_def)
  moreover have "port_at ?c 2 + of_nat (0 + 1) \<noteq> port_at ?c 3 + of_nat (0 + l)" if "l < 4" for l
    using port_registers_apart [OF base _ _ r _ r that, of 2 3 1] by auto
  ultimately show ?thesis by blast
qed

end
