(* ===== verification/Page_Walk.thy ===== *)
theory Page_Walk
  imports Page_Init
begin

unbundle bit_operations_syntax

text \<open>
  What \<open>SetupPageMaps\<close> of \<open>Kernel/paging.cpp\<close> means to the processor: every page of the region is there
  when it is looked up, and every page that was there before still is.

  The tables in memory are typed: \<open>lev f = Some l\<close> says that frame \<open>f\<close> holds a table of level \<open>l\<close>,
  or is a page when \<open>l = 0\<close>.  Only the upper half of the top table is; the lower half belongs to
  the tables of \<open>Page_Init\<close>, which applications share.
\<close>

section \<open>Cells of frames\<close>

type_synonym frame_levels = "nat \<Rightarrow> nat option"

definition frame_of :: "u64 \<Rightarrow> nat" where
  "frame_of x = unat x div 4096"

definition cell_at :: "nat \<Rightarrow> nat \<Rightarrow> u64" where
  "cell_at f i = entry_address (frame_address f) (of_nat i)"

definition walk_entry :: "nat \<Rightarrow> nat \<Rightarrow> bool" where
  "walk_entry l i \<longleftrightarrow> 1 \<le> l \<and> l \<le> 4 \<and> i < 512 \<and> (l < 4 \<or> 256 \<le> i)"

lemma unat_frame_address: "f < kFrameCount \<Longrightarrow> unat (frame_address f) = 4096 * f"
  using unat_small_add [of 0 "4096 * f"]
  by (simp add: frame_address_def kFrameCount_def kBytesPerFrame_def mult.commute)

lemma unat_cell: "f < kFrameCount \<Longrightarrow> i < 512 \<Longrightarrow> unat (cell_at f i) = 4096 * f + 8 * i"
  unfolding cell_at_def by (subst unat_entry) (simp_all add: unat_frame_address kFrameCount_def)

lemma frame_of_cell: "f < kFrameCount \<Longrightarrow> i < 512 \<Longrightarrow> frame_of (cell_at f i) = f"
  by (simp add: frame_of_def unat_cell)

lemma frame_of_address [simp]: "f < kFrameCount \<Longrightarrow> frame_of (frame_address f) = f"
  by (simp add: frame_of_def unat_frame_address)

lemma cell_at_inj:
  assumes "f < kFrameCount" and "i < 512" and "g < kFrameCount" and "j < 512" and "cell_at f i = cell_at g j"
  shows "f = g \<and> i = j"
proof -
  have "4096 * f + 8 * i = 4096 * g + 8 * j" using unat_cell [OF assms(1,2)] unat_cell [OF assms(3,4)] assms(5) by simp
  moreover from this have "(4096 * f + 8 * i) div 4096 = (4096 * g + 8 * j) div 4096" by simp
  then have "f = g" using assms(2,4) by simp
  ultimately show ?thesis by simp
qed

lemma walk_entryD: "walk_entry l i \<Longrightarrow> i < 512" "walk_entry l i \<Longrightarrow> 1 \<le> l" "walk_entry l i \<Longrightarrow> l \<le> 4"
  by (simp_all add: walk_entry_def)

section \<open>Typed tables\<close>

definition pme_writable :: "u64 \<Rightarrow> bool" where
  "pme_writable e \<longleftrightarrow> bf_get 1 1 e \<noteq> 0"

definition pme_user :: "u64 \<Rightarrow> bool" where
  "pme_user e \<longleftrightarrow> bf_get 2 1 e \<noteq> 0"

definition entry_typed :: "frame_levels \<Rightarrow> nat \<Rightarrow> u64 \<Rightarrow> bool" where
  "entry_typed lev l e \<longleftrightarrow>
    (2 \<le> l \<longrightarrow> \<not> pme_huge e) \<and> (pme_present e \<longrightarrow> lev (frame_of (pme_pointer e)) = Some (l - 1))"

definition typed :: "frame_levels \<Rightarrow> paging_state \<Rightarrow> bool" where
  "typed lev st \<longleftrightarrow> manager_ok (pt_frames st)
    \<and> (\<forall>f l. lev f = Some l \<longrightarrow> f < kFrameCount \<and> f \<in> used_frames (pt_frames st)
        \<and> (\<forall>i. walk_entry l i \<longrightarrow> entry_typed lev l (pt_mem st (cell_at f i))))"

text \<open>What stays of an entry and of a state.\<close>

definition entry_grows :: "u64 \<Rightarrow> u64 \<Rightarrow> bool" where
  "entry_grows e e' \<longleftrightarrow>
    (pme_present e \<longrightarrow> pme_present e' \<and> pme_pointer e' = pme_pointer e \<and> (pme_huge e' \<longleftrightarrow> pme_huge e)
      \<and> (pme_writable e \<longrightarrow> pme_writable e') \<and> (pme_user e \<longrightarrow> pme_user e'))"

definition typed_cell :: "frame_levels \<Rightarrow> u64 \<Rightarrow> bool" where
  "typed_cell lev x \<longleftrightarrow> (\<exists>f l i. lev f = Some l \<and> walk_entry l i \<and> x = cell_at f i)"

definition grows :: "frame_levels \<Rightarrow> paging_state \<Rightarrow> frame_levels \<Rightarrow> paging_state \<Rightarrow> bool" where
  "grows lev st lev' st' \<longleftrightarrow> lev \<subseteq>\<^sub>m lev' \<and> used_frames (pt_frames st) \<subseteq> used_frames (pt_frames st')
    \<and> (\<forall>x. frame_of x \<in> used_frames (pt_frames st) \<longrightarrow>
        (if typed_cell lev x then entry_grows (pt_mem st x) (pt_mem st' x) else pt_mem st' x = pt_mem st x))
    \<and> (\<forall>f l. lev' f = Some l \<and> lev f = None \<longrightarrow> f \<notin> used_frames (pt_frames st))"

lemma entry_grows_refl: "entry_grows e e"
  by (simp add: entry_grows_def)

lemma entry_grows_trans: "entry_grows e e1 \<Longrightarrow> entry_grows e1 e2 \<Longrightarrow> entry_grows e e2"
  by (simp add: entry_grows_def)

lemma grows_refl: "grows lev st lev st"
  by (auto simp: grows_def entry_grows_refl)

lemma typed_cell_mono: "typed_cell lev x \<Longrightarrow> lev \<subseteq>\<^sub>m lev' \<Longrightarrow> typed_cell lev' x"
  unfolding typed_cell_def map_le_def by (metis domI)

lemma typedD:
  assumes "typed lev st" and "lev f = Some l"
  shows "f < kFrameCount" "f \<in> used_frames (pt_frames st)"
    "walk_entry l i \<Longrightarrow> entry_typed lev l (pt_mem st (cell_at f i))"
  using assms by (auto simp: typed_def)

lemma grows_lev: "grows lev st lev' st' \<Longrightarrow> lev f = Some l \<Longrightarrow> lev' f = Some l"
  unfolding grows_def map_le_def by force

lemma grows_mem:
  assumes "grows lev st lev' st'" and "frame_of x \<in> used_frames (pt_frames st)"
  shows "typed_cell lev x \<Longrightarrow> entry_grows (pt_mem st x) (pt_mem st' x)"
    and "\<not> typed_cell lev x \<Longrightarrow> pt_mem st' x = pt_mem st x"
  using assms by (auto simp: grows_def split: if_splits)

lemma grows_trans:
  assumes g: "grows lev st lev1 st1" "grows lev1 st1 lev2 st2" and t: "typed lev1 st1"
  shows "grows lev st lev2 st2"
  unfolding grows_def
proof (intro conjI allI impI)
  show "lev \<subseteq>\<^sub>m lev2" "used_frames (pt_frames st) \<subseteq> used_frames (pt_frames st2)"
    using g map_le_trans unfolding grows_def by blast+
next
  fix x assume x: "frame_of x \<in> used_frames (pt_frames st)"
  then have x1: "frame_of x \<in> used_frames (pt_frames st1)" using g(1) unfolding grows_def by blast
  show "if typed_cell lev x then entry_grows (pt_mem st x) (pt_mem st2 x) else pt_mem st2 x = pt_mem st x"
  proof (cases "typed_cell lev x")
    case True
    then have "typed_cell lev1 x" using g(1) typed_cell_mono unfolding grows_def by blast
    with True show ?thesis
      using entry_grows_trans [OF grows_mem(1) [OF g(1) x] grows_mem(1) [OF g(2) x1]] by simp
  next
    case False
    have "\<not> typed_cell lev1 x"
    proof
      assume "typed_cell lev1 x"
      then obtain f l i where c: "lev1 f = Some l" "walk_entry l i" "x = cell_at f i" unfolding typed_cell_def by blast
      have "frame_of x = f" using c typedD(1) [OF t c(1)] by (simp add: frame_of_cell walk_entryD)
      then have "lev f \<noteq> None" using g(1) c(1) x unfolding grows_def by auto
      then have "lev f = Some l" using g(1) c(1) unfolding grows_def map_le_def by force
      with c False show False unfolding typed_cell_def by blast
    qed
    with False show ?thesis using grows_mem(2) [OF g(1) x] grows_mem(2) [OF g(2) x1] by simp
  qed
next
  fix f l assume f: "lev2 f = Some l \<and> lev f = None"
  show "f \<notin> used_frames (pt_frames st)"
  proof (cases "lev1 f")
    case None
    then show ?thesis using f g unfolding grows_def by blast
  next
    case (Some k)
    then show ?thesis using f g(1) unfolding grows_def by blast
  qed
qed

text \<open>Storing an entry of its type into a typed table.\<close>

lemma typed_update:
  assumes t: "typed lev st" and f: "lev f = Some l" "walk_entry l i"
    and e: "entry_typed lev l (F (pt_mem st (cell_at f i)))"
    and g: "entry_grows (pt_mem st (cell_at f i)) (F (pt_mem st (cell_at f i)))"
  shows "typed lev (update_entry (cell_at f i) F st)" and "grows lev st lev (update_entry (cell_at f i) F st)"
proof -
  have own: "h = f \<and> j = i \<and> k = l" if "lev h = Some k" "walk_entry k j" "cell_at h j = cell_at f i" for h k j
    using f(1) that(1) cell_at_inj [OF typedD(1) [OF t that(1)] walk_entryD(1) [OF that(2)] typedD(1) [OF t f(1)] walk_entryD(1) [OF f(2)] that(3)] by simp
  show "typed lev (update_entry (cell_at f i) F st)"
    using t e own f(1) unfolding typed_def by (auto simp: update_entry_def)
  show "grows lev st lev (update_entry (cell_at f i) F st)"
    using g f unfolding grows_def typed_cell_def by (auto simp: update_entry_def entry_grows_refl)
qed

section \<open>A new table\<close>

lemma new_page_map_fresh:
  assumes "typed lev st" and "new_page_map st = Some ((t, KSuccess), st1)"
  shows "\<exists>f. t = frame_address f \<and> f < kFrameCount \<and> f \<notin> used_frames (pt_frames st)
    \<and> used_frames (pt_frames st1) = insert f (used_frames (pt_frames st)) \<and> manager_ok (pt_frames st1)
    \<and> pt_mem st1 = (\<lambda>a. if a - frame_address f < 4096 then 0 else pt_mem st a)"
proof -
  have ok: "manager_ok (pt_frames st)" using assms(1) by (simp add: typed_def)
  obtain s m where a: "allocate 1 (pt_frames st) = Some ((s, KSuccess), m)" and
    r: "t = frame_address s" "st1 = st\<lparr>pt_frames := m, pt_mem := (\<lambda>a. if a - t < 4096 then 0 else pt_mem st a)\<rparr>"
    using assms(2) by (auto simp: new_page_map_def is_error_def Let_def bind_eq_Some_conv split: if_splits)
  have f: "manager_ok m" "frame_run s 1 \<subseteq> managed_frames (pt_frames st)" "frame_run s 1 \<inter> used_frames (pt_frames st) = {}"
    "used_frames m = used_frames (pt_frames st) \<union> frame_run s 1"
    using fa.alloc_fresh [OF ok _ a] by simp_all
  have "s < kFrameCount" using f(2) ok by (auto simp: frame_run_def managed_frames_def manager_ok_def)
  then show ?thesis using f r by (intro exI [of _ s]) (auto simp: frame_run_def)
qed

lemma in_frame:
  assumes "f < kFrameCount"
  shows "x - frame_address f < 4096 \<longleftrightarrow> frame_of x = f"
proof -
  have u: "unat (frame_address f) = 4096 * f" "4096 * f < 2 ^ 37"
    using assms unat_frame_address by (simp_all add: kFrameCount_def)
  have l: "x - frame_address f < 4096 \<longleftrightarrow> unat (x - frame_address f) < 4096" by (simp add: word_less_nat_alt)
  have d: "unat x = 4096 * frame_of x + unat x mod 4096" "unat x mod 4096 < 4096" by (simp_all add: frame_of_def)
  show ?thesis
  proof (cases "4096 * f \<le> unat x")
    case True
    then have "unat (x - frame_address f) = unat x - 4096 * f" using u by (subst unat_sub_no_wrap) simp_all
    moreover have "unat x - 4096 * f < 4096 \<longleftrightarrow> frame_of x = f" using d True by linarith
    ultimately show ?thesis using l by simp
  next
    case False
    then have "unat (x - frame_address f) = 2 ^ 64 + unat x - 4096 * f"
      using u by (simp add: unat_sub_if' word_le_nat_alt)
    then have "\<not> unat (x - frame_address f) < 4096" using u(2) by simp
    moreover have "frame_of x \<noteq> f" using d False by auto
    ultimately show ?thesis using l by simp
  qed
qed

text \<open>A page map that is taken from the allocator becomes a table of any level, or a page.\<close>

lemma new_page_map_typed:
  assumes t: "typed lev st" and n: "new_page_map st = Some ((t, KSuccess), st1)" and l: "l \<le> 3"
  shows "\<exists>lev1. typed lev1 st1 \<and> grows lev st lev1 st1 \<and> lev1 (frame_of t) = Some l
    \<and> (\<exists>f < kFrameCount. t = frame_address f)
    \<and> (\<forall>x. frame_of x \<in> used_frames (pt_frames st) \<longrightarrow> pt_mem st1 x = pt_mem st x)"
proof -
  obtain f where f: "t = frame_address f" "f < kFrameCount" "f \<notin> used_frames (pt_frames st)"
    "used_frames (pt_frames st1) = insert f (used_frames (pt_frames st))" "manager_ok (pt_frames st1)"
    and m: "pt_mem st1 = (\<lambda>a. if frame_of a = f then 0 else pt_mem st a)"
    using new_page_map_fresh [OF t n] by (auto simp: in_frame)
  have none: "lev f = None" using typedD(2) [OF t] f(3) by fastforce
  have typed1: "typed (lev(f \<mapsto> l)) st1"
    unfolding typed_def
  proof (intro conjI allI impI)
    fix h k i assume h: "(lev(f \<mapsto> l)) h = Some k" and i: "walk_entry k i"
    show "entry_typed (lev(f \<mapsto> l)) k (pt_mem st1 (cell_at h i))"
    proof (cases "h = f")
      case True
      then show ?thesis using f(2) i by (simp add: m frame_of_cell walk_entryD entry_typed_def flag_set)
    next
      case False
      then have k: "lev h = Some k" using h by simp
      have e: "entry_typed lev k (pt_mem st (cell_at h i))" by (rule typedD(3) [OF t k i])
      have "frame_of (cell_at h i) \<noteq> f" using False typedD(1) [OF t k] i by (simp add: frame_of_cell walk_entryD)
      then show ?thesis using e none by (auto simp: m entry_typed_def)
    qed
  qed (use f t in \<open>auto simp: typed_def split: if_splits\<close>)
  have "grows lev st (lev(f \<mapsto> l)) st1"
    unfolding grows_def using f none by (auto simp: map_le_def m entry_grows_refl split: if_splits)
  with typed1 f show ?thesis by (intro exI [of _ "lev(f \<mapsto> l)"]) (auto simp: m)
qed

text \<open>The entry the loop leaves behind for a child \<open>c\<close>.\<close>

definition open_entry :: "u64 \<Rightarrow> u64 \<Rightarrow> bool" where
  "open_entry c e \<longleftrightarrow> pme_present e \<and> pme_writable e \<and> pme_user e \<and> pme_pointer e = c"

lemma set_flags:
  "pme_present (pme_set_user (pme_set_writable e)) = pme_present e"
  "pme_pointer (pme_set_user (pme_set_writable e)) = pme_pointer e"
  "pme_huge (pme_set_user (pme_set_writable e)) = pme_huge e"
  "pme_writable (pme_set_user (pme_set_writable e))" "pme_user (pme_set_user (pme_set_writable e))"
  by (simp_all add: pme_present_def pme_pointer_def pme_huge_def pme_writable_def pme_user_def
      pme_set_user_def pme_set_writable_def take_bit_eq_mod)

lemma set_child:
  "pme_present (pme_set_present (pme_set_pointer c e))"
  "pme_huge (pme_set_present (pme_set_pointer c e)) = pme_huge e"
  by (simp_all add: pme_present_def pme_huge_def pme_set_present_def pme_set_pointer_def take_bit_eq_mod)

lemma pme_pointer_set:
  assumes "g < kFrameCount"
  shows "pme_pointer (pme_set_present (pme_set_pointer (frame_address g) e)) = frame_address g"
proof -
  have "unat (drop_bit 12 (frame_address g)) = g"
    by (simp only: unat_drop_bit_eq unat_frame_address [OF assms]) (simp add: drop_bit_eq_div)
  then have "take_bit 40 (drop_bit 12 (frame_address g)) = drop_bit 12 (frame_address g)"
    using assms by (intro take_bit_small) (simp add: kFrameCount_def)
  then have "pme_pointer (pme_set_present (pme_set_pointer (frame_address g) e)) = push_bit 12 (drop_bit 12 (frame_address g))"
    by (simp add: pme_pointer_def pme_set_present_def pme_set_pointer_def)
  also have "\<dots> = frame_address g"
  proof -
    have "frame_address g = push_bit 12 (of_nat g)" by (simp add: frame_address_def kBytesPerFrame_def push_bit_eq_mult)
    then show ?thesis by (intro bit_word_eqI) (auto simp: bit_simps)
  qed
  finally show ?thesis .
qed

lemma pme_pointer_frame:
  assumes "frame_of (pme_pointer e) < kFrameCount"
  shows "pme_pointer e = frame_address (frame_of (pme_pointer e))"
proof -
  have "unat (pme_pointer e) = unat (bf_get 12 40 e) * 4096"
    unfolding pme_pointer_def using unat_bf_get_less [of 12 40 e] by (subst shift_left_unat) simp_all
  then have "unat (pme_pointer e) = 4096 * frame_of (pme_pointer e)" by (simp add: frame_of_def)
  also have "\<dots> = unat (frame_address (frame_of (pme_pointer e)))" using unat_frame_address [OF assms] by simp
  finally show ?thesis by (rule unsigned_word_eqI)
qed

lemma update_twice: "update_entry a F (update_entry a G st) = update_entry a (\<lambda>e. F (G e)) st"
  by (simp add: update_entry_def)

lemma opened_entry:
  assumes t: "typed lev st" and f: "lev f = Some l" "walk_entry l i"
    and s: "set_new_page_map_if_not_present (cell_at f i) st = Some ((c, KSuccess), st1)"
    and st2: "st2 = update_entry (cell_at f i) pme_set_user (update_entry (cell_at f i) pme_set_writable st1)"
  shows "\<exists>lev2 g. typed lev2 st2 \<and> grows lev st lev2 st2 \<and> lev2 g = Some (l - 1) \<and> c = frame_address g
    \<and> g < kFrameCount \<and> open_entry c (pt_mem st2 (cell_at f i))"
proof (cases "pme_present (pt_mem st (cell_at f i))")
  case True
  let ?e = "pt_mem st (cell_at f i)"
  have eq: "c = pme_pointer ?e" "st2 = update_entry (cell_at f i) (\<lambda>e. pme_set_user (pme_set_writable e)) st"
    using s True by (auto simp: set_new_page_map_if_not_present_def st2 update_twice)
  have e: "entry_typed lev l ?e" by (rule typedD(3) [OF t f])
  then have g: "lev (frame_of c) = Some (l - 1)" using True eq(1) by (simp add: entry_typed_def)
  have e': "entry_typed lev l (pme_set_user (pme_set_writable ?e))" using e by (simp add: entry_typed_def set_flags)
  have "entry_grows ?e (pme_set_user (pme_set_writable ?e))" by (simp add: entry_grows_def set_flags)
  note u = typed_update [of lev st f l i "\<lambda>e. pme_set_user (pme_set_writable e)", OF t f e' this]
  have "open_entry c (pt_mem st2 (cell_at f i))"
    using True eq by (simp add: open_entry_def update_entry_def set_flags)
  moreover have "c = frame_address (frame_of c)"
    unfolding eq(1) using typedD(1) [OF t g] eq(1) by (intro pme_pointer_frame) simp
  ultimately show ?thesis using u g typedD(1) [OF t g] unfolding eq(2) by blast
next
  case False
  let ?F = "\<lambda>e. pme_set_user (pme_set_writable (pme_set_present (pme_set_pointer c e)))"
  obtain child e0 st0 where r: "new_page_map st = Some ((child, e0), st0)"
    using s False by (auto simp: set_new_page_map_if_not_present_def bind_eq_Some_conv)
  then have "\<not> is_error e0" using s False
    by (cases "is_error e0") (auto simp: set_new_page_map_if_not_present_def)
  with r s False have n: "new_page_map st = Some ((c, KSuccess), st0)" and eq: "st2 = update_entry (cell_at f i) ?F st0"
    by (auto simp: set_new_page_map_if_not_present_def st2 update_twice is_error_def)
  have "l - 1 \<le> 3" using walk_entryD(3) [OF f(2)] by simp
  from new_page_map_typed [OF t n this] obtain lev1 g where t1: "typed lev1 st0" "grows lev st lev1 st0"
    "lev1 (frame_of c) = Some (l - 1)" and g: "c = frame_address g" "g < kFrameCount"
    and same: "\<forall>x. frame_of x \<in> used_frames (pt_frames st) \<longrightarrow> pt_mem st0 x = pt_mem st x" by blast
  have "frame_of (cell_at f i) \<in> used_frames (pt_frames st)"
    using typedD(1,2) [OF t f(1)] walk_entryD(1) [OF f(2)] by (simp add: frame_of_cell)
  then have e0: "pt_mem st0 (cell_at f i) = pt_mem st (cell_at f i)" using same by blast
  have f1: "lev1 f = Some l" by (rule grows_lev [OF t1(2) f(1)])
  have "\<not> (2 \<le> l \<and> pme_huge (pt_mem st (cell_at f i)))" using typedD(3) [OF t f] by (simp add: entry_typed_def)
  then have e': "entry_typed lev1 l (?F (pt_mem st0 (cell_at f i)))"
    using t1(3) g by (simp add: entry_typed_def set_flags set_child pme_pointer_set e0)
  have "entry_grows (pt_mem st0 (cell_at f i)) (?F (pt_mem st0 (cell_at f i)))" using False e0 by (simp add: entry_grows_def)
  note u = typed_update [of lev1 st0 f l i ?F, OF t1(1) f1 f(2) e' this]
  have "open_entry c (pt_mem st2 (cell_at f i))"
    using g by (simp add: eq open_entry_def update_entry_def set_flags set_child pme_pointer_set)
  moreover have "lev1 g = Some (l - 1)" using t1(3) g by simp
  moreover have "grows lev st lev1 st2" unfolding eq by (rule grows_trans [OF t1(2) u(2) t1(1)])
  ultimately show ?thesis using u(1) g unfolding eq by blast
qed

section \<open>Looking a page up\<close>

text \<open>The walk again, for an access from user mode that may write; its result is the page.\<close>

fun user_page :: "(u64 \<Rightarrow> u64) \<Rightarrow> nat \<Rightarrow> u64 \<Rightarrow> u64 \<Rightarrow> u64 option" where
  "user_page m 0 table a = Some table"
| "user_page m (Suc lv) table a =
    (let e = m (entry_address table (la_part (Suc lv) a)) in
     if open_entry (pme_pointer e) e then user_page m lv (pme_pointer e) a else None)"

lemma cell_of_part: "entry_address (frame_address f) (la_part lv a) = cell_at f (unat (la_part lv a))"
  by (simp add: cell_at_def)

text \<open>The levels below the top are in use whole; in the top table the address must be one of the upper half.\<close>

definition user_address :: "nat \<Rightarrow> u64 \<Rightarrow> bool" where
  "user_address lv a \<longleftrightarrow> (lv = 4 \<longrightarrow> 256 \<le> unat (la_part 4 a))"

lemma walk_part: "1 \<le> lv \<Longrightarrow> lv \<le> 4 \<Longrightarrow> user_address lv a \<Longrightarrow> walk_entry lv (unat (la_part lv a))"
  using la_part_less [of lv a] by (cases "lv = 4") (auto simp: walk_entry_def user_address_def)

lemma typed_child:
  assumes t: "typed lev st" and f: "lev f = Some l" "walk_entry l i" and p: "pme_present (pt_mem st (cell_at f i))"
  shows "\<exists>g. pme_pointer (pt_mem st (cell_at f i)) = frame_address g \<and> lev g = Some (l - 1) \<and> g < kFrameCount"
proof -
  have g: "lev (frame_of (pme_pointer (pt_mem st (cell_at f i)))) = Some (l - 1)"
    using typedD(3) [OF t f] p by (simp add: entry_typed_def)
  then show ?thesis using pme_pointer_frame typedD(1) [OF t g] by blast
qed

text \<open>A page that is there stays there while the tables grow, and so do pages of any kind.\<close>

lemma grows_entry:
  assumes t: "typed lev st" and g: "grows lev st lev' st'" and f: "lev f = Some l" "walk_entry l i"
  shows "entry_grows (pt_mem st (cell_at f i)) (pt_mem st' (cell_at f i))"
proof (rule grows_mem(1) [OF g])
  show "frame_of (cell_at f i) \<in> used_frames (pt_frames st)"
    using typedD(1,2) [OF t f(1)] f(2) by (simp add: frame_of_cell walk_entryD)
  show "typed_cell lev (cell_at f i)" using f unfolding typed_cell_def by blast
qed

lemma user_page_grows:
  assumes t: "typed lev st" and g: "grows lev st lev' st'"
  shows "lev f = Some lv \<Longrightarrow> lv \<le> 4 \<Longrightarrow> user_address lv a \<Longrightarrow>
    user_page (pt_mem st) lv (frame_address f) a = Some p \<Longrightarrow> user_page (pt_mem st') lv (frame_address f) a = Some p"
proof (induction lv arbitrary: f)
  case (Suc lv)
  let ?i = "unat (la_part (Suc lv) a)" let ?e = "pt_mem st (cell_at f ?i)" and ?e' = "pt_mem st' (cell_at f ?i)"
  have w: "walk_entry (Suc lv) ?i" using Suc.prems walk_part by simp
  have o: "open_entry (pme_pointer ?e) ?e" "user_page (pt_mem st) lv (pme_pointer ?e) a = Some p"
    using Suc.prems(4) by (simp_all add: cell_of_part Let_def split: if_splits)
  have "entry_grows ?e ?e'" by (rule grows_entry [OF t g Suc.prems(1) w])
  then have o': "open_entry (pme_pointer ?e') ?e'" "pme_pointer ?e' = pme_pointer ?e"
    using o(1) by (simp_all add: entry_grows_def open_entry_def)
  obtain h where h: "pme_pointer ?e = frame_address h" "lev h = Some lv"
    using typed_child [OF t Suc.prems(1) w] o(1) by (auto simp: open_entry_def)
  have "user_page (pt_mem st') lv (frame_address h) a = Some p"
    using Suc.IH [OF h(2)] Suc.prems(2) o(2) unfolding h(1) by (simp add: user_address_def)
  then show ?case using o' h(1) by (simp add: cell_of_part Let_def)
qed simp

text \<open>What such an access finds is what the processor's walk finds.\<close>

lemma user_page_walk:
  assumes t: "typed lev st"
  shows "lev f = Some (Suc lv) \<Longrightarrow> Suc lv \<le> 4 \<Longrightarrow> user_address (Suc lv) a \<Longrightarrow>
    user_page (pt_mem st) (Suc lv) (frame_address f) a = Some p \<Longrightarrow>
    (\<exists>g < kFrameCount. p = frame_address g \<and> lev g = Some 0)
    \<and> walk (pt_mem st) (Suc lv) (frame_address f) a = Some (p + bf_get 0 12 a)"
proof (induction lv arbitrary: f)
  case 0
  let ?i = "unat (la_part (Suc 0) a)" let ?e = "pt_mem st (cell_at f ?i)"
  have w: "walk_entry (Suc 0) ?i" using "0.prems" walk_part by simp
  have o: "open_entry (pme_pointer ?e) ?e" "pme_pointer ?e = p"
    using "0.prems"(4) by (simp_all add: cell_of_part Let_def split: if_splits)
  have "page_of 12 ?e a = p + bf_get 0 12 a" using o(2) by (simp add: page_of_def pme_pointer_def)
  then show ?case using typed_child [OF t "0.prems"(1) w] o by (auto simp: cell_of_part Let_def open_entry_def)
next
  case (Suc lv)
  let ?i = "unat (la_part (Suc (Suc lv)) a)" let ?e = "pt_mem st (cell_at f ?i)"
  have w: "walk_entry (Suc (Suc lv)) ?i" using Suc.prems walk_part by simp
  have o: "open_entry (pme_pointer ?e) ?e" "user_page (pt_mem st) (Suc lv) (pme_pointer ?e) a = Some p"
    using Suc.prems(4) by (simp_all add: cell_of_part Let_def split: if_splits)
  obtain h where h: "pme_pointer ?e = frame_address h" "lev h = Some (Suc lv)"
    using typed_child [OF t Suc.prems(1) w] o(1) by (auto simp: open_entry_def)
  have "\<not> pme_huge ?e" using typedD(3) [OF t Suc.prems(1) w] by (simp add: entry_typed_def)
  then have "walk (pt_mem st) (Suc (Suc lv)) (frame_address f) a = walk (pt_mem st) (Suc lv) (frame_address h) a"
    using o(1) h(1) unfolding walk.simps(2) [of _ "Suc lv"] cell_of_part by (simp add: Let_def open_entry_def)
  moreover have "user_address (Suc lv) a" using Suc.prems(2) by (simp add: user_address_def)
  ultimately show ?case using Suc.IH [OF h(2)] Suc.prems(2) o(2) unfolding h(1) by simp
qed

section \<open>Setting up maps the region\<close>

text \<open>The pages of the region that were set up: from the address on, \<open>d\<close> of them.\<close>

definition mapped_pages :: "(u64 \<Rightarrow> u64) \<Rightarrow> nat \<Rightarrow> u64 \<Rightarrow> u64 \<Rightarrow> nat \<Rightarrow> bool" where
  "mapped_pages m lv table a d \<longleftrightarrow>
    (\<forall>b. user_address lv b \<longrightarrow> la_index lv a \<le> la_index lv b \<longrightarrow> la_index lv b < la_index lv a + d \<longrightarrow>
      (\<exists>p. user_page m lv table b = Some p))"

lemma part_eq_of_index:
  assumes "unat (la_part (Suc k) a) = unat (la_part (Suc k) b)"
  shows "la_part (Suc k) a = la_part (Suc k) b"
  using assms by (rule unsigned_word_eqI)

text \<open>Pages of one entry, and of the entries after it.\<close>

lemma index_split:
  fixes pa pb K :: nat
  assumes "i < K" "j < K" "pa * K + i \<le> pb * K + j"
  shows "pa \<le> pb"
proof (rule ccontr)
  assume "\<not> pa \<le> pb"
  then have "(pb + 1) * K \<le> pa * K" by (intro mult_le_mono1) simp
  then show False using assms by (simp add: add_mult_distrib)
qed

lemma mapped_entry:
  assumes k: "Suc k \<le> 4" and o: "open_entry c (m (cell_at f (unat (la_part (Suc k) a))))"
    and child: "mapped_pages m k c a d" and d: "d \<le> 512 ^ k - la_index k a"
  shows "mapped_pages m (Suc k) (frame_address f) a d"
  unfolding mapped_pages_def
proof (intro allI impI)
  fix b assume b: "user_address (Suc k) b" "la_index (Suc k) a \<le> la_index (Suc k) b"
    "la_index (Suc k) b < la_index (Suc k) a + d"
  let ?pa = "unat (la_part (Suc k) a)" and ?pb = "unat (la_part (Suc k) b)" and ?K = "512 ^ k :: nat"
  have lt: "la_index k a < ?K" "la_index k b < ?K" by (rule la_index_less)+
  have "?pa \<le> ?pb" by (rule index_split [OF lt]) (use b(2) in simp)
  moreover have "\<not> ?pa < ?pb"
  proof
    assume "?pa < ?pb"
    then have "(?pa + 1) * ?K \<le> ?pb * ?K" by (intro mult_le_mono1) simp
    then show False using b(3) d lt by (simp add: add_mult_distrib)
  qed
  ultimately have same: "la_part (Suc k) b = la_part (Suc k) a" by (intro part_eq_of_index) simp
  have "user_address k b" using k by (simp add: user_address_def)
  moreover have "la_index k a \<le> la_index k b" "la_index k b < la_index k a + d" using b same by simp_all
  ultimately obtain p where "user_page m k c b = Some p" using child unfolding mapped_pages_def by blast
  then show "\<exists>p. user_page m (Suc k) (frame_address f) b = Some p"
    using o by (simp add: cell_of_part same Let_def open_entry_def)
qed

lemma mapped_next:
  assumes k: "Suc k \<le> 4" and ni: "la_part (Suc k) a \<noteq> 511"
    and first: "mapped_pages m (Suc k) t a (n - r1)" and rest: "mapped_pages m (Suc k) t (la_next (Suc k) a) (r1 - r)"
    and r1: "r1 = n - (512 ^ k - la_index k a)" and r: "r \<le> r1"
  shows "mapped_pages m (Suc k) t a (n - r)"
  unfolding mapped_pages_def
proof (intro allI impI)
  fix b assume b: "user_address (Suc k) b" "la_index (Suc k) a \<le> la_index (Suc k) b"
    "la_index (Suc k) b < la_index (Suc k) a + (n - r)"
  show "\<exists>p. user_page m (Suc k) t b = Some p"
  proof (cases "la_index (Suc k) b < la_index (Suc k) a + (n - r1)")
    case True
    with first b show ?thesis unfolding mapped_pages_def by blast
  next
    case False
    have lt: "la_index k a < 512 ^ k" by (rule la_index_less)
    have nx: "la_index (Suc k) (la_next (Suc k) a) = unat (la_part (Suc k) a) * 512 ^ k + 512 ^ k"
      using la_index_next [OF k ni] by (simp add: add_mult_distrib)
    have "n - r1 = 512 ^ k - la_index k a"
    proof (cases "r1 = 0")
      case True
      then have "n - r = n - r1" using r by simp
      then show ?thesis using False b(3) by simp
    next
      case nz: False
      have "n - (n - X) = X" if "n - X \<noteq> 0" for X using that by arith
      then show ?thesis using nz unfolding r1 by blast
    qed
    then have e: "la_index (Suc k) (la_next (Suc k) a) = la_index (Suc k) a + (n - r1)" using nx lt by simp
    have "r1 \<le> n" using r1 by simp
    then have "la_index (Suc k) b < la_index (Suc k) (la_next (Suc k) a) + (r1 - r)" using b(3) r unfolding e by linarith
    with rest b(1) False show ?thesis unfolding mapped_pages_def e by (metis not_less)
  qed
qed

lemma mapped_pages_grow:
  assumes "typed lev st" and "grows lev st lev' st'" and "lev f = Some lv" and "lv \<le> 4"
    and "mapped_pages (pt_mem st) lv (frame_address f) a d"
  shows "mapped_pages (pt_mem st') lv (frame_address f) a d"
  using assms(5) user_page_grows [OF assms(1,2,3,4)] unfolding mapped_pages_def by blast

lemma user_address_next:
  assumes "1 \<le> lv" and "lv \<le> 4" and "la_part lv a \<noteq> 511" and "user_address lv a"
  shows "user_address lv (la_next lv a)"
  using assms la_part_next [OF assms(1-3)] by (auto simp: user_address_def)

lemma setup_page_map_maps:
  "setup_page_map lv table a n st = Some ((r, KSuccess), st') \<Longrightarrow> 1 \<le> lv \<Longrightarrow> lv \<le> 4 \<Longrightarrow>
    typed lev st \<Longrightarrow> table = frame_address f \<Longrightarrow> lev f = Some lv \<Longrightarrow> user_address lv a \<Longrightarrow>
    \<exists>lev'. typed lev' st' \<and> grows lev st lev' st' \<and> mapped_pages (pt_mem st') lv table a (n - r)"
proof (induction lv table a n st arbitrary: r st' lev f rule: setup_page_map.induct)
  case (1 lv table a n st)
  note run = 1(3) and lv = 1(4,5) and t = 1(6) and f = 1(7,8) and ua = 1(9)
  obtain k where k: "lv = Suc k" using lv by (cases lv) auto
  show ?case
  proof (cases "n = 0")
    case True
    then show ?thesis using run t grows_refl [of lev st] by (auto simp: setup_page_map.simps mapped_pages_def)
  next
    case False
    let ?ix = "la_part lv a" let ?en = "entry_address table ?ix" let ?cell = "cell_at f (unat ?ix)"
    have guard: "\<not> (lv = 0 \<or> 4 < lv)" using lv by simp
    obtain c st1 r1 st3 where s: "set_new_page_map_if_not_present ?en st = Some ((c, KSuccess), st1)" and
      i: "(if lv = 1 then Some ((n - 1, KSuccess), update_entry ?en pme_set_user (update_entry ?en pme_set_writable st1))
        else setup_page_map (lv - 1) c a n (update_entry ?en pme_set_user (update_entry ?en pme_set_writable st1)))
        = Some ((r1, KSuccess), st3)" and
      o: "if ?ix = 511 then (r, st') = (r1, st3) else setup_page_map lv table (la_next lv a) r1 st3 = Some ((r, KSuccess), st')"
      by (rule setup_page_map_first [OF run False lv])
    let ?st2 = "update_entry ?en pme_set_user (update_entry ?en pme_set_writable st1)"
    have en: "?en = ?cell" using f(1) by (simp add: cell_of_part)
    have w: "walk_entry lv (unat ?ix)" by (rule walk_part [OF lv ua])
    obtain lev2 g where t2: "typed lev2 ?st2" "grows lev st lev2 ?st2" and g: "lev2 g = Some k" "c = frame_address g" "g < kFrameCount"
      and oe: "open_entry c (pt_mem ?st2 ?cell)"
      using opened_entry [OF t f(2) w s [unfolded en] refl] unfolding en by (auto simp: k)
    have f2: "lev2 f = Some lv" by (rule grows_lev [OF t2(2) f(2)])
    have d: "n - r1 \<le> 512 ^ k - la_index k a"
      and r1: "r1 = n - (512 ^ k - la_index k a)"
    proof -
      show r1: "r1 = n - (512 ^ k - la_index k a)"
        using i k lv(2) setup_page_map_remaining [of k c a n ?st2 r1 st3] by (cases "lv = 1") auto
      show "n - r1 \<le> 512 ^ k - la_index k a" unfolding r1 by arith
    qed
    have "\<exists>lev3. typed lev3 st3 \<and> grows lev2 ?st2 lev3 st3 \<and> mapped_pages (pt_mem st3) k c a (n - r1)"
    proof (cases "lv = 1")
      case True
      then show ?thesis using i t2(1) grows_refl [of lev2 ?st2] k by (auto simp: mapped_pages_def)
    next
      case l: False
      have "setup_page_map (lv - 1) c a n ?st2 = Some ((r1, KSuccess), st3)" using i l by simp
      moreover have "user_address (lv - 1) a" "1 \<le> lv - 1" "lv - 1 \<le> 4" using l lv by (auto simp: user_address_def)
      ultimately show ?thesis
        using 1(1) [OF False guard refl refl s refl refl _ refl l, of r1 st3 lev2 g] t2(1) g k
        by (auto simp: is_error_def)
    qed
    then obtain lev3 where t3: "typed lev3 st3" "grows lev2 ?st2 lev3 st3" and m3: "mapped_pages (pt_mem st3) k c a (n - r1)"
      by blast
    have f3: "lev3 f = Some lv" by (rule grows_lev [OF t3(2) f2])
    have g3: "grows lev st lev3 st3" by (rule grows_trans [OF t2(2) t3(2) t2(1)])
    have "entry_grows (pt_mem ?st2 ?cell) (pt_mem st3 ?cell)" by (rule grows_entry [OF t2(1) t3(2) f2 w])
    then have "open_entry c (pt_mem st3 ?cell)" using oe by (simp add: entry_grows_def open_entry_def)
    then have here: "mapped_pages (pt_mem st3) lv table a (n - r1)"
      using mapped_entry [of k c "pt_mem st3" f a "n - r1"] lv(2) m3 d k f(1) by simp
    show ?thesis
    proof (cases "?ix = 511")
      case True
      then show ?thesis using o t3(1) g3 here by auto
    next
      case ni: False
      then have o': "setup_page_map lv table (la_next lv a) r1 st3 = Some ((r, KSuccess), st')" using o by simp
      obtain lev4 where t4: "typed lev4 st'" "grows lev3 st3 lev4 st'"
        "mapped_pages (pt_mem st') lv table (la_next lv a) (r1 - r)"
        using 1(2) [OF False guard refl refl s refl refl _ refl i refl refl _ ni o' lv t3(1) f(1) f3
            user_address_next [OF lv ni ua]] by (auto simp: is_error_def)
      have "r \<le> r1" using setup_page_map_remaining [OF o' lv] by simp
      moreover have "mapped_pages (pt_mem st') lv table a (n - r1)"
        using mapped_pages_grow [OF t3(1) t4(2) f3 lv(2)] here f(1) by simp
      ultimately have "mapped_pages (pt_mem st') lv table a (n - r)"
        using mapped_next [of k a "pt_mem st'" table n r1 r] lv(2) ni t4(3) r1 unfolding k by blast
      moreover have "grows lev st lev4 st'" by (rule grows_trans [OF g3 t4(2) t3(1)])
      ultimately show ?thesis using t4(1) by blast
    qed
  qed
qed

section \<open>What the processor sees\<close>

definition unit_of :: "u64 \<Rightarrow> paging_state \<Rightarrow> paging_unit" where
  "unit_of cr st = \<lparr>pu_mem = pt_mem st, pu_cr3 = cr\<rparr>"

lemma page_of_pointer: "page_of 12 e a = pme_pointer e + bf_get 0 12 a"
  by (simp add: page_of_def pme_pointer_def)

lemma walk_down:
  assumes "\<not> pme_huge (m (cell_at f (unat (la_part (Suc (Suc lv)) a))))"
  shows "walk m (Suc (Suc lv)) (frame_address f) a =
    (if pme_present (m (cell_at f (unat (la_part (Suc (Suc lv)) a))))
     then walk m (Suc lv) (pme_pointer (m (cell_at f (unat (la_part (Suc (Suc lv)) a))))) a else None)"
  using assms unfolding walk.simps(2) [of _ "Suc lv"] cell_of_part by (simp add: Let_def del: walk.simps)

lemma index_top: "la_index 4 x = unat (la_part 4 x) * 512 ^ 3 + la_index 3 x"
  using la_index.simps(2) [of 3 x] by (simp only: Suc_numeral Num.add_num_simps)

lemma index_low: "la_part 3 x = 0 \<Longrightarrow> la_part 2 x = 0 \<Longrightarrow> la_part 1 x = 0 \<Longrightarrow> la_index 3 x = 0"
  using la_index.simps(2) [of 2 x] la_index.simps(2) [of 1 x, unfolded Suc_1] la_index.simps(2) [of 0 x, folded One_nat_def]
  by (simp only: Suc_numeral Num.add_num_simps la_index.simps(1)) simp

lemma walk_grows:
  assumes t: "typed lev st" and g: "grows lev st lev' st'"
  shows "lev f = Some (Suc lv) \<Longrightarrow> Suc lv \<le> 4 \<Longrightarrow> user_address (Suc lv) a \<Longrightarrow>
    walk (pt_mem st) (Suc lv) (frame_address f) a = Some q \<Longrightarrow> walk (pt_mem st') (Suc lv) (frame_address f) a = Some q"
proof (induction lv arbitrary: f)
  case 0
  have "walk_entry (Suc 0) (unat (la_part (Suc 0) a))" using "0.prems" walk_part by simp
  from grows_entry [OF t g "0.prems"(1) this] show ?case
    using "0.prems"(4) by (auto simp: cell_of_part Let_def entry_grows_def page_of_pointer split: if_splits)
next
  case (Suc lv)
  let ?i = "unat (la_part (Suc (Suc lv)) a)" let ?e = "pt_mem st (cell_at f ?i)" and ?e' = "pt_mem st' (cell_at f ?i)"
  have w: "walk_entry (Suc (Suc lv)) ?i" using Suc.prems walk_part by simp
  have nh: "\<not> pme_huge ?e" using typedD(3) [OF t Suc.prems(1) w] by (simp add: entry_typed_def)
  then have o: "pme_present ?e" "walk (pt_mem st) (Suc lv) (pme_pointer ?e) a = Some q"
    using Suc.prems(4) nh by (simp_all add: walk_down del: walk.simps split: if_splits)
  have e': "pme_present ?e'" "pme_pointer ?e' = pme_pointer ?e" "\<not> pme_huge ?e'"
    using grows_entry [OF t g Suc.prems(1) w] o(1) nh by (simp_all add: entry_grows_def)
  obtain h where h: "pme_pointer ?e = frame_address h" "lev h = Some (Suc lv)"
    using typed_child [OF t Suc.prems(1) w o(1)] by auto
  have "user_address (Suc lv) a" using Suc.prems(2) by (simp add: user_address_def)
  then have "walk (pt_mem st') (Suc lv) (frame_address h) a = Some q"
    using Suc.IH [OF h(2)] Suc.prems(2) o(2) unfolding h(1) by simp
  then show ?case using e' h(1) by (simp add: walk_down del: walk.simps)
qed

text \<open>The tables \<open>InitializePagetable\<close> leaves are typed, once their frame is in use.\<close>

lemma typed_top_only:
  assumes "manager_ok (pt_frames st)" and "f < kFrameCount" and "f \<in> used_frames (pt_frames st)"
    and "\<forall>i. 256 \<le> i \<and> i < 512 \<longrightarrow> pt_mem st (cell_at f i) = 0"
  shows "typed [f \<mapsto> 4] st"
  using assms by (auto simp: typed_def walk_entry_def entry_typed_def flag_set)

text \<open>
  C35: when \<open>SetupPageMaps\<close> succeeds for a region of the upper half that fits into the address space, the processor
  finds a page for every address of the region, in a frame that is marked as used, and every address of the
  upper half that was mapped before is still mapped to where it was.
\<close>

theorem setup_page_maps_maps_region:
  assumes t: "typed lev st" and f: "lev f = Some 4" and up: "256 \<le> unat (la_part 4 a)"
    and fits: "la_index 4 a + n \<le> 512 ^ 4" and run: "setup_page_maps (frame_address f) a n st = Some (KSuccess, st')"
  shows "(\<forall>b. la_index 4 a \<le> la_index 4 b \<and> la_index 4 b < la_index 4 a + n \<longrightarrow>
      (\<exists>g \<in> used_frames (pt_frames st'). translate (unit_of (frame_address f) st') b = Some (frame_address g + bf_get 0 12 b)))
    \<and> (\<forall>b q. 256 \<le> unat (la_part 4 b) \<and> translate (unit_of (frame_address f) st) b = Some q \<longrightarrow>
      translate (unit_of (frame_address f) st') b = Some q)"
proof -
  have ua: "user_address 4 b \<longleftrightarrow> 256 \<le> unat (la_part 4 b)" for b by (simp add: user_address_def)
  obtain r where r: "setup_page_map 4 (frame_address f) a n st = Some ((r, KSuccess), st')"
    using run by (auto simp: setup_page_maps_def bind_eq_Some_conv)
  have "r = n - (512 ^ 4 - la_index 4 a)" by (rule setup_page_map_remaining [OF r]) simp_all
  then have r0: "r = 0" using fits by simp
  obtain lev' where t': "typed lev' st'" "grows lev st lev' st'" "mapped_pages (pt_mem st') 4 (frame_address f) a n"
    using setup_page_map_maps [OF r _ _ t refl f] up r0 ua by auto
  have f': "lev' f = Some 4" by (rule grows_lev [OF t'(2) f])
  have tr: "translate (unit_of (frame_address f) s) b = walk (pt_mem s) (Suc 3) (frame_address f) b" for s b
    by (simp add: translate_def unit_of_def)
  show ?thesis
  proof (intro conjI allI impI; elim conjE)
    fix b assume b: "la_index 4 a \<le> la_index 4 b" "la_index 4 b < la_index 4 a + n"
    have "unat (la_part 4 a) \<le> unat (la_part 4 b)"
      by (rule index_split [OF la_index_less [of 3 a] la_index_less [of 3 b]]) (use b(1) in \<open>simp only: index_top\<close>)
    then have ub: "user_address 4 b" using up ua by simp
    then obtain p where p: "user_page (pt_mem st') (Suc 3) (frame_address f) b = Some p"
      using t'(3) b unfolding mapped_pages_def by auto
    obtain g where "p = frame_address g" "lev' g = Some 0"
      "walk (pt_mem st') (Suc 3) (frame_address f) b = Some (p + bf_get 0 12 b)"
      using user_page_walk [OF t'(1), of f 3 b p] f' ub p by auto
    then show "\<exists>g \<in> used_frames (pt_frames st'). translate (unit_of (frame_address f) st') b = Some (frame_address g + bf_get 0 12 b)"
      unfolding tr using typedD(2) [OF t'(1)] by blast
  next
    fix b q assume "256 \<le> unat (la_part 4 b)" "translate (unit_of (frame_address f) st) b = Some q"
    then show "translate (unit_of (frame_address f) st') b = Some q"
      unfolding tr using walk_grows [OF t t'(2), of f 3 b q] f ua by simp
  qed
qed

text \<open>Four tables above one another, without a page in the last one.\<close>

definition sample_paging :: paging_state where
  "sample_paging = \<lparr>pt_mem = (\<lambda>_. 0)(0x1800 := 0x2007, 0x2000 := 0x3007, 0x3000 := 0x4007),
    pt_frames = \<lparr>alloc_map = (\<lambda>_. 0)(0 := 0x1E), range_begin = 1, range_end = 11\<rparr>\<rparr>"

definition sample_levels :: frame_levels where
  "sample_levels = [1 \<mapsto> 4, 2 \<mapsto> 3, 3 \<mapsto> 2, 4 \<mapsto> 1]"

lemma sample_cells:
  "cell_at 1 256 = 0x1800" "cell_at 2 0 = 0x2000" "cell_at 3 0 = 0x3000" "cell_at 4 0 = 0x4000"
  by (simp_all add: cell_at_def entry_address_def frame_address_def kBytesPerFrame_def)

lemma sample_used: "f \<in> {1, 2, 3, 4} \<Longrightarrow> f \<in> used_frames (pt_frames sample_paging)"
  by (auto simp: used_frames_def frame_used_def sample_paging_def bit_iff_odd_drop_bit)

lemma sample_entry:
  assumes "f \<in> {1, 2, 3, 4}" and "i < 512"
  shows "pt_mem sample_paging (cell_at f i) =
    (if f = 1 \<and> i = 256 then 0x2007 else if f = 2 \<and> i = 0 then 0x3007 else if f = 3 \<and> i = 0 then 0x4007 else 0)"
proof -
  have "f < kFrameCount" using assms(1) by (auto simp: kFrameCount_def)
  then have c: "cell_at f i = cell_at g j \<longleftrightarrow> f = g \<and> i = j" if "g < 4" "j < 512" for g j
    using cell_at_inj [of f i g j] assms(2) that by (auto simp: kFrameCount_def)
  have "cell_at f i = 0x1800 \<longleftrightarrow> f = 1 \<and> i = 256" "cell_at f i = 0x2000 \<longleftrightarrow> f = 2 \<and> i = 0"
    "cell_at f i = 0x3000 \<longleftrightarrow> f = 3 \<and> i = 0"
    using c [of 1 256] c [of 2 0] c [of 3 0] unfolding sample_cells by simp_all
  then show ?thesis by (simp only: sample_paging_def paging_state.simps fun_upd_apply) auto
qed

lemma sample_typed: "typed sample_levels sample_paging"
proof -
  have p: "pme_pointer 0x2007 = 0x2000" "pme_pointer 0x3007 = 0x3000" "pme_pointer 0x4007 = 0x4000"
    by (simp_all add: pme_pointer_def bf_get_def take_bit_eq_mod drop_bit_eq_div)
  have h: "\<not> pme_huge 0x2007" "\<not> pme_huge 0x3007" "\<not> pme_huge 0x4007" "\<not> pme_huge 0" by (simp_all add: flag_set)
  have fr: "frame_of 0x2000 = 2" "frame_of 0x3000 = 3" "frame_of 0x4000 = 4" by (simp_all add: frame_of_def)
  have "entry_typed sample_levels l (pt_mem sample_paging (cell_at f i))"
    if lev: "sample_levels f = Some l" and w: "walk_entry l i" for f l i
  proof -
    have f: "f \<in> {1, 2, 3, 4}" using lev by (auto simp: sample_levels_def split: if_splits)
    have "(f, l) \<in> {(1, 4), (2, 3), (3, 2), (4, 1)}" using lev by (auto simp: sample_levels_def split: if_splits)
    then consider "(f, l, i) \<in> {(1, 4, 256), (2, 3, 0), (3, 2, 0)}" | "pt_mem sample_paging (cell_at f i) = 0"
      using sample_entry [OF f walk_entryD(1) [OF w]] by (cases "i = 0"; cases "i = 256") auto
    then show ?thesis
    proof cases
      case 1
      then show ?thesis
        using sample_entry [OF f walk_entryD(1) [OF w]] h p fr by (auto simp: entry_typed_def sample_levels_def)
    qed (simp add: entry_typed_def zero_not_present h)
  qed
  moreover have "f < kFrameCount \<and> f \<in> used_frames (pt_frames sample_paging)" if "sample_levels f = Some l" for f l
    using that sample_used [of f] by (auto simp: sample_levels_def kFrameCount_def split: if_splits)
  moreover have "manager_ok (pt_frames sample_paging)" by (simp add: manager_ok_def sample_paging_def kFrameCount_def)
  ultimately show ?thesis unfolding typed_def by blast
qed

lemma setup_one_page:
  assumes "set_new_page_map_if_not_present (entry_address table (la_part lv a)) st = Some ((c, KSuccess), st1)"
    and "1 \<le> lv" and "lv \<le> 4"
    and "st2 = update_entry (entry_address table (la_part lv a)) pme_set_user
      (update_entry (entry_address table (la_part lv a)) pme_set_writable st1)"
    and "lv = 1 \<and> st3 = st2 \<or> lv \<noteq> 1 \<and> setup_page_map (lv - 1) c a 1 st2 = Some ((0, KSuccess), st3)"
  shows "setup_page_map lv table a 1 st = Some ((0, KSuccess), st3)"
  using assms by (subst setup_page_map.simps) (auto simp: Let_def setup_page_map.simps [of _ _ _ 0])

theorem setup_page_maps_maps_region_witness:
  "\<exists>st' g. setup_page_maps (frame_address 1) 0xFFFF800000000000 1 sample_paging = Some (KSuccess, st')
    \<and> g \<in> used_frames (pt_frames st') \<and> translate (unit_of (frame_address 1) st') 0xFFFF800000000123 = Some (frame_address g + 0x123)"
proof -
  let ?a = "0xFFFF800000000000 :: u64" and ?st = sample_paging
  have parts: "la_part 4 ?a = 256" "la_part 3 ?a = 0" "la_part 2 ?a = 0" "la_part 1 ?a = 0"
    by (simp_all add: la_part_def bf_get_def take_bit_eq_mod drop_bit_eq_div)
  have mem: "pt_mem ?st 0x1800 = 0x2007" "pt_mem ?st 0x2000 = 0x3007" "pt_mem ?st 0x3000 = 0x4007" "pt_mem ?st 0x4000 = 0"
    by (simp_all add: sample_paging_def)
  have p: "pme_pointer 0x2007 = 0x2000" "pme_pointer 0x3007 = 0x3000" "pme_pointer 0x4007 = 0x4000"
    by (simp_all add: pme_pointer_def bf_get_def take_bit_eq_mod drop_bit_eq_div)
  have same: "update_entry x F ?st = ?st" if "F (pt_mem ?st x) = pt_mem ?st x" for x F
    using that by (simp add: update_entry_def)
  have set: "update_entry x pme_set_user (update_entry x pme_set_writable ?st) = ?st" if "x \<in> {0x1800, 0x2000, 0x3000}" for x
    using that mem by (auto simp: update_twice pme_set_user_def pme_set_writable_def bf_set_def intro!: same)
  have s1: "update_entry 0x1800 pme_set_user (update_entry 0x1800 pme_set_writable ?st) = ?st"
    "update_entry 0x2000 pme_set_user (update_entry 0x2000 pme_set_writable ?st) = ?st"
    "update_entry 0x3000 pme_set_user (update_entry 0x3000 pme_set_writable ?st) = ?st" by (rule set, simp)+
  have old: "set_new_page_map_if_not_present x ?st = Some ((pme_pointer (pt_mem ?st x), KSuccess), ?st)" if "x \<in> {0x1800, 0x2000, 0x3000}" for x
    using that mem by (auto simp: set_new_page_map_if_not_present_def flag_set)
  have ok: "manager_ok (pt_frames ?st)" using sample_typed by (simp add: typed_def)
  have "frame_run 5 1 = {5}" by (auto simp: frame_run_def)
  then have "free_run (pt_frames ?st) 5 1"
    by (simp add: free_run_def used_frames_def frame_used_def sample_paging_def bit_iff_odd_drop_bit)
  then obtain s m where "allocate 1 (pt_frames ?st) = Some ((s, KSuccess), m)" using allocate_spec [OF ok, of 1] by auto
  then obtain c st1 where c: "set_new_page_map_if_not_present 0x4000 ?st = Some ((c, KSuccess), st1)"
    by (auto simp: set_new_page_map_if_not_present_def mem zero_not_present new_page_map_def Let_def)
  have e: "entry_address 0x1000 256 = 0x1800" "entry_address t 0 = t" for t by (simp_all add: entry_address_def)
  let ?st' = "update_entry 0x4000 pme_set_user (update_entry 0x4000 pme_set_writable st1)"
  have "setup_page_map 1 0x4000 ?a 1 ?st = Some ((0, KSuccess), ?st')"
    by (intro setup_one_page [OF _ _ _ refl]) (simp_all add: parts [simplified] e c)
  then obtain st' where one: "setup_page_map 1 0x4000 ?a 1 ?st = Some ((0, KSuccess), st')" by blast
  have step: "setup_page_map (Suc k) t ?a 1 ?st = Some ((0, KSuccess), st')"
    if "setup_page_map k c ?a 1 ?st = Some ((0, KSuccess), st')" and "entry_address t (la_part (Suc k) ?a) = x"
      and "x \<in> {0x1800, 0x2000, 0x3000}" and "pme_pointer (pt_mem ?st x) = c" and "1 \<le> k" "k \<le> 3" for k t c x
  proof (rule setup_one_page [OF _ _ _ refl])
    show "set_new_page_map_if_not_present (entry_address t (la_part (Suc k) ?a)) ?st = Some ((c, KSuccess), ?st)"
      unfolding that(2) old [OF that(3)] that(4) ..
    show "Suc k = 1 \<and> st' = update_entry (entry_address t (la_part (Suc k) ?a)) pme_set_user
        (update_entry (entry_address t (la_part (Suc k) ?a)) pme_set_writable ?st)
      \<or> Suc k \<noteq> 1 \<and> setup_page_map (Suc k - 1) c ?a 1
        (update_entry (entry_address t (la_part (Suc k) ?a)) pme_set_user
          (update_entry (entry_address t (la_part (Suc k) ?a)) pme_set_writable ?st)) = Some ((0, KSuccess), st')"
      unfolding that(2) set [OF that(3)] using that by simp
  qed (use that in simp_all)
  have "setup_page_map 2 0x3000 ?a 1 ?st = Some ((0, KSuccess), st')"
    using step [where k = "1" and c = "0x4000" and t = "0x3000" and x = "0x3000", unfolded Suc_1] one by (simp add: parts [simplified] e mem p)
  then have "setup_page_map 3 0x2000 ?a 1 ?st = Some ((0, KSuccess), st')"
    using step [where k = "2" and c = "0x3000" and t = "0x2000" and x = "0x2000"] by (simp add: parts e mem p)
  then have "setup_page_map 4 0x1000 ?a 1 ?st = Some ((0, KSuccess), st')"
    using step [where k = "3" and c = "0x2000" and t = "0x1000" and x = "0x1800"] by (simp add: parts e mem p)
  moreover have f: "frame_address 1 = 0x1000" by (simp add: frame_address_def kBytesPerFrame_def)
  ultimately have run: "setup_page_maps (frame_address 1) ?a 1 ?st = Some (KSuccess, st')" by (simp add: setup_page_maps_def)
  have i: "la_index 4 ?a = 256 * 512 ^ 3" "la_index 4 0xFFFF800000000123 = 256 * 512 ^ 3"
    by (simp_all add: index_top index_low la_part_def bf_get_def take_bit_eq_mod drop_bit_eq_div)
  have "bf_get 0 12 (0xFFFF800000000123 :: u64) = 0x123" by (simp add: bf_get_def take_bit_eq_mod)
  moreover have "sample_levels 1 = Some 4" "256 \<le> unat (la_part 4 ?a)" "la_index 4 ?a + 1 \<le> 512 ^ 4"
    by (simp_all add: sample_levels_def parts i)
  from setup_page_maps_maps_region [OF sample_typed this run, THEN conjunct1, rule_format, of "0xFFFF800000000123"]
  have "\<exists>g \<in> used_frames (pt_frames st'). translate (unit_of (frame_address 1) st') 0xFFFF800000000123
      = Some (frame_address g + bf_get 0 12 0xFFFF800000000123)"
    unfolding i by simp
  ultimately show ?thesis using run by auto
qed

section \<open>The kernel under an application\<close>

text \<open>The frames of the kernel's tables are marked as used, as those of the whole kernel image are.\<close>

definition tables_used :: "page_tables \<Rightarrow> bitmap_manager \<Rightarrow> bool" where
  "tables_used pts m \<longleftrightarrow> frame_of (pml4_table pts) < kFrameCount
    \<and> frame_of (pml4_table pts) \<in> used_frames m \<and> frame_of (pdp_table pts) \<in> used_frames m
    \<and> (\<forall>i < 64. frame_of (page_directory pts) + i \<in> used_frames m)"

lemma table_frames:
  assumes ok: "tables_ok pts"
  shows "i < 512 \<Longrightarrow> frame_of (pdp_entry pts i) = frame_of (pdp_table pts)"
    and "i < 64 \<Longrightarrow> j < 512 \<Longrightarrow> frame_of (directory_entry_at pts i j) = frame_of (page_directory pts) + i"
    and "frame_of (pdp_table pts) \<noteq> frame_of (pml4_table pts)"
    and "i < 64 \<Longrightarrow> frame_of (page_directory pts) + i \<noteq> frame_of (pml4_table pts)"
proof -
  obtain x3 x2 x4 where x: "unat (pdp_table pts) = 4096 * x3" "unat (page_directory pts) = 4096 * x2"
    "unat (pml4_table pts) = 4096 * x4"
    using ok unfolding tables_ok_def Let_def by (elim conjE dvdE)
  have fr: "frame_of (pdp_table pts) = x3" "frame_of (page_directory pts) = x2" "frame_of (pml4_table pts) = x4"
    using x by (simp_all add: frame_of_def)
  show "i < 512 \<Longrightarrow> frame_of (pdp_entry pts i) = frame_of (pdp_table pts)"
    using unat_pdp_entry [OF ok] x by (simp add: frame_of_def)
  show "i < 64 \<Longrightarrow> j < 512 \<Longrightarrow> frame_of (directory_entry_at pts i j) = frame_of (page_directory pts) + i"
    using unat_directory_entry [OF ok] x by (simp add: frame_of_def)
  show "frame_of (pdp_table pts) \<noteq> frame_of (pml4_table pts)"
    using tables_okD(6) [OF ok] unfolding fr x by auto
  show "i < 64 \<Longrightarrow> frame_of (page_directory pts) + i \<noteq> frame_of (pml4_table pts)"
    using tables_okD(7) [OF ok] unfolding fr x by auto
qed

lemma typed_cell_top: "typed_cell [f \<mapsto> 4] x \<Longrightarrow> f < kFrameCount \<Longrightarrow> frame_of x = f \<and> x \<noteq> frame_address f"
proof -
  assume "typed_cell [f \<mapsto> 4] x" and f: "f < kFrameCount"
  then obtain i where i: "walk_entry 4 i" "x = cell_at f i" unfolding typed_cell_def by (auto split: if_splits)
  then have "unat x = 4096 * f + 8 * i" "256 \<le> i" using unat_cell [OF f] by (auto simp: walk_entry_def)
  then have "unat x \<noteq> unat (frame_address f)" using unat_frame_address [OF f] by simp
  then show ?thesis using i f by (auto simp: frame_of_cell walk_entryD)
qed

text \<open>
  C36: setting up pages for an application in the upper half leaves the kernel's own mapping alone: after
  \<open>InitializePagetable\<close> and a successful \<open>SetupPageMaps\<close> every address below 64 GiB still means itself.
\<close>

theorem application_keeps_identity:
  assumes ok: "tables_ok pts" and st: "st = \<lparr>pt_mem = pu_mem (initialize_pagetable pts u), pt_frames = m\<rparr>"
    and m: "manager_ok m" "tables_used pts m"
    and zero: "\<forall>i. 256 \<le> i \<and> i < 512 \<longrightarrow> pu_mem u (entry_address (pml4_table pts) (of_nat i)) = 0"
    and up: "256 \<le> unat (la_part 4 a)" and run: "setup_page_maps (pml4_table pts) a n st = Some (KSuccess, st')"
    and b: "unat b < 64 * 2 ^ 30"
  shows "translate (unit_of (pml4_table pts) st') b = Some b"
proof -
  let ?f = "frame_of (pml4_table pts)"
  note cells = initialize_cells [OF ok, where u = u]
  have f: "?f < kFrameCount" "?f \<in> used_frames m" using m(2) by (simp_all add: tables_used_def)
  have "4096 * ?f = unat (pml4_table pts)" using ok by (auto simp: tables_ok_def Let_def frame_of_def)
  then have "unat (pml4_table pts) = unat (frame_address ?f)" using unat_frame_address [OF f(1)] by simp
  then have top: "pml4_table pts = frame_address ?f" by (rule unsigned_word_eqI)
  have t: "typed [?f \<mapsto> 4] st"
    using m(1) f zero cells(3) by (intro typed_top_only) (simp_all add: st cell_at_def top [symmetric])
  obtain r where r: "setup_page_map 4 (pml4_table pts) a n st = Some ((r, KSuccess), st')"
    using run by (auto simp: setup_page_maps_def bind_eq_Some_conv)
  obtain lev' where g: "grows [?f \<mapsto> 4] st lev' st'"
    using setup_page_map_maps [OF r _ _ t top] up by (auto simp: user_address_def)
  have same: "pt_mem st' x = pu_mem (initialize_pagetable pts u) x"
    if "frame_of x \<in> used_frames m" "frame_of x \<noteq> ?f \<or> x = frame_address ?f" for x
  proof -
    have "\<not> typed_cell [?f \<mapsto> 4] x" using typed_cell_top [of ?f x] f(1) that(2) by blast
    then show ?thesis using grows_mem(2) [OF g, of x] that(1) by (simp add: st)
  qed
  have kept: "pt_mem st' (pml4_table pts) = pdp_table pts OR 0x03"
    using same [of "pml4_table pts"] f(2) top cells(3) [of 0] by (simp add: entry_address_def)
  have "\<forall>i < 64. pt_mem st' (pdp_entry pts i) = directory_at pts i OR 0x03
      \<and> (\<forall>j < 512. pt_mem st' (directory_entry_at pts i j) = directory_value i j)"
    using cells(2) table_frames [OF ok] m(2) by (auto simp: same tables_used_def)
  then show ?thesis
    using identity_walk [OF ok b, of "unit_of (pml4_table pts) st'"] kept by (simp add: unit_of_def)
qed

text \<open>One page can be set up as long as a frame is free for each level.\<close>

definition free_frame_set :: "paging_state \<Rightarrow> nat set" where
  "free_frame_set st = managed_frames (pt_frames st) - used_frames (pt_frames st)"

lemma new_page_map_succeeds:
  assumes ok: "manager_ok (pt_frames st)" and x: "Suc n \<le> card (free_frame_set st)"
  shows "\<exists>t st1. new_page_map st = Some ((t, KSuccess), st1) \<and> manager_ok (pt_frames st1) \<and> n \<le> card (free_frame_set st1)"
proof -
  have fin: "finite (free_frame_set st)" by (simp add: free_frame_set_def managed_frames_def)
  obtain f where "f \<in> free_frame_set st" using x by fastforce
  then have "free_run (pt_frames st) f 1"
    by (auto simp: free_run_def frame_run_def free_frame_set_def managed_frames_def less_Suc_eq_le)
  then obtain s m where a: "allocate 1 (pt_frames st) = Some ((s, KSuccess), m)" using allocate_spec [OF ok, of 1] by blast
  have m: "manager_ok m" "managed_frames m = managed_frames (pt_frames st)" "used_frames m = insert s (used_frames (pt_frames st))"
    using fa.alloc_fresh [OF ok _ a] by (auto simp: frame_run_def)
  let ?st1 = "st\<lparr>pt_frames := m, pt_mem := (\<lambda>a. if a - frame_address s < 4096 then 0 else pt_mem st a)\<rparr>"
  have "free_frame_set ?st1 = free_frame_set st - {s}" using m by (auto simp: free_frame_set_def)
  moreover have "card (free_frame_set st) - card {s} \<le> card (free_frame_set st - {s})" by (rule diff_card_le_card_Diff) simp
  ultimately have "n \<le> card (free_frame_set ?st1)" using x by simp
  moreover have "new_page_map st = Some ((frame_address s, KSuccess), ?st1)"
    using a by (simp add: new_page_map_def Let_def)
  ultimately show ?thesis using m(1) by auto
qed

lemma setup_one_page_succeeds:
  "1 \<le> lv \<Longrightarrow> lv \<le> 4 \<Longrightarrow> manager_ok (pt_frames st) \<Longrightarrow> lv \<le> card (free_frame_set st) \<Longrightarrow>
    \<exists>st'. setup_page_map lv t a 1 st = Some ((0, KSuccess), st')"
proof (induction lv arbitrary: t st)
  case (Suc k)
  let ?x = "entry_address t (la_part (Suc k) a)"
  obtain c st1 where s: "set_new_page_map_if_not_present ?x st = Some ((c, KSuccess), st1)"
    "manager_ok (pt_frames st1)" "k \<le> card (free_frame_set st1)"
  proof (cases "pme_present (pt_mem st ?x)")
    case True
    then show ?thesis using Suc.prems by (intro that [of _ st]) (auto simp: set_new_page_map_if_not_present_def)
  next
    case False
    obtain c st0 where n: "new_page_map st = Some ((c, KSuccess), st0)" "manager_ok (pt_frames st0)" "k \<le> card (free_frame_set st0)"
      using new_page_map_succeeds [OF Suc.prems(3,4)] by blast
    with False show ?thesis
      by (intro that [of c "update_entry ?x pme_set_present (update_entry ?x (pme_set_pointer c) st0)"])
        (simp_all add: set_new_page_map_if_not_present_def free_frame_set_def)
  qed
  let ?st2 = "update_entry ?x pme_set_user (update_entry ?x pme_set_writable st1)"
  have "\<exists>st3. k = 0 \<and> st3 = ?st2 \<or> k \<noteq> 0 \<and> setup_page_map k c a 1 ?st2 = Some ((0, KSuccess), st3)"
    using Suc.IH [of ?st2 c] Suc.prems s(2,3) by (cases "k = 0") (auto simp: free_frame_set_def)
  then obtain st3 where "k = 0 \<and> st3 = ?st2 \<or> k \<noteq> 0 \<and> setup_page_map k c a 1 ?st2 = Some ((0, KSuccess), st3)" by blast
  then have "setup_page_map (Suc k) t a 1 st = Some ((0, KSuccess), st3)"
    using Suc.prems by (intro setup_one_page [OF s(1) _ _ refl]) simp_all
  then show ?case by blast
qed simp

definition sample_used_frames :: bitmap_manager where
  "sample_used_frames = \<lparr>alloc_map = (\<lambda>i. if 8 \<le> i \<and> i < 10 then -1 else 0), range_begin = 1, range_end = 100\<rparr>"

theorem application_keeps_identity_witness:
  "\<exists>st'. setup_page_maps 0x200000 0xFFFF800000000000 1
      \<lparr>pt_mem = pu_mem (initialize_pagetable sample_page_tables \<lparr>pu_mem = \<lambda>_. 0, pu_cr3 = 0\<rparr>), pt_frames = sample_used_frames\<rparr>
        = Some (KSuccess, st')
    \<and> translate (unit_of 0x200000 st') 0xB8000 = Some 0xB8000"
proof -
  let ?st = "\<lparr>pt_mem = pu_mem (initialize_pagetable sample_page_tables \<lparr>pu_mem = \<lambda>_. 0, pu_cr3 = 0\<rparr>), pt_frames = sample_used_frames\<rparr>"
  have used: "f \<in> used_frames sample_used_frames \<longleftrightarrow> 512 \<le> f \<and> f < 640" for f
    by (auto simp: used_frames_def frame_used_def sample_used_frames_def less_eq_div_iff_mult_less_eq div_less_iff_less_mult)
  have ok: "tables_ok sample_page_tables" by (simp add: tables_ok_def sample_page_tables_def Let_def)
  have m: "manager_ok sample_used_frames" by (simp add: manager_ok_def sample_used_frames_def kFrameCount_def)
  have tu: "tables_used sample_page_tables sample_used_frames"
    by (auto simp: tables_used_def used frame_of_def sample_page_tables_def kFrameCount_def)
  have "managed_frames sample_used_frames = {1..<100}" by (simp add: managed_frames_def sample_used_frames_def)
  then have "free_frame_set ?st = {1..<100}" by (auto simp: free_frame_set_def used)
  then obtain st' where "setup_page_map 4 0x200000 0xFFFF800000000000 1 ?st = Some ((0, KSuccess), st')"
    using setup_one_page_succeeds [of 4 ?st "0x200000" "0xFFFF800000000000"] m by auto
  then have run: "setup_page_maps (pml4_table sample_page_tables) 0xFFFF800000000000 1 ?st = Some (KSuccess, st')"
    by (simp add: setup_page_maps_def sample_page_tables_def)
  have up: "256 \<le> unat (la_part 4 0xFFFF800000000000)"
    by (simp add: la_part_def bf_get_def take_bit_eq_mod drop_bit_eq_div)
  show ?thesis
    using application_keeps_identity [OF ok refl m tu _ up run, of "0xB8000"] run by (auto simp: sample_page_tables_def)
qed

end
