(* ===== verification/Boot_Loader.thy ===== *)
theory Boot_Loader
  imports Elf_Loader Frame_Buffer Acpi
begin

unbundle bit_operations_syntax

text \<open>
  The boot loader: \<open>BootLoader/Main.c\<close>, from \<open>UefiMain\<close> to the call of the kernel.

  The services of the UEFI firmware are arguments: \<open>firmware\<close> has one function per service the loader
  calls, on a state of the firmware of any type.  A service that fills a buffer returns the bytes, which
  the loader puts into memory.  The result of \<open>UefiMain\<close> are the arguments of the kernel's entry point;
  \<open>None\<close> is \<open>Halt\<close>, an endless loop, or the use of a pointer that a failed service left unset.  What the
  loader prints is left out.  The program headers are the list of the structures at \<open>e_phoff\<close>.
\<close>

section \<open>Loading the kernel's segments\<close>

text \<open>The loop of \<open>CalcLoadAddressRange\<close>.\<close>

fun load_range_loop :: "elf_phdr list \<Rightarrow> u64 \<times> u64 \<Rightarrow> u64 \<times> u64" where
  "load_range_loop [] r = r"
| "load_range_loop (p # ps) (first_addr, last_addr) =
    (if p_type p \<noteq> PT_LOAD then load_range_loop ps (first_addr, last_addr)
     else load_range_loop ps (min first_addr (p_vaddr p), max last_addr (p_vaddr p + p_memsz p)))"

definition calc_load_address_range :: "elf_phdr list \<Rightarrow> u64 \<times> u64" where
  "calc_load_address_range phdrs = load_range_loop phdrs (- 1, 0)"

text \<open>\<open>CopyLoadSegment\<close>; \<open>ehdr\<close> is the address of the file.\<close>

definition boot_copy_segment :: "u64 \<Rightarrow> elf_phdr \<Rightarrow> phys_mem \<Rightarrow> phys_mem" where
  "boot_copy_segment ehdr p m =
    (let segment_in_file = ehdr + p_offset p;
         m1 = vm_copy (p_vaddr p) (mem_bytes m segment_in_file (unat (p_filesz p))) m;
         remain_bytes = p_memsz p - p_filesz p;
         remain_offset = p_vaddr p + p_filesz p
     in vm_zero remain_offset (unat remain_bytes) m1)"

fun boot_copy_segments :: "u64 \<Rightarrow> elf_phdr list \<Rightarrow> phys_mem \<Rightarrow> phys_mem" where
  "boot_copy_segments ehdr [] m = m"
| "boot_copy_segments ehdr (p # ps) m =
    (if p_type p \<noteq> PT_LOAD then boot_copy_segments ehdr ps m
     else boot_copy_segments ehdr ps (boot_copy_segment ehdr p m))"

section \<open>The firmware\<close>

type_synonym efi_status = u64

definition EFI_SUCCESS :: efi_status where
  "EFI_SUCCESS = 0"

definition EFI_BUFFER_TOO_SMALL :: efi_status where
  "EFI_BUFFER_TOO_SMALL = 0x8000000000000005"

definition efi_error :: "efi_status \<Rightarrow> bool" where
  "efi_error status \<longleftrightarrow> bit status 63"

datatype gop_pixel_format =
    PixelRedGreenBlueReserved8BitPerColor
  | PixelBlueGreenRedReserved8BitPerColor
  | PixelBitMask
  | PixelBltOnly
  | PixelFormatMax

record gop_mode =
  gm_frame_buffer_base :: u64
  gm_frame_buffer_size :: u64
  gm_horizontal_resolution :: u32
  gm_vertical_resolution :: u32
  gm_pixels_per_scan_line :: u32
  gm_pixel_format :: gop_pixel_format

record memory_map =
  mm_buffer_size :: u64
  mm_buffer :: u64
  mm_map_size :: u64
  mm_map_key :: u64
  mm_descriptor_size :: u64
  mm_descriptor_version :: u32
  mm_descriptors :: "memory_descriptor list"

record map_reply =
  mr_map_size :: u64
  mr_map_key :: u64
  mr_descriptor_size :: u64
  mr_descriptor_version :: u32
  mr_descriptors :: "memory_descriptor list"

record block_media =
  bm_media_id :: u32
  bm_block_size :: u32
  bm_last_block :: u64

text \<open>
  The services, in the order of their first use.  \<open>OpenRootDir\<close> and \<open>OpenGOP\<close> ignore what their calls
  return; with \<open>None\<close> the pointer they pass on was never written.  \<open>fw_block_io\<close> stands for the two calls of
  \<open>OpenBlockIoProtocolForLoadedImage\<close>.
\<close>

record 's firmware =
  fw_get_memory_map :: "u64 \<Rightarrow> 's \<Rightarrow> efi_status \<times> map_reply \<times> 's"
  fw_root_dir :: "'s \<Rightarrow> nat option \<times> 's"
  fw_gop :: "'s \<Rightarrow> gop_mode option \<times> 's"
  fw_open :: "nat \<Rightarrow> string \<Rightarrow> 's \<Rightarrow> efi_status \<times> nat \<times> 's"
  fw_get_info :: "nat \<Rightarrow> nat \<Rightarrow> 's \<Rightarrow> efi_status \<times> u64 \<times> 's"
  fw_allocate_pool :: "u64 \<Rightarrow> 's \<Rightarrow> efi_status \<times> u64 \<times> 's"
  fw_read :: "nat \<Rightarrow> u64 \<Rightarrow> 's \<Rightarrow> efi_status \<times> u8 list \<times> 's"
  fw_allocate_pages :: "u64 \<Rightarrow> u64 \<Rightarrow> 's \<Rightarrow> efi_status \<times> 's"
  fw_block_io :: "'s \<Rightarrow> efi_status \<times> block_media \<times> 's"
  fw_read_blocks :: "u32 \<Rightarrow> u64 \<Rightarrow> u64 \<Rightarrow> 's \<Rightarrow> efi_status \<times> u8 list \<times> 's"
  fw_exit_boot_services :: "u64 \<Rightarrow> 's \<Rightarrow> efi_status \<times> 's"

text \<open>What the firmware hands to the loader besides its services.\<close>

record boot_input =
  bi_configuration_table :: "(u8 list \<times> u64) list"
  bi_acpi_guid :: "u8 list"
  bi_memmap_buffer :: u64
  bi_program_headers :: "phys_mem \<Rightarrow> u64 \<Rightarrow> elf_phdr list"
  bi_entry :: "phys_mem \<Rightarrow> u64 \<Rightarrow> u64"

text \<open>\<open>GetMemoryMap\<close>.\<close>

definition get_memory_map :: "'s firmware \<Rightarrow> memory_map \<Rightarrow> 's \<Rightarrow> efi_status \<times> memory_map \<times> 's" where
  "get_memory_map fw mm s =
    (if mm_buffer mm = 0 then (EFI_BUFFER_TOO_SMALL, mm, s)
     else (let (status, r, s') = fw_get_memory_map fw (mm_buffer_size mm) s
       in (status, mm\<lparr>mm_map_size := mr_map_size r, mm_map_key := mr_map_key r,
             mm_descriptor_size := mr_descriptor_size r, mm_descriptor_version := mr_descriptor_version r,
             mm_descriptors := mr_descriptors r\<rparr>, s')))"

text \<open>
  \<open>ReadFile\<close>: the status, the buffer, memory and the firmware afterwards.  The buffer for \<open>GetInfo\<close> has
  room for the structure and the file name's 12 characters.
\<close>

definition file_name_chars :: nat where
  "file_name_chars = 12"

definition read_file :: "'s firmware \<Rightarrow> nat \<Rightarrow> phys_mem \<Rightarrow> 's \<Rightarrow> efi_status \<times> u64 \<times> phys_mem \<times> 's" where
  "read_file fw file m s =
    (let (status, file_size, s1) = fw_get_info fw file file_name_chars s in
     if efi_error status then (status, 0, m, s1)
     else (let (status, buffer, s2) = fw_allocate_pool fw file_size s1 in
       if efi_error status then (status, 0, m, s2)
       else (let (status, bytes, s3) = fw_read fw file file_size s2
         in (status, buffer, vm_copy buffer bytes m, s3))))"

definition read_blocks :: "'s firmware \<Rightarrow> u32 \<Rightarrow> u64 \<Rightarrow> phys_mem \<Rightarrow> 's \<Rightarrow> efi_status \<times> u64 \<times> phys_mem \<times> 's" where
  "read_blocks fw media_id num_bytes m s =
    (let (status, buffer, s1) = fw_allocate_pool fw num_bytes s in
     if efi_error status then (status, 0, m, s1)
     else (let (status, bytes, s2) = fw_read_blocks fw media_id 0 num_bytes s1
       in (status, buffer, vm_copy buffer bytes m, s2)))"

section \<open>UefiMain\<close>

text \<open>The arguments of the entry point, and memory when it is called.\<close>

record kernel_call =
  kc_entry :: u64
  kc_frame_buffer :: u64
  kc_config :: frame_buffer_config
  kc_memory_map :: memory_map
  kc_acpi_table :: u64
  kc_volume_image :: u64
  kc_mem :: phys_mem

definition kKernelBase :: u64 where
  "kKernelBase = 0x100000"

definition fill_frame_buffer :: "gop_mode \<Rightarrow> phys_mem \<Rightarrow> phys_mem" where
  "fill_frame_buffer mode m =
    (\<lambda>a. if unat (a - gm_frame_buffer_base mode) < unat (gm_frame_buffer_size mode) then 255 else m a)"

definition kernel_pages :: "elf_phdr list \<Rightarrow> u64" where
  "kernel_pages phdrs =
    (case calc_load_address_range phdrs of (kernel_first_addr, kernel_last_addr) \<Rightarrow>
       (kernel_last_addr - kernel_first_addr + 0xfff) div 0x1000)"

text \<open>Reading the kernel's file, placing it, and the address of its entry point.\<close>

definition load_kernel ::
  "'s firmware \<Rightarrow> boot_input \<Rightarrow> nat \<Rightarrow> phys_mem \<Rightarrow> 's \<Rightarrow> (u64 \<times> phys_mem \<times> 's) option" where
  "load_kernel fw inp root m s =
    (let (status, kernel_file, s1) = fw_open fw root (CHR 0x5C # ''kernel.elf'') s in
     if efi_error status then None
     else (let (status, kernel_ehdr, m1, s2) = read_file fw kernel_file m s1 in
       if efi_error status then None
       else (let phdrs = bi_program_headers inp m1 kernel_ehdr;
                 (status, s3) = fw_allocate_pages fw (kernel_pages phdrs) kKernelBase s2 in
         if efi_error status then None
         else (let m2 = boot_copy_segments kernel_ehdr phdrs m1
           in Some (bi_entry inp m2 kernel_ehdr, m2, s3)))))"

text \<open>The FAT volume: the file \<open>fat_disk\<close>, or else the first 16 MiB of the device the loader is on.\<close>

definition volume_limit :: u64 where
  "volume_limit = 16 * 1024 * 1024"

definition media_bytes :: "block_media \<Rightarrow> u64" where
  "media_bytes media =
    (let volume_bytes = ucast (bm_block_size media) * (bm_last_block media + 1)
     in if volume_limit < volume_bytes then volume_limit else volume_bytes)"

definition load_volume :: "'s firmware \<Rightarrow> nat \<Rightarrow> phys_mem \<Rightarrow> 's \<Rightarrow> (u64 \<times> phys_mem \<times> 's) option" where
  "load_volume fw root m s =
    (let (status, volume_file, s1) = fw_open fw root (CHR 0x5C # ''fat_disk'') s in
     if status = EFI_SUCCESS
     then (let (status, image, m1, s2) = read_file fw volume_file m s1
       in if efi_error status then None else Some (image, m1, s2))
     else (let (status, media, s2) = fw_block_io fw s1 in
       if efi_error status then None
       else (let (status, image, m1, s3) = read_blocks fw (bm_media_id media) (media_bytes media) m s2
         in if efi_error status then None else Some (image, m1, s3))))"

definition boot_pixel_format :: "gop_pixel_format \<Rightarrow> pixel_format option" where
  "boot_pixel_format f =
    (case f of PixelRedGreenBlueReserved8BitPerColor \<Rightarrow> Some PixelRGBResv8
     | PixelBlueGreenRedReserved8BitPerColor \<Rightarrow> Some PixelBGRResv8
     | _ \<Rightarrow> None)"

text \<open>Leaving the boot services: with the map from the start, and if that is out of date with a new one.\<close>

definition exit_boot_services :: "'s firmware \<Rightarrow> memory_map \<Rightarrow> 's \<Rightarrow> (memory_map \<times> 's) option" where
  "exit_boot_services fw memmap s =
    (let (status, s1) = fw_exit_boot_services fw (mm_map_key memmap) s in
     if \<not> efi_error status then Some (memmap, s1)
     else (let (status, memmap', s2) = get_memory_map fw memmap s1 in
       if efi_error status then None
       else (let (status, s3) = fw_exit_boot_services fw (mm_map_key memmap') s2
         in if efi_error status then None else Some (memmap', s3))))"

fun find_acpi_table :: "u8 list \<Rightarrow> (u8 list \<times> u64) list \<Rightarrow> u64" where
  "find_acpi_table guid [] = 0"
| "find_acpi_table guid ((g, t) # ts) = (if g = guid then t else find_acpi_table guid ts)"

definition uefi_main :: "'s firmware \<Rightarrow> boot_input \<Rightarrow> phys_mem \<Rightarrow> 's \<Rightarrow> (kernel_call \<times> 's) option" where
  "uefi_main fw inp m s =
    (let (_, memmap, s1) = get_memory_map fw
           \<lparr>mm_buffer_size = 4096 * 4, mm_buffer = bi_memmap_buffer inp, mm_map_size = 0, mm_map_key = 0,
            mm_descriptor_size = 0, mm_descriptor_version = 0, mm_descriptors = []\<rparr> s;
         (root, s2) = fw_root_dir fw s1;
         (gop, s3) = fw_gop fw s2 in
     do {
       mode \<leftarrow> gop;
       root_dir \<leftarrow> root;
       (entry, m1, s4) \<leftarrow> load_kernel fw inp root_dir (fill_frame_buffer mode m) s3;
       (volume_image, m2, s5) \<leftarrow> load_volume fw root_dir m1 s4;
       fmt \<leftarrow> boot_pixel_format (gm_pixel_format mode);
       (memmap', s6) \<leftarrow> exit_boot_services fw memmap s5;
       Some (\<lparr>kc_entry = entry, kc_frame_buffer = gm_frame_buffer_base mode,
           kc_config = \<lparr>fc_pixels_per_scanline = gm_pixels_per_scan_line mode,
             fc_horizontal_resolution = gm_horizontal_resolution mode,
             fc_vertical_resolution = gm_vertical_resolution mode, fc_pixel_format = fmt\<rparr>,
           kc_memory_map = memmap', kc_acpi_table = find_acpi_table (bi_acpi_guid inp) (bi_configuration_table inp),
           kc_volume_image = volume_image, kc_mem = m2\<rparr>, s6)
     })"

section \<open>The range covers the segments\<close>

text \<open>A segment with sizes that make sense.\<close>

definition segment_ok :: "elf_phdr \<Rightarrow> bool" where
  "segment_ok p \<longleftrightarrow> p_filesz p \<le> p_memsz p \<and> unat (p_vaddr p) + unat (p_memsz p) < 2 ^ 64"

lemma segment_end: "segment_ok p \<Longrightarrow> unat (p_vaddr p + p_memsz p) = unat (p_vaddr p) + unat (p_memsz p)"
  unfolding segment_ok_def by (intro unat_add_no_wrap) simp

lemma load_range_loop_bounds:
  "load_range_loop ps (f, l) = (f', l') \<Longrightarrow> f' \<le> f \<and> l \<le> l'
    \<and> (\<forall>p \<in> set (load_segments ps). f' \<le> p_vaddr p \<and> p_vaddr p + p_memsz p \<le> l')"
proof (induction ps arbitrary: f l)
  case (Cons p ps)
  show ?case
  proof (cases "p_type p = PT_LOAD")
    case True
    then have "load_range_loop ps (min f (p_vaddr p), max l (p_vaddr p + p_memsz p)) = (f', l')"
      using Cons.prems by simp
    from Cons.IH [OF this] True show ?thesis by (auto simp: load_segments_def)
  qed (use Cons in \<open>simp add: load_segments_def\<close>)
qed (simp add: load_segments_def)

lemma segment_offset: "a \<in> segment_range p \<Longrightarrow> segment_ok p \<Longrightarrow>
    unat (p_vaddr p) \<le> unat a \<and> unat a < unat (p_vaddr p) + unat (p_memsz p)"
proof -
  assume "a \<in> segment_range p" and ok: "segment_ok p"
  then have j: "unat (a - p_vaddr p) < unat (p_memsz p)" by (simp add: segment_range_def)
  have "a = p_vaddr p + (a - p_vaddr p)" by simp
  moreover have "unat (p_vaddr p + (a - p_vaddr p)) = unat (p_vaddr p) + unat (a - p_vaddr p)"
    using ok j unfolding segment_ok_def by (intro unat_add_no_wrap) simp
  ultimately show ?thesis using j by simp
qed

lemma kernel_pages_cover:
  assumes r: "calc_load_address_range ps = (kKernelBase, l)" and p: "p \<in> set (load_segments ps)" "segment_ok p"
    and a: "a \<in> segment_range p"
  shows "unat kKernelBase \<le> unat a \<and> unat a < unat kKernelBase + 4096 * unat (kernel_pages ps)"
proof -
  have b: "kKernelBase \<le> p_vaddr p" "p_vaddr p + p_memsz p \<le> l"
    using load_range_loop_bounds [OF r [unfolded calc_load_address_range_def]] p(1) by auto
  have u: "unat kKernelBase \<le> unat (p_vaddr p)" "unat (p_vaddr p) + unat (p_memsz p) \<le> unat l"
    using b segment_end [OF p(2)] by (simp_all add: word_le_nat_alt)
  have lo: "unat kKernelBase \<le> unat l" using u by simp
  have "unat (l - kKernelBase) = unat l - unat kKernelBase" by (rule unat_sub_no_wrap [OF lo])
  moreover have "unat l < 2 ^ 64" using unsigned_less [of l] by simp
  then have "unat l - unat kKernelBase + 0xfff < 2 ^ 64" by (simp add: kKernelBase_def)
  ultimately have "unat (l - kKernelBase + 0xfff) = unat l - unat kKernelBase + 0xfff"
    by (subst unat_add_no_wrap) simp_all
  then have "unat (kernel_pages ps) = (unat l - unat kKernelBase + 4095) div 4096"
    unfolding kernel_pages_def r by (simp add: unat_div)
  then have "unat l - unat kKernelBase \<le> 4096 * unat (kernel_pages ps)" by simp
  then show ?thesis using segment_offset [OF a p(2)] u by linarith
qed

section \<open>The segments in memory\<close>

text \<open>The bytes of the file that are copied lie outside of every segment.\<close>

definition file_apart :: "u64 \<Rightarrow> elf_phdr list \<Rightarrow> bool" where
  "file_apart ehdr ps \<longleftrightarrow> (\<forall>p \<in> set (load_segments ps). \<forall>q \<in> set (load_segments ps). \<forall>j < unat (p_filesz p).
    ehdr + p_offset p + of_nat j \<notin> segment_range q)"

definition placed_byte :: "u64 \<Rightarrow> phys_mem \<Rightarrow> elf_phdr \<Rightarrow> u64 \<Rightarrow> u8" where
  "placed_byte ehdr m p a =
    (if unat (a - p_vaddr p) < unat (p_filesz p) then m (ehdr + p_offset p + (a - p_vaddr p)) else 0)"

lemma boot_copy_segment_bytes:
  assumes "segment_ok p"
  shows "boot_copy_segment ehdr p m a = (if a \<in> segment_range p then placed_byte ehdr m p a else m a)"
proof -
  have le: "p_filesz p \<le> p_memsz p" using assms by (simp add: segment_ok_def)
  show ?thesis
    unfolding boot_copy_segment_def Let_def segment_range_def placed_byte_def
    by (subst vm_segment [OF le]) (simp_all add: mem_bytes_def)
qed

lemma boot_copy_segments_bytes:
  assumes "\<forall>p \<in> set (load_segments ps). segment_ok p"
    and "sorted_wrt (\<lambda>p q. segment_range p \<inter> segment_range q = {}) (load_segments ps)" and "file_apart ehdr ps"
  shows "(\<forall>p \<in> set (load_segments ps). \<forall>a \<in> segment_range p. boot_copy_segments ehdr ps m a = placed_byte ehdr m p a)
    \<and> (\<forall>a. a \<notin> (\<Union>p \<in> set (load_segments ps). segment_range p) \<longrightarrow> boot_copy_segments ehdr ps m a = m a)"
  using assms
proof (induction ps arbitrary: m)
  case (Cons p ps)
  show ?case
  proof (cases "p_type p = PT_LOAD")
    case False
    then show ?thesis using Cons by (simp add: load_segments_def file_apart_def)
  next
    case True
    let ?m = "boot_copy_segment ehdr p m"
    have ls: "load_segments (p # ps) = p # load_segments ps" using True by (simp add: load_segments_def)
    have ok: "segment_ok p" and apart: "file_apart ehdr ps" using Cons.prems unfolding ls file_apart_def by auto
    have dis: "\<forall>q \<in> set (load_segments ps). segment_range p \<inter> segment_range q = {}" using Cons.prems(2) unfolding ls by simp
    note one = boot_copy_segment_bytes [OF ok, of ehdr m]
    have run: "boot_copy_segments ehdr (p # ps) m = boot_copy_segments ehdr ps ?m" using True by simp
    have ih: "\<forall>q \<in> set (load_segments ps). \<forall>a \<in> segment_range q. boot_copy_segments ehdr ps ?m a = placed_byte ehdr ?m q a"
      "\<forall>a. a \<notin> (\<Union>q \<in> set (load_segments ps). segment_range q) \<longrightarrow> boot_copy_segments ehdr ps ?m a = ?m a"
      using Cons.IH [of ?m] Cons.prems apart unfolding ls by simp_all
    have src: "placed_byte ehdr ?m q a = placed_byte ehdr m q a" if "q \<in> set (load_segments ps)" for q a
    proof (cases "unat (a - p_vaddr q) < unat (p_filesz q)")
      case True
      have "\<forall>j < unat (p_filesz q). ehdr + p_offset q + of_nat j \<notin> segment_range p"
        using Cons.prems(3) that unfolding file_apart_def ls by auto
      from this [rule_format, OF True] show ?thesis by (simp add: placed_byte_def one)
    qed (simp add: placed_byte_def)
    show ?thesis unfolding run ls
    proof (intro conjI ballI allI impI)
      fix q a assume "q \<in> set (p # load_segments ps)" and a: "a \<in> segment_range q"
      then consider "q = p" | "q \<in> set (load_segments ps)" by auto
      then show "boot_copy_segments ehdr ps ?m a = placed_byte ehdr m q a"
      proof cases
        case 1
        then have "a \<notin> (\<Union>q \<in> set (load_segments ps). segment_range q)" using dis a by blast
        with ih(2) 1 a one show ?thesis by simp
      qed (use a ih(1) src in simp)
    next
      fix a assume "a \<notin> (\<Union>q \<in> set (p # load_segments ps). segment_range q)"
      with ih(2) one show "boot_copy_segments ehdr ps ?m a = m a" by simp
    qed
  qed
qed (simp add: load_segments_def)

text \<open>
  C37: the boot loader places a kernel that is linked for \<open>0x100000\<close> as its file says: every byte of a loadable
  segment is the file's byte, or zero past the bytes the file has, it lies within the pages that were allocated
  for the kernel, and no other byte of memory changes.
\<close>

theorem boot_places_kernel:
  assumes "\<forall>p \<in> set (load_segments ps). segment_ok p"
    and "sorted_wrt (\<lambda>p q. segment_range p \<inter> segment_range q = {}) (load_segments ps)" and "file_apart ehdr ps"
    and "calc_load_address_range ps = (kKernelBase, l)"
  shows "(\<forall>p \<in> set (load_segments ps). \<forall>a \<in> segment_range p.
        boot_copy_segments ehdr ps m a = placed_byte ehdr m p a
        \<and> unat kKernelBase \<le> unat a \<and> unat a < unat kKernelBase + 4096 * unat (kernel_pages ps))
    \<and> (\<forall>a. a \<notin> (\<Union>p \<in> set (load_segments ps). segment_range p) \<longrightarrow> boot_copy_segments ehdr ps m a = m a)"
  using boot_copy_segments_bytes [OF assms(1-3)] kernel_pages_cover [OF assms(4)] assms(1) by simp

theorem boot_places_kernel_witness:
  "boot_copy_segments 0x8000 [sample_phdr 1 0x100000 2 4] (\<lambda>a. if a = 0x8001 then 0xC3 else 0x90) 0x100001 = 0xC3
    \<and> boot_copy_segments 0x8000 [sample_phdr 1 0x100000 2 4] (\<lambda>a. if a = 0x8001 then 0xC3 else 0x90) 0x100003 = 0"
proof -
  let ?p = "sample_phdr 1 0x100000 2 4" and ?m = "\<lambda>a :: u64. if a = 0x8001 then 0xC3 else 0x90 :: u8"
  have ls: "load_segments [?p] = [?p]" by (simp add: load_segments_def sample_phdr_def PT_LOAD_def)
  have ok: "segment_ok ?p" by (simp add: segment_ok_def sample_phdr_def)
  have apart: "file_apart 0x8000 [?p]"
    unfolding file_apart_def ls
    by (auto simp: sample_phdr_def segment_range_def less_2_cases_iff)
  have r: "calc_load_address_range [?p] = (kKernelBase, 0x100004)"
    by (simp add: calc_load_address_range_def sample_phdr_def PT_LOAD_def kKernelBase_def)
  have "0x100001 \<in> segment_range ?p" "0x100003 \<in> segment_range ?p" by (simp_all add: segment_range_def sample_phdr_def)
  then show ?thesis
    using boot_places_kernel [of "[?p]" "0x8000" "0x100004" ?m] apart r ok unfolding ls
    by (simp add: placed_byte_def sample_phdr_def)
qed

section \<open>The map the kernel gets\<close>

text \<open>
  What UEFI documents of its services, for a firmware that tells its memory map and the key of it from its state:
  \<open>GetMemoryMap\<close> reports the current map and its key, a key stands for one map, and \<open>ExitBootServices\<close>
  accepts the current key only and leaves the map as it is.
\<close>

definition uefi_documented ::
  "'s firmware \<Rightarrow> ('s \<Rightarrow> memory_descriptor list) \<Rightarrow> ('s \<Rightarrow> u64) \<Rightarrow> bool" where
  "uefi_documented fw current_map current_key \<longleftrightarrow>
    (\<forall>n s status r s'. fw_get_memory_map fw n s = (status, r, s') \<and> \<not> efi_error status \<longrightarrow>
       mr_descriptors r = current_map s' \<and> mr_map_key r = current_key s')
    \<and> (\<forall>s t. current_key s = current_key t \<longrightarrow> current_map s = current_map t)
    \<and> (\<forall>key s status s'. fw_exit_boot_services fw key s = (status, s') \<and> \<not> efi_error status \<longrightarrow>
       key = current_key s \<and> current_map s' = current_map s)"

lemma get_memory_map_current:
  assumes d: "uefi_documented fw current_map current_key"
    and g: "get_memory_map fw mm s = (status, mm', s')" "\<not> efi_error status"
  shows "mm_descriptors mm' = current_map s' \<and> mm_map_key mm' = current_key s'"
proof (cases "mm_buffer mm = 0")
  case True
  then show ?thesis using g by (auto simp: get_memory_map_def EFI_BUFFER_TOO_SMALL_def efi_error_def)
next
  case False
  obtain st r s1 where r: "fw_get_memory_map fw (mm_buffer_size mm) s = (st, r, s1)" by (metis prod_cases3)
  then have "st = status" "s1 = s'" "mm_descriptors mm' = mr_descriptors r" "mm_map_key mm' = mr_map_key r"
    using g(1) False by (auto simp: get_memory_map_def)
  with d r g(2) show ?thesis unfolding uefi_documented_def by metis
qed

lemma exit_boot_services_current:
  assumes d: "uefi_documented fw current_map current_key"
    and mm: "mm_descriptors mm = current_map t" "mm_map_key mm = current_key t"
    and e: "exit_boot_services fw mm s = Some (mm', s')"
  shows "mm_descriptors mm' = current_map s'"
proof -
  have accepted: "mm_descriptors m = current_map s3"
    if "mm_descriptors m = current_map u" "mm_map_key m = current_key u"
      and "fw_exit_boot_services fw (mm_map_key m) s2 = (st, s3)" "\<not> efi_error st" for m u s2 st s3
    using d that unfolding uefi_documented_def by metis
  obtain st1 s1 where x1: "fw_exit_boot_services fw (mm_map_key mm) s = (st1, s1)" by (metis prod.exhaust)
  show ?thesis
  proof (cases "efi_error st1")
    case False
    then have "mm' = mm" "s' = s1" using e x1 by (auto simp: exit_boot_services_def)
    then show ?thesis using accepted [OF mm x1 False] by simp
  next
    case True
    obtain st2 mm2 s2 where g: "get_memory_map fw mm s1 = (st2, mm2, s2)" by (metis prod_cases3)
    obtain st3 s3 where x2: "fw_exit_boot_services fw (mm_map_key mm2) s2 = (st3, s3)" by (metis prod.exhaust)
    have ne: "\<not> efi_error st2" "\<not> efi_error st3" "mm' = mm2" "s' = s3"
      using e x1 True g x2 by (auto simp: exit_boot_services_def split: if_splits)
    have "mm_descriptors mm2 = current_map s2" "mm_map_key mm2 = current_key s2"
      using get_memory_map_current [OF d g ne(1)] by simp_all
    then show ?thesis using accepted [OF _ _ x2 ne(2)] ne(3,4) by simp
  qed
qed

text \<open>
  C38: on firmware that does what UEFI documents the memory map the kernel is called with is the firmware's map
  at that moment, although the loader asked for it before it allocated the kernel's pages and the buffers
  of its files; the frame buffer, the resolution and the pixel format are those of the graphics mode.
\<close>

theorem kernel_gets_current_map:
  assumes d: "uefi_documented fw current_map current_key" and buf: "bi_memmap_buffer inp \<noteq> 0"
    and first: "\<not> efi_error (fst (fw_get_memory_map fw (4096 * 4) s))"
    and run: "uefi_main fw inp m s = Some (call, s')"
  shows "mm_descriptors (kc_memory_map call) = current_map s'
    \<and> (\<exists>mode t. fw_gop fw t = (Some mode, snd (fw_gop fw t)) \<and> kc_frame_buffer call = gm_frame_buffer_base mode
      \<and> fc_horizontal_resolution (kc_config call) = gm_horizontal_resolution mode
      \<and> fc_vertical_resolution (kc_config call) = gm_vertical_resolution mode
      \<and> boot_pixel_format (gm_pixel_format mode) = Some (fc_pixel_format (kc_config call)))"
proof -
  let ?mm0 = "\<lparr>mm_buffer_size = 4096 * 4, mm_buffer = bi_memmap_buffer inp, mm_map_size = 0, mm_map_key = 0,
    mm_descriptor_size = 0, mm_descriptor_version = 0, mm_descriptors = []\<rparr>"
  obtain st memmap s1 where g: "get_memory_map fw ?mm0 s = (st, memmap, s1)" by (metis prod_cases3)
  have ok: "\<not> efi_error st" using first buf g by (auto simp: get_memory_map_def split: prod.splits)
  obtain root s2 where root: "fw_root_dir fw s1 = (root, s2)" by (metis prod.exhaust)
  obtain gop s3 where gop: "fw_gop fw s2 = (gop, s3)" by (metis prod.exhaust)
  obtain mode s5 memmap' where mode: "gop = Some mode" and x: "exit_boot_services fw memmap s5 = Some (memmap', s')"
    and c: "kc_memory_map call = memmap'" "kc_frame_buffer call = gm_frame_buffer_base mode"
      "fc_horizontal_resolution (kc_config call) = gm_horizontal_resolution mode"
      "fc_vertical_resolution (kc_config call) = gm_vertical_resolution mode"
      "boot_pixel_format (gm_pixel_format mode) = Some (fc_pixel_format (kc_config call))"
    using run g root gop by (auto simp: uefi_main_def bind_eq_Some_conv)
  have "mm_descriptors memmap = current_map s1" "mm_map_key memmap = current_key s1"
    using get_memory_map_current [OF d g ok] by simp_all
  from exit_boot_services_current [OF d this x] c gop mode show ?thesis by (metis snd_conv)
qed

text \<open>A firmware whose state is the key of its memory map, which every allocation changes.\<close>

definition sample_descriptor :: "u64 \<Rightarrow> memory_descriptor" where
  "sample_descriptor n = \<lparr>md_type = 7, md_physical_start = 0, md_virtual_start = 0, md_number_of_pages = n, md_attribute = 0\<rparr>"

definition sample_mode :: gop_mode where
  "sample_mode = \<lparr>gm_frame_buffer_base = 0x80000000, gm_frame_buffer_size = 0, gm_horizontal_resolution = 800,
    gm_vertical_resolution = 600, gm_pixels_per_scan_line = 800,
    gm_pixel_format = PixelBlueGreenRedReserved8BitPerColor\<rparr>"

definition sample_firmware :: "u64 firmware" where
  "sample_firmware =
    \<lparr>fw_get_memory_map = (\<lambda>n s. (0, \<lparr>mr_map_size = 48, mr_map_key = s, mr_descriptor_size = 48,
       mr_descriptor_version = 1, mr_descriptors = [sample_descriptor s]\<rparr>, s)),
     fw_root_dir = (\<lambda>s. (Some 0, s)), fw_gop = (\<lambda>s. (Some sample_mode, s)), fw_open = (\<lambda>dir name s. (0, 1, s)),
     fw_get_info = (\<lambda>f n s. (0, 2, s)), fw_allocate_pool = (\<lambda>n s. (0, 0x9000, s + 1)),
     fw_read = (\<lambda>f n s. (0, [0x90, 0xC3], s)), fw_allocate_pages = (\<lambda>n a s. (0, s + 1)),
     fw_block_io = (\<lambda>s. (0x8000000000000003, \<lparr>bm_media_id = 0, bm_block_size = 0, bm_last_block = 0\<rparr>, s)),
     fw_read_blocks = (\<lambda>i lba n s. (0, [], s)),
     fw_exit_boot_services = (\<lambda>key s. (if key = s then 0 else 0x8000000000000002, s))\<rparr>"

definition sample_boot :: boot_input where
  "sample_boot = \<lparr>bi_configuration_table = [], bi_acpi_guid = [], bi_memmap_buffer = 0x7000,
    bi_program_headers = (\<lambda>m a. []), bi_entry = (\<lambda>m a. 0x100000)\<rparr>"

theorem kernel_gets_current_map_witness:
  "\<exists>call. uefi_main sample_firmware sample_boot (\<lambda>_. 0) 7 = Some (call, 10)
    \<and> mm_descriptors (kc_memory_map call) = [sample_descriptor 10] \<and> fc_horizontal_resolution (kc_config call) = 800"
proof -
  have d: "uefi_documented sample_firmware (\<lambda>s. [sample_descriptor s]) (\<lambda>s. s)"
    by (auto simp: uefi_documented_def sample_firmware_def efi_error_def bit_numeral_word_iff split: if_splits)
  have e: "\<not> efi_error 0" "efi_error 0x8000000000000002" by (simp_all add: efi_error_def bit_iff_odd_drop_bit)
  obtain call where run: "uefi_main sample_firmware sample_boot (\<lambda>_. 0) 7 = Some (call, 10)"
    by (simp add: uefi_main_def get_memory_map_def load_kernel_def load_volume_def exit_boot_services_def read_file_def
        sample_firmware_def sample_boot_def Let_def e EFI_SUCCESS_def boot_pixel_format_def sample_mode_def)
  have "bi_memmap_buffer sample_boot \<noteq> 0" "\<not> efi_error (fst (fw_get_memory_map sample_firmware (4096 * 4) 7))"
    by (simp_all add: sample_boot_def sample_firmware_def e)
  from kernel_gets_current_map [OF d this run] run show ?thesis by (auto simp: sample_firmware_def sample_mode_def)
qed

section \<open>Names\<close>

fun memory_type_name :: "memory_type \<Rightarrow> string" where
  "memory_type_name EfiReservedMemoryType = ''EfiReservedMemoryType''"
| "memory_type_name EfiLoaderCode = ''EfiLoaderCode''"
| "memory_type_name EfiLoaderData = ''EfiLoaderData''"
| "memory_type_name EfiBootServicesCode = ''EfiBootServicesCode''"
| "memory_type_name EfiBootServicesData = ''EfiBootServicesData''"
| "memory_type_name EfiRuntimeServicesCode = ''EfiRuntimeServicesCode''"
| "memory_type_name EfiRuntimeServicesData = ''EfiRuntimeServicesData''"
| "memory_type_name EfiConventionalMemory = ''EfiConventionalMemory''"
| "memory_type_name EfiUnusableMemory = ''EfiUnusableMemory''"
| "memory_type_name EfiACPIReclaimMemory = ''EfiACPIReclaimMemory''"
| "memory_type_name EfiACPIMemoryNVS = ''EfiACPIMemoryNVS''"
| "memory_type_name EfiMemoryMappedIO = ''EfiMemoryMappedIO''"
| "memory_type_name EfiMemoryMappedIOPortSpace = ''EfiMemoryMappedIOPortSpace''"
| "memory_type_name EfiPalCode = ''EfiPalCode''"
| "memory_type_name EfiPersistentMemory = ''EfiPersistentMemory''"
| "memory_type_name EfiMaxMemoryType = ''EfiMaxMemoryType''"

definition memory_types :: "memory_type list" where
  "memory_types =
    [EfiReservedMemoryType, EfiLoaderCode, EfiLoaderData, EfiBootServicesCode, EfiBootServicesData,
     EfiRuntimeServicesCode, EfiRuntimeServicesData, EfiConventionalMemory, EfiUnusableMemory, EfiACPIReclaimMemory,
     EfiACPIMemoryNVS, EfiMemoryMappedIO, EfiMemoryMappedIOPortSpace, EfiPalCode, EfiPersistentMemory, EfiMaxMemoryType]"

text \<open>\<open>GetMemoryTypeUnicode\<close>, of a type as a descriptor has it.\<close>

definition get_memory_type_unicode :: "u32 \<Rightarrow> string" where
  "get_memory_type_unicode t =
    (case List.find (\<lambda>k. memory_type_code k = t) memory_types of
       Some k \<Rightarrow> memory_type_name k | None \<Rightarrow> ''InvalidMemoryType'')"

fun get_pixel_format_unicode :: "gop_pixel_format \<Rightarrow> string" where
  "get_pixel_format_unicode PixelRedGreenBlueReserved8BitPerColor = ''PixelRedGreenBlueReserved8BitPerColor''"
| "get_pixel_format_unicode PixelBlueGreenRedReserved8BitPerColor = ''PixelBlueGreenRedReserved8BitPerColor''"
| "get_pixel_format_unicode PixelBitMask = ''PixelBitMask''"
| "get_pixel_format_unicode PixelBltOnly = ''PixelBltOnly''"
| "get_pixel_format_unicode PixelFormatMax = ''PixelFormatMax''"

text \<open>Every type has its own name, and no other number has one.\<close>

lemma memory_type_names:
  "get_memory_type_unicode (memory_type_code k) = memory_type_name k"
  "(\<forall>k. t \<noteq> memory_type_code k) \<Longrightarrow> get_memory_type_unicode t = ''InvalidMemoryType''"
proof -
  show "get_memory_type_unicode (memory_type_code k) = memory_type_name k"
    by (cases k) (simp_all add: get_memory_type_unicode_def memory_types_def)
  show "(\<forall>k. t \<noteq> memory_type_code k) \<Longrightarrow> get_memory_type_unicode t = ''InvalidMemoryType''"
    by (auto simp: get_memory_type_unicode_def dest: find_eq_SomeD split: option.splits)
qed

end
