(* ===== verification/App_Rpn.thy ===== *)
theory App_Rpn
  imports Terminal_Exec
begin

text \<open>
  The calculator \<open>apps/rpn/rpn.cpp\<close> and how the terminal hands it its arguments.

  The run of the application is the list of what it does: log lines, text it prints and its exit.  A
  \<open>long\<close> is an \<open>int\<close> whose range is checked; overflow and access outside the array \<open>stack\<close> are \<open>None\<close>.
\<close>

section \<open>The C library\<close>

definition long_ok :: "int \<Rightarrow> bool" where
  "long_ok n \<longleftrightarrow> - (2 ^ 63) \<le> n \<and> n < 2 ^ 63"

definition is_digit :: "char \<Rightarrow> bool" where
  "is_digit c \<longleftrightarrow> 48 \<le> (of_char c :: nat) \<and> (of_char c :: nat) \<le> 57"

fun digits_value :: "int \<Rightarrow> string \<Rightarrow> int" where
  "digits_value n [] = n"
| "digits_value n (c # cs) = (if is_digit c then digits_value (n * 10 + (of_char c - 48)) cs else n)"

text \<open>\<open>atol\<close>: space, a sign and digits; undefined when the number does not fit.\<close>

definition atol :: "string \<Rightarrow> int option" where
  "atol s =
    (let t = dropWhile isspace s;
         n = (case t of [] \<Rightarrow> 0
              | c # cs \<Rightarrow> if c = CHR ''-'' then - digits_value 0 cs
                         else if c = CHR ''+'' then digits_value 0 cs else digits_value 0 t)
     in if long_ok n then Some n else None)"

text \<open>The conversion \<open>%ld\<close>.\<close>

definition ld_string :: "int \<Rightarrow> string" where
  "ld_string n = (if n < 0 then CHR ''-'' # dec_string (nat (- n)) else dec_string (nat n))"

section \<open>The calculator\<close>

datatype app_event = AppLog string | AppPrint string | AppExit int

record rpn_state =
  rp_stack :: "int list"
  rp_stack_idx :: int
  rp_error_count :: int
  rp_events :: "app_event list"

definition rpn_pop :: "rpn_state \<Rightarrow> (int \<times> rpn_state) option" where
  "rpn_pop st =
    (if 0 \<le> rp_stack_idx st then do {
       v \<leftarrow> arr_get (rp_stack st) (nat (rp_stack_idx st));
       Some (v, st\<lparr>rp_stack_idx := rp_stack_idx st - 1\<rparr>)
     } else None)"

definition rpn_push :: "int \<Rightarrow> rpn_state \<Rightarrow> rpn_state option" where
  "rpn_push v st =
    (let i = rp_stack_idx st + 1 in
     if 0 \<le> i then do {
       stack \<leftarrow> arr_set (rp_stack st) (nat i) v;
       Some (st\<lparr>rp_stack := stack, rp_stack_idx := i\<rparr>)
     } else None)"

definition rpn_event :: "app_event \<Rightarrow> rpn_state \<Rightarrow> rpn_state" where
  "rpn_event e st = st\<lparr>rp_events := rp_events st @ [e]\<rparr>"

text \<open>An operator: the second operand is on top.\<close>

definition rpn_operator :: "(int \<Rightarrow> int \<Rightarrow> int) \<Rightarrow> string \<Rightarrow> rpn_state \<Rightarrow> rpn_state option" where
  "rpn_operator f name st = do {
     (b, st1) \<leftarrow> rpn_pop st;
     (a, st2) \<leftarrow> rpn_pop st1;
     if long_ok (f a b) then map_option (rpn_event (AppLog name)) (rpn_push (f a b) st2) else None
   }"

text \<open>The body of the loop up to the check of the stack.\<close>

definition rpn_token :: "string \<Rightarrow> rpn_state \<Rightarrow> rpn_state option" where
  "rpn_token arg st =
    (if arg = ''+'' then rpn_operator (+) ''+'' st
     else if arg = ''-'' then rpn_operator (-) ''-'' st
     else do {
       a \<leftarrow> atol arg;
       map_option (rpn_event (AppLog ''#''))
         (rpn_push a (if a = 0 then st\<lparr>rp_error_count := rp_error_count st + 1\<rparr> else st))
     })"

text \<open>The loop; true when it ended in the exit for a stack overflow.\<close>

fun rpn_loop :: "string list \<Rightarrow> rpn_state \<Rightarrow> (bool \<times> rpn_state) option" where
  "rpn_loop [] st = Some (False, st)"
| "rpn_loop (arg # args) st = do {
     st1 \<leftarrow> rpn_token arg st;
     if rp_stack_idx st1 < 0 \<or> 128 \<le> rp_stack_idx st1
     then Some (True, rpn_event (AppExit 1) (rpn_event (AppPrint (''calculate stack is overflow.'' @ [CHR ''\<newline>''])) st1))
     else rpn_loop args st1
   }"

text \<open>A \<open>long\<close> passed as an \<open>int\<close>.\<close>

definition exit_code :: "int \<Rightarrow> int" where
  "exit_code n = sint (word_of_int n :: u32)"

text \<open>\<open>main\<close>; \<open>argv\<close> starts with the name of the command, and \<open>stack\<close> holds what was in memory.\<close>

definition rpn_main :: "int list \<Rightarrow> string list \<Rightarrow> app_event list option" where
  "rpn_main stack argv = do {
     (exited, st) \<leftarrow> rpn_loop (drop 1 argv) \<lparr>rp_stack = stack, rp_stack_idx = - 1, rp_error_count = 0, rp_events = []\<rparr>;
     if exited then Some (rp_events st)
     else if 0 < rp_error_count st
     then Some (rp_events (rpn_event (AppExit 1) (rpn_event (AppPrint ''there is errors'') st)))
     else do {
       (result, st1) \<leftarrow> rpn_pop st;
       Some (rp_events (rpn_event (AppExit (exit_code result))
         (rpn_event (AppPrint (''result = '' @ ld_string result @ [CHR ''\<newline>''])) st1)))
     }
   }"

section \<open>Numbers\<close>

lemma digit_of: "n < 10 \<Longrightarrow> of_char (char_of (48 + n :: nat)) = (48 + n :: nat)"
  by (simp add: of_char_of take_bit_eq_mod)

lemma dec_string_step: "dec_string n = (if n < 10 then [char_of (48 + n)] else dec_string (n div 10) @ [char_of (48 + n mod 10)])"
  by (rule dec_string.simps)

lemma digit_is: "n < 10 \<Longrightarrow> is_digit (char_of (48 + n :: nat))"
  by (simp add: is_digit_def digit_of)

lemma dec_string_digits: "\<forall>c \<in> set (dec_string n). is_digit c"
proof (induction n rule: dec_string.induct)
  case (1 n)
  then show ?case by (subst dec_string_step) (auto simp: digit_is)
qed

lemma dec_string_ne: "dec_string n \<noteq> []"
  by (subst dec_string_step) simp

lemma digits_value_append:
  "\<forall>c \<in> set xs. is_digit c \<Longrightarrow> digits_value n (xs @ ys) = digits_value (digits_value n xs) ys"
  by (induction xs arbitrary: n) auto

lemma of_char_int: "(of_char c :: int) = int (of_char c :: nat)"
  by (simp add: of_nat_of_char)

lemma digits_value_dec: "digits_value 0 (dec_string n) = int n"
proof (induction n rule: dec_string.induct)
  case (1 n)
  show ?case
  proof (cases "n < 10")
    case True
    then show ?thesis by (subst dec_string_step) (simp add: digit_is of_char_int digit_of)
  next
    case False
    have "digits_value 0 (dec_string n) = digits_value (int (n div 10)) [char_of (48 + n mod 10)]"
      using False 1 [OF False] by (subst dec_string_step) (simp add: digits_value_append dec_string_digits)
    also have "\<dots> = int (n div 10) * 10 + int (n mod 10)" by (simp add: digit_is of_char_int digit_of)
    also have "\<dots> = int n" by (metis div_mult_mod_eq of_nat_add of_nat_mult of_nat_numeral)
    finally show ?thesis .
  qed
qed

lemma digit_not_special: "is_digit c \<Longrightarrow> \<not> isspace c \<and> c \<noteq> CHR ''-'' \<and> c \<noteq> CHR ''+'' \<and> c \<noteq> nul_char"
  by (auto simp: is_digit_def isspace_def of_char_def)

text \<open>Reading back a number that was printed.\<close>

lemma atol_ld_string: "long_ok n \<Longrightarrow> atol (ld_string n) = Some n"
proof -
  assume n: "long_ok n"
  have d: "\<exists>c cs. dec_string k = c # cs \<and> is_digit c" for k
    using dec_string_ne [of k] dec_string_digits [of k] by (cases "dec_string k") auto
  show ?thesis
  proof (cases "n < 0")
    case True
    then have "atol (ld_string n) = (if long_ok (- int (nat (- n))) then Some (- int (nat (- n))) else None)"
      by (simp add: atol_def ld_string_def isspace_def digits_value_dec)
    then show ?thesis using True n by simp
  next
    case False
    obtain c cs where c: "dec_string (nat n) = c # cs" "is_digit c" using d by blast
    then have "atol (ld_string n) = (if long_ok (digits_value 0 (dec_string (nat n))) then Some (digits_value 0 (dec_string (nat n))) else None)"
      using False digit_not_special [OF c(2)] by (simp add: atol_def ld_string_def)
    then show ?thesis using False n by (simp add: digits_value_dec)
  qed
qed

section \<open>Expressions in postfix notation\<close>

datatype rpn_expr = Num int | Add rpn_expr rpn_expr | Sub rpn_expr rpn_expr

fun rpn_value :: "rpn_expr \<Rightarrow> int" where
  "rpn_value (Num n) = n"
| "rpn_value (Add a b) = rpn_value a + rpn_value b"
| "rpn_value (Sub a b) = rpn_value a - rpn_value b"

fun postfix :: "rpn_expr \<Rightarrow> string list" where
  "postfix (Num n) = [ld_string n]"
| "postfix (Add a b) = postfix a @ postfix b @ [''+'']"
| "postfix (Sub a b) = postfix a @ postfix b @ [''-'']"

text \<open>How many values are on the stack at once.\<close>

fun rpn_depth :: "rpn_expr \<Rightarrow> nat" where
  "rpn_depth (Num n) = 1"
| "rpn_depth (Add a b) = max (rpn_depth a) (rpn_depth b + 1)"
| "rpn_depth (Sub a b) = max (rpn_depth a) (rpn_depth b + 1)"

text \<open>Numbers other than zero, and values that fit on the way.\<close>

fun rpn_fits :: "rpn_expr \<Rightarrow> bool" where
  "rpn_fits (Num n) = (n \<noteq> 0 \<and> long_ok n)"
| "rpn_fits (Add a b) = (rpn_fits a \<and> rpn_fits b \<and> long_ok (rpn_value a + rpn_value b))"
| "rpn_fits (Sub a b) = (rpn_fits a \<and> rpn_fits b \<and> long_ok (rpn_value a - rpn_value b))"

fun rpn_logs :: "rpn_expr \<Rightarrow> app_event list" where
  "rpn_logs (Num n) = [AppLog ''#'']"
| "rpn_logs (Add a b) = rpn_logs a @ rpn_logs b @ [AppLog ''+'']"
| "rpn_logs (Sub a b) = rpn_logs a @ rpn_logs b @ [AppLog ''-'']"

text \<open>A state with the values \<open>vs\<close> on the stack, the last one on top.\<close>

definition holds :: "int list \<Rightarrow> app_event list \<Rightarrow> rpn_state \<Rightarrow> bool" where
  "holds vs es st \<longleftrightarrow> length (rp_stack st) = 128 \<and> length vs \<le> 128 \<and> rp_stack_idx st = int (length vs) - 1
    \<and> take (length vs) (rp_stack st) = vs \<and> rp_error_count st = 0 \<and> rp_events st = es"

lemma holds_pop: "holds (vs @ [v]) es st \<Longrightarrow> \<exists>st'. rpn_pop st = Some (v, st') \<and> holds vs es st'"
proof -
  assume h: "holds (vs @ [v]) es st"
  then have t: "take (Suc (length vs)) (rp_stack st) = vs @ [v]" and l: "length vs < length (rp_stack st)"
    by (simp_all add: holds_def)
  then have "take (length vs) (rp_stack st) = vs" "rp_stack st ! length vs = v"
    by (simp_all add: take_Suc_conv_app_nth)
  then show ?thesis using h l by (auto simp: rpn_pop_def holds_def arr_get_def)
qed

lemma holds_push:
  "holds vs es st \<Longrightarrow> length vs < 128 \<Longrightarrow> \<exists>st'. rpn_push v st = Some st' \<and> holds (vs @ [v]) es st'"
  by (auto simp: rpn_push_def holds_def arr_set_def Let_def take_Suc_conv_app_nth)

lemma holds_event: "holds vs es st \<Longrightarrow> holds vs (es @ [e]) (rpn_event e st)"
  by (simp add: holds_def rpn_event_def)

lemma holds_top: "holds (vs @ [v]) es st \<Longrightarrow> 0 \<le> rp_stack_idx st \<and> rp_stack_idx st < 128"
  by (simp add: holds_def)

lemma holds_operator:
  assumes "holds (vs @ [a, b]) es st" and "long_ok (f a b)"
  shows "\<exists>st'. rpn_operator f name st = Some st' \<and> holds (vs @ [f a b]) (es @ [AppLog name]) st'"
proof -
  obtain st1 where p: "rpn_pop st = Some (b, st1)" "holds (vs @ [a]) es st1" using holds_pop [of "vs @ [a]" b] assms(1) by auto
  obtain st2 where q: "rpn_pop st1 = Some (a, st2)" "holds vs es st2" using holds_pop [OF p(2)] by auto
  have "length vs < 128" using assms(1) by (simp add: holds_def)
  from holds_push [OF q(2) this] obtain st3 where "rpn_push (f a b) st2 = Some st3" "holds (vs @ [f a b]) es st3" by blast
  then show ?thesis using p(1) q(1) assms(2) by (auto simp: rpn_operator_def intro: holds_event)
qed

lemma not_digit: "\<not> is_digit CHR ''+''" "\<not> is_digit CHR ''-''"
  by (simp_all add: is_digit_def of_char_def)

lemma ld_string_not_operator: "ld_string n \<noteq> ''+''" "ld_string n \<noteq> ''-''"
  using dec_string_ne dec_string_digits [of "nat n"] not_digit by (auto simp: ld_string_def)

lemma rpn_depth_pos: "1 \<le> rpn_depth e"
  by (induction e) auto

lemma rpn_loop_postfix:
  "holds vs es st \<Longrightarrow> rpn_fits e \<Longrightarrow> length vs + rpn_depth e \<le> 128 \<Longrightarrow>
    \<exists>st'. holds (vs @ [rpn_value e]) (es @ rpn_logs e) st' \<and> rpn_loop (postfix e @ args) st = rpn_loop args st'"
proof (induction e arbitrary: vs es st args)
  case (Num n)
  obtain st' where p: "rpn_push n st = Some st'" "holds (vs @ [n]) es st'" using holds_push [OF Num(1)] Num(3) by auto
  have h: "holds (vs @ [n]) (es @ [AppLog ''#'']) (rpn_event (AppLog ''#'') st')" by (rule holds_event [OF p(2)])
  then show ?case using p(1) Num(2) holds_top [OF h]
    by (auto simp: rpn_token_def ld_string_not_operator atol_ld_string)
next
  case (Add a b)
  have fits: "rpn_fits a" "rpn_fits b" "length vs + rpn_depth a \<le> 128" using Add.prems(2,3) by simp_all
  obtain st1 where a: "holds (vs @ [rpn_value a]) (es @ rpn_logs a) st1"
    "rpn_loop (postfix a @ postfix b @ [''+''] @ args) st = rpn_loop (postfix b @ [''+''] @ args) st1"
    using Add.IH(1) [OF Add.prems(1) fits(1,3)] by blast
  have "length (vs @ [rpn_value a]) + rpn_depth b \<le> 128" using Add.prems(3) by simp
  then obtain st2 where b: "holds (vs @ [rpn_value a, rpn_value b]) (es @ rpn_logs a @ rpn_logs b) st2"
    "rpn_loop (postfix b @ [''+''] @ args) st1 = rpn_loop ([''+''] @ args) st2"
    using Add.IH(2) [OF a(1) fits(2)] by (auto simp del: rpn_loop.simps)
  obtain st3 where c: "rpn_operator (+) ''+'' st2 = Some st3"
    "holds (vs @ [rpn_value a + rpn_value b]) ((es @ rpn_logs a @ rpn_logs b) @ [AppLog ''+'']) st3"
    using holds_operator [OF b(1), of "(+)"] Add.prems(2) by auto
  show ?case using a(2) b(2) c holds_top [OF c(2)] by (auto simp: rpn_token_def)
next
  case (Sub a b)
  have fits: "rpn_fits a" "rpn_fits b" "length vs + rpn_depth a \<le> 128" using Sub.prems(2,3) by simp_all
  obtain st1 where a: "holds (vs @ [rpn_value a]) (es @ rpn_logs a) st1"
    "rpn_loop (postfix a @ postfix b @ [''-''] @ args) st = rpn_loop (postfix b @ [''-''] @ args) st1"
    using Sub.IH(1) [OF Sub.prems(1) fits(1,3)] by blast
  have "length (vs @ [rpn_value a]) + rpn_depth b \<le> 128" using Sub.prems(3) by simp
  then obtain st2 where b: "holds (vs @ [rpn_value a, rpn_value b]) (es @ rpn_logs a @ rpn_logs b) st2"
    "rpn_loop (postfix b @ [''-''] @ args) st1 = rpn_loop ([''-''] @ args) st2"
    using Sub.IH(2) [OF a(1) fits(2)] by (auto simp del: rpn_loop.simps)
  obtain st3 where c: "rpn_operator (-) ''-'' st2 = Some st3"
    "holds (vs @ [rpn_value a - rpn_value b]) ((es @ rpn_logs a @ rpn_logs b) @ [AppLog ''-'']) st3"
    using holds_operator [OF b(1), of "(-)"] Sub.prems(2) by auto
  show ?case using a(2) b(2) c holds_top [OF c(2)] by (auto simp: rpn_token_def)
qed

text \<open>
  C39: given an expression in postfix notation, with no zero among its numbers, values that fit into a \<open>long\<close> and
  at most 128 of them on the stack at once, the calculator logs each token, prints the value of the expression
  and exits with it, cut to an \<open>int\<close>.
\<close>

theorem rpn_evaluates:
  assumes "rpn_fits e" and "rpn_depth e \<le> 128" and "length stack = 128"
  shows "rpn_main stack (command # postfix e) =
    Some (rpn_logs e @ [AppPrint (''result = '' @ ld_string (rpn_value e) @ [CHR ''\<newline>'']), AppExit (exit_code (rpn_value e))])"
proof -
  let ?st = "\<lparr>rp_stack = stack, rp_stack_idx = - 1, rp_error_count = 0, rp_events = []\<rparr>"
  have "holds [] [] ?st" using assms(3) by (simp add: holds_def)
  then obtain st' where h: "holds [rpn_value e] (rpn_logs e) st'" "rpn_loop (postfix e) ?st = Some (False, st')"
    using rpn_loop_postfix [of "[]" "[]" ?st e "[]"] assms(1,2) by auto
  obtain st2 where p: "rpn_pop st' = Some (rpn_value e, st2)" "holds [] (rpn_logs e) st2"
    using holds_pop [of "[]" "rpn_value e"] h(1) by auto
  show ?thesis using h p by (simp add: rpn_main_def holds_def rpn_event_def)
qed

theorem rpn_evaluates_witness:
  "rpn_main (replicate 128 7) [''rpn'', ''1'', ''2'', ''+'', ''30'', ''-''] =
    Some [AppLog ''#'', AppLog ''#'', AppLog ''+'', AppLog ''#'', AppLog ''-'',
      AppPrint (''result = -27'' @ [CHR ''\<newline>'']), AppExit (- 27)]"
proof -
  let ?e = "Sub (Add (Num 1) (Num 2)) (Num 30)"
  have f: "rpn_fits ?e" by (simp add: long_ok_def)
  have p: "postfix ?e = [''1'', ''2'', ''+'', ''30'', ''-'']" "ld_string (rpn_value ?e) = ''-27''" "exit_code (rpn_value ?e) = - 27"
    by code_simp+
  show ?thesis using rpn_evaluates [OF f, of "replicate 128 7" "''rpn''"] unfolding p by simp
qed

section \<open>The check that comes too late\<close>

lemma rpn_push_in:
  "rpn_push v st = Some st' \<Longrightarrow> length (rp_stack st) = 128 \<Longrightarrow>
    length (rp_stack st') = 128 \<and> 0 \<le> rp_stack_idx st' \<and> rp_stack_idx st' < 128"
  by (auto simp: rpn_push_def Let_def bind_eq_Some_conv split: if_splits)

lemma rpn_pop_stack: "rpn_pop st = Some (v, st') \<Longrightarrow> rp_stack st' = rp_stack st"
  by (auto simp: rpn_pop_def bind_eq_Some_conv split: if_splits)

lemma rpn_token_in:
  "rpn_token arg st = Some st' \<Longrightarrow> length (rp_stack st) = 128 \<Longrightarrow>
    length (rp_stack st') = 128 \<and> 0 \<le> rp_stack_idx st' \<and> rp_stack_idx st' < 128"
  by (auto simp: rpn_token_def rpn_operator_def rpn_event_def bind_eq_Some_conv split: if_splits
      dest!: rpn_push_in rpn_pop_stack)

text \<open>
  The check of the stack after each token never finds anything: a token that would leave the index outside
  has read or written outside the array before.
\<close>

lemma rpn_check_never_fires:
  "rpn_loop args st = Some (exited, st') \<Longrightarrow> length (rp_stack st) = 128 \<Longrightarrow> \<not> exited"
  by (induction args arbitrary: st) (fastforce simp: bind_eq_Some_conv dest: rpn_token_in split: if_splits)+

section \<open>The arguments the terminal passes\<close>

text \<open>The strings one after the other, each with its zero.\<close>

definition packed :: "string list \<Rightarrow> string" where
  "packed strs = concat (map (\<lambda>s. s @ [nul_char]) strs)"

definition args_hold :: "string list \<Rightarrow> arg_vector \<Rightarrow> bool" where
  "args_hold strs v \<longleftrightarrow> av_argc v = length strs \<and> av_index v = length (packed strs)
    \<and> av_argv v = map (\<lambda>i. length (packed (take i strs))) [0..<length strs]
    \<and> av_index v \<le> length (av_argbuf v) \<and> take (av_index v) (av_argbuf v) = packed strs"

text \<open>What the application reads at its pointers.\<close>

definition argv_strings :: "arg_vector \<Rightarrow> string option list" where
  "argv_strings v = map (\<lambda>off. c_chars (drop off (av_argbuf v))) (av_argv v)"

lemma packed_snoc: "packed (strs @ [s]) = packed strs @ s @ [nul_char]"
  by (simp add: packed_def)

lemma args_hold_push:
  assumes h: "args_hold strs v" and n: "length strs < n" and fits: "length (packed (strs @ [s])) \<le> length (av_argbuf v)"
  shows "\<exists>v'. push_to_argv n s v = Some (KSuccess, v') \<and> args_hold (strs @ [s]) v'
    \<and> length (av_argbuf v') = length (av_argbuf v)"
proof -
  have l: "length (packed strs) + length s + 1 \<le> length (av_argbuf v)" using fits by (simp add: packed_snoc)
  have t: "take (length (packed strs)) (av_argbuf v) = packed strs" using h unfolding args_hold_def by metis
  let ?v = "v\<lparr>av_argv := av_argv v @ [av_index v],
    av_argbuf := take (av_index v) (av_argbuf v) @ s @ nul_char # drop (av_index v + length s + 1) (av_argbuf v),
    av_index := av_index v + length s + 1, av_argc := av_argc v + 1\<rparr>"
  have "push_to_argv n s v = Some (KSuccess, ?v)" using h n l by (simp add: push_to_argv_def args_hold_def)
  moreover have "args_hold (strs @ [s]) ?v" using h l t by (auto simp: args_hold_def packed_snoc)
  moreover have "length (av_argbuf ?v) = length (av_argbuf v)" using h l by (simp add: args_hold_def)
  ultimately show ?thesis by blast
qed

lemma args_hold_strings:
  assumes h: "args_hold strs v" and z: "\<forall>s \<in> set strs. nul_char \<notin> set s"
  shows "argv_strings v = map Some strs"
proof (rule nth_equalityI)
  show l: "length (argv_strings v) = length (map Some strs)" using h by (simp add: argv_strings_def args_hold_def)
  fix i assume "i < length (argv_strings v)"
  then have i: "i < length strs" using l by simp
  have "packed strs = packed (take i strs) @ strs ! i @ nul_char # packed (drop (Suc i) strs)"
    using id_take_nth_drop [OF i] by (metis append_Cons append_Nil append_assoc concat.simps(2) concat_append list.simps(9) map_append packed_def)
  moreover have "av_argbuf v = packed strs @ drop (av_index v) (av_argbuf v)"
    using h by (metis append_take_drop_id args_hold_def)
  ultimately have "drop (length (packed (take i strs))) (av_argbuf v)
      = strs ! i @ nul_char # packed (drop (Suc i) strs) @ drop (av_index v) (av_argbuf v)"
    by (metis append.assoc append_Cons append_eq_conv_conj)
  moreover have "nul_char \<notin> set (strs ! i)" using z i by simp
  ultimately have "c_chars (drop (length (packed (take i strs))) (av_argbuf v)) = Some (strs ! i)"
    by (auto simp: c_chars_def takeWhile_tail)
  then show "argv_strings v ! i = map Some strs ! i" using h i by (simp add: argv_strings_def args_hold_def)
qed

text \<open>The words of a line with a space between any two, and what is left of the line from each word on.\<close>

fun line_of :: "string list \<Rightarrow> string" where
  "line_of [] = []"
| "line_of [w] = w"
| "line_of (w # ws) = w @ CHR '' '' # line_of ws"

definition line_rests :: "string list \<Rightarrow> string list" where
  "line_rests ws = map (\<lambda>i. line_of (drop i ws)) [0..<length ws]"

definition word_ok :: "string \<Rightarrow> bool" where
  "word_ok w \<longleftrightarrow> w \<noteq> [] \<and> (\<forall>c \<in> set w. c \<noteq> nul_char \<and> \<not> isspace c)"

lemma line_rests_Cons: "line_rests (w # ws) = line_of (w # ws) # line_rests ws"
proof -
  have "[0..<length (w # ws)] = 0 # map Suc [0..<length ws]"
    unfolding map_Suc_upt list.size using upt_conv_Cons [of 0 "Suc (length ws)"] by simp
  then show ?thesis by (simp add: line_rests_def)
qed

lemma line_of_no_nul: "\<forall>w \<in> set ws. word_ok w \<Longrightarrow> nul_char \<notin> set (line_of ws)"
  by (induction ws rule: line_of.induct) (auto simp: word_ok_def)

lemma word_start: "word_ok w \<Longrightarrow> \<exists>c cs. w = c # cs \<and> \<not> isspace c \<and> c \<noteq> nul_char"
  by (cases w) (auto simp: word_ok_def)

lemma line_of_start: "\<exists>t. line_of (w # ws) = w @ t"
  by (cases ws) auto

lemma c_chars_line: "nul_char \<notin> set s \<Longrightarrow> c_chars (s @ nul_char # r) = Some s"
  by (auto simp: c_chars_def takeWhile_tail)

lemma word_end:
  "word_ok w \<Longrightarrow> d = nul_char \<or> isspace d \<Longrightarrow> dropWhile (\<lambda>c. c \<noteq> nul_char \<and> \<not> isspace c) (w @ d # r) = d # r"
  by (subst dropWhile_append2) (auto simp: word_ok_def)

lemma arg_loop_rests:
  "\<forall>w \<in> set ws. word_ok w \<Longrightarrow> args_hold strs v \<Longrightarrow> length strs + length ws \<le> n \<Longrightarrow>
    length (packed (strs @ line_rests ws)) \<le> length (av_argbuf v) \<Longrightarrow>
    \<exists>v' q. arg_loop n (line_of ws @ nul_char # r) v = Some (KSuccess, v', q) \<and> args_hold (strs @ line_rests ws) v'"
proof (induction ws arbitrary: strs v)
  case Nil
  have "dropWhile isspace (nul_char # r) = nul_char # r" by (simp add: isspace_def)
  then show ?case using Nil(2) by (simp add: line_rests_def)
next
  case (Cons w ws)
  let ?s = "line_of (w # ws)" and ?p = "line_of (w # ws) @ nul_char # r"
  have w: "word_ok w" using Cons.prems(1) by simp
  obtain c cs where c: "?s = c # cs" "\<not> isspace c" "c \<noteq> nul_char"
    using word_start [OF w] line_of_start [of w ws] by auto
  have skip: "dropWhile isspace ?p = c # cs @ nul_char # r" using c by simp
  have chars: "c_chars (c # cs @ nul_char # r) = Some ?s"
    using c_chars_line [OF line_of_no_nul [OF Cons.prems(1)], of r] c(1) by simp
  have fits: "length (packed (strs @ [?s])) \<le> length (av_argbuf v)"
    using Cons.prems(4) by (simp add: line_rests_Cons packed_def)
  obtain v1 where push: "push_to_argv n ?s v = Some (KSuccess, v1)" "args_hold (strs @ [?s]) v1"
    "length (av_argbuf v1) = length (av_argbuf v)"
    using args_hold_push [OF Cons.prems(2) _ fits, of n] Cons.prems(3) by auto
  show ?case
  proof (cases ws)
    case Nil
    then have "dropWhile (\<lambda>c. c \<noteq> nul_char \<and> \<not> isspace c) (c # cs @ nul_char # r) = nul_char # r"
      using word_end [OF w, of nul_char r] c(1) by simp
    then have "arg_loop n ?p v = Some (KSuccess, v1, ?p)"
      using skip chars push(1) c(3) by (subst arg_loop.simps) simp
    then show ?thesis using push(2) Nil by (simp add: line_rests_Cons line_rests_def)
  next
    case (Cons w2 ws2)
    have e: "c # cs @ nul_char # r = w @ CHR '' '' # (line_of ws @ nul_char # r)" using c(1) Cons by simp
    have "dropWhile (\<lambda>c. c \<noteq> nul_char \<and> \<not> isspace c) (c # cs @ nul_char # r) = CHR '' '' # (line_of ws @ nul_char # r)"
      unfolding e by (rule word_end [OF w]) (simp add: isspace_def)
    moreover obtain v2 q where "arg_loop n (line_of ws @ nul_char # r) v1 = Some (KSuccess, v2, q)"
      "args_hold ((strs @ [?s]) @ line_rests ws) v2"
      using Cons.IH [OF _ push(2)] Cons.prems push(3) by (auto simp: line_rests_Cons)
    ultimately show ?thesis
      using skip chars push(1) c(3) by (subst arg_loop.simps) (simp add: line_rests_Cons)
  qed
qed

text \<open>
  C40: for a command followed by words, which fit into the argument page, \<open>MakeArgVector\<close> succeeds, but what the
  application reads as an argument is the whole rest of the line from that word on, not the word: the line is
  copied before the zero behind the word is put into it.
\<close>

theorem make_arg_vector_rests:
  assumes "\<forall>w \<in> set ws. word_ok w" and "nul_char \<notin> set command" and "length ws < n"
    and "length (packed (command # line_rests ws)) \<le> length argbuf"
  shows "\<exists>v q. make_arg_vector n command (Some (line_of ws @ nul_char # r)) argbuf = Some (KSuccess, v, q)
    \<and> av_argc v = Suc (length ws) \<and> argv_strings v = map Some (command # line_rests ws)"
proof -
  let ?v0 = "\<lparr>av_argc = 0, av_index = 0, av_argv = [], av_argbuf = argbuf\<rparr>"
  have "args_hold [] ?v0" by (simp add: args_hold_def packed_def)
  moreover have "length (packed ([] @ [command])) \<le> length argbuf" using assms(4) by (simp add: packed_def)
  ultimately obtain v1 where v1: "push_to_argv n command ?v0 = Some (KSuccess, v1)" "args_hold [command] v1"
    "length (av_argbuf v1) = length argbuf"
    using args_hold_push [of "[]" ?v0 n command] assms(3) by auto
  obtain v2 q where v2: "arg_loop n (line_of ws @ nul_char # r) v1 = Some (KSuccess, v2, q)"
    "args_hold (command # line_rests ws) v2"
    using arg_loop_rests [OF assms(1) v1(2), of n r] assms(3,4) v1(3) by auto
  have "\<forall>s \<in> set (command # line_rests ws). nul_char \<notin> set s"
    using assms(1,2) line_of_no_nul by (auto simp: line_rests_def dest: in_set_dropD)
  then have "argv_strings v2 = map Some (command # line_rests ws)" by (rule args_hold_strings [OF v2(2)])
  moreover have "av_argc v2 = Suc (length ws)" using v2(2) by (simp add: args_hold_def line_rests_def)
  ultimately show ?thesis using v1(1) v2(1) by (auto simp: make_arg_vector_def)
qed

text \<open>
  The line \<open>rpn 1 2 + 3 +\<close>: with the words as arguments the calculator prints 6, with the arguments the
  terminal makes of them it takes the first sum for a zero and reports an error.
\<close>

lemma line_rests_sample:
  "line_rests [''1'', ''2'', ''+'', ''3'', ''+''] = [''1 2 + 3 +'', ''2 + 3 +'', ''+ 3 +'', ''3 +'', ''+'']"
  by (simp add: line_rests_Cons) (simp add: line_rests_def)

theorem make_arg_vector_rests_witness:
  "\<exists>v q. make_arg_vector argv_len ''rpn'' (Some (''1 2 + 3 +'' @ [nul_char])) (replicate argbuf_len nul_char) = Some (KSuccess, v, q)
    \<and> argv_strings v = map Some [''rpn'', ''1 2 + 3 +'', ''2 + 3 +'', ''+ 3 +'', ''3 +'', ''+'']
    \<and> rpn_main (replicate 128 7) [''rpn'', ''1'', ''2'', ''+'', ''3'', ''+''] =
        Some [AppLog ''#'', AppLog ''#'', AppLog ''+'', AppLog ''#'', AppLog ''+'',
          AppPrint (''result = 6'' @ [CHR ''\<newline>'']), AppExit 6]
    \<and> rpn_main (replicate 128 7) [''rpn'', ''1 2 + 3 +'', ''2 + 3 +'', ''+ 3 +'', ''3 +'', ''+''] =
        Some [AppLog ''#'', AppLog ''#'', AppLog ''#'', AppLog ''#'', AppLog ''+'', AppPrint ''there is errors'', AppExit 1]"
proof -
  let ?ws = "[''1'', ''2'', ''+'', ''3'', ''+'']"
  have w: "\<forall>w \<in> set ?ws. word_ok w" by (simp add: word_ok_def isspace_def)
  have l: "line_of ?ws = ''1 2 + 3 +''" by simp
  have "length (packed (''rpn'' # line_rests ?ws)) \<le> length (replicate argbuf_len nul_char)"
    unfolding line_rests_sample by (simp add: packed_def argbuf_len_def argv_len_def)
  moreover have "nul_char \<notin> set ''rpn''" "length ?ws < argv_len" by (simp_all add: argv_len_def)
  ultimately obtain v q where
    "make_arg_vector argv_len ''rpn'' (Some (''1 2 + 3 +'' @ [nul_char])) (replicate argbuf_len nul_char) = Some (KSuccess, v, q)"
    "argv_strings v = map Some (''rpn'' # line_rests ?ws)"
    using make_arg_vector_rests [OF w, of "''rpn''" argv_len "replicate argbuf_len nul_char" "[]"] unfolding l by blast
  moreover have "rpn_main (replicate 128 7) (''rpn'' # ?ws) =
      Some [AppLog ''#'', AppLog ''#'', AppLog ''+'', AppLog ''#'', AppLog ''+'',
        AppPrint (''result = 6'' @ [CHR ''\<newline>'']), AppExit 6]" by code_simp
  moreover have "rpn_main (replicate 128 7) (''rpn'' # line_rests ?ws) =
      Some [AppLog ''#'', AppLog ''#'', AppLog ''#'', AppLog ''#'', AppLog ''+'', AppPrint ''there is errors'', AppExit 1]"
    unfolding line_rests_sample by code_simp
  ultimately show ?thesis unfolding line_rests_sample by blast
qed

end
