(* ===== verification/App_Library.thy ===== *)
theory App_Library
  imports Syscalls
begin

unbundle bit_operations_syntax

text \<open>
  What the C library calls: \<open>Kernel/newlib_support.c\<close> in the kernel, where only \<open>sbrk\<close> (\<open>Memory_Init\<close>)
  does something, and \<open>apps/newlib_support.c\<close> in an application, where \<open>write\<close> is a system call.  The state
  of the library is \<open>errno\<close>; an operation returns its result and the state.  What the registers of the
  fourth and fifth argument hold when \<open>write\<close> calls the kernel is an argument.
\<close>

definition ENOMEM :: int where
  "ENOMEM = 12"

record libc =
  lc_errno :: int

definition libc_fail :: "int \<Rightarrow> libc \<Rightarrow> int \<times> libc" where
  "libc_fail e c = (- 1, c\<lparr>lc_errno := e\<rparr>)"

section \<open>In the kernel\<close>

definition kernel_getpid :: int where
  "kernel_getpid = 1"

definition kernel_kill :: "int \<Rightarrow> int \<Rightarrow> libc \<Rightarrow> int \<times> libc" where
  "kernel_kill pid sig = libc_fail EINVAL"

definition kernel_close :: "int \<Rightarrow> libc \<Rightarrow> int \<times> libc" where
  "kernel_close fd = libc_fail EBADF"

definition kernel_lseek :: "int \<Rightarrow> int \<Rightarrow> int \<Rightarrow> libc \<Rightarrow> int \<times> libc" where
  "kernel_lseek fd offset whence = libc_fail EBADF"

definition kernel_read :: "int \<Rightarrow> u64 \<Rightarrow> u64 \<Rightarrow> libc \<Rightarrow> int \<times> libc" where
  "kernel_read fd buf nbytes = libc_fail EBADF"

definition kernel_write :: "int \<Rightarrow> u64 \<Rightarrow> u64 \<Rightarrow> libc \<Rightarrow> int \<times> libc" where
  "kernel_write fd buf nbytes = libc_fail EBADF"

definition kernel_fstat :: "int \<Rightarrow> u64 \<Rightarrow> libc \<Rightarrow> int \<times> libc" where
  "kernel_fstat fd buf = libc_fail EBADF"

definition kernel_isatty :: "int \<Rightarrow> libc \<Rightarrow> int \<times> libc" where
  "kernel_isatty fd = libc_fail EBADF"

text \<open>\<open>posix_memalign\<close> of the C++ library's support.\<close>

definition posix_memalign :: "u64 \<Rightarrow> u64 \<Rightarrow> u64 \<Rightarrow> int" where
  "posix_memalign memptr alignment n = ENOMEM"

section \<open>In an application\<close>

definition app_close :: "int \<Rightarrow> libc \<Rightarrow> int \<times> libc" where
  "app_close fd = libc_fail EBADF"

definition app_fstat :: "int \<Rightarrow> u64 \<Rightarrow> libc \<Rightarrow> int \<times> libc" where
  "app_fstat fd buf = libc_fail EBADF"

definition app_isatty :: "int \<Rightarrow> libc \<Rightarrow> int \<times> libc" where
  "app_isatty fd = libc_fail EBADF"

definition app_lseek :: "int \<Rightarrow> int \<Rightarrow> int \<Rightarrow> libc \<Rightarrow> int \<times> libc" where
  "app_lseek fd offset whence = libc_fail EBADF"

definition app_read :: "int \<Rightarrow> u64 \<Rightarrow> u64 \<Rightarrow> libc \<Rightarrow> int \<times> libc" where
  "app_read fd buf nbytes = libc_fail EBADF"

definition app_sbrk :: "int \<Rightarrow> libc \<Rightarrow> int \<times> libc" where
  "app_sbrk incr = libc_fail ENOMEM"

definition app_write ::
  "sys_env \<Rightarrow> u64 \<Rightarrow> u64 \<Rightarrow> int \<Rightarrow> u64 \<Rightarrow> u64 \<Rightarrow> libc \<times> kernel_world \<Rightarrow> (int \<times> libc \<times> kernel_world) option" where
  "app_write env fourth fifth fd buf nbytes p =
    (case p of (c, w) \<Rightarrow> do {
       (res, w') \<leftarrow> syscall_entry env 0x80000001 (of_int fd) buf nbytes fourth fifth w;
       if sr_error res = 0 then Some (sint (sr_value res), c, w')
       else (let (r, c') = libc_fail (sr_error res) c in Some (r, c', w'))
     })"

text \<open>
  The writes the kernel refuses: more than 1024 bytes, or another file than standard output.  Both leave the
  kernel as it is and put the reason into \<open>errno\<close>.
\<close>

lemma app_write_refused:
  assumes "1024 < nbytes \<or> of_int fd \<noteq> (1 :: u64)"
  shows "app_write env fourth fifth fd buf nbytes (c, w) =
    Some (- 1, c\<lparr>lc_errno := if 1024 < nbytes then E2BIG else EBADF\<rparr>, w)"
proof -
  have n: "unat ((0x80000001 :: u32) AND 0x7FFFFFFF) = 1" by simp
  show ?thesis
    using assms
    by (auto simp: app_write_def syscall_entry_def n syscall_table_def arr_get_def sys_put_string_def sys_ok_def
        libc_fail_def EBADF_def E2BIG_def)
qed

end
