(* ===== verification/Spec2Isabelle.thy ===== *)
theory Spec2Isabelle
  imports Kernel_Prelude Array_Queue Task_Properties Bit_Field Memory_Init Timer_Mgr Elf_Loader Fat_Volume Xhci_Trb Xhci_Ring Array_Map Layers Usb_Input Xhci_Phases Xhci_Startup Input_Devices Pci_Msi Console_Text Terminal_Edit Acpi Descriptors Fault_Screen Main_Props Kernel_Start Xhci_Blocks Page_Walk Boot_Loader App_Rpn App_Library
begin

text \<open>
  The kernel of mikanos: a verification development.

  The kernel is event driven.  Interrupt handlers put messages into the mailboxes of tasks (\<open>task.cpp\<close>,
  \<open>timer.cpp\<close>, \<open>interrupt.cpp\<close>); the main task reads its mailbox, lets the xHCI driver handle its event ring
  and draws layers; a terminal is a task that reads keys, edits a line and runs commands, among them
  applications loaded from a FAT volume.  The USB driver finds its controller on the PCI bus, starts it,
  addresses and configures the devices behind its ports and hands the data of keyboard and mouse on as
  messages.

  Conventions.  A C++ object is a record, a pointer an index into the list of objects it may point to or
  an address, a \<open>w\<close>-bit integer a \<open>w word\<close>; an \<open>int\<close> that stays far from its bounds is an \<open>int\<close> or
  \<open>nat\<close>.  Undefined behaviour (reading past an array, dereferencing a null pointer) and a call that does
  not come back are \<open>None\<close>; an \<open>Error\<close> of the code is a value of \<open>error_code\<close>.  Hardware is explicit: what
  is stored to memory or registers is a list of stores or a map, and what a device answers is a
  parameter.  Log lines of the kernel are left out but for the memory they read; the log itself is modelled
  for the applications that write to it.

  \<^bold>\<open>Start.\<close>  \<open>Boot_Loader\<close> models \<open>BootLoader/Main.c\<close> on UEFI services that are parameters: the kernel's segments
  are shown to lie where its program headers say, and the memory map handed over to be the one the services
  gave when they were left.  \<open>Kernel_Start\<close> models \<open>kernel_main_new_stack\<close> of \<open>main.cpp\<close> in the order of its calls
  and \<open>usb::xhci::Initialize\<close>; it composes the theories below, and shows that heap and stacks are separate runs of
  available memory and that the main task and the terminal hand the processor to each other.  \<open>Descriptors\<close>
  models segments, task state segment and interrupt table, \<open>Acpi\<close> the ACPI tables and the wait on the power
  management timer, \<open>Fault_Screen\<close> what the handlers of exceptions show.  \<open>Main_Loop\<close> models the windows, the text
  box and the message loop of the main task, \<open>Main_Props\<close> has its properties.

  \<^bold>\<open>Tasks.\<close>  \<open>Array_Queue\<close> models \<open>queue.hpp\<close> and shows that the ring buffer is a bounded queue.
  \<open>Task_Sched\<close> models \<open>task.cpp\<close> with the contexts of \<open>asmfunc.asm\<close> and \<open>Kernel_Message\<close> the messages;
  \<open>Task_Invariant\<close> has the invariant of the run queues and \<open>Task_Properties\<close> shows that no operation is
  undefined on a manager built by its operations, that a task is in exactly the queue of its level while
  it runs, preemption, sleeping and waking.  \<open>Timer_Mgr\<close> models the timer queue and shows that a tick
  delivers exactly the expired timers and switches tasks every second tick.

  \<^bold>\<open>Memory.\<close>  \<open>Memory_Manager\<close> and \<open>Memory_Init\<close> model \<open>memory_manager.cpp\<close>: first-fit allocation, its inverse,
  and that after set-up only frames the boot loader reported as available are handed out.  \<open>Paging\<close> and
  \<open>Page_Init\<close> model \<open>paging.cpp\<close> with the processor's walk of the tables, \<open>Page_Walk\<close> shows that every address
  set up for a program is mapped to a frame marked as used, that addresses mapped before keep their frames and
  that the kernel's own mapping stays the identity.  \<open>Elf_Loader\<close> models the loader of \<open>elf.cpp\<close>, \<open>Fat_Volume\<close>
  the volume of \<open>fat.cpp\<close>, where reading a file
  is shown to return the bytes of its chain of clusters.

  \<^bold>\<open>USB.\<close>  \<open>Bit_Field\<close> and \<open>Bit_Layout\<close> model the bit fields of \<open>register.hpp\<close> and the structures of
  \<open>usb/xhci/*.hpp\<close>; \<open>Xhci_Registers\<close>, \<open>Xhci_Blocks\<close>, \<open>Xhci_Trb\<close> and \<open>Xhci_Ring\<close> the registers and where they are, transfer
  request blocks and rings, where a ring is shown to be a queue for a reader that follows the cycle bit.  \<open>Usb_Setup\<close>,
  \<open>Usb_Device\<close> and \<open>Usb_Driver\<close> model requests, descriptors, contexts, transfers, class drivers and the
  phases of a device; \<open>Usb_Device_Type\<close>, \<open>Usb_Transfer\<close> and \<open>Usb_Input\<close> hold their invariant and properties.
  \<open>Xhci_Controller\<close> models \<open>xhci.cpp\<close>, \<open>port.cpp\<close> and \<open>devmgr.cpp\<close>, \<open>Xhci_Startup\<close> the start of the controller,
  and \<open>Xhci_Phases\<close> shows that events refine a state machine of port phases in which at most one port is
  being addressed.  \<open>Usb_Memory\<close> is the driver's allocator, \<open>Array_Map\<close> its fixed table and \<open>Usb_Endpoint\<close> its
  endpoint numbers.  \<open>Pci_Bus\<close> models \<open>pci.cpp\<close>; \<open>Pci_Scan\<close> shows that the scan of all buses returns on every
  configuration space and finds the functions of a depth-first walk, \<open>Pci_Msi\<close> that message signalled
  interrupts are programmed at the first capability for them.

  \<^bold>\<open>Screen.\<close>  \<open>Graphics\<close> models the drawing functions over any pixel writer, \<open>Frame_Buffer\<close> the pixels in memory,
  \<open>Window\<close> and \<open>Layers\<close> windows and the stack of layers, where the screen is shown to have, at every pixel,
  the topmost window that covers it.  \<open>Input_Devices\<close> models keyboard and mouse.  \<open>Console_Text\<close> shows that
  the console's screen is the text put on it.  \<open>Terminal_View\<close>, \<open>Terminal_Exec\<close> and \<open>Terminal_Input\<close> model
  \<open>terminal.cpp\<close>, and \<open>Terminal_Edit\<close> shows that its keys implement a line editor.  \<open>Terminal_Print\<close> has what
  printing does to the cursor.

  \<^bold>\<open>Applications.\<close>  \<open>Syscalls\<close> models the table of system calls, their entry and the registers that enable it; \<open>App_Rpn\<close>
  models \<open>apps/rpn\<close> with the splitting of the command line, and shows that it evaluates expressions in postfix
  notation; \<open>App_Library\<close> the stubs under the C library in the kernel and in the applications.

  Interfaces are locales, each interpreted on the model: a system with an invariant (\<open>safe_system\<close>: the
  scheduler, the USB controller), a bounded queue (\<open>fifo_queue\<close>), a priority queue (\<open>timer_queue\<close>), an allocator
  of frames (\<open>frame_allocator\<close>), a table (\<open>bounded_map\<close>), and the surface drawing functions write on (\<open>canvas\<close>: the
  screen, windows, the inner area of a window, a layer's window).

  Bounds.  Loops of the code are structural recursions, functions with a termination proof, or partial
  functions where the code may not return (the reader of configuration descriptors, the chain of
  clusters, the lists of capabilities, an event ring that is filled while it is read, C strings).  The recursion of the scan of the buses has fuel 33: the table of
  functions has 32 places, and every step down has filled one.

  Not modelled.  In the boot loader: \<open>SaveMemoryMap\<close>, which nothing calls, and the lookups of protocols behind
  their results.  In the kernel: \<open>_exit\<close> and the handler of failing \<open>new\<close>, which stop; the saving of registers in
  the assembler stubs, beyond the contexts of tasks; the font's data, a parameter; the text of most log lines.
  \<open>main_example.cpp\<close> is an older main program that is not built.  What applications other than \<open>rpn\<close> do.
\<close>

end
